(* ===== verification/Prelude.thy ===== *)
theory Prelude
  imports "HOL-Library.Word" "HOL-Library.Char_ord" "HOL-Library.List_Lexorder"
begin

text \<open>
  What every component shares: the run of a step function over a list of events with its
  outputs, the contracts a step function can meet (an invariant, a promise about its outputs, a
  bound on a counter), stated as locales, the ordered map that models \<open>QMap\<close>, operations on texts, decimal
  rendering of integers (\<open>QString::number\<close>, \<open>QString::arg\<close>) and list lemmas.
\<close>

named_theorems qmap_simps "how lookups see through the updates of an ordered map"
named_theorems wire_simps "layout of the byte strings that go over a wire"

lemma list_all_True [simp]: "list_all (\<lambda>_. True) xs"
  by (simp add: list_all_def)

section \<open>Runs of step functions\<close>

text \<open>
  A component is a function from its state and one event to the next state and the list of
  things it emits, in order: signals, requests to another component, bytes.
\<close>

fun run :: "('s \<Rightarrow> 'e \<Rightarrow> 's \<times> 'o list) \<Rightarrow> 's \<Rightarrow> 'e list \<Rightarrow> 's \<times> 'o list" where
  "run f s [] = (s, [])"
| "run f s (e # es) = (let (s1, o1) = f s e; (s2, o2) = run f s1 es in (s2, o1 @ o2))"

lemma run_Cons_fst [simp]: "fst (run f s (e # es)) = fst (run f (fst (f s e)) es)"
  by (simp add: case_prod_beta Let_def)

lemma run_Cons_snd [simp]: "snd (run f s (e # es)) = snd (f s e) @ snd (run f (fst (f s e)) es)"
  by (simp add: case_prod_beta Let_def)

declare run.simps(2) [simp del]

lemma run_append_fst: "fst (run f s (es @ fs)) = fst (run f (fst (run f s es)) fs)"
  by (induction es arbitrary: s) auto

lemma run_append_snd:
  "snd (run f s (es @ fs)) = snd (run f s es) @ snd (run f (fst (run f s es)) fs)"
  by (induction es arbitrary: s) auto

lemma run_output_at:
  "x \<in> set (snd (run f s es)) \<longleftrightarrow>
    (\<exists>es1 e es2. es = es1 @ e # es2 \<and> x \<in> set (snd (f (fst (run f s es1)) e)))"
proof (induction es arbitrary: s)
  case (Cons e es)
  show ?case
  proof
    assume "x \<in> set (snd (run f s (e # es)))"
    then consider "x \<in> set (snd (f s e))" | "x \<in> set (snd (run f (fst (f s e)) es))" by auto
    then show "\<exists>es1 e' es2. e # es = es1 @ e' # es2 \<and> x \<in> set (snd (f (fst (run f s es1)) e'))"
    proof cases
      case 1
      then show ?thesis by (intro exI [of _ "[]"]) simp
    next
      case 2
      with Cons obtain es1 e' es2 where "es = es1 @ e' # es2"
        "x \<in> set (snd (f (fst (run f (fst (f s e)) es1)) e'))" by auto
      then show ?thesis by (intro exI [of _ "e # es1"]) simp
    qed
  next
    assume "\<exists>es1 e' es2. e # es = es1 @ e' # es2 \<and> x \<in> set (snd (f (fst (run f s es1)) e'))"
    then show "x \<in> set (snd (run f s (e # es)))"
      by (auto simp: Cons_eq_append_conv run_append_snd)
  qed
qed simp

subsection \<open>Contracts of a step function\<close>

text \<open>
  \<open>keeps\<close>: every allowed event keeps the invariant.  \<open>promises\<close>: from a state of the
  invariant every output is good.  \<open>metered\<close>: a potential that each output of interest uses
  up, so that their number over a run is bounded.
\<close>

locale keeps =
  fixes step :: "'s \<Rightarrow> 'e \<Rightarrow> 's \<times> 'o list"
    and allowed :: "'e \<Rightarrow> bool"
    and inv :: "'s \<Rightarrow> bool"
  assumes inv_step: "inv s \<Longrightarrow> allowed e \<Longrightarrow> inv (fst (step s e))"
begin

lemma inv_run: "inv s \<Longrightarrow> list_all allowed es \<Longrightarrow> inv (fst (run step s es))"
  by (induction es arbitrary: s) (auto intro: inv_step)

lemma inv_prefix:
  "inv s \<Longrightarrow> list_all allowed (es @ fs) \<Longrightarrow> inv (fst (run step s es))"
  by (rule inv_run) auto

end

locale promises = keeps +
  fixes good :: "'o \<Rightarrow> bool"
  assumes good_step: "inv s \<Longrightarrow> allowed e \<Longrightarrow> x \<in> set (snd (step s e)) \<Longrightarrow> good x"
begin

lemma good_run:
  "inv s \<Longrightarrow> list_all allowed es \<Longrightarrow> x \<in> set (snd (run step s es)) \<Longrightarrow> good x"
  by (induction es arbitrary: s) (auto intro: inv_step good_step)

end

locale metered = keeps +
  fixes meter :: "'s \<Rightarrow> nat"
    and counted :: "'o \<Rightarrow> bool"
  assumes meter_step: "inv s \<Longrightarrow> allowed e \<Longrightarrow>
    meter (fst (step s e)) + length (filter counted (snd (step s e))) \<le> meter s"
begin

lemma meter_run:
  assumes "inv s" and "list_all allowed es"
  shows "meter (fst (run step s es)) + length (filter counted (snd (run step s es))) \<le> meter s"
  using assms
proof (induction es arbitrary: s)
  case Nil
  then show ?case by simp
next
  case (Cons e es)
  then have now: "meter (fst (step s e)) + length (filter counted (snd (step s e))) \<le> meter s"
    by (simp add: meter_step)
  from Cons have "meter (fst (run step (fst (step s e)) es))
      + length (filter counted (snd (run step (fst (step s e)) es))) \<le> meter (fst (step s e))"
    by (auto intro: inv_step)
  with now show ?case by simp
qed

lemma counted_run:
  "inv s \<Longrightarrow> list_all allowed es \<Longrightarrow> length (filter counted (snd (run step s es))) \<le> meter s"
  using meter_run [of s es] by simp

end

section \<open>Ordered maps\<close>

text \<open>
  \<open>QMap\<close> keeps its entries sorted by key and iterates in key order: an association list,
  strictly sorted.  \<open>qm_insert\<close> is \<open>QMap::insert\<close> and assignment through
  \<open>operator[]\<close>; \<open>qm_remove\<close> is \<open>QMap::remove\<close>; lookup is
  \<^const>\<open>map_of\<close>.
\<close>

type_synonym ('k, 'v) qmap = "('k \<times> 'v) list"

fun qm_insert :: "'k::linorder \<Rightarrow> 'v \<Rightarrow> ('k, 'v) qmap \<Rightarrow> ('k, 'v) qmap" where
  "qm_insert k v [] = [(k, v)]"
| "qm_insert k v ((k', v') # m) =
     (if k < k' then (k, v) # (k', v') # m
      else if k = k' then (k, v) # m
      else (k', v') # qm_insert k v m)"

definition qm_remove :: "'k \<Rightarrow> ('k, 'v) qmap \<Rightarrow> ('k, 'v) qmap" where
  "qm_remove k m = filter (\<lambda>p. fst p \<noteq> k) m"

definition qm_value :: "('k, 'v) qmap \<Rightarrow> 'k \<Rightarrow> 'v \<Rightarrow> 'v" where
  "qm_value m k d = (case map_of m k of None \<Rightarrow> d | Some v \<Rightarrow> v)"

definition qm_modify :: "'k::linorder \<Rightarrow> ('v \<Rightarrow> 'v) \<Rightarrow> ('k, 'v) qmap \<Rightarrow> ('k, 'v) qmap" where
  "qm_modify k f m = (case map_of m k of None \<Rightarrow> m | Some v \<Rightarrow> qm_insert k (f v) m)"

definition qm_ok :: "('k::linorder, 'v) qmap \<Rightarrow> bool" where
  "qm_ok m \<longleftrightarrow> sorted_wrt (<) (map fst m)"

lemma qm_keys_insert: "set (map fst (qm_insert k v m)) = insert k (set (map fst m))"
  by (induction k v m rule: qm_insert.induct) auto

lemma qm_ok_empty: "qm_ok []"
  by (simp add: qm_ok_def)

lemma qm_ok_Cons:
  "qm_ok ((k, v) # m) \<longleftrightarrow> (\<forall>x \<in> set (map fst m). k < x) \<and> qm_ok m"
  by (simp add: qm_ok_def)

lemma qm_ok_insert: "qm_ok m \<Longrightarrow> qm_ok (qm_insert k v m)"
proof (induction k v m rule: qm_insert.induct)
  case (2 k v k' v' m)
  then show ?case
    using qm_keys_insert [of k v m] by (auto simp: qm_ok_Cons simp del: set_map)
qed (simp add: qm_ok_def)

lemma qm_ok_remove: "qm_ok m \<Longrightarrow> qm_ok (qm_remove k m)"
proof (induction m)
  case (Cons p m)
  then show ?case by (cases p) (auto simp: qm_remove_def qm_ok_Cons)
qed (simp add: qm_remove_def)

lemma qm_find_insert: "map_of (qm_insert k v m) k' = (if k' = k then Some v else map_of m k')"
  by (induction k v m rule: qm_insert.induct) auto

lemma qm_find_remove: "map_of (qm_remove k m) k' = (if k' = k then None else map_of m k')"
  by (induction m) (auto simp: qm_remove_def)

lemma qm_ok_distinct: "qm_ok m \<Longrightarrow> distinct (map fst m)"
  by (simp add: qm_ok_def strict_sorted_iff)

text \<open>
  The interface the components use: what a lookup sees after an insertion, a removal and a
  modification, whatever the representation, with the derived operations' laws proved once.
\<close>

locale ordered_map =
  fixes find :: "'m \<Rightarrow> 'k \<Rightarrow> 'v option"
    and insert_at :: "'k \<Rightarrow> 'v \<Rightarrow> 'm \<Rightarrow> 'm"
    and remove_at :: "'k \<Rightarrow> 'm \<Rightarrow> 'm"
    and modify_at :: "'k \<Rightarrow> ('v \<Rightarrow> 'v) \<Rightarrow> 'm \<Rightarrow> 'm"
    and wf :: "'m \<Rightarrow> bool"
  assumes find_insert: "find (insert_at k v m) k' = (if k' = k then Some v else find m k')"
    and find_remove: "find (remove_at k m) k' = (if k' = k then None else find m k')"
    and modify_eq: "modify_at k f m =
      (case find m k of None \<Rightarrow> m | Some v \<Rightarrow> insert_at k (f v) m)"
    and wf_insert: "wf m \<Longrightarrow> wf (insert_at k v m)"
    and wf_remove: "wf m \<Longrightarrow> wf (remove_at k m)"
begin

lemma find_modify:
  "find (modify_at k f m) k' = (if k' = k then map_option f (find m k') else find m k')"
  by (auto simp: modify_eq find_insert split: option.splits)

lemma wf_modify: "wf m \<Longrightarrow> wf (modify_at k f m)"
  by (auto simp: modify_eq wf_insert split: option.splits)

lemma dom_insert: "dom (find (insert_at k v m)) = insert k (dom (find m))"
  by (auto simp: dom_def find_insert)

lemma dom_remove: "dom (find (remove_at k m)) = dom (find m) - {k}"
  by (auto simp: dom_def find_remove)

lemma dom_modify: "dom (find (modify_at k f m)) = dom (find m)"
  by (auto simp: dom_def find_modify)

lemma all_insert:
  "\<forall>k v. find m k = Some v \<longrightarrow> P k v \<Longrightarrow> P k0 v0 \<Longrightarrow>
    find (insert_at k0 v0 m) k = Some v \<Longrightarrow> P k v"
  by (auto simp: find_insert split: if_splits)

lemma all_modify:
  "\<forall>k v. find m k = Some v \<longrightarrow> P k v \<Longrightarrow> (\<And>v. P k0 v \<Longrightarrow> P k0 (f v)) \<Longrightarrow>
    find (modify_at k0 f m) k = Some v \<Longrightarrow> P k v"
  by (auto simp: find_modify split: if_splits)

end

interpretation qm: ordered_map map_of qm_insert qm_remove qm_modify qm_ok
  by unfold_locales
    (auto simp: qm_find_insert qm_find_remove qm_modify_def qm_ok_insert qm_ok_remove)

lemmas qm_laws [qmap_simps] = qm_find_insert qm_find_remove qm.find_modify

lemma qm_value_insert [qmap_simps]:
  "qm_value (qm_insert k v m) k' d = (if k' = k then v else qm_value m k' d)"
  by (simp add: qm_value_def qm_find_insert)

lemma qm_value_remove [qmap_simps]:
  "qm_value (qm_remove k m) k' d = (if k' = k then d else qm_value m k' d)"
  by (simp add: qm_value_def qm_find_remove)

lemma qm_value_empty [simp]: "qm_value [] k d = d"
  by (simp add: qm_value_def)

section \<open>Texts\<close>

text \<open>\<open>QString::contains\<close>: the first text is somewhere in the second.\<close>

fun contains_text :: "string \<Rightarrow> string \<Rightarrow> bool" where
  "contains_text p [] \<longleftrightarrow> p = []"
| "contains_text p (c # cs) \<longleftrightarrow> take (length p) (c # cs) = p \<or> contains_text p cs"

text \<open>\<open>QString::replace\<close>: every occurrence, from the left; the pattern is not empty.\<close>

function replace_all :: "string \<Rightarrow> string \<Rightarrow> string \<Rightarrow> string" where
  "replace_all p t [] = []"
| "replace_all p t (c # cs) =
     (if p \<noteq> [] \<and> take (length p) (c # cs) = p then t @ replace_all p t (drop (length p) (c # cs))
      else c # replace_all p t cs)"
  by pat_completeness auto
termination
  by (relation "measure (\<lambda>(p, t, s). length s)") (auto simp: length_greater_0_conv)

text \<open>\<open>QString::toLower\<close>, on ASCII.\<close>

definition ascii_lower :: "char \<Rightarrow> char" where
  "ascii_lower c = (let n = of_char c :: nat in if 65 \<le> n \<and> n \<le> 90 then char_of (n + 32) else c)"

definition to_lower :: "string \<Rightarrow> string" where
  "to_lower = map ascii_lower"

section \<open>Decimal numbers\<close>

text \<open>\<open>QString::number\<close> and the \<open>%1\<close> of \<open>QString::arg\<close> on an integer.\<close>

definition digit_char :: "nat \<Rightarrow> char" where
  "digit_char d = char_of (48 + d)"

fun string_of_nat :: "nat \<Rightarrow> string" where
  "string_of_nat n =
     (if n < 10 then [digit_char n] else string_of_nat (n div 10) @ [digit_char (n mod 10)])"

declare string_of_nat.simps [simp del]

definition string_of_int :: "int \<Rightarrow> string" where
  "string_of_int i = (if i < 0 then ''-'' @ string_of_nat (nat (- i)) else string_of_nat (nat i))"

text \<open>The number that decimal digits continue; \<open>None\<close> when there is another character.\<close>

fun digits_value :: "int \<Rightarrow> string \<Rightarrow> int option" where
  "digits_value n [] = Some n"
| "digits_value n (c # cs) =
     (let k = (of_char c :: int) - 48 in if 0 \<le> k \<and> k \<le> 9 then digits_value (10 * n + k) cs else None)"

lemma string_of_nat_nonempty [simp]: "string_of_nat n \<noteq> []" "[] \<noteq> string_of_nat n"
  by (simp_all add: string_of_nat.simps [of n])

lemma digit_char_eq: "d < 10 \<Longrightarrow> e < 10 \<Longrightarrow> digit_char d = digit_char e \<longleftrightarrow> d = e"
  by (simp add: digit_char_def char_of_eq_iff take_bit_nat_eq_self)

lemma string_of_nat_inject [simp]: "string_of_nat n = string_of_nat m \<longleftrightarrow> n = m"
proof (induction n arbitrary: m rule: string_of_nat.induct)
  case (1 n)
  have "n = m" if eq: "string_of_nat n = string_of_nat m"
  proof (cases "n < 10 \<or> m < 10")
    case True
    then show ?thesis
      using eq string_of_nat.simps [of n] string_of_nat.simps [of m]
      by (auto simp: digit_char_eq split: if_splits)
  next
    case False
    then have "string_of_nat (n div 10) = string_of_nat (m div 10)"
      and "digit_char (n mod 10) = digit_char (m mod 10)"
      using eq string_of_nat.simps [of n] string_of_nat.simps [of m] by auto
    with 1 False have "n div 10 = m div 10" "n mod 10 = m mod 10" by (auto simp: digit_char_eq)
    then show ?thesis by (metis div_mult_mod_eq)
  qed
  then show ?case by blast
qed

section \<open>Lists\<close>

lemma concat_singletons [simp]: "concat (map (\<lambda>x. [x]) xs) = xs"
  by (induction xs) auto

lemma take_drop_step: "take m (drop n xs) @ drop (n + m) xs = drop n xs"
  by (metis add.commute append_take_drop_id drop_drop)

end
