(* ===== verification/Json.thy ===== *)
theory Json
  imports Prelude
begin

text \<open>
  JSON values as the program sees them through \<open>QJsonValue\<close> and \<open>QJsonObject\<close>: an object
  is an ordered map, a missing key reads as \<open>Undefined\<close>, and each accessor
  (\<open>toString\<close>, \<open>toBool\<close>, \<open>toInt\<close>, \<open>toArray\<close>, \<open>toObject\<close>) returns its
  default on a value of another kind.
\<close>

text \<open>
  \<open>JInt\<close> is a number of integral value, \<open>JReal\<close> a number that is not, kept as its text:
  the accessors below all treat it as a value of another kind.
\<close>

datatype json =
    JUndefined
  | JNull
  | JBool bool
  | JInt int
  | JReal string
  | JStr string
  | JArr "json list"
  | JObj "(string \<times> json) list"

type_synonym jobject = "(string, json) qmap"

definition jvalue :: "jobject \<Rightarrow> string \<Rightarrow> json" where
  "jvalue ob k = qm_value ob k JUndefined"

definition jcontains :: "jobject \<Rightarrow> string \<Rightarrow> bool" where
  "jcontains ob k \<longleftrightarrow> map_of ob k \<noteq> None"

fun to_string_or :: "string \<Rightarrow> json \<Rightarrow> string" where
  "to_string_or d (JStr s) = s"
| "to_string_or d _ = d"

abbreviation to_string :: "json \<Rightarrow> string" where
  "to_string \<equiv> to_string_or []"

fun to_bool :: "json \<Rightarrow> bool" where
  "to_bool (JBool b) = b"
| "to_bool _ = False"

text \<open>\<open>toInt\<close> is a 32-bit \<open>int\<close>: a number outside its range gives the default too.\<close>

fun to_int_or :: "int \<Rightarrow> json \<Rightarrow> int" where
  "to_int_or d (JInt n) = (if - (2 ^ 31) \<le> n \<and> n < 2 ^ 31 then n else d)"
| "to_int_or d _ = d"

abbreviation to_int :: "json \<Rightarrow> int" where
  "to_int \<equiv> to_int_or 0"

text \<open>\<open>QJsonValue::toInteger\<close>, also stored in a \<open>quint32\<close>.\<close>

fun to_integer :: "json \<Rightarrow> int" where
  "to_integer (JInt n) = (if - (2 ^ 63) \<le> n \<and> n < 2 ^ 63 then n else 0)"
| "to_integer _ = 0"

definition to_uint32 :: "json \<Rightarrow> int" where
  "to_uint32 j = to_integer j mod 2 ^ 32"

fun to_array :: "json \<Rightarrow> json list" where
  "to_array (JArr xs) = xs"
| "to_array _ = []"

fun to_object :: "json \<Rightarrow> jobject" where
  "to_object (JObj ob) = ob"
| "to_object _ = []"

text \<open>\<open>QJsonObject::insert\<close>: an undefined value removes the key.\<close>

definition json_insert :: "string \<Rightarrow> json \<Rightarrow> jobject \<Rightarrow> jobject" where
  "json_insert k v d = (if v = JUndefined then qm_remove k d else qm_insert k v d)"

fun jobj :: "(string \<times> json) list \<Rightarrow> jobject" where
  "jobj [] = []"
| "jobj ((k, v) # kvs) = qm_insert k v (jobj kvs)"

text \<open>
  \<open>jobj\<close> builds an object from the pairs of an initialiser list or of a sequence of
  assignments to distinct keys.
\<close>

lemma jvalue_empty [simp]: "jvalue [] k = JUndefined"
  by (simp add: jvalue_def)

lemma jvalue_absent: "\<not> jcontains ob k \<Longrightarrow> jvalue ob k = JUndefined"
  by (simp add: jvalue_def jcontains_def qm_value_def)

lemma jvalue_insert [qmap_simps]:
  "jvalue (qm_insert k v ob) k' = (if k' = k then v else jvalue ob k')"
  by (simp add: jvalue_def qmap_simps)

lemma jcontains_insert [qmap_simps]:
  "jcontains (qm_insert k v ob) k' \<longleftrightarrow> k' = k \<or> jcontains ob k'"
  by (simp add: jcontains_def qmap_simps)

lemma jcontains_empty [simp]: "\<not> jcontains [] k"
  by (simp add: jcontains_def)

lemma qm_ok_jobj: "qm_ok (jobj kvs)"
  by (induction kvs rule: jobj.induct) (simp_all add: qm_ok_empty qm_ok_insert)

lemma map_of_jobj: "map_of (jobj kvs) k = map_of kvs k"
  by (induction kvs rule: jobj.induct) (simp_all add: qmap_simps)

declare jobj.simps [simp del]

lemma jvalue_jobj: "jvalue (jobj kvs) k = (case map_of kvs k of None \<Rightarrow> JUndefined | Some v \<Rightarrow> v)"
  by (simp add: jvalue_def qm_value_def map_of_jobj)

lemma jobj_Nil [simp]: "jobj [] = []"
  by (simp add: jobj.simps)

lemma jcontains_jobj: "jcontains (jobj kvs) k \<longleftrightarrow> k \<in> fst ` set kvs"
  by (simp add: jcontains_def map_of_jobj map_of_eq_None_iff)

lemma to_strings_inverse [simp]: "map (to_string \<circ> JStr) xs = xs"
  by (induction xs) auto

section \<open>Hexadecimal text\<close>

text \<open>\<open>QByteArray::toHex\<close>.\<close>

definition hex_digit :: "nat \<Rightarrow> char" where
  "hex_digit d = (if d < 10 then char_of (48 + d) else char_of (87 + d))"

definition to_hex :: "8 word list \<Rightarrow> string" where
  "to_hex bs = concat (map (\<lambda>b. [hex_digit (unat b div 16), hex_digit (unat b mod 16)]) bs)"

text \<open>
  \<open>QByteArray::fromHex\<close> skips every character that is no digit and pairs the digits from
  the end, so that a digit left over stands for a byte of its own at the front.
\<close>

definition hex_value :: "char \<Rightarrow> nat option" where
  "hex_value c =
     (let n = (of_char c :: nat)
      in if 48 \<le> n \<and> n \<le> 57 then Some (n - 48)
         else if 97 \<le> n \<and> n \<le> 102 then Some (n - 87)
         else if 65 \<le> n \<and> n \<le> 70 then Some (n - 55) else None)"

fun pair_digits :: "nat list \<Rightarrow> 8 word list" where
  "pair_digits [] = []"
| "pair_digits [d] = [of_nat d]"
| "pair_digits (d # e # ds) = pair_digits ds @ [of_nat (16 * e + d)]"

definition from_hex :: "string \<Rightarrow> 8 word list" where
  "from_hex s = pair_digits (rev (List.map_filter hex_value s))"

lemma hex_value_digit: "d < 16 \<Longrightarrow> hex_value (hex_digit d) = Some d"
  by (auto simp: hex_value_def hex_digit_def of_char_of)

lemma from_hex_append:
  "from_hex (s @ to_hex [b]) = from_hex s @ [b]"
proof -
  have "unat b < 256" using unsigned_less [of b] by simp
  then have "unat b div 16 < 16" "unat b mod 16 < 16" by auto
  then have "List.map_filter hex_value (to_hex [b]) = [unat b div 16, unat b mod 16]"
    by (simp add: to_hex_def map_filter_simps hex_value_digit)
  then have "from_hex (s @ to_hex [b]) = from_hex s @ [of_nat (16 * (unat b div 16) + unat b mod 16)]"
    by (simp add: from_hex_def map_filter_def)
  moreover have "16 * (unat b div 16) + unat b mod 16 = unat b" by simp
  ultimately have "from_hex (s @ to_hex [b]) = from_hex s @ [of_nat (unat b)]" by metis
  then show ?thesis by simp
qed

lemma from_to_hex [simp]: "from_hex (to_hex bs) = bs"
proof (induction bs rule: rev_induct)
  case Nil
  then show ?case by (simp add: from_hex_def to_hex_def map_filter_def)
next
  case (snoc b bs)
  have "to_hex (bs @ [b]) = to_hex bs @ to_hex [b]" by (simp add: to_hex_def)
  with snoc from_hex_append [of "to_hex bs" b] show ?case by simp
qed

end
