(* ===== verification/Dlc_Types.thy ===== *)
theory Dlc_Types
  imports Json
begin

text \<open>
  The data of the DLC negotiation (\<open>src/dlc/dlc_coordinator_client.h\<close>): the configuration
  of the coordinator endpoint and the structs its messages are decoded into.  Field names carry
  a short prefix for their struct; \<open>long long\<close> and \<open>int\<close> members are integers, and
  lists of strings are \<open>QVector<QString>\<close> or \<open>QStringList\<close>.  A member a decoder does not
  set has its default initialiser, or 0, the empty string, the empty list.
\<close>

record coordinator_config =
  base_url :: string
  cfg_network :: string
  partner_id :: string
  partner_token :: string
  timeout_ms :: int
  verify_ssl :: bool

record wallet_registration =
  reg_wallet_id :: string
  reg_wallet_token :: string
  reg_expires_at :: string

record option_instrument =
  inst_id :: int
  inst_instrument_id :: string
  inst_type :: string
  inst_oracle_label :: string
  inst_oracle_announcement_url :: string
  inst_expires_at :: string
  inst_created_at :: string
  inst_updated_at :: string

record signing_job =
  message_hash_hex :: string
  adaptor_point_hex :: string

record order_book_level =
  level_price :: int
  level_quantity :: int
  level_instrument_id :: string
  level_strike :: string

record order =
  ord_order_id :: string
  ord_dlc_id :: string
  ord_instrument_id :: string
  ord_side :: string
  ord_quantity :: int
  ord_price :: int
  ord_status :: string
  ord_created_at :: string
  ord_offer_object_hex :: string
  ord_accept_object_hex :: string
  ord_pending_match_accept :: bool
  ord_matched_order_id :: string
  ord_matched_dlc_id :: string
  ord_matched_offer_object_hex :: string
  ord_is_maker :: bool
  ord_sign_required :: bool
  ord_dlc_status :: string

record accept_context =
  ac_order_id :: string
  ac_instrument_id :: string
  ac_offer_object_hex :: string
  ac_context_fingerprint :: string
  ac_cet_count :: int
  ac_cet_signing_job_count :: int
  ac_cet_signing_jobs :: "signing_job list"
  ac_refund_sighash_hex :: string
  ac_funding_input_sighashes_hex :: "string list"
  ac_funding_input_outpoints :: "string list"
  ac_funding_input_addresses :: "string list"

record sign_context =
  sc_dlc_id :: string
  sc_order_id :: string
  sc_instrument_id :: string
  sc_offer_object_hex :: string
  sc_accept_object_hex :: string
  sc_context_fingerprint :: string
  sc_cet_count :: int
  sc_cet_signing_job_count :: int
  sc_cet_signing_jobs :: "signing_job list"
  sc_refund_sighash_hex :: string
  sc_funding_input_sighashes_hex :: "string list"
  sc_funding_input_outpoints :: "string list"
  sc_funding_input_addresses :: "string list"

record sign_response =
  sr_dlc_id :: string
  sr_status :: string
  sr_sign_object_hex :: string
  sr_funding_tx_hex :: string
  sr_funding_txid :: string
  sr_funding_broadcasted :: bool
  sr_funding_broadcast_error :: string

record dlc_detail =
  dd_dlc_id :: string
  dd_order_id :: string
  dd_instrument_id :: string
  dd_offer_object_hex :: string
  dd_accept_object_hex :: string
  dd_sign_object_hex :: string
  dd_funding_txid :: string
  dd_funding_output_index :: int
  dd_last_error_reason :: string
  dd_last_error_message :: string
  dd_oracle_outcome_value :: string
  dd_oracle_attested_at :: string
  dd_winning_cet_index :: int
  dd_settlement_type :: string
  dd_closing_txid :: string
  dd_refund_txid :: string
  dd_confirmed_at :: string
  dd_decoded_offer :: jobject
  dd_decoded_accept :: jobject
  dd_decoded_sign :: jobject
  dd_oracle_context :: jobject
  dd_status :: string
  dd_created_at :: string
  dd_updated_at :: string

text \<open>The values of default-constructed structs.\<close>

definition new_order :: order where
  "new_order = \<lparr>ord_order_id = [], ord_dlc_id = [], ord_instrument_id = [], ord_side = [],
     ord_quantity = 0, ord_price = 0, ord_status = [], ord_created_at = [],
     ord_offer_object_hex = [], ord_accept_object_hex = [], ord_pending_match_accept = False,
     ord_matched_order_id = [], ord_matched_dlc_id = [], ord_matched_offer_object_hex = [],
     ord_is_maker = False, ord_sign_required = False, ord_dlc_status = []\<rparr>"

definition new_accept_context :: accept_context where
  "new_accept_context = \<lparr>ac_order_id = [], ac_instrument_id = [], ac_offer_object_hex = [],
     ac_context_fingerprint = [], ac_cet_count = 0, ac_cet_signing_job_count = 0,
     ac_cet_signing_jobs = [], ac_refund_sighash_hex = [], ac_funding_input_sighashes_hex = [],
     ac_funding_input_outpoints = [], ac_funding_input_addresses = []\<rparr>"

definition new_sign_context :: sign_context where
  "new_sign_context = \<lparr>sc_dlc_id = [], sc_order_id = [], sc_instrument_id = [],
     sc_offer_object_hex = [], sc_accept_object_hex = [], sc_context_fingerprint = [],
     sc_cet_count = 0, sc_cet_signing_job_count = 0, sc_cet_signing_jobs = [],
     sc_refund_sighash_hex = [], sc_funding_input_sighashes_hex = [],
     sc_funding_input_outpoints = [], sc_funding_input_addresses = []\<rparr>"

definition new_dlc_detail :: dlc_detail where
  "new_dlc_detail = \<lparr>dd_dlc_id = [], dd_order_id = [], dd_instrument_id = [],
     dd_offer_object_hex = [], dd_accept_object_hex = [], dd_sign_object_hex = [],
     dd_funding_txid = [], dd_funding_output_index = -1, dd_last_error_reason = [],
     dd_last_error_message = [], dd_oracle_outcome_value = [], dd_oracle_attested_at = [],
     dd_winning_cet_index = -1, dd_settlement_type = [], dd_closing_txid = [],
     dd_refund_txid = [], dd_confirmed_at = [], dd_decoded_offer = [], dd_decoded_accept = [],
     dd_decoded_sign = [], dd_oracle_context = [], dd_status = [], dd_created_at = [],
     dd_updated_at = []\<rparr>"

lemmas new_struct_defs =
  new_order_def new_accept_context_def new_sign_context_def new_dlc_detail_def

end
