(* ===== verification/Dlc_Client.thy ===== *)
theory Dlc_Client
  imports Dlc_Types
begin

text \<open>
  The coordinator client (\<open>src/dlc/dlc_coordinator_client.cpp\<close>).  Each operation of the
  class is a request it hands to the HTTP manager and a reply handler that turns the outcome
  of that request into one signal.  \<open>HttpFinished r\<close> is the activity's \<open>finished\<close>
  signal with \<open>r\<close> the value of \<open>response()\<close>, \<open>HttpFailed\<close> its \<open>failed\<close>
  signal.  \<open>ll\<close> stands for \<open>QJsonValue::toVariant().toLongLong()\<close>.
\<close>

record http_request =
  req_method :: string
  req_url :: string
  req_timeout :: int
  req_headers :: "(string, string) qmap"
  req_data :: json

datatype http_outcome = HttpFinished jobject | HttpFailed

datatype client_signal =
    SystemReadinessReady bool string
  | SystemReadinessFailed string
  | WalletRegistered wallet_registration
  | WalletRegistrationFailed string
  | WalletStatusReady wallet_registration
  | WalletStatusFailed string
  | InstrumentsReady "option_instrument list"
  | InstrumentsFailed string
  | OrderbookReady string "order_book_level list" "order_book_level list"
  | OrderbookFailed string
  | OrderCreated order
  | OrderCreateFailed string
  | OrdersReady "order list"
  | OrdersFailed string
  | OrderReady order
  | OrderFailed string
  | AcceptContextReady accept_context
  | AcceptContextFailed string
  | AcceptSubmitted order
  | AcceptSubmitFailed string
  | SignContextReady sign_context
  | SignContextFailed string
  | SignSubmitted sign_response
  | SignSubmitFailed string
  | DlcReady dlc_detail
  | DlcFailed string
  | DlcsReady "dlc_detail list"
  | DlcsFailed string

text \<open>\<open>HttpRequestActivity::hasError\<close>.\<close>

definition has_error :: "jobject \<Rightarrow> bool" where
  "has_error r = jcontains r ''error''"

text \<open>
  The shape all handlers share: on \<open>finished\<close> decode the response unless it has an
  \<open>error\<close> key, else report that error's text (or a default); on \<open>failed\<close> report a
  fixed text.
\<close>

definition reply :: "(jobject \<Rightarrow> client_signal) \<Rightarrow> (string \<Rightarrow> client_signal) \<Rightarrow> string \<Rightarrow> string
    \<Rightarrow> http_outcome \<Rightarrow> client_signal list" where
  "reply ok err dflt lost out = (case out of
     HttpFinished r \<Rightarrow>
       (if \<not> has_error r then [ok r] else [err (to_string_or dflt (jvalue r ''error''))])
   | HttpFailed \<Rightarrow> [err lost])"

definition plain_request :: "coordinator_config \<Rightarrow> string \<Rightarrow> string \<Rightarrow> json \<Rightarrow> http_request" where
  "plain_request c meth path body = \<lparr>req_method = meth, req_url = base_url c @ path,
     req_timeout = timeout_ms c, req_headers = [], req_data = body\<rparr>"

definition partner_request :: "coordinator_config \<Rightarrow> string \<Rightarrow> string \<Rightarrow> json \<Rightarrow> http_request" where
  "partner_request c meth path body = (plain_request c meth path body)\<lparr>
     req_headers := (if partner_token c \<noteq> [] then qm_insert ''X-Partner-Token'' (partner_token c) []
                     else [])\<rparr>"

section \<open>System checks and wallet registration\<close>

definition check_system_readiness :: "coordinator_config \<Rightarrow> http_request" where
  "check_system_readiness c = partner_request c ''GET'' ''/auth/system-readiness'' JNull"

definition system_readiness_reply :: "coordinator_config \<Rightarrow> http_outcome \<Rightarrow> client_signal list" where
  "system_readiness_reply c out = (case out of
     HttpFinished r \<Rightarrow>
       (if \<not> has_error r
        then (let reachable = to_bool (jvalue r ''reachable'');
                  network = to_string (jvalue r ''coordinator_network'')
              in if network = cfg_network c \<or> cfg_network c = []
                 then [SystemReadinessReady reachable network]
                 else [SystemReadinessFailed
                        (''Network mismatch: got '' @ network @ '', expected '' @ cfg_network c)])
        else [SystemReadinessFailed ''Failed to reach coordinator''])
   | HttpFailed \<Rightarrow> [SystemReadinessFailed ''System readiness check failed''])"

definition register_wallet ::
    "coordinator_config \<Rightarrow> string \<Rightarrow> string \<Rightarrow> string \<Rightarrow> string \<Rightarrow> http_request" where
  "register_wallet c xpub xpub_signature nonce label = partner_request c ''POST'' ''/auth/wallet''
     (JObj (jobj [(''xpub'', JStr xpub), (''xpub_signature'', JStr xpub_signature),
                  (''nonce'', JStr nonce), (''label'', JStr label), (''utxos'', JArr [])]))"

definition decode_registration :: "jobject \<Rightarrow> wallet_registration" where
  "decode_registration r = \<lparr>reg_wallet_id = to_string (jvalue r ''wallet_id''),
     reg_wallet_token = to_string (jvalue r ''wallet_token''),
     reg_expires_at = to_string (jvalue r ''expires_at'')\<rparr>"

definition register_wallet_reply :: "http_outcome \<Rightarrow> client_signal list" where
  "register_wallet_reply = reply (WalletRegistered \<circ> decode_registration)
     WalletRegistrationFailed ''Unknown error'' ''Wallet registration request failed''"

definition get_wallet_status :: "coordinator_config \<Rightarrow> string \<Rightarrow> http_request" where
  "get_wallet_status c wallet_id = partner_request c ''GET'' (''/auth/wallet/'' @ wallet_id) JNull"

definition wallet_status_reply :: "http_outcome \<Rightarrow> client_signal list" where
  "wallet_status_reply = reply (WalletStatusReady \<circ> decode_registration)
     WalletStatusFailed ''Unknown error'' ''Get wallet status request failed''"

section \<open>Market data\<close>

definition get_instruments :: "coordinator_config \<Rightarrow> http_request" where
  "get_instruments c = plain_request c ''GET'' ''/instruments'' JNull"

definition decode_instrument :: "json \<Rightarrow> option_instrument" where
  "decode_instrument item = (let ob = to_object item in
     \<lparr>inst_id = 0, inst_instrument_id = to_string (jvalue ob ''instrument_id''),
      inst_type = to_string (jvalue ob ''type''),
      inst_oracle_label = to_string (jvalue ob ''oracle_label''),
      inst_oracle_announcement_url = [],
      inst_expires_at = to_string (jvalue ob ''expires_at''),
      inst_created_at = to_string (jvalue ob ''created_at''), inst_updated_at = []\<rparr>)"

definition instruments_reply :: "http_outcome \<Rightarrow> client_signal list" where
  "instruments_reply = reply
     (\<lambda>r. InstrumentsReady (map decode_instrument (to_array (jvalue r ''instruments''))))
     InstrumentsFailed ''Failed to fetch instruments'' ''Instruments request failed''"

definition get_orderbook :: "coordinator_config \<Rightarrow> string \<Rightarrow> http_request" where
  "get_orderbook c instrument_id = plain_request c ''GET'' (''/orderbook/'' @ instrument_id) JNull"

definition decode_level :: "(json \<Rightarrow> int) \<Rightarrow> json \<Rightarrow> order_book_level" where
  "decode_level ll item = (let ob = to_object item in
     \<lparr>level_price = ll (jvalue ob ''price''), level_quantity = ll (jvalue ob ''quantity''),
      level_instrument_id = [], level_strike = []\<rparr>)"

definition orderbook_reply :: "(json \<Rightarrow> int) \<Rightarrow> string \<Rightarrow> http_outcome \<Rightarrow> client_signal list" where
  "orderbook_reply ll instrument_id = reply
     (\<lambda>r. OrderbookReady instrument_id (map (decode_level ll) (to_array (jvalue r ''bids'')))
            (map (decode_level ll) (to_array (jvalue r ''asks''))))
     OrderbookFailed ''Failed to fetch orderbook'' ''Orderbook request failed''"

section \<open>Order lifecycle\<close>

text \<open>
  \<open>static_cast<double>\<close> of a 64-bit integer: round to nearest, ties to even, at 53
  significant bits.
\<close>

fun bit_size :: "nat \<Rightarrow> nat" where
  "bit_size n = (if n = 0 then 0 else Suc (bit_size (n div 2)))"

declare bit_size.simps [simp del]

definition double_of_nat :: "nat \<Rightarrow> nat" where
  "double_of_nat n = (if n \<le> 2 ^ 53 then n else
     (let k = bit_size n - 53; q = n div 2 ^ k; r = n mod 2 ^ k; h = 2 ^ (k - 1)
      in (if r > h \<or> r = h \<and> odd q then q + 1 else q) * 2 ^ k))"

definition double_of_int :: "int \<Rightarrow> int" where
  "double_of_int i = (if i < 0 then - int (double_of_nat (nat (- i))) else int (double_of_nat (nat i)))"

definition create_order ::
    "coordinator_config \<Rightarrow> string \<Rightarrow> string \<Rightarrow> string \<Rightarrow> int \<Rightarrow> int \<Rightarrow> http_request" where
  "create_order c wallet_id instrument_id side quantity price = plain_request c ''POST'' ''/orders''
     (JObj (jobj [(''wallet_id'', JStr wallet_id), (''instrument_id'', JStr instrument_id),
                  (''side'', JStr side), (''quantity'', JInt (double_of_int quantity)),
                  (''price'', JInt (double_of_int price))]))"

definition decode_created_order :: "(json \<Rightarrow> int) \<Rightarrow> jobject \<Rightarrow> order" where
  "decode_created_order ll r = new_order\<lparr>
     ord_order_id := to_string (jvalue r ''order_id''),
     ord_dlc_id := to_string (jvalue r ''dlc_id''),
     ord_instrument_id := to_string (jvalue r ''instrument_id''),
     ord_side := to_string (jvalue r ''side''),
     ord_quantity := ll (jvalue r ''quantity''),
     ord_price := ll (jvalue r ''price''),
     ord_status := to_string (jvalue r ''status''),
     ord_pending_match_accept := to_bool (jvalue r ''pending_match_accept''),
     ord_matched_order_id := to_string (jvalue r ''matched_order_id''),
     ord_matched_dlc_id := to_string (jvalue r ''matched_dlc_id''),
     ord_matched_offer_object_hex := to_string (jvalue r ''matched_offer_object_hex'')\<rparr>"

definition create_order_reply :: "(json \<Rightarrow> int) \<Rightarrow> http_outcome \<Rightarrow> client_signal list" where
  "create_order_reply ll = reply (OrderCreated \<circ> decode_created_order ll)
     OrderCreateFailed ''Failed to create order'' ''Create order request failed''"

definition get_orders :: "coordinator_config \<Rightarrow> string \<Rightarrow> http_request" where
  "get_orders c wallet_id = plain_request c ''GET'' (''/orders?wallet_id='' @ wallet_id) JNull"

text \<open>The decoding \<open>get_orders\<close> applies to each item and \<open>get_order\<close> to the response.\<close>

definition decode_order :: "(json \<Rightarrow> int) \<Rightarrow> jobject \<Rightarrow> order" where
  "decode_order ll ob = new_order\<lparr>
     ord_order_id := to_string (jvalue ob ''order_id''),
     ord_dlc_id := to_string (jvalue ob ''dlc_id''),
     ord_instrument_id := to_string (jvalue ob ''instrument_id''),
     ord_side := to_string (jvalue ob ''side''),
     ord_quantity := ll (jvalue ob ''quantity''),
     ord_price := ll (jvalue ob ''price''),
     ord_status := to_string (jvalue ob ''status''),
     ord_dlc_status := to_string (jvalue ob ''dlc_status''),
     ord_pending_match_accept := to_bool (jvalue ob ''pending_match_accept''),
     ord_matched_order_id := to_string (jvalue ob ''matched_order_id''),
     ord_matched_dlc_id := to_string (jvalue ob ''matched_dlc_id''),
     ord_sign_required := to_bool (jvalue ob ''sign_required'')\<rparr>"

definition orders_reply :: "(json \<Rightarrow> int) \<Rightarrow> http_outcome \<Rightarrow> client_signal list" where
  "orders_reply ll = reply
     (\<lambda>r. OrdersReady (map (decode_order ll \<circ> to_object) (to_array (jvalue r ''orders''))))
     OrdersFailed ''Failed to fetch orders'' ''Get orders request failed''"

definition get_order :: "coordinator_config \<Rightarrow> string \<Rightarrow> http_request" where
  "get_order c order_id = plain_request c ''GET'' (''/orders/'' @ order_id) JNull"

definition order_reply :: "(json \<Rightarrow> int) \<Rightarrow> http_outcome \<Rightarrow> client_signal list" where
  "order_reply ll = reply (OrderReady \<circ> decode_order ll)
     OrderFailed ''Failed to fetch order'' ''Get order request failed''"

definition cancel_order :: "coordinator_config \<Rightarrow> string \<Rightarrow> http_request" where
  "cancel_order c order_id = plain_request c ''DELETE'' (''/orders/'' @ order_id) JNull"

definition cancel_order_reply :: "http_outcome \<Rightarrow> client_signal list" where
  "cancel_order_reply out = (case out of
     HttpFinished r \<Rightarrow> []
   | HttpFailed \<Rightarrow> [OrderFailed ''Cancel order request failed''])"

section \<open>Accept flow\<close>

definition get_accept_context :: "coordinator_config \<Rightarrow> string \<Rightarrow> string \<Rightarrow> http_request" where
  "get_accept_context c order_id funding_pubkey =
     plain_request c ''POST'' (''/orders/'' @ order_id @ ''/accept-context'')
       (JObj (jobj [(''funding_pubkey_hex'', JStr funding_pubkey)]))"

definition decode_job :: "json \<Rightarrow> signing_job" where
  "decode_job job = (let ob = to_object job in
     \<lparr>message_hash_hex = to_string (jvalue ob ''message_hash_hex''),
      adaptor_point_hex = to_string (jvalue ob ''adaptor_point_hex'')\<rparr>)"

definition decode_accept_context :: "jobject \<Rightarrow> accept_context" where
  "decode_accept_context r =
     \<lparr>ac_order_id = to_string (jvalue r ''order_id''),
      ac_instrument_id = to_string (jvalue r ''instrument_id''),
      ac_offer_object_hex = to_string (jvalue r ''offer_object_hex''),
      ac_context_fingerprint = to_string (jvalue r ''context_fingerprint''),
      ac_cet_count = to_int (jvalue r ''cet_count''),
      ac_cet_signing_job_count = to_int (jvalue r ''cet_signing_job_count''),
      ac_cet_signing_jobs = map decode_job (to_array (jvalue r ''cet_signing_jobs'')),
      ac_refund_sighash_hex = to_string (jvalue r ''refund_sighash_hex''),
      ac_funding_input_sighashes_hex =
        map to_string (to_array (jvalue r ''funding_input_sighashes_hex'')),
      ac_funding_input_outpoints = map to_string (to_array (jvalue r ''funding_input_outpoints'')),
      ac_funding_input_addresses = map to_string (to_array (jvalue r ''funding_input_addresses''))\<rparr>"

definition accept_context_reply :: "http_outcome \<Rightarrow> client_signal list" where
  "accept_context_reply = reply (AcceptContextReady \<circ> decode_accept_context)
     AcceptContextFailed ''Failed to get accept context'' ''Get accept context request failed''"

definition accept_idempotency_key :: "string \<Rightarrow> string \<Rightarrow> string" where
  "accept_idempotency_key order_id context_fingerprint =
     ''accept:'' @ order_id @ '':'' @ context_fingerprint"

definition submit_accept :: "coordinator_config \<Rightarrow> string \<Rightarrow> string \<Rightarrow> string \<Rightarrow> string list \<Rightarrow> string
    \<Rightarrow> string list \<Rightarrow> http_request" where
  "submit_accept c order_id funding_pubkey context_fingerprint cet_adaptor_sigs refund_sig funding_sigs =
     plain_request c ''POST'' (''/orders/'' @ order_id @ ''/accept-match'')
       (JObj (jobj [(''funding_pubkey_hex'', JStr funding_pubkey),
          (''context_fingerprint'', JStr context_fingerprint),
          (''idempotency_key'', JStr (accept_idempotency_key order_id context_fingerprint)),
          (''cet_adaptor_signatures_hex'', JArr (map JStr cet_adaptor_sigs)),
          (''refund_signature_hex'', JStr refund_sig),
          (''funding_signatures_hex'', JArr (map JStr funding_sigs))]))"

definition decode_submitted_order :: "jobject \<Rightarrow> order" where
  "decode_submitted_order r = new_order\<lparr>ord_order_id := to_string (jvalue r ''order_id''),
     ord_status := to_string (jvalue r ''status'')\<rparr>"

definition accept_submitted_reply :: "http_outcome \<Rightarrow> client_signal list" where
  "accept_submitted_reply = reply (AcceptSubmitted \<circ> decode_submitted_order)
     AcceptSubmitFailed ''Failed to submit accept'' ''Submit accept request failed''"

section \<open>Sign flow\<close>

definition get_sign_context :: "coordinator_config \<Rightarrow> string \<Rightarrow> http_request" where
  "get_sign_context c dlc_id =
     plain_request c ''GET'' (''/dlcs/'' @ dlc_id @ ''/sign-context'') JNull"

definition decode_sign_context :: "jobject \<Rightarrow> sign_context" where
  "decode_sign_context r =
     \<lparr>sc_dlc_id = to_string (jvalue r ''dlc_id''),
      sc_order_id = to_string (jvalue r ''order_id''),
      sc_instrument_id = to_string (jvalue r ''instrument_id''),
      sc_offer_object_hex = to_string (jvalue r ''offer_object_hex''),
      sc_accept_object_hex = to_string (jvalue r ''accept_object_hex''),
      sc_context_fingerprint = to_string (jvalue r ''context_fingerprint''),
      sc_cet_count = to_int (jvalue r ''cet_count''),
      sc_cet_signing_job_count = to_int (jvalue r ''cet_signing_job_count''),
      sc_cet_signing_jobs = map decode_job (to_array (jvalue r ''cet_signing_jobs'')),
      sc_refund_sighash_hex = to_string (jvalue r ''refund_sighash_hex''),
      sc_funding_input_sighashes_hex =
        map to_string (to_array (jvalue r ''funding_input_sighashes_hex'')),
      sc_funding_input_outpoints = map to_string (to_array (jvalue r ''funding_input_outpoints'')),
      sc_funding_input_addresses = map to_string (to_array (jvalue r ''funding_input_addresses''))\<rparr>"

definition sign_context_reply :: "http_outcome \<Rightarrow> client_signal list" where
  "sign_context_reply = reply (SignContextReady \<circ> decode_sign_context)
     SignContextFailed ''Failed to get sign context'' ''Get sign context request failed''"

definition sign_idempotency_key :: "string \<Rightarrow> string" where
  "sign_idempotency_key dlc_id = ''sign:'' @ dlc_id"

definition submit_sign :: "coordinator_config \<Rightarrow> string \<Rightarrow> string list \<Rightarrow> string \<Rightarrow> string list
    \<Rightarrow> http_request" where
  "submit_sign c dlc_id cet_adaptor_sigs refund_sig funding_sigs =
     plain_request c ''POST'' (''/dlcs/'' @ dlc_id @ ''/sign'')
       (JObj (jobj [(''idempotency_key'', JStr (sign_idempotency_key dlc_id)),
          (''cet_adaptor_signatures_hex'', JArr (map JStr cet_adaptor_sigs)),
          (''refund_signature_hex'', JStr refund_sig),
          (''funding_signatures_hex'', JArr (map JStr funding_sigs))]))"

definition decode_sign_response :: "jobject \<Rightarrow> sign_response" where
  "decode_sign_response r =
     \<lparr>sr_dlc_id = to_string (jvalue r ''dlc_id''), sr_status = to_string (jvalue r ''status''),
      sr_sign_object_hex = to_string (jvalue r ''sign_object_hex''),
      sr_funding_tx_hex = to_string (jvalue r ''funding_tx_hex''),
      sr_funding_txid = to_string (jvalue r ''funding_txid''),
      sr_funding_broadcasted = to_bool (jvalue r ''funding_broadcasted''),
      sr_funding_broadcast_error = to_string (jvalue r ''funding_broadcast_error'')\<rparr>"

definition sign_submitted_reply :: "http_outcome \<Rightarrow> client_signal list" where
  "sign_submitted_reply = reply (SignSubmitted \<circ> decode_sign_response)
     SignSubmitFailed ''Failed to submit sign'' ''Submit sign request failed''"

section \<open>Status queries\<close>

definition get_dlc :: "coordinator_config \<Rightarrow> string \<Rightarrow> http_request" where
  "get_dlc c dlc_id = plain_request c ''GET'' (''/dlcs/'' @ dlc_id) JNull"

definition decode_dlc :: "jobject \<Rightarrow> dlc_detail" where
  "decode_dlc r = new_dlc_detail\<lparr>
     dd_dlc_id := to_string (jvalue r ''dlc_id''),
     dd_order_id := to_string (jvalue r ''order_id''),
     dd_instrument_id := to_string (jvalue r ''instrument_id''),
     dd_status := to_string (jvalue r ''status''),
     dd_funding_txid := to_string (jvalue r ''funding_txid''),
     dd_closing_txid := to_string (jvalue r ''closing_txid''),
     dd_settlement_type := to_string (jvalue r ''settlement_type''),
     dd_confirmed_at := to_string (jvalue r ''confirmed_at'')\<rparr>"

definition dlc_reply :: "http_outcome \<Rightarrow> client_signal list" where
  "dlc_reply = reply (DlcReady \<circ> decode_dlc) DlcFailed ''Failed to fetch DLC'' ''Get DLC request failed''"

definition get_dlcs :: "coordinator_config \<Rightarrow> string \<Rightarrow> http_request" where
  "get_dlcs c wallet_id = plain_request c ''GET'' (''/dlcs?wallet_id='' @ wallet_id) JNull"

definition decode_dlc_item :: "json \<Rightarrow> dlc_detail" where
  "decode_dlc_item item = (let ob = to_object item in new_dlc_detail\<lparr>
     dd_dlc_id := to_string (jvalue ob ''dlc_id''),
     dd_order_id := to_string (jvalue ob ''order_id''),
     dd_instrument_id := to_string (jvalue ob ''instrument_id''),
     dd_status := to_string (jvalue ob ''status''),
     dd_funding_txid := to_string (jvalue ob ''funding_txid''),
     dd_settlement_type := to_string (jvalue ob ''settlement_type'')\<rparr>)"

definition dlcs_reply :: "http_outcome \<Rightarrow> client_signal list" where
  "dlcs_reply = reply (\<lambda>r. DlcsReady (map decode_dlc_item (to_array (jvalue r ''dlcs''))))
     DlcsFailed ''Failed to fetch DLCs'' ''Get DLCs request failed''"

end
