(* ===== verification/Dlc_Machine.thy ===== *)
theory Dlc_Machine
  imports Dlc_Client
begin

text \<open>
  The negotiation state machine (\<open>src/dlc/dlc_state_machine.{h,cpp}\<close>): its state, one
  function per method and slot, and the step function that dispatches its events.  Signals of
  the coordinator client arrive as \<^const>\<open>AcceptContextReady\<close> and the like; the
  machine's own signals and its calls into the client are outputs.  Logging is left out.  Slots
  connected to the machine's signals are taken not to call back into it before it returns.
\<close>

section \<open>State\<close>

datatype op_state =
    OpIdle
  | TakerAwaitingAcceptContext
  | TakerSigningAccept
  | TakerSubmittingAccept
  | TakerAcceptSubmitted
  | MakerAwaitingSignContext
  | MakerSigningSign
  | MakerSubmittingSign
  | MakerSignSubmitted
  | DLCSignedAwaitingFunding
  | DLCFunded
  | DLCSettled
  | OpError

record order_operation =
  op_order_id :: string
  op_dlc_id :: string
  op_instrument_id :: string
  op_side :: string
  op_match_role :: string
  op_state :: op_state
  op_status_text :: string
  op_accept_context :: accept_context
  op_sign_context :: sign_context
  op_accept_context_fetched :: bool
  op_sign_context_fetched :: bool
  op_funding_pubkey_hex :: string
  op_funding_privkey_hex :: string

record dlc_machine =
  m_operations :: "(string, order_operation) qmap"
  m_timer_active :: bool
  m_timer_interval :: int
  m_polling_interval_ms :: int
  m_max_retries :: int
  m_retry_counts :: "(string, int) qmap"

datatype dlc_output =
    CallGetAcceptContext string string
  | CallSubmitAccept string string string "string list" string "string list"
  | CallGetSignContext string
  | CallSubmitSign string "string list" string "string list"
  | CallGetDlc string
  | OperationStateChanged string op_state string
  | RequestTakerAcceptSignatures string accept_context string
  | RequestMakerSignSignatures string sign_context string
  | TakerAcceptCompleted string
  | MakerSignCompleted string
  | SignalDlcFunded string string
  | SignalDlcSettled string string
  | OperationFailed string string
  | OperationRetrying string int

text \<open>The constructor: no operation tracked, the timer stopped, the members' defaults.\<close>

definition init_machine :: dlc_machine where
  "init_machine = \<lparr>m_operations = [], m_timer_active = False, m_timer_interval = 0,
     m_polling_interval_ms = 3000, m_max_retries = 5, m_retry_counts = []\<rparr>"

section \<open>Configuration, timer and lookups\<close>

definition set_polling_interval_ms :: "int \<Rightarrow> dlc_machine \<Rightarrow> dlc_machine" where
  "set_polling_interval_ms interval m =
     (let m1 = m\<lparr>m_polling_interval_ms := interval\<rparr>
      in if m_timer_active m1 then m1\<lparr>m_timer_interval := interval\<rparr> else m1)"

definition set_max_retries :: "int \<Rightarrow> dlc_machine \<Rightarrow> dlc_machine" where
  "set_max_retries n m = m\<lparr>m_max_retries := n\<rparr>"

definition start_polling :: "dlc_machine \<Rightarrow> dlc_machine" where
  "start_polling m = m\<lparr>m_timer_interval := m_polling_interval_ms m, m_timer_active := True\<rparr>"

definition stop_polling :: "dlc_machine \<Rightarrow> dlc_machine" where
  "stop_polling m = m\<lparr>m_timer_active := False\<rparr>"

definition get_operation :: "string \<Rightarrow> dlc_machine \<Rightarrow> order_operation option" where
  "get_operation order_id m = map_of (m_operations m) order_id"

definition put_operation :: "string \<Rightarrow> order_operation \<Rightarrow> dlc_machine \<Rightarrow> dlc_machine" where
  "put_operation k op m = m\<lparr>m_operations := qm_insert k op (m_operations m)\<rparr>"

text \<open>The search loops over the map: the first entry, in key order, with the given DLC id.\<close>

definition find_by_dlc :: "string \<Rightarrow> dlc_machine \<Rightarrow> (string \<times> order_operation) option" where
  "find_by_dlc dlc_id m = find (\<lambda>(k, op). op_dlc_id op = dlc_id) (m_operations m)"

definition set_operation_state ::
    "string \<Rightarrow> op_state \<Rightarrow> string \<Rightarrow> dlc_machine \<Rightarrow> dlc_machine \<times> dlc_output list" where
  "set_operation_state order_id st status m = (case get_operation order_id m of
     None \<Rightarrow> (m, [])
   | Some op \<Rightarrow> (put_operation order_id (op\<lparr>op_state := st, op_status_text := status\<rparr>) m,
                [OperationStateChanged order_id st status]))"

section \<open>Requests for the next context\<close>

definition advance_taker_operation :: "order_operation \<Rightarrow> dlc_output list" where
  "advance_taker_operation op =
     (if op_state op \<noteq> TakerAwaitingAcceptContext then []
      else [CallGetAcceptContext (op_order_id op) (op_funding_pubkey_hex op)])"

definition advance_maker_operation :: "order_operation \<Rightarrow> dlc_output list" where
  "advance_maker_operation op =
     (if op_state op \<noteq> MakerAwaitingSignContext then [] else [CallGetSignContext (op_dlc_id op)])"

section \<open>Tracking\<close>

definition new_operation :: "order \<Rightarrow> order_operation" where
  "new_operation r = \<lparr>op_order_id = ord_order_id r, op_dlc_id = ord_dlc_id r,
     op_instrument_id = ord_instrument_id r, op_side = ord_side r,
     op_match_role = (if ord_pending_match_accept r then ''taker''
                      else if ord_is_maker r then ''maker'' else []),
     op_state = OpIdle, op_status_text = ''Tracking order'',
     op_accept_context = new_accept_context, op_sign_context = new_sign_context,
     op_accept_context_fetched = False, op_sign_context_fetched = False,
     op_funding_pubkey_hex = [], op_funding_privkey_hex = []\<rparr>"

definition track_order :: "order \<Rightarrow> dlc_machine \<Rightarrow> dlc_machine \<times> dlc_output list" where
  "track_order r m =
     (let op = new_operation r;
          m1 = put_operation (ord_order_id r) op m
      in if ord_pending_match_accept r \<and> op_match_role op = ''taker'' then
           (let (m2, out) = set_operation_state (ord_order_id r) TakerAwaitingAcceptContext
                              ''Fetching accept context'' m1
            in (m2, out @ (case get_operation (ord_order_id r) m2 of
                             None \<Rightarrow> [] | Some op2 \<Rightarrow> advance_taker_operation op2)))
         else (m1, []))"

definition untrack_order :: "string \<Rightarrow> dlc_machine \<Rightarrow> dlc_machine" where
  "untrack_order order_id m = m\<lparr>m_operations := qm_remove order_id (m_operations m),
     m_retry_counts := qm_remove order_id (m_retry_counts m)\<rparr>"

section \<open>Signatures handed in by the wallet\<close>

definition submit_taker_accept_signatures :: "string \<Rightarrow> string list \<Rightarrow> string \<Rightarrow> string list
    \<Rightarrow> dlc_machine \<Rightarrow> dlc_machine \<times> dlc_output list" where
  "submit_taker_accept_signatures order_id cet_adaptor_sigs refund_sig funding_sigs m =
     (case get_operation order_id m of
        None \<Rightarrow> (m, [])
      | Some op \<Rightarrow>
          if ac_order_id (op_accept_context op) = [] then (m, [])
          else (let (m1, out) = set_operation_state order_id TakerSubmittingAccept
                                  ''Submitting accept signatures'' m
                in (m1, out @ [CallSubmitAccept order_id (op_funding_pubkey_hex op)
                                 (ac_context_fingerprint (op_accept_context op))
                                 cet_adaptor_sigs refund_sig funding_sigs])))"

definition submit_maker_sign_signatures :: "string \<Rightarrow> string list \<Rightarrow> string \<Rightarrow> string list
    \<Rightarrow> dlc_machine \<Rightarrow> dlc_machine \<times> dlc_output list" where
  "submit_maker_sign_signatures dlc_id cet_adaptor_sigs refund_sig funding_sigs m =
     (case find_by_dlc dlc_id m of
        None \<Rightarrow> (m, [])
      | Some (k, op) \<Rightarrow>
          (let (m1, out) = set_operation_state (op_order_id op) MakerSubmittingSign
                             ''Submitting sign signatures'' m
           in (m1, out @ [CallSubmitSign dlc_id cet_adaptor_sigs refund_sig funding_sigs])))"

section \<open>Replies of the coordinator\<close>

definition on_accept_context_ready :: "accept_context \<Rightarrow> dlc_machine \<Rightarrow> dlc_machine \<times> dlc_output list" where
  "on_accept_context_ready ctx m = (case get_operation (ac_order_id ctx) m of
     None \<Rightarrow> (m, [])
   | Some op \<Rightarrow>
       (let m1 = put_operation (ac_order_id ctx)
                   (op\<lparr>op_accept_context := ctx, op_accept_context_fetched := True\<rparr>) m;
            (m2, out) = set_operation_state (ac_order_id ctx) TakerSigningAccept
                          ''Waiting for local signing'' m1
        in (m2, out @ [RequestTakerAcceptSignatures (ac_order_id ctx) ctx []])))"

text \<open>The body of the failure loops, for one entry of the map.\<close>

definition fail_one :: "op_state \<Rightarrow> string \<Rightarrow> dlc_machine \<Rightarrow> string \<Rightarrow> dlc_machine \<times> dlc_output list" where
  "fail_one st error m k = (case get_operation k m of
     None \<Rightarrow> (m, [])
   | Some op \<Rightarrow>
       if op_state op = st
       then (put_operation k (op\<lparr>op_state := OpError, op_status_text := error\<rparr>) m,
             [OperationFailed (op_order_id op) error])
       else (m, []))"

definition on_accept_context_failed :: "string \<Rightarrow> dlc_machine \<Rightarrow> dlc_machine \<times> dlc_output list" where
  "on_accept_context_failed error m =
     run (fail_one TakerAwaitingAcceptContext error) m (map fst (m_operations m))"

definition on_accept_submitted :: "order \<Rightarrow> dlc_machine \<Rightarrow> dlc_machine \<times> dlc_output list" where
  "on_accept_submitted r m = (case get_operation (ord_order_id r) m of
     None \<Rightarrow> (m, [])
   | Some op \<Rightarrow>
       (let (m1, out) = set_operation_state (ord_order_id r) TakerAcceptSubmitted
                          ''Accept submitted successfully'' m
        in (m1, out @ [TakerAcceptCompleted (ord_order_id r)])))"

text \<open>
  The body of the retry loops: below the limit the count goes up and the operation waits for a
  fresh context, at the limit it fails.  \<open>m_retry_counts[id]\<close> creates the entry.
\<close>

definition retry_one :: "op_state \<Rightarrow> op_state \<Rightarrow> string \<Rightarrow> string \<Rightarrow> dlc_machine \<Rightarrow> string
    \<Rightarrow> dlc_machine \<times> dlc_output list" where
  "retry_one st back what error m k = (case get_operation k m of
     None \<Rightarrow> (m, [])
   | Some op \<Rightarrow>
       if op_state op = st then
         (let i = op_order_id op;
              n = qm_value (m_retry_counts m) i 0;
              m1 = m\<lparr>m_retry_counts := qm_insert i n (m_retry_counts m)\<rparr>
          in if n < m_max_retries m1 then
               (let m2 = m1\<lparr>m_retry_counts := qm_insert i (n + 1) (m_retry_counts m1)\<rparr>;
                    (m3, out) = set_operation_state i back
                      (''Retrying '' @ what @ '' context (attempt '' @ string_of_int (n + 1) @ '')'') m2
                in (m3, out @ [OperationRetrying i (n + 1)]))
             else (put_operation k (op\<lparr>op_state := OpError, op_status_text := error\<rparr>) m1,
                   [OperationFailed i error]))
       else (m, []))"

definition on_accept_submit_failed :: "string \<Rightarrow> dlc_machine \<Rightarrow> dlc_machine \<times> dlc_output list" where
  "on_accept_submit_failed error m =
     run (retry_one TakerSubmittingAccept TakerAwaitingAcceptContext ''accept'' error) m
       (map fst (m_operations m))"

definition on_sign_context_ready :: "sign_context \<Rightarrow> dlc_machine \<Rightarrow> dlc_machine \<times> dlc_output list" where
  "on_sign_context_ready ctx m = (case find_by_dlc (sc_dlc_id ctx) m of
     None \<Rightarrow> (m, [])
   | Some (k, op) \<Rightarrow>
       (let m1 = put_operation k (op\<lparr>op_sign_context := ctx, op_sign_context_fetched := True\<rparr>) m;
            (m2, out) = set_operation_state (op_order_id op) MakerSigningSign
                          ''Waiting for local signing'' m1
        in (m2, out @ [RequestMakerSignSignatures (sc_dlc_id ctx) ctx []])))"

definition on_sign_context_failed :: "string \<Rightarrow> dlc_machine \<Rightarrow> dlc_machine \<times> dlc_output list" where
  "on_sign_context_failed error m =
     run (fail_one MakerAwaitingSignContext error) m (map fst (m_operations m))"

definition on_sign_submitted :: "sign_response \<Rightarrow> dlc_machine \<Rightarrow> dlc_machine \<times> dlc_output list" where
  "on_sign_submitted r m = (case find_by_dlc (sr_dlc_id r) m of
     None \<Rightarrow> (m, [])
   | Some (k, op) \<Rightarrow>
       (let (m1, out1) = set_operation_state (op_order_id op) MakerSignSubmitted
                           ''Sign submitted successfully'' m;
            out2 = out1 @ [MakerSignCompleted (sr_dlc_id r)]
        in if sr_funding_broadcasted r \<and> sr_funding_txid r \<noteq> [] then
             (let (m2, out3) = set_operation_state (op_order_id op) DLCFunded
                                 (''DLC funded: '' @ sr_funding_txid r) m1
              in (m2, out2 @ out3 @ [SignalDlcFunded (sr_dlc_id r) (sr_funding_txid r)]))
           else (m1, out2)))"

definition on_sign_submit_failed :: "string \<Rightarrow> dlc_machine \<Rightarrow> dlc_machine \<times> dlc_output list" where
  "on_sign_submit_failed error m =
     run (retry_one MakerSubmittingSign MakerAwaitingSignContext ''sign'' error) m
       (map fst (m_operations m))"

definition on_dlc_ready :: "dlc_detail \<Rightarrow> dlc_machine \<Rightarrow> dlc_machine \<times> dlc_output list" where
  "on_dlc_ready d m = (case find_by_dlc (dd_dlc_id d) m of
     None \<Rightarrow> (m, [])
   | Some (k, op) \<Rightarrow>
       if dd_status d = ''signed'' then
         set_operation_state (op_order_id op) DLCSignedAwaitingFunding
           ''DLC signed, awaiting funding'' m
       else if dd_status d = ''funded'' then
         (let (m1, out) = set_operation_state (op_order_id op) DLCFunded
                            (''DLC funded: '' @ dd_funding_txid d) m
          in (m1, out @ [SignalDlcFunded (dd_dlc_id d) (dd_funding_txid d)]))
       else if dd_status d = ''settled'' then
         (let (m1, out) = set_operation_state (op_order_id op) DLCSettled
                            (''DLC settled: '' @ dd_closing_txid d) m
          in (m1, out @ [SignalDlcSettled (dd_dlc_id d) (dd_closing_txid d)]))
       else (m, []))"

definition poll_one :: "order_operation \<Rightarrow> dlc_output list" where
  "poll_one op = (case op_state op of
     TakerAwaitingAcceptContext \<Rightarrow> advance_taker_operation op
   | MakerAwaitingSignContext \<Rightarrow> advance_maker_operation op
   | DLCSignedAwaitingFunding \<Rightarrow> [CallGetDlc (op_dlc_id op)]
   | _ \<Rightarrow> [])"

definition on_poll_timer :: "dlc_machine \<Rightarrow> dlc_output list" where
  "on_poll_timer m = concat (map (poll_one \<circ> snd) (m_operations m))"

section \<open>Events\<close>

datatype dlc_event =
    TrackOrder order
  | UntrackOrder string
  | SubmitTaker string "string list" string "string list"
  | SubmitMaker string "string list" string "string list"
  | SetPollingInterval int
  | SetMaxRetries int
  | StartPolling
  | StopPolling
  | PollNow
  | TimerFired
  | Reply client_signal

text \<open>The connections the constructor makes; signals it does not connect are ignored.\<close>

fun on_reply :: "client_signal \<Rightarrow> dlc_machine \<Rightarrow> dlc_machine \<times> dlc_output list" where
  "on_reply (AcceptContextReady ctx) m = on_accept_context_ready ctx m"
| "on_reply (AcceptContextFailed e) m = on_accept_context_failed e m"
| "on_reply (AcceptSubmitted r) m = on_accept_submitted r m"
| "on_reply (AcceptSubmitFailed e) m = on_accept_submit_failed e m"
| "on_reply (SignContextReady ctx) m = on_sign_context_ready ctx m"
| "on_reply (SignContextFailed e) m = on_sign_context_failed e m"
| "on_reply (SignSubmitted r) m = on_sign_submitted r m"
| "on_reply (SignSubmitFailed e) m = on_sign_submit_failed e m"
| "on_reply (DlcReady d) m = on_dlc_ready d m"
| "on_reply _ m = (m, [])"

fun dlc_step :: "dlc_machine \<Rightarrow> dlc_event \<Rightarrow> dlc_machine \<times> dlc_output list" where
  "dlc_step m (TrackOrder r) = track_order r m"
| "dlc_step m (UntrackOrder k) = (untrack_order k m, [])"
| "dlc_step m (SubmitTaker k cs rs fs) = submit_taker_accept_signatures k cs rs fs m"
| "dlc_step m (SubmitMaker d cs rs fs) = submit_maker_sign_signatures d cs rs fs m"
| "dlc_step m (SetPollingInterval i) = (set_polling_interval_ms i m, [])"
| "dlc_step m (SetMaxRetries n) = (set_max_retries n m, [])"
| "dlc_step m StartPolling = (start_polling m, [])"
| "dlc_step m StopPolling = (stop_polling m, [])"
| "dlc_step m PollNow = (m, on_poll_timer m)"
| "dlc_step m TimerFired = (m, if m_timer_active m then on_poll_timer m else [])"
| "dlc_step m (Reply s) = on_reply s m"

lemmas handler_defs = track_order_def submit_taker_accept_signatures_def
  submit_maker_sign_signatures_def on_accept_context_ready_def on_accept_submitted_def
  on_sign_context_ready_def on_sign_submitted_def on_dlc_ready_def

lemmas loop_defs = on_accept_context_failed_def on_accept_submit_failed_def
  on_sign_context_failed_def on_sign_submit_failed_def

end
