(* ===== verification/Dlc_Facts.thy ===== *)
theory Dlc_Facts
  imports Dlc_Machine
begin

text \<open>
  Library of the negotiation machine: well-formedness of its maps, the protocol of one
  operation as a step relation, and the refinement lemma that every event of the machine moves
  every operation by one step of that protocol.
\<close>

section \<open>Well-formedness\<close>

text \<open>The maps are ordered maps, and each operation is filed under its own order id.\<close>

definition dlc_ok :: "dlc_machine \<Rightarrow> bool" where
  "dlc_ok m \<longleftrightarrow> qm_ok (m_operations m) \<and> qm_ok (m_retry_counts m) \<and>
     (\<forall>k op. get_operation k m = Some op \<longrightarrow> op_order_id op = k)"

lemma get_put [simp]:
  "get_operation k (put_operation k' op m) = (if k = k' then Some op else get_operation k m)"
  by (simp add: get_operation_def put_operation_def qmap_simps)

lemma get_retry_update [simp]:
  "get_operation k (m\<lparr>m_retry_counts := c\<rparr>) = get_operation k m"
  by (simp add: get_operation_def)

lemma put_fields [simp]:
  "m_retry_counts (put_operation k op m) = m_retry_counts m"
  "m_max_retries (put_operation k op m) = m_max_retries m"
  "m_timer_active (put_operation k op m) = m_timer_active m"
  by (simp_all add: put_operation_def)

lemma dlc_ok_put: "dlc_ok m \<Longrightarrow> op_order_id op = k \<Longrightarrow> dlc_ok (put_operation k op m)"
  by (auto simp: dlc_ok_def put_operation_def get_operation_def qmap_simps qm_ok_insert split: if_splits)

lemma dlc_ok_order_id: "dlc_ok m \<Longrightarrow> get_operation k m = Some op \<Longrightarrow> op_order_id op = k"
  by (simp add: dlc_ok_def)

lemma dlc_ok_counts: "dlc_ok m \<Longrightarrow> qm_ok c \<Longrightarrow> dlc_ok (m\<lparr>m_retry_counts := c\<rparr>)"
  by (simp add: dlc_ok_def get_operation_def)

lemma dlc_ok_counts_qm: "dlc_ok m \<Longrightarrow> qm_ok (m_retry_counts m)"
  by (simp add: dlc_ok_def)

lemma dlc_ok_set_state: "dlc_ok m \<Longrightarrow> dlc_ok (fst (set_operation_state k st s m))"
  by (auto simp: set_operation_state_def dlc_ok_order_id intro: dlc_ok_put split: option.splits)

lemma get_set_state [simp]:
  "get_operation k (fst (set_operation_state i st s m)) =
    (if k = i then map_option (\<lambda>op. op\<lparr>op_state := st, op_status_text := s\<rparr>) (get_operation k m)
     else get_operation k m)"
  by (auto simp: set_operation_state_def split: option.splits)

lemma set_state_fields [simp]:
  "m_retry_counts (fst (set_operation_state i st s m)) = m_retry_counts m"
  "m_max_retries (fst (set_operation_state i st s m)) = m_max_retries m"
  "m_timer_active (fst (set_operation_state i st s m)) = m_timer_active m"
  by (simp_all add: set_operation_state_def split: option.splits)

lemma set_state_out:
  "x \<in> set (snd (set_operation_state i st s m)) \<Longrightarrow> x = OperationStateChanged i st s"
  by (auto simp: set_operation_state_def split: option.splits)

lemma find_by_dlc_SomeD:
  assumes "find_by_dlc d m = Some (k, op)" and "dlc_ok m"
  shows "get_operation k m = Some op" and "op_dlc_id op = d" and "op_order_id op = k"
proof -
  from assms(1) have mem: "(k, op) \<in> set (m_operations m)" and d: "op_dlc_id op = d"
    unfolding find_by_dlc_def find_Some_iff by (metis nth_mem, auto)
  from assms(2) have "distinct (map fst (m_operations m))"
    by (simp add: dlc_ok_def qm_ok_distinct)
  with mem show g: "get_operation k m = Some op"
    by (simp add: get_operation_def)
  show "op_dlc_id op = d" by (rule d)
  from g assms(2) show "op_order_id op = k" by (simp add: dlc_ok_order_id)
qed

section \<open>Operations related key by key\<close>

text \<open>
  \<open>ops_rel R m m'\<close>: every operation of \<open>m'\<close> comes from one of \<open>m\<close> under the same key,
  changed by \<open>R\<close>.
\<close>

definition ops_rel :: "(order_operation \<Rightarrow> order_operation \<Rightarrow> bool) \<Rightarrow> dlc_machine \<Rightarrow> dlc_machine \<Rightarrow> bool" where
  "ops_rel R m m' \<longleftrightarrow> (\<forall>k op'. get_operation k m' = Some op' \<longrightarrow>
     (\<exists>op. get_operation k m = Some op \<and> R op op'))"

lemma ops_rel_refl: "(\<And>op. R op op) \<Longrightarrow> ops_rel R m m"
  by (auto simp: ops_rel_def)

lemma ops_rel_mono: "ops_rel R m m' \<Longrightarrow> (\<And>op op'. R op op' \<Longrightarrow> S op op') \<Longrightarrow> ops_rel S m m'"
  unfolding ops_rel_def by blast

lemma ops_rel_trans:
  "ops_rel R m1 m2 \<Longrightarrow> ops_rel S m2 m3 \<Longrightarrow> (\<And>a b c. R a b \<Longrightarrow> S b c \<Longrightarrow> T a c) \<Longrightarrow> ops_rel T m1 m3"
  unfolding ops_rel_def by blast

lemma ops_rel_put:
  "get_operation k m = Some op \<Longrightarrow> R op op' \<Longrightarrow> (\<And>x. R x x) \<Longrightarrow> ops_rel R m (put_operation k op' m)"
  by (auto simp: ops_rel_def split: if_splits)

lemma ops_rel_set_state:
  "(\<And>op. get_operation i m = Some op \<Longrightarrow> R op (op\<lparr>op_state := st, op_status_text := s\<rparr>)) \<Longrightarrow>
    (\<And>x. R x x) \<Longrightarrow> ops_rel R m (fst (set_operation_state i st s m))"
  by (auto simp: ops_rel_def split: if_splits)

lemma ops_rel_counts: "(\<And>x. R x x) \<Longrightarrow> ops_rel R m (m\<lparr>m_retry_counts := c\<rparr>)"
  by (auto simp: ops_rel_def)

section \<open>The loops over all operations\<close>

text \<open>An operation in state \<open>st\<close> that a loop puts into one of \<open>sts\<close>, its data untouched.\<close>

definition moved :: "op_state \<Rightarrow> op_state list \<Rightarrow> order_operation \<Rightarrow> order_operation \<Rightarrow> bool" where
  "moved st sts op op' \<longleftrightarrow> op' = op \<or>
     (op_state op = st \<and> (\<exists>st' \<in> set sts. \<exists>s. op' = op\<lparr>op_state := st', op_status_text := s\<rparr>))"

lemma moved_refl: "moved st sts op op"
  by (simp add: moved_def)

lemma moved_trans: "st \<notin> set sts \<Longrightarrow> moved st sts a b \<Longrightarrow> moved st sts b c \<Longrightarrow> moved st sts a c"
  by (auto simp: moved_def)

lemma movedI: "op_state op = st \<Longrightarrow> st' \<in> set sts \<Longrightarrow>
    moved st sts op (op\<lparr>op_state := st', op_status_text := s\<rparr>)"
  by (auto simp: moved_def)

lemma fail_one_ok: "dlc_ok m \<Longrightarrow> dlc_ok (fst (fail_one st error m k))"
  by (auto simp: fail_one_def dlc_ok_order_id intro!: dlc_ok_put split: option.splits)

lemma fail_one_rel: "ops_rel (moved st [OpError]) m (fst (fail_one st error m k))"
  by (auto simp: fail_one_def moved_refl intro!: ops_rel_refl ops_rel_put movedI split: option.splits)

lemma retry_one_ok: "dlc_ok m \<Longrightarrow> dlc_ok (fst (retry_one st back what error m k))"
  by (auto simp: retry_one_def Let_def case_prod_beta dlc_ok_order_id
      intro!: dlc_ok_put dlc_ok_set_state dlc_ok_counts qm_ok_insert dlc_ok_counts_qm
      split: option.splits)

lemma retry_one_rel:
  assumes "dlc_ok m"
  shows "ops_rel (moved st [back, OpError]) m (fst (retry_one st back what error m k))"
proof (cases "get_operation k m")
  case None
  then show ?thesis by (simp add: retry_one_def ops_rel_refl moved_refl)
next
  case (Some op)
  with assms have "op_order_id op = k" by (simp add: dlc_ok_order_id)
  with Some show ?thesis
    by (auto simp: retry_one_def Let_def case_prod_beta ops_rel_def moved_def split: if_splits)
qed

interpretation fail_keeps: keeps "fail_one st error" "\<lambda>_. True" dlc_ok for st error
  by unfold_locales (rule fail_one_ok)

interpretation retry_keeps: keeps "retry_one st st2 w error" "\<lambda>_. True" dlc_ok
  for st st2 w error
  by unfold_locales (rule retry_one_ok)

lemma fail_loop_ok: "dlc_ok m \<Longrightarrow> dlc_ok (fst (run (fail_one st error) m ks))"
  by (rule fail_keeps.inv_run) (simp_all add: list_all_def)

lemma retry_loop_ok: "dlc_ok m \<Longrightarrow> dlc_ok (fst (run (retry_one st back what error) m ks))"
  by (rule retry_keeps.inv_run) (simp_all add: list_all_def)

lemma fail_loop_rel:
  assumes "st \<noteq> OpError"
  shows "ops_rel (moved st [OpError]) m (fst (run (fail_one st error) m ks))"
proof (induction ks arbitrary: m)
  case Nil
  show ?case by (simp add: ops_rel_refl moved_refl)
next
  case (Cons k ks)
  show ?case
    using ops_rel_trans [OF fail_one_rel Cons.IH moved_trans [of st "[OpError]"]] assms by simp
qed

lemma retry_loop_rel:
  assumes "st \<noteq> OpError" and "st \<noteq> back" and "dlc_ok m"
  shows "ops_rel (moved st [back, OpError]) m (fst (run (retry_one st back what error) m ks))"
  using assms(3)
proof (induction ks arbitrary: m)
  case Nil
  show ?case by (simp add: ops_rel_refl moved_refl)
next
  case (Cons k ks)
  show ?case
    using ops_rel_trans [OF retry_one_rel [OF Cons.prems] Cons.IH [OF retry_one_ok [OF Cons.prems]]
        moved_trans [of st "[back, OpError]"]] assms(1,2) by simp
qed

text \<open>No operation the loop visits is left in the state it looks for.\<close>

lemma fail_one_leaves:
  "st \<noteq> OpError \<Longrightarrow> get_operation k (fst (fail_one st error m k)) = Some op \<Longrightarrow> op_state op \<noteq> st"
  by (auto simp: fail_one_def split: option.splits if_splits)

lemma retry_one_leaves:
  "st \<noteq> OpError \<Longrightarrow> st \<noteq> back \<Longrightarrow> dlc_ok m \<Longrightarrow>
    get_operation k (fst (retry_one st back what error m k)) = Some op \<Longrightarrow> op_state op \<noteq> st"
  by (auto simp: retry_one_def Let_def case_prod_beta dlc_ok_order_id split: option.splits if_splits)

lemma moved_leaves:
  "ops_rel (moved st sts) m m' \<Longrightarrow> st \<notin> set sts \<Longrightarrow>
    \<forall>op. get_operation k m = Some op \<longrightarrow> op_state op \<noteq> st \<Longrightarrow>
    get_operation k m' = Some op' \<Longrightarrow> op_state op' \<noteq> st"
  unfolding ops_rel_def moved_def by fastforce

definition clear_of :: "op_state \<Rightarrow> string \<Rightarrow> dlc_machine \<Rightarrow> bool" where
  "clear_of st k m \<longleftrightarrow> (case get_operation k m of None \<Rightarrow> True | Some op \<Rightarrow> op_state op \<noteq> st)"

lemma moved_clear:
  "ops_rel (moved st sts) m m' \<Longrightarrow> st \<notin> set sts \<Longrightarrow> clear_of st k m \<Longrightarrow> clear_of st k m'"
  unfolding ops_rel_def moved_def clear_of_def by (fastforce split: option.splits)

lemma fail_one_clears: "st \<noteq> OpError \<Longrightarrow> clear_of st k (fst (fail_one st error m k))"
  using fail_one_leaves [of st k error m] by (simp add: clear_of_def split: option.split)

lemma retry_one_clears:
  "st \<noteq> OpError \<Longrightarrow> st \<noteq> back \<Longrightarrow> dlc_ok m \<Longrightarrow>
    clear_of st k (fst (retry_one st back what error m k))"
  using retry_one_leaves [of st "back" m k what error] by (simp add: clear_of_def split: option.split)

text \<open>
  A loop whose body clears the key it visits and keeps every other key clear, clears all keys.
\<close>

locale clearing = keeps +
  fixes clear :: "'b \<Rightarrow> 'a \<Rightarrow> bool"
  assumes clears: "inv s \<Longrightarrow> clear k (fst (step s k))"
    and stays_clear: "inv s \<Longrightarrow> clear k s \<Longrightarrow> clear k (fst (step s x))"
    and any: "allowed x"
begin

lemma clear_run: "inv s \<Longrightarrow> k \<in> set ks \<or> clear k s \<Longrightarrow> clear k (fst (run step s ks))"
proof (induction ks arbitrary: s)
  case (Cons x ks)
  have "k \<in> set ks \<or> clear k (fst (step s x))"
    using Cons.prems clears stays_clear by (cases "k = x") auto
  with Cons show ?case by (simp add: inv_step any)
qed simp

end

interpretation fail_clear: clearing "fail_one TakerAwaitingAcceptContext error" "\<lambda>_. True" "\<lambda>_. True"
    "clear_of TakerAwaitingAcceptContext" for error
  by unfold_locales (auto intro: fail_one_clears moved_clear [OF fail_one_rel])

interpretation fail_sign_clear: clearing "fail_one MakerAwaitingSignContext error" "\<lambda>_. True" "\<lambda>_. True"
    "clear_of MakerAwaitingSignContext" for error
  by unfold_locales (auto intro: fail_one_clears moved_clear [OF fail_one_rel])

interpretation retry_clear: clearing "retry_one TakerSubmittingAccept TakerAwaitingAcceptContext w error"
    "\<lambda>_. True" dlc_ok "clear_of TakerSubmittingAccept" for w error
  by unfold_locales (auto intro: retry_one_ok retry_one_clears moved_clear [OF retry_one_rel])

interpretation retry_sign_clear: clearing "retry_one MakerSubmittingSign MakerAwaitingSignContext w error"
    "\<lambda>_. True" dlc_ok "clear_of MakerSubmittingSign" for w error
  by unfold_locales (auto intro: retry_one_ok retry_one_clears moved_clear [OF retry_one_rel])

lemma get_operation_key: "get_operation k m = Some op \<Longrightarrow> k \<in> set (map fst (m_operations m))"
  unfolding get_operation_def by (force dest: map_of_SomeD)

end
