(* ===== verification/Dlc_Protocol.thy ===== *)
theory Dlc_Protocol
  imports Dlc_Facts
begin

text \<open>
  The protocol of one operation, abstracted from the machine that runs many: which event may
  move an operation to which state, and what it may change on the way.  The machine refines it.
\<close>

section \<open>One operation\<close>

definition goto :: "op_state \<Rightarrow> string \<Rightarrow> order_operation \<Rightarrow> order_operation" where
  "goto st s op = op\<lparr>op_state := st, op_status_text := s\<rparr>"

text \<open>
  The events an operation may not ignore: those addressed to its order id, and the failures of
  the request it waits for.  (An event addressed by DLC id moves one operation with that id, so
  another with the same id stays.)
\<close>

fun must_move :: "dlc_event \<Rightarrow> order_operation \<Rightarrow> bool" where
  "must_move (SubmitTaker k cs rs fs) op \<longleftrightarrow> op_order_id op = k \<and> ac_order_id (op_accept_context op) \<noteq> []"
| "must_move (Reply (AcceptContextReady ctx)) op \<longleftrightarrow> ac_order_id ctx = op_order_id op"
| "must_move (Reply (AcceptSubmitted r)) op \<longleftrightarrow> ord_order_id r = op_order_id op"
| "must_move (Reply (AcceptContextFailed err)) op \<longleftrightarrow> op_state op = TakerAwaitingAcceptContext"
| "must_move (Reply (AcceptSubmitFailed err)) op \<longleftrightarrow> op_state op = TakerSubmittingAccept"
| "must_move (Reply (SignContextFailed err)) op \<longleftrightarrow> op_state op = MakerAwaitingSignContext"
| "must_move (Reply (SignSubmitFailed err)) op \<longleftrightarrow> op_state op = MakerSubmittingSign"
| "must_move _ op \<longleftrightarrow> False"

inductive op_step :: "dlc_event \<Rightarrow> order_operation \<Rightarrow> order_operation \<Rightarrow> bool" where
  stay: "\<not> must_move e op \<Longrightarrow> op_step e op op"
| submit_taker: "op_order_id op = k \<Longrightarrow> ac_order_id (op_accept_context op) \<noteq> [] \<Longrightarrow>
    op_step (SubmitTaker k cs rs fs) op (goto TakerSubmittingAccept s op)"
| submit_maker: "op_dlc_id op = d \<Longrightarrow>
    op_step (SubmitMaker d cs rs fs) op (goto MakerSubmittingSign s op)"
| accept_context: "ac_order_id ctx = op_order_id op \<Longrightarrow>
    op_step (Reply (AcceptContextReady ctx)) op
      (goto TakerSigningAccept s (op\<lparr>op_accept_context := ctx, op_accept_context_fetched := True\<rparr>))"
| accept_context_failed: "op_state op = TakerAwaitingAcceptContext \<Longrightarrow>
    op_step (Reply (AcceptContextFailed err)) op (goto OpError s op)"
| accept_submitted: "ord_order_id r = op_order_id op \<Longrightarrow>
    op_step (Reply (AcceptSubmitted r)) op (goto TakerAcceptSubmitted s op)"
| accept_retry: "op_state op = TakerSubmittingAccept \<Longrightarrow>
    op_step (Reply (AcceptSubmitFailed err)) op (goto TakerAwaitingAcceptContext s op)"
| accept_give_up: "op_state op = TakerSubmittingAccept \<Longrightarrow>
    op_step (Reply (AcceptSubmitFailed err)) op (goto OpError s op)"
| sign_context: "sc_dlc_id ctx = op_dlc_id op \<Longrightarrow>
    op_step (Reply (SignContextReady ctx)) op
      (goto MakerSigningSign s (op\<lparr>op_sign_context := ctx, op_sign_context_fetched := True\<rparr>))"
| sign_context_failed: "op_state op = MakerAwaitingSignContext \<Longrightarrow>
    op_step (Reply (SignContextFailed err)) op (goto OpError s op)"
| sign_submitted: "sr_dlc_id r = op_dlc_id op \<Longrightarrow>
    op_step (Reply (SignSubmitted r)) op (goto MakerSignSubmitted s op)"
| sign_funded: "sr_dlc_id r = op_dlc_id op \<Longrightarrow> sr_funding_broadcasted r \<Longrightarrow> sr_funding_txid r \<noteq> [] \<Longrightarrow>
    op_step (Reply (SignSubmitted r)) op (goto DLCFunded s op)"
| sign_retry: "op_state op = MakerSubmittingSign \<Longrightarrow>
    op_step (Reply (SignSubmitFailed err)) op (goto MakerAwaitingSignContext s op)"
| sign_give_up: "op_state op = MakerSubmittingSign \<Longrightarrow>
    op_step (Reply (SignSubmitFailed err)) op (goto OpError s op)"
| dlc_signed: "dd_dlc_id d = op_dlc_id op \<Longrightarrow> dd_status d = ''signed'' \<Longrightarrow>
    op_step (Reply (DlcReady d)) op (goto DLCSignedAwaitingFunding s op)"
| dlc_funded: "dd_dlc_id d = op_dlc_id op \<Longrightarrow> dd_status d = ''funded'' \<Longrightarrow>
    op_step (Reply (DlcReady d)) op (goto DLCFunded s op)"
| dlc_settled: "dd_dlc_id d = op_dlc_id op \<Longrightarrow> dd_status d = ''settled'' \<Longrightarrow>
    op_step (Reply (DlcReady d)) op (goto DLCSettled s op)"

text \<open>How an operation comes into being.\<close>

inductive op_born :: "order \<Rightarrow> order_operation \<Rightarrow> bool" where
  idle: "\<not> ord_pending_match_accept r \<Longrightarrow> op_born r (new_operation r)"
| taker: "ord_pending_match_accept r \<Longrightarrow>
    op_born r (goto TakerAwaitingAcceptContext s (new_operation r))"

lemma goto_goto [simp]: "goto st s (goto st' s' op) = goto st s op"
  by (simp add: goto_def)

lemma op_step_ids: "op_step e op op' \<Longrightarrow> op_order_id op' = op_order_id op \<and> op_dlc_id op' = op_dlc_id op"
  by (induction rule: op_step.induct) (simp_all add: goto_def)

lemma op_step_keys: "op_step e op op' \<Longrightarrow>
    op_funding_pubkey_hex op' = op_funding_pubkey_hex op \<and>
    op_funding_privkey_hex op' = op_funding_privkey_hex op"
  by (induction rule: op_step.induct) (simp_all add: goto_def)

lemma op_born_fields: "op_born r op \<Longrightarrow> op_order_id op = ord_order_id r \<and>
    op_dlc_id op = ord_dlc_id r \<and> op_accept_context op = new_accept_context \<and>
    op_funding_pubkey_hex op = [] \<and> op_funding_privkey_hex op = []"
  by (induction rule: op_born.induct) (simp_all add: goto_def new_operation_def)

lemma op_born_state: "op_born r op \<Longrightarrow> op_state op \<in> {OpIdle, TakerAwaitingAcceptContext}"
  by (induction rule: op_born.induct) (simp_all add: goto_def new_operation_def)

section \<open>Every event keeps the maps well-formed\<close>

lemma track_ok: "dlc_ok m \<Longrightarrow> dlc_ok (fst (track_order r m))"
  by (auto simp: track_order_def Let_def case_prod_beta new_operation_def
      intro!: dlc_ok_set_state dlc_ok_put)

lemma untrack_ok: "dlc_ok m \<Longrightarrow> dlc_ok (untrack_order k m)"
  by (auto simp: dlc_ok_def untrack_order_def get_operation_def qm_ok_remove qmap_simps)

lemma accept_ready_ok: "dlc_ok m \<Longrightarrow> dlc_ok (fst (on_accept_context_ready ctx m))"
  by (auto simp: on_accept_context_ready_def Let_def case_prod_beta dlc_ok_order_id
      intro!: dlc_ok_set_state dlc_ok_put split: option.splits)

lemma sign_ready_ok: "dlc_ok m \<Longrightarrow> dlc_ok (fst (on_sign_context_ready ctx m))"
  by (auto simp: on_sign_context_ready_def Let_def case_prod_beta find_by_dlc_SomeD
      intro!: dlc_ok_set_state dlc_ok_put split: option.splits)

lemma on_reply_ok: "dlc_ok m \<Longrightarrow> dlc_ok (fst (on_reply s m))"
  by (cases s) (auto simp: loop_defs on_accept_submitted_def on_sign_submitted_def on_dlc_ready_def
      Let_def case_prod_beta fail_loop_ok retry_loop_ok accept_ready_ok sign_ready_ok
      intro!: dlc_ok_set_state split: option.splits)

lemma dlc_ok_settings: "m_operations m' = m_operations m \<Longrightarrow> m_retry_counts m' = m_retry_counts m \<Longrightarrow>
    dlc_ok m' \<longleftrightarrow> dlc_ok m"
  by (simp add: dlc_ok_def get_operation_def)

lemma settings_ok:
  "dlc_ok (set_polling_interval_ms i m) \<longleftrightarrow> dlc_ok m" "dlc_ok (set_max_retries n m) \<longleftrightarrow> dlc_ok m"
  "dlc_ok (start_polling m) \<longleftrightarrow> dlc_ok m" "dlc_ok (stop_polling m) \<longleftrightarrow> dlc_ok m"
  by (rule dlc_ok_settings; simp add: set_polling_interval_ms_def set_max_retries_def
      start_polling_def stop_polling_def Let_def)+

lemma dlc_step_ok: "dlc_ok m \<Longrightarrow> dlc_ok (fst (dlc_step m e))"
  by (cases e) (auto simp: track_ok untrack_ok on_reply_ok settings_ok
      submit_taker_accept_signatures_def submit_maker_sign_signatures_def Let_def case_prod_beta
      intro!: dlc_ok_set_state split: option.splits)

interpretation dlc: keeps dlc_step "\<lambda>_. True" dlc_ok
  by unfold_locales (rule dlc_step_ok)

lemma init_ok: "dlc_ok init_machine"
  by (simp add: dlc_ok_def init_machine_def get_operation_def qm_ok_empty)

lemma dlc_run_ok: "dlc_ok m \<Longrightarrow> dlc_ok (fst (run dlc_step m es))"
  by (rule dlc.inv_run) (simp_all add: list_all_def)

section \<open>Every event moves every operation by the protocol\<close>

lemma moved_step:
  assumes "moved st sts op op'" and "op_state op' \<noteq> st"
    and "op_state op \<noteq> st \<Longrightarrow> \<not> must_move e op"
    and "\<And>st' s. op_state op = st \<Longrightarrow> st' \<in> set sts \<Longrightarrow> op_step e op (goto st' s op)"
  shows "op_step e op op'"
proof (cases "op' = op")
  case True
  with assms(2,3) show ?thesis by (simp add: op_step.stay)
next
  case False
  with assms(1) obtain st' s where "op_state op = st" "st' \<in> set sts" "op' = goto st' s op"
    by (auto simp: moved_def goto_def)
  with assms(4) show ?thesis by simp
qed

lemma loop_step:
  assumes "get_operation k m' = Some op'" and "ops_rel (moved st sts) m m'"
    and "get_operation k m \<noteq> None \<Longrightarrow> clear_of st k m'"
    and "\<And>op. op_state op \<noteq> st \<Longrightarrow> \<not> must_move e op"
    and "\<And>op s st'. op_state op = st \<Longrightarrow> st' \<in> set sts \<Longrightarrow> op_step e op (goto st' s op)"
  shows "\<exists>op. get_operation k m = Some op \<and> op_step e op op'"
proof -
  from assms(1,2) obtain op where op: "get_operation k m = Some op" "moved st sts op op'"
    unfolding ops_rel_def by blast
  have "op_state op' \<noteq> st"
    using assms(1,3) op(1) by (simp add: clear_of_def)
  with op(2) have "op_step e op op'"
    by (rule moved_step) (auto simp: assms(4,5))
  with op(1) show ?thesis by blast
qed

lemma op_step_failures:
  "op_state op = TakerAwaitingAcceptContext \<Longrightarrow> st' \<in> set [OpError] \<Longrightarrow>
    op_step (Reply (AcceptContextFailed e)) op (goto st' s op)"
  "op_state op = MakerAwaitingSignContext \<Longrightarrow> st' \<in> set [OpError] \<Longrightarrow>
    op_step (Reply (SignContextFailed e)) op (goto st' s op)"
  "op_state op = TakerSubmittingAccept \<Longrightarrow> st' \<in> set [TakerAwaitingAcceptContext, OpError] \<Longrightarrow>
    op_step (Reply (AcceptSubmitFailed e)) op (goto st' s op)"
  "op_state op = MakerSubmittingSign \<Longrightarrow> st' \<in> set [MakerAwaitingSignContext, OpError] \<Longrightarrow>
    op_step (Reply (SignSubmitFailed e)) op (goto st' s op)"
  by (auto intro: op_step.intros)

lemma on_reply_step:
  assumes "dlc_ok m" and "get_operation k (fst (on_reply s m)) = Some op'"
  shows "\<exists>op. get_operation k m = Some op \<and> op_step (Reply s) op op'"
proof (cases s)
  case (AcceptContextReady ctx)
  with assms show ?thesis
    by (auto simp: on_accept_context_ready_def Let_def case_prod_beta dlc_ok_order_id
        goto_def [symmetric] intro!: op_step.accept_context op_step.stay split: option.splits if_splits)
next
  case (SignContextReady ctx)
  with assms show ?thesis
    by (auto simp: on_sign_context_ready_def Let_def case_prod_beta find_by_dlc_SomeD
        goto_def [symmetric] intro!: op_step.sign_context op_step.stay split: option.splits if_splits)
next
  case (AcceptContextFailed e)
  show ?thesis
    using assms(2) unfolding AcceptContextFailed on_reply.simps on_accept_context_failed_def
    by (rule loop_step [OF _ fail_loop_rel fail_clear.clear_run])
      (auto simp: op_step_failures dest: get_operation_key)
next
  case (SignContextFailed e)
  show ?thesis
    using assms(2) unfolding SignContextFailed on_reply.simps on_sign_context_failed_def
    by (rule loop_step [OF _ fail_loop_rel fail_sign_clear.clear_run])
      (auto simp: op_step_failures dest: get_operation_key)
next
  case (AcceptSubmitFailed e)
  show ?thesis
    using assms(2) unfolding AcceptSubmitFailed on_reply.simps on_accept_submit_failed_def
    by (rule loop_step [OF _ retry_loop_rel retry_clear.clear_run])
      (use assms(1) in \<open>auto simp: op_step_failures dest: get_operation_key\<close>)
next
  case (SignSubmitFailed e)
  show ?thesis
    using assms(2) unfolding SignSubmitFailed on_reply.simps on_sign_submit_failed_def
    by (rule loop_step [OF _ retry_loop_rel retry_sign_clear.clear_run])
      (use assms(1) in \<open>auto simp: op_step_failures dest: get_operation_key\<close>)
next
  case (AcceptSubmitted r)
  with assms show ?thesis
    by (auto simp: on_accept_submitted_def Let_def case_prod_beta dlc_ok_order_id goto_def [symmetric]
        intro!: op_step.stay op_step.accept_submitted split: option.splits if_splits)
next
  case (SignSubmitted r)
  with assms show ?thesis
    using op_step.sign_submitted [of r] op_step.sign_funded [of r]
    by (auto simp: on_sign_submitted_def Let_def case_prod_beta find_by_dlc_SomeD
        goto_def [symmetric] intro: op_step.stay split: option.splits if_splits)
next
  case (DlcReady d)
  with assms show ?thesis
    using op_step.dlc_signed [of d] op_step.dlc_funded [of d] op_step.dlc_settled [of d]
    by (auto simp: on_dlc_ready_def Let_def case_prod_beta find_by_dlc_SomeD goto_def [symmetric]
        intro: op_step.stay split: option.splits if_splits)
qed (use assms(2) in \<open>auto intro: op_step.stay\<close>)

lemma new_operation_role: "ord_pending_match_accept r \<Longrightarrow> op_match_role (new_operation r) = ''taker''"
  by (simp add: new_operation_def)

text \<open>
  The simulation: an operation of the next state was born by this very event, or survives it by
  a step of the protocol.
\<close>

lemma dlc_step_sim:
  assumes "dlc_ok m" and "get_operation k (fst (dlc_step m e)) = Some op'"
  shows "(\<exists>r. e = TrackOrder r \<and> ord_order_id r = k \<and> op_born r op') \<or>
    (\<forall>r. e = TrackOrder r \<longrightarrow> ord_order_id r \<noteq> k) \<and> e \<noteq> UntrackOrder k \<and>
    (\<exists>op. get_operation k m = Some op \<and> op_step e op op')"
proof (cases e)
  case (TrackOrder r)
  with assms(2) show ?thesis
    using op_born.taker [of r] op_born.idle [of r]
    by (auto simp: track_order_def Let_def case_prod_beta goto_def [symmetric] new_operation_role
        split: if_splits intro: op_step.stay)
next
  case (SubmitTaker i cs rs fs)
  with assms show ?thesis
    by (auto simp: submit_taker_accept_signatures_def Let_def case_prod_beta goto_def [symmetric]
        dlc_ok_order_id split: option.splits if_splits intro: op_step.stay intro!: op_step.submit_taker)
next
  case (SubmitMaker d cs rs fs)
  with assms show ?thesis
    by (auto simp: submit_maker_sign_signatures_def Let_def case_prod_beta goto_def [symmetric]
        find_by_dlc_SomeD split: option.splits if_splits intro: op_step.stay intro!: op_step.submit_maker)
next
  case (Reply s)
  with assms on_reply_step [OF assms(1), of k s op'] show ?thesis by auto
qed (use assms(2) in \<open>auto simp: untrack_order_def set_polling_interval_ms_def set_max_retries_def
    start_polling_def stop_polling_def get_operation_def qmap_simps Let_def
    intro: op_step.stay split: if_splits\<close>)

section \<open>Histories and invariants of one operation\<close>

text \<open>The events an operation lives through, from its birth on.\<close>

inductive op_path :: "dlc_event list \<Rightarrow> order_operation \<Rightarrow> order_operation \<Rightarrow> bool" where
  here: "op_path [] op op"
| onward: "op_path es op op1 \<Longrightarrow> op_step e op1 op2 \<Longrightarrow> op_path (es @ [e]) op op2"

fun drops :: "string \<Rightarrow> dlc_event \<Rightarrow> bool" where
  "drops k (TrackOrder r) \<longleftrightarrow> ord_order_id r = k"
| "drops k (UntrackOrder i) \<longleftrightarrow> i = k"
| "drops k _ \<longleftrightarrow> False"

text \<open>
  A property of single operations that birth establishes and every allowed protocol step keeps
  holds of every operation of every reachable machine.
\<close>

locale op_invariant =
  fixes allowed :: "dlc_event \<Rightarrow> bool" and P :: "order_operation \<Rightarrow> bool"
  assumes born: "allowed (TrackOrder r) \<Longrightarrow> op_born r op \<Longrightarrow> P op"
    and stepped: "allowed e \<Longrightarrow> op_step e op op' \<Longrightarrow> P op \<Longrightarrow> P op'"
begin

lemma every_op:
  "list_all allowed es \<Longrightarrow>
    get_operation k (fst (run dlc_step init_machine es)) = Some op \<Longrightarrow> P op"
proof (induction es arbitrary: k op rule: rev_induct)
  case Nil
  then show ?case by (simp add: init_machine_def get_operation_def)
next
  case (snoc e es)
  let ?m = "fst (run dlc_step init_machine es)"
  have "dlc_ok ?m" by (simp add: dlc_run_ok init_ok)
  from dlc_step_sim [OF this, of k e op] snoc show ?case
    by (auto simp: run_append_fst intro: born stepped)
qed

end

end
