(* ===== verification/Dlc_Traces.thy ===== *)
theory Dlc_Traces
  imports Dlc_Protocol
begin

text \<open>
  What runs of the negotiation machine look like: which event can emit which call into the
  client, the accept context an order holds after a history, and the retry budget.
\<close>

section \<open>What each event can emit\<close>

interpretation fail_out: promises "fail_one st error" "\<lambda>_. True" "\<lambda>_. True"
    "\<lambda>x. \<exists>i. x = OperationFailed i error" for st error
  by unfold_locales (auto simp: fail_one_def split: option.splits if_splits)

interpretation retry_out: promises "retry_one st st2 w error" "\<lambda>_. True" "\<lambda>_. True"
    "\<lambda>x. (\<exists>i. x = OperationFailed i error) \<or> (\<exists>i n. x = OperationRetrying i n) \<or>
      (\<exists>i s. x = OperationStateChanged i st2 s)" for st st2 w error
  by unfold_locales (auto simp: retry_one_def Let_def case_prod_beta dest: set_state_out
      split: option.splits if_splits)

lemma fail_loop_out: "x \<in> set (snd (run (fail_one st error) m ks)) \<Longrightarrow> \<exists>i. x = OperationFailed i error"
  by (rule fail_out.good_run) (simp_all add: list_all_def)

lemma retry_loop_out:
  "x \<in> set (snd (run (retry_one st st2 w error) m ks)) \<Longrightarrow>
    (\<exists>i. x = OperationFailed i error) \<or> (\<exists>i n. x = OperationRetrying i n) \<or>
    (\<exists>i s. x = OperationStateChanged i st2 s)"
  by (rule retry_out.good_run) (simp_all add: list_all_def)

text \<open>The calls into the client, as opposed to the machine's signals.\<close>

fun is_call :: "dlc_output \<Rightarrow> bool" where
  "is_call (CallGetAcceptContext _ _) = True"
| "is_call (CallSubmitAccept _ _ _ _ _ _) = True"
| "is_call (CallGetSignContext _) = True"
| "is_call (CallSubmitSign _ _ _ _) = True"
| "is_call (CallGetDlc _) = True"
| "is_call _ = False"

lemma loop_no_call:
  "x \<in> set (snd (run (fail_one st error) m ks)) \<Longrightarrow> \<not> is_call x"
  "x \<in> set (snd (run (retry_one st st2 w error) m ks)) \<Longrightarrow> \<not> is_call x"
  by (auto dest!: fail_loop_out retry_loop_out)

lemma set_state_no_call: "x \<in> set (snd (set_operation_state i st s m)) \<Longrightarrow> \<not> is_call x"
  by (auto dest!: set_state_out)

lemma on_reply_no_call: "x \<in> set (snd (on_reply s m)) \<Longrightarrow> \<not> is_call x"
  by (cases s) (auto simp: loop_defs on_accept_context_ready_def on_sign_context_ready_def
      on_accept_submitted_def on_sign_submitted_def on_dlc_ready_def Let_def case_prod_beta
      dest: loop_no_call set_state_no_call split: option.splits if_splits)

lemma poll_one_calls:
  "x \<in> set (poll_one op) \<longleftrightarrow>
     op_state op = TakerAwaitingAcceptContext \<and> x = CallGetAcceptContext (op_order_id op) (op_funding_pubkey_hex op)
   \<or> op_state op = MakerAwaitingSignContext \<and> x = CallGetSignContext (op_dlc_id op)
   \<or> op_state op = DLCSignedAwaitingFunding \<and> x = CallGetDlc (op_dlc_id op)"
  by (cases "op_state op") (simp_all add: poll_one_def advance_taker_operation_def
      advance_maker_operation_def)

lemma poll_calls:
  "x \<in> set (on_poll_timer m) \<longleftrightarrow>
    (\<exists>k op. (k, op) \<in> set (m_operations m) \<and> x \<in> set (poll_one op))"
  by (force simp: on_poll_timer_def)

lemma dlc_step_calls:
  assumes "x \<in> set (snd (dlc_step m e))" and "is_call x"
  shows "(\<exists>k op cs rs fs. e = SubmitTaker k cs rs fs \<and> get_operation k m = Some op \<and>
            ac_order_id (op_accept_context op) \<noteq> [] \<and>
            x = CallSubmitAccept k (op_funding_pubkey_hex op)
                  (ac_context_fingerprint (op_accept_context op)) cs rs fs)
       \<or> (\<exists>d cs rs fs. e = SubmitMaker d cs rs fs \<and> x = CallSubmitSign d cs rs fs)
       \<or> (\<exists>r. e = TrackOrder r \<and> x = CallGetAcceptContext (ord_order_id r) [])
       \<or> x \<in> set (on_poll_timer m)"
  using assms
  by (cases e) (auto simp: track_order_def submit_taker_accept_signatures_def
      submit_maker_sign_signatures_def Let_def case_prod_beta advance_taker_operation_def
      new_operation_def dest: set_state_no_call on_reply_no_call split: option.splits if_splits)

lemma poll_member:
  assumes "dlc_ok m" and "(k, op) \<in> set (m_operations m)"
  shows "get_operation k m = Some op"
  using assms by (simp add: dlc_ok_def get_operation_def qm_ok_distinct)

section \<open>Library of the properties\<close>

lemma is_call_member:
  assumes "x \<in> set (snd (run dlc_step m es))" and "is_call x"
  obtains es1 e es2 where "es = es1 @ e # es2"
    and "x \<in> set (snd (dlc_step (fst (run dlc_step m es1)) e))"
  using assms by (auto simp: run_output_at)

text \<open>The accept context an order holds after a history: the last one sent since it was tracked.\<close>

fun track_context :: "string \<Rightarrow> dlc_event \<Rightarrow> accept_context \<Rightarrow> accept_context" where
  "track_context k (TrackOrder r) c = (if ord_order_id r = k then new_accept_context else c)"
| "track_context k (Reply (AcceptContextReady ctx)) c = (if ac_order_id ctx = k then ctx else c)"
| "track_context k _ c = c"

definition latest_context :: "string \<Rightarrow> dlc_event list \<Rightarrow> accept_context" where
  "latest_context k es = fold (track_context k) es new_accept_context"

lemma latest_context_from:
  "latest_context k es = new_accept_context \<or>
    ac_order_id (latest_context k es) = k \<and> Reply (AcceptContextReady (latest_context k es)) \<in> set es"
proof (induction es rule: rev_induct)
  case (snoc e es)
  then show ?case
    by (cases "(k, e, latest_context k es)" rule: track_context.cases) (auto simp: latest_context_def)
qed (simp add: latest_context_def)

lemma op_step_context:
  "op_step e op op' \<Longrightarrow> (\<And>r. e = TrackOrder r \<Longrightarrow> ord_order_id r \<noteq> op_order_id op) \<Longrightarrow>
    op_accept_context op' = track_context (op_order_id op) e (op_accept_context op)"
proof (induction rule: op_step.induct)
  case (stay e op)
  then show ?case
    by (cases "(op_order_id op, e, op_accept_context op)" rule: track_context.cases) auto
qed (auto simp: goto_def)

lemma context_latest:
  "get_operation k (fst (run dlc_step init_machine es)) = Some op \<Longrightarrow>
    op_accept_context op = latest_context k es"
proof (induction es arbitrary: op rule: rev_induct)
  case Nil
  then show ?case by (simp add: init_machine_def get_operation_def)
next
  case (snoc e es)
  let ?m = "fst (run dlc_step init_machine es)"
  have ok: "dlc_ok ?m" by (simp add: dlc_run_ok init_ok)
  from snoc.prems have "get_operation k (fst (dlc_step ?m e)) = Some op"
    by (simp add: run_append_fst)
  from dlc_step_sim [OF ok this] show ?case
  proof (elim disjE exE conjE)
    fix r
    assume "e = TrackOrder r" "ord_order_id r = k" "op_born r op"
    then show ?thesis by (simp add: latest_context_def op_born_fields)
  next
    fix op0
    assume *: "\<forall>r. e = TrackOrder r \<longrightarrow> ord_order_id r \<noteq> k"
      "get_operation k ?m = Some op0" "op_step e op0 op"
    then have "op_accept_context op = track_context k e (op_accept_context op0)"
      using op_step_context [of e op0 op] dlc_ok_order_id [OF ok] by auto
    with snoc.IH [OF *(2)] show ?thesis by (simp add: latest_context_def)
  qed
qed

text \<open>The retry counter of an order and the budget it leaves.\<close>

definition retries_left :: "string \<Rightarrow> dlc_machine \<Rightarrow> nat" where
  "retries_left i m = nat (m_max_retries m - qm_value (m_retry_counts m) i 0)"

fun retrying :: "string \<Rightarrow> dlc_output \<Rightarrow> bool" where
  "retrying i (OperationRetrying j n) \<longleftrightarrow> i = j"
| "retrying i _ \<longleftrightarrow> False"

fun keeps_budget :: "string \<Rightarrow> dlc_event \<Rightarrow> bool" where
  "keeps_budget i (UntrackOrder j) \<longleftrightarrow> i \<noteq> j"
| "keeps_budget i (SetMaxRetries n) \<longleftrightarrow> False"
| "keeps_budget i _ \<longleftrightarrow> True"

lemma retries_left_put [simp]: "retries_left i (put_operation k op m) = retries_left i m"
  by (simp add: retries_left_def)

lemma retries_left_set_state [simp]:
  "retries_left i (fst (set_operation_state k st s m)) = retries_left i m"
  by (simp add: retries_left_def)

lemma set_state_not_retrying [simp]:
  "filter (retrying i) (snd (set_operation_state k st s m)) = []"
  by (simp add: set_operation_state_def split: option.split)

interpretation retry_meter: metered "retry_one st st2 w error" "\<lambda>_. True" dlc_ok
    "retries_left i" "retrying i" for st st2 w error i
proof unfold_locales
  fix m k
  assume "dlc_ok m"
  show "retries_left i (fst (retry_one st st2 w error m k))
      + length (filter (retrying i) (snd (retry_one st st2 w error m k))) \<le> retries_left i m"
    by (auto simp: retry_one_def Let_def case_prod_beta retries_left_def qmap_simps split: option.split)
qed

interpretation fail_meter: metered "fail_one st error" "\<lambda>_. True" dlc_ok
    "retries_left i" "retrying i" for st error i
  by unfold_locales (auto simp: fail_one_def split: option.split)

lemma poll_not_retrying [simp]: "filter (retrying i) (on_poll_timer m) = []"
  by (auto simp: filter_empty_conv poll_calls poll_one_calls)

lemma advance_not_retrying [simp]: "filter (retrying i) (advance_taker_operation op) = []"
  by (simp add: advance_taker_operation_def)

lemma on_reply_meter:
  assumes "dlc_ok m"
  shows "retries_left i (fst (on_reply s m)) + length (filter (retrying i) (snd (on_reply s m))) \<le> retries_left i m"
  using assms by (cases s) (auto simp: loop_defs on_accept_context_ready_def on_sign_context_ready_def
      on_accept_submitted_def on_sign_submitted_def on_dlc_ready_def Let_def case_prod_beta
      retry_meter.meter_run fail_meter.meter_run split: option.splits)

interpretation dlc_meter: metered dlc_step "keeps_budget i" dlc_ok "retries_left i" "retrying i" for i
proof unfold_locales
  fix m e
  assume m: "dlc_ok m" and e: "keeps_budget i e"
  show "dlc_ok (fst (dlc_step m e))" using m by (rule dlc_step_ok)
  show "retries_left i (fst (dlc_step m e)) + length (filter (retrying i) (snd (dlc_step m e))) \<le> retries_left i m"
  proof (cases e)
    case (Reply s)
    with on_reply_meter [OF m] show ?thesis by simp
  next
    case (UntrackOrder k)
    with e show ?thesis by (simp add: untrack_order_def retries_left_def qmap_simps)
  qed (use e in \<open>auto simp: track_order_def submit_taker_accept_signatures_def
      submit_maker_sign_signatures_def set_polling_interval_ms_def start_polling_def stop_polling_def
      retries_left_def Let_def case_prod_beta split: option.split\<close>)
qed


section \<open>The local funding key\<close>

definition erase_op :: "order_operation \<Rightarrow> order_operation" where
  "erase_op op = op\<lparr>op_funding_privkey_hex := []\<rparr>"

definition erase_privkeys :: "dlc_machine \<Rightarrow> dlc_machine" where
  "erase_privkeys m = m\<lparr>m_operations := map (\<lambda>(k, op). (k, erase_op op)) (m_operations m)\<rparr>"

lemma erase_op_fields [simp]:
  "op_order_id (erase_op op) = op_order_id op" "op_dlc_id (erase_op op) = op_dlc_id op"
  "op_state (erase_op op) = op_state op" "op_accept_context (erase_op op) = op_accept_context op"
  "op_funding_pubkey_hex (erase_op op) = op_funding_pubkey_hex op"
  "op_match_role (erase_op op) = op_match_role op"
  by (simp_all add: erase_op_def)

lemma erase_op_updates [simp]:
  "(erase_op op)\<lparr>op_state := st, op_status_text := s\<rparr> = erase_op (op\<lparr>op_state := st, op_status_text := s\<rparr>)"
  "(erase_op op)\<lparr>op_accept_context := c, op_accept_context_fetched := b\<rparr>
     = erase_op (op\<lparr>op_accept_context := c, op_accept_context_fetched := b\<rparr>)"
  "(erase_op op)\<lparr>op_sign_context := d, op_sign_context_fetched := b\<rparr>
     = erase_op (op\<lparr>op_sign_context := d, op_sign_context_fetched := b\<rparr>)"
  by (simp_all add: erase_op_def)

lemma erase_new_operation: "new_operation r = erase_op (new_operation r)"
  by (simp add: erase_op_def new_operation_def)

lemma erase_fields [simp]:
  "m_retry_counts (erase_privkeys m) = m_retry_counts m"
  "m_max_retries (erase_privkeys m) = m_max_retries m"
  "m_timer_active (erase_privkeys m) = m_timer_active m"
  "m_polling_interval_ms (erase_privkeys m) = m_polling_interval_ms m"
  "map fst (m_operations (erase_privkeys m)) = map fst (m_operations m)"
  by (simp_all add: erase_privkeys_def case_prod_beta comp_def)

lemma erase_counts: "(erase_privkeys m)\<lparr>m_retry_counts := c\<rparr> = erase_privkeys (m\<lparr>m_retry_counts := c\<rparr>)"
  by (simp add: erase_privkeys_def)

lemma qm_insert_map:
  "qm_insert k (f v) (map (\<lambda>(k, v). (k, f v)) m) = map (\<lambda>(k, v). (k, f v)) (qm_insert k v m)"
  by (induction k v m rule: qm_insert.induct) auto

lemma erase_get: "get_operation k (erase_privkeys m) = map_option erase_op (get_operation k m)"
  by (simp add: get_operation_def erase_privkeys_def map_of_map)

lemma erase_put: "put_operation k (erase_op op) (erase_privkeys m) = erase_privkeys (put_operation k op m)"
  by (simp add: put_operation_def erase_privkeys_def qm_insert_map)

lemma erase_put_new:
  "put_operation k (new_operation r) (erase_privkeys m) = erase_privkeys (put_operation k (new_operation r) m)"
  using erase_put [of k "new_operation r" m] by (simp only: erase_new_operation [symmetric])

lemma erase_settings:
  "set_polling_interval_ms i (erase_privkeys m) = erase_privkeys (set_polling_interval_ms i m)"
  "set_max_retries n (erase_privkeys m) = erase_privkeys (set_max_retries n m)"
  "start_polling (erase_privkeys m) = erase_privkeys (start_polling m)"
  "stop_polling (erase_privkeys m) = erase_privkeys (stop_polling m)"
  by (simp_all add: set_polling_interval_ms_def set_max_retries_def start_polling_def
      stop_polling_def erase_privkeys_def Let_def)

lemma erase_find:
  "find_by_dlc d (erase_privkeys m) = map_option (\<lambda>(k, op). (k, erase_op op)) (find_by_dlc d m)"
proof -
  have "find (\<lambda>(k, op). op_dlc_id op = d) (map (\<lambda>(k, op). (k, erase_op op)) xs)
      = map_option (\<lambda>(k, op). (k, erase_op op)) (find (\<lambda>(k, op). op_dlc_id op = d) xs)" for xs
    by (induction xs) auto
  then show ?thesis by (simp add: find_by_dlc_def erase_privkeys_def)
qed

lemma erase_untrack: "untrack_order k (erase_privkeys m) = erase_privkeys (untrack_order k m)"
proof -
  have "qm_remove k (map (\<lambda>(k, op). (k, erase_op op)) ops)
      = map (\<lambda>(k, op). (k, erase_op op)) (qm_remove k ops)" for ops
    by (induction ops) (auto simp: qm_remove_def)
  then show ?thesis by (simp add: untrack_order_def erase_privkeys_def)
qed

text \<open>A step that commutes with erasure emits the same whatever the keys are.\<close>

definition blind :: "(dlc_machine \<Rightarrow> dlc_machine \<times> dlc_output list) \<Rightarrow> bool" where
  "blind f \<longleftrightarrow> (\<forall>m. f (erase_privkeys m) = (erase_privkeys (fst (f m)), snd (f m)))"

lemma blindD: "blind f \<Longrightarrow> f (erase_privkeys m) = (erase_privkeys (fst (f m)), snd (f m))"
  by (simp add: blind_def)

lemma blind_set_state: "blind (set_operation_state k st s)"
  by (auto simp: blind_def set_operation_state_def erase_get erase_put split: option.splits)

lemma blind_run: "(\<And>e. blind (\<lambda>m. f m e)) \<Longrightarrow> blind (\<lambda>m. run f m es)"
proof (induction es)
  case (Cons e es)
  then show ?case
    by (simp add: blind_def run.simps(2) case_prod_beta Let_def del: run_Cons_fst run_Cons_snd)
qed (simp add: blind_def)

lemmas erase_simps = erase_get erase_put erase_find erase_counts blindD [OF blind_set_state]

lemma blind_fail: "blind (\<lambda>m. fail_one st error m k)"
  by (auto simp: blind_def fail_one_def erase_simps split: option.splits)

lemma blind_retry: "blind (\<lambda>m. retry_one st st2 w error m k)"
  by (auto simp: blind_def retry_one_def erase_simps Let_def case_prod_beta split: option.splits)

lemma erase_poll: "on_poll_timer (erase_privkeys m) = on_poll_timer m"
proof -
  have "poll_one (erase_op op) = poll_one op" for op
    by (cases "op_state op") (simp_all add: poll_one_def advance_taker_operation_def
        advance_maker_operation_def)
  then show ?thesis
    by (simp add: on_poll_timer_def erase_privkeys_def comp_def case_prod_beta)
qed

lemma blind_track: "blind (track_order r)"
  by (auto simp: blind_def track_order_def Let_def case_prod_beta erase_put_new erase_simps
      advance_taker_operation_def new_operation_role split: option.splits)

lemma blind_reply: "blind (on_reply s)"
  by (cases s) (auto simp: blind_def loop_defs on_accept_context_ready_def on_sign_context_ready_def
      on_accept_submitted_def on_sign_submitted_def on_dlc_ready_def Let_def case_prod_beta erase_simps
      blindD [OF blind_run [OF blind_fail]] blindD [OF blind_run [OF blind_retry]] split: option.splits)

lemma blind_step: "blind (\<lambda>m. dlc_step m e)"
proof (cases e)
  case (TrackOrder r)
  then show ?thesis using blind_track [of r] by (simp add: blind_def)
next
  case (Reply s)
  then show ?thesis using blind_reply [of s] by (simp add: blind_def)
qed (auto simp: blind_def submit_taker_accept_signatures_def submit_maker_sign_signatures_def
    Let_def case_prod_beta erase_simps erase_poll erase_settings erase_untrack split: option.splits)

section \<open>Orders nobody tracks\<close>

fun order_of :: "dlc_output \<Rightarrow> string option" where
  "order_of (CallGetAcceptContext k pk) = Some k"
| "order_of (CallSubmitAccept k pk fp cs rs fs) = Some k"
| "order_of (OperationStateChanged k st s) = Some k"
| "order_of (RequestTakerAcceptSignatures k ctx pk) = Some k"
| "order_of (TakerAcceptCompleted k) = Some k"
| "order_of (OperationFailed k err) = Some k"
| "order_of (OperationRetrying k n) = Some k"
| "order_of _ = None"

abbreviation untracked :: "string \<Rightarrow> dlc_machine \<Rightarrow> bool" where
  "untracked k m \<equiv> dlc_ok m \<and> get_operation k m = None"

interpretation fail_silent: promises "fail_one st error" "\<lambda>_. True" "untracked k"
    "\<lambda>x. order_of x \<noteq> Some k" for st error k
  by unfold_locales (auto simp: fail_one_ok, auto simp: fail_one_def dlc_ok_order_id split: option.splits if_splits)

lemma set_state_silent: "x \<in> set (snd (set_operation_state i st s m)) \<Longrightarrow> order_of x = Some i \<and> get_operation i m \<noteq> None"
  by (auto simp: set_operation_state_def split: option.splits)

interpretation retry_silent: promises "retry_one st st2 w error" "\<lambda>_. True" "untracked k"
    "\<lambda>x. order_of x \<noteq> Some k" for st st2 w error k
  by unfold_locales (auto simp: retry_one_ok, auto simp: retry_one_def dlc_ok_order_id Let_def
      case_prod_beta dest: set_state_silent split: option.splits if_splits)

lemma on_reply_silent:
  assumes "untracked k m"
  shows "x \<in> set (snd (on_reply s m)) \<Longrightarrow> order_of x \<noteq> Some k"
  using assms fail_silent.good_run [OF assms] retry_silent.good_run [OF assms]
  by (cases s) (auto simp: loop_defs on_accept_context_ready_def on_sign_context_ready_def
      on_accept_submitted_def on_sign_submitted_def on_dlc_ready_def Let_def case_prod_beta
      find_by_dlc_SomeD dest!: set_state_silent split: option.splits if_splits)

fun tracks :: "string \<Rightarrow> dlc_event \<Rightarrow> bool" where
  "tracks k (TrackOrder r) \<longleftrightarrow> ord_order_id r = k"
| "tracks k _ \<longleftrightarrow> False"

lemma poll_silent:
  assumes "untracked k m" and "x \<in> set (on_poll_timer m)"
  shows "order_of x \<noteq> Some k"
proof
  assume "order_of x = Some k"
  with assms(2) obtain i op where "(i, op) \<in> set (m_operations m)" "op_order_id op = k"
    by (auto simp: poll_calls poll_one_calls)
  with assms(1) show False using poll_member dlc_ok_order_id by fastforce
qed

interpretation dlc_silent: promises dlc_step "\<lambda>e. \<not> tracks k e" "untracked k"
    "\<lambda>x. order_of x \<noteq> Some k" for k
proof unfold_locales
  fix m e x
  assume m: "untracked k m" and e: "\<not> tracks k e"
  have ok: "dlc_ok (fst (dlc_step m e))" using m by (simp add: dlc_step_ok)
  moreover have "get_operation k (fst (dlc_step m e)) = None"
  proof (rule ccontr)
    assume "get_operation k (fst (dlc_step m e)) \<noteq> None"
    then obtain op where "get_operation k (fst (dlc_step m e)) = Some op" by blast
    with dlc_step_sim [of m k e op] m e show False by auto
  qed
  ultimately show "untracked k (fst (dlc_step m e))" by simp
  assume x: "x \<in> set (snd (dlc_step m e))"
  show "order_of x \<noteq> Some k"
  proof (cases e)
    case (TrackOrder r)
    with x e show ?thesis
      by (auto simp: track_order_def Let_def case_prod_beta advance_taker_operation_def new_operation_def
          dest!: set_state_silent split: option.splits if_splits)
  next
    case (SubmitTaker i cs rs fs)
    with x m show ?thesis
      by (auto simp: submit_taker_accept_signatures_def Let_def case_prod_beta dest!: set_state_silent
          split: option.splits if_splits)
  next
    case (SubmitMaker d cs rs fs)
    with x m show ?thesis
      by (auto simp: submit_maker_sign_signatures_def Let_def case_prod_beta find_by_dlc_SomeD
          dest!: set_state_silent split: option.splits if_splits)
  next
    case (Reply s)
    with x m on_reply_silent show ?thesis by simp
  qed (use x poll_silent [OF m] in \<open>auto split: if_splits\<close>)
qed

section \<open>What the protocol does not drive\<close>

interpretation maker_idle: op_invariant
    "\<lambda>e. \<nexists>d cs rs fs. e = SubmitMaker d cs rs fs"
    "\<lambda>op. op_state op \<notin> {MakerSubmittingSign, MakerAwaitingSignContext}"
proof unfold_locales
  show "op_state op' \<notin> {MakerSubmittingSign, MakerAwaitingSignContext}"
    if "\<nexists>d cs rs fs. e = SubmitMaker d cs rs fs" "op_step e op op'"
      "op_state op \<notin> {MakerSubmittingSign, MakerAwaitingSignContext}" for e op op'
    using that(2,1,3) by (induction rule: op_step.induct) (auto simp: goto_def)
qed (auto dest!: op_born_state)

interpretation funding_blind: op_invariant
    "\<lambda>e. \<nexists>d. e = Reply (DlcReady d)" "\<lambda>op. op_state op \<noteq> DLCSignedAwaitingFunding"
proof unfold_locales
  show "op_state op' \<noteq> DLCSignedAwaitingFunding"
    if "\<nexists>d. e = Reply (DlcReady d)" "op_step e op op'" "op_state op \<noteq> DLCSignedAwaitingFunding" for e op op'
    using that(2,1,3) by (induction rule: op_step.induct) (auto simp: goto_def)
qed (auto dest!: op_born_state)

section \<open>The failure loops, exactly\<close>

definition fail_op :: "op_state \<Rightarrow> string \<Rightarrow> order_operation \<Rightarrow> order_operation" where
  "fail_op st err op =
     (if op_state op = st then op\<lparr>op_state := OpError, op_status_text := err\<rparr> else op)"

lemma fail_one_get:
  "get_operation k (fst (fail_one st err m i)) =
    (if k = i then map_option (fail_op st err) (get_operation k m) else get_operation k m)"
  by (auto simp: fail_one_def fail_op_def split: option.split)

lemma fail_one_reported: "dlc_ok m \<Longrightarrow> snd (fail_one st err m k) =
    (if map_option op_state (get_operation k m) = Some st then [OperationFailed k err] else [])"
  by (auto simp: fail_one_def dlc_ok_order_id split: option.split)

lemma fail_loop_get:
  "distinct ks \<Longrightarrow> get_operation k (fst (run (fail_one st err) m ks)) =
    (if k \<in> set ks then map_option (fail_op st err) (get_operation k m) else get_operation k m)"
  by (induction ks arbitrary: m) (auto simp: fail_one_get)

lemma fail_loop_reported:
  "dlc_ok m \<Longrightarrow> distinct ks \<Longrightarrow> snd (run (fail_one st err) m ks) =
    map (\<lambda>k. OperationFailed k err) (filter (\<lambda>k. map_option op_state (get_operation k m) = Some st) ks)"
proof (induction ks arbitrary: m)
  case (Cons x ks)
  have "filter (\<lambda>k. map_option op_state (get_operation k (fst (fail_one st err m x))) = Some st) ks
      = filter (\<lambda>k. map_option op_state (get_operation k m) = Some st) ks"
    using Cons.prems(2) by (intro filter_cong) (auto simp: fail_one_get)
  with Cons show ?case by (simp add: fail_one_ok fail_one_reported)
qed simp

lemma fail_all_get:
  assumes "dlc_ok m"
  shows "get_operation k (fst (run (fail_one st err) m (map fst (m_operations m)))) =
    map_option (fail_op st err) (get_operation k m)"
proof (cases "get_operation k m")
  case None
  with assms show ?thesis by (simp add: fail_loop_get dlc_ok_def qm_ok_distinct)
next
  case (Some op)
  with assms get_operation_key [OF Some] show ?thesis
    by (simp add: fail_loop_get dlc_ok_def qm_ok_distinct)
qed

lemma fail_all_reported:
  assumes "dlc_ok m"
  shows "snd (run (fail_one st err) m (map fst (m_operations m))) =
    map (\<lambda>(k, op). OperationFailed k err) (filter (\<lambda>(k, op). op_state op = st) (m_operations m))"
proof -
  have d: "distinct (map fst (m_operations m))"
    using assms by (simp add: dlc_ok_def qm_ok_distinct)
  then have "filter (\<lambda>p. map_option op_state (get_operation (fst p) m) = Some st) (m_operations m)
      = filter (\<lambda>(k, op). op_state op = st) (m_operations m)"
    by (intro filter_cong) (auto simp: get_operation_def dest: eq_key_imp_eq_value)
  then show ?thesis
    by (simp add: fail_loop_reported [OF assms d] filter_map comp_def case_prod_beta)
qed

end
