(* ===== verification/Dlc_Props.thy ===== *)
theory Dlc_Props
  imports Dlc_Traces
begin

text \<open>
  Properties of the negotiation machine: refinement of the per-operation protocol, provenance
  of what is submitted, bounded retries, secrecy of the local key, silence about untracked
  orders, the happy path, and the parts of the protocol the code does not drive.
\<close>

text \<open>Sample data for the witnesses.\<close>

definition sample_order :: order where
  "sample_order = new_order\<lparr>ord_order_id := ''o1'', ord_dlc_id := ''d1'', ord_pending_match_accept := True\<rparr>"

definition sample_context :: accept_context where
  "sample_context = new_accept_context\<lparr>ac_order_id := ''o1'', ac_context_fingerprint := ''f1''\<rparr>"

lemmas sample_simps = sample_order_def sample_context_def new_order_def new_accept_context_def
  init_machine_def track_order_def new_operation_def put_operation_def set_operation_state_def
  get_operation_def on_accept_context_ready_def submit_taker_accept_signatures_def Let_def
  advance_taker_operation_def

section \<open>Refinement of the protocol\<close>

text \<open>
  C1.  Refinement: whatever the sequence of calls, replies and timer ticks, the operation the
  machine holds for an order was born by tracking that order, and since that moment (in which
  the order was neither tracked again nor untracked) it has gone through one step of the
  per-operation protocol for every event, its state, status and contexts changing only as that
  step allows.
\<close>

theorem dlc_history:
  assumes "get_operation k (fst (run dlc_step init_machine es)) = Some op"
  shows "\<exists>es1 r es2 op0. es = es1 @ TrackOrder r # es2 \<and> ord_order_id r = k \<and> op_born r op0 \<and>
    list_all (\<lambda>e. \<not> drops k e) es2 \<and> op_path es2 op0 op"
  using assms
proof (induction es arbitrary: op rule: rev_induct)
  case Nil
  then show ?case by (simp add: init_machine_def get_operation_def)
next
  case (snoc e es)
  let ?m = "fst (run dlc_step init_machine es)"
  have ok: "dlc_ok ?m" by (simp add: dlc_run_ok init_ok)
  from snoc.prems have "get_operation k (fst (dlc_step ?m e)) = Some op"
    by (simp add: run_append_fst)
  from dlc_step_sim [OF ok this] show ?case
  proof (elim disjE exE conjE)
    fix r
    assume "e = TrackOrder r" "ord_order_id r = k" "op_born r op"
    then show ?thesis
      by (intro exI [of _ es] exI [of _ r] exI [of _ "[]"] exI [of _ op]) (simp add: op_path.here)
  next
    fix op1
    assume e: "\<forall>r. e = TrackOrder r \<longrightarrow> ord_order_id r \<noteq> k" "e \<noteq> UntrackOrder k"
      and s: "get_operation k ?m = Some op1" "op_step e op1 op"
    from e have "\<not> drops k e" by (cases e) auto
    moreover obtain es1 r es2 op0 where "es = es1 @ TrackOrder r # es2" "ord_order_id r = k"
        "op_born r op0" "list_all (\<lambda>e. \<not> drops k e) es2" "op_path es2 op0 op1"
      using snoc.IH [OF s(1)] by blast
    ultimately show ?thesis using op_path.onward [OF _ s(2)]
      by (intro exI [of _ es1] exI [of _ r] exI [of _ "es2 @ [e]"] exI [of _ op0]) simp
  qed
qed

theorem dlc_history_witness:
  "\<exists>op es1 r es2 op0. [TrackOrder sample_order, Reply (AcceptContextReady sample_context)] =
    es1 @ TrackOrder r # es2 \<and> ord_order_id r = ''o1'' \<and> op_born r op0 \<and>
    list_all (\<lambda>e. \<not> drops ''o1'' e) es2 \<and> op_path es2 op0 op"
proof -
  have "get_operation ''o1'' (fst (run dlc_step init_machine
      [TrackOrder sample_order, Reply (AcceptContextReady sample_context)])) \<noteq> None"
    by (simp add: sample_simps)
  then show ?thesis using dlc_history [of "''o1''"] by blast
qed

section \<open>What is submitted\<close>

text \<open>
  C2.  Provenance: every accept the machine submits to the coordinator was asked for by a call
  that supplied exactly these signatures, and it carries the fingerprint of the accept context
  the coordinator sent last for that order since the order was tracked, a context for this very
  order.
\<close>

theorem submitted_accept_provenance:
  assumes "CallSubmitAccept k pk fp cs rs fs \<in> set (snd (run dlc_step init_machine es))"
  shows "\<exists>es1 es2. es = es1 @ SubmitTaker k cs rs fs # es2 \<and>
    Reply (AcceptContextReady (latest_context k es1)) \<in> set es1 \<and>
    ac_order_id (latest_context k es1) = k \<and> fp = ac_context_fingerprint (latest_context k es1)"
proof -
  obtain es1 e es2 where es: "es = es1 @ e # es2"
      and x: "CallSubmitAccept k pk fp cs rs fs \<in> set (snd (dlc_step (fst (run dlc_step init_machine es1)) e))"
    using assms by (rule is_call_member) simp
  from dlc_step_calls [OF x] obtain op
    where e: "e = SubmitTaker k cs rs fs"
      and op: "get_operation k (fst (run dlc_step init_machine es1)) = Some op"
      and ctx: "ac_order_id (op_accept_context op) \<noteq> []" "fp = ac_context_fingerprint (op_accept_context op)"
    by (auto simp: poll_calls poll_one_calls)
  from context_latest [OF op] latest_context_from [of k es1] ctx es e show ?thesis
    by (auto simp: new_accept_context_def)
qed

theorem submitted_accept_provenance_witness:
  "\<exists>es1 es2. [TrackOrder sample_order, Reply (AcceptContextReady sample_context),
      SubmitTaker ''o1'' [''s''] ''r'' []] = es1 @ SubmitTaker ''o1'' [''s''] ''r'' [] # es2 \<and>
    Reply (AcceptContextReady (latest_context ''o1'' es1)) \<in> set es1 \<and>
    ac_order_id (latest_context ''o1'' es1) = ''o1'' \<and>
    ''f1'' = ac_context_fingerprint (latest_context ''o1'' es1)"
  by (rule submitted_accept_provenance [of _ "[]"]) (simp add: sample_simps)

text \<open>
  C3.  Secrecy of the local funding key (\<open>fundingPrivkeyHex\<close>: "Store locally, never send"):
  in every run, from any state, what the machine emits, both the requests to the coordinator and
  the signals to the rest of the wallet, does not depend on the private keys it stores.
\<close>

theorem privkey_never_sent:
  "snd (run dlc_step (erase_privkeys m) es) = snd (run dlc_step m es)"
  using blindD [OF blind_run [of dlc_step, OF blind_step]] by simp

section \<open>Retries\<close>

text \<open>
  C4.  Bounded retries: as long as the limit is not changed and the order is not untracked, an
  order is retried at most \<open>maxRetries\<close> times less the retries it has used, over all submit
  failures of both roles, however often it is tracked again.
\<close>

theorem retries_bounded:
  assumes "dlc_ok m" and "list_all (keeps_budget i) es"
  shows "length (filter (retrying i) (snd (run dlc_step m es)))
    \<le> nat (m_max_retries m - qm_value (m_retry_counts m) i 0)"
  using dlc_meter.counted_run [OF assms] by (simp add: retries_left_def)

theorem retries_bounded_witness:
  "length (filter (retrying ''o1'') (snd (run dlc_step init_machine
     [TrackOrder sample_order, Reply (AcceptSubmitFailed ''x'')]))) \<le> 5"
  using retries_bounded [of init_machine "''o1''"
      "[TrackOrder sample_order, Reply (AcceptSubmitFailed ''x'')]"]
  by (simp add: init_ok del: run_Cons_fst run_Cons_snd) (simp add: init_machine_def)

section \<open>Untracking\<close>

text \<open>
  C5.  After an order is untracked the machine says and asks nothing about it any more (no
  request, no state change, no signature request, no retry, no failure under its id) until it
  is tracked again, whatever replies to earlier requests still come in.
\<close>

theorem untracked_silence:
  assumes "dlc_ok m" and "list_all (\<lambda>e. \<not> tracks k e) es"
    and "x \<in> set (snd (run dlc_step m (UntrackOrder k # es)))"
  shows "order_of x \<noteq> Some k"
proof -
  have "untracked k (untrack_order k m)"
    using assms(1) by (simp add: untrack_ok) (simp add: untrack_order_def get_operation_def qmap_simps)
  from dlc_silent.good_run [OF this assms(2)] assms(3) show ?thesis by simp
qed

theorem untracked_silence_witness:
  "order_of (SignalDlcFunded ''d2'' ''t'') \<noteq> Some ''o1''"
proof (rule untracked_silence)
  show "dlc_ok (fst (run dlc_step init_machine [TrackOrder (sample_order\<lparr>ord_order_id := ''o2'', ord_dlc_id := ''d2''\<rparr>)]))"
    by (simp add: dlc_run_ok init_ok del: run_Cons_fst)
  show "list_all (\<lambda>e. \<not> tracks ''o1'' e)
      [Reply (DlcReady (new_dlc_detail\<lparr>dd_dlc_id := ''d2'', dd_status := ''funded'', dd_funding_txid := ''t''\<rparr>))]"
    by simp
qed (simp add: sample_simps untrack_order_def qm_remove_def on_dlc_ready_def find_by_dlc_def new_dlc_detail_def)

section \<open>The happy path of the taker\<close>

text \<open>
  C6.  From any state of the machine, an order with a pending match goes through fetch, local
  signing, submission and completion, with exactly these requests and signals in this order:
  the accept that reaches the coordinator carries the fingerprint of the context it sent and
  the signatures of the wallet.
\<close>

theorem taker_happy_path:
  assumes "ord_pending_match_accept r" and "ord_order_id r = k" and "k \<noteq> []"
    and "ac_order_id ctx = k" and "ord_order_id r' = k"
  shows "snd (run dlc_step m [TrackOrder r, Reply (AcceptContextReady ctx), SubmitTaker k cs rs fs,
      Reply (AcceptSubmitted r')]) =
    [OperationStateChanged k TakerAwaitingAcceptContext ''Fetching accept context'',
     CallGetAcceptContext k [],
     OperationStateChanged k TakerSigningAccept ''Waiting for local signing'',
     RequestTakerAcceptSignatures k ctx [],
     OperationStateChanged k TakerSubmittingAccept ''Submitting accept signatures'',
     CallSubmitAccept k [] (ac_context_fingerprint ctx) cs rs fs,
     OperationStateChanged k TakerAcceptSubmitted ''Accept submitted successfully'',
     TakerAcceptCompleted k]"
  using assms by (simp add: handler_defs Let_def case_prod_beta set_operation_state_def
      advance_taker_operation_def new_operation_def)

theorem taker_happy_path_witness:
  "snd (run dlc_step init_machine [TrackOrder sample_order, Reply (AcceptContextReady sample_context),
      SubmitTaker ''o1'' [''s''] ''r'' [''g''], Reply (AcceptSubmitted sample_order)]) =
    [OperationStateChanged ''o1'' TakerAwaitingAcceptContext ''Fetching accept context'',
     CallGetAcceptContext ''o1'' [],
     OperationStateChanged ''o1'' TakerSigningAccept ''Waiting for local signing'',
     RequestTakerAcceptSignatures ''o1'' sample_context [],
     OperationStateChanged ''o1'' TakerSubmittingAccept ''Submitting accept signatures'',
     CallSubmitAccept ''o1'' [] (ac_context_fingerprint sample_context) [''s''] ''r'' [''g''],
     OperationStateChanged ''o1'' TakerAcceptSubmitted ''Accept submitted successfully'',
     TakerAcceptCompleted ''o1'']"
  by (rule taker_happy_path) (simp_all add: sample_order_def sample_context_def)

section \<open>Failures\<close>

text \<open>
  C7.  A failed accept-context request is not attributed to the order it was made for: the
  machine fails every operation that waits for an accept context, reports each once, in key
  order, and leaves all others as they are.
\<close>

theorem accept_context_failure_hits_all:
  assumes "dlc_ok m"
  shows "(\<forall>k. get_operation k (fst (on_accept_context_failed err m)) = map_option (\<lambda>op.
      if op_state op = TakerAwaitingAcceptContext
      then op\<lparr>op_state := OpError, op_status_text := err\<rparr> else op) (get_operation k m)) \<and>
    snd (on_accept_context_failed err m) = map (\<lambda>(k, op). OperationFailed k err)
      (filter (\<lambda>(k, op). op_state op = TakerAwaitingAcceptContext) (m_operations m))"
proof -
  have "fail_op TakerAwaitingAcceptContext err = (\<lambda>op. if op_state op = TakerAwaitingAcceptContext
      then op\<lparr>op_state := OpError, op_status_text := err\<rparr> else op)"
    by (simp add: fail_op_def fun_eq_iff)
  then show ?thesis
    by (simp add: on_accept_context_failed_def fail_all_get [OF assms] fail_all_reported [OF assms])
qed

theorem accept_context_failure_hits_all_witness:
  "snd (on_accept_context_failed ''timeout'' (fst (run dlc_step init_machine
     [TrackOrder sample_order, TrackOrder (sample_order\<lparr>ord_order_id := ''o2''\<rparr>)])))
   = [OperationFailed ''o1'' ''timeout'', OperationFailed ''o2'' ''timeout'']"
proof -
  let ?m = "fst (run dlc_step init_machine
     [TrackOrder sample_order, TrackOrder (sample_order\<lparr>ord_order_id := ''o2''\<rparr>)])"
  have "snd (on_accept_context_failed ''timeout'' ?m) = map (\<lambda>(k, op). OperationFailed k ''timeout'')
      (filter (\<lambda>(k, op). op_state op = TakerAwaitingAcceptContext) (m_operations ?m))"
    using accept_context_failure_hits_all [OF dlc_run_ok [OF init_ok]] by blast
  also have "\<dots> = [OperationFailed ''o1'' ''timeout'', OperationFailed ''o2'' ''timeout'']"
    by (simp add: sample_simps)
  finally show ?thesis .
qed

text \<open>
  No state of an operation is terminal, the ones marked so in the code included: an accept
  context that arrives for a tracked order moves it to local signing and asks for signatures
  again, even when the operation has failed, its DLC is funded or it is settled.
\<close>

lemma late_context_revives:
  assumes "get_operation k m = Some op" and "ac_order_id ctx = k"
  shows "map_option op_state (get_operation k (fst (dlc_step m (Reply (AcceptContextReady ctx)))))
      = Some TakerSigningAccept \<and>
    RequestTakerAcceptSignatures k ctx [] \<in> set (snd (dlc_step m (Reply (AcceptContextReady ctx))))"
  using assms by (simp add: on_accept_context_ready_def Let_def case_prod_beta)

section \<open>What the machine does not drive\<close>

text \<open>
  The maker's half of the protocol does not start: from the constructor on, whatever is
  tracked, polled and replied, the machine requests no sign context unless the caller has
  already handed in maker signatures, which are what the sign context is needed for.
\<close>

lemma maker_never_asks_first:
  assumes "CallGetSignContext d \<in> set (snd (run dlc_step init_machine es))"
  shows "\<exists>d' cs rs fs. SubmitMaker d' cs rs fs \<in> set es"
proof (rule ccontr)
  assume none: "\<not> ?thesis"
  obtain es1 e es2 where es: "es = es1 @ e # es2"
      and x: "CallGetSignContext d \<in> set (snd (dlc_step (fst (run dlc_step init_machine es1)) e))"
    using assms by (rule is_call_member) simp
  let ?m = "fst (run dlc_step init_machine es1)"
  from dlc_step_calls [OF x] obtain k op where "(k, op) \<in> set (m_operations ?m)"
      and st: "op_state op = MakerAwaitingSignContext"
    by (auto simp: poll_calls poll_one_calls)
  then have "get_operation k ?m = Some op" by (simp add: poll_member dlc_run_ok init_ok)
  moreover have "list_all (\<lambda>e. \<nexists>d cs rs fs. e = SubmitMaker d cs rs fs) es1"
    using none es by (auto simp: list_all_def)
  ultimately show False using maker_idle.every_op [of es1 k op] st by simp
qed

text \<open>
  Funding and settlement are not monitored by the machine: it asks the coordinator for a
  DLC's status only after a status reply nobody asked it for has said that the DLC is signed.
\<close>

lemma monitoring_needs_a_report:
  assumes "CallGetDlc d \<in> set (snd (run dlc_step init_machine es))"
  shows "\<exists>r. Reply (DlcReady r) \<in> set es"
proof (rule ccontr)
  assume none: "\<not> ?thesis"
  obtain es1 e es2 where es: "es = es1 @ e # es2"
      and x: "CallGetDlc d \<in> set (snd (dlc_step (fst (run dlc_step init_machine es1)) e))"
    using assms by (rule is_call_member) simp
  let ?m = "fst (run dlc_step init_machine es1)"
  from dlc_step_calls [OF x] obtain k op where "(k, op) \<in> set (m_operations ?m)"
      and st: "op_state op = DLCSignedAwaitingFunding"
    by (auto simp: poll_calls poll_one_calls)
  then have "get_operation k ?m = Some op" by (simp add: poll_member dlc_run_ok init_ok)
  moreover have "list_all (\<lambda>e. \<nexists>d. e = Reply (DlcReady d)) es1"
    using none es by (auto simp: list_all_def)
  ultimately show False using funding_blind.every_op [of es1 k op] st by simp
qed

end
