(* ===== verification/Dlc_Client_Props.thy ===== *)
theory Dlc_Client_Props
  imports Dlc_Props
begin

text \<open>
  Properties of the coordinator client: what a submission carries, idempotency keys, amounts through
  \<open>double\<close>, the network check, and what the client reads when a response has its payload
  under \<open>body\<close>.
\<close>

section \<open>Submissions\<close>

text \<open>
  What the state machine submits is what the coordinator receives: reading the body of the
  request by its documented keys gives back the fingerprint and every signature, in order, and
  the request goes to the order's own path.
\<close>

lemma submit_accept_faithful:
  "let rq = submit_accept c k pk fp cs rs fs; b = to_object (req_data rq) in
     req_method rq = ''POST'' \<and> req_url rq = base_url c @ ''/orders/'' @ k @ ''/accept-match'' \<and>
     to_string (jvalue b ''funding_pubkey_hex'') = pk \<and>
     to_string (jvalue b ''context_fingerprint'') = fp \<and>
     map to_string (to_array (jvalue b ''cet_adaptor_signatures_hex'')) = cs \<and>
     to_string (jvalue b ''refund_signature_hex'') = rs \<and>
     map to_string (to_array (jvalue b ''funding_signatures_hex'')) = fs \<and>
     to_string (jvalue b ''idempotency_key'') = ''accept:'' @ k @ '':'' @ fp"
  by (simp add: submit_accept_def plain_request_def jvalue_jobj accept_idempotency_key_def Let_def)

lemma append_colon_inj:
  "CHR '':'' \<notin> set a \<Longrightarrow> CHR '':'' \<notin> set a' \<Longrightarrow> a @ CHR '':'' # b = a' @ CHR '':'' # b' \<Longrightarrow> a = a' \<and> b = b'"
proof (induction a arbitrary: a')
  case Nil
  then show ?case by (cases a') auto
next
  case (Cons x a)
  then show ?case by (cases a') auto
qed

text \<open>
  Idempotency keys tell submissions apart: two accepts have the same key only when they are
  for the same order and the same context, for order ids without a colon, and no accept has the
  key of a sign.
\<close>

lemma idempotency_keys_distinguish:
  assumes "CHR '':'' \<notin> set k" and "CHR '':'' \<notin> set k'"
  shows "(accept_idempotency_key k fp = accept_idempotency_key k' fp' \<longleftrightarrow> k = k' \<and> fp = fp') \<and>
    accept_idempotency_key k fp \<noteq> sign_idempotency_key d"
  using append_colon_inj [OF assms, of fp fp']
  by (auto simp: accept_idempotency_key_def sign_idempotency_key_def)

section \<open>Amounts\<close>

lemma bit_size_le: "0 < n \<Longrightarrow> 2 ^ (bit_size n - 1) \<le> n"
proof (induction n rule: bit_size.induct)
  case (1 n)
  show ?case
  proof (cases "n = 1")
    case True
    then show ?thesis by (simp add: bit_size.simps)
  next
    case False
    with 1 have "2 ^ (bit_size (n div 2) - 1) \<le> n div 2" "0 < n div 2" by auto
    moreover have "bit_size n = Suc (bit_size (n div 2))" "0 < bit_size (n div 2)"
      using 1 False by (simp_all add: bit_size.simps)
    ultimately have "(2::nat) ^ (bit_size n - 1) = 2 * 2 ^ (bit_size (n div 2) - 1)"
      by (cases "bit_size (n div 2)") auto
    with \<open>2 ^ (bit_size (n div 2) - 1) \<le> n div 2\<close> show ?thesis by linarith
  qed
qed

lemma less_bit_size: "n < 2 ^ bit_size n"
proof (induction n rule: bit_size.induct)
  case (1 n)
  show ?case
  proof (cases "n = 0")
    case False
    with 1 have "n div 2 < 2 ^ bit_size (n div 2)" by simp
    with False show ?thesis by (simp add: bit_size.simps [of n])
  qed simp
qed

lemma double_of_nat_exact: "n \<le> 2 ^ 53 \<Longrightarrow> double_of_nat n = n"
  by (simp only: double_of_nat_def if_True)

text \<open>Above \<open>2 ^ 53\<close> the last \<open>k\<close> bits are rounded, to within half of \<open>2 ^ k\<close>.\<close>

lemma double_of_nat_half:
  assumes "2 ^ 53 < n"
  obtains k where "\<bar>int (double_of_nat n) - int n\<bar> \<le> 2 ^ k" and "2 ^ 53 * 2 ^ k \<le> n"
proof -
  define k where "k = bit_size n - 53"
  define q where "q = n div 2 ^ k"
  define r where "r = n mod 2 ^ k"
  have "(2::nat) ^ 53 < 2 ^ bit_size n" using assms less_bit_size [of n] by linarith
  then have "53 < bit_size n" by (simp only: power_strict_increasing_iff one_less_numeral_iff semiring_norm)
  then have k: "0 < k" by (simp add: k_def)
  define h :: nat where "h = 2 ^ (k - 1)"
  have half: "(2::nat) ^ k = 2 * h" using k by (cases k) (auto simp: h_def)
  have "\<not> n \<le> 2 ^ 53" using assms by simp
  then have "double_of_nat n = (if r > h \<or> r = h \<and> odd q then q + 1 else q) * (2 * h)"
    using half by (simp add: double_of_nat_def k_def q_def r_def h_def Let_def)
  moreover have "n = q * (2 * h) + r" "r < 2 * h"
    by (simp_all only: q_def r_def half [symmetric] div_mult_mod_eq) (rule mod_less_divisor, simp)
  ultimately have "\<bar>int (double_of_nat n) - int n\<bar> \<le> int h"
    by (auto simp: distrib_left distrib_right split: if_splits)
  then have "\<bar>int (double_of_nat n) - int n\<bar> \<le> 2 ^ (k - 1)" by (simp add: h_def)
  moreover have "bit_size n - 1 = 53 + (k - 1)" using k by (simp add: k_def)
  then have "2 ^ 53 * 2 ^ (k - 1) \<le> n"
    using bit_size_le [of n] assms by (simp add: power_add)
  ultimately show ?thesis by (rule that)
qed

lemma double_of_nat_error: "2 ^ 53 * \<bar>int (double_of_nat n) - int n\<bar> \<le> int n"
proof (cases "n \<le> 2 ^ 53")
  case True
  then show ?thesis by (simp only: double_of_nat_exact) simp
next
  case False
  then obtain k where e: "\<bar>int (double_of_nat n) - int n\<bar> \<le> 2 ^ k" and b: "2 ^ 53 * 2 ^ k \<le> n"
    using double_of_nat_half [of n] by auto
  have "2 ^ 53 * \<bar>int (double_of_nat n) - int n\<bar> \<le> 2 ^ 53 * 2 ^ k" using e by simp
  also have "\<dots> = int (2 ^ 53 * 2 ^ k)" by simp
  also have "\<dots> \<le> int n" using b by (simp only: of_nat_le_iff)
  finally show ?thesis .
qed

lemma double_of_int_nat:
  "\<bar>double_of_int i - i\<bar> = \<bar>int (double_of_nat (nat \<bar>i\<bar>)) - int (nat \<bar>i\<bar>)\<bar>"
  by (cases "i < 0") (simp_all add: double_of_int_def)

text \<open>
  Amounts go through \<open>double\<close>: a quantity or price is sent with a relative error of at
  most \<open>2 ^ -53\<close>, and exactly when it is at most \<open>2 ^ 53\<close>, which covers every
  amount of satoshis there can be.
\<close>

lemma amount_error:
  "2 ^ 53 * \<bar>double_of_int i - i\<bar> \<le> \<bar>i\<bar> \<and> (\<bar>i\<bar> \<le> 2 ^ 53 \<longrightarrow> double_of_int i = i)"
proof (intro conjI impI)
  show "2 ^ 53 * \<bar>double_of_int i - i\<bar> \<le> \<bar>i\<bar>"
    using double_of_nat_error [of "nat \<bar>i\<bar>"] by (simp only: double_of_int_nat) simp
  assume "\<bar>i\<bar> \<le> 2 ^ 53"
  then have "nat \<bar>i\<bar> \<le> 2 ^ 53" by simp
  then have "\<bar>double_of_int i - i\<bar> = 0" by (simp add: double_of_int_nat double_of_nat_exact)
  then show "double_of_int i = i" by simp
qed

section \<open>The network check\<close>

text \<open>
  A coordinator of another network is never reported ready: with a configured network the
  client signals readiness only for a response that has no error and names exactly that network.
\<close>

lemma ready_only_on_network:
  assumes "cfg_network c \<noteq> []" and "SystemReadinessReady b n \<in> set (system_readiness_reply c out)"
  shows "n = cfg_network c \<and> (\<exists>r. out = HttpFinished r \<and> \<not> has_error r \<and>
    jvalue r ''coordinator_network'' = JStr n \<and> b = to_bool (jvalue r ''reachable''))"
proof -
  have str: "to_string j = s \<Longrightarrow> s \<noteq> [] \<Longrightarrow> j = JStr s" for j s
    by (cases j) auto
  from assms show ?thesis
    by (auto simp: system_readiness_reply_def Let_def str split: http_outcome.splits if_splits)
qed

section \<open>Responses with an envelope\<close>

text \<open>
  The client looks for its fields at the top of the response.  A response that carries its
  payload under \<open>body\<close> beside \<open>headers\<close>, as the HTTP manager of the wallet delivers
  it, decodes to the default accept context whatever the payload is, and the machine, holding no
  order with an empty id, ignores it: the order keeps waiting.
\<close>

lemma enveloped_response_ignored:
  assumes "fst ` set r \<subseteq> {''body'', ''headers''}" and "get_operation [] m = None"
  shows "accept_context_reply (HttpFinished r) = [AcceptContextReady new_accept_context] \<and>
    dlc_step m (Reply (AcceptContextReady new_accept_context)) = (m, [])"
proof -
  have "map_of r k = None" if "k \<notin> {''body'', ''headers''}" for k
    using assms(1) that by (auto simp: map_of_eq_None_iff)
  then have "jvalue r k = JUndefined" and "\<not> jcontains r k" if "k \<notin> {''body'', ''headers''}" for k
    using that by (simp_all add: jvalue_def qm_value_def jcontains_def)
  with assms(2) show ?thesis
    by (simp add: accept_context_reply_def reply_def has_error_def decode_accept_context_def
        new_accept_context_def on_accept_context_ready_def)
qed

end
