(* ===== verification/Session.thy ===== *)
theory Session
  imports Json
begin

text \<open>
  Networks and sessions (\<open>src/network.cpp\<close>, \<open>src/session.{h,cpp}\<close>): the data of a
  network as the wallet library (GDK) describes it, and the session object that mirrors what the
  library reports about one connection: whether it is connected, its settings with the display
  unit and the auto-logout timer derived from them, its events, and the life cycle of the
  library's own session handle.
\<close>

section \<open>Networks\<close>

record network =
  n_data :: jobject
  n_id :: string
  n_canonical_id :: string
  n_key :: string
  n_display_name :: string
  n_name :: string
  n_mainnet :: bool
  n_liquid :: bool
  n_electrum :: bool
  n_development :: bool
  n_policy_asset :: string

definition get_network_key :: "jobject \<Rightarrow> string" where
  "get_network_key data =
     (let mainnet = to_bool (jvalue data ''mainnet''); liquid = to_bool (jvalue data ''liquid'');
          development = to_bool (jvalue data ''development'')
      in if mainnet \<and> \<not> liquid then ''bitcoin''
         else if mainnet \<and> liquid then ''liquid''
         else if development \<and> \<not> liquid then ''localtest''
         else if development \<and> liquid then ''localtest-liquid''
         else if \<not> liquid then ''testnet''
         else ''testnet-liquid'')"

definition get_network_display_name :: "jobject \<Rightarrow> string" where
  "get_network_display_name data =
     (let mainnet = to_bool (jvalue data ''mainnet''); liquid = to_bool (jvalue data ''liquid'');
          development = to_bool (jvalue data ''development'')
      in if mainnet \<and> \<not> liquid then ''Bitcoin''
         else if mainnet \<and> liquid then ''Liquid''
         else if development \<and> \<not> liquid then ''Localtest''
         else if development \<and> liquid then ''Localtest Liquid''
         else if \<not> liquid then ''Testnet''
         else ''Testnet Liquid'')"

text \<open>\<open>QString::replace(pattern, "")\<close>: all occurrences, from the left.\<close>

function remove_all :: "string \<Rightarrow> string \<Rightarrow> string" where
  "remove_all p [] = []"
| "remove_all p (c # cs) =
     (if p \<noteq> [] \<and> take (length p) (c # cs) = p then remove_all p (drop (length p) (c # cs))
      else c # remove_all p cs)"
  by pat_completeness auto
termination
  by (relation "measure (\<lambda>(p, s). length s)") (auto simp: neq_Nil_conv)

definition new_network :: "jobject \<Rightarrow> network" where
  "new_network data = \<lparr>n_data = data,
     n_id = to_string (jvalue data ''network''),
     n_canonical_id = remove_all ''electrum-'' (to_string (jvalue data ''network'')),
     n_key = get_network_key data, n_display_name = get_network_display_name data,
     n_name = to_string (jvalue data ''name''),
     n_mainnet = to_bool (jvalue data ''mainnet''), n_liquid = to_bool (jvalue data ''liquid''),
     n_electrum = (to_string (jvalue data ''server_type'') = ''electrum''),
     n_development = to_bool (jvalue data ''development''),
     n_policy_asset = to_string_or ''btc'' (jvalue data ''policy_asset'')\<rparr>"

text \<open>\<open>None\<close> is a violated \<open>Q_ASSERT\<close>.\<close>

definition explorer_url :: "network \<Rightarrow> string option" where
  "explorer_url n =
     (if \<not> jcontains (n_data n) ''tx_explorer_url'' then None
      else (let u = to_string (jvalue (n_data n) ''tx_explorer_url'')
            in if u \<noteq> [] \<and> last u \<noteq> CHR ''/'' then None else Some u))"

definition open_transaction_in_explorer :: "network \<Rightarrow> string \<Rightarrow> string list option" where
  "open_transaction_in_explorer n hash =
     map_option (\<lambda>u. if u = [] then [] else [u @ hash]) (explorer_url n)"

definition deployment :: "network \<Rightarrow> string" where
  "deployment n = (if n_mainnet n then ''mainnet''
     else if n_development n then ''development'' else ''testnet'')"

section \<open>Sessions\<close>

text \<open>The application settings a session reads when it is created.\<close>

record app_settings =
  set_use_tor :: bool
  set_use_proxy :: bool
  set_proxy :: string
  set_electrum_tls :: bool
  set_personal_node :: bool
  set_bitcoin_url :: string
  set_liquid_url :: string
  set_testnet_url :: string
  set_liquid_testnet_url :: string

definition electrum_url_for_network :: "app_settings \<Rightarrow> network \<Rightarrow> string" where
  "electrum_url_for_network st n =
     (if set_personal_node st \<and> n_electrum n then
        (if n_mainnet n \<and> \<not> n_liquid n then set_bitcoin_url st
         else if n_mainnet n \<and> n_liquid n then set_liquid_url st
         else if \<not> n_mainnet n \<and> \<not> n_liquid n then set_testnet_url st
         else set_liquid_testnet_url st)
      else [])"

text \<open>
  \<open>s_logout_timer\<close> is the interval in milliseconds of the running auto-logout timer,
  \<open>None\<close> for \<open>-1\<close>; \<open>s_gdk\<close> says whether the library's handle exists.
\<close>

record session =
  s_network :: network
  s_use_tor :: bool
  s_use_proxy :: bool
  s_proxy :: string
  s_enable_electrum_tls :: bool
  s_electrum_url :: string
  s_active :: bool
  s_settings :: jobject
  s_currencies :: jobject
  s_unit :: string
  s_display_unit :: string
  s_altimeout :: int
  s_logout_timer :: "int option"
  s_gdk :: bool
  s_connected :: bool
  s_ready :: bool
  s_config :: jobject
  s_events :: jobject
  s_block :: jobject
  s_wallet_hash_id :: string
  s_username :: string

datatype session_output =
    ConnectedChanged | ConfigChanged | ActiveChanged | EventsChanged | SettingsChanged
  | CurrenciesChanged | UnitChanged | UsernameChanged | WalletHashIdChanged | BlockChanged
  | NotificationHandled jobject
  | NetworkEvent jobject | TorEvent jobject | TwoFactorResetEvent jobject | BlockEvent jobject
  | TransactionEvent jobject | TickerEvent | SubaccountEvent jobject
  | AutoLogoutTriggered
  | GdkCreateSession | GdkSetHandler | GdkClearHandler | GdkDestroySession

definition new_session :: "app_settings \<Rightarrow> network \<Rightarrow> session" where
  "new_session st n = \<lparr>s_network = n, s_use_tor = set_use_tor st, s_use_proxy = set_use_proxy st,
     s_proxy = set_proxy st, s_enable_electrum_tls = set_electrum_tls st,
     s_electrum_url = electrum_url_for_network st n, s_active = False, s_settings = [],
     s_currencies = [], s_unit = [], s_display_unit = [], s_altimeout = 0, s_logout_timer = None,
     s_gdk = False, s_connected = False, s_ready = False, s_config = [], s_events = [],
     s_block = [], s_wallet_hash_id = [], s_username = []\<rparr>"

definition use_personal_node :: "session \<Rightarrow> bool" where
  "use_personal_node s \<longleftrightarrow> s_electrum_url s \<noteq> []"

definition set_connected :: "bool \<Rightarrow> session \<Rightarrow> session \<times> session_output list" where
  "set_connected b s = (if s_connected s = b then (s, []) else (s\<lparr>s_connected := b\<rparr>, [ConnectedChanged]))"

definition set_config :: "jobject \<Rightarrow> session \<Rightarrow> session \<times> session_output list" where
  "set_config c s = (if s_config s = c then (s, []) else (s\<lparr>s_config := c\<rparr>, [ConfigChanged]))"

text \<open>\<open>Session::update\<close> creates or destroys the library's handle.\<close>

definition session_update :: "session \<Rightarrow> session \<times> session_output list" where
  "session_update s =
     (if s_active s \<and> \<not> s_gdk s then (s\<lparr>s_gdk := True\<rparr>, [GdkCreateSession, GdkSetHandler])
      else if \<not> s_active s \<and> s_gdk s then (s\<lparr>s_gdk := False\<rparr>, [GdkClearHandler, GdkDestroySession])
      else (s, []))"

definition set_active :: "bool \<Rightarrow> session \<Rightarrow> session \<times> session_output list" where
  "set_active b s = (if s_active s = b then (s, [])
     else (let (s1, out) = session_update (s\<lparr>s_active := b\<rparr>) in (s1, ActiveChanged # out)))"

definition set_events :: "jobject \<Rightarrow> session \<Rightarrow> session \<times> session_output list" where
  "set_events ev s = (if s_events s = ev then (s, []) else (s\<lparr>s_events := ev\<rparr>, [EventsChanged]))"

definition compute_display_unit :: "network \<Rightarrow> string \<Rightarrow> string" where
  "compute_display_unit n u =
     (let v = (if n_mainnet n then (if u = ''btc'' then ''BTC'' else u)
               else if u = ''BTC'' \<or> u = ''btc'' then ''TEST''
               else if u = ''mBTC'' then ''mTEST''
               else if u = CHR 0xB5 # ''BTC'' then CHR 0xB5 # ''TEST''
               else if u = ''bits'' then ''bTEST''
               else if u = ''sats'' then ''sTEST''
               else u)
      in if n_liquid n then ''L'' @ v else v)"

definition set_unit :: "string \<Rightarrow> session \<Rightarrow> session \<times> session_output list" where
  "set_unit u s = (if s_unit s = u then (s, [])
     else (s\<lparr>s_unit := u, s_display_unit := compute_display_unit (s_network s) u\<rparr>, [UnitChanged]))"

text \<open>\<open>m_altimeout * 60 * 1000\<close> in a 32-bit \<open>int\<close>.\<close>

definition logout_interval :: "int \<Rightarrow> int" where
  "logout_interval minutes = sint (word_of_int (minutes * 60 * 1000) :: 32 word)"

definition set_altimeout :: "int \<Rightarrow> session \<Rightarrow> session" where
  "set_altimeout t s = (if s_altimeout s = t then s
     else s\<lparr>s_altimeout := t, s_logout_timer := (if t > 0 then Some (logout_interval t) else None)\<rparr>)"

definition set_settings :: "jobject \<Rightarrow> session \<Rightarrow> session \<times> session_output list" where
  "set_settings v s = (if s_settings s = v then (s, [])
     else (let (s1, out) = set_unit (to_string (jvalue v ''unit'')) (s\<lparr>s_settings := v\<rparr>);
               s2 = set_altimeout (to_int (jvalue v ''altimeout'')) s1
           in (s2, out @ [SettingsChanged])))"

definition set_currencies :: "jobject \<Rightarrow> session \<Rightarrow> session \<times> session_output list" where
  "set_currencies v s = (if s_currencies s = v then (s, [])
     else (s\<lparr>s_currencies := v\<rparr>, [CurrenciesChanged]))"

definition set_username :: "string \<Rightarrow> session \<Rightarrow> session \<times> session_output list" where
  "set_username v s = (if s_username s = v then (s, []) else (s\<lparr>s_username := v\<rparr>, [UsernameChanged]))"

definition set_wallet_hash_id :: "string \<Rightarrow> session \<Rightarrow> session \<times> session_output list" where
  "set_wallet_hash_id v s = (if s_wallet_hash_id s = v then (s, [])
     else (s\<lparr>s_wallet_hash_id := v\<rparr>, [WalletHashIdChanged]))"

definition set_block :: "jobject \<Rightarrow> session \<Rightarrow> session \<times> session_output list" where
  "set_block v s = (if s_block s = v then (s, []) else (s\<lparr>s_block := v\<rparr>, [BlockChanged]))"

text \<open>
  \<open>Session::handleNotification\<close>; \<open>None\<close> is the violated assertion or the unreachable
  branch of an event the library does not document.
\<close>

definition handle_event :: "string \<Rightarrow> json \<Rightarrow> session \<Rightarrow> (session \<times> session_output list) option" where
  "handle_event ev v s =
     (if ev = ''network'' then
        (let d = to_object v;
             (s1, out) = set_connected (to_string (jvalue d ''current_state'') = ''connected'') s
         in Some (s1, out @ [NetworkEvent d]))
      else if ev = ''tor'' then Some (s, [TorEvent (to_object v)])
      else if ev = ''settings'' then Some (set_settings (to_object v) s)
      else if ev = ''twofactor_reset'' then Some (s, [TwoFactorResetEvent (to_object v)])
      else if ev = ''block'' then
        (let (s1, out) = set_block (to_object v) s in Some (s1, out @ [BlockEvent (to_object v)]))
      else if ev = ''transaction'' then Some (s, [TransactionEvent (to_object v)])
      else if ev = ''ticker'' then Some (s, [TickerEvent])
      else if ev = ''subaccount'' then Some (s, [SubaccountEvent (to_object v)])
      else None)"

definition handle_notification :: "jobject \<Rightarrow> session \<Rightarrow> (session \<times> session_output list) option" where
  "handle_notification notification s =
     (let ev = to_string (jvalue notification ''event'')
      in if ev = [] then None
         else (let v = jvalue notification ev;
                   s1 = s\<lparr>s_events := json_insert ev v (s_events s)\<rparr>
               in map_option (\<lambda>(s2, out). (s2, NotificationHandled notification # EventsChanged # out))
                    (handle_event ev v s1)))"

text \<open>
  The auto-logout timer: it fires once, and user input (a press, release, move, key or wheel
  event) starts it anew while it runs.
\<close>

definition logout_timer_event :: "session \<Rightarrow> session \<times> session_output list" where
  "logout_timer_event s = (case s_logout_timer s of
     None \<Rightarrow> (s, []) | Some i \<Rightarrow> (s\<lparr>s_logout_timer := None\<rparr>, [AutoLogoutTriggered]))"

definition user_input :: "session \<Rightarrow> session" where
  "user_input s = (case s_logout_timer s of
     None \<Rightarrow> s | Some i \<Rightarrow> s\<lparr>s_logout_timer := Some (logout_interval (s_altimeout s))\<rparr>)"

text \<open>\<open>QString::trimmed\<close> on ASCII white space.\<close>

definition is_space :: "char \<Rightarrow> bool" where
  "is_space c \<longleftrightarrow> c \<in> {CHR '' '', CHR 0x09, CHR 0x0A, CHR 0x0B, CHR 0x0C, CHR 0x0D}"

definition trimmed :: "string \<Rightarrow> string" where
  "trimmed s = rev (dropWhile is_space (rev (dropWhile is_space s)))"

text \<open>The parameters of \<open>GA_connect\<close> (\<open>get_params\<close> in \<open>src/task.cpp\<close>).\<close>

definition get_params :: "string \<Rightarrow> session \<Rightarrow> jobject" where
  "get_params version s =
     (let p0 = jobj [(''name'', JStr (n_id (s_network s))), (''use_tor'', JBool (s_use_tor s)),
                     (''user_agent'', JStr (''green_qt_'' @ version))];
          p1 = (if s_proxy s \<noteq> [] then qm_insert ''proxy'' (JStr (s_proxy s)) p0 else p0);
          url = trimmed (s_electrum_url s);
          p2 = (if use_personal_node s \<and> url \<noteq> [] then
                  qm_insert ''electrum_tls'' (JBool (s_enable_electrum_tls s))
                    (qm_insert ''electrum_onion_url'' (JStr url)
                      (qm_insert ''electrum_url'' (JStr url) p1))
                else p1)
      in if n_liquid (s_network s) then qm_insert ''discount_fees'' (JBool True) p2 else p2)"

section \<open>Runs of a session\<close>

datatype session_event =
    Notified jobject | SetConnected bool | SetActive bool | SetSettings jobject
  | LogoutTimer | UserInput

text \<open>A notification the session cannot handle has no next state in the code; it is skipped here.\<close>

fun session_step :: "session \<Rightarrow> session_event \<Rightarrow> session \<times> session_output list" where
  "session_step s (Notified v) = (case handle_notification v s of None \<Rightarrow> (s, []) | Some r \<Rightarrow> r)"
| "session_step s (SetConnected b) = set_connected b s"
| "session_step s (SetActive b) = set_active b s"
| "session_step s (SetSettings v) = set_settings v s"
| "session_step s LogoutTimer = logout_timer_event s"
| "session_step s UserInput = (user_input s, [])"

end
