(* ===== verification/Session_Props.thy ===== *)
theory Session_Props
  imports Session
begin

text \<open>
  Properties of sessions: what holds of every session whatever it is told, that the connection
  state is the one last reported, and the parameters of a connection.
\<close>

section \<open>Invariant\<close>

text \<open>
  The library's handle exists exactly while the session is active; the display unit is the one
  computed from the unit; the auto-logout timer runs only with a positive timeout, and with the
  interval of that timeout.
\<close>

definition session_ok :: "session \<Rightarrow> bool" where
  "session_ok s \<longleftrightarrow> s_gdk s = s_active s \<and>
     (s_unit s \<noteq> [] \<longrightarrow> s_display_unit s = compute_display_unit (s_network s) (s_unit s)) \<and>
     (\<forall>i. s_logout_timer s = Some i \<longrightarrow> 0 < s_altimeout s \<and> i = logout_interval (s_altimeout s))"

lemma set_settings_ok: "session_ok s \<Longrightarrow> session_ok (fst (set_settings v s))"
  by (auto simp: set_settings_def set_unit_def set_altimeout_def session_ok_def Let_def case_prod_beta)

lemma set_block_ok: "session_ok s \<Longrightarrow> session_ok (fst (set_block v s))"
  by (simp add: set_block_def session_ok_def)

lemma set_connected_ok: "session_ok s \<Longrightarrow> session_ok (fst (set_connected b s))"
  by (simp add: set_connected_def session_ok_def)

lemma handle_event_ok: "session_ok s \<Longrightarrow> handle_event ev v s = Some r \<Longrightarrow> session_ok (fst r)"
  by (auto simp: handle_event_def Let_def case_prod_beta set_settings_ok set_block_ok set_connected_ok
      split: if_splits)

lemma handle_notification_ok:
  "session_ok s \<Longrightarrow> handle_notification v s = Some r \<Longrightarrow> session_ok (fst r)"
  using handle_event_ok [of "s\<lparr>s_events := ev\<rparr>" for ev]
  by (fastforce simp: handle_notification_def Let_def session_ok_def split: if_splits)

lemma timers_ok:
  "session_ok s \<Longrightarrow> session_ok (fst (set_active b s))"
  "session_ok s \<Longrightarrow> session_ok (fst (logout_timer_event s))"
  "session_ok s \<Longrightarrow> session_ok (user_input s)"
  by (auto simp: set_active_def session_update_def logout_timer_event_def user_input_def session_ok_def
      Let_def case_prod_beta split: option.split)

lemma session_step_ok: "session_ok s \<Longrightarrow> session_ok (fst (session_step s e))"
proof (cases e)
  case (Notified v)
  assume "session_ok s"
  with Notified handle_notification_ok [of s v] show ?thesis by (fastforce split: option.split)
qed (simp_all add: set_connected_ok set_settings_ok timers_ok)

interpretation session: keeps session_step "\<lambda>_. True" session_ok
  by unfold_locales (rule session_step_ok)

text \<open>
  C31.  In every history of a session, whatever notifications, settings, activations, user input
  and timeouts it goes through: the library's handle exists exactly while the session is active
  (so it is created and destroyed in turn, never twice), a unit that is set is shown as the
  network's display unit for it, and the auto-logout timer runs only with a positive timeout and
  with that timeout's interval.
\<close>

theorem session_invariant:
  "session_ok (fst (run session_step (new_session st n) es))"
  by (rule session.inv_run) (simp_all add: session_ok_def new_session_def)

section \<open>Connection state\<close>

fun reported :: "session_event \<Rightarrow> bool \<Rightarrow> bool" where
  "reported (Notified v) b = (if to_string (jvalue v ''event'') = ''network''
     then to_string (jvalue (to_object (jvalue v ''network'')) ''current_state'') = ''connected'' else b)"
| "reported (SetConnected c) b = c"
| "reported _ b = b"

lemma set_settings_connected [simp]: "s_connected (fst (set_settings v s)) = s_connected s"
  by (simp add: set_settings_def set_unit_def set_altimeout_def Let_def case_prod_beta)

lemma handle_event_connected:
  "handle_event ev v s = Some r \<Longrightarrow> s_connected (fst r) = (if ev = ''network''
     then to_string (jvalue (to_object v) ''current_state'') = ''connected'' else s_connected s)"
  by (auto simp: handle_event_def set_connected_def set_block_def Let_def case_prod_beta split: if_splits)

lemma step_connected: "s_connected (fst (session_step s e)) = reported e (s_connected s)"
proof (cases e)
  case (Notified v)
  let ?ev = "to_string (jvalue v ''event'')"
  let ?s1 = "s\<lparr>s_events := json_insert ?ev (jvalue v ?ev) (s_events s)\<rparr>"
  show ?thesis
  proof (cases "handle_event ?ev (jvalue v ?ev) ?s1")
    case None
    then have "?ev \<noteq> ''network''" by (auto simp: handle_event_def Let_def case_prod_beta)
    with Notified None show ?thesis by (simp add: handle_notification_def Let_def)
  next
    case (Some r)
    with Notified handle_event_connected [OF Some] show ?thesis
      by (auto simp: handle_notification_def Let_def case_prod_beta)
  qed
qed (auto simp: set_connected_def set_active_def session_update_def logout_timer_event_def
    user_input_def Let_def case_prod_beta split: option.split)

text \<open>
  A session is connected exactly when the last thing it was told about its connection, by a
  network notification of the library or by a failed call, said so; no other event, an unknown
  notification included, changes it.
\<close>

lemma connected_is_last_reported:
  "s_connected (fst (run session_step (new_session st n) es)) = fold reported es False"
proof -
  have "s_connected (fst (run session_step s es)) = fold reported es (s_connected s)" for s
    by (induction es arbitrary: s) (simp_all add: step_connected)
  then show ?thesis by (simp add: new_session_def)
qed

section \<open>Connection parameters\<close>

text \<open>
  A session connects to a server of the user's own only if personal nodes are switched on
  and the network is an Electrum one with a server configured, and then to the server configured
  for that very network, on the clear and on the onion side; every other session leaves the
  server to the library, and the proxy and discounted fees are asked for only when configured and
  only on Liquid.
\<close>

lemma connects_to_own_server:
  "let p = get_params version (new_session st n);
       url = trimmed (if n_mainnet n then (if n_liquid n then set_liquid_url st else set_bitcoin_url st)
                      else if n_liquid n then set_liquid_testnet_url st else set_testnet_url st);
       own = set_personal_node st \<and> n_electrum n \<and> url \<noteq> []
   in jvalue p ''electrum_url'' = (if own then JStr url else JUndefined) \<and>
      jvalue p ''electrum_onion_url'' = jvalue p ''electrum_url'' \<and>
      jvalue p ''electrum_tls'' = (if own then JBool (set_electrum_tls st) else JUndefined) \<and>
      jvalue p ''proxy'' = (if set_proxy st \<noteq> [] then JStr (set_proxy st) else JUndefined) \<and>
      jvalue p ''discount_fees'' = (if n_liquid n then JBool True else JUndefined) \<and>
      jvalue p ''name'' = JStr (n_id n)"
proof -
  have trim: "trimmed [] = []" by (simp add: trimmed_def)
  have base: "jvalue (jobj [(''name'', JStr a), (''use_tor'', JBool b), (''user_agent'', JStr c)]) k =
      (if k = ''name'' then JStr a else if k = ''use_tor'' then JBool b
       else if k = ''user_agent'' then JStr c else JUndefined)" for a b c k
    by (simp add: jvalue_jobj)
  show ?thesis
    by (auto simp: get_params_def new_session_def use_personal_node_def electrum_url_for_network_def
        Let_def jvalue_insert base trim)
qed

end
