(* ===== verification/Task_Engine.thy ===== *)
theory Task_Engine
  imports Session
begin

text \<open>
  Tasks and their dependencies (\<open>Task\<close> in \<open>src/task.{h,cpp}\<close>), with the classes of
  tasks as a datatype.  Objects live in a store: a task is an index into \<open>e_tasks\<close>, a group
  one into \<open>e_groups\<close>, a session one into \<open>e_sessions\<close>.  \<open>QSet<Task*>\<close> is a list
  without duplicates, whose order stands for the set's iteration order.  Objects are not
  destroyed here.
\<close>

section \<open>Classes of tasks\<close>

text \<open>The concrete classes, each with the data its constructor stores.\<close>

datatype task_kind =
    RegisterUserTask jobject jobject
  | LoginTask jobject jobject
  | LoadTwoFactorConfigTask
  | LoadCurrenciesTask
  | LoadAccountTask int
  | LoadAccountsTask bool
  | SyncAccountsTask
  | LoadBalanceTask int
  | GetWatchOnlyDetailsTask
  | LoadAssetsTask bool
  | EncryptWithPinTask string json
  | CreateAccountTask jobject
  | UpdateAccountTask jobject
  | ValidateTask jobject
  | ChangeTwoFactorTask string jobject
  | TwoFactorResetTask string
  | SetCsvTimeTask int
  | GetCredentialsTask
  | ChangeSettingsTask jobject
  | DisableAllPinLoginsTask
  | TwoFactorChangeLimitsTask jobject
  | CreateTransactionTask jobject
  | CreateRedepositTransactionTask jobject
  | SendNLocktimesTask
  | SignTransactionTask jobject
  | SendTransactionTask jobject
  | GetUnspentOutputsTask int int bool int
  | GetTransactionsTask int int int
  | GetReceiveAddressTask int
  | GetAddressesTask int int
  | DeleteWalletTask
  | TwoFactorCancelResetTask
  | SetUnspentOutputsStatusTask "jobject list" string
  | ConnectTask int
  | BlindTransactionTask jobject
  | SignMessageTask string string
  | GetSystemMessageTask
  | AckSystemMessageTask string
  | HttpRequestTask jobject
  | DecodeBCURTask string
  | EncodeBCURTask jobject
  | RSAVerifyTask jobject
  | LoadPaymentsTask

section \<open>Data\<close>

datatype status = Ready | Active | Finished | Failed

datatype prompt = CodePrompt int jobject | DevicePrompt jobject

datatype resolver =
    GetXPubsResolver | SignMessageResolver | BlindingKeysResolver | BlindingNoncesResolver
  | SignLiquidTransactionResolver | SignTransactionResolver | GetMasterBlindingKeyResolver
  | GetBlindingFactorsResolver

record task =
  t_kind :: task_kind
  t_session :: nat
  t_status :: status
  t_error :: string
  t_inputs :: "nat list"
  t_outputs :: "nat list"
  t_group :: "nat option"
  t_auth_handler :: bool
  t_result :: jobject
  t_prompt :: "prompt option"
  t_resolver :: "resolver option"
  t_output :: json

record task_group =
  g_name :: string
  g_status :: status
  g_tasks :: "nat list"
  g_dispatcher :: bool

text \<open>
  \<open>t_output\<close> is the member in which a class keeps its own product (\<open>m_pointer\<close>,
  \<open>m_message\<close>, \<open>m_response\<close>), and the group's status has the same four values as
  the task's.

  The context the sessions belong to, as far as tasks read it: the connected device with the
  identity of the session it has unlocked, the wallet with the kind of its login data, and for
  each account its session and whether it is synced.
\<close>

record task_context =
  c_device :: "string option option"
  c_xpub_hash_id :: string
  c_wallet :: "bool option"
  c_accounts :: "(nat \<times> bool) list"
  c_credentials :: jobject

record engine =
  e_tasks :: "task list"
  e_groups :: "task_group list"
  e_queue :: "nat list"
  e_dispatch_timer :: bool
  e_busy :: bool
  e_sessions :: "session list"
  e_tor_session :: "nat option"
  e_context :: task_context
  e_version :: string
  e_mock_send :: bool

datatype task_output =
    TaskErrorChanged nat
  | TaskStatusChanged nat
  | TaskFinished nat
  | TaskFailed nat string
  | UpdateTask nat
  | GroupNameChanged nat
  | GroupStatusChanged nat
  | GroupTasksChanged nat
  | GroupFinished nat
  | GroupFailed nat
  | GroupsChanged
  | BusyChanged
  | StartCall nat string "json list"
  | StartConnectTimeout nat int
  | StartRequestCode nat string
  | StartResolveCode nat json
  | StartAuthHandlerCall nat
  | StartResolver nat resolver
  | TaskUpdated nat
  | ResultChanged nat
  | PromptChanged nat
  | PromptResultChanged nat
  | InvalidCode nat
  | ResolverChanged nat
  | SessionSignal nat session_output
  | ContextCall nat string "json list"
  | Unreachable nat

definition new_task :: "task_kind \<Rightarrow> nat \<Rightarrow> task" where
  "new_task k s = \<lparr>t_kind = k, t_session = s, t_status = Ready, t_error = [], t_inputs = [],
     t_outputs = [], t_group = None, t_auth_handler = False, t_result = [], t_prompt = None,
     t_resolver = None, t_output = JUndefined\<rparr>"

definition new_group :: "string \<Rightarrow> task_group" where
  "new_group name = \<lparr>g_name = name, g_status = Ready, g_tasks = [], g_dispatcher = False\<rparr>"

definition new_engine :: "session list \<Rightarrow> nat option \<Rightarrow> task_context \<Rightarrow> string \<Rightarrow> bool \<Rightarrow> engine" where
  "new_engine ss tor c version mock = \<lparr>e_tasks = [], e_groups = [], e_queue = [], e_dispatch_timer = False,
     e_busy = False, e_sessions = ss, e_tor_session = tor, e_context = c,
     e_version = version, e_mock_send = mock\<rparr>"

section \<open>Access to the store\<close>

definition task_at :: "engine \<Rightarrow> nat \<Rightarrow> task option" where
  "task_at e n = (if n < length (e_tasks e) then Some (e_tasks e ! n) else None)"

definition status_of :: "engine \<Rightarrow> nat \<Rightarrow> status option" where
  "status_of e n = map_option t_status (task_at e n)"

definition modify_task :: "nat \<Rightarrow> (task \<Rightarrow> task) \<Rightarrow> engine \<Rightarrow> engine" where
  "modify_task n f e = e\<lparr>e_tasks := (e_tasks e)[n := f (e_tasks e ! n)]\<rparr>"

definition group_at :: "engine \<Rightarrow> nat \<Rightarrow> task_group option" where
  "group_at e g = (if g < length (e_groups e) then Some (e_groups e ! g) else None)"

definition modify_group :: "nat \<Rightarrow> (task_group \<Rightarrow> task_group) \<Rightarrow> engine \<Rightarrow> engine" where
  "modify_group g f e = e\<lparr>e_groups := (e_groups e)[g := f (e_groups e ! g)]\<rparr>"

section \<open>Tasks\<close>

definition set_error :: "nat \<Rightarrow> string \<Rightarrow> engine \<Rightarrow> engine \<times> task_output list" where
  "set_error n err e = (case task_at e n of
     None \<Rightarrow> (e, [])
   | Some t \<Rightarrow> if t_error t = err then (e, [])
       else (modify_task n (\<lambda>t. t\<lparr>t_error := err\<rparr>) e, [TaskErrorChanged n]))"

definition task_needs :: "nat \<Rightarrow> nat \<Rightarrow> engine \<Rightarrow> engine" where
  "task_needs n k e = modify_task k (\<lambda>t. t\<lparr>t_outputs := List.insert n (t_outputs t)\<rparr>)
     (modify_task n (\<lambda>t. t\<lparr>t_inputs := List.insert k (t_inputs t)\<rparr>) e)"

definition task_then :: "nat \<Rightarrow> nat \<Rightarrow> engine \<Rightarrow> engine \<times> nat" where
  "task_then n k e = (modify_task k (\<lambda>t. t\<lparr>t_inputs := List.insert n (t_inputs t)\<rparr>)
     (modify_task n (\<lambda>t. t\<lparr>t_outputs := List.insert k (t_outputs t)\<rparr>) e), k)"

text \<open>\<open>dispatch\<close> of a dispatcher, of a group and of a task: arm the zero timer once.\<close>

definition dispatcher_dispatch :: "engine \<Rightarrow> engine" where
  "dispatcher_dispatch e = e\<lparr>e_dispatch_timer := True\<rparr>"

definition group_dispatch :: "nat \<Rightarrow> engine \<Rightarrow> engine" where
  "group_dispatch g e = (case group_at e g of
     None \<Rightarrow> e | Some gr \<Rightarrow> if g_dispatcher gr then dispatcher_dispatch e else e)"

definition task_dispatch :: "nat \<Rightarrow> engine \<Rightarrow> engine" where
  "task_dispatch n e = (case task_at e n of
     None \<Rightarrow> e
   | Some t \<Rightarrow> (case t_group t of None \<Rightarrow> e | Some g \<Rightarrow> group_dispatch g e))"

definition put_status :: "nat \<Rightarrow> status \<Rightarrow> engine \<Rightarrow> engine" where
  "put_status n st e = modify_task n (\<lambda>t. t\<lparr>t_status := st\<rparr>) e"

lemma tasks_dispatch [simp]: "e_tasks (task_dispatch n e) = e_tasks e"
  by (simp add: task_dispatch_def group_dispatch_def dispatcher_dispatch_def split: option.split)

lemma filter_update_less:
  "n < length xs \<Longrightarrow> P (xs ! n) \<Longrightarrow> \<not> P y \<Longrightarrow> length (filter P (xs[n := y])) < length (filter P xs)"
proof (induction xs arbitrary: n)
  case (Cons x xs)
  then show ?case
    by (cases n) (auto simp: Suc_le_eq)
qed simp

text \<open>
  \<open>setStatus(Failed)\<close> calls itself on every output, in order; a task that has failed already
  returns at once.  The recursion is written with the list of the calls that are still to be
  made; \<open>set_status_failed\<close> below is the recursion as the code has it.
\<close>

function fail_tasks :: "nat list \<Rightarrow> engine \<Rightarrow> engine \<times> task_output list" where
  "fail_tasks [] e = (e, [])"
| "fail_tasks (n # ns) e = (case task_at e n of
     None \<Rightarrow> fail_tasks ns e
   | Some t \<Rightarrow>
       if t_status t = Failed then fail_tasks ns e
       else (let (e1, out) = fail_tasks (t_outputs t @ ns) (task_dispatch n (put_status n Failed e))
             in (e1, TaskStatusChanged n # TaskFailed n (t_error t) # out)))"
  by pat_completeness auto
termination
  by (relation "measures [\<lambda>(ns, e). length (filter (\<lambda>t. t_status t \<noteq> Failed) (e_tasks e)),
        \<lambda>(ns, e). length ns]")
    (auto simp: put_status_def modify_task_def task_at_def intro!: filter_update_less split: if_splits)

definition set_status :: "nat \<Rightarrow> status \<Rightarrow> engine \<Rightarrow> engine \<times> task_output list" where
  "set_status n st e = (case task_at e n of
     None \<Rightarrow> (e, [])
   | Some t \<Rightarrow>
       if t_status t = st then (e, [])
       else if st = Failed then fail_tasks [n] e
       else (task_dispatch n (put_status n st e),
             TaskStatusChanged n # (if st = Finished then [TaskFinished n] else [])))"

end
