(* ===== verification/Task_Calls.thy ===== *)
theory Task_Calls
  imports Task_Engine
begin

text \<open>
  What each class of task asks of the wallet library (\<open>call\<close> in \<open>src/task.cpp\<close>): the
  function and its arguments, in the order of the classes, then the constructors that build the
  arguments of a login or of a signature check, and the accessors that read a product out of the
  result.  A call the library accepts leaves an authentication handler in the task.
\<close>

section \<open>The calls\<close>

text \<open>The classes that are not an \<open>AuthHandlerTask\<close>.\<close>

fun plain_kind :: "task_kind \<Rightarrow> bool" where
  "plain_kind LoadTwoFactorConfigTask = True"
| "plain_kind LoadCurrenciesTask = True"
| "plain_kind SyncAccountsTask = True"
| "plain_kind GetWatchOnlyDetailsTask = True"
| "plain_kind (LoadAssetsTask r) = True"
| "plain_kind SendNLocktimesTask = True"
| "plain_kind (ConnectTask t) = True"
| "plain_kind GetSystemMessageTask = True"
| "plain_kind (HttpRequestTask p) = True"
| "plain_kind LoadPaymentsTask = True"
| "plain_kind _ = False"

type_synonym gdk_call = "string \<times> json list"

definition register_user_call :: "jobject \<Rightarrow> jobject \<Rightarrow> gdk_call" where
  "register_user_call details device =
    (''GA_register_user'', [JObj device, JObj details])"

definition login_call :: "jobject \<Rightarrow> jobject \<Rightarrow> gdk_call" where
  "login_call details device =
    (''GA_login_user'', [JObj device, JObj details])"

definition load_account_call :: "int \<Rightarrow> gdk_call" where
  "load_account_call pointer =
    (''GA_get_subaccount'', [JInt pointer])"

definition load_accounts_call :: "bool \<Rightarrow> gdk_call" where
  "load_accounts_call refresh =
    (''GA_get_subaccounts'', [JObj (jobj [(''refresh'', JBool refresh)])])"

definition load_balance_call :: "int \<Rightarrow> gdk_call" where
  "load_balance_call pointer =
    (''GA_get_balance'', [JObj (jobj [(''subaccount'', JInt pointer), (''num_confs'', JInt 0)])])"

definition encrypt_with_pin_call :: "string \<Rightarrow> json \<Rightarrow> gdk_call" where
  "encrypt_with_pin_call pin plaintext =
    (''GA_encrypt_with_pin'', [JObj (jobj [(''pin'', JStr pin), (''plaintext'', plaintext)])])"

definition create_account_call :: "jobject \<Rightarrow> gdk_call" where
  "create_account_call details =
    (''GA_create_subaccount'', [JObj details])"

definition update_account_call :: "jobject \<Rightarrow> gdk_call" where
  "update_account_call details =
    (''GA_update_subaccount'', [JObj details])"

definition validate_call :: "jobject \<Rightarrow> gdk_call" where
  "validate_call details =
    (''GA_validate'', [JObj details])"

definition change_two_factor_call :: "string \<Rightarrow> jobject \<Rightarrow> gdk_call" where
  "change_two_factor_call meth details =
    (''GA_change_settings_twofactor'', [JStr meth, JObj details])"

definition two_factor_reset_call :: "string \<Rightarrow> gdk_call" where
  "two_factor_reset_call email =
    (''GA_twofactor_reset'', [JStr email, JInt 0])"

definition set_csv_time_call :: "int \<Rightarrow> gdk_call" where
  "set_csv_time_call v =
    (''GA_set_csvtime'', [JObj (jobj [(''value'', JInt v)])])"

definition get_credentials_call :: "gdk_call" where
  "get_credentials_call =
    (''GA_get_credentials'', [JObj (jobj [(''password'', JStr [])])])"

definition change_settings_call :: "jobject \<Rightarrow> gdk_call" where
  "change_settings_call details =
    (''GA_change_settings'', [JObj details])"

definition disable_all_pin_logins_call :: "gdk_call" where
  "disable_all_pin_logins_call =
    (''GA_disable_all_pin_logins'', [])"

definition two_factor_change_limits_call :: "jobject \<Rightarrow> gdk_call" where
  "two_factor_change_limits_call details =
    (''GA_twofactor_change_limits'', [JObj details])"

definition create_transaction_call :: "jobject \<Rightarrow> gdk_call" where
  "create_transaction_call details =
    (''GA_create_transaction'', [JObj details])"

definition create_redeposit_transaction_call :: "jobject \<Rightarrow> gdk_call" where
  "create_redeposit_transaction_call details =
    (''GA_create_redeposit_transaction'', [JObj details])"

definition sign_transaction_call :: "jobject \<Rightarrow> gdk_call" where
  "sign_transaction_call details =
    (''GA_sign_transaction'', [JObj details])"

definition send_transaction_call :: "jobject \<Rightarrow> gdk_call" where
  "send_transaction_call details =
    (''GA_send_transaction'', [JObj details])"

definition get_unspent_outputs_call :: "int \<Rightarrow> int \<Rightarrow> bool \<Rightarrow> int \<Rightarrow> gdk_call" where
  "get_unspent_outputs_call sub confs all_coins expired =
    (''GA_get_unspent_outputs'',
     [JObj (let d = jobj [(''subaccount'', JInt sub), (''num_confs'', JInt confs),
                          (''all_coins'', JBool all_coins)]
            in if expired > 0 then qm_insert ''expired_at'' (JInt expired) d else d)])"

definition get_transactions_call :: "int \<Rightarrow> int \<Rightarrow> int \<Rightarrow> gdk_call" where
  "get_transactions_call sub first count =
    (''GA_get_transactions'',
     [JObj (jobj [(''subaccount'', JInt sub), (''first'', JInt first), (''count'', JInt count)])])"

definition get_receive_address_call :: "int \<Rightarrow> gdk_call" where
  "get_receive_address_call pointer =
    (''GA_get_receive_address'', [JObj (jobj [(''subaccount'', JInt pointer)])])"

definition get_addresses_call :: "int \<Rightarrow> int \<Rightarrow> gdk_call" where
  "get_addresses_call sub last_pointer =
    (''GA_get_previous_addresses'',
     [JObj (let d = jobj [(''subaccount'', JInt sub)]
            in if last_pointer \<noteq> 0 then qm_insert ''last_pointer'' (JInt last_pointer) d else d)])"

definition delete_wallet_call :: "gdk_call" where
  "delete_wallet_call =
    (''GA_remove_account'', [])"

definition two_factor_cancel_reset_call :: "gdk_call" where
  "two_factor_cancel_reset_call =
    (''GA_twofactor_cancel_reset'', [])"

definition set_unspent_outputs_status_call :: "jobject list \<Rightarrow> string \<Rightarrow> gdk_call" where
  "set_unspent_outputs_status_call outputs st =
    (''GA_set_unspent_outputs_status'',
     [JObj (jobj [(''list'', JArr (map (\<lambda>d. JObj (jobj
        [(''txhash'', JStr (to_string (jvalue d ''txhash''))),
         (''pt_idx'', JInt (to_int (jvalue d ''pt_idx''))),
         (''user_status'', JStr st)])) outputs))])])"

definition blind_transaction_call :: "jobject \<Rightarrow> gdk_call" where
  "blind_transaction_call details =
    (''GA_blind_transaction'', [JObj details])"

definition sign_message_call :: "string \<Rightarrow> string \<Rightarrow> gdk_call" where
  "sign_message_call address message =
    (''GA_sign_message'', [JObj (jobj [(''address'', JStr address), (''message'', JStr message)])])"

definition ack_system_message_call :: "string \<Rightarrow> gdk_call" where
  "ack_system_message_call message =
    (''GA_ack_system_message'', [JStr message])"

definition decode_bcur_call :: "string \<Rightarrow> gdk_call" where
  "decode_bcur_call part =
    (''GA_bcur_decode'', [JObj (jobj [(''part'', JStr part), (''return_raw_data'', JBool False)])])"

definition encode_bcur_call :: "jobject \<Rightarrow> gdk_call" where
  "encode_bcur_call details =
    (''GA_bcur_encode'', [JObj details])"

definition rsa_verify_call :: "jobject \<Rightarrow> gdk_call" where
  "rsa_verify_call details =
    (''GA_rsa_verify'', [JObj details])"

text \<open>The virtual method.\<close>

fun auth_call :: "task_kind \<Rightarrow> gdk_call" where
  "auth_call (RegisterUserTask details device) = register_user_call details device"
| "auth_call (LoginTask details device) = login_call details device"
| "auth_call (LoadAccountTask pointer) = load_account_call pointer"
| "auth_call (LoadAccountsTask refresh) = load_accounts_call refresh"
| "auth_call (LoadBalanceTask pointer) = load_balance_call pointer"
| "auth_call (EncryptWithPinTask pin plaintext) = encrypt_with_pin_call pin plaintext"
| "auth_call (CreateAccountTask details) = create_account_call details"
| "auth_call (UpdateAccountTask details) = update_account_call details"
| "auth_call (ValidateTask details) = validate_call details"
| "auth_call (ChangeTwoFactorTask meth details) = change_two_factor_call meth details"
| "auth_call (TwoFactorResetTask email) = two_factor_reset_call email"
| "auth_call (SetCsvTimeTask v) = set_csv_time_call v"
| "auth_call GetCredentialsTask = get_credentials_call"
| "auth_call (ChangeSettingsTask details) = change_settings_call details"
| "auth_call DisableAllPinLoginsTask = disable_all_pin_logins_call"
| "auth_call (TwoFactorChangeLimitsTask details) = two_factor_change_limits_call details"
| "auth_call (CreateTransactionTask details) = create_transaction_call details"
| "auth_call (CreateRedepositTransactionTask details) = create_redeposit_transaction_call details"
| "auth_call (SignTransactionTask details) = sign_transaction_call details"
| "auth_call (SendTransactionTask details) = send_transaction_call details"
| "auth_call (GetUnspentOutputsTask sub confs all_coins expired) = get_unspent_outputs_call sub confs all_coins expired"
| "auth_call (GetTransactionsTask sub first count) = get_transactions_call sub first count"
| "auth_call (GetReceiveAddressTask pointer) = get_receive_address_call pointer"
| "auth_call (GetAddressesTask sub last_pointer) = get_addresses_call sub last_pointer"
| "auth_call DeleteWalletTask = delete_wallet_call"
| "auth_call TwoFactorCancelResetTask = two_factor_cancel_reset_call"
| "auth_call (SetUnspentOutputsStatusTask outputs st) = set_unspent_outputs_status_call outputs st"
| "auth_call (BlindTransactionTask details) = blind_transaction_call details"
| "auth_call (SignMessageTask address message) = sign_message_call address message"
| "auth_call (AckSystemMessageTask message) = ack_system_message_call message"
| "auth_call (DecodeBCURTask part) = decode_bcur_call part"
| "auth_call (EncodeBCURTask details) = encode_bcur_call details"
| "auth_call (RSAVerifyTask details) = rsa_verify_call details"
| "auth_call _ = ([], [])"

section \<open>Arguments\<close>

definition login_with_pin :: "string \<Rightarrow> jobject \<Rightarrow> task_kind" where
  "login_with_pin pin pin_data = LoginTask (jobj [(''pin'', JStr pin), (''pin_data'', JObj pin_data)]) []"

fun join_words :: "string list \<Rightarrow> string" where
  "join_words [] = []"
| "join_words [w] = w"
| "join_words (w # ws) = w @ CHR '' '' # join_words ws"

definition login_with_mnemonic :: "string list \<Rightarrow> string \<Rightarrow> task_kind" where
  "login_with_mnemonic mnemonic password =
     LoginTask (jobj [(''mnemonic'', JStr (join_words mnemonic)), (''password'', JStr password)]) []"

definition login_with_device :: "jobject \<Rightarrow> task_kind" where
  "login_with_device device = LoginTask [] device"

definition login_with_username :: "string \<Rightarrow> string \<Rightarrow> task_kind" where
  "login_with_username username password =
     LoginTask (jobj [(''username'', JStr username), (''password'', JStr password)]) []"

text \<open>
  Whether loading the accounts must ask the servers: asked for, or an Electrum session that is not
  watch-only and whose state directory is missing or younger than 30 seconds.  \<open>age\<close> is the
  directory's age in seconds when the file system knows its birth.
\<close>

datatype state_directory = NoDirectory | Directory "int option"

definition should_refresh :: "network \<Rightarrow> bool \<Rightarrow> state_directory \<Rightarrow> bool" where
  "should_refresh n watchonly d =
     (if \<not> n_electrum n then False
      else if watchonly then False
      else (case d of NoDirectory \<Rightarrow> True
         | Directory None \<Rightarrow> False
         | Directory (Some age) \<Rightarrow> age < 30))"

definition load_accounts_task :: "bool \<Rightarrow> network \<Rightarrow> bool \<Rightarrow> state_directory \<Rightarrow> task_kind" where
  "load_accounts_task refresh n watchonly d = LoadAccountsTask (refresh \<or> should_refresh n watchonly d)"

definition rsa_verify_task :: "string \<Rightarrow> 8 word list \<Rightarrow> 8 word list \<Rightarrow> task_kind" where
  "rsa_verify_task pem challenge signature = RSAVerifyTask (jobj [(''pem'', JStr pem),
     (''challenge'', JStr (to_hex challenge)), (''signature'', JStr (to_hex signature))])"

section \<open>Products\<close>

text \<open>The \<open>result\<close> object of a finished call.\<close>

definition result_object :: "jobject \<Rightarrow> jobject" where
  "result_object r = to_object (jvalue r ''result'')"

text \<open>\<open>None\<close> is the violated assertion that the call has finished.\<close>

definition sent_transaction :: "bool \<Rightarrow> jobject \<Rightarrow> jobject \<Rightarrow> jobject option" where
  "sent_transaction mock details r =
     (if mock then Some (json_insert ''inputs'' (jvalue details ''transaction_inputs'') details)
      else if jvalue r ''status'' \<noteq> JStr ''done'' then None
      else Some (json_insert ''inputs'' (jvalue details ''transaction_inputs'') (result_object r)))"

definition unspent_outputs :: "jobject \<Rightarrow> jobject" where
  "unspent_outputs r = to_object (jvalue (result_object r) ''unspent_outputs'')"

definition transactions :: "jobject \<Rightarrow> json list" where
  "transactions r = to_array (jvalue (result_object r) ''transactions'')"

definition addresses :: "jobject \<Rightarrow> json list" where
  "addresses r = to_array (jvalue (result_object r) ''list'')"

definition last_pointer :: "jobject \<Rightarrow> int" where
  "last_pointer r = to_int_or (- 1) (jvalue (result_object r) ''last_pointer'')"

definition has_more :: "jobject \<Rightarrow> bool" where
  "has_more r = jcontains (result_object r) ''last_pointer''"

definition message_signature :: "jobject \<Rightarrow> string" where
  "message_signature r = to_string (jvalue (result_object r) ''signature'')"

end
