(* ===== verification/Task_Kinds.thy ===== *)
theory Task_Kinds
  imports Task_Calls
begin

text \<open>
  The task classes of \<open>src/task.cpp\<close>: the call each makes into the wallet library, when it
  may start, what it does with the answer, and the handler of the library's two-step calls
  (\<open>AuthHandlerTask\<close>) with its prompts and resolvers.  Work done by
  \<open>QtConcurrent::run\<close> is split in two: an output that starts it, with the library function
  and its arguments, and an event that brings its outcome.
\<close>

section \<open>Store of sessions\<close>

definition session_at :: "engine \<Rightarrow> nat \<Rightarrow> session option" where
  "session_at e s = (if s < length (e_sessions e) then Some (e_sessions e ! s) else None)"

definition session_do :: "nat \<Rightarrow> (session \<Rightarrow> session \<times> session_output list) \<Rightarrow> engine
    \<Rightarrow> engine \<times> task_output list" where
  "session_do s f e = (case session_at e s of
     None \<Rightarrow> (e, [])
   | Some ss \<Rightarrow> (let (ss', out) = f ss
       in (e\<lparr>e_sessions := (e_sessions e)[s := ss']\<rparr>, map (SessionSignal s) out)))"

definition session_connected :: "engine \<Rightarrow> nat \<Rightarrow> bool" where
  "session_connected e s \<longleftrightarrow> (case session_at e s of None \<Rightarrow> False | Some ss \<Rightarrow> s_connected ss)"

definition session_ready :: "engine \<Rightarrow> nat \<Rightarrow> bool" where
  "session_ready e s \<longleftrightarrow> (case session_at e s of None \<Rightarrow> False | Some ss \<Rightarrow> s_ready ss)"

definition session_liquid :: "engine \<Rightarrow> nat \<Rightarrow> bool" where
  "session_liquid e s \<longleftrightarrow> (case session_at e s of None \<Rightarrow> False | Some ss \<Rightarrow> n_liquid (s_network ss))"

section \<open>Starting\<close>

text \<open>\<open>active\<close> of each class.\<close>

fun kind_active :: "task_kind \<Rightarrow> bool \<Rightarrow> bool \<Rightarrow> bool" where
  "kind_active (LoadAccountTask p) connected ready \<longleftrightarrow> connected \<and> ready"
| "kind_active (LoadAccountsTask r) connected ready \<longleftrightarrow> connected \<and> ready"
| "kind_active (LoadBalanceTask p) connected ready \<longleftrightarrow> connected \<and> ready"
| "kind_active (CreateAccountTask d) connected ready \<longleftrightarrow> connected \<and> ready"
| "kind_active GetCredentialsTask connected ready \<longleftrightarrow> connected \<and> ready"
| "kind_active (GetUnspentOutputsTask s c a x) connected ready \<longleftrightarrow> connected \<and> ready"
| "kind_active (EncryptWithPinTask pin plaintext) connected ready \<longleftrightarrow>
     connected \<and> plaintext \<noteq> JNull \<and> plaintext \<noteq> JUndefined"
| "kind_active (SendTransactionTask d) connected ready \<longleftrightarrow> d \<noteq> [] \<and> connected"
| "kind_active _ connected ready \<longleftrightarrow> connected"

definition auth_update :: "nat \<Rightarrow> engine \<Rightarrow> engine \<times> task_output list" where
  "auth_update n e = (case task_at e n of
     None \<Rightarrow> (e, [])
   | Some t \<Rightarrow>
       if t_status t \<noteq> Ready then (e, [])
       else if \<not> kind_active (t_kind t) (session_connected e (t_session t)) (session_ready e (t_session t))
       then (e, [])
       else (let (e1, out) = set_status n Active e; (f, args) = auth_call (t_kind t)
             in (e1, out @ [StartCall n f args])))"

text \<open>The guard on the wallet: finished at once for a watch-only wallet, waiting without a wallet.\<close>

definition wallet_update :: "string \<Rightarrow> nat \<Rightarrow> engine \<Rightarrow> engine \<times> task_output list" where
  "wallet_update f n e = (case task_at e n of
     None \<Rightarrow> (e, [])
   | Some t \<Rightarrow>
       if t_status t \<noteq> Ready then (e, [])
       else (case c_wallet (e_context e) of
           None \<Rightarrow> (e, [])
         | Some watchonly \<Rightarrow>
             if watchonly then set_status n Finished e
             else if \<not> session_ready e (t_session t) then (e, [])
             else (let (e1, out) = set_status n Active e in (e1, out @ [StartCall n f []]))))"

text \<open>A guarded start: the classes that only need a condition on their session.\<close>

definition guarded_update :: "(engine \<Rightarrow> nat \<Rightarrow> bool) \<Rightarrow> string \<Rightarrow> json list \<Rightarrow> nat \<Rightarrow> engine
    \<Rightarrow> engine \<times> task_output list" where
  "guarded_update ok f args n e = (case task_at e n of
     None \<Rightarrow> (e, [])
   | Some t \<Rightarrow>
       if t_status t \<noteq> Ready \<or> \<not> ok e (t_session t) then (e, [])
       else (let (e1, out) = set_status n Active e in (e1, out @ [StartCall n f args])))"

text \<open>The worker of \<open>LoadAssetsTask\<close>: a refresh that succeeds is followed by the query.\<close>

definition refresh_assets_call :: "nat \<Rightarrow> task_output" where
  "refresh_assets_call n = StartCall n ''GA_refresh_assets''
     [JObj (jobj [(''assets'', JBool True), (''icons'', JBool True)])]"

definition get_assets_call :: "nat \<Rightarrow> task_output" where
  "get_assets_call n = StartCall n ''GA_get_assets'' [JObj (jobj [(''category'', JStr ''all'')])]"

definition load_assets_update :: "bool \<Rightarrow> nat \<Rightarrow> engine \<Rightarrow> engine \<times> task_output list" where
  "load_assets_update refresh n e = (case task_at e n of
     None \<Rightarrow> (e, [])
   | Some t \<Rightarrow>
       if t_status t \<noteq> Ready then (e, [])
       else if \<not> session_liquid e (t_session t) then set_status n Finished e
       else (let (e1, out) = set_status n Active e
             in (e1, out @ [if refresh then refresh_assets_call n else get_assets_call n])))"

definition sync_accounts_update :: "nat \<Rightarrow> engine \<Rightarrow> engine \<times> task_output list" where
  "sync_accounts_update n e =
     (let (e1, out1) = (if status_of e n = Some Ready then set_status n Active e else (e, []))
      in (case task_at e1 n of
            None \<Rightarrow> (e1, out1)
          | Some t \<Rightarrow>
              if t_status t = Active \<and>
                 list_all (\<lambda>(s, synced). s = t_session t \<longrightarrow> synced) (c_accounts (e_context e1))
              then (let (e2, out2) = set_status n Finished e1 in (e2, out1 @ out2))
              else (e1, out1)))"

text \<open>\<open>None\<close> is the missing tor session the code would dereference.\<close>

definition waits_for_tor :: "nat \<Rightarrow> engine \<Rightarrow> bool option" where
  "waits_for_tor s e = (case session_at e s of
     None \<Rightarrow> Some False
   | Some ss \<Rightarrow>
       if s_use_tor ss \<and> \<not> s_use_proxy ss then
         (case e_tor_session e of
            None \<Rightarrow> None
          | Some ts \<Rightarrow>
              if ts = s then Some False
              else (case session_at e ts of
                  None \<Rightarrow> None
                | Some tor \<Rightarrow> Some (to_string (jvalue (to_object (jvalue (s_events tor) ''tor'')) ''tag'')
                                    \<noteq> ''done'')))
       else Some False)"

definition connect_update :: "int \<Rightarrow> nat \<Rightarrow> engine \<Rightarrow> engine \<times> task_output list" where
  "connect_update timeout n e = (case task_at e n of
     None \<Rightarrow> (e, [])
   | Some t \<Rightarrow>
       if t_status t = Ready then
         (case waits_for_tor (t_session t) e of
            None \<Rightarrow> (e, [Unreachable n])
          | Some True \<Rightarrow> (e, [])
          | Some False \<Rightarrow>
              (let (e1, out1) = set_status n Active e
               in if session_connected e1 (t_session t) then
                    (let (e2, out2) = set_status n Finished e1 in (e2, out1 @ out2))
                  else (case session_at e1 (t_session t) of
                      None \<Rightarrow> (e1, out1)
                    | Some ss \<Rightarrow>
                        (e1, out1 @ (if timeout > 0 then [StartConnectTimeout n timeout] else [])
                           @ [StartCall n ''GA_connect'' [JObj (get_params (e_version e1) ss)]]))))
       else if t_status t = Active \<and> session_connected e (t_session t) then set_status n Finished e
       else (e, []))"

definition payments_fetch :: "nat \<Rightarrow> string \<Rightarrow> engine \<Rightarrow> task_output list" where
  "payments_fetch n key e =
     [StartCall n ''GET https://ramps.blockstream.com/payments/transactions''
        (JStr (c_xpub_hash_id (e_context e)) # (if key \<noteq> [] then [JStr key] else []))]"

definition payments_update :: "nat \<Rightarrow> engine \<Rightarrow> engine \<times> task_output list" where
  "payments_update n e =
     (if status_of e n \<noteq> Some Ready then (e, [])
      else (let (e1, out) = set_status n Active e in (e1, out @ payments_fetch n [] e1)))"

text \<open>\<open>update\<close>, dispatched on the class.\<close>

definition task_update :: "engine \<Rightarrow> nat \<Rightarrow> engine \<times> task_output list" where
  "task_update e n = (case task_at e n of
     None \<Rightarrow> (e, [])
   | Some t \<Rightarrow> (case t_kind t of
       LoginTask details device \<Rightarrow>
         if session_ready e (t_session t) then set_status n Finished e else auth_update n e
     | SendTransactionTask d \<Rightarrow>
         if e_mock_send e then
           (let (e1, out1) = set_status n Active e; (e2, out2) = set_status n Finished e1
            in (e2, out1 @ out2))
         else auth_update n e
     | LoadTwoFactorConfigTask \<Rightarrow> wallet_update ''GA_get_twofactor_config'' n e
     | GetWatchOnlyDetailsTask \<Rightarrow> wallet_update ''GA_get_watch_only_username'' n e
     | LoadCurrenciesTask \<Rightarrow> guarded_update session_ready ''GA_get_available_currencies'' [] n e
     | SendNLocktimesTask \<Rightarrow> guarded_update session_ready ''GA_send_nlocktimes'' [] n e
     | GetSystemMessageTask \<Rightarrow> guarded_update session_ready ''GA_get_system_message'' [] n e
     | HttpRequestTask p \<Rightarrow> guarded_update session_connected ''GA_http_request'' [JObj p] n e
     | LoadAssetsTask refresh \<Rightarrow> load_assets_update refresh n e
     | SyncAccountsTask \<Rightarrow> sync_accounts_update n e
     | ConnectTask timeout \<Rightarrow> connect_update timeout n e
     | LoadPaymentsTask \<Rightarrow> payments_update n e
     | _ \<Rightarrow> auth_update n e))"

section \<open>Two-step calls\<close>

definition set_result :: "nat \<Rightarrow> jobject \<Rightarrow> engine \<Rightarrow> engine \<times> task_output list" where
  "set_result n v e = (case task_at e n of
     None \<Rightarrow> (e, [])
   | Some t \<Rightarrow> if t_result t = v then (e, [])
       else (modify_task n (\<lambda>t. t\<lparr>t_result := v\<rparr>) e, [ResultChanged n]))"

text \<open>The prompts and resolvers handed to the setters are new objects.\<close>

definition set_prompt :: "nat \<Rightarrow> prompt \<Rightarrow> engine \<Rightarrow> engine \<times> task_output list" where
  "set_prompt n p e = (modify_task n (\<lambda>t. t\<lparr>t_prompt := Some p\<rparr>) e, [PromptChanged n])"

definition set_resolver :: "nat \<Rightarrow> resolver \<Rightarrow> engine \<Rightarrow> engine \<times> task_output list" where
  "set_resolver n r e = (modify_task n (\<lambda>t. t\<lparr>t_resolver := Some r\<rparr>) e, [ResolverChanged n])"

definition clear_resolver :: "nat \<Rightarrow> engine \<Rightarrow> engine \<times> task_output list" where
  "clear_resolver n e = (case task_at e n of
     None \<Rightarrow> (e, [])
   | Some t \<Rightarrow> if t_resolver t = None then (e, [])
       else (modify_task n (\<lambda>t. t\<lparr>t_resolver := None\<rparr>) e, [ResolverChanged n]))"

text \<open>Sequencing of steps that emit outputs.\<close>

definition also_do :: "engine \<times> task_output list \<Rightarrow> (engine \<Rightarrow> engine \<times> task_output list)
    \<Rightarrow> engine \<times> task_output list" where
  "also_do r f = (let (e, out) = r; (e', out') = f e in (e', out @ out'))"

definition fail_with :: "nat \<Rightarrow> string \<Rightarrow> engine \<Rightarrow> engine \<times> task_output list" where
  "fail_with n err e = also_do (set_error n err e) (set_status n Failed)"

definition base_handle_done :: "nat \<Rightarrow> jobject \<Rightarrow> engine \<Rightarrow> engine \<times> task_output list" where
  "base_handle_done n result e = also_do (set_result n result e) (set_status n Finished)"

text \<open>The identities the library reports after registration and login.\<close>

definition set_hash_ids :: "nat \<Rightarrow> nat \<Rightarrow> jobject \<Rightarrow> engine \<Rightarrow> engine \<times> task_output list" where
  "set_hash_ids n s result e =
     (let r = to_object (jvalue result ''result'');
          (e1, out) = session_do s (set_wallet_hash_id (to_string (jvalue r ''wallet_hash_id''))) e;
          x = to_string (jvalue r ''xpub_hash_id'')
      in (e1\<lparr>e_context := (e_context e1)\<lparr>c_xpub_hash_id := x\<rparr>\<rparr>,
          out @ [ContextCall n ''setXPubHashId'' [JStr x]]))"

definition session_network_id :: "engine \<Rightarrow> nat \<Rightarrow> string" where
  "session_network_id e s = (case session_at e s of None \<Rightarrow> [] | Some ss \<Rightarrow> n_id (s_network ss))"

text \<open>
  \<open>handleDone\<close> of each class that has its own, for a task \<open>n\<close> of session \<open>s\<close>;
  \<open>gs\<close> is what \<open>gdk::get_settings\<close> returns.
\<close>

definition register_done :: "nat \<Rightarrow> nat \<Rightarrow> jobject \<Rightarrow> engine \<Rightarrow> engine \<times> task_output list" where
  "register_done n s result e = also_do (set_hash_ids n s result e) (base_handle_done n result)"

definition login_done :: "nat \<Rightarrow> nat \<Rightarrow> jobject \<Rightarrow> engine \<Rightarrow> engine \<times> task_output list" where
  "login_done n s result e =
     also_do (also_do (session_do s (\<lambda>ss. (ss\<lparr>s_ready := True\<rparr>, [])) e) (set_hash_ids n s result))
       (base_handle_done n result)"

definition load_account_done :: "nat \<Rightarrow> nat \<Rightarrow> jobject \<Rightarrow> engine \<Rightarrow> engine \<times> task_output list" where
  "load_account_done n s result e =
     also_do (e, [ContextCall n ''getOrCreateAccount'' [JStr (session_network_id e s), JObj (result_object result)]])
       (set_status n Finished)"

definition load_accounts_done :: "nat \<Rightarrow> nat \<Rightarrow> jobject \<Rightarrow> engine \<Rightarrow> engine \<times> task_output list" where
  "load_accounts_done n s result e =
     also_do (e, map (\<lambda>v. ContextCall n ''getOrCreateAccount'' [JStr (session_network_id e s), JObj (to_object v)])
                (to_array (jvalue (result_object result) ''subaccounts'')))
       (set_status n Finished)"

definition load_balance_done :: "nat \<Rightarrow> int \<Rightarrow> jobject \<Rightarrow> engine \<Rightarrow> engine \<times> task_output list" where
  "load_balance_done n pointer result e =
     also_do (e, [ContextCall n ''setBalanceData'' [JInt pointer, JObj (result_object result)]])
       (set_status n Finished)"

definition create_account_done :: "nat \<Rightarrow> jobject \<Rightarrow> engine \<Rightarrow> engine \<times> task_output list" where
  "create_account_done n result e =
     also_do (modify_task n
         (\<lambda>t. t\<lparr>t_output := JInt (to_uint32 (jvalue (result_object result) ''pointer''))\<rparr>) e, [])
       (set_status n Finished)"

definition set_csv_time_done :: "jobject \<Rightarrow> nat \<Rightarrow> nat \<Rightarrow> jobject \<Rightarrow> engine \<Rightarrow> engine \<times> task_output list" where
  "set_csv_time_done gs n s result e =
     also_do (session_do s (set_settings gs) e) (base_handle_done n result)"

definition change_settings_done :: "jobject \<Rightarrow> nat \<Rightarrow> nat \<Rightarrow> jobject \<Rightarrow> engine \<Rightarrow> engine \<times> task_output list" where
  "change_settings_done gs n s result e =
     also_do (if gs \<noteq> [] then session_do s (set_settings gs) e else (e, [])) (base_handle_done n result)"

definition get_credentials_done :: "nat \<Rightarrow> jobject \<Rightarrow> engine \<Rightarrow> engine \<times> task_output list" where
  "get_credentials_done n result e =
     also_do (e\<lparr>e_context := (e_context e)\<lparr>c_credentials := result_object result\<rparr>\<rparr>,
              [ContextCall n ''setCredentials'' [JObj (result_object result)]])
       (base_handle_done n result)"

lemmas done_defs = register_done_def login_done_def load_account_done_def load_accounts_done_def
  load_balance_done_def create_account_done_def set_csv_time_done_def change_settings_done_def
  get_credentials_done_def

definition handle_done :: "jobject \<Rightarrow> nat \<Rightarrow> jobject \<Rightarrow> engine \<Rightarrow> engine \<times> task_output list" where
  "handle_done gs n result e = (case task_at e n of
     None \<Rightarrow> (e, [])
   | Some t \<Rightarrow> (case t_kind t of
       RegisterUserTask details device \<Rightarrow> register_done n (t_session t) result e
     | LoginTask details device \<Rightarrow> login_done n (t_session t) result e
     | LoadAccountTask p \<Rightarrow> load_account_done n (t_session t) result e
     | LoadAccountsTask refresh \<Rightarrow> load_accounts_done n (t_session t) result e
     | LoadBalanceTask p \<Rightarrow> load_balance_done n p result e
     | CreateAccountTask d \<Rightarrow> create_account_done n result e
     | SetCsvTimeTask v \<Rightarrow> set_csv_time_done gs n (t_session t) result e
     | ChangeSettingsTask d \<Rightarrow> change_settings_done gs n (t_session t) result e
     | GetCredentialsTask \<Rightarrow> get_credentials_done n result e
     | _ \<Rightarrow> base_handle_done n result e))"

definition handle_error :: "nat \<Rightarrow> jobject \<Rightarrow> engine \<Rightarrow> engine \<times> task_output list" where
  "handle_error n result e = (case task_at e n of
     None \<Rightarrow> (e, [])
   | Some t \<Rightarrow>
       (let error = to_string (jvalue result ''error'')
        in also_do (also_do
             (if error = ''id_connection_failed'' then session_do (t_session t) (set_connected False) e
              else (e, []))
             (set_result n result)) (fail_with n error)))"

definition handle_request_code :: "nat \<Rightarrow> jobject \<Rightarrow> engine \<Rightarrow> engine \<times> task_output list" where
  "handle_request_code n result e = (case to_array (jvalue result ''methods'') of
     [m] \<Rightarrow> (e, [StartRequestCode n (to_string m)])
   | _ \<Rightarrow> set_prompt n (CodePrompt 0 result) e)"

definition resolver_for :: "string \<Rightarrow> bool \<Rightarrow> resolver option" where
  "resolver_for action liquid =
     (if action = ''get_xpubs'' then Some GetXPubsResolver
      else if action = ''sign_message'' then Some SignMessageResolver
      else if action = ''get_blinding_public_keys'' then Some BlindingKeysResolver
      else if action = ''get_blinding_nonces'' then Some BlindingNoncesResolver
      else if action = ''sign_tx'' then
        Some (if liquid then SignLiquidTransactionResolver else SignTransactionResolver)
      else if action = ''get_master_blinding_key'' then Some GetMasterBlindingKeyResolver
      else if action = ''get_blinding_factors'' then Some GetBlindingFactorsResolver
      else None)"

definition code_prompt_method :: "jobject \<Rightarrow> string" where
  "code_prompt_method result = to_string (jvalue result ''method'')"

text \<open>\<open>CodePrompt::setResult\<close>.\<close>

definition code_prompt_set_result :: "nat \<Rightarrow> int \<Rightarrow> jobject \<Rightarrow> engine \<Rightarrow> engine \<times> task_output list" where
  "code_prompt_set_result n attempts result e =
     (modify_task n (\<lambda>t. t\<lparr>t_prompt := Some (CodePrompt attempts result)\<rparr>) e,
      PromptResultChanged n # (if attempts > 0 then [InvalidCode n] else []))"

text \<open>The device a request is for: none, or one unlocked as another wallet, asks the user.\<close>

definition wrong_device :: "task_context \<Rightarrow> bool" where
  "wrong_device c \<longleftrightarrow> (case c_device c of
     None \<Rightarrow> True
   | Some (Some x) \<Rightarrow> c_xpub_hash_id c \<noteq> [] \<and> x \<noteq> c_xpub_hash_id c
   | Some None \<Rightarrow> False)"

definition handle_resolve_code :: "nat \<Rightarrow> jobject \<Rightarrow> engine \<Rightarrow> engine \<times> task_output list" where
  "handle_resolve_code n result e = (case task_at e n of
     None \<Rightarrow> (e, [])
   | Some t \<Rightarrow>
       if jcontains result ''method'' then
         (case t_prompt t of
            Some (CodePrompt attempts old) \<Rightarrow>
              if code_prompt_method old = [] \<or>
                 code_prompt_method old = to_string (jvalue result ''method'')
              then code_prompt_set_result n attempts result e
              else set_prompt n (CodePrompt 0 result) e
          | _ \<Rightarrow> set_prompt n (CodePrompt 0 result) e)
       else if jcontains result ''required_data'' then
         (if wrong_device (e_context e) then set_prompt n (DevicePrompt result) e
          else (case resolver_for
                  (to_string (jvalue (to_object (jvalue result ''required_data'')) ''action''))
                  (session_liquid e (t_session t)) of
              None \<Rightarrow> (e, [Unreachable n])
            | Some r \<Rightarrow> also_do (e, [StartResolver n r]) (set_resolver n r)))
       else (e, [Unreachable n]))"

text \<open>
  \<open>AuthHandlerTask::next\<close>; \<open>st\<close> is what \<open>GA_auth_handler_get_status\<close> returns, \<open>None\<close>
  for an error code.
\<close>

definition auth_next :: "jobject option \<Rightarrow> jobject \<Rightarrow> nat \<Rightarrow> engine \<Rightarrow> engine \<times> task_output list" where
  "auth_next st gs n e = (case task_at e n of
     None \<Rightarrow> (e, [])
   | Some t \<Rightarrow>
       if \<not> t_auth_handler t then set_status n Finished e
       else (case st of
           None \<Rightarrow> set_status n Failed e
         | Some result \<Rightarrow>
             (let status = to_string (jvalue result ''status'') in
              also_do (e, [TaskUpdated n])
                (if status = ''done'' then handle_done gs n result
                 else if status = ''error'' then handle_error n result
                 else if status = ''request_code'' then handle_request_code n result
                 else if status = ''resolve_code'' then handle_resolve_code n result
                 else if status = ''call'' then (\<lambda>e. (e, [StartAuthHandlerCall n]))
                 else (\<lambda>e. (e, [Unreachable n]))))))"

text \<open>
  The continuations: of the first call (\<open>made\<close>: it produced a handler), of requesting,
  resolving and calling, of a resolver, and of the prompts.
\<close>

definition auth_call_returned :: "bool \<Rightarrow> bool \<Rightarrow> string \<Rightarrow> jobject option \<Rightarrow> jobject \<Rightarrow> nat \<Rightarrow> engine
    \<Rightarrow> engine \<times> task_output list" where
  "auth_call_returned ok made error st gs n e =
     (let e1 = modify_task n (\<lambda>t. t\<lparr>t_auth_handler := t_auth_handler t \<or> made\<rparr>) e
      in if ok then auth_next st gs n e1
         else if error = ''id_you_are_not_connected'' then set_status n Ready e1
         else fail_with n error e1)"

definition auth_continue :: "bool \<Rightarrow> jobject option \<Rightarrow> jobject \<Rightarrow> nat \<Rightarrow> engine
    \<Rightarrow> engine \<times> task_output list" where
  "auth_continue ok st gs n e = (if ok then auth_next st gs n e else set_status n Failed e)"

definition resolver_resolved :: "json \<Rightarrow> nat \<Rightarrow> engine \<Rightarrow> engine \<times> task_output list" where
  "resolver_resolved data n e = also_do (clear_resolver n e) (\<lambda>e. (e, [StartResolveCode n data]))"

definition resolver_failed :: "string \<Rightarrow> nat \<Rightarrow> engine \<Rightarrow> engine \<times> task_output list" where
  "resolver_failed error n e = also_do (clear_resolver n e) (fail_with n error)"

definition code_prompt_select :: "string \<Rightarrow> nat \<Rightarrow> engine \<Rightarrow> engine \<times> task_output list" where
  "code_prompt_select m n e = (e, [StartRequestCode n m])"

definition code_prompt_resolve :: "string \<Rightarrow> nat \<Rightarrow> engine \<Rightarrow> engine \<times> task_output list" where
  "code_prompt_resolve code n e = (case task_at e n of
     None \<Rightarrow> (e, [])
   | Some t \<Rightarrow> (case t_prompt t of
       Some (CodePrompt attempts r) \<Rightarrow>
         (modify_task n (\<lambda>t. t\<lparr>t_prompt := Some (CodePrompt (attempts + 1) r)\<rparr>) e,
          [StartResolveCode n (JStr code)])
     | _ \<Rightarrow> (e, [])))"

definition device_prompt_select :: "string option \<Rightarrow> nat \<Rightarrow> engine \<Rightarrow> engine \<times> task_output list" where
  "device_prompt_select dev n e = (case task_at e n of
     None \<Rightarrow> (e, [])
   | Some t \<Rightarrow> (case t_prompt t of
       Some (DevicePrompt r) \<Rightarrow>
         if dev = Some (c_xpub_hash_id (e_context e)) then
           handle_resolve_code n r (e\<lparr>e_context := (e_context e)\<lparr>c_device := Some dev\<rparr>\<rparr>)
         else (e, [])
     | _ \<Rightarrow> (e, [])))"

section \<open>Answers of the plain tasks\<close>

datatype plain_outcome =
    GotConfig jobject
  | GotCurrencies jobject
  | GotUsername "string option"
  | GotLocktimes "jobject option" string
  | AssetsRefreshed bool
  | GotAssets "(jobject \<times> jobject) option"
  | GotMessage "string option"
  | GotResponse "jobject option"

definition asset_call :: "nat \<Rightarrow> jobject \<Rightarrow> string \<times> json \<Rightarrow> task_output" where
  "asset_call n icons p = (case p of (i, v) \<Rightarrow>
     (let icon = to_string (jvalue icons i)
      in ContextCall n ''getOrCreateAsset'' ([JStr i, JObj (to_object v)] @
           (if icon \<noteq> [] then [JStr (''data:image/png;base64,'' @ icon)] else []))))"

definition got_config :: "nat \<Rightarrow> nat \<Rightarrow> jobject \<Rightarrow> engine \<Rightarrow> engine \<times> task_output list" where
  "got_config n s c e = also_do (session_do s (set_config c) e) (set_status n Finished)"

definition got_currencies :: "nat \<Rightarrow> nat \<Rightarrow> jobject \<Rightarrow> engine \<Rightarrow> engine \<times> task_output list" where
  "got_currencies n s c e = also_do (session_do s (set_currencies c) e) (set_status n Finished)"

definition got_username :: "nat \<Rightarrow> nat \<Rightarrow> string option \<Rightarrow> engine \<Rightarrow> engine \<times> task_output list" where
  "got_username n s u e = (case u of
     None \<Rightarrow> set_status n Failed e
   | Some name \<Rightarrow> also_do (session_do s (set_username name) e) (set_status n Finished))"

definition got_locktimes :: "nat \<Rightarrow> nat \<Rightarrow> jobject option \<Rightarrow> string \<Rightarrow> engine \<Rightarrow> engine \<times> task_output list" where
  "got_locktimes n s r details e = (case r of
     None \<Rightarrow> fail_with n details e
   | Some v \<Rightarrow> also_do (session_do s (set_settings v) e) (set_status n Finished))"

definition got_assets :: "nat \<Rightarrow> (jobject \<times> jobject) option \<Rightarrow> engine \<Rightarrow> engine \<times> task_output list" where
  "got_assets n r e = (case r of
     None \<Rightarrow> set_status n Failed e
   | Some (assets, icons) \<Rightarrow> also_do (e, map (asset_call n icons) assets) (set_status n Finished))"

definition got_message :: "nat \<Rightarrow> string option \<Rightarrow> engine \<Rightarrow> engine \<times> task_output list" where
  "got_message n r e = (case r of
     None \<Rightarrow> set_status n Failed e
   | Some m \<Rightarrow> also_do (modify_task n (\<lambda>t. t\<lparr>t_output := JStr m\<rparr>) e, []) (set_status n Finished))"

definition got_response :: "nat \<Rightarrow> jobject option \<Rightarrow> engine \<Rightarrow> engine \<times> task_output list" where
  "got_response n r e = (case r of
     None \<Rightarrow> set_status n Failed e
   | Some v \<Rightarrow> also_do (modify_task n (\<lambda>t. t\<lparr>t_output := JObj v\<rparr>) e, []) (set_status n Finished))"

lemmas got_defs = got_config_def got_currencies_def got_username_def got_locktimes_def got_assets_def
  got_message_def got_response_def

definition plain_returned :: "plain_outcome \<Rightarrow> nat \<Rightarrow> engine \<Rightarrow> engine \<times> task_output list" where
  "plain_returned r n e = (case task_at e n of
     None \<Rightarrow> (e, [])
   | Some t \<Rightarrow> (case r of
       GotConfig c \<Rightarrow> got_config n (t_session t) c e
     | GotCurrencies c \<Rightarrow> got_currencies n (t_session t) c e
     | GotUsername u \<Rightarrow> got_username n (t_session t) u e
     | GotLocktimes v details \<Rightarrow> got_locktimes n (t_session t) v details e
     | AssetsRefreshed ok \<Rightarrow> if ok then (e, [get_assets_call n]) else set_status n Failed e
     | GotAssets v \<Rightarrow> got_assets n v e
     | GotMessage m \<Rightarrow> got_message n m e
     | GotResponse v \<Rightarrow> got_response n v e))"

text \<open>\<open>QString::contains\<close>.\<close>

definition connect_returned :: "string \<Rightarrow> nat \<Rightarrow> engine \<Rightarrow> engine \<times> task_output list" where
  "connect_returned error n e =
     (if status_of e n \<noteq> Some Active then (e, [])
      else if contains_text ''session already connected'' error then set_status n Finished e
      else also_do (set_error n error e) (if error \<noteq> [] then set_status n Failed else (\<lambda>e. (e, []))))"

definition connect_timeout :: "nat \<Rightarrow> engine \<Rightarrow> engine \<times> task_output list" where
  "connect_timeout n e = (case task_at e n of
     None \<Rightarrow> (e, [])
   | Some t \<Rightarrow>
       if t_status t = Active \<and> \<not> session_connected e (t_session t)
       then fail_with n ''timeout error'' e else (e, []))"

text \<open>
  One page of payments: every entry with a key moves the cursor, the next page is fetched while
  the service says that some remain; a network error or another document ends the load.
\<close>

definition payment_cursor :: "string \<Rightarrow> json list \<Rightarrow> string" where
  "payment_cursor key txs = (case txs of
     [] \<Rightarrow> key | _ \<Rightarrow> to_string (jvalue (to_object (last txs)) ''key''))"

definition payment_call :: "nat \<Rightarrow> json \<Rightarrow> task_output" where
  "payment_call n v = (let d = to_object v
     in ContextCall n ''getOrCreatePayment'' [JStr (to_string (jvalue d ''id'')), JObj (qm_remove ''key'' d)])"

definition payments_returned :: "string \<Rightarrow> json option \<Rightarrow> nat \<Rightarrow> engine \<Rightarrow> engine \<times> task_output list" where
  "payments_returned key reply n e = (case reply of
     Some (JObj response) \<Rightarrow>
       (let txs = to_array (jvalue response ''transactions'');
            calls = map (payment_call n) txs
        in if to_int (jvalue response ''remaining'') > 0
           then (e, calls @ payments_fetch n (payment_cursor key txs) e)
           else also_do (e, calls) (set_status n Finished))
   | _ \<Rightarrow> set_status n Finished e)"

text \<open>Setters of the details a task is given later.\<close>

definition set_plaintext :: "nat \<Rightarrow> json \<Rightarrow> engine \<Rightarrow> engine" where
  "set_plaintext n v e = (case task_at e n of
     None \<Rightarrow> e
   | Some t \<Rightarrow> (case t_kind t of
       EncryptWithPinTask pin old \<Rightarrow>
         if old = v then e
         else task_dispatch n (modify_task n (\<lambda>t. t\<lparr>t_kind := EncryptWithPinTask pin v\<rparr>) e)
     | _ \<Rightarrow> e))"

definition set_details :: "nat \<Rightarrow> jobject \<Rightarrow> engine \<Rightarrow> engine" where
  "set_details n d e = modify_task n (\<lambda>t. t\<lparr>t_kind := (case t_kind t of
       SignTransactionTask old \<Rightarrow> SignTransactionTask d
     | SendTransactionTask old \<Rightarrow> SendTransactionTask d
     | k \<Rightarrow> k)\<rparr>) e"

end
