(* ===== verification/Task_Groups.thy ===== *)
theory Task_Groups
  imports Task_Kinds
begin

text \<open>
  Groups of tasks, the dispatcher and the monitor (\<open>TaskGroup\<close>, \<open>TaskDispatcher\<close>,
  \<open>TaskGroupMonitor\<close> in \<open>src/task.cpp\<close>), and the step function of the whole engine.
\<close>

section \<open>Groups\<close>

definition group_set_name :: "nat \<Rightarrow> string \<Rightarrow> engine \<Rightarrow> engine \<times> task_output list" where
  "group_set_name g name e = (case group_at e g of
     None \<Rightarrow> (e, [])
   | Some gr \<Rightarrow> if g_name gr = name then (e, [])
       else (modify_group g (\<lambda>gr. gr\<lparr>g_name := name\<rparr>) e, [GroupNameChanged g]))"

definition group_set_status :: "nat \<Rightarrow> status \<Rightarrow> engine \<Rightarrow> engine \<times> task_output list" where
  "group_set_status g st e = (case group_at e g of
     None \<Rightarrow> (e, [])
   | Some gr \<Rightarrow> if g_status gr = st then (e, [])
       else (modify_group g (\<lambda>gr. gr\<lparr>g_status := st\<rparr>) e,
             GroupStatusChanged g # (if st = Finished then [GroupFinished g] else [])
               @ (if st = Failed then [GroupFailed g] else [])))"

definition group_add :: "nat \<Rightarrow> nat \<Rightarrow> engine \<Rightarrow> engine \<times> task_output list" where
  "group_add g n e = (case group_at e g of
     None \<Rightarrow> (e, [])
   | Some gr \<Rightarrow> if n \<in> set (g_tasks gr) then (e, [])
       else (group_dispatch g (modify_task n (\<lambda>t. t\<lparr>t_group := Some g\<rparr>)
               (modify_group g (\<lambda>gr. gr\<lparr>g_tasks := g_tasks gr @ [n]\<rparr>) e)),
             [GroupTasksChanged g]))"

definition group_remove :: "nat \<Rightarrow> nat \<Rightarrow> engine \<Rightarrow> engine \<times> task_output list" where
  "group_remove g n e = (case group_at e g of
     None \<Rightarrow> (e, [])
   | Some gr \<Rightarrow> if n \<notin> set (g_tasks gr) then (e, [])
       else (group_dispatch g (modify_task n (\<lambda>t. t\<lparr>t_group := None\<rparr>)
               (modify_group g (\<lambda>gr. gr\<lparr>g_tasks := remove1 n (g_tasks gr)\<rparr>) e)),
             [GroupTasksChanged g]))"

text \<open>The body of the last loop of \<open>TaskGroup::update\<close>.\<close>

definition update_one :: "engine \<Rightarrow> nat \<Rightarrow> engine \<times> task_output list" where
  "update_one e n = (case task_at e n of
     None \<Rightarrow> (e, [])
   | Some t \<Rightarrow>
       if (t_status t = Ready \<or> t_status t = Active) \<and>
          list_all (\<lambda>d. status_of e d = Some Finished) (t_inputs t)
       then (let (e1, out) = task_update e n in (e1, UpdateTask n # out))
       else (e, []))"

definition group_update :: "engine \<Rightarrow> nat \<Rightarrow> engine \<times> task_output list" where
  "group_update e g = (case group_at e g of
     None \<Rightarrow> (e, [])
   | Some gr \<Rightarrow>
       if g_status gr = Failed then (e, [])
       else
         (let ts = g_tasks gr;
              any_failed = list_ex (\<lambda>n. status_of e n = Some Failed) ts;
              any_active = list_ex (\<lambda>n. status_of e n = Some Active) ts;
              all_finished = list_all (\<lambda>n. status_of e n = Some Finished) ts
          in if all_finished then group_set_status g Finished e
             else if any_failed then also_do (fail_tasks ts e) (group_set_status g Failed)
             else also_do (if any_active then group_set_status g Active e else (e, []))
                    (\<lambda>e. run update_one e ts)))"

section \<open>The dispatcher\<close>

definition set_busy :: "bool \<Rightarrow> engine \<Rightarrow> engine \<times> task_output list" where
  "set_busy b e = (if e_busy e = b then (e, []) else (e\<lparr>e_busy := b\<rparr>, [BusyChanged]))"

definition group_tasks :: "engine \<Rightarrow> nat \<Rightarrow> nat list" where
  "group_tasks e g = (case group_at e g of None \<Rightarrow> [] | Some gr \<Rightarrow> g_tasks gr)"

definition update_busy :: "engine \<Rightarrow> engine \<times> task_output list" where
  "update_busy e = set_busy
     (list_ex (\<lambda>g. list_ex (\<lambda>n. status_of e n = Some Active) (group_tasks e g)) (e_queue e)) e"

definition dispatcher_add :: "nat \<Rightarrow> engine \<Rightarrow> engine \<times> task_output list" where
  "dispatcher_add g e = (if g \<in> set (e_queue e) then (e, [])
     else (dispatcher_dispatch (modify_group g (\<lambda>gr. gr\<lparr>g_dispatcher := True\<rparr>)
             (e\<lparr>e_queue := g # e_queue e\<rparr>)), [GroupsChanged]))"

text \<open>\<open>add(name, task)\<close> makes a group for the one task, which it returns here as its index.\<close>

definition dispatcher_add_task :: "string \<Rightarrow> nat \<Rightarrow> engine \<Rightarrow> engine \<times> task_output list" where
  "dispatcher_add_task name n e =
     (let g = length (e_groups e); e1 = e\<lparr>e_groups := e_groups e @ [new_group []]\<rparr>
      in also_do (also_do (group_set_name g name e1) (group_add g n)) (dispatcher_add g))"

definition dispatcher_remove :: "nat \<Rightarrow> engine \<Rightarrow> engine \<times> task_output list" where
  "dispatcher_remove g e = (if g \<notin> set (e_queue e) then (e, [])
     else (dispatcher_dispatch (modify_group g (\<lambda>gr. gr\<lparr>g_dispatcher := False\<rparr>)
             (e\<lparr>e_queue := remove1 g (e_queue e)\<rparr>)), [GroupsChanged]))"

definition dispatcher_update :: "engine \<Rightarrow> engine \<times> task_output list" where
  "dispatcher_update e = run group_update e (e_queue e)"

definition dispatch_timer_event :: "engine \<Rightarrow> engine \<times> task_output list" where
  "dispatch_timer_event e = (if e_dispatch_timer e
     then also_do (dispatcher_update (e\<lparr>e_dispatch_timer := False\<rparr>)) update_busy
     else (e, []))"

section \<open>The engine\<close>

text \<open>
  What can happen to an engine: objects made and linked by the program, the timers, the answers
  of the library and of the user, and notifications on a session.
\<close>

datatype engine_event =
    NewTask task_kind nat
  | NewGroup string
  | Needs nat nat
  | Then nat nat
  | GroupAdd nat nat
  | GroupRemove nat nat
  | DispatcherAdd nat
  | DispatcherAddTask string nat
  | DispatcherRemove nat
  | Tick
  | DispatchTimer
  | AuthCallReturned nat bool bool string "jobject option" jobject
  | AuthContinue nat bool "jobject option" jobject
  | ResolverResolved nat json
  | ResolverFailed nat string
  | CodePromptSelect nat string
  | CodePromptResolve nat string
  | DevicePromptSelect nat "string option"
  | PlainReturned nat plain_outcome
  | ConnectReturned nat string
  | ConnectTimeout nat
  | PaymentsReturned nat string "json option"
  | SetPlaintext nat json
  | SetDetails nat jobject
  | SessionDid nat session_event

fun engine_step :: "engine \<Rightarrow> engine_event \<Rightarrow> engine \<times> task_output list" where
  "engine_step e (NewTask k s) = (e\<lparr>e_tasks := e_tasks e @ [new_task k s]\<rparr>, [])"
| "engine_step e (NewGroup name) = (e\<lparr>e_groups := e_groups e @ [new_group name]\<rparr>, [])"
| "engine_step e (Needs n k) = (task_needs n k e, [])"
| "engine_step e (Then n k) = (fst (task_then n k e), [])"
| "engine_step e (GroupAdd g n) = group_add g n e"
| "engine_step e (GroupRemove g n) = group_remove g n e"
| "engine_step e (DispatcherAdd g) = dispatcher_add g e"
| "engine_step e (DispatcherAddTask name n) = dispatcher_add_task name n e"
| "engine_step e (DispatcherRemove g) = dispatcher_remove g e"
| "engine_step e Tick = (dispatcher_dispatch e, [])"
| "engine_step e DispatchTimer = dispatch_timer_event e"
| "engine_step e (AuthCallReturned n ok made error st gs) = auth_call_returned ok made error st gs n e"
| "engine_step e (AuthContinue n ok st gs) = auth_continue ok st gs n e"
| "engine_step e (ResolverResolved n data) = resolver_resolved data n e"
| "engine_step e (ResolverFailed n error) = resolver_failed error n e"
| "engine_step e (CodePromptSelect n m) = code_prompt_select m n e"
| "engine_step e (CodePromptResolve n code) = code_prompt_resolve code n e"
| "engine_step e (DevicePromptSelect n dev) = device_prompt_select dev n e"
| "engine_step e (PlainReturned n r) = plain_returned r n e"
| "engine_step e (ConnectReturned n error) = connect_returned error n e"
| "engine_step e (ConnectTimeout n) = connect_timeout n e"
| "engine_step e (PaymentsReturned n key r) = payments_returned key r n e"
| "engine_step e (SetPlaintext n v) = (set_plaintext n v e, [])"
| "engine_step e (SetDetails n d) = (set_details n d e, [])"
| "engine_step e (SessionDid s ev) = session_do s (\<lambda>ss. session_step ss ev) e"

section \<open>The monitor\<close>

text \<open>\<open>mon_connected\<close> lists the groups whose signals the monitor is connected to, one entry per connection.\<close>

record monitor =
  mon_groups :: "nat list"
  mon_connected :: "nat list"

datatype monitor_output = MonitorGroupsChanged | IdleChanged | AllFinishedOrFailed

definition monitor_idle :: "engine \<Rightarrow> monitor \<Rightarrow> bool" where
  "monitor_idle e m \<longleftrightarrow>
     list_all (\<lambda>g. map_option g_status (group_at e g) \<noteq> Some Active) (mon_groups m)"

text \<open>\<open>None\<close> is the violated assertion.\<close>

definition monitor_add :: "nat \<Rightarrow> monitor \<Rightarrow> (monitor \<times> monitor_output list) option" where
  "monitor_add g m = (if g \<in> set (mon_groups m) then None
     else Some (m\<lparr>mon_groups := mon_groups m @ [g], mon_connected := mon_connected m @ [g]\<rparr>,
                [MonitorGroupsChanged]))"

definition monitor_remove :: "nat \<Rightarrow> monitor \<Rightarrow> monitor \<times> monitor_output list" where
  "monitor_remove g m = (if g \<in> set (mon_groups m)
     then (m\<lparr>mon_groups := remove1 g (mon_groups m)\<rparr>,
           [MonitorGroupsChanged, IdleChanged] @
             (if remove1 g (mon_groups m) = [] then [AllFinishedOrFailed] else []))
     else (m, []))"

definition monitor_clear :: "monitor \<Rightarrow> monitor \<times> monitor_output list" where
  "monitor_clear m =
     (m\<lparr>mon_groups := []\<rparr>, [MonitorGroupsChanged, IdleChanged, AllFinishedOrFailed])"

text \<open>The slots connected to the signals of the groups.\<close>

definition monitor_hears :: "monitor \<Rightarrow> task_output \<Rightarrow> monitor \<times> monitor_output list" where
  "monitor_hears m out = (case out of
     GroupStatusChanged g \<Rightarrow> (m, map (\<lambda>_. IdleChanged) (filter (\<lambda>h. h = g) (mon_connected m)))
   | GroupFinished g \<Rightarrow> if g \<in> set (mon_connected m) then monitor_remove g m else (m, [])
   | GroupFailed g \<Rightarrow> if g \<in> set (mon_connected m) then monitor_remove g m else (m, [])
   | _ \<Rightarrow> (m, []))"

end
