(* ===== verification/Task_Facts.thy ===== *)
theory Task_Facts
  imports Task_Groups
begin

text \<open>
  Library of the task engine: what a status change leaves alone, the failure cascade as the code's
  recursion and as reachability, and the discipline of outputs every step keeps (a task is
  finished only when that has been signalled, and updated only after its inputs finished).
\<close>

section \<open>The store\<close>

lemma task_at_modify:
  "task_at (modify_task n f e) k = (if k = n then map_option f (task_at e k) else task_at e k)"
  by (auto simp: task_at_def modify_task_def)

lemma task_at_dispatch [simp]: "task_at (task_dispatch n e) = task_at e"
  by (simp add: fun_eq_iff task_at_def)

lemma task_at_put: "task_at (put_status n st e) k =
    (if k = n then map_option (\<lambda>t. t\<lparr>t_status := st\<rparr>) (task_at e k) else task_at e k)"
  by (simp add: put_status_def task_at_modify)

lemma status_of_put: "status_of (put_status n st e) k =
    (if k = n then map_option (\<lambda>_. st) (status_of e k) else status_of e k)"
  by (simp add: status_of_def task_at_put option.map_comp comp_def)

lemma status_of_dispatch [simp]: "status_of (task_dispatch n e) k = status_of e k"
  by (simp add: status_of_def)

lemma also_do_simps [simp]:
  "fst (also_do r f) = fst (f (fst r))" "snd (also_do r f) = snd r @ snd (f (fst r))"
  by (simp_all add: also_do_def case_prod_beta)

section \<open>Frames\<close>

text \<open>
  \<open>same_but_status\<close>: the tasks differ in their status alone, the rest of the engine but the
  dispatch timer not at all.
\<close>

definition blank :: "task \<Rightarrow> task" where
  "blank t = t\<lparr>t_status := Ready\<rparr>"

definition same_but_status :: "engine \<Rightarrow> engine \<Rightarrow> bool" where
  "same_but_status e e' \<longleftrightarrow> map blank (e_tasks e') = map blank (e_tasks e) \<and>
     e_groups e' = e_groups e \<and> e_queue e' = e_queue e \<and> e_sessions e' = e_sessions e \<and>
     e_context e' = e_context e \<and> e_busy e' = e_busy e \<and> e_tor_session e' = e_tor_session e \<and>
     e_version e' = e_version e \<and> e_mock_send e' = e_mock_send e"

lemma same_refl [simp]: "same_but_status e e"
  by (simp add: same_but_status_def)

lemma same_fields:
  assumes "same_but_status e e'"
  shows "e_groups e' = e_groups e" "e_queue e' = e_queue e" "e_sessions e' = e_sessions e"
    "e_context e' = e_context e" "e_busy e' = e_busy e" "e_tor_session e' = e_tor_session e"
    "e_version e' = e_version e" "e_mock_send e' = e_mock_send e"
    "length (e_tasks e') = length (e_tasks e)"
  using assms unfolding same_but_status_def by (auto dest: map_eq_imp_length_eq)

lemma same_trans: "same_but_status e1 e2 \<Longrightarrow> same_but_status e2 e3 \<Longrightarrow> same_but_status e1 e3"
  by (simp add: same_but_status_def)

lemma blank_eqD: "blank t' = blank t \<Longrightarrow> t' = t\<lparr>t_status := t_status t'\<rparr>"
proof -
  assume "blank t' = blank t"
  then have "(blank t')\<lparr>t_status := t_status t'\<rparr> = (blank t)\<lparr>t_status := t_status t'\<rparr>"
    by (rule arg_cong)
  then show ?thesis by (simp add: blank_def)
qed

lemma same_task:
  assumes "same_but_status e e'"
  shows "task_at e' n = map_option (\<lambda>t. t\<lparr>t_status := the (status_of e' n)\<rparr>) (task_at e n)"
proof (cases "n < length (e_tasks e)")
  case True
  have "map blank (e_tasks e') ! n = map blank (e_tasks e) ! n"
    using assms by (simp add: same_but_status_def)
  then have "blank (e_tasks e' ! n) = blank (e_tasks e ! n)"
    using True same_fields(9) [OF assms] by simp
  from blank_eqD [OF this] True same_fields(9) [OF assms] show ?thesis
    by (simp add: task_at_def status_of_def)
next
  case False
  with same_fields(9) [OF assms] show ?thesis by (simp add: task_at_def)
qed

lemma same_task_fields:
  assumes "same_but_status e e'"
  shows "map_option t_inputs (task_at e' n) = map_option t_inputs (task_at e n)"
    "map_option t_outputs (task_at e' n) = map_option t_outputs (task_at e n)"
    "map_option t_kind (task_at e' n) = map_option t_kind (task_at e n)"
    "map_option t_session (task_at e' n) = map_option t_session (task_at e n)"
    "map_option t_group (task_at e' n) = map_option t_group (task_at e n)"
    "map_option t_error (task_at e' n) = map_option t_error (task_at e n)"
  using same_task [OF assms, of n] by (cases "task_at e n"; simp)+

lemma same_put [simp]: "same_but_status e (put_status n st e)"
proof -
  have "map blank ((e_tasks e)[n := (e_tasks e ! n)\<lparr>t_status := st\<rparr>]) = map blank (e_tasks e)"
    by (cases "n < length (e_tasks e)")
      (auto simp: map_update blank_def list_update_same_conv list_update_beyond)
  then show ?thesis
    by (simp add: same_but_status_def put_status_def modify_task_def)
qed

lemma same_timer [simp]: "same_but_status e (dispatcher_dispatch e)"
  by (simp add: same_but_status_def dispatcher_dispatch_def)

text \<open>Whether a dispatch of the task reaches a dispatcher.\<close>

definition wakes :: "nat \<Rightarrow> engine \<Rightarrow> bool" where
  "wakes n e \<longleftrightarrow> (case task_at e n of
     None \<Rightarrow> False
   | Some t \<Rightarrow> (case t_group t of
       None \<Rightarrow> False
     | Some g \<Rightarrow> (case group_at e g of None \<Rightarrow> False | Some gr \<Rightarrow> g_dispatcher gr)))"

lemma task_dispatch_wakes: "task_dispatch n e = (if wakes n e then dispatcher_dispatch e else e)"
  by (simp add: task_dispatch_def group_dispatch_def wakes_def split: option.split)

lemma same_dispatch [simp]: "same_but_status e (task_dispatch n e)"
  by (simp add: task_dispatch_wakes)

lemma same_wakes: "same_but_status e e' \<Longrightarrow> wakes n e' = wakes n e"
  using same_fields(1) [of e e'] same_task_fields(5) [of e e' n]
  by (auto simp: wakes_def group_at_def split: option.splits)

lemma same_fail: "same_but_status e (fst (fail_tasks ns e))"
proof (induction ns e rule: fail_tasks.induct)
  case (2 n ns e)
  then show ?case
    by (auto simp: Let_def case_prod_beta intro: same_trans [OF same_put same_trans [OF same_dispatch]]
        split: option.split)
qed simp

lemma same_set_status: "same_but_status e (fst (set_status n st e))"
  by (auto simp: set_status_def same_fail intro: same_trans [OF same_put same_dispatch]
      simp del: fail_tasks.simps split: option.split)

section \<open>The failure cascade\<close>

lemma fail_tasks_append: "fail_tasks (ms @ ns) e = also_do (fail_tasks ms e) (fail_tasks ns)"
proof (induction ms e rule: fail_tasks.induct)
  case (1 e)
  show ?case by (simp add: also_do_def case_prod_beta)
next
  case (2 m ms e)
  then show ?case
    by (auto simp: also_do_def Let_def case_prod_beta split: option.split)
qed

lemma fail_tasks_run: "run (\<lambda>e n. fail_tasks [n] e) e ns = fail_tasks ns e"
proof (induction ns arbitrary: e)
  case (Cons n ns)
  have "fail_tasks ([n] @ ns) e = also_do (fail_tasks [n] e) (fail_tasks ns)"
    by (rule fail_tasks_append)
  with Cons show ?case
    by (simp add: run.simps(2) also_do_def case_prod_beta Let_def del: fail_tasks.simps run_Cons_fst run_Cons_snd)
qed simp

lemma set_status_fail: "set_status n Failed e = fail_tasks [n] e"
  by (simp add: set_status_def split: option.split)

text \<open>Arming the timer early or late is the same, so the dispatch can stand after the loop.\<close>

lemma timer_commutes:
  "put_status n st (dispatcher_dispatch e) = dispatcher_dispatch (put_status n st e)"
  "task_at (dispatcher_dispatch e) = task_at e"
  "group_at (dispatcher_dispatch e) = group_at e"
  "dispatcher_dispatch (dispatcher_dispatch e) = dispatcher_dispatch e"
  by (simp_all add: put_status_def modify_task_def dispatcher_dispatch_def task_at_def group_at_def fun_eq_iff)

lemma dispatch_commutes: "task_dispatch n (dispatcher_dispatch e) = dispatcher_dispatch (task_dispatch n e)"
  by (simp add: task_dispatch_def group_dispatch_def timer_commutes split: option.split)

lemma fail_timer:
  "fail_tasks ns (dispatcher_dispatch e) =
    (dispatcher_dispatch (fst (fail_tasks ns e)), snd (fail_tasks ns e))"
proof (induction ns e rule: fail_tasks.induct)
  case (2 n ns e)
  then show ?case
    by (auto simp: Let_def case_prod_beta timer_commutes dispatch_commutes split: option.split)
qed simp

lemma fail_dispatch:
  "fail_tasks ns (task_dispatch n e) = (task_dispatch n (fst (fail_tasks ns e)), snd (fail_tasks ns e))"
  using same_wakes [OF same_fail [of e ns], of n] by (simp add: task_dispatch_wakes fail_timer)

declare fail_tasks.simps(2) [simp del]

text \<open>The recursion of \<open>Task::setStatus\<close> as the code has it.\<close>

lemma set_status_failed:
  assumes "task_at e n = Some t" and "t_status t \<noteq> Failed"
  shows "set_status n Failed e =
    (let (e1, out) = run (\<lambda>e k. set_status k Failed e) (put_status n Failed e) (t_outputs t)
     in (task_dispatch n e1, TaskStatusChanged n # TaskFailed n (t_error t) # out))"
proof -
  from assms have "fail_tasks [n] e = (let (e1, out) = fail_tasks (t_outputs t) (task_dispatch n (put_status n Failed e))
      in (e1, TaskStatusChanged n # TaskFailed n (t_error t) # out))"
    by (simp add: fail_tasks.simps(2))
  then show ?thesis
    by (simp add: set_status_fail fail_tasks_run fail_dispatch case_prod_beta Let_def)
qed

section \<open>What fails with a task\<close>

definition live :: "engine \<Rightarrow> nat \<Rightarrow> bool" where
  "live e n \<longleftrightarrow> n < length (e_tasks e) \<and> status_of e n \<noteq> Some Failed"

definition outputs_of :: "engine \<Rightarrow> nat \<Rightarrow> nat list" where
  "outputs_of e n = (case task_at e n of None \<Rightarrow> [] | Some t \<Rightarrow> t_outputs t)"

text \<open>Reachable from \<open>ns\<close> along outputs, through tasks that have not failed.\<close>

inductive cascade :: "engine \<Rightarrow> nat list \<Rightarrow> nat \<Rightarrow> bool" for e ns where
  first: "n \<in> set ns \<Longrightarrow> live e n \<Longrightarrow> cascade e ns n"
| onward: "cascade e ns m \<Longrightarrow> k \<in> set (outputs_of e m) \<Longrightarrow> live e k \<Longrightarrow> cascade e ns k"

lemma cascade_live: "cascade e ns n \<Longrightarrow> live e n"
  by (induction rule: cascade.induct) auto

lemma live_task: "live e n \<longleftrightarrow> (\<exists>t. task_at e n = Some t \<and> t_status t \<noteq> Failed)"
  by (auto simp: live_def status_of_def task_at_def)

lemma live_step:
  "live (task_dispatch n (put_status n Failed e)) k \<longleftrightarrow> live e k \<and> k \<noteq> n"
  by (auto simp: live_task task_at_put split: if_splits)

lemma outputs_step: "outputs_of (task_dispatch n (put_status n Failed e)) k = outputs_of e k"
  by (auto simp: outputs_of_def task_at_put split: option.split)

lemma cascade_dead: "\<not> live e n \<Longrightarrow> cascade e (n # ns) k \<longleftrightarrow> cascade e ns k"
proof
  show "cascade e (n # ns) k \<Longrightarrow> \<not> live e n \<Longrightarrow> cascade e ns k"
    by (induction rule: cascade.induct) (auto intro: cascade.intros)
  show "cascade e ns k \<Longrightarrow> cascade e (n # ns) k"
    by (induction rule: cascade.induct) (auto intro: cascade.intros)
qed

lemma cascade_step:
  assumes "live e n"
  shows "cascade e (n # ns) k \<longleftrightarrow>
    k = n \<or> cascade (task_dispatch n (put_status n Failed e)) (outputs_of e n @ ns) k"
    (is "_ \<longleftrightarrow> k = n \<or> cascade ?e1 _ k")
proof
  show "cascade e (n # ns) k \<Longrightarrow> k = n \<or> cascade ?e1 (outputs_of e n @ ns) k"
  proof (induction rule: cascade.induct)
    case (first m)
    then show ?case by (auto intro: cascade.first simp: live_step)
  next
    case (onward m k)
    then show ?case
      by (cases "k = n") (auto intro: cascade.intros simp: live_step outputs_step)
  qed
  have n: "cascade e (n # ns) n" using assms by (auto intro: cascade.first)
  have "cascade ?e1 (outputs_of e n @ ns) k \<Longrightarrow> cascade e (n # ns) k"
  proof (induction rule: cascade.induct)
    case (first m)
    then show ?case by (auto simp: live_step intro: cascade.first cascade.onward [OF n])
  next
    case (onward m k)
    then show ?case by (auto simp: live_step outputs_step intro: cascade.onward)
  qed
  with n show "k = n \<or> cascade ?e1 (outputs_of e n @ ns) k \<Longrightarrow> cascade e (n # ns) k" by blast
qed

lemma cascade_Nil [simp]: "\<not> cascade e [] k"
proof
  assume "cascade e [] k"
  then show False by (induction rule: cascade.induct) auto
qed

lemma fail_status:
  "status_of (fst (fail_tasks ns e)) k = (if cascade e ns k then Some Failed else status_of e k)"
proof (induction ns e rule: fail_tasks.induct)
  case (2 n ns e)
  show ?case
  proof (cases "live e n")
    case True
    then obtain t where t: "task_at e n = Some t" "t_status t \<noteq> Failed" by (auto simp: live_task)
    then have out: "outputs_of e n = t_outputs t" by (simp add: outputs_of_def)
    from t 2(3) [OF t(1,2)] show ?thesis
      by (auto simp: fail_tasks.simps(2) case_prod_beta cascade_step [OF True] out status_of_put
          status_of_def [of e n])
  next
    case False
    with 2 show ?thesis
      by (auto simp: fail_tasks.simps(2) cascade_dead live_task split: option.split)
  qed
qed simp

definition reports :: "engine \<Rightarrow> nat \<Rightarrow> task_output set" where
  "reports e k = (case task_at e k of
     None \<Rightarrow> {} | Some t \<Rightarrow> {TaskStatusChanged k, TaskFailed k (t_error t)})"

lemma reports_step: "reports (task_dispatch n (put_status n Failed e)) = reports e"
  by (auto simp: reports_def task_at_put fun_eq_iff split: option.split)

lemma fail_reports: "set (snd (fail_tasks ns e)) = (\<Union>k \<in> {k. cascade e ns k}. reports e k)"
proof (induction ns e rule: fail_tasks.induct)
  case (2 n ns e)
  show ?case
  proof (cases "live e n")
    case True
    then obtain t where t: "task_at e n = Some t" "t_status t \<noteq> Failed" by (auto simp: live_task)
    let ?e1 = "task_dispatch n (put_status n Failed e)"
    have "{k. cascade e (n # ns) k} = insert n {k. cascade ?e1 (t_outputs t @ ns) k}"
      using cascade_step [OF True] t(1) by (auto simp: outputs_of_def)
    moreover have "set (snd (fail_tasks (n # ns) e))
        = reports e n \<union> set (snd (fail_tasks (t_outputs t @ ns) ?e1))"
      using t by (simp add: fail_tasks.simps(2) case_prod_beta reports_def)
    ultimately show ?thesis using 2(3) [OF t] by (simp add: reports_step)
  next
    case False
    with 2 show ?thesis
      by (auto simp: fail_tasks.simps(2) cascade_dead live_task split: option.split)
  qed
qed simp

section \<open>The discipline of outputs\<close>

text \<open>
  \<open>quiet e r\<close>: the step \<open>r\<close> from \<open>e\<close> signals every task it finishes, keeps the
  inputs of every task and runs no \<open>update\<close>.  \<open>disciplined e r\<close>: it may run updates, but
  only of tasks whose inputs have finished by then.
\<close>

definition honest :: "engine \<Rightarrow> engine \<times> task_output list \<Rightarrow> bool" where
  "honest e r \<longleftrightarrow> (\<forall>n. status_of (fst r) n = Some Finished \<longrightarrow>
     status_of e n = Some Finished \<or> TaskFinished n \<in> set (snd r))"

definition inputs_of :: "engine \<Rightarrow> nat \<Rightarrow> nat list" where
  "inputs_of e n = (case task_at e n of None \<Rightarrow> [] | Some t \<Rightarrow> t_inputs t)"

definition quiet :: "engine \<Rightarrow> engine \<times> task_output list \<Rightarrow> bool" where
  "quiet e r \<longleftrightarrow> honest e r \<and> inputs_of (fst r) = inputs_of e \<and> (\<forall>n. UpdateTask n \<notin> set (snd r))"

definition disciplined :: "engine \<Rightarrow> engine \<times> task_output list \<Rightarrow> bool" where
  "disciplined e r \<longleftrightarrow> honest e r \<and> inputs_of (fst r) = inputs_of e \<and>
     (\<forall>before n after. snd r = before @ UpdateTask n # after \<longrightarrow>
        (\<forall>d \<in> set (inputs_of e n). status_of e d = Some Finished \<or> TaskFinished d \<in> set before))"

lemma quiet_disciplined: "quiet e r \<Longrightarrow> disciplined e r"
  by (auto simp: quiet_def disciplined_def)

lemma quiet_also_do: "quiet e r \<Longrightarrow> quiet (fst r) (f (fst r)) \<Longrightarrow> quiet e (also_do r f)"
  unfolding quiet_def honest_def by auto

lemma disciplined_also_do:
  assumes "disciplined e r" and "disciplined (fst r) (f (fst r))"
  shows "disciplined e (also_do r f)"
  unfolding disciplined_def
proof (intro conjI allI impI ballI)
  show "honest e (also_do r f)"
    using assms unfolding disciplined_def honest_def by auto
  show "inputs_of (fst (also_do r f)) = inputs_of e"
    using assms unfolding disciplined_def by simp
  fix pre n post d
  assume "snd (also_do r f) = pre @ UpdateTask n # post" and d: "d \<in> set (inputs_of e n)"
  then have "snd r @ snd (f (fst r)) = pre @ UpdateTask n # post" by simp
  then consider (first) us where "snd r = pre @ UpdateTask n # us"
    | (second) us where "pre = snd r @ us" "snd (f (fst r)) = us @ UpdateTask n # post"
    unfolding append_eq_append_conv2 by (auto simp: append_eq_Cons_conv)
  then show "status_of e d = Some Finished \<or> TaskFinished d \<in> set pre"
  proof cases
    case first
    with assms(1) d show ?thesis unfolding disciplined_def by blast
  next
    case second
    from assms(1) have keep: "inputs_of (fst r) = inputs_of e" and "honest e r"
      unfolding disciplined_def by auto
    from assms(2) second(2) d keep
    have "status_of (fst r) d = Some Finished \<or> TaskFinished d \<in> set us"
      unfolding disciplined_def by metis
    with \<open>honest e r\<close> second(1) show ?thesis unfolding honest_def by auto
  qed
qed

lemma disciplined_run:
  "(\<And>e x. disciplined e (f e x)) \<Longrightarrow> disciplined e (run f e xs)"
proof (induction xs arbitrary: e)
  case Nil
  show ?case by (auto simp: disciplined_def honest_def)
next
  case (Cons x xs)
  have "run f e (x # xs) = also_do (f e x) (\<lambda>e. run f e xs)"
    by (simp add: run.simps(2) also_do_def case_prod_beta Let_def del: run_Cons_fst run_Cons_snd)
  with Cons disciplined_also_do show ?case by simp
qed

lemma quiet_case_pair: "(\<And>a b. p = (a, b) \<Longrightarrow> quiet e (f a b)) \<Longrightarrow> quiet e (case p of (a, b) \<Rightarrow> f a b)"
  by (cases p) simp

text \<open>Steps that leave the tasks alone, or change fields of theirs that do not matter here.\<close>

lemma inputs_of_tasks: "e_tasks e' = e_tasks e \<Longrightarrow> inputs_of e' = inputs_of e"
  by (simp add: inputs_of_def task_at_def fun_eq_iff)

lemma status_of_tasks: "e_tasks e' = e_tasks e \<Longrightarrow> status_of e' = status_of e"
  by (simp add: status_of_def task_at_def fun_eq_iff)

lemma quiet_tasks:
  "e_tasks (fst r) = e_tasks e \<Longrightarrow> (\<And>n. UpdateTask n \<notin> set (snd r)) \<Longrightarrow> quiet e r"
  using inputs_of_tasks [of "fst r" e] status_of_tasks [of "fst r" e]
  by (simp add: quiet_def honest_def)

lemma quiet_refl: "(\<And>n. UpdateTask n \<notin> set out) \<Longrightarrow> quiet e (e, out)"
  by (rule quiet_tasks) auto

lemma quiet_modify:
  assumes "\<And>t. t_status (f t) = t_status t" and "\<And>t. t_inputs (f t) = t_inputs t"
    and "\<And>n. UpdateTask n \<notin> set out"
  shows "quiet e (modify_task n f e, out)"
proof -
  have "status_of (modify_task n f e) = status_of e"
    using assms(1) by (auto simp: status_of_def task_at_modify fun_eq_iff option.map_comp comp_def)
  moreover have "inputs_of (modify_task n f e) = inputs_of e"
    using assms(2) by (auto simp: inputs_of_def task_at_modify fun_eq_iff split: option.split)
  ultimately show ?thesis using assms(3) by (simp add: quiet_def honest_def)
qed

lemma same_inputs: "same_but_status e e' \<Longrightarrow> inputs_of e' = inputs_of e"
  by (auto simp: inputs_of_def same_task fun_eq_iff split: option.split)

lemma fail_no_update: "UpdateTask k \<notin> set (snd (fail_tasks ns e))"
  by (simp add: fail_reports reports_def split: option.split)

lemma quiet_fail: "quiet e (fail_tasks ns e)"
  by (simp add: quiet_def honest_def fail_status fail_no_update same_inputs [OF same_fail])

lemma set_status_same: "status_of (fst (set_status n st e)) k =
    (if k = n \<and> status_of e n \<noteq> None \<and> st \<noteq> Failed then Some st
     else if st = Failed \<and> cascade e [n] k then Some Failed else status_of e k)"
proof (cases "st = Failed")
  case True
  then show ?thesis by (simp add: set_status_fail fail_status)
next
  case False
  then show ?thesis
    by (auto simp: set_status_def status_of_put status_of_def [of e n] split: option.split)
qed

lemma quiet_set_status: "quiet e (set_status n st e)"
proof (cases "st = Failed")
  case True
  then show ?thesis by (simp add: set_status_fail quiet_fail)
next
  case False
  then have "UpdateTask k \<notin> set (snd (set_status n st e))" for k
    by (simp add: set_status_def split: option.split)
  moreover have "TaskFinished n \<in> set (snd (set_status n Finished e))"
    if "status_of e n \<noteq> Some Finished" "status_of e n \<noteq> None"
    using that by (auto simp: set_status_def status_of_def split: option.split)
  ultimately show ?thesis
    using False by (auto simp: quiet_def honest_def set_status_same same_inputs [OF same_set_status]
        split: if_splits)
qed

lemma quiet_pair: "quiet e r \<Longrightarrow> (\<And>n. UpdateTask n \<notin> set out) \<Longrightarrow> quiet e (fst r, snd r @ out)"
  by (auto simp: quiet_def honest_def)

lemma quiet_set_error: "quiet e (set_error n err e)"
  by (auto simp: set_error_def intro!: quiet_modify quiet_refl split: option.split)

lemma quiet_set_result: "quiet e (set_result n v e)"
  by (auto simp: set_result_def intro!: quiet_modify quiet_refl split: option.split)

lemma quiet_prompt: "quiet e (set_prompt n p e)" "quiet e (set_resolver n r e)" "quiet e (clear_resolver n e)"
  by (auto simp: set_prompt_def set_resolver_def clear_resolver_def intro!: quiet_modify quiet_refl
      split: option.split)

lemma quiet_session_do: "quiet e (session_do s f e)"
  by (auto simp: session_do_def case_prod_beta Let_def intro!: quiet_tasks split: option.split)

lemmas quiet_intros = quiet_set_status quiet_set_error quiet_set_result quiet_prompt
  quiet_session_do quiet_also_do quiet_refl

lemma quiet_fail_with: "quiet e (fail_with n err e)"
  unfolding fail_with_def by (intro quiet_intros)

lemma quiet_base_done: "quiet e (base_handle_done n result e)"
  unfolding base_handle_done_def by (intro quiet_intros)

lemma quiet_hash_ids: "quiet e (set_hash_ids n s result e)"
proof -
  have "e_tasks (fst (session_do s f e)) = e_tasks e" for f
    by (simp add: session_do_def case_prod_beta Let_def split: option.split)
  moreover have "UpdateTask k \<notin> set (snd (session_do s f e))" for f k
    by (auto simp: session_do_def case_prod_beta Let_def split: option.split)
  ultimately show ?thesis
    by (auto simp: set_hash_ids_def case_prod_beta Let_def intro!: quiet_tasks)
qed


section \<open>Starting a task\<close>

text \<open>
  \<open>starts e n r\<close>: \<open>r\<close> moves task \<open>n\<close> alone, to active or finished, and otherwise only
  emits calls.
\<close>

definition starts :: "engine \<Rightarrow> nat \<Rightarrow> engine \<times> task_output list \<Rightarrow> bool" where
  "starts e n r \<longleftrightarrow> same_but_status e (fst r) \<and> quiet e r \<and>
     (\<forall>k. k \<noteq> n \<longrightarrow> status_of (fst r) k = status_of e k) \<and>
     (status_of (fst r) n = status_of e n \<or> status_of (fst r) n \<in> {Some Active, Some Finished})"

lemma starts_stay: "(\<And>k. UpdateTask k \<notin> set out) \<Longrightarrow> starts e n (e, out)"
  by (simp add: starts_def quiet_refl)

lemma starts_set: "st \<in> {Active, Finished} \<Longrightarrow> starts e n (set_status n st e)"
  by (auto simp: starts_def same_set_status quiet_set_status set_status_same)

lemma starts_then:
  assumes "starts e n r" and "starts (fst r) n r'"
  shows "starts e n (fst r', snd r @ snd r')"
  using assms unfolding starts_def quiet_def honest_def
  by (auto intro: same_trans)

lemma starts_out: "starts e n r \<Longrightarrow> (\<And>k. UpdateTask k \<notin> set out) \<Longrightarrow> starts e n (fst r, snd r @ out)"
  using starts_then [of e n r "(fst r, out)"] starts_stay [of out "fst r" n] by simp

lemma starts_auth: "starts e n (auth_update n e)"
  by (auto simp: auth_update_def case_prod_beta Let_def intro!: starts_stay starts_out starts_set
      split: option.split)

lemma starts_wallet: "starts e n (wallet_update f n e)"
  by (auto simp: wallet_update_def case_prod_beta Let_def intro!: starts_stay starts_out starts_set
      split: option.split)

lemma starts_guarded: "starts e n (guarded_update ok f args n e)"
  by (auto simp: guarded_update_def case_prod_beta Let_def intro!: starts_stay starts_out starts_set
      split: option.split)

lemma starts_assets: "starts e n (load_assets_update refresh n e)"
  by (auto simp: load_assets_update_def refresh_assets_call_def get_assets_call_def case_prod_beta Let_def intro!: starts_stay starts_out starts_set
      split: option.split)

lemma starts_two:
  "starts e n (fst (set_status n Finished (fst (set_status n Active e))),
     snd (set_status n Active e) @ snd (set_status n Finished (fst (set_status n Active e))))"
  by (rule starts_then) (rule starts_set, simp)+

lemma starts_self: "starts e n (set_status n Active e) \<and> starts e n (set_status n Finished e)"
  by (simp add: starts_set)

lemma starts_sync: "starts e n (sync_accounts_update n e)"
proof -
  have stay: "starts e n (e, [])" by (rule starts_stay) simp
  show ?thesis
    using starts_set [of Active e n] starts_set [of Finished e n] starts_two [of e n] stay
    by (auto simp: sync_accounts_update_def case_prod_beta Let_def split: option.split)
qed

lemma starts_connect: "starts e n (connect_update timeout n e)"
  by (auto simp: connect_update_def case_prod_beta Let_def
      intro!: starts_stay starts_out starts_set starts_two split: option.split bool.split)

lemma starts_payments: "starts e n (payments_update n e)"
  by (auto simp: payments_update_def payments_fetch_def case_prod_beta Let_def
      intro!: starts_stay starts_out starts_set)

lemma starts_update: "starts e n (task_update e n)"
proof (cases "task_at e n")
  case None
  then show ?thesis by (simp add: task_update_def starts_stay)
next
  case (Some t)
  then show ?thesis
    by (cases "t_kind t") (simp_all add: task_update_def starts_auth starts_wallet starts_guarded
        starts_assets starts_sync starts_connect starts_payments starts_set starts_two
        case_prod_beta Let_def)
qed

lemma quiet_update: "quiet e (task_update e n)"
  using starts_update by (simp add: starts_def)

lemma disciplined_update_one: "disciplined e (update_one e n)"
proof (cases "task_at e n")
  case None
  then show ?thesis by (simp add: update_one_def quiet_disciplined quiet_refl)
next
  case (Some t)
  let ?r = "task_update e n"
  have q: "quiet e ?r" by (rule quiet_update)
  show ?thesis
  proof (cases "(t_status t = Ready \<or> t_status t = Active) \<and>
      list_all (\<lambda>d. status_of e d = Some Finished) (t_inputs t)")
    case True
    then have r: "update_one e n = (fst ?r, UpdateTask n # snd ?r)"
      using Some by (simp add: update_one_def case_prod_beta)
    have inputs_done: "\<forall>d \<in> set (inputs_of e n). status_of e d = Some Finished"
      using True Some by (simp add: inputs_of_def list_all_iff)
    show ?thesis
      unfolding r disciplined_def
    proof (intro conjI allI impI)
      show "honest e (fst ?r, UpdateTask n # snd ?r)"
        using q by (auto simp: quiet_def honest_def)
      show "inputs_of (fst (fst ?r, UpdateTask n # snd ?r)) = inputs_of e"
        using q by (simp add: quiet_def)
      fix pre m post
      assume "snd (fst ?r, UpdateTask n # snd ?r) = pre @ UpdateTask m # post"
      then have "m = n \<or> UpdateTask m \<in> set (snd ?r)"
        by (cases pre) auto
      with q have "m = n" by (auto simp: quiet_def)
      with inputs_done show "\<forall>d \<in> set (inputs_of e m). status_of e d = Some Finished \<or> TaskFinished d \<in> set pre"
        by simp
    qed
  next
    case False
    with Some have "update_one e n = (e, [])" by (auto simp: update_one_def)
    then show ?thesis by (simp add: quiet_disciplined quiet_refl)
  qed
qed

lemma quiet_group_status: "quiet e (group_set_status g st e)"
  by (auto simp: group_set_status_def modify_group_def intro!: quiet_tasks split: option.split)

lemmas disciplined_quiet = quiet_disciplined [OF quiet_fail] quiet_disciplined [OF quiet_group_status]
  quiet_disciplined [OF quiet_refl]

lemma disciplined_group: "disciplined e (group_update e g)"
  unfolding group_update_def
  by (auto simp: Let_def intro!: disciplined_also_do disciplined_quiet disciplined_run
      disciplined_update_one split: option.split)

lemma disciplined_tasks: "e_tasks e1 = e_tasks e \<Longrightarrow> disciplined e1 r \<Longrightarrow> disciplined e r"
  using inputs_of_tasks [of e1 e] status_of_tasks [of e1 e]
  by (simp add: disciplined_def honest_def)

lemma disciplined_timer: "disciplined e (dispatch_timer_event e)"
proof -
  have "disciplined e (dispatcher_update (e\<lparr>e_dispatch_timer := False\<rparr>))"
    unfolding dispatcher_update_def
    by (rule disciplined_tasks [OF _ disciplined_run [OF disciplined_group]]) simp
  moreover have "disciplined e' (update_busy e')" for e'
    by (rule quiet_disciplined, rule quiet_tasks) (auto simp: update_busy_def set_busy_def)
  ultimately show ?thesis
    by (auto simp: dispatch_timer_event_def simp del: also_do_simps
        intro: disciplined_also_do disciplined_quiet)
qed

section \<open>Every step of the engine\<close>

lemma quiet_chain: "quiet e (e1, out) \<Longrightarrow> quiet e1 r \<Longrightarrow> quiet e (fst r, out @ snd r)"
  using quiet_also_do [of e "(e1, out)" "\<lambda>_. r"] by (simp add: also_do_def case_prod_beta)

lemma quiet_done: "quiet e (handle_done gs n result e)"
proof (cases "task_at e n")
  case None
  then show ?thesis by (simp add: handle_done_def quiet_refl)
next
  case (Some t)
  have accounts: "UpdateTask k \<notin> set (map (\<lambda>v. ContextCall n f (g v)) vs)" for k f g and vs :: "json list"
    by auto
  have product: "quiet e (modify_task n (\<lambda>t. t\<lparr>t_output := v\<rparr>) e, [])" for v
    by (rule quiet_modify) simp_all
  have cred: "quiet e (e\<lparr>e_context := c\<rparr>, [ContextCall n f args])" for c f args
    by (rule quiet_tasks) simp_all
  show ?thesis
    using Some by (cases "t_kind t")
      (auto simp: handle_done_def done_defs simp del: also_do_simps
        intro!: quiet_also_do quiet_base_done quiet_hash_ids quiet_session_do quiet_set_status
          quiet_refl product cred)
qed

lemma quiet_error: "quiet e (handle_error n result e)"
  by (auto simp: handle_error_def Let_def simp del: also_do_simps
      intro!: quiet_also_do quiet_session_do quiet_set_result quiet_fail_with quiet_refl split: option.split)

lemma quiet_request_code: "quiet e (handle_request_code n result e)"
  by (auto simp: handle_request_code_def intro!: quiet_prompt quiet_refl split: list.split)

lemma quiet_resolve_code: "quiet e (handle_resolve_code n result e)"
  by (auto simp: handle_resolve_code_def code_prompt_set_result_def simp del: also_do_simps
      intro!: quiet_also_do quiet_prompt quiet_refl quiet_modify
      split: option.split prompt.split)

lemma quiet_next: "quiet e (auth_next st gs n e)"
  unfolding auth_next_def
  by (auto simp: Let_def simp del: also_do_simps intro!: quiet_also_do quiet_refl quiet_set_status
      quiet_done quiet_error quiet_request_code quiet_resolve_code split: option.split)

lemma quiet_after: "quiet e (e1, []) \<Longrightarrow> quiet e1 r \<Longrightarrow> quiet e r"
  using quiet_chain [of e e1 "[]" r] by simp

lemma quiet_call_returned: "quiet e (auth_call_returned ok made error st gs n e)"
proof -
  let ?e1 = "modify_task n (\<lambda>t. t\<lparr>t_auth_handler := t_auth_handler t \<or> made\<rparr>) e"
  have "quiet e (?e1, [])" by (rule quiet_modify) simp_all
  moreover have "quiet ?e1 (if ok then auth_next st gs n ?e1
      else if error = ''id_you_are_not_connected'' then set_status n Ready ?e1
      else fail_with n error ?e1)"
    by (simp add: quiet_next quiet_set_status quiet_fail_with)
  ultimately show ?thesis
    unfolding auth_call_returned_def Let_def by (rule quiet_after)
qed

lemma quiet_continue: "quiet e (auth_continue ok st gs n e)"
  by (simp add: auth_continue_def quiet_next quiet_set_status)

lemma quiet_resolver: "quiet e (resolver_resolved data n e)" "quiet e (resolver_failed error n e)"
  unfolding resolver_resolved_def resolver_failed_def
  by (intro quiet_also_do quiet_prompt quiet_refl quiet_fail_with; simp)+

lemma quiet_prompts:
  "quiet e (code_prompt_select m n e)" "quiet e (code_prompt_resolve code n e)"
  by (auto simp: code_prompt_select_def code_prompt_resolve_def intro!: quiet_refl quiet_modify
      split: option.split prompt.split)

lemma quiet_device_select: "quiet e (device_prompt_select dev n e)"
proof -
  have "quiet e (handle_resolve_code n r (e\<lparr>e_context := c\<rparr>))" for r c
    by (rule quiet_after [OF quiet_tasks quiet_resolve_code]) simp_all
  then show ?thesis
    by (auto simp: device_prompt_select_def intro!: quiet_refl split: option.split prompt.split)
qed

lemma quiet_plain: "quiet e (plain_returned r n e)"
  by (cases r) (auto simp: plain_returned_def got_defs asset_call_def get_assets_call_def case_prod_beta Let_def
      simp del: also_do_simps
      intro!: quiet_also_do quiet_session_do quiet_set_status quiet_fail_with quiet_refl quiet_modify
      split: option.split)

lemma quiet_connect: "quiet e (connect_returned error n e)" "quiet e (connect_timeout n e)"
  by (auto simp: connect_returned_def connect_timeout_def simp del: also_do_simps
      intro!: quiet_also_do quiet_set_error quiet_set_status quiet_fail_with quiet_refl
      split: option.split)

lemma quiet_payments: "quiet e (payments_returned key r n e)"
  by (auto simp: payments_returned_def payments_fetch_def payment_call_def Let_def simp del: also_do_simps
      intro!: quiet_also_do quiet_set_status quiet_refl split: option.split json.split)


lemma quiet_group_tasks: "quiet e (group_add g n e)" "quiet e (group_remove g n e)"
proof -
  have *: "quiet e (group_dispatch g (modify_task n f (modify_group g h e)), out)"
    if "\<And>t. t_status (f t) = t_status t" "\<And>t. t_inputs (f t) = t_inputs t" "\<And>k. UpdateTask k \<notin> set out"
    for f h out
  proof -
    have "quiet (modify_group g h e) (modify_task n f (modify_group g h e), out)"
      by (rule quiet_modify) (simp_all add: that)
    moreover have "e_tasks (group_dispatch g e') = e_tasks e'" for e'
      by (simp add: group_dispatch_def dispatcher_dispatch_def split: option.split)
    ultimately have "quiet (modify_group g h e) (group_dispatch g (modify_task n f (modify_group g h e)), out)"
      using quiet_tasks [of "(group_dispatch g (modify_task n f (modify_group g h e)), [])"]
        quiet_chain [of "modify_group g h e" "modify_task n f (modify_group g h e)" out] by fastforce
    then show ?thesis
      by (rule quiet_after [OF quiet_tasks, rotated 2]) (simp_all add: modify_group_def)
  qed
  show "quiet e (group_add g n e)" "quiet e (group_remove g n e)"
    unfolding group_add_def group_remove_def
    by (auto intro!: quiet_refl * split: option.split)
qed

lemma quiet_dispatcher:
  "quiet e (dispatcher_add g e)" "quiet e (dispatcher_remove g e)"
  by (auto simp: dispatcher_add_def dispatcher_remove_def dispatcher_dispatch_def modify_group_def
      intro!: quiet_tasks)

lemma quiet_group_name: "quiet e (group_set_name g name e)"
  by (auto simp: group_set_name_def modify_group_def intro!: quiet_tasks split: option.split)

lemma quiet_add_task: "quiet e (dispatcher_add_task name n e)"
proof -
  let ?e1 = "e\<lparr>e_groups := e_groups e @ [new_group []]\<rparr>"
  have "quiet e (?e1, [])" by (rule quiet_tasks) simp_all
  then show ?thesis
    unfolding dispatcher_add_task_def Let_def
    by (rule quiet_after) (intro quiet_also_do quiet_group_tasks quiet_dispatcher quiet_group_name)
qed

lemma quiet_setters: "quiet e (set_plaintext n v e, [])" "quiet e (set_details n d e, [])"
proof -
  have "quiet e (task_dispatch n (modify_task n f e), [])"
    if "\<And>t. t_status (f t) = t_status t" "\<And>t. t_inputs (f t) = t_inputs t" for f
  proof -
    have "quiet e (modify_task n f e, [])" by (rule quiet_modify) (simp_all add: that)
    then show ?thesis
      by (rule quiet_after) (rule quiet_tasks, simp_all)
  qed
  then show "quiet e (set_plaintext n v e, [])"
    by (auto simp: set_plaintext_def intro!: quiet_refl split: option.split task_kind.split)
  show "quiet e (set_details n d e, [])"
    unfolding set_details_def by (rule quiet_modify) (simp_all split: task_kind.split)
qed

text \<open>Whatever happens, a task is finished only with a signal.\<close>

lemma step_honest: "honest e (engine_step e ev)"
proof (cases ev)
  case (NewTask k s)
  have "status_of (e\<lparr>e_tasks := e_tasks e @ [new_task k s]\<rparr>) n \<noteq> Some Finished
      \<or> status_of e n = Some Finished" for n
    by (auto simp: status_of_def task_at_def new_task_def nth_append)
  with NewTask show ?thesis by (auto simp: honest_def)
next
  case (Needs n k)
  have "status_of (task_needs n k e) m = status_of e m" for m
    by (auto simp: task_needs_def status_of_def task_at_modify option.map_comp comp_def)
  with Needs show ?thesis by (simp add: honest_def)
next
  case (Then n k)
  have "status_of (fst (task_then n k e)) m = status_of e m" for m
    by (auto simp: task_then_def status_of_def task_at_modify option.map_comp comp_def)
  with Then show ?thesis by (simp add: honest_def)
next
  case DispatchTimer
  then show ?thesis using disciplined_timer by (simp add: disciplined_def)
next
  case (NewGroup name)
  have "quiet e (e\<lparr>e_groups := e_groups e @ [new_group name]\<rparr>, [])" by (rule quiet_tasks) simp_all
  with NewGroup show ?thesis by (simp add: quiet_def)
next
  case Tick
  have "quiet e (dispatcher_dispatch e, [])"
    by (rule quiet_tasks) (simp_all add: dispatcher_dispatch_def)
  with Tick show ?thesis by (simp add: quiet_def)
qed (simp_all add: quiet_group_tasks [unfolded quiet_def] quiet_dispatcher [unfolded quiet_def]
    quiet_add_task [unfolded quiet_def] quiet_call_returned [unfolded quiet_def]
    quiet_continue [unfolded quiet_def] quiet_resolver [unfolded quiet_def]
    quiet_prompts [unfolded quiet_def] quiet_device_select [unfolded quiet_def]
    quiet_plain [unfolded quiet_def] quiet_connect [unfolded quiet_def]
    quiet_payments [unfolded quiet_def] quiet_setters [unfolded quiet_def]
    quiet_session_do [unfolded quiet_def])

lemma finished_signalled:
  "status_of (fst (run engine_step e es)) n = Some Finished \<Longrightarrow>
    status_of e n = Some Finished \<or> TaskFinished n \<in> set (snd (run engine_step e es))"
proof (induction es arbitrary: e)
  case (Cons ev es)
  from Cons.IH [of "fst (engine_step e ev)"] Cons.prems step_honest [of e ev] show ?case
    by (auto simp: honest_def)
qed simp

section \<open>Progress of a group\<close>

lemma update_one_other: "k \<noteq> m \<Longrightarrow> status_of (fst (update_one e k)) m = status_of e m"
  using starts_update [of e k]
  by (auto simp: update_one_def starts_def case_prod_beta split: option.split)

lemma update_one_inputs: "inputs_of (fst (update_one e k)) = inputs_of e"
  using disciplined_update_one [of e k] by (simp add: disciplined_def)

lemma update_one_finished: "status_of e k = Some Finished \<Longrightarrow> update_one e k = (e, [])"
  by (auto simp: update_one_def status_of_def split: option.split)

lemma update_one_fires:
  assumes "status_of e n \<in> {Some Ready, Some Active}"
    and "\<forall>d \<in> set (inputs_of e n). status_of e d = Some Finished"
  shows "UpdateTask n \<in> set (snd (update_one e n))"
  using assms by (auto simp: update_one_def status_of_def [of e n] inputs_of_def list_all_iff
      case_prod_beta split: option.splits)

lemma run_update_fires:
  "n \<in> set ts \<Longrightarrow> status_of e n \<in> {Some Ready, Some Active} \<Longrightarrow>
    \<forall>d \<in> set (inputs_of e n). status_of e d = Some Finished \<Longrightarrow>
    UpdateTask n \<in> set (snd (run update_one e ts))"
proof (induction ts arbitrary: e)
  case (Cons k ts)
  show ?case
  proof (cases "k = n")
    case True
    with Cons.prems update_one_fires show ?thesis by simp
  next
    case False
    let ?e1 = "fst (update_one e k)"
    have "status_of ?e1 d = Some Finished" if "status_of e d = Some Finished" for d
      using that update_one_other [of k d e] update_one_finished [of e k] by (cases "d = k") auto
    with Cons False have "UpdateTask n \<in> set (snd (run update_one ?e1 ts))"
      by (intro Cons.IH) (auto simp: update_one_other update_one_inputs)
    then show ?thesis by simp
  qed
qed simp

end
