(* ===== verification/Task_Props.thy ===== *)
theory Task_Props
  imports Task_Facts
begin

text \<open>
  Properties of the task engine: what a failure takes down, in which order tasks run, that a group
  makes progress and that no change of status goes unnoticed, when calls into the wallet library
  are made, and what happens to a call made while the session is down.
\<close>

section \<open>Library\<close>

lemma fail_timer_stays: "e_dispatch_timer e \<Longrightarrow> e_dispatch_timer (fst (fail_tasks ns e))"
proof (induction ns e rule: fail_tasks.induct)
  case (2 n ns e)
  then show ?case
    by (auto simp: fail_tasks.simps(2) case_prod_beta Let_def task_dispatch_wakes dispatcher_dispatch_def
        put_status_def modify_task_def split: option.split)
qed simp

lemma fail_wakes: "cascade e ns k \<Longrightarrow> wakes k e \<Longrightarrow> e_dispatch_timer (fst (fail_tasks ns e))"
proof (induction ns e rule: fail_tasks.induct)
  case (2 n ns e)
  show ?case
  proof (cases "live e n")
    case True
    then obtain t where t: "task_at e n = Some t" "t_status t \<noteq> Failed" by (auto simp: live_task)
    let ?e1 = "task_dispatch n (put_status n Failed e)"
    have same: "same_but_status e ?e1" by (rule same_trans [OF same_put same_dispatch])
    have step: "fst (fail_tasks (n # ns) e) = fst (fail_tasks (t_outputs t @ ns) ?e1)"
      using t by (simp add: fail_tasks.simps(2) case_prod_beta)
    have "k = n \<or> cascade ?e1 (t_outputs t @ ns) k"
      using cascade_step [OF True] 2(4) t(1) by (simp add: outputs_of_def)
    then show ?thesis
    proof
      assume "k = n"
      then have "e_dispatch_timer ?e1"
        using 2(5) same_wakes [OF same_put]
        by (simp add: task_dispatch_wakes dispatcher_dispatch_def)
      then show ?thesis unfolding step by (rule fail_timer_stays)
    next
      assume "cascade ?e1 (t_outputs t @ ns) k"
      from 2(3) [OF t this] same_wakes [OF same] 2(5) show ?thesis unfolding step by simp
    qed
  next
    case False
    with 2 show ?thesis
      by (auto simp: fail_tasks.simps(2) cascade_dead live_task split: option.split)
  qed
qed simp

text \<open>What an update can read besides the statuses: the sessions, and each task's class.\<close>

definition statics :: "engine \<Rightarrow> session list \<times> (task_kind \<times> nat) list" where
  "statics e = (e_sessions e, map (\<lambda>t. (t_kind t, t_session t)) (e_tasks e))"

lemma statics_same:
  assumes "same_but_status e e'"
  shows "statics e' = statics e"
proof -
  have "map (\<lambda>t. (t_kind t, t_session t)) (map blank ts) = map (\<lambda>t. (t_kind t, t_session t)) ts" for ts
    by (simp add: blank_def)
  moreover have "map blank (e_tasks e') = map blank (e_tasks e)"
    using assms by (simp only: same_but_status_def)
  ultimately have "map (\<lambda>t. (t_kind t, t_session t)) (e_tasks e') = map (\<lambda>t. (t_kind t, t_session t)) (e_tasks e)"
    by metis
  with same_fields(3) [OF assms] show ?thesis by (simp add: statics_def)
qed

lemma statics_group: "statics (fst (group_set_status g st e)) = statics e"
  by (simp add: group_set_status_def modify_group_def statics_def split: option.split)

definition good_call :: "engine \<Rightarrow> task_output \<Rightarrow> bool" where
  "good_call e x \<longleftrightarrow> (\<forall>n f args t. x = StartCall n f args \<longrightarrow> task_at e n = Some t \<longrightarrow>
     \<not> plain_kind (t_kind t) \<longrightarrow> (f, args) = auth_call (t_kind t) \<and>
     kind_active (t_kind t) (session_connected e (t_session t)) (session_ready e (t_session t)))"

lemma statics_task:
  assumes "statics e' = statics e" and "task_at e n = Some t"
  shows "\<exists>t'. task_at e' n = Some t' \<and> t_kind t' = t_kind t \<and> t_session t' = t_session t"
proof -
  have tasks: "map (\<lambda>t. (t_kind t, t_session t)) (e_tasks e')
      = map (\<lambda>t. (t_kind t, t_session t)) (e_tasks e)" using assms(1) by (simp add: statics_def)
  then have len: "length (e_tasks e') = length (e_tasks e)" by (rule map_eq_imp_length_eq)
  from assms(2) have "n < length (e_tasks e)" "t = e_tasks e ! n"
    by (auto simp: task_at_def split: if_splits)
  with arg_cong [OF tasks, of "\<lambda>xs. xs ! n"] len show ?thesis by (simp add: task_at_def)
qed

lemma good_call_statics:
  assumes "statics e' = statics e" and "good_call e' x"
  shows "good_call e x"
  unfolding good_call_def
proof (intro allI impI)
  fix n f args t
  assume x: "x = StartCall n f args" and t: "task_at e n = Some t" and k: "\<not> plain_kind (t_kind t)"
  obtain t' where t': "task_at e' n = Some t'" "t_kind t' = t_kind t" "t_session t' = t_session t"
    using statics_task [OF assms(1) t] by blast
  have "session_connected e' = session_connected e" "session_ready e' = session_ready e"
    using assms(1) by (simp_all add: statics_def session_connected_def session_ready_def session_at_def fun_eq_iff)
  with assms(2) x k t' show "(f, args) = auth_call (t_kind t) \<and>
      kind_active (t_kind t) (session_connected e (t_session t)) (session_ready e (t_session t))"
    unfolding good_call_def by metis
qed

lemma good_status: "x \<in> set (snd (set_status n st e)) \<Longrightarrow> good_call e' x"
  by (auto simp: set_status_def good_call_def fail_reports reports_def split: option.splits if_splits)

lemma good_update: "x \<in> set (snd (task_update e n)) \<Longrightarrow> good_call e x"
proof (cases "task_at e n")
  case (Some t)
  assume x: "x \<in> set (snd (task_update e n))"
  have auth: "good_call e x" if "x \<in> set (snd (auth_update n e))"
    using that Some good_status [of x n Active e e]
    by (auto simp: auth_update_def case_prod_beta good_call_def split: if_splits)
  have plain: "good_call e (StartCall n f args)" if "plain_kind (t_kind t)" for f args
    using that Some by (simp add: good_call_def)
  have other: "good_call e (StartConnectTimeout n i)" "good_call e (Unreachable n)" for i
    by (simp_all add: good_call_def)
  from x show ?thesis
    using Some auth
    by (cases "t_kind t")
      (auto simp: task_update_def wallet_update_def guarded_update_def load_assets_update_def
        refresh_assets_call_def get_assets_call_def
        sync_accounts_update_def connect_update_def payments_update_def payments_fetch_def
        case_prod_beta Let_def other intro!: plain intro: good_status
        split: option.splits if_splits bool.splits)
qed (simp add: task_update_def)

interpretation calls_one: promises update_one "\<lambda>_. True" "\<lambda>e. statics e = statics e0" "good_call e0" for e0
proof unfold_locales
  fix e n x
  assume e: "statics e = statics e0"
  have "same_but_status e (fst (task_update e n))" using starts_update [of e n] by (simp add: starts_def)
  then have "statics (fst (update_one e n)) = statics e"
    by (auto simp: update_one_def case_prod_beta statics_same split: option.split)
  with e show "statics (fst (update_one e n)) = statics e0" by simp
  assume "x \<in> set (snd (update_one e n))"
  then have "good_call e x"
    using good_update [of x e n] good_call_def [of e "UpdateTask n"]
    by (auto simp: update_one_def case_prod_beta split: option.splits if_splits)
  with good_call_statics [of e e0] e show "good_call e0 x" by simp
qed

lemma good_group_status: "x \<in> set (snd (group_set_status g st e)) \<Longrightarrow> good_call e0 x"
  by (auto simp: group_set_status_def good_call_def split: option.splits if_splits)

interpretation calls_group: promises group_update "\<lambda>_. True" "\<lambda>e. statics e = statics e0" "good_call e0" for e0
proof unfold_locales
  fix e g x
  assume e: "statics e = statics e0"
  have run: "statics (fst (run update_one e' ts)) = statics e0"
      "x \<in> set (snd (run update_one e' ts)) \<Longrightarrow> good_call e0 x" if "statics e' = statics e0" for e' ts
    using calls_one.inv_run [OF that] calls_one.good_run [OF that] by simp_all
  have active: "x \<in> set (snd (run update_one (fst (group_set_status g Active e)) ts)) \<Longrightarrow> good_call e0 x" for ts
    by (rule run(2)) (simp_all add: statics_group e)
  have fail: "statics (fst (fail_tasks ts e)) = statics e0"
      "x \<in> set (snd (fail_tasks ts e)) \<Longrightarrow> good_call e0 x" for ts
    using statics_same [OF same_fail] e by (auto simp: fail_reports reports_def good_call_def split: option.splits)
  show "statics (fst (group_update e g)) = statics e0"
    using e run(1) fail(1)
    by (auto simp: group_update_def Let_def statics_group split: option.split)
  show "x \<in> set (snd (group_update e g)) \<Longrightarrow> good_call e0 x"
    using e run(2) [OF e] active fail(2) good_group_status [of x g _ _ e0]
    by (auto simp: group_update_def Let_def statics_group split: option.splits if_splits)
qed


text \<open>A small engine for the witnesses: one network that is not liquid, no wallet yet.\<close>

definition sample_network :: network where
  "sample_network = new_network (jobj [(''network'', JStr ''mainnet''), (''mainnet'', JBool True)])"

definition sample_settings :: app_settings where
  "sample_settings = \<lparr>set_use_tor = False, set_use_proxy = False, set_proxy = [],
     set_electrum_tls = False, set_personal_node = False, set_bitcoin_url = [], set_liquid_url = [],
     set_testnet_url = [], set_liquid_testnet_url = []\<rparr>"

definition sample_engine :: engine where
  "sample_engine = new_engine [new_session sample_settings sample_network] None
     \<lparr>c_device = None, c_xpub_hash_id = [], c_wallet = None, c_accounts = [], c_credentials = []\<rparr>
     ''1.0'' False"

text \<open>Two tasks, the second needing the first, in a group handed to the dispatcher.\<close>

definition sample_events :: "engine_event list" where
  "sample_events = [NewTask (LoadAssetsTask False) 0, NewTask SyncAccountsTask 0, Needs 1 0,
     NewGroup [], GroupAdd 0 0, GroupAdd 0 1, DispatcherAdd 0]"

definition sample_started :: engine where
  "sample_started = fst (run engine_step sample_engine sample_events)"

lemmas engine_simps = sample_engine_def sample_network_def sample_settings_def new_engine_def
  sample_events_def new_task_def new_group_def task_needs_def modify_task_def modify_group_def group_add_def
  group_at_def group_dispatch_def dispatcher_add_def dispatcher_dispatch_def task_at_def status_of_def
  inputs_of_def new_session_def new_network_def List.insert_def

section \<open>Failure\<close>

text \<open>
  C17.  A failure takes down exactly the tasks that depend on it: when a task fails, the tasks
  reachable from it along outputs, through tasks that had not failed yet, are failed, finished
  ones included, and every other task keeps its status; each of them reports its own error, and
  nobody else reports a failure.
\<close>

theorem failure_cascade:
  "status_of (fst (set_status n Failed e)) k =
     (if cascade e [n] k then Some Failed else status_of e k) \<and>
   (TaskFailed k err \<in> set (snd (set_status n Failed e)) \<longleftrightarrow>
     cascade e [n] k \<and> map_option t_error (task_at e k) = Some err)"
  by (auto simp: set_status_fail fail_status fail_reports reports_def split: option.split)

text \<open>
  The cascade is the recursion of the code: a task that has not failed sets its status,
  signals it, calls \<open>setStatus(Failed)\<close> on every output in turn, each call seeing what the
  ones before it did, and dispatches; the recursion ends on every graph of tasks, cyclic ones
  included.
\<close>

lemma set_status_recursion:
  assumes "task_at e n = Some t" and "t_status t \<noteq> Failed"
  shows "set_status n Failed e =
    (let (e1, out) = run (\<lambda>e k. set_status k Failed e) (put_status n Failed e) (t_outputs t)
     in (task_dispatch n e1, TaskStatusChanged n # TaskFailed n (t_error t) # out))"
  by (rule set_status_failed [OF assms])

text \<open>
  When a task of a group has failed, the group's next update fails every task of the
  group, runs none, and the group reports its failure; after that the group is never updated
  again.
\<close>

lemma group_failure_total:
  assumes "group_at e g = Some gr" and "g_status gr \<noteq> Failed"
    and "n \<in> set (g_tasks gr)" and "status_of e n = Some Failed"
  shows "let (e1, out) = group_update e g in
    (\<forall>k \<in> set (g_tasks gr). status_of e1 k \<in> {Some Failed, None}) \<and>
    GroupFailed g \<in> set out \<and> (\<forall>k. UpdateTask k \<notin> set out) \<and> group_update e1 g = (e1, [])"
proof -
  let ?r = "fail_tasks (g_tasks gr) e"
  have u: "group_update e g = also_do ?r (group_set_status g Failed)"
    using assms by (auto simp: group_update_def Let_def list_all_iff list_ex_iff)
  have g: "group_at (fst ?r) g = Some gr"
    using assms(1) same_fields(1) [OF same_fail [of e "g_tasks gr"]]
    by (simp add: group_at_def split: if_splits)
  then have s: "group_set_status g Failed (fst ?r) =
      (modify_group g (\<lambda>gr. gr\<lparr>g_status := Failed\<rparr>) (fst ?r), [GroupStatusChanged g, GroupFailed g])"
    using assms(2) by (simp add: group_set_status_def)
  have "status_of (fst ?r) k \<in> {Some Failed, None}" if "k \<in> set (g_tasks gr)" for k
  proof (cases "live e k")
    case True
    with that have "cascade e (g_tasks gr) k" by (intro cascade.first)
    then show ?thesis by (simp add: fail_status)
  next
    case False
    then have "status_of e k \<in> {Some Failed, None}"
      by (auto simp: live_def status_of_def task_at_def)
    then show ?thesis by (auto simp: fail_status)
  qed
  moreover have "group_at (modify_group g (\<lambda>gr. gr\<lparr>g_status := Failed\<rparr>) (fst ?r)) g = Some (gr\<lparr>g_status := Failed\<rparr>)"
    using g by (auto simp: group_at_def modify_group_def split: if_splits)
  moreover have "status_of (modify_group g f e') k = status_of e' k" for f e' k
    by (simp add: status_of_def task_at_def modify_group_def)
  ultimately show ?thesis
    unfolding u by (auto simp: s case_prod_beta Let_def fail_no_update group_update_def)
qed

section \<open>Order and progress\<close>

text \<open>
  C20.  A task runs only after what it needs: in any history of an engine, however its tasks were
  made, linked, grouped, failed or finished, when a dispatch updates a task, each of its inputs
  has signalled that it finished, earlier in the history or earlier in the same dispatch.
\<close>

theorem inputs_finish_first:
  assumes "e_tasks e0 = []"
    and "snd (engine_step (fst (run engine_step e0 es)) DispatchTimer) = before @ UpdateTask n # after"
    and "d \<in> set (inputs_of (fst (run engine_step e0 es)) n)"
  shows "TaskFinished d \<in> set (snd (run engine_step e0 es) @ before)"
proof -
  let ?e = "fst (run engine_step e0 es)"
  have "status_of ?e d = Some Finished \<or> TaskFinished d \<in> set before"
    using disciplined_timer [of ?e] assms(2,3) by (auto simp: disciplined_def)
  moreover have "TaskFinished d \<in> set (snd (run engine_step e0 es))" if "status_of ?e d = Some Finished"
    using finished_signalled [OF that] assms(1) by (simp add: status_of_def task_at_def)
  ultimately show ?thesis by auto
qed

theorem inputs_finish_first_witness:
  "TaskFinished 0 \<in> set (snd (run engine_step sample_engine sample_events) @
     [UpdateTask 0, TaskStatusChanged 0, TaskFinished 0])"
proof (rule inputs_finish_first)
  show "e_tasks sample_engine = []" by (simp add: engine_simps)
  show "snd (engine_step (fst (run engine_step sample_engine sample_events)) DispatchTimer) =
      [UpdateTask 0, TaskStatusChanged 0, TaskFinished 0] @ UpdateTask 1 #
      [TaskStatusChanged 1, TaskStatusChanged 1, TaskFinished 1]"
    by (simp add: engine_simps dispatch_timer_event_def dispatcher_update_def group_update_def
        update_one_def task_update_def load_assets_update_def session_liquid_def session_at_def
        set_status_def put_status_def task_dispatch_def sync_accounts_update_def update_busy_def
        set_busy_def group_tasks_def jvalue_jobj Let_def)
  show "0 \<in> set (inputs_of (fst (run engine_step sample_engine sample_events)) 1)"
    by (simp add: engine_simps)
qed

text \<open>
  C21.  No deadlock: an update of a group in which nothing has failed and not everything has
  finished runs at least one of its unfinished tasks, provided the tasks need only tasks of the
  group and not each other in a circle.
\<close>

theorem group_progress:
  fixes rank :: "nat \<Rightarrow> nat"
  assumes "group_at e g = Some gr" and "g_status gr \<noteq> Failed"
    and "\<forall>n \<in> set (g_tasks gr). status_of e n \<notin> {None, Some Failed}"
    and "\<forall>n \<in> set (g_tasks gr). \<forall>d \<in> set (inputs_of e n). d \<in> set (g_tasks gr) \<and> rank d < rank n"
    and "\<exists>n \<in> set (g_tasks gr). status_of e n \<noteq> Some Finished"
  shows "\<exists>n \<in> set (g_tasks gr). status_of e n \<noteq> Some Finished \<and> UpdateTask n \<in> set (snd (group_update e g))"
proof -
  let ?open = "\<lambda>n. n \<in> set (g_tasks gr) \<and> status_of e n \<noteq> Some Finished"
  obtain n where n: "?open n" and least: "\<And>m. ?open m \<Longrightarrow> rank n \<le> rank m"
    using assms(5) ex_has_least_nat [of ?open _ rank] by blast
  have inputs: "\<forall>d \<in> set (inputs_of e n). status_of e d = Some Finished"
    using assms(4) n least by (metis not_less)
  have ready: "status_of e n \<in> {Some Ready, Some Active}"
    using assms(3) n by (cases "the (status_of e n)") auto
  let ?e1 = "if list_ex (\<lambda>n. status_of e n = Some Active) (g_tasks gr)
    then fst (group_set_status g Active e) else e"
  have "e_tasks ?e1 = e_tasks e"
    by (simp add: group_set_status_def modify_group_def split: option.split)
  then have "UpdateTask n \<in> set (snd (run update_one ?e1 (g_tasks gr)))"
    using n ready inputs inputs_of_tasks [of ?e1 e] status_of_tasks [of ?e1 e]
    by (intro run_update_fires) simp_all
  moreover have "snd (run update_one ?e1 (g_tasks gr)) = snd (group_update e g) \<or>
      (\<exists>o1. snd (group_update e g) = o1 @ snd (run update_one ?e1 (g_tasks gr)))"
    using assms(1,2,3) n by (auto simp: group_update_def Let_def list_all_iff list_ex_iff)
  ultimately show ?thesis using n by auto
qed

theorem group_progress_witness:
  "\<exists>n \<in> {0, 1}. status_of sample_started n \<noteq> Some Finished \<and>
     UpdateTask n \<in> set (snd (group_update sample_started 0))"
proof -
  have g: "group_at sample_started 0 =
      Some \<lparr>g_name = [], g_status = Ready, g_tasks = [0, 1], g_dispatcher = True\<rparr>"
    by (simp add: sample_started_def engine_simps)
  have s: "status_of sample_started 0 = Some Ready" "status_of sample_started 1 = Some Ready"
    "inputs_of sample_started 0 = []" "inputs_of sample_started 1 = [0]"
    by (simp_all add: sample_started_def engine_simps)
  from group_progress [OF g, of "\<lambda>n. n"] s show ?thesis by auto
qed

text \<open>
  C22.  No change goes unnoticed: whenever setting a status changes the status of a task whose
  group is with the dispatcher, of the task itself or of one it takes down, the dispatch timer is
  armed afterwards, so that the dispatcher runs again.
\<close>

theorem status_change_wakes:
  assumes "status_of (fst (set_status n st e)) k \<noteq> status_of e k" and "wakes k e"
  shows "e_dispatch_timer (fst (set_status n st e))"
proof (cases "st = Failed")
  case True
  with assms(1) have "cascade e [n] k" by (auto simp: set_status_same split: if_splits)
  from fail_wakes [OF this assms(2)] True show ?thesis by (simp add: set_status_fail)
next
  case False
  with assms(1) have k: "k = n" by (auto simp: set_status_same split: if_splits)
  have "wakes n (put_status n st e)"
    using assms(2) k same_wakes [OF same_put] by simp
  with False assms(1) k show ?thesis
    by (auto simp: set_status_def task_dispatch_wakes dispatcher_dispatch_def split: option.splits if_splits)
qed

theorem status_change_wakes_witness:
  "e_dispatch_timer (fst (set_status 0 Failed (sample_started\<lparr>e_dispatch_timer := False\<rparr>)))"
proof (rule status_change_wakes [of _ _ _ 1])
  let ?e = "sample_started\<lparr>e_dispatch_timer := False\<rparr>"
  have "cascade ?e [0] 0" by (rule cascade.first) (simp_all add: sample_started_def engine_simps live_def)
  then have "cascade ?e [0] 1"
    by (rule cascade.onward) (simp_all add: sample_started_def engine_simps live_def outputs_of_def)
  then show "status_of (fst (set_status 0 Failed ?e)) 1 \<noteq> status_of ?e 1"
    by (simp add: set_status_same) (simp add: sample_started_def engine_simps)
  show "wakes 1 ?e" by (simp add: sample_started_def engine_simps wakes_def)
qed

section \<open>Calls into the wallet library\<close>

text \<open>
  A dispatch starts a two-step call of the wallet library only with the arguments of the
  task's class, and only when the task's session is connected, logged in for the classes that
  read or change accounts, and the task has its details (a plaintext to encrypt, a transaction to
  send).
\<close>

lemma call_only_when_active:
  assumes "StartCall n f args \<in> set (snd (engine_step e DispatchTimer))"
    and "task_at e n = Some t" and "\<not> plain_kind (t_kind t)"
  shows "(f, args) = auth_call (t_kind t) \<and>
    kind_active (t_kind t) (session_connected e (t_session t)) (session_ready e (t_session t))"
proof -
  have "statics (e\<lparr>e_dispatch_timer := False\<rparr>) = statics e" by (simp add: statics_def)
  moreover have "StartCall n f args \<in> set (snd (run group_update (e\<lparr>e_dispatch_timer := False\<rparr>) (e_queue e)))"
    using assms(1) by (auto simp: dispatch_timer_event_def dispatcher_update_def update_busy_def
        set_busy_def split: if_splits)
  ultimately have "good_call e (StartCall n f args)"
    using calls_group.good_run [of "e\<lparr>e_dispatch_timer := False\<rparr>" e "e_queue e"] by simp
  with assms(2,3) show ?thesis by (auto simp: good_call_def)
qed

text \<open>
  A call made while the session was down is not lost: the library's "not connected" answer
  puts the task back to ready, with no failure signalled and no other task touched, and once the
  session is connected again the next update makes the same call again.
\<close>

lemma not_connected_retries:
  assumes "task_at e n = Some t" and "t_status t = Active" and "\<not> plain_kind (t_kind t)"
    and "\<forall>d p. t_kind t \<noteq> LoginTask d p" and "\<forall>d. t_kind t \<noteq> SendTransactionTask d"
    and "\<forall>d \<in> set (t_inputs t). status_of e d = Some Finished"
    and "kind_active (t_kind t) (session_connected e (t_session t)) (session_ready e (t_session t))"
  shows "let (e1, out) = engine_step e (AuthCallReturned n False made ''id_you_are_not_connected'' st gs) in
    out = [TaskStatusChanged n] \<and> status_of e1 n = Some Ready \<and>
    (\<forall>k. k \<noteq> n \<longrightarrow> task_at e1 k = task_at e k) \<and>
    snd (update_one e1 n) = [UpdateTask n, TaskStatusChanged n, StartCall n (fst (auth_call (t_kind t))) (snd (auth_call (t_kind t)))]"
proof -
  let ?m = "modify_task n (\<lambda>t. t\<lparr>t_auth_handler := t_auth_handler t \<or> made\<rparr>) e"
  let ?t = "t\<lparr>t_auth_handler := t_auth_handler t \<or> made, t_status := Ready\<rparr>"
  let ?e1 = "task_dispatch n (put_status n Ready ?m)"
  have step: "engine_step e (AuthCallReturned n False made ''id_you_are_not_connected'' st gs) =
      (?e1, [TaskStatusChanged n])"
    using assms(1,2) by (simp add: auth_call_returned_def set_status_def task_at_modify Let_def)
  have at: "task_at ?e1 k = (if k = n then Some ?t else task_at e k)" for k
    using assms(1) by (simp add: task_at_put task_at_modify)
  have loop: "n \<notin> set (t_inputs t)" using assms(1,2,6) by (auto simp: status_of_def)
  have "session_connected ?e1 = session_connected e" "session_ready ?e1 = session_ready e"
    using same_fields(3) [OF same_trans [OF same_put same_dispatch]]
    by (simp_all add: session_connected_def session_ready_def session_at_def modify_task_def fun_eq_iff
        task_dispatch_wakes dispatcher_dispatch_def put_status_def)
  then have "auth_update n ?e1 = (fst (set_status n Active ?e1),
      [TaskStatusChanged n, StartCall n (fst (auth_call (t_kind t))) (snd (auth_call (t_kind t)))])"
    using assms(7) at [of n] by (simp add: auth_update_def set_status_def case_prod_beta Let_def)
  moreover have "task_update ?e1 n = auth_update n ?e1"
    using at [of n] assms(3,4,5) by (cases "t_kind t") (simp_all add: task_update_def)
  moreover have "list_all (\<lambda>d. status_of ?e1 d = Some Finished) (t_inputs t)"
    using assms(6) loop at by (auto simp: list_all_iff status_of_def)
  ultimately have "snd (update_one ?e1 n) = [UpdateTask n, TaskStatusChanged n,
      StartCall n (fst (auth_call (t_kind t))) (snd (auth_call (t_kind t)))]"
    using at [of n] by (simp add: update_one_def)
  with at show ?thesis unfolding step by (simp add: status_of_def)
qed

text \<open>
  Loading payments does not end on a service that reports remaining payments but sends
  none: every such page makes the task ask for the same page again, however often, and its status
  never changes.
\<close>

lemma payments_loop:
  assumes "to_int (jvalue r ''remaining'') > 0" and "to_array (jvalue r ''transactions'') = []"
  shows "run engine_step e (replicate m (PaymentsReturned n key (Some (JObj r)))) =
    (e, concat (replicate m (payments_fetch n key e)))"
  using assms by (induction m)
    (simp_all add: run.simps(2) payments_returned_def payment_cursor_def del: run_Cons_fst run_Cons_snd)

end
