(* ===== verification/Ledger_Wire.thy ===== *)
theory Ledger_Wire
  imports Json
begin

text \<open>
  Bytes on the way to a Ledger device: \<open>QDataStream\<close> output in both byte orders and its
  reads past the end, the command units and variable-length integers of
  \<open>src/ledger/ledgerdevice.cpp\<close>, compressed keys, paths, and the packets of 64 bytes of
  \<open>src/devicediscoveryagent_linux.cpp\<close>.  \<open>None\<close> is a violated assertion.
\<close>

unbundle bit_operations_syntax

type_synonym byte = "8 word"
type_synonym bytes = "byte list"

section \<open>Streams\<close>

text \<open>\<open>stream << x\<close>, most significant byte first, and least significant first.\<close>

definition be16 :: "16 word \<Rightarrow> bytes" where
  "be16 w = [ucast (drop_bit 8 w), ucast w]"

definition be32 :: "32 word \<Rightarrow> bytes" where
  "be32 w = [ucast (drop_bit 24 w), ucast (drop_bit 16 w), ucast (drop_bit 8 w), ucast w]"

definition le32 :: "32 word \<Rightarrow> bytes" where
  "le32 w = rev (be32 w)"

definition be64 :: "64 word \<Rightarrow> bytes" where
  "be64 w = be32 (ucast (drop_bit 32 w)) @ be32 (ucast w)"

definition le64 :: "64 word \<Rightarrow> bytes" where
  "le64 w = rev (be64 w)"

text \<open>\<open>stream >> x\<close> gives 0 when the stream is too short, and uses up what is left.\<close>

fun read_u8 :: "bytes \<Rightarrow> byte \<times> bytes" where
  "read_u8 (b # s) = (b, s)"
| "read_u8 [] = (0, [])"

fun read_u16 :: "bytes \<Rightarrow> 16 word \<times> bytes" where
  "read_u16 (a # b # s) = (push_bit 8 (ucast a) OR ucast b, s)"
| "read_u16 _ = (0, [])"

lemma be16_nth [simp]: "length (be16 w) = 2" "length (be32 v) = 4" "length (le32 v) = 4"
    "length (be64 u) = 8" "length (le64 u) = 8"
  by (simp_all add: be16_def be32_def le32_def be64_def le64_def)

lemma read_be16 [simp]: "read_u16 (be16 w @ s) = (w, s)"
proof -
  have "push_bit 8 (ucast (ucast (drop_bit 8 w) :: byte)) OR ucast (ucast w :: byte) = w"
    by (rule bit_word_eqI)
      (auto simp: bit_simps bit_ucast_iff not_less less_diff_conv2 le_Suc_ex)
  then show ?thesis by (simp add: be16_def)
qed

section \<open>Command units\<close>

text \<open>The length byte; more than 255 bytes violate the assertion.\<close>

definition apdu :: "byte \<Rightarrow> byte \<Rightarrow> byte \<Rightarrow> byte \<Rightarrow> bytes \<Rightarrow> bytes option" where
  "apdu cla ins p1 p2 data =
     (if length data < 256 then Some ([cla, ins, p1, p2, of_nat (length data)] @ data) else None)"

text \<open>\<open>QByteArray::mid\<close> and \<open>prepend\<close>; an empty key is a violated assertion too.\<close>

definition compress_public_key :: "bytes \<Rightarrow> bytes option" where
  "compress_public_key pubkey = (case pubkey of
     [] \<Rightarrow> None
   | b # _ \<Rightarrow>
       if b = 0x04 then
         (if length pubkey = 65
          then Some ((if pubkey ! 64 AND 0x01 \<noteq> 0 then 0x03 else 0x02) # take 32 (drop 1 pubkey))
          else None)
       else if b = 0x02 \<or> b = 0x03 then (if length pubkey = 33 then Some pubkey else None)
       else None)"

text \<open>
  \<open>varIntSize\<close> takes an \<open>int\<close>; in the comparison with \<open>0xFFFFFFFF\<close> a non-negative
  \<open>int\<close> is always the smaller one.
\<close>

definition var_int_size :: "32 word \<Rightarrow> nat" where
  "var_int_size i =
     (if i <s 0 then 9 else if i <s 253 then 1 else if i \<le>s 0xFFFF then 3
      else if i \<le> 0xFFFFFFFF then 5 else 9)"

text \<open>\<open>varInt\<close> on a stream that is little endian, as its only caller sets it.\<close>

definition var_int :: "64 word \<Rightarrow> bytes" where
  "var_int i =
     (let n = var_int_size (ucast i)
      in if n = 1 then [ucast i]
         else if n = 3 then [253, ucast (i AND 0xff), ucast (drop_bit 8 i AND 0xff)]
         else if n = 5 then 254 # le32 (ucast i)
         else 255 # le64 i)"

text \<open>\<open>operator<<\<close> for \<open>Varint<uint32_t>\<close>; the last case follows the stream's byte order.\<close>

definition varint :: "(32 word \<Rightarrow> bytes) \<Rightarrow> 32 word \<Rightarrow> bytes" where
  "varint put32 v =
     (if v < 0xfd then [ucast (v AND 0xff)]
      else if v < 0xffff then [0xfd, ucast (v AND 0xff), ucast (drop_bit 8 v AND 0xff)]
      else 0xfe # put32 v)"

text \<open>\<open>pathToData\<close> (\<open>src/deviceactivities.cpp\<close>).\<close>

definition path_to_data :: "32 word list \<Rightarrow> bytes option" where
  "path_to_data path =
     (if length path \<le> 10 then Some (of_nat (length path) # concat (map be32 path)) else None)"

section \<open>Packets\<close>

text \<open>
  \<open>transport\<close>: 64 bytes each, the first with 7 bytes of header, the others with 5, padded
  with zeros.  \<open>n\<close> is the number of packets made so far.
\<close>

definition packet :: "nat \<Rightarrow> nat \<Rightarrow> bytes \<Rightarrow> bytes" where
  "packet n len d =
     (let p = be16 0x0101 @ [0x05] @ be16 (of_nat n) @ (if n = 0 then be16 (of_nat len) else []) @ d
      in p @ replicate (64 - length p) 0)"

function packets_from :: "nat \<Rightarrow> nat \<Rightarrow> bytes \<Rightarrow> bytes list" where
  "packets_from n len data =
     (if data = [] then []
      else (let k = 64 - (if n = 0 then 7 else 5)
            in packet n len (take k data) # packets_from (n + 1) len (drop k data)))"
  by pat_completeness auto
termination
  by (relation "measure (\<lambda>(n, len, data). length data)") (auto simp: length_greater_0_conv)

declare packets_from.simps [simp del]

definition transport :: "bytes \<Rightarrow> bytes list" where
  "transport data = packets_from 0 (length data) data"

end
