(* ===== verification/Ledger_Device.thy ===== *)
theory Ledger_Device
  imports Ledger_Wire Session
begin

text \<open>
  The device end of a Ledger: reports from the device assembled into the answer of a command
  (\<open>src/device.cpp\<close>), the queue of commands of a device and its two operations
  (\<open>src/devicediscoveryagent_linux.cpp\<close>), batches of commands (\<open>src/command.h\<close>), and
  what the wallet knows of the device: its model, the app that runs on it, and the networks that
  app supports (\<open>src/ledger/ledgerdevice.cpp\<close>).  Writing a report to the device is an output
  and does not fail.
\<close>

section \<open>Answers\<close>

text \<open>
  A command under way.  Before its first report \<open>length\<close> and \<open>offset\<close> are not initialised:
  any value may stand there.
\<close>

record command =
  c_payload :: bytes
  c_length :: "16 word"
  c_offset :: "16 word"
  c_buf :: bytes
  c_response :: bytes

datatype report_result = Incomplete | CommandFailed | CommandFinished

definition new_command :: "16 word \<Rightarrow> 16 word \<Rightarrow> bytes \<Rightarrow> command" where
  "new_command len off payload =
     \<lparr>c_payload = payload, c_length = len, c_offset = off, c_buf = [], c_response = []\<rparr>"

text \<open>
  The answer is the response followed by two bytes of status.  \<open>GenericCommand::parse\<close> accepts
  every response.
\<close>

definition read_apdu_response :: "command \<Rightarrow> command \<times> report_result" where
  "read_apdu_response c =
     (let len = length (c_buf c);
          response = take (len - 2) (c_buf c);
          (sw, s) = read_u16 (drop (len - 2) (c_buf c))
      in if sw \<noteq> 0x9000 then (c, CommandFailed)
         else (c\<lparr>c_response := response\<rparr>, CommandFinished))"

text \<open>Bytes written into the buffer at an offset.\<close>

definition overwrite :: "nat \<Rightarrow> bytes \<Rightarrow> bytes \<Rightarrow> bytes" where
  "overwrite off d buf = take off buf @ d @ drop (off + length d) buf"

text \<open>
  \<open>readHIDReport\<close>; \<open>None\<close> is a violated assertion or a write past the end of the buffer,
  which a report that continues an answer that was never begun can cause.  What follows the header
  goes into the buffer; the answer is read when nothing is missing.
\<close>

definition store_report :: "command \<Rightarrow> bytes \<Rightarrow> (command \<times> report_result) option" where
  "store_report c s =
     (let d = take (unat (c_length c)) s
      in if unat (c_offset c) + length d > length (c_buf c) then None
         else
           (let c' = c\<lparr>c_buf := overwrite (unat (c_offset c)) d (c_buf c),
                       c_length := c_length c - of_nat (length d),
                       c_offset := c_offset c + of_nat (length d)\<rparr>
            in if c_length c' > 0 then Some (c', Incomplete) else Some (read_apdu_response c')))"

definition read_hid_report :: "command \<Rightarrow> bytes \<Rightarrow> (command \<times> report_result) option" where
  "read_hid_report c report =
     (let (channel, s1) = read_u16 report; (tag, s2) = read_u8 s1; (index, s3) = read_u16 s2
      in if channel \<noteq> 0x0101 \<or> tag \<noteq> 0x05 then None
         else if index = 0 then
           (if c_buf c \<noteq> [] then None
            else (let (len, s4) = read_u16 s3
                  in store_report (c\<lparr>c_length := len, c_buf := replicate (unat len) 0, c_offset := 0\<rparr>) s4))
         else store_report c s3)"

text \<open>Reports one after the other, as long as the answer is incomplete.\<close>

fun read_reports :: "command \<Rightarrow> bytes list \<Rightarrow> (command \<times> report_result) option" where
  "read_reports c [] = Some (c, Incomplete)"
| "read_reports c (r # rs) = (case read_hid_report c r of
     None \<Rightarrow> None
   | Some (c', Incomplete) \<Rightarrow> read_reports c' rs
   | Some (c', res) \<Rightarrow> if rs = [] then Some (c', res) else None)"

section \<open>The queue of a device\<close>

text \<open>
  Commands are numbered in the order in which they are handed to the device.  \<open>dq_made\<close> counts
  them; the head of the queue is the command whose answer is awaited.
\<close>

record device_queue =
  dq_queue :: "(nat \<times> command) list"
  dq_made :: nat

datatype device_output =
    WriteReport bytes
  | Completed nat bytes
  | Errored nat
  | UnknownReport bytes
  | Crashed

definition new_device_queue :: device_queue where
  "new_device_queue = \<lparr>dq_queue = [], dq_made = 0\<rparr>"

text \<open>The report of a packet starts with the number 0.\<close>

definition write_command :: "bytes \<Rightarrow> device_output list" where
  "write_command payload = map (\<lambda>p. WriteReport (0 # p)) (transport payload)"

definition device_exchange :: "command \<Rightarrow> device_queue \<Rightarrow> device_queue \<times> device_output list" where
  "device_exchange c q =
     (q\<lparr>dq_queue := dq_queue q @ [(dq_made q, c)], dq_made := dq_made q + 1\<rparr>,
      if dq_queue q = [] then write_command (c_payload c) else [])"

definition input_report :: "bytes \<Rightarrow> device_queue \<Rightarrow> device_queue \<times> device_output list" where
  "input_report report q = (case dq_queue q of
     [] \<Rightarrow> (q, [UnknownReport report])
   | (i, c) # rest \<Rightarrow> (case read_hid_report c report of
       None \<Rightarrow> (q, [Crashed])
     | Some (c', Incomplete) \<Rightarrow> (q\<lparr>dq_queue := (i, c') # rest\<rparr>, [])
     | Some (c', res) \<Rightarrow>
         (q\<lparr>dq_queue := rest\<rparr>,
          (if res = CommandFinished then Completed i (c_response c') else Errored i)
            # (case rest of [] \<Rightarrow> [] | (_, n) # _ \<Rightarrow> write_command (c_payload n)))))"

datatype device_event = Exchange command | InputReport bytes

fun device_step :: "device_queue \<Rightarrow> device_event \<Rightarrow> device_queue \<times> device_output list" where
  "device_step q (Exchange c) = device_exchange c q"
| "device_step q (InputReport r) = input_report r q"

section \<open>Batches\<close>

text \<open>
  A command of the wallet's activities is one exchange or a batch.  \<open>exec\<close> of a batch takes
  its first command off, runs it, and goes on when that has finished; it fails when a command
  fails.  Against a device that answers at once (\<open>dev\<close>, with a state of its own) this is:
\<close>

datatype ledger_command = Single bytes | Batch "ledger_command list"

fun exec_command :: "('d \<Rightarrow> bytes \<Rightarrow> 'd \<times> bytes option) \<Rightarrow> ledger_command \<Rightarrow> 'd \<Rightarrow> 'd \<times> bytes list \<times> bool"
and exec_batch :: "('d \<Rightarrow> bytes \<Rightarrow> 'd \<times> bytes option) \<Rightarrow> ledger_command list \<Rightarrow> 'd \<Rightarrow> 'd \<times> bytes list \<times> bool" where
  "exec_command dev (Single payload) d = (case dev d payload of
     (d', None) \<Rightarrow> (d', [], False) | (d', Some r) \<Rightarrow> (d', [r], True))"
| "exec_command dev (Batch cs) d = exec_batch dev cs d"
| "exec_batch dev [] d = (d, [], True)"
| "exec_batch dev (c # cs) d = (let (d1, rs1, ok) = exec_command dev c d
     in if \<not> ok then (d1, rs1, False)
        else (let (d2, rs2, ok2) = exec_batch dev cs d1 in (d2, rs1 @ rs2, ok2)))"

section \<open>Models, apps and networks\<close>

definition is_decimal :: "char \<Rightarrow> bool" where
  "is_decimal c \<longleftrightarrow> (let n = (of_char c :: nat) in 48 \<le> n \<and> n \<le> 57)"

definition decimal_value :: "string \<Rightarrow> int" where
  "decimal_value ds = foldl (\<lambda>v c. 10 * v + (of_char c - 48)) 0 ds"

datatype device_type = NoType | LedgerNanoS | LedgerNanoX

definition type_from_vendor_and_product :: "32 word \<Rightarrow> 32 word \<Rightarrow> device_type" where
  "type_from_vendor_and_product vendor_id product_id =
     (if vendor_id = 0x2c97 then
        (if product_id = 0x0001 \<or> product_id AND 0x1000 \<noteq> 0 then LedgerNanoS
         else if product_id = 0x0004 \<or> product_id AND 0x4000 \<noteq> 0 then LedgerNanoX
         else NoType)
      else NoType)"

datatype ledger_state = StateUnknown | StateLocked | StateDashboard | StateApp

text \<open>\<open>QVersionNumber\<close> is its list of segments, compared lexicographically.\<close>

record ledger_device =
  ld_type :: device_type
  ld_state :: ledger_state
  ld_app_name :: string
  ld_app_version :: "int list"

datatype ledger_signal = LedgerStateChanged | LedgerAppChanged

definition new_ledger_device :: "device_type \<Rightarrow> ledger_device" where
  "new_ledger_device ty = \<lparr>ld_type = ty, ld_state = StateUnknown, ld_app_name = [], ld_app_version = []\<rparr>"

text \<open>The model's name; \<open>None\<close> is the unreachable branch.\<close>

definition ledger_name :: "ledger_device \<Rightarrow> string option" where
  "ledger_name l = (case ld_type l of
     LedgerNanoS \<Rightarrow> Some ''Ledger Nano S'' | LedgerNanoX \<Rightarrow> Some ''Ledger Nano X'' | NoType \<Rightarrow> None)"

definition set_state :: "ledger_state \<Rightarrow> ledger_device \<Rightarrow> ledger_device \<times> ledger_signal list" where
  "set_state st l = (if ld_state l = st then (l, []) else (l\<lparr>ld_state := st\<rparr>, [LedgerStateChanged]))"

definition set_app :: "string \<Rightarrow> int list \<Rightarrow> ledger_device \<Rightarrow> ledger_device \<times> ledger_signal list" where
  "set_app name version l =
     (if ld_app_name l = name \<and> ld_app_version l = version then (l, [])
      else (let l1 = l\<lparr>ld_app_name := name, ld_app_version := version\<rparr>;
                (l2, out) = (if contains_text ''OLOS'' name then set_state StateDashboard l1
                             else if name \<noteq> [] \<and> version \<noteq> [] then set_state StateApp l1
                             else set_state StateUnknown l1)
            in (l2, LedgerAppChanged # out)))"

fun version_less :: "int list \<Rightarrow> int list \<Rightarrow> bool" where
  "version_less _ [] \<longleftrightarrow> False"
| "version_less [] (_ # _) \<longleftrightarrow> True"
| "version_less (a # as) (b # bs) \<longleftrightarrow> a < b \<or> a = b \<and> version_less as bs"

definition ledger_compatible :: "ledger_device \<Rightarrow> bool" where
  "ledger_compatible l \<longleftrightarrow> (ld_app_name l = ''Bitcoin'' \<longrightarrow> version_less (ld_app_version l) [2, 1, 1])"

definition supports_network :: "string \<Rightarrow> network \<Rightarrow> bool" where
  "supports_network app n =
     (if app = ''Bitcoin'' then n_mainnet n \<and> \<not> n_liquid n
      else if app = ''Bitcoin Legacy'' then n_mainnet n \<and> \<not> n_liquid n
      else if app = ''Liquid'' then n_mainnet n \<and> n_liquid n \<and> \<not> n_electrum n
      else if app = ''Bitcoin Test'' then \<not> n_mainnet n \<and> \<not> n_liquid n
      else if app = ''Bitcoin Test Legacy'' then \<not> n_mainnet n \<and> \<not> n_liquid n
      else if app = ''Liquid Test'' then \<not> n_mainnet n \<and> n_liquid n \<and> \<not> n_electrum n
      else False)"

text \<open>
  \<open>GetAppActivity\<close>: two texts with their lengths, each possibly closed by a zero byte; a
  version that begins with a dot gets a 1 in front.  \<open>None\<close> is a read of memory the answer
  did not fill.
\<close>

definition text_of :: "bytes \<Rightarrow> string" where
  "text_of bs = map (\<lambda>b. char_of (unat b)) bs"

definition take_text :: "bytes \<Rightarrow> (string \<times> bytes) option" where
  "take_text s =
     (let (n, s1) = read_u8 s; k = unat n
      in if k = 0 \<or> length s1 < k then None
         else Some (text_of (if s1 ! (k - 1) \<noteq> 0 then take k s1 else take (k - 1) s1), drop k s1))"

function parse_version :: "string \<Rightarrow> int list" where
  "parse_version s =
     (let d = takeWhile is_decimal s; r = dropWhile is_decimal s; n = decimal_value d
      in if d = [] \<or> n > 2 ^ 31 - 1 then []
         else n # (case r of [] \<Rightarrow> [] | c # t \<Rightarrow> if c = CHR ''.'' then parse_version t else []))"
  by pat_completeness auto
termination
proof (relation "measure length")
  fix s d r n c t
  assume "r = dropWhile is_decimal s" "r = c # t"
  then have "length (c # t) \<le> length s" by (metis length_dropWhile_le)
  then show "(t, s) \<in> measure length" by simp
qed simp

declare parse_version.simps [simp del]

definition parse_app :: "bytes \<Rightarrow> (string \<times> int list) option" where
  "parse_app response =
     (let (format, s) = read_u8 response
      in case take_text s of
           None \<Rightarrow> None
         | Some (name, s1) \<Rightarrow> (case take_text s1 of
             None \<Rightarrow> None
           | Some (v, _) \<Rightarrow>
               Some (name, parse_version (if v \<noteq> [] \<and> hd v = CHR ''.'' then CHR ''1'' # v else v))))"

text \<open>\<open>GetFirmwareActivity\<close>; \<open>None\<close> is the violated assertion on the architecture.\<close>

definition parse_firmware :: "bytes \<Rightarrow> (byte \<times> byte \<times> byte) option" where
  "parse_firmware response =
     (let (features, s1) = read_u8 response; (arch, s2) = read_u8 s1; (major, s3) = read_u8 s2;
          (minor, s4) = read_u8 s3; (patch, s5) = read_u8 s4
      in if arch = 0x30 then Some (major, minor, patch) else None)"

definition get_app_command :: "bytes option" where
  "get_app_command = apdu 0xb0 0x01 0 0 []"

definition get_firmware_command :: "bytes option" where
  "get_firmware_command = apdu 0xe0 0xc4 0 0 []"

text \<open>What the constructor does with the answer of \<open>GetAppActivity\<close> a second later.\<close>

definition app_answered :: "bytes option \<Rightarrow> ledger_device \<Rightarrow> (ledger_device \<times> ledger_signal list) option" where
  "app_answered r l = (case r of
     None \<Rightarrow> Some (set_state StateLocked l)
   | Some response \<Rightarrow> map_option (\<lambda>(name, v). set_app name v l) (parse_app response))"

end
