(* ===== verification/Ledger_Sign.thy ===== *)
theory Ledger_Sign
  imports Ledger_Device
begin

text \<open>
  Signing with a Ledger (\<open>src/ledger/ledgersigntransactionactivity.cpp\<close>) and the smaller
  conversations: messages, wallet public keys, blinding keys and nonces.  Transactions are
  parsed by libwally, which is not part of the repository: a parsed transaction is a record, and
  \<open>lookup\<close> gives the one a hash stands for.  \<open>None\<close> is a violated assertion.
\<close>

section \<open>Data\<close>

record tx_input =
  ti_txhash :: bytes
  ti_index :: "32 word"
  ti_script :: bytes
  ti_sequence :: "32 word"

record tx_output =
  to_satoshi :: "64 word"
  to_script :: bytes

record wally_tx =
  tx_version :: "32 word"
  tx_inputs :: "tx_input list"
  tx_outputs :: "tx_output list"
  tx_locktime :: "32 word"

text \<open>An input to sign, as the JSON of the request has it.\<close>

record signing_input =
  si_address_type :: string
  si_prevout_script :: bytes
  si_user_path :: "32 word list"
  si_txhash :: string
  si_pt_idx :: "32 word"
  si_sequence :: "32 word"

fun to_u32 :: "json \<Rightarrow> 32 word" where
  "to_u32 (JInt n) = word_of_int n"
| "to_u32 _ = 0"

fun to_u64 :: "json \<Rightarrow> 64 word" where
  "to_u64 (JInt n) = (if - (2 ^ 63) \<le> n \<and> n < 2 ^ 63 then word_of_int n else 0)"
| "to_u64 _ = 0"

definition parse_byte_array :: "json \<Rightarrow> bytes" where
  "parse_byte_array j = from_hex (to_string j)"

definition parse_path :: "json \<Rightarrow> 32 word list" where
  "parse_path j = map (\<lambda>v. ucast (to_u64 v)) (to_array j)"

definition decode_signing_input :: "json \<Rightarrow> signing_input" where
  "decode_signing_input j = (let d = to_object j in
     \<lparr>si_address_type = to_string (jvalue d ''address_type''),
      si_prevout_script = parse_byte_array (jvalue d ''prevout_script''),
      si_user_path = parse_path (jvalue d ''user_path''),
      si_txhash = to_string (jvalue d ''txhash''),
      si_pt_idx = to_u32 (jvalue d ''pt_idx''),
      si_sequence = to_u32 (jvalue d ''sequence'')\<rparr>)"

record hw_input =
  hi_value :: bytes
  hi_sequence :: bytes
  hi_trusted :: bool
  hi_segwit :: bool

fun all_some :: "'a option list \<Rightarrow> 'a list option" where
  "all_some [] = Some []"
| "all_some (None # xs) = None"
| "all_some (Some x # xs) = map_option ((#) x) (all_some xs)"

section \<open>Commands\<close>

text \<open>The outputs of the transaction; sizes are \<open>int\<close>s.\<close>

definition output_bytes :: "json list \<Rightarrow> bytes" where
  "output_bytes outs = var_int (of_nat (length outs)) @
     concat (map (\<lambda>j. let d = to_object j; script = parse_byte_array (jvalue d ''scriptpubkey'')
       in le64 (to_u64 (jvalue d ''satoshi'')) @ var_int (of_nat (length script)) @ script) outs)"

function chunks :: "nat \<Rightarrow> bytes \<Rightarrow> bytes list" where
  "chunks k data = (if data = [] \<or> k = 0 then [] else take k data # chunks k (drop k data))"
  by pat_completeness auto
termination
  by (relation "measure (\<lambda>(k, data). length data)") auto

declare chunks.simps [simp del]

definition finalize_input_full :: "bytes \<Rightarrow> bytes list option" where
  "finalize_input_full data =
     (let datas = [0] # chunks 255 data; n = length datas
      in all_some (map (\<lambda>i. apdu 0xe0 0x4a
           (if i = 0 then 0xff else if i = n - 1 then 0x80 else 0x00) 0 (datas ! i)) [0..<n]))"

text \<open>The pin is \<open>"0"\<close>: its length and its one byte.\<close>

definition untrusted_hash_sign :: "32 word list \<Rightarrow> 32 word \<Rightarrow> bytes option" where
  "untrusted_hash_sign path locktime = (case path_to_data path of
     None \<Rightarrow> None
   | Some p \<Rightarrow> apdu 0xe0 0x48 0 0 (p @ [1, 0x30] @ be32 locktime @ [1]))"

text \<open>The commands of \<open>getTrustedInput\<close>, by their data.\<close>

definition trusted_input_datas :: "wally_tx \<Rightarrow> 32 word \<Rightarrow> bytes list" where
  "trusted_input_datas tx index =
     [be32 index @ le32 (tx_version tx) @ varint le32 (of_nat (length (tx_inputs tx)))]
     @ concat (map (\<lambda>i. [take 32 (ti_txhash i) @ le32 (ti_index i) @ varint le32 (of_nat (length (ti_script i))),
                         ti_script i @ le32 (ti_sequence i)]) (tx_inputs tx))
     @ [varint be32 (of_nat (length (tx_outputs tx)))]
     @ concat (map (\<lambda>t. [le64 (to_satoshi t) @ varint le32 (of_nat (length (to_script t))), to_script t])
         (tx_outputs tx))
     @ [le32 (tx_locktime tx)]"

definition get_trusted_input :: "wally_tx \<Rightarrow> 32 word \<Rightarrow> bytes list option" where
  "get_trusted_input tx index = (case trusted_input_datas tx index of
     [] \<Rightarrow> None
   | d # ds \<Rightarrow> all_some (apdu 0xe0 0x42 0x00 0 d # map (apdu 0xe0 0x42 0x80 0) ds))"

text \<open>The stream that holds an input's header keeps the default byte order.\<close>

definition untrusted_input_datas :: "nat \<Rightarrow> bytes \<Rightarrow> hw_input list \<Rightarrow> bytes list" where
  "untrusted_input_datas index redeem_script used =
     concat (map (\<lambda>(k, i). let script = (if k = index then redeem_script else []) in
       [(if hi_trusted i then [1, of_nat (length (hi_value i))] else [if hi_segwit i then 2 else 0])
          @ hi_value i @ varint be32 (of_nat (length script)),
        script @ hi_sequence i]) (enumerate 0 used))"

definition start_untrusted_transaction ::
    "32 word \<Rightarrow> bool \<Rightarrow> nat \<Rightarrow> hw_input list \<Rightarrow> bytes \<Rightarrow> bool \<Rightarrow> bytes list option" where
  "start_untrusted_transaction version new_transaction index used redeem_script segwit =
     all_some (apdu 0xe0 0x44 0x00 (if new_transaction then (if segwit then 2 else 0) else 0x80)
                 (le32 version @ varint le32 (of_nat (length used)))
       # map (apdu 0xe0 0x44 0x80 0) (untrusted_input_datas index redeem_script used))"

section \<open>Conversations\<close>

text \<open>
  A step of a conversation is a payload and, for a command that signs, the input it signs.
\<close>

type_synonym step = "nat option \<times> bytes"

definition plain_steps :: "bytes list option \<Rightarrow> step list option" where
  "plain_steps ps = map_option (map (Pair None)) ps"

definition append_steps :: "step list option list \<Rightarrow> step list option" where
  "append_steps xs = map_option concat (all_some xs)"

text \<open>The signature is the answer with its first byte replaced.\<close>

definition signature_of :: "bytes \<Rightarrow> bytes" where
  "signature_of r = 0x30 # drop 1 r"

fun run_steps :: "('d \<Rightarrow> bytes \<Rightarrow> 'd \<times> bytes option) \<Rightarrow> step list \<Rightarrow> bytes list \<Rightarrow> 'd \<Rightarrow> 'd \<times> bytes list option" where
  "run_steps dev [] sigs d = (d, Some sigs)"
| "run_steps dev ((k, p) # steps) sigs d = (case dev d p of
     (d', None) \<Rightarrow> (d', None)
   | (d', Some r) \<Rightarrow>
       run_steps dev steps (case k of None \<Rightarrow> sigs | Some i \<Rightarrow> sigs[i := signature_of r]) d')"

text \<open>Trusted inputs: the batches are all built first, then run; the last answer of each counts.\<close>

definition trusted_batches :: "(string \<Rightarrow> wally_tx option) \<Rightarrow> signing_input list \<Rightarrow> bytes list list option" where
  "trusted_batches lookup inputs = all_some (map (\<lambda>i. case lookup (si_txhash i) of
     None \<Rightarrow> None | Some tx \<Rightarrow> get_trusted_input tx (si_pt_idx i)) inputs)"

fun run_inputs :: "('d \<Rightarrow> bytes \<Rightarrow> 'd \<times> bytes option) \<Rightarrow> bool \<Rightarrow> signing_input list \<Rightarrow> bytes list list
    \<Rightarrow> 'd \<Rightarrow> 'd \<times> hw_input list option" where
  "run_inputs dev segwit (i # is) (b # bs) d = (let (d1, rs, ok) = exec_batch dev (map Single b) d
     in if \<not> ok then (d1, None)
        else (let (d2, hs) = run_inputs dev segwit is bs d1
              in (d2, map_option ((#) \<lparr>hi_value = last rs, hi_sequence = le32 (si_sequence i),
                    hi_trusted = True, hi_segwit = segwit\<rparr>) hs)))"
| "run_inputs dev segwit _ _ d = (d, Some [])"

definition sw_steps :: "32 word \<Rightarrow> 32 word \<Rightarrow> json list \<Rightarrow> signing_input list \<Rightarrow> hw_input list \<Rightarrow> step list option" where
  "sw_steps version locktime outs inputs hw = append_steps (
     [plain_steps (start_untrusted_transaction version True 0 hw (si_prevout_script (inputs ! 0)) True),
      plain_steps (finalize_input_full (output_bytes outs))]
     @ concat (map (\<lambda>i. if si_address_type (inputs ! i) = ''p2sh'' then []
         else [plain_steps (start_untrusted_transaction version False 0 [hw ! i]
                 (si_prevout_script (inputs ! i)) True),
               map_option (\<lambda>p. [(Some i, p)]) (untrusted_hash_sign (si_user_path (inputs ! i)) locktime)])
         [0..<length hw]))"

definition non_sw_steps :: "32 word \<Rightarrow> 32 word \<Rightarrow> json list \<Rightarrow> signing_input list \<Rightarrow> hw_input list \<Rightarrow> step list option" where
  "non_sw_steps version locktime outs inputs hw = append_steps (
     concat (map (\<lambda>i.
         [plain_steps (start_untrusted_transaction version (i = 0) i hw (si_prevout_script (inputs ! i)) False),
          plain_steps (finalize_input_full (output_bytes outs))]
         @ (if si_address_type (inputs ! i) = ''p2sh''
            then [map_option (\<lambda>p. [(Some i, p)]) (untrusted_hash_sign (si_user_path (inputs ! i)) locktime)]
            else []))
         [0..<length hw]))"

datatype sign_outcome = SignCrashed | SignFailed | SignFinished "bytes list"

text \<open>One half: its trusted inputs, then the steps built from them.\<close>

definition sign_half :: "('d \<Rightarrow> bytes \<Rightarrow> 'd \<times> bytes option) \<Rightarrow> bool
    \<Rightarrow> (signing_input list \<Rightarrow> hw_input list \<Rightarrow> step list option)
    \<Rightarrow> (string \<Rightarrow> wally_tx option) \<Rightarrow> signing_input list \<Rightarrow> bytes list \<Rightarrow> 'd \<Rightarrow> 'd \<times> sign_outcome" where
  "sign_half dev segwit steps lookup inputs sigs d = (case trusted_batches lookup inputs of
     None \<Rightarrow> (d, SignCrashed)
   | Some batches \<Rightarrow> (case run_inputs dev segwit inputs batches d of
       (d1, None) \<Rightarrow> (d1, SignFailed)
     | (d1, Some hw) \<Rightarrow> (case steps inputs hw of
         None \<Rightarrow> (d1, SignCrashed)
       | Some ss \<Rightarrow> (case run_steps dev ss sigs d1 of
           (d2, None) \<Rightarrow> (d2, SignFailed) | (d2, Some sigs') \<Rightarrow> (d2, SignFinished sigs')))))"

definition sign_transaction :: "('d \<Rightarrow> bytes \<Rightarrow> 'd \<times> bytes option) \<Rightarrow> (string \<Rightarrow> wally_tx option)
    \<Rightarrow> 32 word \<Rightarrow> 32 word \<Rightarrow> signing_input list \<Rightarrow> json list \<Rightarrow> 'd \<Rightarrow> 'd \<times> sign_outcome" where
  "sign_transaction dev lookup version locktime inputs outs d =
     (let sw = list_ex (\<lambda>i. si_address_type i \<noteq> ''p2sh'') inputs;
          p2sh = list_ex (\<lambda>i. si_address_type i = ''p2sh'') inputs;
          sigs0 = replicate (length inputs) [];
          (d1, r1) = (if sw then sign_half dev True (sw_steps version locktime outs) lookup inputs sigs0 d
                      else (d, SignFinished sigs0))
      in if \<not> p2sh then (d1, r1)
         else (case r1 of
             SignFinished sigs1 \<Rightarrow>
               sign_half dev False (non_sw_steps version locktime outs) lookup inputs sigs1 d1
           | _ \<Rightarrow> (d1, r1)))"

section \<open>Small conversations\<close>

text \<open>
  Messages: \<open>size\<close> counts UTF-16 units and \<open>toLocal8Bit\<close> gives bytes; the model is for
  messages of ASCII text, where the two agree.
\<close>

definition bytes_of_text :: "string \<Rightarrow> bytes" where
  "bytes_of_text s = map (\<lambda>c. of_nat (of_char c)) s"

definition sign_message_prepare :: "string \<Rightarrow> 32 word list \<Rightarrow> bytes option" where
  "sign_message_prepare message path = apdu 0xe0 0x4e 0x00 0x01
     ([of_nat (length path)] @ concat (map be32 path) @ [0, of_nat (length message)] @ bytes_of_text message)"

definition sign_message_sign :: "bytes option" where
  "sign_message_sign = apdu 0xe0 0x4e 0x80 0x01 [1, 0]"

text \<open>The first byte of the answer is replaced; an empty one grows.\<close>

definition message_signature_of :: "bytes \<Rightarrow> bytes" where
  "message_signature_of r = 0x30 # drop 1 r"

definition sign_message :: "('d \<Rightarrow> bytes \<Rightarrow> 'd \<times> bytes option) \<Rightarrow> string \<Rightarrow> 32 word list \<Rightarrow> 'd
    \<Rightarrow> 'd \<times> bytes option option" where
  "sign_message dev message path d = (case sign_message_prepare message path of
     None \<Rightarrow> (d, None)
   | Some p \<Rightarrow> (case dev d p of
       (d1, None) \<Rightarrow> (d1, Some None)
     | (d1, Some _) \<Rightarrow> (case sign_message_sign of
         None \<Rightarrow> (d1, None)
       | Some p2 \<Rightarrow> (case dev d1 p2 of
           (d2, r) \<Rightarrow> (d2, Some (map_option message_signature_of r))))))"

definition get_wallet_public_key_command :: "32 word list \<Rightarrow> bytes option" where
  "get_wallet_public_key_command path =
     apdu 0xe0 0x40 0 0 ([of_nat (length path)] @ concat (map be32 path))"

text \<open>\<open>QByteArray(n, 0)\<close> filled from the stream: what the answer lacks stays zero.\<close>

definition fill :: "nat \<Rightarrow> bytes \<Rightarrow> bytes" where
  "fill n s = take n s @ replicate (n - length s) 0"

definition parse_wallet_public_key :: "bytes \<Rightarrow> (bytes \<times> bytes) option" where
  "parse_wallet_public_key r =
     (let (pubkey_len, s1) = read_u8 r; pubkey = fill (unat pubkey_len) s1; s2 = drop (unat pubkey_len) s1;
          (address_len, s3) = read_u8 s2; s4 = drop (unat address_len) s3
      in map_option (\<lambda>k. (k, fill 32 s4)) (compress_public_key pubkey))"

definition get_blinding_key_command :: "string \<Rightarrow> bytes option" where
  "get_blinding_key_command script = apdu 0xe0 0xe2 0 0 (from_hex script)"

text \<open>\<open>uncompressed\<close> is libwally's decompression of the public key.\<close>

definition get_blinding_nonce_command :: "bytes \<Rightarrow> bytes \<Rightarrow> bytes option" where
  "get_blinding_nonce_command uncompressed script = apdu 0xe0 0xe4 0 0 (uncompressed @ script)"

definition parse_blinding_nonce :: "bytes \<Rightarrow> bytes option" where
  "parse_blinding_nonce r = (if length r = 32 then Some r else None)"

end
