(* ===== verification/Resolvers.thy ===== *)
theory Resolvers
  imports Task_Kinds Ledger_Sign
begin

text \<open>
  Resolvers (\<open>src/resolver.cpp\<close>, \<open>src/signmessageresolver.cpp\<close>): what a task needs from a
  device is asked for, one activity after the other, and handed back to the wallet library as one
  object.  Activities (\<open>src/activity.cpp\<close>), and the queue that lets only one of them ask for a
  public key at a time (\<open>src/deviceactivities.cpp\<close>).
\<close>

section \<open>Activities\<close>

datatype activity_status = ActivityPending | ActivityFinished | ActivityFailed

datatype activity_signal = StatusChanged activity_status | SignalFinished | SignalFailed

text \<open>\<open>None\<close> is the violated assertion: an activity ends once.\<close>

definition activity_finish :: "activity_status \<Rightarrow> (activity_status \<times> activity_signal list) option" where
  "activity_finish st = (if st = ActivityPending
     then Some (ActivityFinished, [StatusChanged ActivityFinished, SignalFinished]) else None)"

definition activity_fail :: "activity_status \<Rightarrow> (activity_status \<times> activity_signal list) option" where
  "activity_fail st = (if st = ActivityPending
     then Some (ActivityFailed, [StatusChanged ActivityFailed, SignalFailed]) else None)"

subsection \<open>Public keys, one at a time\<close>

text \<open>Activities are numbered; \<open>Fetch\<close> starts one.\<close>

record key_dispatcher =
  kd_queue :: "nat list"
  kd_activity :: "nat option"

datatype key_event = KeyExec nat | KeyEnded nat

datatype key_output = Fetch nat

definition new_key_dispatcher :: key_dispatcher where
  "new_key_dispatcher = \<lparr>kd_queue = [], kd_activity = None\<rparr>"

definition dispatch_next :: "key_dispatcher \<Rightarrow> key_dispatcher \<times> key_output list" where
  "dispatch_next k =
     (if kd_activity k \<noteq> None then (k, [])
      else (case kd_queue k of
          [] \<Rightarrow> (k, [])
        | a # rest \<Rightarrow> (k\<lparr>kd_queue := rest, kd_activity := Some a\<rparr>, [Fetch a])))"

definition dispatch_enqueue :: "nat \<Rightarrow> key_dispatcher \<Rightarrow> key_dispatcher \<times> key_output list" where
  "dispatch_enqueue a k = dispatch_next (k\<lparr>kd_queue := kd_queue k @ [a]\<rparr>)"

text \<open>An activity that has been started finishes or fails; the others have no connection.\<close>

definition dispatch_ended :: "nat \<Rightarrow> key_dispatcher \<Rightarrow> key_dispatcher \<times> key_output list" where
  "dispatch_ended a k = (if kd_activity k = Some a then dispatch_next (k\<lparr>kd_activity := None\<rparr>) else (k, []))"

fun key_step :: "key_dispatcher \<Rightarrow> key_event \<Rightarrow> key_dispatcher \<times> key_output list" where
  "key_step k (KeyExec a) = dispatch_enqueue a k"
| "key_step k (KeyEnded a) = dispatch_ended a k"

section \<open>Resolvers\<close>

text \<open>What is asked of a device, and what an activity reports when it has finished.\<close>

datatype device_request =
    GetWalletPublicKey "32 word list"
  | SignMessage string "32 word list" "(bytes \<times> bytes) option"
  | SignTransaction bytes "json list" "json list" jobject
  | SignLiquidTransaction bytes "json list" "json list"
  | GetBlindingKey string
  | GetBlindingNonce bytes bytes
  | GetMasterBlindingKey
  | GetBlindingFactors "json list" "json list"

record device_answer =
  da_public_key :: bytes
  da_signature :: bytes
  da_signer_commitment :: bytes
  da_signatures :: "bytes list"
  da_signer_commitments :: "bytes list"
  da_nonce :: bytes
  da_master_blinding_key :: bytes
  da_asset_blinders :: "bytes list"
  da_amount_blinders :: "bytes list"

datatype device_reply = Answer device_answer | Failure jobject

text \<open>\<open>r_pending\<close> is the request of the activity that is running.\<close>

record device_resolver =
  r_kind :: resolver
  r_required_data :: jobject
  r_paths :: "32 word list list"
  r_xpubs :: "json list"
  r_scripts :: "json list"
  r_public_keys :: "json list"
  r_nonces :: "json list"
  r_blinding_keys :: "json list"
  r_pending :: "device_request option"
  r_activity :: bool

datatype resolver_output =
    ExecActivity device_request
  | Resolved jobject
  | ResolverFailed string
  | ResolverProgress nat nat
  | ActivityChanged
  | ResolverUnreachable

definition hex_json :: "bytes \<Rightarrow> json" where
  "hex_json b = JStr (to_hex b)"

text \<open>The constructors; \<open>None\<close> is a violated assertion.\<close>

definition new_device_resolver :: "resolver \<Rightarrow> bool \<Rightarrow> jobject \<Rightarrow> device_resolver option" where
  "new_device_resolver kind liquid result =
     (let required = to_object (jvalue result ''required_data'');
          scripts = to_array (jvalue required ''scripts'');
          public_keys = to_array (jvalue required ''public_keys'');
          r = \<lparr>r_kind = kind, r_required_data = required, r_paths = [], r_xpubs = [], r_scripts = [],
               r_public_keys = [], r_nonces = [], r_blinding_keys = [], r_pending = None, r_activity = False\<rparr>
      in if \<not> jcontains required ''device'' then None
         else (case kind of
             GetXPubsResolver \<Rightarrow>
               Some (r\<lparr>r_paths := map (\<lambda>p. map to_u32 (to_array p)) (to_array (jvalue required ''paths''))\<rparr>)
           | BlindingKeysResolver \<Rightarrow> Some (r\<lparr>r_scripts := scripts\<rparr>)
           | BlindingNoncesResolver \<Rightarrow>
               if length scripts = length public_keys
               then Some (r\<lparr>r_scripts := scripts, r_public_keys := public_keys\<rparr>) else None
           | SignLiquidTransactionResolver \<Rightarrow>
               if liquid \<and> to_string (jvalue required ''action'') = ''sign_tx'' then Some r else None
           | _ \<Rightarrow> Some r))"

definition blinding_keys_required :: "device_resolver \<Rightarrow> bool" where
  "blinding_keys_required r = to_bool (jvalue (r_required_data r) ''blinding_keys_required'')"

definition use_ae_protocol :: "device_resolver \<Rightarrow> bool" where
  "use_ae_protocol r = to_bool (jvalue (r_required_data r) ''use_ae_protocol'')"

definition get_activity_error :: "jobject \<Rightarrow> string \<Rightarrow> string" where
  "get_activity_error message fallback =
     (let error = to_string (jvalue message ''message'') in if error = [] then fallback else error)"

definition ask :: "device_request \<Rightarrow> device_resolver \<Rightarrow> device_resolver \<times> resolver_output list" where
  "ask q r = (r\<lparr>r_pending := Some q\<rparr>, [ExecActivity q])"

text \<open>\<open>exec\<close> and then \<open>pushActivity\<close>.\<close>

definition ask_shown :: "device_request \<Rightarrow> device_resolver \<Rightarrow> device_resolver \<times> resolver_output list" where
  "ask_shown q r =
     (if r_activity r then (r\<lparr>r_pending := Some q\<rparr>, [ExecActivity q, ResolverUnreachable])
      else (r\<lparr>r_pending := Some q, r_activity := True\<rparr>, [ExecActivity q, ActivityChanged]))"

definition resolve_xpubs :: "device_resolver \<Rightarrow> device_resolver \<times> resolver_output list" where
  "resolve_xpubs r =
     (let progress = ResolverProgress (length (r_xpubs r)) (length (r_xpubs r) + length (r_paths r))
      in case r_paths r of
           [] \<Rightarrow> (r, [progress, Resolved (jobj [(''xpubs'', JArr (r_xpubs r))])])
         | p # ps \<Rightarrow> (let (r1, out) = ask (GetWalletPublicKey p) (r\<lparr>r_paths := ps\<rparr>) in (r1, progress # out)))"

definition resolve_sign_transaction :: "device_resolver \<Rightarrow> device_resolver \<times> resolver_output list" where
  "resolve_sign_transaction r = (let d = r_required_data r in
     if to_string (jvalue d ''action'') \<noteq> ''sign_tx'' then (r, [ResolverUnreachable])
     else ask (SignTransaction (parse_byte_array (jvalue d ''transaction'')) (to_array (jvalue d ''transaction_inputs''))
       (to_array (jvalue d ''transaction_outputs'')) (to_object (jvalue d ''signing_transactions''))) r)"

definition resolve_blinding_keys :: "device_resolver \<Rightarrow> device_resolver \<times> resolver_output list" where
  "resolve_blinding_keys r =
     (let n = length (r_public_keys r)
      in if n = length (r_scripts r) then (r, [Resolved (jobj [(''public_keys'', JArr (r_public_keys r))])])
         else ask (GetBlindingKey (to_string (r_scripts r ! n))) r)"

definition resolve_blinding_nonces :: "device_resolver \<Rightarrow> device_resolver \<times> resolver_output list" where
  "resolve_blinding_nonces r =
     (let index = length (r_nonces r)
      in if index = length (r_scripts r)
         then (r, [Resolved (jobj [(''nonces'', JArr (r_nonces r)), (''public_keys'', JArr (r_blinding_keys r))])])
         else ask (GetBlindingNonce (from_hex (to_string (r_public_keys r ! index)))
           (from_hex (to_string (r_scripts r ! index)))) r)"

definition resolve_sign_message :: "bool \<Rightarrow> device_resolver \<Rightarrow> device_resolver \<times> resolver_output list" where
  "resolve_sign_message connected r = (let d = r_required_data r in
     if \<not> connected then (r, [])
     else ask_shown (SignMessage (to_string (jvalue d ''message'')) (parse_path (jvalue d ''path''))
       (if use_ae_protocol r then Some (parse_byte_array (jvalue d ''ae_host_commitment''),
          parse_byte_array (jvalue d ''ae_host_entropy'')) else None)) r)"

definition resolve_sign_liquid :: "device_resolver \<Rightarrow> device_resolver \<times> resolver_output list" where
  "resolve_sign_liquid r = (let d = r_required_data r in
     ask_shown (SignLiquidTransaction (parse_byte_array (jvalue d ''transaction''))
       (to_array (jvalue d ''transaction_inputs'')) (to_array (jvalue d ''transaction_outputs''))) r)"

definition resolve_blinding_factors :: "device_resolver \<Rightarrow> device_resolver \<times> resolver_output list" where
  "resolve_blinding_factors r = (let d = r_required_data r in
     ask_shown (GetBlindingFactors (to_array (jvalue d ''transaction_inputs''))
       (to_array (jvalue d ''transaction_outputs''))) r)"

text \<open>\<open>resolve\<close>; \<open>connected\<close> tells whether the device is connected when it is called.\<close>

definition resolve :: "bool \<Rightarrow> device_resolver \<Rightarrow> device_resolver \<times> resolver_output list" where
  "resolve connected r = (case r_kind r of
     GetXPubsResolver \<Rightarrow> resolve_xpubs r
   | SignMessageResolver \<Rightarrow> resolve_sign_message connected r
   | BlindingKeysResolver \<Rightarrow> resolve_blinding_keys r
   | BlindingNoncesResolver \<Rightarrow> resolve_blinding_nonces r
   | SignLiquidTransactionResolver \<Rightarrow> resolve_sign_liquid r
   | SignTransactionResolver \<Rightarrow> resolve_sign_transaction r
   | GetMasterBlindingKeyResolver \<Rightarrow> ask_shown GetMasterBlindingKey r
   | GetBlindingFactorsResolver \<Rightarrow> resolve_blinding_factors r)"

text \<open>The data a signature ends with; \<open>signer_commitments\<close> only with the protocol for them.\<close>

definition signed_data :: "device_resolver \<Rightarrow> device_answer \<Rightarrow> jobject" where
  "signed_data r a = jobj ((''signatures'', JArr (map hex_json (da_signatures a)))
     # (if use_ae_protocol r
        then [(''signer_commitments'', JArr (map hex_json (da_signer_commitments a)))] else []))"

definition message_data :: "device_resolver \<Rightarrow> device_answer \<Rightarrow> jobject" where
  "message_data r a = jobj ((''signature'', hex_json (da_signature a))
     # (if use_ae_protocol r then [(''signer_commitment'', hex_json (da_signer_commitment a))] else []))"

definition factors_data :: "device_answer \<Rightarrow> jobject" where
  "factors_data a = jobj [(''assetblinders'', JArr (map hex_json (da_asset_blinders a))),
     (''amountblinders'', JArr (map hex_json (da_amount_blinders a)))]"

text \<open>The slots of \<open>finished\<close>: \<open>q\<close> is the request that has been answered.\<close>

definition nonce_answered :: "device_request \<Rightarrow> device_answer \<Rightarrow> device_resolver
    \<Rightarrow> device_resolver \<times> resolver_output list" where
  "nonce_answered q a r = (case q of
     GetBlindingNonce _ _ \<Rightarrow>
       (let index = length (r_nonces r); r1 = r\<lparr>r_nonces := r_nonces r @ [hex_json (da_nonce a)]\<rparr>
        in if blinding_keys_required r then ask (GetBlindingKey (to_string (r_scripts r ! index))) r1
           else resolve_blinding_nonces r1)
   | _ \<Rightarrow> resolve_blinding_nonces
       (r\<lparr>r_blinding_keys := r_blinding_keys r @ [hex_json (da_public_key a)]\<rparr>))"

definition activity_finished :: "device_request \<Rightarrow> device_answer \<Rightarrow> device_resolver
    \<Rightarrow> device_resolver \<times> resolver_output list" where
  "activity_finished q a r = (case r_kind r of
     GetXPubsResolver \<Rightarrow> resolve_xpubs (r\<lparr>r_xpubs := r_xpubs r @ [JStr (text_of (da_public_key a))]\<rparr>)
   | BlindingKeysResolver \<Rightarrow>
       resolve_blinding_keys (r\<lparr>r_public_keys := r_public_keys r @ [hex_json (da_public_key a)]\<rparr>)
   | BlindingNoncesResolver \<Rightarrow> nonce_answered q a r
   | SignMessageResolver \<Rightarrow> (r, [Resolved (message_data r a)])
   | SignLiquidTransactionResolver \<Rightarrow> (r, [Resolved (signed_data r a)])
   | SignTransactionResolver \<Rightarrow> (r, [Resolved (signed_data r a)])
   | GetMasterBlindingKeyResolver \<Rightarrow>
       (r, [Resolved (jobj [(''master_blinding_key'', hex_json (da_master_blinding_key a))])])
   | GetBlindingFactorsResolver \<Rightarrow> (r, [Resolved (factors_data a)]))"

text \<open>The texts of the slots of \<open>failed\<close>, which name what was asked for.\<close>

definition default_error :: "device_request \<Rightarrow> string" where
  "default_error q = (case q of
     GetWalletPublicKey _ \<Rightarrow> ''Failed to get wallet public key''
   | SignMessage _ _ _ \<Rightarrow> ''Failed to sign message''
   | SignTransaction _ _ _ _ \<Rightarrow> ''Failed to sign transaction''
   | SignLiquidTransaction _ _ _ \<Rightarrow> ''Failed to sign liquid transaction''
   | GetBlindingKey _ \<Rightarrow> ''Failed to get blinding key''
   | GetBlindingNonce _ _ \<Rightarrow> ''Failed to get blinding nonce''
   | GetMasterBlindingKey \<Rightarrow> ''Failed to get master blinding key''
   | GetBlindingFactors _ _ \<Rightarrow> ''Failed to get blinding factors'')"

datatype resolver_event = Resolve bool | DeviceReply device_reply | ActivityDestroyed

definition replied :: "device_reply \<Rightarrow> device_resolver \<Rightarrow> device_resolver \<times> resolver_output list" where
  "replied reply r = (case r_pending r of
     None \<Rightarrow> (r, [])
   | Some q \<Rightarrow> (let r1 = r\<lparr>r_pending := None\<rparr> in case reply of
       Answer a \<Rightarrow> activity_finished q a r1
     | Failure message \<Rightarrow> (r1, [ResolverFailed (get_activity_error message (default_error q))])))"

fun resolver_step :: "device_resolver \<Rightarrow> resolver_event \<Rightarrow> device_resolver \<times> resolver_output list" where
  "resolver_step r (Resolve connected) = resolve connected r"
| "resolver_step r (DeviceReply reply) = replied reply r"
| "resolver_step r ActivityDestroyed =
     (if r_activity r then (r\<lparr>r_activity := False\<rparr>, [ActivityChanged]) else (r, []))"

section \<open>The path of a message\<close>

text \<open>
  \<open>wallet_bip32_path_as_str\<close> into a buffer of \<open>len\<close> bytes: \<open>pos\<close> is where the next part goes,
  \<open>text\<close> what the buffer holds up to its terminating zero.  \<open>snprintf\<close> writes at most one
  byte less than the space it is given, and returns the length it would have needed.
\<close>

definition is_hardened :: "32 word \<Rightarrow> bool" where
  "is_hardened n \<longleftrightarrow> n AND 0x80000000 \<noteq> 0"

definition unharden :: "32 word \<Rightarrow> 32 word" where
  "unharden n = n AND NOT 0x80000000"

definition path_part :: "32 word \<Rightarrow> string" where
  "path_part val = (if is_hardened val then ''/'' @ string_of_nat (unat (unharden val)) @ [CHR 0x27]
     else ''/'' @ string_of_nat (unat val))"

fun path_loop :: "nat \<Rightarrow> nat \<Rightarrow> string \<Rightarrow> 32 word list \<Rightarrow> string \<times> bool" where
  "path_loop len pos text [] = (text, True)"
| "path_loop len pos text (val # vals) =
     (let freespace = len - pos; part = path_part val;
          text' = (if freespace = 0 then text else take pos text @ take (freespace - 1) part)
      in if length part > freespace then (text', False)
         else path_loop len (pos + length part) text' vals)"

definition bip32_path_as_str :: "nat \<Rightarrow> 32 word list \<Rightarrow> string \<times> bool" where
  "bip32_path_as_str len parts = path_loop len 1 ''m'' parts"

text \<open>\<open>SignMessageResolver::path\<close> does not look at the result of the conversion.\<close>

definition message_path :: "32 word list \<Rightarrow> string" where
  "message_path path = fst (bip32_path_as_str 1024 path)"

section \<open>Two-factor codes\<close>

record two_factor_resolver =
  tf_result :: jobject
  tf_method :: string
  tf_attempts_remaining :: int
  tf_code :: string

datatype two_factor_signal = AttemptsRemainingChanged | InvalidCodeSignal | CodeChanged string

definition new_two_factor_resolver :: "jobject \<Rightarrow> two_factor_resolver" where
  "new_two_factor_resolver result = \<lparr>tf_result = result, tf_method = to_string (jvalue result ''method''),
     tf_attempts_remaining = to_int (jvalue result ''attempts_remaining''), tf_code = []\<rparr>"

definition two_factor_retry :: "jobject \<Rightarrow> two_factor_resolver \<Rightarrow> two_factor_resolver \<times> two_factor_signal list" where
  "two_factor_retry result r =
     (r\<lparr>tf_attempts_remaining := to_int (jvalue result ''attempts_remaining'')\<rparr>,
      [AttemptsRemainingChanged, InvalidCodeSignal])"

definition set_code :: "string \<Rightarrow> two_factor_resolver \<Rightarrow> two_factor_resolver \<times> two_factor_signal list" where
  "set_code code r = (if tf_code r = code then (r, []) else (r\<lparr>tf_code := code\<rparr>, [CodeChanged code]))"

definition telegram_browser_url :: "two_factor_resolver \<Rightarrow> string option" where
  "telegram_browser_url r = (if tf_method r = ''telegram''
     then Some (to_string (jvalue (to_object (jvalue (tf_result r) ''auth_data'')) ''telegram_url'')) else None)"

definition telegram_app_url :: "two_factor_resolver \<Rightarrow> string option" where
  "telegram_app_url r = map_option (\<lambda>url. replace_all ''?start='' ''&start=''
     (replace_all ''https://t.me/'' ''tg://resolve?domain='' url)) (telegram_browser_url r)"

end
