(* ===== verification/Resolver_Props.thy ===== *)
theory Resolver_Props
  imports Resolvers
begin

text \<open>
  What resolvers and the queue for public keys promise: every resolver behaves as a plain loop
  over its requests, and public keys are asked for one at a time, in order.
\<close>

section \<open>Public keys, one at a time\<close>

fun exec_id :: "key_event \<Rightarrow> nat list" where
  "exec_id (KeyExec a) = [a]"
| "exec_id (KeyEnded a) = []"

fun fetch_id :: "key_output \<Rightarrow> nat" where
  "fetch_id (Fetch a) = a"

text \<open>\<open>asked\<close>: the activities handed over; \<open>fetched\<close>: those started.\<close>

definition key_ok :: "nat list \<Rightarrow> nat list \<Rightarrow> key_dispatcher \<Rightarrow> bool" where
  "key_ok asked fetched k \<longleftrightarrow> asked = fetched @ kd_queue k \<and>
     (case kd_activity k of None \<Rightarrow> kd_queue k = [] | Some a \<Rightarrow> fetched \<noteq> [] \<and> last fetched = a)"

lemma key_step_ok:
  assumes "key_ok asked fetched k"
  shows "key_ok (asked @ exec_id e) (fetched @ map fetch_id (snd (key_step k e))) (fst (key_step k e))"
  using assms
  by (cases e; cases "kd_activity k"; cases "kd_queue k")
    (auto simp: key_ok_def dispatch_enqueue_def dispatch_ended_def dispatch_next_def)

lemma key_run_ok:
  assumes "key_ok asked fetched k"
  shows "key_ok (asked @ concat (map exec_id es)) (fetched @ map fetch_id (snd (run key_step k es)))
    (fst (run key_step k es))"
  using assms
proof (induction es arbitrary: asked fetched k)
  case (Cons e es)
  from Cons.IH [OF key_step_ok [OF Cons.prems, of e]] show ?case by (simp add: append_assoc)
qed simp

text \<open>
  C13.  Public keys are asked for one at a time and none is forgotten: whatever activities are
  executed and whatever ends when, those started are the first of those handed over, in order, the
  rest is queued, the queue is empty when nothing runs, and while an activity runs nothing but its
  own end starts another.
\<close>

theorem keys_one_at_a_time:
  "let k = fst (run key_step new_key_dispatcher es); fetched = map fetch_id (snd (run key_step new_key_dispatcher es))
   in concat (map exec_id es) = fetched @ kd_queue k \<and>
      (case kd_activity k of
         None \<Rightarrow> kd_queue k = []
       | Some a \<Rightarrow> fetched \<noteq> [] \<and> last fetched = a \<and> {e. snd (key_step k e) \<noteq> []} \<subseteq> {KeyEnded a})"
proof -
  define k where "k = fst (run key_step new_key_dispatcher es)"
  have "key_ok [] [] new_key_dispatcher" by (simp add: key_ok_def new_key_dispatcher_def)
  from key_run_ok [OF this, of es]
  have ok: "key_ok (concat (map exec_id es)) (map fetch_id (snd (run key_step new_key_dispatcher es))) k"
    by (simp add: k_def)
  have "{e. snd (key_step k e) \<noteq> []} \<subseteq> {KeyEnded a}" if "kd_activity k = Some a" for a
  proof
    fix e assume "e \<in> {e. snd (key_step k e) \<noteq> []}"
    with that show "e \<in> {KeyEnded a}"
      by (cases e) (auto simp: dispatch_enqueue_def dispatch_ended_def dispatch_next_def split: if_splits)
  qed
  with ok show ?thesis
    unfolding k_def [symmetric] Let_def key_ok_def by (simp split: option.splits)
qed

section \<open>Resolvers as loops\<close>

text \<open>
  The requests of a resolver, in order, what it does with the answers, and the plain loop: ask,
  wait for the answer, go on, or stop at the first failure.
\<close>

definition nonce_requests :: "bool \<Rightarrow> json \<Rightarrow> json \<Rightarrow> device_request list" where
  "nonce_requests keys script public_key =
     GetBlindingNonce (from_hex (to_string public_key)) (from_hex (to_string script))
       # (if keys then [GetBlindingKey (to_string script)] else [])"

definition resolver_requests :: "device_resolver \<Rightarrow> device_request list" where
  "resolver_requests r = (let d = r_required_data r in case r_kind r of
     GetXPubsResolver \<Rightarrow> map GetWalletPublicKey (r_paths r)
   | BlindingKeysResolver \<Rightarrow> map (GetBlindingKey \<circ> to_string) (r_scripts r)
   | BlindingNoncesResolver \<Rightarrow>
       concat (map (case_prod (nonce_requests (blinding_keys_required r))) (zip (r_scripts r) (r_public_keys r)))
   | SignMessageResolver \<Rightarrow> [SignMessage (to_string (jvalue d ''message'')) (parse_path (jvalue d ''path''))
       (if use_ae_protocol r then Some (parse_byte_array (jvalue d ''ae_host_commitment''),
          parse_byte_array (jvalue d ''ae_host_entropy'')) else None)]
   | SignLiquidTransactionResolver \<Rightarrow> [SignLiquidTransaction (parse_byte_array (jvalue d ''transaction''))
       (to_array (jvalue d ''transaction_inputs'')) (to_array (jvalue d ''transaction_outputs''))]
   | SignTransactionResolver \<Rightarrow> [SignTransaction (parse_byte_array (jvalue d ''transaction''))
       (to_array (jvalue d ''transaction_inputs'')) (to_array (jvalue d ''transaction_outputs''))
       (to_object (jvalue d ''signing_transactions''))]
   | GetMasterBlindingKeyResolver \<Rightarrow> [GetMasterBlindingKey]
   | GetBlindingFactorsResolver \<Rightarrow> [GetBlindingFactors (to_array (jvalue d ''transaction_inputs''))
       (to_array (jvalue d ''transaction_outputs''))])"

fun evens :: "'a list \<Rightarrow> 'a list" where
  "evens (x # y # xs) = x # evens xs"
| "evens xs = xs"

fun odds :: "'a list \<Rightarrow> 'a list" where
  "odds (x # y # xs) = y # odds xs"
| "odds xs = []"

definition resolver_data :: "device_resolver \<Rightarrow> device_answer list \<Rightarrow> jobject" where
  "resolver_data r as = (case r_kind r of
     GetXPubsResolver \<Rightarrow> jobj [(''xpubs'', JArr (map (JStr \<circ> text_of \<circ> da_public_key) as))]
   | BlindingKeysResolver \<Rightarrow> jobj [(''public_keys'', JArr (map (hex_json \<circ> da_public_key) as))]
   | BlindingNoncesResolver \<Rightarrow>
       (let keys = blinding_keys_required r
        in jobj [(''nonces'', JArr (map (hex_json \<circ> da_nonce) (if keys then evens as else as))),
                 (''public_keys'', JArr (if keys then map (hex_json \<circ> da_public_key) (odds as) else []))])
   | SignMessageResolver \<Rightarrow> message_data r (hd as)
   | SignLiquidTransactionResolver \<Rightarrow> signed_data r (hd as)
   | SignTransactionResolver \<Rightarrow> signed_data r (hd as)
   | GetMasterBlindingKeyResolver \<Rightarrow> jobj [(''master_blinding_key'', hex_json (da_master_blinding_key (hd as)))]
   | GetBlindingFactorsResolver \<Rightarrow> factors_data (hd as))"

fun ask_all :: "(device_answer list \<Rightarrow> jobject) \<Rightarrow> device_answer list \<Rightarrow> device_request list
    \<Rightarrow> device_reply list \<Rightarrow> resolver_output list" where
  "ask_all finish got [] replies = [Resolved (finish got)]"
| "ask_all finish got (q # qs) [] = [ExecActivity q]"
| "ask_all finish got (q # qs) (Answer a # replies) = ExecActivity q # ask_all finish (got @ [a]) qs replies"
| "ask_all finish got (q # qs) (Failure m # replies) =
     [ExecActivity q, ResolverFailed (get_activity_error m (default_error q))]"

text \<open>Progress and the activity that is shown are for the user interface.\<close>

fun essential :: "resolver_output \<Rightarrow> bool" where
  "essential (ResolverProgress _ _) \<longleftrightarrow> False"
| "essential ActivityChanged \<longleftrightarrow> False"
| "essential _ \<longleftrightarrow> True"

definition continued :: "device_resolver \<times> resolver_output list \<Rightarrow> device_reply list \<Rightarrow> resolver_output list" where
  "continued rout replies =
     filter essential (snd rout @ snd (run resolver_step (fst rout) (map DeviceReply replies)))"

lemma run_idle: "r_pending r = None \<Longrightarrow> run resolver_step r (map DeviceReply replies) = (r, [])"
  by (induction replies) (simp_all add: run.simps replied_def)

lemma continued_end: "r_pending r = None \<Longrightarrow> continued (r, out) replies = filter essential out"
  by (simp add: continued_def run_idle)

lemma continued_ask:
  assumes "filter essential out = [ExecActivity q]" and "r_pending r = Some q"
  shows "continued (r, out) [] = [ExecActivity q]"
    and "continued (r, out) (Failure m # replies) = [ExecActivity q, ResolverFailed (get_activity_error m (default_error q))]"
    and "continued (r, out) (Answer a # replies) =
      ExecActivity q # continued (activity_finished q a (r\<lparr>r_pending := None\<rparr>)) replies"
  using assms by (simp_all add: continued_def replied_def run_idle case_prod_beta Let_def)

text \<open>One turn of the loop: a request is out, and its answer leads on as the loop does.\<close>

lemma continued_turn:
  assumes "filter essential out = [ExecActivity q]" and "r_pending r = Some q"
    and "\<And>a rest. continued (activity_finished q a (r\<lparr>r_pending := None\<rparr>)) rest = ask_all finish (got @ [a]) qs rest"
  shows "continued (r, out) replies = ask_all finish got (q # qs) replies"
proof (cases replies)
  case Nil
  with continued_ask(1) [OF assms(1,2)] show ?thesis by simp
next
  case (Cons reply rest)
  with continued_ask(2,3) [OF assms(1,2)] assms(3) show ?thesis by (cases reply) simp_all
qed

lemma xpubs_loop:
  assumes "r_kind r = GetXPubsResolver" and "r_pending r = None"
    and "r_xpubs r = map (JStr \<circ> text_of \<circ> da_public_key) got"
  shows "continued (resolve_xpubs r) replies =
    ask_all (\<lambda>as. jobj [(''xpubs'', JArr (map (JStr \<circ> text_of \<circ> da_public_key) as))]) got
      (map GetWalletPublicKey (r_paths r)) replies"
  using assms
proof (induction "r_paths r" arbitrary: r got replies)
  case Nil
  then show ?case by (simp add: resolve_xpubs_def continued_end)
next
  case (Cons p ps)
  note paths = \<open>p # ps = r_paths r\<close> [symmetric]
  have start: "resolve_xpubs r = (r\<lparr>r_paths := ps, r_pending := Some (GetWalletPublicKey p)\<rparr>,
      [ResolverProgress (length (r_xpubs r)) (length (r_xpubs r) + length (r_paths r)),
       ExecActivity (GetWalletPublicKey p)])"
    by (simp add: resolve_xpubs_def ask_def paths)
  show ?case
    unfolding start paths list.map
  proof (rule continued_turn)
    fix a :: device_answer and rest
    let ?r1 = "r\<lparr>r_paths := ps, r_pending := None, r_xpubs := r_xpubs r @ [JStr (text_of (da_public_key a))]\<rparr>"
    have "continued (resolve_xpubs ?r1) rest = ask_all (\<lambda>as. jobj [(''xpubs'', JArr (map (JStr \<circ> text_of \<circ> da_public_key) as))])
        (got @ [a]) (map GetWalletPublicKey (r_paths ?r1)) rest"
      by (rule Cons.hyps(1)) (use Cons.prems in simp_all)
    with Cons.prems show "continued (activity_finished (GetWalletPublicKey p) a
        (r\<lparr>r_paths := ps, r_pending := Some (GetWalletPublicKey p), r_pending := None\<rparr>)) rest =
      ask_all (\<lambda>as. jobj [(''xpubs'', JArr (map (JStr \<circ> text_of \<circ> da_public_key) as))]) (got @ [a])
        (map GetWalletPublicKey ps) rest"
      by (simp add: activity_finished_def)
  qed simp_all
qed

lemma keys_loop:
  assumes "r_kind r = BlindingKeysResolver" and "r_pending r = None" and "length got \<le> length (r_scripts r)"
    and "r_public_keys r = map (hex_json \<circ> da_public_key) got"
  shows "continued (resolve_blinding_keys r) replies =
    ask_all (\<lambda>as. jobj [(''public_keys'', JArr (map (hex_json \<circ> da_public_key) as))]) got
      (map (GetBlindingKey \<circ> to_string) (drop (length got) (r_scripts r))) replies"
  using assms
proof (induction "length (r_scripts r) - length got" arbitrary: r got replies)
  case 0
  then show ?case by (simp add: resolve_blinding_keys_def continued_end)
next
  case (Suc n)
  define q where "q = GetBlindingKey (to_string (r_scripts r ! length got))"
  have n: "length got < length (r_scripts r)" using Suc.hyps(2) by simp
  then have qs: "map (GetBlindingKey \<circ> to_string) (drop (length got) (r_scripts r)) =
      q # map (GetBlindingKey \<circ> to_string) (drop (Suc (length got)) (r_scripts r))"
    by (simp add: q_def flip: Cons_nth_drop_Suc)
  have start: "resolve_blinding_keys r = (r\<lparr>r_pending := Some q\<rparr>, [ExecActivity q])"
    using n Suc.prems(4) by (simp add: resolve_blinding_keys_def ask_def q_def Let_def)
  show ?case
    unfolding start qs
  proof (rule continued_turn)
    fix a :: device_answer and rest
    let ?r1 = "r\<lparr>r_pending := None, r_public_keys := r_public_keys r @ [hex_json (da_public_key a)]\<rparr>"
    have "continued (resolve_blinding_keys ?r1) rest =
        ask_all (\<lambda>as. jobj [(''public_keys'', JArr (map (hex_json \<circ> da_public_key) as))]) (got @ [a])
          (map (GetBlindingKey \<circ> to_string) (drop (length (got @ [a])) (r_scripts ?r1))) rest"
      by (rule Suc.hyps(1)) (use Suc.hyps(2) Suc.prems n in simp_all)
    with Suc.prems show "continued (activity_finished q a (r\<lparr>r_pending := Some q, r_pending := None\<rparr>)) rest =
      ask_all (\<lambda>as. jobj [(''public_keys'', JArr (map (hex_json \<circ> da_public_key) as))]) (got @ [a])
        (map (GetBlindingKey \<circ> to_string) (drop (Suc (length got)) (r_scripts r))) rest"
      by (simp add: activity_finished_def)
  qed simp_all
qed

lemma evens_append: "even (length xs) \<Longrightarrow> evens (xs @ [a, b]) = evens xs @ [a]"
  by (induction xs rule: evens.induct) auto

lemma odds_append: "even (length xs) \<Longrightarrow> odds (xs @ [a, b]) = odds xs @ [b]"
  by (induction xs rule: odds.induct) auto

abbreviation nonces_data :: "bool \<Rightarrow> device_answer list \<Rightarrow> jobject" where
  "nonces_data keys as \<equiv> jobj [(''nonces'', JArr (map (hex_json \<circ> da_nonce) (if keys then evens as else as))),
     (''public_keys'', JArr (if keys then map (hex_json \<circ> da_public_key) (odds as) else []))]"

text \<open>The answers so far, after whole rounds: a nonce, and its key where keys are required.\<close>

definition rounds_done :: "device_resolver \<Rightarrow> device_answer list \<Rightarrow> bool" where
  "rounds_done r got \<longleftrightarrow> r_kind r = BlindingNoncesResolver \<and> r_pending r = None \<and>
     length (r_scripts r) = length (r_public_keys r) \<and> length (r_nonces r) \<le> length (r_scripts r) \<and>
     (if blinding_keys_required r
      then even (length got) \<and> r_nonces r = map (hex_json \<circ> da_nonce) (evens got) \<and>
           r_blinding_keys r = map (hex_json \<circ> da_public_key) (odds got)
      else r_nonces r = map (hex_json \<circ> da_nonce) got \<and> r_blinding_keys r = [])"

lemma nonces_loop:
  assumes "rounds_done r got"
  shows "continued (resolve_blinding_nonces r) replies = ask_all (nonces_data (blinding_keys_required r)) got
    (concat (map (case_prod (nonce_requests (blinding_keys_required r)))
      (drop (length (r_nonces r)) (zip (r_scripts r) (r_public_keys r))))) replies"
  using assms
proof (induction "length (r_scripts r) - length (r_nonces r)" arbitrary: r got replies)
  case 0
  then have "length (r_nonces r) = length (r_scripts r)" by (simp add: rounds_done_def)
  with 0 show ?case by (auto simp: resolve_blinding_nonces_def continued_end rounds_done_def comp_def split: if_splits)
next
  case (Suc n)
  let ?i = "length (r_nonces r)"
  define q where "q = GetBlindingNonce (from_hex (to_string (r_public_keys r ! ?i))) (from_hex (to_string (r_scripts r ! ?i)))"
  define q2 where "q2 = GetBlindingKey (to_string (r_scripts r ! ?i))"
  let ?keys = "blinding_keys_required r"
  define qs where "qs = concat (map (case_prod (nonce_requests ?keys)) (drop (Suc ?i) (zip (r_scripts r) (r_public_keys r))))"
  have i: "?i < length (zip (r_scripts r) (r_public_keys r))" using Suc.hyps(2) Suc.prems by (simp add: rounds_done_def)
  have all: "concat (map (case_prod (nonce_requests ?keys)) (drop ?i (zip (r_scripts r) (r_public_keys r)))) =
      q # (if ?keys then [q2] else []) @ qs"
    using i by (simp add: qs_def q_def q2_def nonce_requests_def flip: Cons_nth_drop_Suc)
  have start: "resolve_blinding_nonces r = (r\<lparr>r_pending := Some q\<rparr>, [ExecActivity q])"
    using i by (simp add: resolve_blinding_nonces_def ask_def q_def Let_def)
  have pending: "r_pending r = None" using Suc.prems by (simp add: rounds_done_def)
  show ?case
    unfolding start all
  proof (rule continued_turn)
    fix a :: device_answer and rest
    let ?r1 = "r\<lparr>r_nonces := r_nonces r @ [hex_json (da_nonce a)]\<rparr>"
    have same: "r\<lparr>r_pending := Some q, r_pending := None\<rparr> = r" using pending by simp
    show "continued (activity_finished q a (r\<lparr>r_pending := Some q, r_pending := None\<rparr>)) rest =
        ask_all (nonces_data ?keys) (got @ [a]) ((if ?keys then [q2] else []) @ qs) rest"
    proof (cases ?keys)
      case False
      then have "rounds_done ?r1 (got @ [a])" using Suc.prems i by (simp add: rounds_done_def blinding_keys_required_def)
      from Suc.hyps(1) [OF _ this, of rest] Suc.hyps(2) False
      have "continued (resolve_blinding_nonces ?r1) rest = ask_all (nonces_data ?keys) (got @ [a]) qs rest"
        by (simp add: qs_def blinding_keys_required_def)
      moreover have "activity_finished q a r = resolve_blinding_nonces ?r1"
        using False Suc.prems by (simp add: activity_finished_def nonce_answered_def q_def rounds_done_def Let_def)
      ultimately show ?thesis using False same by simp
    next
      case True
      have fin: "activity_finished q a r = (?r1\<lparr>r_pending := Some q2\<rparr>, [ExecActivity q2])"
        using True Suc.prems
        by (simp add: activity_finished_def nonce_answered_def q_def q2_def rounds_done_def ask_def Let_def)
      have "continued (?r1\<lparr>r_pending := Some q2\<rparr>, [ExecActivity q2]) rest =
          ask_all (nonces_data ?keys) (got @ [a]) (q2 # qs) rest"
      proof (rule continued_turn)
        fix b :: device_answer and rest
        let ?r2 = "?r1\<lparr>r_blinding_keys := r_blinding_keys r @ [hex_json (da_public_key b)]\<rparr>"
        have "rounds_done ?r2 (got @ [a, b])"
          using True Suc.prems i
          by (simp add: rounds_done_def blinding_keys_required_def evens_append odds_append)
        from Suc.hyps(1) [OF _ this, of rest] Suc.hyps(2) True
        have "continued (resolve_blinding_nonces ?r2) rest = ask_all (nonces_data ?keys) (got @ [a, b]) qs rest"
          by (simp add: qs_def blinding_keys_required_def)
        moreover have "?r1\<lparr>r_pending := Some q2, r_pending := None\<rparr> = ?r1" using pending by simp
        then have "activity_finished q2 b (?r1\<lparr>r_pending := Some q2, r_pending := None\<rparr>) = resolve_blinding_nonces ?r2"
          using Suc.prems by (simp only:) (simp add: activity_finished_def nonce_answered_def q2_def rounds_done_def)
        ultimately show "continued (activity_finished q2 b (?r1\<lparr>r_pending := Some q2, r_pending := None\<rparr>)) rest =
            ask_all (nonces_data ?keys) ((got @ [a]) @ [b]) qs rest" by simp
      qed simp_all
      with fin True same show ?thesis by simp
    qed
  qed simp_all
qed

lemma shown_once:
  assumes "r_activity r = False"
    and "\<And>a. activity_finished q a (r\<lparr>r_activity := True, r_pending := None\<rparr>) =
      (r\<lparr>r_activity := True, r_pending := None\<rparr>, [Resolved (finish [a])])"
  shows "continued (ask_shown q r) replies = ask_all finish [] [q] replies"
proof -
  have start: "ask_shown q r = (r\<lparr>r_pending := Some q, r_activity := True\<rparr>, [ExecActivity q, ActivityChanged])"
    using assms(1) by (simp add: ask_shown_def)
  show ?thesis
    unfolding start
  proof (rule continued_turn)
    fix a :: device_answer and rest
    show "continued (activity_finished q a (r\<lparr>r_pending := Some q, r_activity := True, r_pending := None\<rparr>)) rest =
        ask_all finish ([] @ [a]) [] rest"
      by (simp add: assms(2) continued_end)
  qed simp_all
qed

lemma shown_kind:
  assumes "r_activity r = False" and "length (resolver_requests r) = 1"
    and "resolve True r = ask_shown (hd (resolver_requests r)) r"
    and "\<And>a. activity_finished (hd (resolver_requests r)) a (r\<lparr>r_activity := True, r_pending := None\<rparr>) =
      (r\<lparr>r_activity := True, r_pending := None\<rparr>, [Resolved (resolver_data r [a])])"
  shows "continued (resolve True r) replies = ask_all (resolver_data r) [] (resolver_requests r) replies"
proof -
  have "resolver_requests r = [hd (resolver_requests r)]" using assms(2) by (cases "resolver_requests r") simp_all
  with shown_once [OF assms(1,4)] assms(3) show ?thesis by simp
qed

lemmas shown_simps = resolve_def resolve_sign_message_def resolve_sign_liquid_def resolve_blinding_factors_def
  resolver_data_def resolver_requests_def activity_finished_def message_data_def signed_data_def use_ae_protocol_def
  Let_def

lemma transaction_once:
  assumes "r_kind r = SignTransactionResolver"
  shows "continued (ask q r) replies = ask_all (\<lambda>as. signed_data r (hd as)) [] [q] replies"
  unfolding ask_def
proof (rule continued_turn)
  fix a :: device_answer and rest
  show "continued (activity_finished q a (r\<lparr>r_pending := Some q, r_pending := None\<rparr>)) rest =
      ask_all (\<lambda>as. signed_data r (hd as)) ([] @ [a]) [] rest"
    using assms by (simp add: activity_finished_def continued_end signed_data_def use_ae_protocol_def)
qed simp_all

lemma resolver_data_eqs:
  "r_kind r = GetXPubsResolver \<Longrightarrow>
    resolver_data r = (\<lambda>as. jobj [(''xpubs'', JArr (map (JStr \<circ> text_of \<circ> da_public_key) as))])"
  "r_kind r = BlindingKeysResolver \<Longrightarrow>
    resolver_data r = (\<lambda>as. jobj [(''public_keys'', JArr (map (hex_json \<circ> da_public_key) as))])"
  "r_kind r = BlindingNoncesResolver \<Longrightarrow> resolver_data r = nonces_data (blinding_keys_required r)"
  "r_kind r = SignTransactionResolver \<Longrightarrow> resolver_data r = (\<lambda>as. signed_data r (hd as))"
  by (rule ext, simp add: resolver_data_def Let_def)+

lemma new_resolver_facts:
  assumes "new_device_resolver kind liquid result = Some r"
  shows "r_kind r = kind" and "r_pending r = None" and "r_activity r = False" and "r_xpubs r = []"
    and "kind = BlindingKeysResolver \<Longrightarrow> r_public_keys r = []"
    and "kind = BlindingNoncesResolver \<Longrightarrow> rounds_done r [] \<and> r_nonces r = []"
  using assms
  by (auto simp: new_device_resolver_def Let_def rounds_done_def split: if_splits resolver.splits)

text \<open>
  C15.  Every resolver, driven by the ends of its activities, does what a plain loop would: it
  asks the device for each item of the request in turn, never for the next before the last is
  answered, hands the answers back in the order of the items, once, and at the first failure it
  reports that failure, in the device's words if it has any, and asks nothing more.
\<close>

theorem resolver_is_loop:
  assumes "new_device_resolver kind liquid result = Some r"
    and "kind = SignTransactionResolver \<Longrightarrow> to_string (jvalue (r_required_data r) ''action'') = ''sign_tx''"
  shows "filter essential (snd (run resolver_step r (Resolve True # map DeviceReply replies))) =
    ask_all (resolver_data r) [] (resolver_requests r) replies"
proof -
  note new = new_resolver_facts [OF assms(1)]
  have run: "filter essential (snd (run resolver_step r (Resolve True # map DeviceReply replies))) =
      continued (resolve True r) replies"
    by (simp add: continued_def)
  show ?thesis
    unfolding run
  proof (cases kind)
    case GetXPubsResolver
    then show "continued (resolve True r) replies = ask_all (resolver_data r) [] (resolver_requests r) replies"
      using xpubs_loop [of r "[]" replies] new by (simp add: resolve_def resolver_data_eqs resolver_requests_def)
  next
    case BlindingKeysResolver
    then show "continued (resolve True r) replies = ask_all (resolver_data r) [] (resolver_requests r) replies"
      using keys_loop [of r "[]" replies] new by (simp add: resolve_def resolver_data_eqs resolver_requests_def)
  next
    case BlindingNoncesResolver
    then show "continued (resolve True r) replies = ask_all (resolver_data r) [] (resolver_requests r) replies"
      using nonces_loop [of r "[]" replies] new
      by (simp add: resolve_def resolver_data_eqs resolver_requests_def Let_def)
  next
    case SignTransactionResolver
    then show "continued (resolve True r) replies = ask_all (resolver_data r) [] (resolver_requests r) replies"
      using transaction_once [of r] assms(2) new
      by (simp add: resolve_def resolver_data_eqs resolver_requests_def resolve_sign_transaction_def Let_def)
  next
    case SignMessageResolver
    with new show "continued (resolve True r) replies = ask_all (resolver_data r) [] (resolver_requests r) replies"
      by (intro shown_kind) (simp_all add: shown_simps)
  next
    case SignLiquidTransactionResolver
    with new show "continued (resolve True r) replies = ask_all (resolver_data r) [] (resolver_requests r) replies"
      by (intro shown_kind) (simp_all add: shown_simps)
  next
    case GetMasterBlindingKeyResolver
    with new show "continued (resolve True r) replies = ask_all (resolver_data r) [] (resolver_requests r) replies"
      by (intro shown_kind) (simp_all add: shown_simps)
  next
    case GetBlindingFactorsResolver
    with new show "continued (resolve True r) replies = ask_all (resolver_data r) [] (resolver_requests r) replies"
      by (intro shown_kind) (simp_all add: shown_simps)
  qed
qed

definition sample_answer :: "bytes \<Rightarrow> device_answer" where
  "sample_answer key = \<lparr>da_public_key = key, da_signature = [], da_signer_commitment = [], da_signatures = [],
     da_signer_commitments = [], da_nonce = [], da_master_blinding_key = [], da_asset_blinders = [],
     da_amount_blinders = []\<rparr>"

definition sample_request :: jobject where
  "sample_request = jobj [(''required_data'', JObj (jobj [(''device'', JNull), (''scripts'', JArr [JStr ''aa'', JStr ''bb''])]))]"

definition sample_resolver :: device_resolver where
  "sample_resolver = \<lparr>r_kind = BlindingKeysResolver,
     r_required_data = jobj [(''device'', JNull), (''scripts'', JArr [JStr ''aa'', JStr ''bb''])], r_paths = [],
     r_xpubs = [], r_scripts = [JStr ''aa'', JStr ''bb''], r_public_keys = [], r_nonces = [], r_blinding_keys = [],
     r_pending = None, r_activity = False\<rparr>"

theorem resolver_is_loop_witness:
  "filter essential (snd (run resolver_step sample_resolver (Resolve True # map DeviceReply
      [Answer (sample_answer [7]), Failure []]))) =
    [ExecActivity (GetBlindingKey ''aa''), ExecActivity (GetBlindingKey ''bb''),
     ResolverFailed ''Failed to get blinding key'']"
proof -
  have new: "new_device_resolver BlindingKeysResolver True sample_request = Some sample_resolver"
    by (simp add: new_device_resolver_def sample_request_def sample_resolver_def Let_def jvalue_jobj jcontains_jobj)
  show ?thesis
    by (subst resolver_is_loop [OF new])
      (simp_all add: resolver_requests_def sample_resolver_def get_activity_error_def default_error_def Let_def)
qed

section \<open>The path of a message\<close>

text \<open>However long the path, its text is cut to what the buffer holds and nothing else is lost.\<close>

lemma path_part_nonempty: "path_part v \<noteq> []"
  by (simp add: path_part_def)

lemma path_loop_take:
  assumes "1 \<le> len" and "length buf = min pos (len - 1)" and "pos \<le> len"
  shows "fst (path_loop len pos buf vals) = take (len - 1) (buf @ concat (map path_part vals))"
  using assms
proof (induction vals arbitrary: pos buf)
  case Nil
  then show ?case by simp
next
  case (Cons v vals)
  show ?case
  proof (cases "len = pos")
    case True
    with Cons.prems show ?thesis using path_part_nonempty [of v] by simp
  next
    case False
    with Cons.prems have pos: "pos < len" "length buf = pos" by simp_all
    define buf1 where "buf1 = buf @ take (len - pos - 1) (path_part v)"
    show ?thesis
    proof (cases "length (path_part v) > len - pos")
      case True
      then have "fst (path_loop len pos buf (v # vals)) = buf1"
        using pos by (simp add: buf1_def Let_def)
      also have "\<dots> = take (len - 1) (buf @ path_part v)" using pos by (simp add: buf1_def)
      also have "\<dots> = take (len - 1) (buf @ concat (map path_part (v # vals)))"
        using pos True by simp
      finally show ?thesis .
    next
      case fits: False
      then have "fst (path_loop len pos buf (v # vals)) = fst (path_loop len (pos + length (path_part v)) buf1 vals)"
        using pos by (simp add: buf1_def Let_def)
      also have "\<dots> = take (len - 1) (buf1 @ concat (map path_part vals))"
        using Cons.prems pos fits by (intro Cons.IH) (auto simp: buf1_def min_def)
      also have "\<dots> = take (len - 1) (buf @ concat (map path_part (v # vals)))"
        using pos fits by (cases "length (path_part v) = len - pos") (auto simp: buf1_def)
      finally show ?thesis .
    qed
  qed
qed

lemma message_path_eq: "message_path path = take 1023 (''m'' @ concat (map path_part path))"
  using path_loop_take [of 1024 "''m''" 1 path] by (simp add: message_path_def bip32_path_as_str_def)

end
