(* ===== verification/Ledger_Facts.thy ===== *)
theory Ledger_Facts
  imports Ledger_Sign
begin

text \<open>
  The library about Ledger devices: integers that survive their encoding, codes that can be read
  off the front of a stream and their composition, and an answer assembled from its packets.
\<close>

section \<open>Words and their bytes\<close>

lemma of_nat16: "n < 65536 \<Longrightarrow> unat (of_nat n :: 16 word) = n"
  by (simp only: unat_of_nat) simp

lemma word16_0: "n < 65536 \<Longrightarrow> (of_nat n :: 16 word) = 0 \<longleftrightarrow> n = 0"
  using of_nat16 [of n] by (auto simp del: unsigned_of_nat)

lemma word16_pos: "(0 :: 16 word) < w \<longleftrightarrow> w \<noteq> 0"
  by (simp add: word_neq_0_conv)

fun read_be32 :: "bytes \<Rightarrow> 32 word" where
  "read_be32 [a, b, c, d] =
     push_bit 24 (ucast a) OR push_bit 16 (ucast b) OR push_bit 8 (ucast c) OR ucast d"
| "read_be32 _ = 0"

lemma read_be32_be32 [simp]: "read_be32 (be32 w) = w"
proof (rule bit_word_eqI)
  fix n assume "n < LENGTH(32)"
  then show "bit (read_be32 (be32 w)) n \<longleftrightarrow> bit w n"
    by (cases "n < 8"; cases "n < 16"; cases "n < 24") (auto simp: be32_def bit_simps)
qed

section \<open>Answers assembled from packets\<close>

text \<open>A command in the middle of its answer.\<close>

definition receiving :: "bytes \<Rightarrow> nat \<Rightarrow> command \<Rightarrow> bool" where
  "receiving data off c \<longleftrightarrow> off \<le> length data \<and> c_offset c = of_nat off \<and>
     c_length c = of_nat (length data - off) \<and> length (c_buf c) = length data \<and>
     take off (c_buf c) = take off data"

lemma receiving_more:
  assumes c: "receiving data off c" and len: "length data < 65536"
    and d: "d = take k (drop off data)"
  shows "receiving data (off + length d)
    (c\<lparr>c_buf := overwrite (unat (c_offset c)) d (c_buf c), c_length := c_length c - of_nat (length d),
       c_offset := c_offset c + of_nat (length d)\<rparr>)"
proof -
  from c len have off: "unat (c_offset c) = off" "off \<le> length data"
    by (simp_all add: receiving_def of_nat16)
  from d have ld: "off + length d \<le> length data" using off by simp
  have "take (off + length d) (overwrite off d (c_buf c)) = take off data @ d"
    using c by (simp add: overwrite_def receiving_def)
  also have "\<dots> = take off data @ take (length d) (drop off data)"
    unfolding d by (cases "k \<le> length (drop off data)") simp_all
  also have "\<dots> = take (off + length d) data"
    by (simp only: take_add)
  finally show ?thesis
    using c ld off by (simp add: receiving_def overwrite_def of_nat_diff)
qed

lemma receiving_done:
  assumes "receiving data (length data) c"
  shows "c_buf c = data" and "c_length c = 0"
  using assms by (auto simp: receiving_def)

text \<open>The padding of a packet is not read: the data end with the packet or with the answer.\<close>

lemma store_receiving:
  assumes c: "receiving data off c" and len: "length data < 65536"
    and d: "d = take k (drop off data)" and z: "z = 0 \<or> length d = length data - off"
  obtains c' where "receiving data (off + length d) c'"
    and "store_report c (d @ replicate z 0) =
      Some (if off + length d < length data then (c', Incomplete) else read_apdu_response c')"
proof
  let ?c = "c\<lparr>c_buf := overwrite (unat (c_offset c)) d (c_buf c), c_length := c_length c - of_nat (length d),
      c_offset := c_offset c + of_nat (length d)\<rparr>"
  show more: "receiving data (off + length d) ?c" by (rule receiving_more [OF c len d])
  have off: "unat (c_offset c) = off" "unat (c_length c) = length data - off"
      "off + length d \<le> length data" "length (c_buf c) = length data"
    using c len d by (auto simp: receiving_def of_nat16 simp del: of_nat_diff)
  then have "take (unat (c_length c)) (d @ replicate z 0) = d"
    using z by auto
  moreover have "0 < c_length ?c \<longleftrightarrow> off + length d < length data"
  proof -
    have "c_length ?c = of_nat (length data - (off + length d))" using more by (simp only: receiving_def)
    then show ?thesis using len by (simp only: word16_pos word16_0) auto
  qed
  ultimately show "store_report c (d @ replicate z 0) =
      Some (if off + length d < length data then (?c, Incomplete) else read_apdu_response ?c)"
    using off by (simp add: store_report_def Let_def)
qed

lemma read_packet:
  assumes "0 < n" and "n < 65536"
  shows "read_hid_report c (packet n len d) = store_report c (d @ replicate (59 - length d) 0)"
proof -
  have "packet n len d = be16 0x0101 @ ([0x05] @ (be16 (of_nat n) @ (d @ replicate (59 - length d) 0)))"
    using assms by (simp add: packet_def Let_def)
  moreover have "(of_nat n :: 16 word) \<noteq> 0" using assms by (simp only: word16_0)
  ultimately show ?thesis by (simp add: read_hid_report_def)
qed

lemma read_packet_0:
  assumes "c_buf c = []" and "len < 65536"
  shows "read_hid_report c (packet 0 len d) =
    store_report (c\<lparr>c_length := of_nat len, c_buf := replicate len 0, c_offset := 0\<rparr>)
      (d @ replicate (57 - length d) 0)"
proof -
  have "packet 0 len d = be16 0x0101 @ ([0x05] @ (be16 0 @ (be16 (of_nat len) @ (d @ replicate (57 - length d) 0))))"
    by (simp add: packet_def Let_def)
  then show ?thesis using assms by (simp add: read_hid_report_def of_nat16)
qed

lemma no_packets [simp]: "packets_from n len [] = []"
  by (simp add: packets_from.simps)

lemma read_packets:
  assumes "receiving data off c" and "off < length data" and "length data < 65536"
    and "0 < n" and "n \<le> off"
  shows "\<exists>c'. receiving data (length data) c' \<and>
    read_reports c (packets_from n len (drop off data)) = Some (read_apdu_response c')"
  using assms
proof (induction "length data - off" arbitrary: off n c rule: less_induct)
  case less
  define d where "d = take 59 (drop off data)"
  have d: "0 < length d" "length d \<le> 59" "off + length d \<le> length data"
    "off + length d < length data \<Longrightarrow> length d = 59"
    using less.prems by (auto simp: d_def)
  have z: "59 - length d = 0 \<or> length d = length data - off" by (auto simp: d_def)
  have rest: "packets_from n len (drop off data) = packet n len d # packets_from (n + 1) len (drop (off + length d) data)"
    using less.prems by (subst packets_from.simps) (simp add: d_def add.commute min_def)
  obtain c1 where c1: "receiving data (off + length d) c1"
    and s: "store_report c (d @ replicate (59 - length d) 0) =
      Some (if off + length d < length data then (c1, Incomplete) else read_apdu_response c1)"
    using store_receiving [OF less.prems(1,3) d_def z] by blast
  have r: "read_hid_report c (packet n len d) =
      Some (if off + length d < length data then (c1, Incomplete) else read_apdu_response c1)"
    using s less.prems by (simp add: read_packet)
  show ?case
  proof (cases "off + length d < length data")
    case True
    with less.hyps [of "off + length d" c1 "n + 1"] less.prems d c1 r rest show ?thesis by simp
  next
    case False
    with d have "off + length d = length data" by simp
    with c1 r rest show ?thesis
      by (auto simp: read_apdu_response_def case_prod_beta Let_def
          split: report_result.splits if_splits)
  qed
qed

lemma read_transport:
  assumes "0 < length data" and "length data < 65536"
  shows "\<exists>c. receiving data (length data) c \<and>
    read_reports (new_command len off payload) (transport data) = Some (read_apdu_response c)"
proof -
  let ?c = "(new_command len off payload)\<lparr>c_length := of_nat (length data),
      c_buf := replicate (length data) 0, c_offset := 0\<rparr>"
  define d where "d = take 57 (drop 0 data)"
  have c: "receiving data 0 ?c" by (simp add: receiving_def)
  have z: "57 - length d = 0 \<or> length d = length data - 0" by (auto simp: d_def)
  obtain c1 where c1: "receiving data (0 + length d) c1"
    and s: "store_report ?c (d @ replicate (57 - length d) 0) =
      Some (if 0 + length d < length data then (c1, Incomplete) else read_apdu_response c1)"
    using store_receiving [OF c assms(2) d_def z] by blast
  have r: "read_hid_report (new_command len off payload) (packet 0 (length data) d) =
      Some (if length d < length data then (c1, Incomplete) else read_apdu_response c1)"
    using s assms by (simp add: read_packet_0 new_command_def)
  have p: "transport data = packet 0 (length data) d # packets_from 1 (length data) (drop (length d) data)"
    using assms by (simp add: transport_def packets_from.simps [of 0] d_def min_def)
  show ?thesis
  proof (cases "length d < length data")
    case True
    moreover have "1 \<le> length d" using assms by (cases data) (auto simp: d_def)
    ultimately show ?thesis using read_packets [of data "length d" c1 1] c1 r p assms by simp
  next
    case False
    then have "length d = length data" by (simp add: d_def)
    with c1 r p show ?thesis
      by (auto simp: read_apdu_response_def case_prod_beta Let_def
          split: report_result.splits if_splits)
  qed
qed

lemma read_apdu_response_status:
  assumes "c_buf c = response @ be16 sw"
  shows "read_apdu_response c = (if sw = 0x9000 then (c\<lparr>c_response := response\<rparr>, CommandFinished)
    else (c, CommandFailed))"
  using assms read_be16 [of sw "[]"] by (simp add: read_apdu_response_def Let_def)

lemma packet_64: "length d \<le> (if n = 0 then 57 else 59) \<Longrightarrow> length (packet n len d) = 64"
  by (cases "n = 0") (simp_all add: packet_def Let_def)

lemma packets_64: "p \<in> set (packets_from n len data) \<Longrightarrow> length p = 64"
proof (induction n len data rule: packets_from.induct)
  case (1 n len data)
  show ?case
  proof (cases "data = []")
    case False
    define k :: nat where "k = 64 - (if n = 0 then 7 else 5)"
    have rest: "packets_from n len data = packet n len (take k data) # packets_from (n + 1) len (drop k data)"
      using False by (subst packets_from.simps) (simp add: k_def)
    have "length (take k data) \<le> (if n = 0 then 57 else 59)" by (simp add: k_def)
    from packet_64 [OF this, of len] 1 rest False show ?thesis by (auto simp: k_def)
  qed (use 1 in simp)
qed

section \<open>The queue of a device\<close>

text \<open>What a run hands to the device, which commands are done, and what is written.\<close>

fun handed :: "device_event \<Rightarrow> bytes list" where
  "handed (Exchange c) = [c_payload c]"
| "handed (InputReport r) = []"

fun done_id :: "device_output \<Rightarrow> nat list" where
  "done_id (Completed i r) = [i]"
| "done_id (Errored i) = [i]"
| "done_id _ = []"

fun written :: "device_output \<Rightarrow> bytes list" where
  "written (WriteReport r) = [r]"
| "written _ = []"

definition all_handed :: "device_event list \<Rightarrow> bytes list" where
  "all_handed es = concat (map handed es)"

definition all_done :: "device_output list \<Rightarrow> nat list" where
  "all_done out = concat (map done_id out)"

definition all_written :: "device_output list \<Rightarrow> bytes list" where
  "all_written out = concat (map written out)"

lemma all_simps [simp]:
  "all_handed [] = []" "all_handed (e # es) = handed e @ all_handed es"
  "all_done [] = []" "all_done (x # xs) = done_id x @ all_done xs" "all_done (xs @ ys) = all_done xs @ all_done ys"
  "all_written [] = []" "all_written (x # xs) = written x @ all_written xs"
  "all_written (xs @ ys) = all_written xs @ all_written ys"
  by (simp_all add: all_handed_def all_done_def all_written_def)

definition command_reports :: "bytes \<Rightarrow> bytes list" where
  "command_reports payload = map ((#) 0) (transport payload)"

lemma written_command [simp]: "all_written (write_command p) = command_reports p" "all_done (write_command p) = []"
proof -
  have "all_written (map (\<lambda>p. WriteReport (0 # p)) ps) = map ((#) 0) ps"
    and "all_done (map (\<lambda>p. WriteReport (0 # p)) ps) = []" for ps
    by (induction ps) simp_all
  then show "all_written (write_command p) = command_reports p" "all_done (write_command p) = []"
    by (simp_all add: write_command_def command_reports_def)
qed

text \<open>The queue holds the commands from the first unanswered one, in order.\<close>

definition queue_ok :: "bytes list \<Rightarrow> nat \<Rightarrow> device_queue \<Rightarrow> bool" where
  "queue_ok ps k q \<longleftrightarrow> k \<le> length ps \<and> dq_made q = length ps \<and>
     map fst (dq_queue q) = [k..<length ps] \<and> map (c_payload \<circ> snd) (dq_queue q) = drop k ps"

lemma store_payload: "store_report c s = Some (c', r) \<Longrightarrow> c_payload c' = c_payload c"
  by (auto simp: store_report_def read_apdu_response_def Let_def case_prod_beta split: if_splits)

lemma read_payload: "read_hid_report c s = Some (c', r) \<Longrightarrow> c_payload c' = c_payload c"
  by (auto simp: read_hid_report_def Let_def case_prod_beta split: if_splits dest: store_payload)

definition progress :: "bytes list \<Rightarrow> nat \<Rightarrow> bytes list \<Rightarrow> device_output list \<Rightarrow> bool" where
  "progress ps k new out \<longleftrightarrow> (let k' = k + length (all_done out) in
     all_done out = [k..<k'] \<and>
     concat (map command_reports (take (Suc k) ps)) @ all_written out = concat (map command_reports (take (Suc k') (ps @ new))))"

lemma exchange_ok:
  assumes "queue_ok ps k q"
  shows "queue_ok (ps @ [c_payload c]) k (fst (device_exchange c q))"
    and "progress ps k [c_payload c] (snd (device_exchange c q))"
proof -
  show "queue_ok (ps @ [c_payload c]) k (fst (device_exchange c q))"
    using assms by (simp add: queue_ok_def device_exchange_def)
  show "progress ps k [c_payload c] (snd (device_exchange c q))"
  proof (cases "dq_queue q = []")
    case True
    with assms have "k = length ps" by (auto simp: queue_ok_def)
    with True show ?thesis by (simp add: progress_def device_exchange_def Let_def)
  next
    case False
    then have "k < length ps" using assms by (cases "k < length ps") (auto simp: queue_ok_def)
    with False show ?thesis by (simp add: progress_def device_exchange_def Let_def)
  qed
qed

lemma input_ok:
  assumes "queue_ok ps k q"
  shows "queue_ok ps (k + length (all_done (snd (input_report r q)))) (fst (input_report r q))"
    and "progress ps k [] (snd (input_report r q))"
proof -
  have "queue_ok ps (k + length (all_done (snd (input_report r q)))) (fst (input_report r q)) \<and>
    progress ps k [] (snd (input_report r q))"
  proof (cases "dq_queue q")
    case Nil
    then show ?thesis using assms by (simp add: input_report_def progress_def Let_def)
  next
    case (Cons ic rest)
    obtain i c where ic: "ic = (i, c)" by (cases ic)
    have k: "k < length ps" "i = k" "c_payload c = ps ! k" "map fst rest = [Suc k..<length ps]"
      "map (c_payload \<circ> snd) rest = drop (Suc k) ps" "dq_made q = length ps"
      using assms Cons ic by (auto simp: queue_ok_def upt_rec [of k] Cons_nth_drop_Suc [symmetric]
          split: if_splits)
    show ?thesis
    proof (cases "read_hid_report c r")
      case None
      then show ?thesis using assms Cons ic by (simp add: input_report_def progress_def Let_def)
    next
      case (Some cr)
      obtain c' res where cr: "cr = (c', res)" by (cases cr)
      have pay: "c_payload c' = c_payload c" using Some cr by (auto dest: read_payload)
      have next_written: "all_written (case rest of [] \<Rightarrow> [] | (_, n) # _ \<Rightarrow> write_command (c_payload n))
          = concat (map command_reports (take 1 (drop (Suc k) ps)))"
        using k(5) [symmetric] by (auto split: list.split)
      have next_done: "all_done (case rest of [] \<Rightarrow> [] | (_, n) # _ \<Rightarrow> write_command (c_payload n)) = []"
        by (auto split: list.split)
      have split: "take (Suc (Suc k)) ps = take (Suc k) ps @ take 1 (drop (Suc k) ps)"
        using take_add [of "Suc k" 1 ps] by simp
      show ?thesis
        using Some cr Cons ic k pay assms next_written next_done split
        by (cases res) (auto simp: input_report_def progress_def Let_def queue_ok_def)
    qed
  qed
  then show "queue_ok ps (k + length (all_done (snd (input_report r q)))) (fst (input_report r q))"
    and "progress ps k [] (snd (input_report r q))" by simp_all
qed

lemma device_ok:
  assumes "queue_ok ps k q"
  shows "queue_ok (ps @ handed ev) (k + length (all_done (snd (device_step q ev)))) (fst (device_step q ev)) \<and>
    progress ps k (handed ev) (snd (device_step q ev))"
proof (cases ev)
  case (Exchange c)
  have "all_done (snd (device_exchange c q)) = []" by (simp add: device_exchange_def)
  with Exchange exchange_ok [OF assms, of c] show ?thesis by simp
next
  case (InputReport r)
  with input_ok [OF assms, of r] show ?thesis by simp
qed

lemma progress_trans:
  assumes "progress ps k new out" and "progress (ps @ new) (k + length (all_done out)) new' out'"
  shows "progress ps k (new @ new') (out @ out')"
proof -
  let ?k = "k + length (all_done out)"
  have "all_done (out @ out') = [k..<?k] @ [?k..<?k + length (all_done out')]"
    using assms by (simp add: progress_def Let_def)
  also have "\<dots> = [k..<k + length (all_done (out @ out'))]"
    using upt_add_eq_append [of k ?k "length (all_done out')"] by (simp add: add.assoc)
  finally show ?thesis
    using assms unfolding progress_def Let_def by (simp add: add.assoc) (metis append.assoc)
qed

lemma device_run:
  assumes "queue_ok ps k q"
  shows "progress ps k (all_handed es) (snd (run device_step q es)) \<and>
    queue_ok (ps @ all_handed es) (k + length (all_done (snd (run device_step q es)))) (fst (run device_step q es))"
  using assms
proof (induction es arbitrary: ps k q)
  case Nil
  then show ?case by (simp add: progress_def Let_def)
next
  case (Cons e es)
  let ?k = "k + length (all_done (snd (device_step q e)))"
  from device_ok [OF Cons.prems, of e]
  have q: "queue_ok (ps @ handed e) ?k (fst (device_step q e))" and p: "progress ps k (handed e) (snd (device_step q e))"
    by simp_all
  from progress_trans [OF p conjunct1 [OF Cons.IH [OF q]]] conjunct2 [OF Cons.IH [OF q]]
  show ?case by (simp add: add.assoc)
qed

end
