(* ===== verification/Ledger_Codes.thy ===== *)
theory Ledger_Codes
  imports Ledger_Facts "HOL-Library.Monad_Syntax"
begin

text \<open>
  What the device reads: codes that can be read off the front of a stream, as an interface with
  its composition, interpreted on the integers and texts the wallet writes; a reader of
  transactions made of them; and how the wallet's commands carry a stream.
\<close>

section \<open>Prefix codes\<close>

text \<open>
  \<open>dec\<close> reads back what \<open>enc\<close> wrote and leaves the rest of the stream.
\<close>

fun dec_n :: "(bytes \<Rightarrow> ('a \<times> bytes) option) \<Rightarrow> nat \<Rightarrow> bytes \<Rightarrow> ('a list \<times> bytes) option" where
  "dec_n dec 0 s = Some ([], s)"
| "dec_n dec (Suc n) s = (case dec s of
     None \<Rightarrow> None
   | Some (x, s1) \<Rightarrow> map_option (\<lambda>(xs, s2). (x # xs, s2)) (dec_n dec n s1))"

locale prefix_code =
  fixes enc :: "'a \<Rightarrow> bytes" and dec :: "bytes \<Rightarrow> ('a \<times> bytes) option" and ok :: "'a \<Rightarrow> bool"
  assumes dec_enc: "ok x \<Longrightarrow> dec (enc x @ s) = Some (x, s)"
begin

lemma dec_list: "list_all ok xs \<Longrightarrow> dec_n dec (length xs) (concat (map enc xs) @ s) = Some (xs, s)"
proof (induction xs)
  case (Cons x xs)
  then have "dec (enc x @ concat (map enc xs) @ s) = Some (x, concat (map enc xs) @ s)"
    and "dec_n dec (length xs) (concat (map enc xs) @ s) = Some (xs, s)"
    by (auto intro: dec_enc)
  then show ?case by simp
qed simp

lemma unique:
  assumes "ok x" and "ok y" and eq: "enc x @ s = enc y @ t"
  shows "x = y \<and> s = t"
proof -
  have "Some (x, s) = dec (enc y @ t)" by (simp only: dec_enc [OF assms(1), symmetric] eq)
  also have "\<dots> = Some (y, t)" by (rule dec_enc [OF assms(2)])
  finally show ?thesis by simp
qed

end

section \<open>The codes of the protocol\<close>

fun get_le32 :: "bytes \<Rightarrow> (32 word \<times> bytes) option" where
  "get_le32 (a # b # c # d # s) = Some (read_be32 [d, c, b, a], s)"
| "get_le32 _ = None"

definition get_le64 :: "bytes \<Rightarrow> (64 word \<times> bytes) option" where
  "get_le64 s = (case get_le32 s of
     None \<Rightarrow> None
   | Some (low, s1) \<Rightarrow> map_option (\<lambda>(high, s2). (push_bit 32 (ucast high) OR ucast low, s2)) (get_le32 s1))"

definition get_bytes :: "nat \<Rightarrow> bytes \<Rightarrow> (bytes \<times> bytes) option" where
  "get_bytes n s = (if length s < n then None else Some (take n s, drop n s))"

text \<open>The compact sizes of Bitcoin, up to 32 bits.\<close>

fun get_varint :: "bytes \<Rightarrow> (32 word \<times> bytes) option" where
  "get_varint [] = None"
| "get_varint (b # s) =
     (if b < 0xfd then Some (ucast b, s)
      else if b = 0xfd then (case s of
          l # h # s1 \<Rightarrow> Some (push_bit 8 (ucast h) OR ucast l, s1) | _ \<Rightarrow> None)
      else if b = 0xfe then get_le32 s
      else None)"

lemma be32_list: "\<exists>a b c d. be32 w = [a, b, c, d]"
  by (simp add: be32_def)

lemma get_le32_le32: "get_le32 (le32 w @ s) = Some (w, s)"
proof -
  obtain a b c d where be: "be32 w = [a, b, c, d]" using be32_list by blast
  then have "read_be32 [a, b, c, d] = w" using read_be32_be32 [of w] by simp
  with be show ?thesis by (simp add: le32_def)
qed

interpretation le32: prefix_code le32 get_le32 "\<lambda>_. True"
  by unfold_locales (simp add: get_le32_le32)

lemma le64_halves: "le64 w = le32 (ucast w) @ le32 (ucast (drop_bit 32 w))"
  by (simp add: le64_def be64_def le32_def)

lemma word64_halves:
  "push_bit 32 (ucast (ucast (drop_bit 32 w) :: 32 word) :: 64 word) OR ucast (ucast w :: 32 word) = (w :: 64 word)"
  by (rule bit_word_eqI) (auto simp: bit_simps not_less less_diff_conv2 le_Suc_ex)

interpretation le64: prefix_code le64 get_le64 "\<lambda>_. True"
proof
  fix w :: "64 word" and s
  show "get_le64 (le64 w @ s) = Some (w, s)"
    unfolding le64_halves append_assoc get_le64_def le32.dec_enc [OF TrueI]
    by (simp add: le32.dec_enc word64_halves)
qed

interpretation fixed: prefix_code "\<lambda>bs. bs" "get_bytes n" "\<lambda>bs. length bs = n" for n
  by unfold_locales (simp add: get_bytes_def)

lemma mask8: "(0xff :: 32 word) = mask 8"
  by (simp add: mask_eq_exp_minus_1)

lemma low_byte: "ucast (ucast (v AND 0xff) :: byte) = v AND (0xff :: 32 word)"
  unfolding mask8 by (rule bit_word_eqI) (auto simp: bit_simps)

lemma small_word: "unat v < 2 ^ n \<Longrightarrow> take_bit n v = (v :: 32 word)"
  by (simp add: word_unat_eq_iff unsigned_take_bit_eq take_bit_eq_mod [of n "unat v"])

lemma two_bytes:
  assumes "v < 0xffff"
  shows "push_bit 8 (drop_bit 8 v AND 0xff) OR (v AND 0xff) = (v :: 32 word)"
proof -
  have "unat v < 2 ^ 16" using assms by (simp add: word_less_nat_alt)
  then have "take_bit 16 v = v" by (rule small_word)
  moreover have "push_bit 8 (drop_bit 8 v AND 0xff) OR (v AND 0xff) = take_bit 16 v"
    unfolding mask8 by (rule bit_word_eqI) (auto simp: bit_simps not_less less_diff_conv2 le_Suc_ex)
  ultimately show ?thesis by simp
qed

lemma small_byte:
  assumes "v < 0xfd"
  shows "(ucast (v AND 0xff) :: byte) < 0xfd" and "v AND 0xff = (v :: 32 word)"
proof -
  have v: "unat v < 0xfd" using assms by (simp add: word_less_nat_alt)
  then have "take_bit 8 v = v" by (intro small_word) simp
  then show and_v: "v AND 0xff = v" unfolding mask8 take_bit_eq_mask .
  show "(ucast (v AND 0xff) :: byte) < 0xfd"
    using v by (simp add: and_v word_less_nat_alt unsigned_ucast_eq take_bit_eq_mod)
qed

lemma get_varint_varint: "get_varint (varint le32 v @ s) = Some (v, s)"
proof -
  consider "v < 0xfd" | "\<not> v < 0xfd" "v < 0xffff" | "\<not> v < 0xffff" by blast
  then show ?thesis
  proof cases
    case 1
    with small_byte [OF 1] low_byte [of v] show ?thesis by (simp add: varint_def)
  next
    case 2
    then have "get_varint (varint le32 v @ s) =
        Some (push_bit 8 (ucast (ucast (drop_bit 8 v AND 0xff) :: byte)) OR ucast (ucast (v AND 0xff) :: byte), s)"
      by (simp add: varint_def)
    then show ?thesis by (simp only: low_byte two_bytes [OF 2(2)])
  next
    case 3
    moreover have "\<not> v < 0xfd" using 3 by (auto simp: word_less_nat_alt)
    ultimately show ?thesis by (simp add: varint_def le32.dec_enc)
  qed
qed

interpretation varint: prefix_code "varint le32" get_varint "\<lambda>_. True"
  by unfold_locales (rule get_varint_varint)

section \<open>Transactions\<close>

text \<open>
  A transaction without witnesses as Bitcoin serialises it, and its reader.  The counts fit into
  32 bits, and the identifiers of the spent transactions have 32 bytes.
\<close>

definition input_bytes :: "tx_input \<Rightarrow> bytes" where
  "input_bytes i = ti_txhash i @ le32 (ti_index i) @ varint le32 (of_nat (length (ti_script i)))
     @ ti_script i @ le32 (ti_sequence i)"

definition tx_output_bytes :: "tx_output \<Rightarrow> bytes" where
  "tx_output_bytes t = le64 (to_satoshi t) @ varint le32 (of_nat (length (to_script t))) @ to_script t"

definition tx_bytes :: "wally_tx \<Rightarrow> bytes" where
  "tx_bytes tx = le32 (tx_version tx)
     @ varint le32 (of_nat (length (tx_inputs tx))) @ concat (map input_bytes (tx_inputs tx))
     @ varint le32 (of_nat (length (tx_outputs tx))) @ concat (map tx_output_bytes (tx_outputs tx))
     @ le32 (tx_locktime tx)"

definition get_input :: "bytes \<Rightarrow> (tx_input \<times> bytes) option" where
  "get_input s = do {
     (hash, s) \<leftarrow> get_bytes 32 s;
     (index, s) \<leftarrow> get_le32 s;
     (n, s) \<leftarrow> get_varint s;
     (script, s) \<leftarrow> get_bytes (unat n) s;
     (sequence, s) \<leftarrow> get_le32 s;
     Some (\<lparr>ti_txhash = hash, ti_index = index, ti_script = script, ti_sequence = sequence\<rparr>, s)
   }"

definition get_tx_output :: "bytes \<Rightarrow> (tx_output \<times> bytes) option" where
  "get_tx_output s = do {
     (satoshi, s) \<leftarrow> get_le64 s;
     (n, s) \<leftarrow> get_varint s;
     (script, s) \<leftarrow> get_bytes (unat n) s;
     Some (\<lparr>to_satoshi = satoshi, to_script = script\<rparr>, s)
   }"

definition get_tx :: "bytes \<Rightarrow> (wally_tx \<times> bytes) option" where
  "get_tx s = do {
     (version, s) \<leftarrow> get_le32 s;
     (n, s) \<leftarrow> get_varint s;
     (ins, s) \<leftarrow> dec_n get_input (unat n) s;
     (m, s) \<leftarrow> get_varint s;
     (outs, s) \<leftarrow> dec_n get_tx_output (unat m) s;
     (locktime, s) \<leftarrow> get_le32 s;
     Some (\<lparr>tx_version = version, tx_inputs = ins, tx_outputs = outs, tx_locktime = locktime\<rparr>, s)
   }"

definition input_ok :: "tx_input \<Rightarrow> bool" where
  "input_ok i \<longleftrightarrow> length (ti_txhash i) = 32 \<and> length (ti_script i) < 2 ^ 32"

definition output_ok :: "tx_output \<Rightarrow> bool" where
  "output_ok t \<longleftrightarrow> length (to_script t) < 2 ^ 32"

definition tx_ok :: "wally_tx \<Rightarrow> bool" where
  "tx_ok tx \<longleftrightarrow> length (tx_inputs tx) < 2 ^ 32 \<and> list_all input_ok (tx_inputs tx) \<and>
     length (tx_outputs tx) < 2 ^ 32 \<and> list_all output_ok (tx_outputs tx)"

lemma of_nat32: "n < 2 ^ 32 \<Longrightarrow> unat (of_nat n :: 32 word) = n"
  by (simp add: unat_of_nat take_bit_eq_mod)

interpretation tx_in: prefix_code input_bytes get_input input_ok
  by unfold_locales (simp add: input_bytes_def get_input_def input_ok_def fixed.dec_enc le32.dec_enc
      varint.dec_enc of_nat32)

interpretation tx_out: prefix_code tx_output_bytes get_tx_output output_ok
  by unfold_locales (simp add: tx_output_bytes_def get_tx_output_def output_ok_def fixed.dec_enc le64.dec_enc
      varint.dec_enc of_nat32)

interpretation tx: prefix_code tx_bytes get_tx tx_ok
  by unfold_locales (simp add: tx_bytes_def get_tx_def tx_ok_def le32.dec_enc varint.dec_enc of_nat32
      tx_in.dec_list tx_out.dec_list)

end
