(* ===== verification/Ledger_Talk.thy ===== *)
theory Ledger_Talk
  imports Ledger_Codes
begin

text \<open>
  Conversations with a Ledger that are written down: which commands a batch, the steps of a
  signing and the trusted inputs send, what is answered, and where a refusal stops them.
\<close>

section \<open>Lists of commands\<close>

lemma all_some_iff: "all_some xs = Some ys \<longleftrightarrow> xs = map Some ys"
proof (induction xs arbitrary: ys)
  case Nil
  then show ?case by auto
next
  case (Cons x xs)
  then show ?case by (cases x; cases ys) auto
qed

lemma all_some_None: "all_some xs = None \<longleftrightarrow> None \<in> set xs"
proof (induction xs)
  case (Cons x xs)
  then show ?case by (cases x) auto
qed simp

lemma all_some_map: "all_some (map f xs) = Some ys \<Longrightarrow> length ys = length xs \<and> (\<forall>i < length xs. f (xs ! i) = Some (ys ! i))"
  unfolding all_some_iff by (metis length_map nth_map)

text \<open>Well-formed units: five bytes of header, then as many bytes as the fifth says.\<close>

definition wf_apdu :: "bytes \<Rightarrow> bool" where
  "wf_apdu p \<longleftrightarrow> 5 \<le> length p \<and> unat (p ! 4) = length p - 5"

lemma apdu_Some: "apdu cla ins p1 p2 data = Some p \<longleftrightarrow>
    length data < 256 \<and> p = [cla, ins, p1, p2, of_nat (length data)] @ data"
  by (auto simp: apdu_def)

lemma apdu_None: "apdu cla ins p1 p2 data = None \<longleftrightarrow> 256 \<le> length data"
  by (auto simp: apdu_def)

lemma of_nat8: "n < 256 \<Longrightarrow> unat (of_nat n :: byte) = n"
  by (simp add: unat_of_nat take_bit_eq_mod)

lemma apdu_wf: "apdu cla ins p1 p2 data = Some p \<Longrightarrow> wf_apdu p"
  by (auto simp: apdu_Some wf_apdu_def of_nat8)

lemmas apdu_wfs = apdu_wf apdu_wf [OF sym]

lemma all_some_wf:
  assumes "all_some xs = Some ps" and "\<And>x p. x \<in> set xs \<Longrightarrow> x = Some p \<Longrightarrow> wf_apdu p"
  shows "list_all wf_apdu ps"
  using assms by (auto simp: all_some_iff list_all_iff)

lemma finalize_wf: "finalize_input_full data = Some ps \<Longrightarrow> list_all wf_apdu ps"
  unfolding finalize_input_full_def Let_def by (erule all_some_wf) (auto dest: apdu_wfs)

lemma trusted_wf: "get_trusted_input tx index = Some ps \<Longrightarrow> list_all wf_apdu ps"
  unfolding get_trusted_input_def
  by (auto split: list.splits elim!: all_some_wf dest: apdu_wfs)

lemma start_wf: "start_untrusted_transaction v new i used script sw = Some ps \<Longrightarrow> list_all wf_apdu ps"
  unfolding start_untrusted_transaction_def
  by (erule all_some_wf) (auto dest: apdu_wfs)

lemma hash_sign_wf: "untrusted_hash_sign path locktime = Some p \<Longrightarrow> wf_apdu p"
  by (auto simp: untrusted_hash_sign_def split: option.splits dest: apdu_wfs)

section \<open>What is said\<close>

type_synonym log = "(bytes \<times> bytes option) list"

text \<open>The device with its answers written down.\<close>

definition logged :: "('d \<Rightarrow> bytes \<Rightarrow> 'd \<times> bytes option) \<Rightarrow> 'd \<times> log \<Rightarrow> bytes \<Rightarrow> ('d \<times> log) \<times> bytes option" where
  "logged dev s p = (case s of (d, log) \<Rightarrow> (case dev d p of (d', r) \<Rightarrow> ((d', log @ [(p, r)]), r)))"

definition answered :: "log \<Rightarrow> bool" where
  "answered new \<longleftrightarrow> list_all (\<lambda>(p, r). r \<noteq> None) new"

definition refused :: "log \<Rightarrow> bool" where
  "refused new \<longleftrightarrow> new \<noteq> [] \<and> answered (butlast new) \<and> snd (last new) = None"

lemma answered_simps [simp]:
  "answered []" "answered (x # xs) \<longleftrightarrow> snd x \<noteq> None \<and> answered xs"
  "answered (xs @ ys) \<longleftrightarrow> answered xs \<and> answered ys"
  by (auto simp: answered_def split: prod.splits)

lemma refused_Cons [simp]: "refused (x # xs) \<longleftrightarrow> xs = [] \<and> snd x = None \<or> snd x \<noteq> None \<and> refused xs"
  by (auto simp: refused_def)

lemma refused_append: "answered xs \<Longrightarrow> refused ys \<Longrightarrow> refused (xs @ ys)"
  by (auto simp: refused_def butlast_append)

text \<open>\<open>said ps new ok\<close>: commands of \<open>ps\<close> were sent, all of them answered, or the last one refused.\<close>

definition said :: "bytes list \<Rightarrow> log \<Rightarrow> bool \<Rightarrow> bool" where
  "said ps new ok \<longleftrightarrow> set (map fst new) \<subseteq> set ps \<and> (if ok then map fst new = ps \<and> answered new else refused new)"

lemma said_append: "said ps xs True \<Longrightarrow> said qs ys ok \<Longrightarrow> said (ps @ qs) (xs @ ys) ok"
  by (cases ok) (auto simp: said_def intro: refused_append)

lemma said_refused: "said ps xs False \<Longrightarrow> said (ps @ qs) xs False"
  by (auto simp: said_def)

lemma logged_step: "dev d p = (d', r) \<Longrightarrow> logged dev (d, log) p = ((d', log @ [(p, r)]), r)"
  by (simp add: logged_def)

lemma batch_said:
  assumes "exec_batch (logged dev) (map Single b) (d, log) = (s, rs, ok)"
  obtains d' new where "s = (d', log @ new)" and "said b new ok" and "ok \<Longrightarrow> map snd new = map Some rs"
proof -
  have "\<exists>d' new. s = (d', log @ new) \<and> said b new ok \<and> (ok \<longrightarrow> map snd new = map Some rs)"
    using assms
  proof (induction b arbitrary: d log s rs ok)
    case Nil
    then have "s = (d, log)" "rs = []" "ok" by auto
    then show ?case by (simp add: said_def)
  next
    case (Cons p b)
    obtain d1 r where dev: "dev d p = (d1, r)" by (cases "dev d p")
    show ?case
    proof (cases r)
      case None
      with Cons.prems dev show ?thesis by (auto simp: logged_step said_def)
    next
      case (Some a)
      obtain s2 rs2 ok2 where rest: "exec_batch (logged dev) (map Single b) (d1, log @ [(p, r)]) = (s2, rs2, ok2)"
        by (cases "exec_batch (logged dev) (map Single b) (d1, log @ [(p, r)])")
      from Cons.IH [OF this] obtain d' new where "s2 = (d', (log @ [(p, r)]) @ new)" "said b new ok2"
          "ok2 \<longrightarrow> map snd new = map Some rs2" by blast
      with Cons.prems dev Some rest show ?thesis
        by (intro exI [of _ d'] exI [of _ "(p, r) # new"]) (auto simp: logged_step said_def)
    qed
  qed
  with that show thesis by blast
qed

text \<open>The signatures that the steps \<open>ss\<close> leave, and where they come from.\<close>

definition signed :: "step list \<Rightarrow> log \<Rightarrow> bytes list \<Rightarrow> bytes list \<Rightarrow> bool" where
  "signed ss new sigs sigs' \<longleftrightarrow> length sigs' = length sigs \<and>
     (\<forall>i < length sigs. if Some i \<in> fst ` set ss
        then \<exists>p a. (Some i, p) \<in> set ss \<and> (p, Some a) \<in> set new \<and> sigs' ! i = signature_of a
        else sigs' ! i = sigs ! i)"

lemma signed_Cons:
  assumes "signed ss new (case k of None \<Rightarrow> sigs | Some i \<Rightarrow> sigs[i := signature_of a]) sigs'"
  shows "signed ((k, p) # ss) ((p, Some a) # new) sigs sigs'"
  unfolding signed_def
proof (intro conjI allI impI)
  let ?sigs = "case k of None \<Rightarrow> sigs | Some i \<Rightarrow> sigs[i := signature_of a]"
  have len: "length ?sigs = length sigs" by (simp split: option.split)
  with assms show "length sigs' = length sigs" by (simp add: signed_def)
  fix i assume i: "i < length sigs"
  show "if Some i \<in> fst ` set ((k, p) # ss)
      then \<exists>p' a'. (Some i, p') \<in> set ((k, p) # ss) \<and> (p', Some a') \<in> set ((p, Some a) # new) \<and> sigs' ! i = signature_of a'
      else sigs' ! i = sigs ! i"
  proof (cases "Some i \<in> fst ` set ss")
    case True
    with assms i len obtain p' a' where "(Some i, p') \<in> set ss" "(p', Some a') \<in> set new" "sigs' ! i = signature_of a'"
      unfolding signed_def by metis
    with True show ?thesis by auto
  next
    case False
    with assms i len have "sigs' ! i = ?sigs ! i" unfolding signed_def by metis
    with i have at_i: "sigs' ! i = (if k = Some i then signature_of a else sigs ! i)"
      by (cases k) (auto simp: nth_list_update)
    show ?thesis
    proof (cases "k = Some i")
      case True
      with at_i show ?thesis by simp blast
    next
      case k: False
      with False at_i show ?thesis by auto
    qed
  qed
qed

lemma steps_said:
  assumes "run_steps (logged dev) ss sigs (d, log) = (s, r)"
  obtains d' new where "s = (d', log @ new)" and "said (map snd ss) new (r \<noteq> None)"
    and "\<And>sigs'. r = Some sigs' \<Longrightarrow> signed ss new sigs sigs'"
proof -
  have "\<exists>d' new. s = (d', log @ new) \<and> said (map snd ss) new (r \<noteq> None) \<and>
      (\<forall>sigs'. r = Some sigs' \<longrightarrow> signed ss new sigs sigs')"
    using assms
  proof (induction ss arbitrary: d log sigs)
    case Nil
    then show ?case by (auto simp: said_def signed_def)
  next
    case (Cons kp ss)
    obtain k p where kp: "kp = (k, p)" by (cases kp)
    obtain d1 a where dev: "dev d p = (d1, a)" by (cases "dev d p")
    show ?case
    proof (cases a)
      case None
      with Cons.prems dev kp show ?thesis by (auto simp: logged_step said_def)
    next
      case (Some b)
      with Cons.prems dev kp have "run_steps (logged dev) ss (case k of None \<Rightarrow> sigs | Some i \<Rightarrow> sigs[i := signature_of b])
          (d1, log @ [(p, a)]) = (s, r)" by (simp add: logged_step)
      from Cons.IH [OF this] obtain d' new where "s = (d', (log @ [(p, a)]) @ new)"
          "said (map snd ss) new (r \<noteq> None)"
          "\<forall>sigs'. r = Some sigs' \<longrightarrow> signed ss new (case k of None \<Rightarrow> sigs | Some i \<Rightarrow> sigs[i := signature_of b]) sigs'"
        by blast
      with Some kp show ?thesis
        by (intro exI [of _ d'] exI [of _ "(p, a) # new"])
          (cases r; auto simp: said_def intro: signed_Cons)
    qed
  qed
  with that show thesis by blast
qed

lemma inputs_said:
  assumes "run_inputs (logged dev) sw is bs (d, log) = (s, r)" and "length bs = length is"
  obtains d' new where "s = (d', log @ new)" and "said (concat bs) new (r \<noteq> None)"
    and "\<And>hw. r = Some hw \<Longrightarrow> length hw = length is"
proof -
  have "\<exists>d' new. s = (d', log @ new) \<and> said (concat bs) new (r \<noteq> None) \<and> (\<forall>hw. r = Some hw \<longrightarrow> length hw = length is)"
    using assms(2,1)
  proof (induction bs "is" arbitrary: d log s r rule: list_induct2)
    case Nil
    then show ?case by (auto simp: said_def)
  next
    case (Cons b bs i js)
    obtain s1 rs ok where b: "exec_batch (logged dev) (map Single b) (d, log) = (s1, rs, ok)"
      by (cases "exec_batch (logged dev) (map Single b) (d, log)")
    from batch_said [OF b] obtain d1 new where new: "s1 = (d1, log @ new)" "said b new ok" by blast
    show ?case
    proof (cases ok)
      case False
      with Cons.prems b new show ?thesis by (auto intro: said_refused)
    next
      case True
      obtain s2 r2 where rest: "run_inputs (logged dev) sw js bs (d1, log @ new) = (s2, r2)"
        by (cases "run_inputs (logged dev) sw js bs (d1, log @ new)")
      from Cons.IH [OF this] obtain d' new' where "s2 = (d', (log @ new) @ new')" "said (concat bs) new' (r2 \<noteq> None)"
          "\<forall>hw. r2 = Some hw \<longrightarrow> length hw = length js" by blast
      with True Cons.prems b new rest show ?thesis
        by (intro exI [of _ d'] exI [of _ "new @ new'"]) (auto intro: said_append)
    qed
  qed
  with that show thesis by blast
qed

section \<open>The steps of a half\<close>

lemma append_steps_Some:
  assumes "append_steps xs = Some ss"
  shows "x \<in> set xs \<Longrightarrow> \<exists>l. x = Some l" and "kp \<in> set ss \<longleftrightarrow> (\<exists>l. Some l \<in> set xs \<and> kp \<in> set l)"
  using assms by (auto simp: append_steps_def all_some_iff image_iff)

text \<open>Pieces of a half: plain commands, and a signing command.\<close>

definition plain_piece :: "step list option \<Rightarrow> bool" where
  "plain_piece x \<longleftrightarrow> (\<forall>l. x = Some l \<longrightarrow> list_all (\<lambda>(k, p). k = None \<and> wf_apdu p) l)"

abbreviation sign_piece :: "32 word \<Rightarrow> signing_input list \<Rightarrow> nat \<Rightarrow> step list option" where
  "sign_piece locktime inputs i \<equiv>
     map_option (\<lambda>p. [(Some i, p)]) (untrusted_hash_sign (si_user_path (inputs ! i)) locktime)"

lemma plain_pieces [simp]:
  "plain_piece (plain_steps (start_untrusted_transaction v new i used script sw))"
  "plain_piece (plain_steps (finalize_input_full data))"
  by (auto simp: plain_piece_def plain_steps_def list_all_iff dest!: start_wf finalize_wf)

text \<open>The signing commands among steps are those of the inputs of a kind, each of them.\<close>

definition signs_for :: "(signing_input \<Rightarrow> bool) \<Rightarrow> 32 word \<Rightarrow> signing_input list \<Rightarrow> nat \<Rightarrow> step list \<Rightarrow> bool" where
  "signs_for P locktime inputs n ss \<longleftrightarrow> list_all (wf_apdu \<circ> snd) ss \<and>
     (\<forall>i p. (Some i, p) \<in> set ss \<longrightarrow> untrusted_hash_sign (si_user_path (inputs ! i)) locktime = Some p) \<and>
     (\<forall>i. Some i \<in> fst ` set ss \<longleftrightarrow> i < n \<and> P (inputs ! i))"

lemma pieces_sign:
  assumes ss: "append_steps xs = Some ss"
    and pieces: "\<And>x. x \<in> set xs \<Longrightarrow> plain_piece x \<or> (\<exists>i < n. P (inputs ! i) \<and> x = sign_piece locktime inputs i)"
    and signs: "\<And>i. i < n \<Longrightarrow> P (inputs ! i) \<Longrightarrow> sign_piece locktime inputs i \<in> set xs"
  shows "signs_for P locktime inputs n ss"
  unfolding signs_for_def
proof (intro conjI allI)
  have from_piece: "k = None \<and> wf_apdu p \<or>
      (\<exists>i < n. k = Some i \<and> P (inputs ! i) \<and> untrusted_hash_sign (si_user_path (inputs ! i)) locktime = Some p)"
    if kp: "(k, p) \<in> set ss" for k p
  proof -
    obtain l where l: "Some l \<in> set xs" "(k, p) \<in> set l"
      using kp append_steps_Some(2) [OF ss, of "(k, p)"] by blast
    from pieces [OF l(1)] show ?thesis
    proof
      assume "plain_piece (Some l)"
      with l(2) show ?thesis by (auto simp: plain_piece_def list_all_iff)
    next
      assume "\<exists>i < n. P (inputs ! i) \<and> Some l = sign_piece locktime inputs i"
      then obtain i where "i < n" "P (inputs ! i)" "sign_piece locktime inputs i = Some l" by metis
      with l(2) show ?thesis by auto
    qed
  qed
  show "list_all (wf_apdu \<circ> snd) ss"
    unfolding list_all_iff
  proof
    fix kp assume "kp \<in> set ss"
    then show "(wf_apdu \<circ> snd) kp" using from_piece [of "fst kp" "snd kp"] by (auto dest: hash_sign_wf)
  qed
  show "(Some i, p) \<in> set ss \<longrightarrow> untrusted_hash_sign (si_user_path (inputs ! i)) locktime = Some p" for i p
    using from_piece [of "Some i" p] by auto
  show "Some i \<in> fst ` set ss \<longleftrightarrow> i < n \<and> P (inputs ! i)" for i
  proof
    assume "Some i \<in> fst ` set ss"
    then show "i < n \<and> P (inputs ! i)" using from_piece [of "Some i"] by auto
  next
    assume i: "i < n \<and> P (inputs ! i)"
    with signs have piece: "sign_piece locktime inputs i \<in> set xs" by simp
    with append_steps_Some(1) [OF ss this] obtain p where "Some [(Some i, p)] \<in> set xs" by auto
    then have "(Some i, p) \<in> set ss" by (subst append_steps_Some(2) [OF ss]) (auto intro!: exI [of _ "[(Some i, p)]"])
    then show "Some i \<in> fst ` set ss" by force
  qed
qed

lemma sw_signs:
  assumes "sw_steps version locktime outs inputs hw = Some ss"
  shows "signs_for (\<lambda>i. si_address_type i \<noteq> ''p2sh'') locktime inputs (length hw) ss"
  using assms unfolding sw_steps_def by (rule pieces_sign) auto

lemma non_sw_signs:
  assumes "non_sw_steps version locktime outs inputs hw = Some ss"
  shows "signs_for (\<lambda>i. si_address_type i = ''p2sh'') locktime inputs (length hw) ss"
  using assms unfolding non_sw_steps_def by (rule pieces_sign) auto

section \<open>Halves\<close>

lemma batches_wf: "trusted_batches lookup inputs = Some bs \<Longrightarrow> length bs = length inputs \<and> list_all wf_apdu (concat bs)"
  unfolding trusted_batches_def
  by (drule all_some_map) (fastforce simp: list_all_iff in_set_conv_nth split: option.splits dest: trusted_wf)

text \<open>How a conversation ends says how its last command was answered.\<close>

definition heard :: "log \<Rightarrow> sign_outcome \<Rightarrow> bool" where
  "heard new r \<longleftrightarrow> (if r = SignFailed then refused new else answered new)"

lemma said_wf: "said ps new ok \<Longrightarrow> list_all wf_apdu ps \<Longrightarrow> list_all (wf_apdu \<circ> fst) new"
  by (auto simp: said_def list_all_iff)

text \<open>The inputs of a kind carry signatures the device gave for them; the others are as before.\<close>

definition signed_for :: "(signing_input \<Rightarrow> bool) \<Rightarrow> 32 word \<Rightarrow> signing_input list \<Rightarrow> log \<Rightarrow> bytes list \<Rightarrow> bytes list \<Rightarrow> bool" where
  "signed_for P locktime inputs new sigs sigs' \<longleftrightarrow> length sigs' = length sigs \<and>
     (\<forall>i < length sigs. if i < length inputs \<and> P (inputs ! i)
        then \<exists>p a. untrusted_hash_sign (si_user_path (inputs ! i)) locktime = Some p \<and> (p, Some a) \<in> set new \<and>
             sigs' ! i = signature_of a
        else sigs' ! i = sigs ! i)"

lemma signed_for: "signs_for P locktime inputs (length inputs) ss \<Longrightarrow> signed ss new sigs sigs' \<Longrightarrow>
    signed_for P locktime inputs new sigs sigs'"
  unfolding signs_for_def signed_def signed_for_def by (metis (no_types, lifting))

lemma half_said:
  assumes half: "sign_half (logged dev) sw steps lookup inputs sigs (d, log) = (s, r)"
    and steps: "\<And>hw ss. steps inputs hw = Some ss \<Longrightarrow> signs_for P locktime inputs (length hw) ss"
  shows "\<exists>d' new. s = (d', log @ new) \<and> list_all (wf_apdu \<circ> fst) new \<and> heard new r \<and>
    (\<forall>sigs'. r = SignFinished sigs' \<longrightarrow> signed_for P locktime inputs new sigs sigs')"
proof (cases "trusted_batches lookup inputs")
  case None
  with half show ?thesis by (auto simp: sign_half_def heard_def)
next
  case (Some bs)
  note bs = batches_wf [OF Some]
  obtain s1 hw where hw: "run_inputs (logged dev) sw inputs bs (d, log) = (s1, hw)"
    by (cases "run_inputs (logged dev) sw inputs bs (d, log)")
  obtain d1 new1 where new1: "s1 = (d1, log @ new1)" "said (concat bs) new1 (hw \<noteq> None)"
      "\<And>h. hw = Some h \<Longrightarrow> length h = length inputs"
    using inputs_said [OF hw] bs by blast
  have wf1: "list_all (wf_apdu \<circ> fst) new1" using said_wf [OF new1(2)] bs by simp
  show ?thesis
  proof (cases hw)
    case None
    with half Some hw new1 wf1 show ?thesis by (auto simp: sign_half_def heard_def said_def)
  next
    case h: (Some h)
    show ?thesis
    proof (cases "steps inputs h")
      case None
      with half Some hw h new1 wf1 show ?thesis by (auto simp: sign_half_def heard_def said_def)
    next
      case ss: (Some ss)
      obtain s2 r2 where r2: "run_steps (logged dev) ss sigs (d1, log @ new1) = (s2, r2)"
        by (cases "run_steps (logged dev) ss sigs (d1, log @ new1)")
      obtain d2 new2 where new2: "s2 = (d2, (log @ new1) @ new2)" "said (map snd ss) new2 (r2 \<noteq> None)"
          "\<And>sigs'. r2 = Some sigs' \<Longrightarrow> signed ss new2 sigs sigs'"
        using steps_said [OF r2] by blast
      have signs: "signs_for P locktime inputs (length inputs) ss" using steps [OF ss] new1(3) [OF h] by simp
      then have wf2: "list_all (wf_apdu \<circ> fst) new2"
        using said_wf [OF new2(2)] by (simp add: signs_for_def list_all_iff)
      have r: "r = (case r2 of None \<Rightarrow> SignFailed | Some sigs' \<Rightarrow> SignFinished sigs')" and s: "s = s2"
        using half Some hw h ss new1(1) r2 by (auto simp: sign_half_def split: option.splits)
      show ?thesis
      proof (intro exI [of _ d2] exI [of _ "new1 @ new2"] conjI allI impI)
        show "s = (d2, log @ new1 @ new2)" using s new2(1) by simp
        show "list_all (wf_apdu \<circ> fst) (new1 @ new2)" using wf1 wf2 by simp
        have a1: "answered new1" using new1(2) h by (simp add: said_def)
        show "heard (new1 @ new2) r"
          using new2(2) a1 unfolding r by (cases r2) (auto simp: heard_def said_def intro: refused_append)
        fix sigs' assume "r = SignFinished sigs'"
        then have "r2 = Some sigs'" using r by (cases r2) simp_all
        from signed_for [OF signs new2(3) [OF this]]
        show "signed_for P locktime inputs (new1 @ new2) sigs sigs'"
          unfolding signed_for_def by (auto; metis)
      qed
    qed
  qed
qed

end
