(* ===== verification/Ledger_Props.thy ===== *)
theory Ledger_Props
  imports Ledger_Talk
begin

text \<open>
  What the wallet promises of a Ledger device: answers are put together from their packets, the
  queue keeps the order, long data is cut into units, a device that reads Bitcoin's format reads
  the transactions the wallet sends, and signatures are the device's answers.
\<close>

section \<open>Answers\<close>

text \<open>
  C34.  Round trip of an answer: cut into packets of 64 bytes and read report by report, a
  response of any length that the 16-bit counter of an answer can hold is put together again, and
  the command finishes with exactly that response when the status is 0x9000 and fails for every
  other status, whatever the uninitialised fields of the command held before.
\<close>

theorem answer_roundtrip:
  assumes "length response < 65534"
  shows "\<exists>c. read_reports (new_command len off payload) (transport (response @ be16 sw)) =
      Some (c, if sw = 0x9000 then CommandFinished else CommandFailed) \<and>
    (sw = 0x9000 \<longrightarrow> c_response c = response) \<and>
    list_all (\<lambda>p. length p = 64) (transport (response @ be16 sw))"
proof -
  have "0 < length (response @ be16 sw)" and "length (response @ be16 sw) < 65536" using assms by simp_all
  from read_transport [OF this] obtain c where c: "receiving (response @ be16 sw) (length (response @ be16 sw)) c"
      "read_reports (new_command len off payload) (transport (response @ be16 sw)) = Some (read_apdu_response c)"
    by blast
  have "c_buf c = response @ be16 sw" using receiving_done [OF c(1)] by simp
  from read_apdu_response_status [OF this] c(2) show ?thesis
    by (auto simp: list_all_iff transport_def dest: packets_64)
qed

theorem answer_roundtrip_witness:
  "\<exists>c. read_reports (new_command 7 9 []) (transport ([1, 2, 3] @ be16 0x9000)) = Some (c, CommandFinished) \<and>
    c_response c = [1, 2, 3]"
  using answer_roundtrip [where response = "[1, 2, 3]" and sw = "0x9000" and len = 7 and off = 9 and payload = "[]"]
  by auto

section \<open>The queue\<close>

text \<open>
  C35.  Whatever commands are handed to a device and whatever reports it sends, in any
  interleaving: the commands are answered in the order in which they were handed over, none
  twice and none before its turn, and what is written to the device is the reports of the
  commands in that order, where the reports of a command are written only when all commands
  before it have been answered.
\<close>

theorem queue_in_order:
  "let out = snd (run device_step new_device_queue es); k = length (all_done out)
   in all_done out = [0..<k] \<and> k \<le> length (all_handed es) \<and>
      all_written out = concat (map command_reports (take (Suc k) (all_handed es)))"
proof -
  have "queue_ok [] 0 new_device_queue" by (simp add: queue_ok_def new_device_queue_def)
  from device_run [OF this, of es] show ?thesis
    by (simp add: progress_def queue_ok_def Let_def)
qed

section \<open>Long data\<close>

lemma concat_chunks: "0 < k \<Longrightarrow> concat (chunks k data) = data"
proof (induction k data rule: chunks.induct)
  case (1 k data)
  then show ?case by (subst chunks.simps) simp
qed

lemma chunks_length: "c \<in> set (chunks k data) \<Longrightarrow> length c \<le> k"
proof (induction k data rule: chunks.induct)
  case (1 k data)
  from 1(2) have "data \<noteq> []" "k \<noteq> 0" by (auto simp: chunks.simps [of k data] split: if_splits)
  with 1 show ?case by (auto simp: chunks.simps [of k data])
qed

lemma chunks_count: "length (chunks 255 data) = (length data + 254) div 255"
proof (induction "255 :: nat" data rule: chunks.induct)
  case (1 data)
  show ?case
  proof (cases "data = []")
    case False
    have "length (chunks 255 data) = Suc (length (chunks 255 (drop 255 data)))"
      using False by (subst chunks.simps) simp
    also have "\<dots> = Suc ((length data - 255 + 254) div 255)" using 1 False by simp
    also have "\<dots> = (length data + 254) div 255"
    proof (cases "length data \<le> 255")
      case True
      with False have "0 < length data" by simp
      with True show ?thesis by (simp add: div_if)
    next
      case gt: False
      then have "length data + 254 = length data - 255 + 254 + 255" by simp
      then show ?thesis by (simp only: div_add_self2)
    qed
    finally show ?thesis .
  qed (simp add: chunks.simps)
qed

text \<open>
  The outputs of a transaction always reach the device: \<open>finalizeInputFull\<close> never fails,
  the data of its units are a zero byte and then all the bytes, in order; there is one unit more
  than blocks of 255 bytes, no unit is longer than 260 bytes; the first has the flag 0xff, the last of
  several 0x80 and the ones between 0.
\<close>

lemma finalize_cuts:
  "\<exists>ps. finalize_input_full data = Some ps \<and> concat (map (drop 5) ps) = 0 # data \<and>
    length ps = 1 + (length data + 254) div 255 \<and> list_all (\<lambda>p. length p \<le> 260) ps \<and>
    map (\<lambda>p. p ! 2) ps = 0xff # (if data = [] then [] else replicate (length ps - 2) 0 @ [0x80])"
proof -
  define datas where "datas = [0] # chunks 255 data"
  define m where "m = length (chunks 255 data)"
  define flag :: "nat \<Rightarrow> byte" where "flag i = (if i = 0 then 0xff else if i = m then 0x80 else 0)" for i
  define ps where "ps = map (\<lambda>i. [0xe0, 0x4a, flag i, 0, of_nat (length (datas ! i))] @ datas ! i) [0..<Suc m]"
  have n: "length datas = Suc m" by (simp add: datas_def m_def)
  have short: "length (datas ! i) < 256" if "i < Suc m" for i
  proof -
    have "datas ! i \<in> set datas" using that n by simp
    then show ?thesis using chunks_length [of "datas ! i" 255 data] by (fastforce simp: datas_def)
  qed
  have "finalize_input_full data = all_some (map (\<lambda>i. apdu 0xe0 0x4a (flag i) 0 (datas ! i)) [0..<Suc m])"
    unfolding finalize_input_full_def Let_def datas_def [symmetric] n flag_def diff_Suc_1 ..
  also have "\<dots> = Some ps"
    unfolding all_some_iff ps_def map_map by (rule map_cong) (simp_all add: apdu_Some short del: upt_Suc)
  finally have fin: "finalize_input_full data = Some ps" .
  have "map (drop 5) ps = map ((!) datas) [0..<length datas]" by (simp add: ps_def n)
  then have cat: "concat (map (drop 5) ps) = 0 # data"
    by (simp only: map_nth) (simp add: datas_def concat_chunks)
  have len: "length ps = Suc m" by (simp add: ps_def)
  have "map (\<lambda>p. p ! 2) ps = map flag [0..<Suc m]" by (simp add: ps_def)
  also have "\<dots> = 0xff # (if data = [] then [] else replicate (m - 1) 0 @ [0x80])"
  proof (cases "data = []")
    case False
    then have m: "0 < m" by (simp add: m_def chunks.simps)
    then have "[0..<Suc m] = 0 # [1..<m] @ [m]" by (simp add: upt_conv_Cons)
    moreover have "map flag [1..<m] = replicate (m - 1) 0"
      by (rule nth_equalityI) (auto simp: flag_def)
    ultimately show ?thesis using False m by (simp add: flag_def)
  qed (simp add: m_def chunks.simps flag_def)
  finally have flags: "map (\<lambda>p. p ! 2) ps = 0xff # (if data = [] then [] else replicate (m - 1) 0 @ [0x80])" .
  have "list_all (\<lambda>p. length p \<le> 260) ps"
    by (auto simp: ps_def list_all_iff simp del: upt_Suc dest!: short)
  with fin cat len flags show ?thesis by (intro exI [of _ ps]) (simp add: m_def chunks_count)
qed

section \<open>Transactions on the way to the device\<close>

lemma varint_length: "length (varint le32 v) \<le> 5" "length (varint be32 v) \<le> 5"
  by (simp_all add: varint_def)

lemma varint_small: "n < 65535 \<Longrightarrow> varint be32 (of_nat n) = varint le32 (of_nat n)"
  by (simp add: varint_def word_less_nat_alt of_nat32)

lemma trusted_datas:
  assumes "get_trusted_input tx index = Some ps"
  shows "map (drop 5) ps = trusted_input_datas tx index"
proof -
  have units: "all_some (map (apdu 0xe0 0x42 0x80 0) ds) = Some qs \<Longrightarrow> map (drop 5) qs = ds" for ds qs
    unfolding all_some_iff
    by (induction ds arbitrary: qs) (auto simp: apdu_Some Cons_eq_map_conv)
  obtain d ds where d: "trusted_input_datas tx index = d # ds" by (simp add: trusted_input_datas_def)
  with assms obtain p qs where "apdu 0xe0 0x42 0 0 d = Some p"
      "all_some (map (apdu 0xe0 0x42 0x80 0) ds) = Some qs" "ps = p # qs"
    by (auto simp: get_trusted_input_def all_some_iff)
  with d units show ?thesis by (auto simp: apdu_Some)
qed

lemma trusted_fails: "get_trusted_input tx index = None \<longleftrightarrow>
    list_ex (\<lambda>d. 256 \<le> length d) (trusted_input_datas tx index)"
proof -
  have units: "None \<in> set (map (apdu 0xe0 0x42 0x80 0) ds) \<longleftrightarrow> list_ex (\<lambda>d. 256 \<le> length d) ds" for ds
    by (induction ds) (auto simp: apdu_None eq_commute [of None])
  obtain d ds where d: "trusted_input_datas tx index = d # ds" by (simp add: trusted_input_datas_def)
  show ?thesis
    unfolding get_trusted_input_def d list.case all_some_None list.set insert_iff units
    by (simp add: apdu_None eq_commute [of None])
qed

lemma list_ex_concat_map: "list_ex P (concat (map f xs)) \<longleftrightarrow> list_ex (\<lambda>x. list_ex P (f x)) xs"
  by (induction xs) simp_all

lemma trusted_too_long: "list_ex (\<lambda>d. 256 \<le> length d) (trusted_input_datas tx index) \<longleftrightarrow>
    list_ex (\<lambda>i. 252 \<le> length (ti_script i)) (tx_inputs tx) \<or> list_ex (\<lambda>t. 256 \<le> length (to_script t)) (tx_outputs tx)"
proof -
  have short: "\<not> 256 \<le> length (be32 i @ le32 v @ varint le32 n)" "\<not> 256 \<le> length (take 32 h @ le32 i @ varint le32 n)"
      "\<not> 256 \<le> length (varint be32 n)" "\<not> 256 \<le> length (le64 u @ varint le32 n)" "\<not> 256 \<le> length (le32 v)"
      "256 \<le> length (script @ le32 v) \<longleftrightarrow> 252 \<le> length script" for i v n h u and script :: bytes
    using varint_length [of n] by auto
  show ?thesis
    unfolding trusted_input_datas_def by (simp add: list_ex_concat_map short del: length_append)
qed

lemma trusted_stream:
  assumes "tx_ok tx" and "length (tx_outputs tx) < 65535"
  shows "concat (trusted_input_datas tx index) = be32 index @ tx_bytes tx"
proof -
  have ins: "concat (concat (map (\<lambda>i. [take 32 (ti_txhash i) @ le32 (ti_index i) @ varint le32 (of_nat (length (ti_script i))),
      ti_script i @ le32 (ti_sequence i)]) is)) = concat (map input_bytes is)" if "list_all input_ok is" for "is"
    using that by (induction "is") (simp_all add: input_bytes_def input_ok_def)
  have outs: "concat (concat (map (\<lambda>t. [le64 (to_satoshi t) @ varint le32 (of_nat (length (to_script t))), to_script t]) ts))
      = concat (map tx_output_bytes ts)" for ts
    by (induction ts) (simp_all add: tx_output_bytes_def)
  show ?thesis
    using assms by (simp add: trusted_input_datas_def tx_bytes_def ins outs varint_small tx_ok_def)
qed

text \<open>
  C37.  Let the transaction an input spends have fewer than 65535 outputs (beyond that the number of
  outputs is written in the wrong byte order).  Either it has an input script of 252 bytes or more or an
  output script of 256 or more, and then its trusted input cannot be asked for: the assertion on
  the length of a unit is violated.  Or it has none, and then the data of the units are the index of the
  output followed by exactly that transaction, as a device that reads Bitcoin's format reads it,
  with nothing left over.
\<close>

theorem trusted_input_read:
  assumes "tx_ok tx" and "length (tx_outputs tx) < 65535"
  shows "let large = list_ex (\<lambda>i. 252 \<le> length (ti_script i)) (tx_inputs tx)
             \<or> list_ex (\<lambda>t. 256 \<le> length (to_script t)) (tx_outputs tx)
    in case get_trusted_input tx index of
         None \<Rightarrow> large
       | Some ps \<Rightarrow> \<not> large \<and> take 4 (concat (map (drop 5) ps)) = be32 index \<and>
           get_tx (drop 4 (concat (map (drop 5) ps))) = Some (tx, [])"
proof -
  have "get_tx (tx_bytes tx) = Some (tx, [])" using tx.dec_enc [OF assms(1), of "[]"] by simp
  then show ?thesis
    using trusted_fails [of tx index] trusted_datas [of tx index] trusted_stream [OF assms, of index]
    by (auto simp: Let_def trusted_too_long split: option.split)
qed

theorem trusted_input_read_witness:
  "let tx = \<lparr>tx_version = 2, tx_inputs = [\<lparr>ti_txhash = replicate 32 7, ti_index = 1, ti_script = [1, 2], ti_sequence = 5\<rparr>],
      tx_outputs = [\<lparr>to_satoshi = 1000, to_script = [3]\<rparr>], tx_locktime = 0\<rparr>
   in case get_trusted_input tx 0 of None \<Rightarrow> False
      | Some ps \<Rightarrow> get_tx (drop 4 (concat (map (drop 5) ps))) = Some (tx, [])"
  using trusted_input_read [of "\<lparr>tx_version = 2, tx_inputs = [\<lparr>ti_txhash = replicate 32 7, ti_index = 1, ti_script = [1, 2],
      ti_sequence = 5\<rparr>], tx_outputs = [\<lparr>to_satoshi = 1000, to_script = [3]\<rparr>], tx_locktime = 0\<rparr>" 0]
  by (simp add: Let_def tx_ok_def input_ok_def output_ok_def split: option.splits)

section \<open>Integers of variable length\<close>

lemma uint32: "0 \<le> uint (i :: 32 word)" "uint (i :: 32 word) < 2 ^ 32"
  using unsigned_less [of i, where 'a = int] by simp_all

lemma sint32: "sint (i :: 32 word) = (if uint i < 2 ^ 31 then uint i else uint i - 2 ^ 32)"
proof -
  have "sint i = (uint i + 2 ^ 31) mod 2 ^ 32 - 2 ^ 31"
    by (simp add: sint_uint signed_take_bit_eq_take_bit_shift take_bit_eq_mod)
  moreover have "(u + 2 ^ 31) mod 2 ^ 32 - 2 ^ 31 = (if u < 2 ^ 31 then u else u - 2 ^ 32)"
    if "0 \<le> u" "u < 2 ^ 32" for u :: int
  proof (cases "u < 2 ^ 31")
    case False
    have "(u + 2 ^ 31) mod 2 ^ 32 = (u - 2 ^ 31 + 2 ^ 32) mod 2 ^ 32" by (simp add: add.commute)
    also have "\<dots> = u - 2 ^ 31" using that False by (simp only: mod_add_self2) simp
    finally show ?thesis using False by simp
  qed (use that in simp)
  ultimately show ?thesis using uint32 [of i] by metis
qed

lemma var_int_size_cases:
  "i < 0x80000000 \<Longrightarrow> var_int_size i = (if i < 253 then 1 else if i \<le> 0xFFFF then 3 else 5)"
  "\<not> i < 0x80000000 \<Longrightarrow> var_int_size i = 9"
  using uint32 [of i]
  by (auto simp: var_int_size_def word_sless_alt word_sle_eq sint32 word_less_def word_le_def)

lemma ucast64: "ucast (ucast v :: 64 word) = (v :: 32 word)"
  by (rule bit_word_eqI) (auto simp: bit_simps)

lemma mask64: "(0xff :: 64 word) = mask 8" by (simp add: mask_eq_exp_minus_1)

lemma ucast8:
  "ucast (ucast v :: 64 word) = (ucast (v AND 0xff) :: byte)"
  "ucast ((ucast v :: 64 word) AND 0xff) = (ucast (v AND 0xff) :: byte)"
  "ucast (drop_bit 8 (ucast (v :: 32 word) :: 64 word) AND 0xff) = (ucast (drop_bit 8 v AND 0xff) :: byte)"
  for v :: "32 word"
  unfolding mask64 mask8
  by (rule bit_word_eqI, auto simp: bit_simps)+

lemma var_int_eq:
  "var_int (ucast v) = (if v < 253 then [ucast (v AND 0xff)]
     else if v \<le> 0xffff then [253, ucast (v AND 0xff), ucast (drop_bit 8 v AND 0xff)]
     else if v < 0x80000000 then 254 # le32 v else 255 # le64 (ucast v))" for v :: "32 word"
proof -
  have "v < 253 \<Longrightarrow> v < 0x80000000" "v \<le> 0xffff \<Longrightarrow> v < 0x80000000"
    by (simp_all add: word_less_def word_le_def)
  then show ?thesis
    unfolding var_int_def ucast64 Let_def ucast8
    by (cases "v < 0x80000000") (auto simp: var_int_size_cases)
qed

text \<open>
  Both writers of lengths agree, byte for byte, on every 32-bit value below 2 to the 31
  except 65535, which the stream operator writes in five bytes and \<open>varInt\<close> in three; from
  2 to the 31 on \<open>varInt\<close> takes the value for a negative one and writes nine bytes.  What the
  stream operator writes to a little-endian stream is always read back as the same value.
\<close>

lemma varints_agree:
  "get_varint (varint le32 v @ s) = Some (v, s) \<and>
   (varint le32 v = var_int (ucast v) \<longleftrightarrow> v \<noteq> 0xffff \<and> v < 0x80000000) \<and>
   length (varint le32 v) = (if v < 0xfd then 1 else if v < 0xffff then 3 else 5)"
proof -
  have *: "v < 253 \<or> 253 \<le> v \<and> v < 0xffff \<or> v = 0xffff \<or> 0xffff < v \<and> v < 0x80000000 \<or> 0x80000000 \<le> v"
    by (auto simp: word_less_def word_le_def word_uint_eq_iff)
  have "length (255 # le64 (ucast v)) \<noteq> length (varint le32 v)" by (simp add: varint_def)
  then have ne: "varint le32 v \<noteq> 255 # le64 (ucast v)" by metis
  from * have "varint le32 v = var_int (ucast v) \<longleftrightarrow> v \<noteq> 0xffff \<and> v < 0x80000000"
  proof (elim disjE conjE)
    assume "v < 253"
    then have "v < 0x80000000" "v \<noteq> 0xffff" by (auto simp add: word_less_def)
    with \<open>v < 253\<close> show ?thesis by (simp add: var_int_eq varint_def)
  next
    assume v: "253 \<le> v" "v < 0xffff"
    then have "v < 0x80000000" "v \<noteq> 0xffff" "\<not> v < 253" by (auto simp: word_less_def word_le_def)
    with v show ?thesis by (simp add: var_int_eq varint_def)
  next
    assume v: "v = 0xffff"
    have "length (var_int (ucast v)) = 3" by (subst var_int_eq) (simp add: v)
    moreover have "length (varint le32 v) = 5" by (simp add: varint_def v)
    ultimately have "varint le32 v \<noteq> var_int (ucast v)" by auto
    with v show ?thesis by blast
  next
    assume v: "0xffff < v" "v < 0x80000000"
    then have "v \<noteq> 0xffff" "\<not> v < 253" "\<not> v < 0xffff" by (auto simp: word_less_def word_le_def)
    with v show ?thesis by (auto simp: var_int_eq varint_def)
  next
    assume v: "0x80000000 \<le> v"
    then have "\<not> v < 0x80000000" "\<not> v < 253" "\<not> v \<le> 0xffff" by (auto simp: word_less_def word_le_def)
    with ne show ?thesis by (simp add: var_int_eq)
  qed
  then show ?thesis by (simp add: varint.dec_enc) (simp add: varint_def)
qed

section \<open>Signing\<close>

lemma signed_for_at:
  assumes "signed_for P locktime inputs new sigs sigs'" and "i < length sigs"
  shows "if i < length inputs \<and> P (inputs ! i)
    then \<exists>p a. untrusted_hash_sign (si_user_path (inputs ! i)) locktime = Some p \<and> (p, Some a) \<in> set new \<and>
      sigs' ! i = signature_of a
    else sigs' ! i = sigs ! i"
  using assms unfolding signed_for_def by blast

lemma signed_for_trans:
  assumes "signed_for P locktime inputs xs sigs0 sigs1" and "signed_for Q locktime inputs ys sigs1 sigs2"
    and "\<And>i. i < length inputs \<Longrightarrow> P (inputs ! i) \<noteq> Q (inputs ! i)"
  shows "signed_for (\<lambda>i. True) locktime inputs (xs @ ys) sigs0 sigs2"
  unfolding signed_for_def
proof (intro conjI allI impI)
  show len: "length sigs2 = length sigs0" using assms by (simp add: signed_for_def)
  fix i assume i: "i < length sigs0"
  let ?by = "\<lambda>log sigs. \<exists>p a. untrusted_hash_sign (si_user_path (inputs ! i)) locktime = Some p \<and> (p, Some a) \<in> set log \<and>
      sigs ! i = signature_of a"
  have 1: "if i < length inputs \<and> P (inputs ! i) then ?by xs sigs1 else sigs1 ! i = sigs0 ! i"
    by (rule signed_for_at [OF assms(1) i])
  have 2: "if i < length inputs \<and> Q (inputs ! i) then ?by ys sigs2 else sigs2 ! i = sigs1 ! i"
    by (rule signed_for_at [OF assms(2)]) (use assms(1) i in \<open>simp add: signed_for_def\<close>)
  show "if i < length inputs \<and> True then ?by (xs @ ys) sigs2 else sigs2 ! i = sigs0 ! i"
  proof (cases "i < length inputs")
    case True
    show ?thesis
    proof (cases "Q (inputs ! i)")
      case q: True
      with 2 True show ?thesis by auto
    next
      case False
      with 1 2 True assms(3) [OF True] show ?thesis by auto
    qed
  next
    case False
    with 1 2 show ?thesis by simp
  qed
qed

lemma signed_for_none:
  "\<not> list_ex P inputs \<Longrightarrow> signed_for P locktime inputs [] sigs sigs"
  by (auto simp: signed_for_def list_ex_iff)

lemma heard_append: "heard xs (SignFinished sigs) \<Longrightarrow> heard ys r \<Longrightarrow> heard (xs @ ys) r"
  by (auto simp: heard_def refused_append)

lemma sign_said:
  assumes "sign_transaction (logged dev) lookup version locktime inputs outs (d, []) = ((d', log), r)"
  shows "list_all (wf_apdu \<circ> fst) log \<and> heard log r \<and>
    (\<forall>sigs. r = SignFinished sigs \<longrightarrow>
      signed_for (\<lambda>i. True) locktime inputs log (replicate (length inputs) []) sigs)"
proof -
  let ?sw = "\<lambda>i. si_address_type i \<noteq> ''p2sh''" and ?p2sh = "\<lambda>i. si_address_type i = ''p2sh''"
  let ?sigs0 = "replicate (length inputs) ([] :: bytes)"
  obtain s1 r1 where first: "(if list_ex ?sw inputs
      then sign_half (logged dev) True (sw_steps version locktime outs) lookup inputs ?sigs0 (d, [])
      else ((d, []), SignFinished ?sigs0)) = (s1, r1)" by (meson surj_pair)
  obtain d1 new1 where 1: "s1 = (d1, new1)" "list_all (wf_apdu \<circ> fst) new1" "heard new1 r1"
    "\<And>sigs1. r1 = SignFinished sigs1 \<Longrightarrow> signed_for ?sw locktime inputs new1 ?sigs0 sigs1"
  proof (cases "list_ex ?sw inputs")
    case True
    with first have "sign_half (logged dev) True (sw_steps version locktime outs) lookup inputs ?sigs0 (d, []) = (s1, r1)"
      by simp
    from half_said [OF this sw_signs
        [where version = version and locktime = locktime and outs = outs]] that
    show thesis by auto
  next
    case False
    with first signed_for_none [OF False] show thesis by (intro that [of d "[]"]) (auto simp: heard_def)
  qed
  have result: "(if \<not> list_ex ?p2sh inputs then (s1, r1) else (case r1 of
      SignFinished sigs1 \<Rightarrow> sign_half (logged dev) False (non_sw_steps version locktime outs) lookup inputs sigs1 s1
    | _ \<Rightarrow> (s1, r1))) = ((d', log), r)"
    using assms first by (simp add: sign_transaction_def Let_def)
  show ?thesis
  proof (cases "list_ex ?p2sh inputs")
    case False
    with result 1 have "new1 = log" "r1 = r" by simp_all
    moreover have "signed_for (\<lambda>i. True) locktime inputs (new1 @ []) ?sigs0 sigs1" if "r1 = SignFinished sigs1" for sigs1
      by (rule signed_for_trans [OF 1(4) [OF that] signed_for_none [OF False]]) simp
    ultimately show ?thesis using 1 by simp
  next
    case True
    show ?thesis
    proof (cases r1)
      case (SignFinished sigs1)
      with result True 1(1) have "sign_half (logged dev) False (non_sw_steps version locktime outs) lookup inputs sigs1 (d1, new1)
          = ((d', log), r)" by simp
      from half_said [OF this non_sw_signs [where version = version and locktime = locktime and outs = outs]]
      obtain d2 new2 where "(d', log) = (d2, new1 @ new2)"
          and 2: "list_all (wf_apdu \<circ> fst) new2" "heard new2 r"
            "\<And>sigs2. r = SignFinished sigs2 \<Longrightarrow> signed_for ?p2sh locktime inputs new2 sigs1 sigs2"
        by auto
      then have log: "log = new1 @ new2" by simp
      have "signed_for (\<lambda>i. True) locktime inputs (new1 @ new2) ?sigs0 sigs2" if "r = SignFinished sigs2" for sigs2
        by (rule signed_for_trans [OF 1(4) [OF SignFinished] 2(3) [OF that]]) simp
      with 1 2 log SignFinished heard_append [of new1 sigs1 new2 r] show ?thesis by simp
    qed (use result True 1 in auto)
  qed
qed

text \<open>
  C39.  Provenance of signatures: when a signing finishes there is one signature for each input, and it
  is the device's own answer, with its first byte replaced by 0x30, to the command that asks it to sign
  for that input's own derivation path and the transaction's lock time, sent in this very
  conversation.  This holds for every mix of address types.
\<close>

theorem signatures_from_device:
  assumes "sign_transaction (logged dev) lookup version locktime inputs outs (d, []) = ((d', log), SignFinished sigs)"
  shows "length sigs = length inputs \<and> (\<forall>i < length inputs. \<exists>p a.
    untrusted_hash_sign (si_user_path (inputs ! i)) locktime = Some p \<and> (p, Some a) \<in> set log \<and>
    sigs ! i = 0x30 # drop 1 a)"
  using sign_said [OF assms] by (simp add: signed_for_def signature_of_def)

text \<open>A device that counts its answers, a transaction and an input, for a concrete signing.\<close>

definition sample_device :: "nat \<Rightarrow> bytes \<Rightarrow> nat \<times> bytes option" where
  "sample_device n p = (n + 1, Some [0x31, of_nat n])"

definition sample_tx :: wally_tx where
  "sample_tx = \<lparr>tx_version = 2,
     tx_inputs = [\<lparr>ti_txhash = replicate 32 7, ti_index = 1, ti_script = [1, 2], ti_sequence = 5\<rparr>],
     tx_outputs = [\<lparr>to_satoshi = 1000, to_script = [3]\<rparr>], tx_locktime = 0\<rparr>"

definition sample_input :: "string \<Rightarrow> signing_input" where
  "sample_input ty = \<lparr>si_address_type = ty, si_prevout_script = [9, 9], si_user_path = [1, 2],
     si_txhash = ''aa'', si_pt_idx = 0, si_sequence = 3\<rparr>"

definition sample_signing :: "(nat \<times> log) \<times> sign_outcome" where
  "sample_signing = sign_transaction (logged sample_device) (\<lambda>h. Some sample_tx) 2 0
     [sample_input ''p2wsh'', sample_input ''p2sh''] [] (0, [])"

lemma sample_signed: "snd sample_signing = SignFinished [[0x30, of_nat 24], [0x30, of_nat 53]]"
  by code_simp

theorem signatures_from_device_witness:
  "\<exists>p a. untrusted_hash_sign [1, 2] 0 = Some p \<and> (p, Some a) \<in> set (snd (fst sample_signing)) \<and>
     [0x30, of_nat 53] = 0x30 # drop 1 a"
proof -
  obtain d' log where run: "sample_signing = ((d', log), SignFinished [[0x30, of_nat 24], [0x30, of_nat 53]])"
    using sample_signed by (metis prod.collapse)
  from signatures_from_device [OF this [unfolded sample_signing_def]] have "\<forall>i < 2. \<exists>p a.
      untrusted_hash_sign (si_user_path ([sample_input ''p2wsh'', sample_input ''p2sh''] ! i)) 0 = Some p \<and>
      (p, Some a) \<in> set log \<and> [[0x30, of_nat 24], [0x30, of_nat 53]] ! i = 0x30 # drop 1 a" by simp
  from spec [OF this, of 1] show ?thesis by (simp add: run sample_input_def)
qed

text \<open>
  C40.  Every command of a signing is a well-formed command unit, whose length byte counts its data,
  for all transactions, inputs and outputs and whatever the device answers; and the conversation stops at
  the first refusal: it fails exactly when its last command was refused, and no command before
  the last one ever was.
\<close>

theorem signing_well_formed:
  "case sign_transaction (logged dev) lookup version locktime inputs outs (d, []) of
     ((d', log), r) \<Rightarrow> list_all (\<lambda>(p, a). wf_apdu p) log \<and> list_all (\<lambda>(p, a). a \<noteq> None) (butlast log) \<and>
       (r = SignFailed \<longleftrightarrow> log \<noteq> [] \<and> snd (last log) = None)"
proof -
  obtain d' log r where run: "sign_transaction (logged dev) lookup version locktime inputs outs (d, []) = ((d', log), r)"
    by (metis surj_pair)
  have wf: "list_all (\<lambda>(p, a). wf_apdu p) log" and heard: "heard log r"
    using sign_said [OF run] unfolding comp_def case_prod_beta by blast+
  have "answered (butlast log) \<and> (r = SignFailed \<longleftrightarrow> log \<noteq> [] \<and> snd (last log) = None)"
  proof (cases "r = SignFailed")
    case False
    with heard have "answered log" by (simp add: heard_def)
    then show ?thesis using False by (cases log rule: rev_cases) auto
  qed (use heard in \<open>simp add: heard_def refused_def\<close>)
  with wf run show ?thesis by (simp add: answered_def)
qed

end
