(* ===== verification/Jade_Api.thy ===== *)
theory Jade_Api
  imports Session Ledger_Wire
begin

text \<open>
  The protocol of a Jade device (\<open>src/jade/jadeapi.cpp\<close>): numbered requests, a queue, the
  handlers that wait for answers, with their timeouts and the requests of the web they proxy, and
  the conversations made of several requests: signing and firmware updates.  Handlers are
  closures in the code; here each kind of closure is a constructor with what it captures.
  Messages are CBOR maps; their bytes are left to Qt.
\<close>

section \<open>Messages\<close>

datatype cbor = CUndefined | CNull | CBool bool | CInt int | CStr string | CBytes bytes | CArr "cbor list"
  | CMap "(string \<times> cbor) list"

type_synonym cmap = "(string \<times> cbor) list"

definition cvalue :: "cmap \<Rightarrow> string \<Rightarrow> cbor" where
  "cvalue m k = (case map_of m k of None \<Rightarrow> CUndefined | Some v \<Rightarrow> v)"

definition ccontains :: "cmap \<Rightarrow> string \<Rightarrow> bool" where
  "ccontains m k \<longleftrightarrow> map_of m k \<noteq> None"

text \<open>
  \<open>QVariant::toBool\<close>, \<open>toByteArray\<close> and \<open>toString\<close> of what a message can hold; numbers with a
  fraction and tags are left out, and bytes are read as text one by one, as for ASCII.
\<close>

definition truthy_text :: "string \<Rightarrow> bool" where
  "truthy_text s \<longleftrightarrow> map ascii_lower s \<notin> {[], ''0'', ''false''}"

fun variant_text :: "cbor \<Rightarrow> string" where
  "variant_text (CStr s) = s"
| "variant_text (CBytes b) = map (\<lambda>x. char_of (unat x)) b"
| "variant_text (CInt n) = string_of_int n"
| "variant_text (CBool b) = (if b then ''true'' else ''false'')"
| "variant_text _ = []"

fun variant_bool :: "cbor \<Rightarrow> bool" where
  "variant_bool (CBool b) \<longleftrightarrow> b"
| "variant_bool (CInt n) \<longleftrightarrow> n \<noteq> 0"
| "variant_bool (CStr s) \<longleftrightarrow> truthy_text s"
| "variant_bool (CBytes b) \<longleftrightarrow> truthy_text (variant_text (CBytes b))"
| "variant_bool _ \<longleftrightarrow> False"

fun variant_bytes :: "cbor \<Rightarrow> bytes" where
  "variant_bytes (CBytes b) = b"
| "variant_bytes c = map (\<lambda>x. of_nat (of_char x)) (variant_text c)"

text \<open>\<open>QString::toInt\<close>: 0 when the text is no number or does not fit.\<close>

definition decimal :: "string \<Rightarrow> int option" where
  "decimal s = (if s \<noteq> [] \<and> list_all (\<lambda>c. 48 \<le> (of_char c :: nat) \<and> (of_char c :: nat) \<le> 57) s
     then Some (foldl (\<lambda>v c. 10 * v + (of_char c - 48)) 0 s) else None)"

definition text_to_int :: "string \<Rightarrow> int" where
  "text_to_int s =
     (let t = trimmed s;
          v = (case t of
              [] \<Rightarrow> None
            | c # cs \<Rightarrow> if c = CHR ''-'' then map_option uminus (decimal cs)
                else if c = CHR ''+'' then decimal cs else decimal t)
      in case v of None \<Rightarrow> 0 | Some n \<Rightarrow> if - (2 ^ 31) \<le> n \<and> n < 2 ^ 31 then n else 0)"

definition message_id :: "cmap \<Rightarrow> int" where
  "message_id m = text_to_int (variant_text (cvalue m ''id''))"

definition set_id :: "int \<Rightarrow> cmap \<Rightarrow> cmap" where
  "set_id i m = (''id'', CInt i) # filter (\<lambda>p. fst p \<noteq> ''id'') m"

text \<open>Both versions of \<open>getRequest\<close>: parameters are left out only when they are null.\<close>

definition get_request :: "int \<Rightarrow> string \<Rightarrow> cmap" where
  "get_request i meth = [(''id'', CStr (string_of_int i)), (''method'', CStr meth)]"

definition get_request_with :: "int \<Rightarrow> string \<Rightarrow> cbor \<Rightarrow> cmap" where
  "get_request_with i meth params =
     get_request i meth @ (if params = CNull then [] else [(''params'', params)])"

section \<open>State\<close>

text \<open>
  Callbacks of the callers are numbered.  \<open>OtaChunk id fwcmp chunk_size pos progress\<close> and the
  others are the closures that the methods make.
\<close>

datatype handler =
    Client nat
  | ForwardTo int
  | OtaChunk int bytes int int "nat option"
  | SignInitial int "cmap list"
  | ReceiveCommitment int nat "cmap list" "cbor list"
  | ReceiveSignature int nat "cmap list" "cbor list" "cbor list"
  | MessageCommitment bytes nat
  | MessageSignature bytes nat

text \<open>
  \<open>j_request_proxy\<close> maps to \<open>None\<close> where \<open>operator[]\<close> has put an empty function.
  \<open>j_draws\<close> counts the random numbers drawn, \<open>j_idle_valid\<close> says that the idle timer runs.
\<close>

record jade =
  j_response_handlers :: "(int, handler) qmap"
  j_request_proxy :: "(int, nat option) qmap"
  j_msg_timeout :: "(int, int) qmap"
  j_msg_queue :: "cmap list"
  j_msg_inflight :: "int set"
  j_locked :: bool
  j_idle_valid :: bool
  j_draws :: nat

datatype jade_output =
    SendMessage cmap
  | StartTimer int int
  | CallClient nat cmap
  | CallProgress nat cmap
  | MakeHttpRequest nat int cmap
  | ScheduleDrain
  | QueueCall nat cmap
  | EmptyFunctionCalled
  | JadeAssertion

definition new_jade :: jade where
  "new_jade = \<lparr>j_response_handlers = [], j_request_proxy = [], j_msg_timeout = [], j_msg_queue = [],
     j_msg_inflight = {}, j_locked = False, j_idle_valid = False, j_draws = 0\<rparr>"

definition restart_idle :: "jade \<Rightarrow> jade" where
  "restart_idle s = s\<lparr>j_idle_valid := True\<rparr>"

definition is_idle :: "int \<Rightarrow> jade \<Rightarrow> bool" where
  "is_idle elapsed s \<longleftrightarrow> \<not> j_idle_valid s \<or> elapsed > 30000"

definition is_busy :: "jade \<Rightarrow> bool" where
  "is_busy s \<longleftrightarrow> j_response_handlers s \<noteq> []"

section \<open>Handlers and queue\<close>

text \<open>\<open>pick n\<close> is the \<open>n\<close>-th random number.  At most five more are drawn for a fresh one.\<close>

fun redraw :: "(nat \<Rightarrow> int) \<Rightarrow> nat \<Rightarrow> int \<Rightarrow> jade \<Rightarrow> int \<times> jade" where
  "redraw pick 0 i s = (i, s)"
| "redraw pick (Suc k) i s =
     (if map_of (j_response_handlers s) i = None then (i, s)
      else redraw pick k (pick (j_draws s)) (s\<lparr>j_draws := j_draws s + 1\<rparr>))"

definition register_response_handler :: "(nat \<Rightarrow> int) \<Rightarrow> handler \<Rightarrow> int \<Rightarrow> jade \<Rightarrow> int \<times> jade" where
  "register_response_handler pick h timeout s =
     (let (i, s1) = redraw pick 5 (pick (j_draws s)) (s\<lparr>j_draws := j_draws s + 1\<rparr>);
          s2 = s1\<lparr>j_response_handlers := qm_insert i h (j_response_handlers s1)\<rparr>
      in (i, if timeout > 0 then s2\<lparr>j_msg_timeout := qm_insert i timeout (j_msg_timeout s2)\<rparr> else s2))"

definition jade_send :: "cmap \<Rightarrow> jade \<Rightarrow> jade \<times> jade_output list" where
  "jade_send msg s =
     (let i = message_id msg; timeout = qm_value (j_msg_timeout s) i 0
      in (s\<lparr>j_msg_inflight := insert i (j_msg_inflight s)\<rparr>,
          SendMessage msg # (if timeout > 0 then [StartTimer i timeout] else [])))"

definition jade_enqueue :: "cmap \<Rightarrow> jade \<Rightarrow> jade \<times> jade_output list" where
  "jade_enqueue msg s0 =
     (let s = restart_idle s0
      in if j_msg_inflight s = {} \<and> j_msg_queue s = [] then jade_send msg s
         else (s\<lparr>j_msg_queue := j_msg_queue s @ [msg]\<rparr>, []))"

definition jade_drain :: "jade \<Rightarrow> jade \<times> jade_output list" where
  "jade_drain s =
     (if j_msg_inflight s \<noteq> {} then (s, [])
      else (case j_msg_queue s of
          [] \<Rightarrow> (s, [])
        | msg # rest \<Rightarrow> jade_send msg (s\<lparr>j_msg_queue := rest\<rparr>)))"

text \<open>Register a handler and send a request under its number.\<close>

definition ask_jade :: "(nat \<Rightarrow> int) \<Rightarrow> handler \<Rightarrow> string \<Rightarrow> cbor \<Rightarrow> jade \<Rightarrow> jade \<times> jade_output list" where
  "ask_jade pick h meth params s =
     (let (i, s1) = register_response_handler pick h 0 s in jade_send (get_request_with i meth params) s1)"

definition take_handler :: "int \<Rightarrow> jade \<Rightarrow> jade" where
  "take_handler i s = s\<lparr>j_response_handlers := qm_remove i (j_response_handlers s)\<rparr>"

definition remove_proxy :: "int \<Rightarrow> jade \<Rightarrow> jade" where
  "remove_proxy i s = s\<lparr>j_request_proxy := qm_remove i (j_request_proxy s)\<rparr>"

section \<open>Conversations\<close>

definition send_tx_input :: "(nat \<Rightarrow> int) \<Rightarrow> int \<Rightarrow> nat \<Rightarrow> cmap list \<Rightarrow> cbor list \<Rightarrow> jade \<Rightarrow> jade \<times> jade_output list" where
  "send_tx_input pick i index inputs commitments s =
     (if index \<ge> length inputs then (s, [JadeAssertion])
      else ask_jade pick (ReceiveCommitment i index inputs commitments) ''tx_input''
        (CMap (filter (\<lambda>p. fst p \<noteq> ''ae_host_entropy'') (inputs ! index))) s)"

definition send_tx_signature_request :: "(nat \<Rightarrow> int) \<Rightarrow> int \<Rightarrow> nat \<Rightarrow> cmap list \<Rightarrow> cbor list \<Rightarrow> cbor list
    \<Rightarrow> jade \<Rightarrow> jade \<times> jade_output list" where
  "send_tx_signature_request pick i index inputs commitments signatures s =
     (if index \<ge> length inputs then (s, [JadeAssertion])
      else ask_jade pick (ReceiveSignature i index inputs commitments signatures) ''get_signature''
        (CMap [(''ae_host_entropy'', CBytes (variant_bytes (cvalue (inputs ! index) ''ae_host_entropy'')))]) s)"

text \<open>The next chunk of a firmware, or the last message of an update.\<close>

definition ota_next :: "(nat \<Rightarrow> int) \<Rightarrow> int \<Rightarrow> bytes \<Rightarrow> int \<Rightarrow> int \<Rightarrow> nat option \<Rightarrow> jade \<Rightarrow> jade \<times> jade_output list" where
  "ota_next pick i fwcmp chunk_size pos progress s =
     (let size = int (length fwcmp)
      in if pos < size then
           (let len = (if size - pos \<ge> chunk_size then chunk_size else size - pos);
                rest = drop (nat pos) fwcmp;
                chunk = (if len < 0 then rest else take (nat len) rest)
            in ask_jade pick (OtaChunk i fwcmp chunk_size (pos + len) progress) ''ota_data'' (CBytes chunk) s)
         else jade_send (get_request i ''ota_complete'') s)"

definition ota_progress :: "int \<Rightarrow> bytes \<Rightarrow> int \<Rightarrow> nat option \<Rightarrow> jade_output list" where
  "ota_progress i fwcmp pos progress = (case progress of
     None \<Rightarrow> []
   | Some p \<Rightarrow> [CallProgress p [(''id'', CStr (string_of_int i)), (''size'', CInt (int (length fwcmp))),
       (''uploaded'', CInt pos)]])"

definition good_result :: "cmap \<Rightarrow> bool" where
  "good_result msg \<longleftrightarrow> ccontains msg ''result'' \<and> variant_bool (cvalue msg ''result'')"

text \<open>What a handler does that does not pass its message on to another one.\<close>

definition result_bytes :: "cmap \<Rightarrow> cbor" where
  "result_bytes msg = CBytes (variant_bytes (cvalue msg ''result''))"

definition signing_result :: "int \<Rightarrow> cbor list \<Rightarrow> cbor list \<Rightarrow> cmap" where
  "signing_result i signatures commitments =
     [(''id'', CInt i), (''result'', CMap [(''signatures'', CArr signatures), (''signer_commitments'', CArr commitments)])]"

text \<open>
  A handler called with a message: what it does itself, and the handler it forwards a message to,
  if it does.
\<close>

definition handle_ota_chunk :: "(nat \<Rightarrow> int) \<Rightarrow> int \<Rightarrow> bytes \<Rightarrow> int \<Rightarrow> int \<Rightarrow> nat option \<Rightarrow> cmap \<Rightarrow> jade
    \<Rightarrow> (jade \<times> jade_output list) \<times> (int \<times> cmap) option" where
  "handle_ota_chunk pick i fwcmp chunk_size pos progress msg s =
     (if pos < 0 \<or> int (length fwcmp) < pos then ((s, [JadeAssertion]), None)
      else if good_result msg then
        (let (s1, out) = ota_next pick i fwcmp chunk_size pos progress s
         in ((s1, ota_progress i fwcmp pos progress @ out), None))
      else ((s, []), Some (i, msg)))"

definition handle_sign_initial :: "(nat \<Rightarrow> int) \<Rightarrow> int \<Rightarrow> cmap list \<Rightarrow> cmap \<Rightarrow> jade
    \<Rightarrow> (jade \<times> jade_output list) \<times> (int \<times> cmap) option" where
  "handle_sign_initial pick i inputs msg s =
     (if good_result msg
      then (if inputs = [] then ((s, [JadeAssertion]), None) else (send_tx_input pick i 0 inputs [] s, None))
      else ((s, []), Some (i, msg)))"

definition handle_commitment :: "(nat \<Rightarrow> int) \<Rightarrow> int \<Rightarrow> nat \<Rightarrow> cmap list \<Rightarrow> cbor list \<Rightarrow> cmap \<Rightarrow> jade
    \<Rightarrow> (jade \<times> jade_output list) \<times> (int \<times> cmap) option" where
  "handle_commitment pick i index inputs commitments msg s =
     (if length commitments \<noteq> index then ((s, [JadeAssertion]), None)
      else if ccontains msg ''result'' then
        (let commitments' = commitments @ [result_bytes msg]
         in (if length commitments' < length inputs then send_tx_input pick i (index + 1) inputs commitments' s
             else send_tx_signature_request pick i 0 inputs commitments' [] s, None))
      else ((s, []), Some (i, msg)))"

definition handle_signature :: "(nat \<Rightarrow> int) \<Rightarrow> int \<Rightarrow> nat \<Rightarrow> cmap list \<Rightarrow> cbor list \<Rightarrow> cbor list \<Rightarrow> cmap \<Rightarrow> jade
    \<Rightarrow> (jade \<times> jade_output list) \<times> (int \<times> cmap) option" where
  "handle_signature pick i index inputs commitments signatures msg s =
     (if length signatures \<noteq> index then ((s, [JadeAssertion]), None)
      else if ccontains msg ''result'' then
        (let signatures' = signatures @ [result_bytes msg]
         in if length signatures' < length inputs
            then (send_tx_signature_request pick i (index + 1) inputs commitments signatures' s, None)
            else ((s, []), Some (i, signing_result i signatures' commitments)))
      else ((s, []), Some (i, msg)))"

definition handle_message_commitment :: "(nat \<Rightarrow> int) \<Rightarrow> bytes \<Rightarrow> nat \<Rightarrow> cmap \<Rightarrow> jade
    \<Rightarrow> (jade \<times> jade_output list) \<times> (int \<times> cmap) option" where
  "handle_message_commitment pick entropy cb msg s =
     (if ccontains msg ''error'' then ((s, [CallClient cb msg]), None)
      else (ask_jade pick (MessageSignature (variant_bytes (cvalue msg ''result'')) cb) ''get_signature''
        (CMap [(''ae_host_entropy'', CBytes entropy)]) s, None))"

definition handle_message_signature :: "bytes \<Rightarrow> nat \<Rightarrow> cmap \<Rightarrow> jade
    \<Rightarrow> (jade \<times> jade_output list) \<times> (int \<times> cmap) option" where
  "handle_message_signature commitment cb msg s =
     (if ccontains msg ''error'' then ((s, [CallClient cb msg]), None)
      else ((s, [CallClient cb [(''signature'', CStr (variant_text (cvalue msg ''result''))),
        (''signer_commitment'', CBytes commitment)]]), None))"

fun handle :: "(nat \<Rightarrow> int) \<Rightarrow> handler \<Rightarrow> cmap \<Rightarrow> jade
    \<Rightarrow> (jade \<times> jade_output list) \<times> (int \<times> cmap) option" where
  "handle pick (Client n) msg s = ((s, [CallClient n msg]), None)"
| "handle pick (ForwardTo i) msg s = ((s, []), Some (i, msg))"
| "handle pick (OtaChunk i fwcmp chunk_size pos progress) msg s =
     handle_ota_chunk pick i fwcmp chunk_size pos progress msg s"
| "handle pick (SignInitial i inputs) msg s = handle_sign_initial pick i inputs msg s"
| "handle pick (ReceiveCommitment i index inputs commitments) msg s =
     handle_commitment pick i index inputs commitments msg s"
| "handle pick (ReceiveSignature i index inputs commitments signatures) msg s =
     handle_signature pick i index inputs commitments signatures msg s"
| "handle pick (MessageCommitment entropy cb) msg s = handle_message_commitment pick entropy cb msg s"
| "handle pick (MessageSignature commitment cb) msg s = handle_message_signature commitment cb msg s"

text \<open>
  \<open>forwardToResponseHandler\<close> and \<open>callResponseHandler\<close>: a handler is taken out of the map before
  it is called, so that forwarding from handler to handler ends.  What a handler does itself when it
  forwards is nothing, so that the state it leaves is the one the next handler finds.
\<close>

function run_handler :: "(nat \<Rightarrow> int) \<Rightarrow> handler \<Rightarrow> cmap \<Rightarrow> jade \<Rightarrow> jade \<times> jade_output list" where
  "run_handler pick h msg s = (case handle pick h msg s of
     ((s1, out), None) \<Rightarrow> (s1, out)
   | ((s1, out), Some (t, msg')) \<Rightarrow> (case map_of (j_response_handlers s) t of
       None \<Rightarrow> (remove_proxy t (restart_idle s), out)
     | Some h' \<Rightarrow> (let (s2, out2) = run_handler pick h' (set_id t msg') (remove_proxy t (take_handler t (restart_idle s)))
         in (s2, out @ out2))))"
  by pat_completeness auto
termination
proof (relation "measure (\<lambda>(pick, h, msg, s). length (j_response_handlers s))", goal_cases)
  case (2 pick h msg s s1out fwd s1 out tm t msg' h')
  then have "(t, h') \<in> set (j_response_handlers s)" by (simp add: map_of_SomeD)
  then have "length (filter (\<lambda>p. fst p \<noteq> t) (j_response_handlers s)) < length (j_response_handlers s)"
    by (intro length_filter_less) auto
  then show ?case by (simp add: remove_proxy_def take_handler_def restart_idle_def qm_remove_def)
qed simp

declare run_handler.simps [simp del]

definition call_response_handler :: "(nat \<Rightarrow> int) \<Rightarrow> cmap \<Rightarrow> jade \<Rightarrow> jade \<times> jade_output list" where
  "call_response_handler pick msg s0 =
     (let s = restart_idle s0; i = message_id msg
      in if i \<le> 0 then (s, [JadeAssertion])
         else (case map_of (j_response_handlers s) i of
             None \<Rightarrow> (remove_proxy i s, [])
           | Some h \<Rightarrow> run_handler pick h msg (remove_proxy i (take_handler i s))))"

section \<open>Messages of the device\<close>

text \<open>\<open>response\<close> is \<open>CUndefined\<close> when the answer of the web is no object.\<close>

definition handle_http_response :: "(nat \<Rightarrow> int) \<Rightarrow> int \<Rightarrow> cmap \<Rightarrow> cbor \<Rightarrow> jade \<Rightarrow> jade \<times> jade_output list" where
  "handle_http_response pick i http_request response s0 =
     (case cvalue http_request ''on-reply'' of
        CStr on_reply \<Rightarrow>
          (let (new_id, s) = register_response_handler pick (ForwardTo i) 0 (restart_idle s0);
               proxy = qm_value (j_request_proxy s) i None;
               s1 = s\<lparr>j_request_proxy := qm_insert new_id proxy (qm_insert i proxy (j_request_proxy s))\<rparr>;
               params = (case response of CMap m \<Rightarrow> CMap m | _ \<Rightarrow> CUndefined)
           in jade_send (get_request_with new_id on_reply params) s1)
      | _ \<Rightarrow> (restart_idle s0, [JadeAssertion]))"

definition http_request_of :: "cmap \<Rightarrow> cbor option" where
  "http_request_of msg = (case cvalue msg ''result'' of CMap r \<Rightarrow> map_of r ''http_request'' | _ \<Rightarrow> None)"

text \<open>\<open>std::function\<close> throws when it is called while empty.\<close>

definition process_response_message :: "(nat \<Rightarrow> int) \<Rightarrow> cmap \<Rightarrow> jade \<Rightarrow> jade \<times> jade_output list" where
  "process_response_message pick msg s0 =
     (let s = restart_idle s0; i = message_id msg
      in case cvalue msg ''id'' of
           CStr _ \<Rightarrow>
             (if i = 0 then (s, [])
              else
                (let (s1, out) = (case http_request_of msg of
                     None \<Rightarrow> call_response_handler pick msg s
                   | Some (CMap request) \<Rightarrow> (case map_of (j_request_proxy s) i of
                       None \<Rightarrow> handle_http_response pick i request CNull s
                     | Some None \<Rightarrow> (s, [EmptyFunctionCalled])
                     | Some (Some p) \<Rightarrow> (s, [MakeHttpRequest p i request]))
                   | Some _ \<Rightarrow> (s, [JadeAssertion]))
                 in if EmptyFunctionCalled \<in> set out \<or> JadeAssertion \<in> set out then (s1, out)
                    else (s1\<lparr>j_msg_inflight := j_msg_inflight s1 - {i}\<rparr>, out @ [ScheduleDrain])))
         | _ \<Rightarrow> (s, []))"

text \<open>The timer of a request; its message to the handler carries no number.\<close>

definition timeout_message :: cmap where
  "timeout_message = [(''error'', CMap [(''message'', CStr ''timeout'')])]"

definition timer_fired :: "(nat \<Rightarrow> int) \<Rightarrow> int \<Rightarrow> jade \<Rightarrow> jade \<times> jade_output list" where
  "timer_fired pick i s = (case map_of (j_response_handlers s) i of
     None \<Rightarrow> (s, [])
   | Some h \<Rightarrow>
       (let (s1, out) = run_handler pick h timeout_message (take_handler i s);
            (s2, out2) = jade_drain (s1\<lparr>j_msg_inflight := j_msg_inflight s1 - {i}\<rparr>)
        in (s2, out @ out2)))"

section \<open>Calls\<close>

text \<open>Most methods register the caller's callback and put one request into the queue.\<close>

definition simple_call :: "(nat \<Rightarrow> int) \<Rightarrow> nat \<Rightarrow> string \<Rightarrow> cbor \<Rightarrow> jade \<Rightarrow> jade \<times> jade_output list" where
  "simple_call pick cb meth params s =
     (let (i, s1) = register_response_handler pick (Client cb) 0 s in jade_enqueue (get_request_with i meth params) s1)"

definition convert_path :: "32 word list \<Rightarrow> cbor" where
  "convert_path path = CArr (map (\<lambda>v. CInt (uint v)) path)"

definition set_mnemonic :: "(nat \<Rightarrow> int) \<Rightarrow> nat \<Rightarrow> string \<Rightarrow> jade \<Rightarrow> jade \<times> jade_output list" where
  "set_mnemonic pick cb mnemonic = simple_call pick cb ''debug_set_mnemonic'' (CMap [(''mnemonic'', CStr mnemonic)])"

text \<open>A ping goes past the queue; on a locked device the callback is called later, by the event loop.\<close>

definition ping :: "(nat \<Rightarrow> int) \<Rightarrow> nat \<Rightarrow> jade \<Rightarrow> jade \<times> jade_output list" where
  "ping pick cb s =
     (if j_locked s then (s, [QueueCall cb [(''result'', CInt 1)]])
      else (let (i, s1) = register_response_handler pick (Client cb) 1000 s in jade_send (get_request i ''ping'') s1))"

definition get_version_info :: "(nat \<Rightarrow> int) \<Rightarrow> nat \<Rightarrow> bool \<Rightarrow> jade \<Rightarrow> jade \<times> jade_output list" where
  "get_version_info pick cb nonblocking s =
     (if j_locked s then (s, [QueueCall cb []])
      else (let (i, s1) = register_response_handler pick (Client cb) 6000 s
            in jade_enqueue (get_request_with i ''get_version_info'' (CMap [(''nonblocking'', CBool nonblocking)])) s1))"

definition add_entropy :: "(nat \<Rightarrow> int) \<Rightarrow> nat \<Rightarrow> bytes \<Rightarrow> jade \<Rightarrow> jade \<times> jade_output list" where
  "add_entropy pick cb entropy = simple_call pick cb ''add_entropy'' (CMap [(''entropy'', CBytes entropy)])"

definition auth_user :: "(nat \<Rightarrow> int) \<Rightarrow> nat \<Rightarrow> string \<Rightarrow> nat \<Rightarrow> int \<Rightarrow> jade \<Rightarrow> jade \<times> jade_output list" where
  "auth_user pick cb net proxy now s =
     (let (i, s1) = register_response_handler pick (Client cb) 0 s;
          s2 = s1\<lparr>j_request_proxy := qm_insert i (Some proxy) (j_request_proxy s1)\<rparr>
      in jade_enqueue (get_request_with i ''auth_user'' (CMap [(''network'', CStr net), (''epoch'', CInt now)])) s2)"

text \<open>The empty braces make an undefined value, which is not null: it is sent as the parameters.\<close>

definition jade_logout :: "(nat \<Rightarrow> int) \<Rightarrow> nat \<Rightarrow> jade \<Rightarrow> jade \<times> jade_output list" where
  "jade_logout pick cb = simple_call pick cb ''logout'' CUndefined"

definition sign_attestation :: "(nat \<Rightarrow> int) \<Rightarrow> nat \<Rightarrow> bytes \<Rightarrow> jade \<Rightarrow> jade \<times> jade_output list" where
  "sign_attestation pick cb challenge =
     simple_call pick cb ''sign_attestation'' (CMap [(''challenge'', CBytes challenge)])"

text \<open>
  Both kinds of firmware update; \<open>patch_size\<close> is there for a delta.  \<open>sha256\<close> is Qt's hash and
  \<open>fwhash\<close> the bytes of the text that was given.
\<close>

definition ota_params :: "(bytes \<Rightarrow> bytes) \<Rightarrow> bytes \<Rightarrow> int \<Rightarrow> string \<Rightarrow> int option \<Rightarrow> cbor" where
  "ota_params sha256 fwcmp fwlen fwhash patch_size = CMap ([(''fwsize'', CInt fwlen),
     (''cmpsize'', CInt (int (length fwcmp))), (''cmphash'', CBytes (sha256 fwcmp))]
     @ (case patch_size of None \<Rightarrow> [] | Some n \<Rightarrow> [(''patchsize'', CInt n)])
     @ (if fwhash \<noteq> [] then [(''fwhash'', CBytes (from_hex fwhash))] else []))"

definition ota_update :: "(nat \<Rightarrow> int) \<Rightarrow> (bytes \<Rightarrow> bytes) \<Rightarrow> nat \<Rightarrow> nat option \<Rightarrow> bytes \<Rightarrow> int \<Rightarrow> string
    \<Rightarrow> int option \<Rightarrow> int \<Rightarrow> jade \<Rightarrow> jade \<times> jade_output list" where
  "ota_update pick sha256 cb progress fwcmp fwlen fwhash patch_size chunk_size s =
     (let (i, s1) = register_response_handler pick (Client cb) 0 s;
          (tmp, s2) = register_response_handler pick (OtaChunk i fwcmp chunk_size 0 progress) 0 s1
      in jade_enqueue (get_request_with tmp (if patch_size = None then ''ota'' else ''ota_delta'')
           (ota_params sha256 fwcmp fwlen fwhash patch_size)) s2)"

definition get_receive_address :: "(nat \<Rightarrow> int) \<Rightarrow> nat \<Rightarrow> string \<Rightarrow> 32 word \<Rightarrow> 32 word \<Rightarrow> 32 word \<Rightarrow> string \<Rightarrow> 32 word
    \<Rightarrow> jade \<Rightarrow> jade \<times> jade_output list" where
  "get_receive_address pick cb net subaccount branch pointer recovery_xpub csv_blocks =
     simple_call pick cb ''get_receive_address'' (CMap [(''network'', CStr net), (''subaccount'', CInt (uint subaccount)),
       (''branch'', CInt (uint branch)), (''pointer'', CInt (uint pointer)), (''recovery_xpub'', CStr recovery_xpub),
       (''csv_blocks'', CInt (uint csv_blocks))])"

definition get_receive_address_variant :: "(nat \<Rightarrow> int) \<Rightarrow> nat \<Rightarrow> string \<Rightarrow> string \<Rightarrow> 32 word list
    \<Rightarrow> jade \<Rightarrow> jade \<times> jade_output list" where
  "get_receive_address_variant pick cb net variant path =
     simple_call pick cb ''get_receive_address'' (CMap [(''network'', CStr net), (''variant'', CStr variant),
       (''path'', convert_path path)])"

definition get_xpub :: "(nat \<Rightarrow> int) \<Rightarrow> nat \<Rightarrow> string \<Rightarrow> 32 word list \<Rightarrow> jade \<Rightarrow> jade \<times> jade_output list" where
  "get_xpub pick cb net path =
     simple_call pick cb ''get_xpub'' (CMap [(''network'', CStr net), (''path'', convert_path path)])"

definition jade_sign_message :: "(nat \<Rightarrow> int) \<Rightarrow> nat \<Rightarrow> 32 word list \<Rightarrow> string \<Rightarrow> bytes \<Rightarrow> bytes
    \<Rightarrow> jade \<Rightarrow> jade \<times> jade_output list" where
  "jade_sign_message pick cb path message host_commitment host_entropy s =
     (let (i, s1) = register_response_handler pick (MessageCommitment host_entropy cb) 0 s
      in jade_enqueue (get_request_with i ''sign_message'' (CMap [(''path'', convert_path path), (''message'', CStr message),
           (''ae_host_commitment'', CBytes host_commitment)])) s1)"

text \<open>Both kinds of transactions; \<open>commitments\<close> is there for a Liquid one.\<close>

definition sign_tx_params :: "string \<Rightarrow> bytes \<Rightarrow> nat \<Rightarrow> cbor list option \<Rightarrow> cbor list \<Rightarrow> cbor" where
  "sign_tx_params net txn n commitments change = CMap ([(''network'', CStr net), (''use_ae_signatures'', CBool True),
     (''txn'', CBytes txn), (''num_inputs'', CInt (int n))]
     @ (case commitments of None \<Rightarrow> [] | Some cs \<Rightarrow> [(''trusted_commitments'', CArr cs)])
     @ [(''change'', CArr change)])"

definition sign_tx :: "(nat \<Rightarrow> int) \<Rightarrow> nat \<Rightarrow> string \<Rightarrow> bytes \<Rightarrow> cmap list \<Rightarrow> cbor list option \<Rightarrow> cbor list
    \<Rightarrow> jade \<Rightarrow> jade \<times> jade_output list" where
  "sign_tx pick cb net txn inputs commitments change s =
     (let (i, s1) = register_response_handler pick (Client cb) 0 s;
          (tmp, s2) = register_response_handler pick (SignInitial i inputs) 0 s1
      in jade_enqueue (get_request_with tmp (if commitments = None then ''sign_tx'' else ''sign_liquid_tx'')
           (sign_tx_params net txn (length inputs) commitments change)) s2)"

definition jade_get_blinding_key :: "(nat \<Rightarrow> int) \<Rightarrow> nat \<Rightarrow> bytes \<Rightarrow> jade \<Rightarrow> jade \<times> jade_output list" where
  "jade_get_blinding_key pick cb script = simple_call pick cb ''get_blinding_key'' (CMap [(''script'', CBytes script)])"

definition get_shared_nonce :: "(nat \<Rightarrow> int) \<Rightarrow> nat \<Rightarrow> bytes \<Rightarrow> bytes \<Rightarrow> jade \<Rightarrow> jade \<times> jade_output list" where
  "get_shared_nonce pick cb script their_pubkey = simple_call pick cb ''get_shared_nonce''
     (CMap [(''script'', CBytes script), (''their_pubkey'', CBytes their_pubkey)])"

definition get_blinding_factor :: "(nat \<Rightarrow> int) \<Rightarrow> nat \<Rightarrow> bytes \<Rightarrow> 32 word \<Rightarrow> string \<Rightarrow> jade \<Rightarrow> jade \<times> jade_output list" where
  "get_blinding_factor pick cb hash_prevouts output_index ty = simple_call pick cb ''get_blinding_factor''
     (CMap [(''hash_prevouts'', CBytes hash_prevouts), (''output_index'', CInt (uint output_index)), (''type'', CStr ty)])"

definition get_commitments :: "(nat \<Rightarrow> int) \<Rightarrow> nat \<Rightarrow> bytes \<Rightarrow> int \<Rightarrow> bytes \<Rightarrow> 32 word \<Rightarrow> bytes
    \<Rightarrow> jade \<Rightarrow> jade \<times> jade_output list" where
  "get_commitments pick cb asset_id amount hash_prevouts output_index vbf = simple_call pick cb ''get_commitments''
     (CMap ([(''asset_id'', CBytes asset_id), (''value'', CInt amount), (''hash_prevouts'', CBytes hash_prevouts),
        (''output_index'', CInt (uint output_index))] @ (if vbf \<noteq> [] then [(''vbf'', CBytes vbf)] else [])))"

definition jade_get_master_blinding_key :: "(nat \<Rightarrow> int) \<Rightarrow> nat \<Rightarrow> bool \<Rightarrow> jade \<Rightarrow> jade \<times> jade_output list" where
  "jade_get_master_blinding_key pick cb only_if_silent = simple_call pick cb ''get_master_blinding_key''
     (CMap [(''only_if_silent'', CBool only_if_silent)])"

section \<open>Steps\<close>

datatype jade_call =
    CallSetMnemonic string | CallPing | CallGetVersionInfo bool | CallAddEntropy bytes
  | CallAuthUser string nat int | CallLogout | CallSignAttestation bytes
  | CallOtaUpdate "nat option" bytes int string "int option" int
  | CallGetReceiveAddress string "32 word" "32 word" "32 word" string "32 word"
  | CallGetReceiveAddressVariant string string "32 word list" | CallGetXpub string "32 word list"
  | CallSignMessage "32 word list" string bytes bytes
  | CallSignTx string bytes "cmap list" "cbor list option" "cbor list"
  | CallGetBlindingKey bytes | CallGetSharedNonce bytes bytes | CallGetBlindingFactor bytes "32 word" string
  | CallGetCommitments bytes int bytes "32 word" bytes | CallGetMasterBlindingKey bool

fun make_jade_call :: "(nat \<Rightarrow> int) \<Rightarrow> (bytes \<Rightarrow> bytes) \<Rightarrow> nat \<Rightarrow> jade_call \<Rightarrow> jade \<Rightarrow> jade \<times> jade_output list" where
  "make_jade_call pick sha256 cb (CallSetMnemonic m) s = set_mnemonic pick cb m s"
| "make_jade_call pick sha256 cb CallPing s = ping pick cb s"
| "make_jade_call pick sha256 cb (CallGetVersionInfo b) s = get_version_info pick cb b s"
| "make_jade_call pick sha256 cb (CallAddEntropy e) s = add_entropy pick cb e s"
| "make_jade_call pick sha256 cb (CallAuthUser n p t) s = auth_user pick cb n p t s"
| "make_jade_call pick sha256 cb CallLogout s = jade_logout pick cb s"
| "make_jade_call pick sha256 cb (CallSignAttestation c) s = sign_attestation pick cb c s"
| "make_jade_call pick sha256 cb (CallOtaUpdate pr fw n h ps k) s = ota_update pick sha256 cb pr fw n h ps k s"
| "make_jade_call pick sha256 cb (CallGetReceiveAddress n a b p x c) s = get_receive_address pick cb n a b p x c s"
| "make_jade_call pick sha256 cb (CallGetReceiveAddressVariant n v p) s = get_receive_address_variant pick cb n v p s"
| "make_jade_call pick sha256 cb (CallGetXpub n p) s = get_xpub pick cb n p s"
| "make_jade_call pick sha256 cb (CallSignMessage p m c e) s = jade_sign_message pick cb p m c e s"
| "make_jade_call pick sha256 cb (CallSignTx n t is cs ch) s = sign_tx pick cb n t is cs ch s"
| "make_jade_call pick sha256 cb (CallGetBlindingKey sc) s = jade_get_blinding_key pick cb sc s"
| "make_jade_call pick sha256 cb (CallGetSharedNonce sc k) s = get_shared_nonce pick cb sc k s"
| "make_jade_call pick sha256 cb (CallGetBlindingFactor h i t) s = get_blinding_factor pick cb h i t s"
| "make_jade_call pick sha256 cb (CallGetCommitments a v h i f) s = get_commitments pick cb a v h i f s"
| "make_jade_call pick sha256 cb (CallGetMasterBlindingKey b) s = jade_get_master_blinding_key pick cb b s"

text \<open>
  What can happen: a call with its callback, a message, a timer, the answer of the web, the
  drain that was scheduled, a queued callback, and the lock that firmware updates set.
\<close>

datatype jade_event =
    JadeCall nat jade_call
  | JadeMessage cmap
  | JadeTimer int
  | HttpResponse int cmap cbor
  | Drain
  | SetLocked bool

fun jade_step :: "(nat \<Rightarrow> int) \<Rightarrow> (bytes \<Rightarrow> bytes) \<Rightarrow> jade \<Rightarrow> jade_event \<Rightarrow> jade \<times> jade_output list" where
  "jade_step pick sha256 s (JadeCall cb c) = make_jade_call pick sha256 cb c s"
| "jade_step pick sha256 s (JadeMessage msg) = process_response_message pick msg s"
| "jade_step pick sha256 s (JadeTimer i) = timer_fired pick i s"
| "jade_step pick sha256 s (HttpResponse i request response) = handle_http_response pick i request response s"
| "jade_step pick sha256 s Drain = jade_drain s"
| "jade_step pick sha256 s (SetLocked b) = (s\<lparr>j_locked := b\<rparr>, [])"

end
