(* ===== verification/Jade_Facts.thy ===== *)
theory Jade_Facts
  imports Jade_Api
begin

text \<open>
  What the properties of the Jade protocol rest on: numbers written and read back, who holds a
  caller's callback, and conversations of several requests, stated once as a locale.
\<close>

section \<open>Numbers\<close>

abbreviation digit :: "char \<Rightarrow> bool" where
  "digit c \<equiv> 48 \<le> (of_char c :: nat) \<and> (of_char c :: nat) \<le> 57"

abbreviation digits_value :: "int \<Rightarrow> string \<Rightarrow> int" where
  "digits_value v s \<equiv> foldl (\<lambda>v c. 10 * v + (of_char c - 48)) v s"

lemma digit_char_digit: "d < 10 \<Longrightarrow> digit (digit_char d) \<and> of_char (digit_char d) = (48 + int d)"
proof -
  assume d: "d < 10"
  then have "of_char (digit_char d) = 48 + d"
    by (simp add: digit_char_def of_char_of)
  moreover from this have "(of_char (digit_char d) :: int) = int (48 + d)"
    by (metis of_nat_of_char)
  ultimately show ?thesis
    using d by simp
qed

lemma string_of_nat_digits:
  "string_of_nat n \<noteq> [] \<and> list_all digit (string_of_nat n) \<and> digits_value 0 (string_of_nat n) = int n"
proof (induction n rule: string_of_nat.induct)
  case (1 n)
  show ?case
  proof (cases "n < 10")
    case True
    then show ?thesis
      using digit_char_digit [of n] by (simp add: string_of_nat.simps [of n])
  next
    case False
    then show ?thesis
      using 1 digit_char_digit [of "n mod 10"]
      by (simp add: string_of_nat.simps [of n] zdiv_int zmod_int)
  qed
qed

lemma digits_trimmed: "list_all digit s \<Longrightarrow> trimmed s = s"
proof -
  have "dropWhile is_space t = t" if "list_all digit t" for t
    using that by (cases t) (auto simp: is_space_def)
  then show "list_all digit s \<Longrightarrow> trimmed s = s"
    by (simp add: trimmed_def)
qed

lemma text_to_int_string: "0 \<le> i \<Longrightarrow> i < 2 ^ 31 \<Longrightarrow> text_to_int (string_of_int i) = i"
proof -
  assume i: "0 \<le> i" "i < 2 ^ 31"
  let ?s = "string_of_nat (nat i)"
  have s: "?s \<noteq> []" "list_all digit ?s" "digits_value 0 ?s = i"
    using string_of_nat_digits [of "nat i"] i by auto
  then have "hd ?s \<noteq> CHR ''-''" "hd ?s \<noteq> CHR ''+''"
    by (cases ?s; auto)+
  with s i show ?thesis
    by (cases ?s) (auto simp: text_to_int_def digits_trimmed string_of_int_def decimal_def)
qed

lemma message_id_request:
  "0 \<le> i \<Longrightarrow> i < 2 ^ 31 \<Longrightarrow> message_id (get_request_with i meth params) = i"
  "0 \<le> i \<Longrightarrow> i < 2 ^ 31 \<Longrightarrow> message_id (get_request i meth) = i"
  by (simp_all add: message_id_def get_request_with_def get_request_def cvalue_def text_to_int_string)

section \<open>Registering a handler\<close>

lemma redraw_spec:
  "redraw pick k i s = (i', s') \<Longrightarrow>
    (\<exists>d. s' = s\<lparr>j_draws := d\<rparr> \<and> j_draws s \<le> d \<and> (i' = i \<or> (\<exists>n<d. i' = pick n))) \<and>
    (map_of (j_response_handlers s) i = None \<longrightarrow> i' = i \<and> s' = s)"
proof (induction pick k i s rule: redraw.induct)
  case (1 pick i s)
  then show ?case by (auto intro!: exI [of _ "j_draws s"])
next
  case (2 pick k i s)
  show ?case
  proof (cases "map_of (j_response_handlers s) i")
    case None
    with 2 show ?thesis by (auto intro!: exI [of _ "j_draws s"])
  next
    case (Some h)
    with 2 obtain d where "s' = s\<lparr>j_draws := d\<rparr>" "j_draws s + 1 \<le> d"
      "i' = pick (j_draws s) \<or> (\<exists>n<d. i' = pick n)"
      by force
    moreover from this have "\<exists>n<d. i' = pick n"
      by (auto simp: Suc_le_eq)
    ultimately show ?thesis
      using Some by (intro conjI exI [of _ d]) auto
  qed
qed

text \<open>A number that is free is taken, and the handler goes under it.\<close>

lemma register_fresh:
  assumes "map_of (j_response_handlers s) (pick (j_draws s)) = None"
  shows "register_response_handler pick h timeout s = (pick (j_draws s),
    s\<lparr>j_draws := j_draws s + 1, j_response_handlers := qm_insert (pick (j_draws s)) h (j_response_handlers s),
      j_msg_timeout := (if timeout > 0 then qm_insert (pick (j_draws s)) timeout (j_msg_timeout s)
        else j_msg_timeout s)\<rparr>)"
proof (cases "redraw pick 5 (pick (j_draws s)) (s\<lparr>j_draws := j_draws s + 1\<rparr>)")
  case (Pair i' s')
  with redraw_spec [OF Pair] assms show ?thesis
    by (auto simp: register_response_handler_def)
qed

lemma register_spec:
  assumes "register_response_handler pick h timeout s = (i, s')"
  obtains d where "j_response_handlers s' = qm_insert i h (j_response_handlers s)"
    and "j_draws s' = d" and "j_draws s < d" and "\<exists>n<d. i = pick n"
proof (cases "redraw pick 5 (pick (j_draws s)) (s\<lparr>j_draws := j_draws s + 1\<rparr>)")
  case (Pair i' s1)
  from redraw_spec [OF Pair] obtain d where "s1 = s\<lparr>j_draws := d\<rparr>" "j_draws s + 1 \<le> d"
    "i' = pick (j_draws s) \<or> (\<exists>n<d. i' = pick n)"
    by auto
  with assms Pair show ?thesis
    by (intro that [of d]) (auto simp: register_response_handler_def Let_def Suc_le_eq split: if_splits)
qed

section \<open>Who holds a callback\<close>

text \<open>
  How often the callback \<open>cb\<close> will be called by a handler, by all that wait, and how often it has
  been called.
\<close>

fun owes :: "nat \<Rightarrow> handler \<Rightarrow> nat" where
  "owes cb (Client n) = (if n = cb then 1 else 0)"
| "owes cb (MessageCommitment e n) = (if n = cb then 1 else 0)"
| "owes cb (MessageSignature c n) = (if n = cb then 1 else 0)"
| "owes cb _ = 0"

definition held :: "nat \<Rightarrow> (int, handler) qmap \<Rightarrow> nat" where
  "held cb m = sum_list (map (\<lambda>p. owes cb (snd p)) m)"

abbreviation waiting :: "nat \<Rightarrow> jade \<Rightarrow> nat" where
  "waiting cb s \<equiv> held cb (j_response_handlers s)"

fun calls_back :: "nat \<Rightarrow> jade_output \<Rightarrow> bool" where
  "calls_back cb (CallClient n m) \<longleftrightarrow> n = cb"
| "calls_back cb (QueueCall n m) \<longleftrightarrow> n = cb"
| "calls_back cb _ \<longleftrightarrow> False"

definition calls_to :: "nat \<Rightarrow> jade_output list \<Rightarrow> nat" where
  "calls_to cb out = length (filter (calls_back cb) out)"

definition jade_ok :: "(nat \<Rightarrow> int) \<Rightarrow> jade \<Rightarrow> bool" where
  "jade_ok pick s \<longleftrightarrow> qm_ok (j_response_handlers s) \<and>
     (\<forall>i \<in> dom (map_of (j_response_handlers s)). \<exists>n<j_draws s. i = pick n)"

lemma calls_to_simps [simp]:
  "calls_to cb [] = 0"
  "calls_to cb (x # out) = (if calls_back cb x then 1 else 0) + calls_to cb out"
  "calls_to cb (out @ out') = calls_to cb out + calls_to cb out'"
  by (simp_all add: calls_to_def)

lemma held_insert_le: "held cb (qm_insert i h m) \<le> held cb m + owes cb h"
  by (induction i h m rule: qm_insert.induct) (auto simp: held_def)

lemma held_insert_fresh: "map_of m i = None \<Longrightarrow> held cb (qm_insert i h m) = held cb m + owes cb h"
  by (induction i h m rule: qm_insert.induct) (auto simp: held_def split: if_splits)

lemma held_remove_le: "map_of m i = Some h \<Longrightarrow> held cb (qm_remove i m) + owes cb h \<le> held cb m"
proof (induction m)
  case (Cons p m)
  have "held cb (qm_remove i m) \<le> held cb m"
    by (induction m) (auto simp: held_def qm_remove_def)
  with Cons show ?case
    by (cases p) (auto simp: held_def qm_remove_def split: if_splits)
qed simp

lemma held_remove:
  "qm_ok m \<Longrightarrow> map_of m i = Some h \<Longrightarrow> held cb (qm_remove i m) + owes cb h = held cb m"
proof (induction m)
  case (Cons p m)
  obtain k v where p: "p = (k, v)" by (cases p)
  have "i \<notin> set (map fst m) \<Longrightarrow> qm_remove i m = m"
    by (induction m) (auto simp: qm_remove_def)
  moreover from Cons.prems p have "k \<notin> set (map fst m)"
    by (auto simp: qm_ok_Cons)
  ultimately show ?case
    using Cons p by (auto simp: held_def qm_remove_def qm_ok_Cons split: if_splits)
qed simp

text \<open>
  A step that starts with \<open>w\<close> calls of \<open>cb\<close> in hand makes no more of them than were owed, and as
  many of them when the numbers drawn are all different.
\<close>

definition settles :: "(nat \<Rightarrow> int) \<Rightarrow> nat \<Rightarrow> nat \<Rightarrow> jade \<Rightarrow> jade \<times> jade_output list \<Rightarrow> bool" where
  "settles pick cb w s r \<longleftrightarrow> j_draws s \<le> j_draws (fst r) \<and> (jade_ok pick s \<longrightarrow> jade_ok pick (fst r)) \<and>
     calls_to cb (snd r) + waiting cb (fst r) \<le> waiting cb s + w \<and>
     (jade_ok pick s \<longrightarrow> inj_on pick {..<j_draws (fst r)} \<longrightarrow>
       calls_to cb (snd r) + waiting cb (fst r) = waiting cb s + w)"

named_theorems settling

lemma settles_same [settling]:
  "j_response_handlers s' = j_response_handlers s \<Longrightarrow> j_draws s' = j_draws s \<Longrightarrow> calls_to cb out = w \<Longrightarrow>
    settles pick cb w s (s', out)"
  by (simp add: settles_def jade_ok_def)

lemma settles_then:
  assumes "settles pick cb w s (s1, out1)" and "settles pick cb w' s1 (s2, out2)"
  shows "settles pick cb (w + w') s (s2, out1 @ out2)"
proof -
  have "inj_on pick {..<j_draws s2} \<Longrightarrow> inj_on pick {..<j_draws s1}"
    using assms by (auto simp: settles_def intro: inj_on_subset)
  with assms show ?thesis
    by (auto simp: settles_def)
qed

text \<open>Steps from or to a state that differs in other fields only.\<close>

lemma settles_from:
  "settles pick cb w s1 r \<Longrightarrow> j_response_handlers s1 = j_response_handlers s \<Longrightarrow> j_draws s1 = j_draws s \<Longrightarrow>
    settles pick cb w s r"
  by (simp add: settles_def jade_ok_def)

lemma settles_to:
  "settles pick cb w s (s1, out1) \<Longrightarrow> j_response_handlers s2 = j_response_handlers s1 \<Longrightarrow>
    j_draws s2 = j_draws s1 \<Longrightarrow> calls_to cb out2 = calls_to cb out1 \<Longrightarrow> settles pick cb w s (s2, out2)"
  by (simp add: settles_def jade_ok_def)

lemma settles_register:
  assumes "register_response_handler pick h timeout s = (i, s')"
  shows "settles pick cb (owes cb h) s (s', [])"
proof -
  obtain d where d: "j_response_handlers s' = qm_insert i h (j_response_handlers s)" "j_draws s' = d"
    "j_draws s < d" "\<exists>n<d. i = pick n"
    using register_spec [OF assms] by metis
  have "held cb (qm_insert i h (j_response_handlers s)) = waiting cb s + owes cb h"
    if ok: "jade_ok pick s" and inj: "inj_on pick {..<d}"
  proof -
    have "pick (j_draws s) \<noteq> pick n" if "n < j_draws s" for n
      using inj_onD [OF inj, of "j_draws s" n] that d(3) by auto
    with ok have new: "map_of (j_response_handlers s) (pick (j_draws s)) = None"
      unfolding jade_ok_def by (metis domIff)
    with assms register_fresh [of s pick h timeout] have "i = pick (j_draws s)"
      by simp
    with new show ?thesis
      by (simp add: held_insert_fresh)
  qed
  moreover have "jade_ok pick s'" if "jade_ok pick s"
    unfolding jade_ok_def d(1,2) qm.dom_insert
  proof (intro conjI ballI)
    show "qm_ok (qm_insert i h (j_response_handlers s))"
      using that by (simp add: jade_ok_def qm_ok_insert)
    show "\<exists>n<d. j = pick n" if j: "j \<in> insert i (dom (map_of (j_response_handlers s)))" for j
      using j d(3,4) \<open>jade_ok pick s\<close> unfolding jade_ok_def by (metis insertE order.strict_trans)
  qed
  ultimately show ?thesis
    using d held_insert_le [of cb i h "j_response_handlers s"] by (auto simp: settles_def)
qed

lemma settles_take:
  assumes "map_of (j_response_handlers s) i = Some h"
    and "settles pick cb (owes cb h) s1 r" and "j_draws s1 = j_draws s"
    and "j_response_handlers s1 = qm_remove i (j_response_handlers s)"
  shows "settles pick cb 0 s r"
proof -
  have "jade_ok pick s \<Longrightarrow> jade_ok pick s1"
    using assms by (auto simp: jade_ok_def qm_ok_remove qm.dom_remove)
  then show ?thesis
    using assms held_remove_le [OF assms(1), of cb] held_remove [OF _ assms(1), of cb]
    by (auto simp: settles_def jade_ok_def)
qed

lemma jade_send_settles [settling]: "settles pick cb 0 s (jade_send msg s)"
  by (auto simp: jade_send_def Let_def intro: settles_same)

lemma enqueue_settles [settling]: "settles pick cb 0 s (jade_enqueue msg s)"
  by (auto simp: jade_enqueue_def Let_def restart_idle_def intro: settles_from settles_same settling)

lemma drain_settles [settling]: "settles pick cb 0 s (jade_drain s)"
  by (auto simp: jade_drain_def intro: settles_from settles_same settling split: list.split)

text \<open>Registering a handler and doing something that settles what it owes.\<close>

lemma register_then:
  assumes "\<And>i s1. register_response_handler pick h timeout s = (i, s1) \<Longrightarrow> settles pick cb 0 s1 (f i s1)"
  shows "settles pick cb (owes cb h) s (case register_response_handler pick h timeout s of (i, s1) \<Rightarrow> f i s1)"
proof (cases "register_response_handler pick h timeout s")
  case (Pair i s1)
  have "settles pick cb (owes cb h + 0) s (fst (f i s1), [] @ snd (f i s1))"
    using settles_register [OF Pair] assms [OF Pair] by (intro settles_then [of _ _ _ _ s1]) auto
  with Pair show ?thesis by simp
qed

lemma register_other:
  assumes "owes cb h = 0"
    and "\<And>i s1. register_response_handler pick h timeout s = (i, s1) \<Longrightarrow> settles pick cb 0 s1 (f i s1)"
  shows "settles pick cb 0 s (case register_response_handler pick h timeout s of (i, s1) \<Rightarrow> f i s1)"
  using register_then [of pick h timeout s cb f] assms by simp

lemma ask_settles [settling]: "settles pick cb (owes cb h) s (ask_jade pick h meth params s)"
  unfolding ask_jade_def Let_def by (rule register_then) (rule settling)

lemma ask_other:
  "owes cb h = 0 \<Longrightarrow> settles pick cb 0 s (ask_jade pick h meth params s)"
  using ask_settles [of pick cb h s] by simp

lemma ota_next_settles [settling]: "settles pick cb 0 s (ota_next pick i fwcmp chunk_size pos progress s)"
  by (auto simp: ota_next_def Let_def intro: ask_other settling)

lemma progress_no_call [simp]: "calls_to cb (ota_progress i fwcmp pos progress) = 0"
  by (simp add: ota_progress_def split: option.split)

lemma input_settles [settling]: "settles pick cb 0 s (send_tx_input pick i n inputs cs s)"
  by (auto simp: send_tx_input_def intro: ask_other settles_same)

lemma signature_settles [settling]: "settles pick cb 0 s (send_tx_signature_request pick i n inputs cs ss s)"
  by (auto simp: send_tx_signature_request_def intro: ask_other settles_same)

lemma settles_after:
  "settles pick cb w s r \<Longrightarrow> calls_to cb out = 0 \<Longrightarrow> settles pick cb w s (fst r, out @ snd r)"
  by (simp add: settles_def)

lemma ota_chunk_settles:
  "handle_ota_chunk pick i fwcmp chunk_size pos progress msg s = (r, None) \<Longrightarrow> settles pick cb 0 s r"
  by (auto simp: handle_ota_chunk_def case_prod_beta Let_def split: if_splits
      intro: settles_same settles_after settling)

lemma sign_initial_settles: "handle_sign_initial pick i inputs msg s = (r, None) \<Longrightarrow> settles pick cb 0 s r"
  by (auto simp: handle_sign_initial_def split: if_splits intro: settles_same settling)

lemma commitment_settles: "handle_commitment pick i n inputs cs msg s = (r, None) \<Longrightarrow> settles pick cb 0 s r"
  by (auto simp: handle_commitment_def Let_def split: if_splits intro: settles_same settling)

lemma sig_settles: "handle_signature pick i n inputs cs ss msg s = (r, None) \<Longrightarrow> settles pick cb 0 s r"
  by (auto simp: handle_signature_def Let_def split: if_splits intro: settles_same settling)

lemma message_commitment_settles:
  "handle_message_commitment pick e n msg s = (r, None) \<Longrightarrow>
    settles pick cb (owes cb (MessageCommitment e n)) s r"
  using ask_settles [of pick cb "MessageSignature (variant_bytes (cvalue msg ''result'')) n" s "''get_signature''"]
  by (auto simp: handle_message_commitment_def split: if_splits intro: settles_same)

lemma message_signature_settles:
  "handle_message_signature c n msg s = (r, None) \<Longrightarrow> settles pick cb (owes cb (MessageSignature c n)) s r"
  by (auto simp: handle_message_signature_def split: if_splits intro: settles_same)

lemma handle_settles: "handle pick h msg s = (r, None) \<Longrightarrow> settles pick cb (owes cb h) s r"
proof (cases h)
  case (MessageCommitment e n)
  then show "handle pick h msg s = (r, None) \<Longrightarrow> ?thesis"
    using message_commitment_settles [of pick e n msg s r cb] by (simp only: handle.simps)
next
  case (MessageSignature c n)
  then show "handle pick h msg s = (r, None) \<Longrightarrow> ?thesis"
    using message_signature_settles [of c n msg s r pick cb] by (simp only: handle.simps)
qed (auto intro: settles_same ota_chunk_settles sign_initial_settles commitment_settles sig_settles)

lemma handle_forwards: "handle pick h msg s = ((s1, out), Some fwd) \<Longrightarrow> s1 = s \<and> out = [] \<and> owes cb h = 0"
  by (cases h)
    (auto simp: handle_ota_chunk_def handle_sign_initial_def handle_commitment_def handle_signature_def
      handle_message_commitment_def handle_message_signature_def Let_def case_prod_beta split: if_splits)

text \<open>How a handler is run, by what it does.\<close>

lemma run_handler_ends: "handle pick h msg s = (r, None) \<Longrightarrow> run_handler pick h msg s = r"
  by (cases r) (simp add: run_handler.simps [of pick h msg s])

lemma run_handler_lost:
  assumes "handle pick h msg s = (r, Some (t, m))" and "map_of (j_response_handlers s) t = None"
  shows "run_handler pick h msg s = (remove_proxy t (restart_idle s), [])"
  using assms handle_forwards [of pick h msg s "fst r" "snd r"]
  by (cases r) (simp add: run_handler.simps [of pick h msg s])

lemma run_handler_forwards:
  assumes "handle pick h msg s = (r, Some (t, m))" and "map_of (j_response_handlers s) t = Some h'"
  shows "run_handler pick h msg s =
    run_handler pick h' (set_id t m) (remove_proxy t (take_handler t (restart_idle s)))"
  using assms handle_forwards [of pick h msg s "fst r" "snd r"]
  by (cases r; cases "run_handler pick h' (set_id t m) (remove_proxy t (take_handler t (restart_idle s)))")
    (simp add: run_handler.simps [of pick h msg s])

lemma run_handler_settles [settling]: "settles pick cb (owes cb h) s (run_handler pick h msg s)"
proof (induction pick h msg s rule: run_handler.induct)
  case (1 pick h msg s)
  obtain r fwd where r: "handle pick h msg s = (r, fwd)" by fastforce
  show ?case
  proof (cases fwd)
    case None
    with r show ?thesis by (simp only: run_handler_ends handle_settles)
  next
    case (Some x)
    obtain t m where x: "x = (t, m)" by fastforce
    note fwd = r [unfolded Some x]
    have owes: "owes cb h = 0"
      using handle_forwards [of pick h msg s "fst r" "snd r" "(t, m)" cb] fwd by simp
    show ?thesis
    proof (cases "map_of (j_response_handlers s) t")
      case None
      with fwd owes show ?thesis
        by (simp add: run_handler_lost remove_proxy_def restart_idle_def settles_same)
    next
      case (Some h')
      let ?s = "remove_proxy t (take_handler t (restart_idle s))"
      have "settles pick cb (owes cb h') ?s (run_handler pick h' (set_id t m) ?s)"
        by (rule 1 [OF fwd [symmetric] prod.collapse refl refl Some])
      then have "settles pick cb 0 s (run_handler pick h' (set_id t m) ?s)"
        by (rule settles_take [OF Some]) (simp_all add: remove_proxy_def take_handler_def restart_idle_def)
      with owes run_handler_forwards [OF fwd Some] show ?thesis
        by simp
    qed
  qed
qed

lemma call_response_settles [settling]: "settles pick cb 0 s (call_response_handler pick msg s)"
proof (cases "message_id msg > 0")
  case True
  then show ?thesis
  proof (cases "map_of (j_response_handlers s) (message_id msg)")
    case None
    with True show ?thesis
      by (simp add: call_response_handler_def Let_def restart_idle_def remove_proxy_def settles_same)
  next
    case (Some h)
    then have "settles pick cb 0 s (run_handler pick h msg
        (remove_proxy (message_id msg) (take_handler (message_id msg) (restart_idle s))))"
      by (rule settles_take [OF _ run_handler_settles])
        (simp_all add: remove_proxy_def take_handler_def restart_idle_def)
    with True Some show ?thesis
      by (simp add: call_response_handler_def Let_def restart_idle_def)
  qed
qed (simp add: call_response_handler_def Let_def restart_idle_def settles_same)

lemma http_settles [settling]: "settles pick cb 0 s (handle_http_response pick i request response s)"
proof (cases "cvalue request ''on-reply''")
  case (CStr on_reply)
  show ?thesis
    unfolding handle_http_response_def Let_def CStr cbor.case
    by (rule settles_from [OF register_other [of cb "ForwardTo i"]])
      (auto simp: restart_idle_def intro: settles_from settling)
qed (simp_all add: handle_http_response_def restart_idle_def settles_same)

lemma process_settles [settling]: "settles pick cb 0 s (process_response_message pick msg s)"
proof -
  let ?s = "restart_idle s"
  have quiet: "settles pick cb 0 s (?s, out)" if "calls_to cb out = 0" for out
    using that by (simp add: restart_idle_def settles_same)
  have restarted: "settles pick cb 0 s r" if "settles pick cb 0 ?s r" for r
    using that by (rule settles_from) (simp_all add: restart_idle_def)
  have finish: "settles pick cb 0 s (case r of (s1, out) \<Rightarrow>
      if EmptyFunctionCalled \<in> set out \<or> JadeAssertion \<in> set out then (s1, out)
      else (s1\<lparr>j_msg_inflight := j_msg_inflight s1 - {i}\<rparr>, out @ [ScheduleDrain]))"
    if "settles pick cb 0 s r" for r i
    using that by (cases r) (auto intro: settles_to)
  show ?thesis
  proof (cases "cvalue msg ''id''")
    case (CStr x)
    have "settles pick cb 0 s (if message_id msg = 0 then (?s, []) else r)" if "settles pick cb 0 s r" for r
      using that quiet [of "[]"] by simp
    then show ?thesis
      unfolding process_response_message_def Let_def CStr cbor.case
      by this (rule finish, auto intro: quiet restarted settling split: option.split cbor.split)
  qed (simp_all add: process_response_message_def quiet)
qed

lemma timer_settles [settling]: "settles pick cb 0 s (timer_fired pick i s)"
proof (cases "map_of (j_response_handlers s) i")
  case (Some h)
  obtain s1 out where run: "run_handler pick h timeout_message (take_handler i s) = (s1, out)" by fastforce
  have "settles pick cb (owes cb h) (take_handler i s) (s1, out)"
    using run_handler_settles [of pick cb h "take_handler i s" timeout_message] run by simp
  then have "settles pick cb 0 s (s1, out)"
    by (rule settles_take [OF Some]) (simp_all add: take_handler_def)
  then have "settles pick cb 0 s (s1\<lparr>j_msg_inflight := j_msg_inflight s1 - {i}\<rparr>, out)"
    by (rule settles_to) simp_all
  from settles_then [OF this] drain_settles
  show ?thesis
    unfolding timer_fired_def by (simp add: Some run case_prod_beta)
qed (simp add: timer_fired_def settles_same)

lemma simple_call_settles [settling]: "settles pick cb (owes cb (Client n)) s (simple_call pick n meth params s)"
  unfolding simple_call_def Let_def by (rule register_then) (rule settling)

text \<open>What a call starts with: nobody owes its callback yet, it is in hand.\<close>

lemma make_call_settles [settling]: "settles pick cb (owes cb (Client n)) s (make_jade_call pick sha256 n c s)"
proof (cases c)
  case CallPing
  show ?thesis
    unfolding CallPing make_jade_call.simps ping_def Let_def
    by (auto intro: register_then settling settles_same simp del: owes.simps) (simp add: settles_same)
next
  case (CallGetVersionInfo b)
  show ?thesis
    unfolding CallGetVersionInfo make_jade_call.simps get_version_info_def Let_def
    by (auto intro: register_then settling settles_same simp del: owes.simps) (simp add: settles_same)
next
  case (CallAuthUser net proxy now)
  show ?thesis
    unfolding CallAuthUser make_jade_call.simps auth_user_def Let_def
    by (rule register_then) (auto intro: settles_from settling)
next
  case (CallOtaUpdate progress fwcmp fwlen fwhash patch_size chunk_size)
  show ?thesis
    unfolding CallOtaUpdate make_jade_call.simps ota_update_def Let_def
    by (rule register_then, rule register_other) (simp_all add: settling)
next
  case (CallSignMessage path message commitment entropy)
  show ?thesis
    unfolding CallSignMessage make_jade_call.simps jade_sign_message_def Let_def
    using register_then [of pick "MessageCommitment entropy n" 0 s cb] by (simp add: settling)
next
  case (CallSignTx net txn inputs commitments change)
  show ?thesis
    unfolding CallSignTx make_jade_call.simps sign_tx_def Let_def
    by (rule register_then, rule register_other) (simp_all add: settling)
qed (simp_all add: settling set_mnemonic_def add_entropy_def jade_logout_def sign_attestation_def
    get_receive_address_def get_receive_address_variant_def get_xpub_def jade_get_blinding_key_def
    get_shared_nonce_def get_blinding_factor_def get_commitments_def jade_get_master_blinding_key_def
    del: owes.simps)

text \<open>How often callbacks are handed over.\<close>

fun asked_for :: "nat \<Rightarrow> jade_event \<Rightarrow> nat" where
  "asked_for cb (JadeCall n c) = (if n = cb then 1 else 0)"
| "asked_for cb _ = 0"

lemma jade_step_settles: "settles pick cb (asked_for cb e) s (jade_step pick sha256 s e)"
proof (cases e)
  case (JadeCall n c)
  with make_call_settles [of pick cb n s sha256 c] show ?thesis by simp
qed (simp_all add: settling settles_same)

lemma jade_run_settles:
  "settles pick cb (sum_list (map (asked_for cb) es)) s (run (jade_step pick sha256) s es)"
proof (induction es arbitrary: s)
  case Nil
  then show ?case by (simp add: settles_same)
next
  case (Cons e es)
  obtain s1 out1 where now: "jade_step pick sha256 s e = (s1, out1)" by fastforce
  obtain s2 out2 where later: "run (jade_step pick sha256) s1 es = (s2, out2)" by fastforce
  from settles_then [of pick cb "asked_for cb e" s s1 out1] jade_step_settles [of pick cb e s sha256]
    Cons [of s1] now later
  show ?case by (simp add: run.simps)
qed

lemma jade_ok_new: "jade_ok pick new_jade"
  by (simp add: jade_ok_def new_jade_def qm_ok_empty)

end
