(* ===== verification/Jade_Talk.thy ===== *)
theory Jade_Talk
  imports Jade_Facts
begin

text \<open>
  Conversations with a Jade: a device that answers, and the locale of the conversations in which
  each good answer leads to the next request and a bad one ends it.  Signing and firmware updates
  are its interpretations.
\<close>

section \<open>A device that answers\<close>

text \<open>
  \<open>answers\<close> are the messages of the device but for their number, which is the one of the last
  request; a device that is asked nothing says nothing.
\<close>

definition answer_to :: "int \<Rightarrow> cmap \<Rightarrow> cmap" where
  "answer_to i a = (''id'', CStr (string_of_int i)) # a"

fun request_of :: "jade_output \<Rightarrow> (string \<times> cbor) list" where
  "request_of (SendMessage m) = [(variant_text (cvalue m ''method''), cvalue m ''params'')]"
| "request_of _ = []"

fun call_of :: "jade_output \<Rightarrow> (nat \<times> cmap) list" where
  "call_of (CallClient n m) = [(n, m)]"
| "call_of _ = []"

definition requests :: "jade_output list \<Rightarrow> (string \<times> cbor) list" where
  "requests out = concat (map request_of out)"

definition client_calls :: "jade_output list \<Rightarrow> (nat \<times> cmap) list" where
  "client_calls out = concat (map call_of out)"

fun awaiting :: "jade_output list \<Rightarrow> int option" where
  "awaiting [] = None"
| "awaiting (x # out) = (case awaiting out of
     Some i \<Rightarrow> Some i
   | None \<Rightarrow> (case x of SendMessage m \<Rightarrow> Some (message_id m) | _ \<Rightarrow> None))"

fun talk_with :: "(nat \<Rightarrow> int) \<Rightarrow> jade \<Rightarrow> int option \<Rightarrow> cmap list \<Rightarrow> jade \<times> jade_output list" where
  "talk_with pick s None answers = (s, [])"
| "talk_with pick s (Some i) [] = (s, [])"
| "talk_with pick s (Some i) (a # answers) =
     (let (s1, out1) = process_response_message pick (answer_to i a) s;
          (s2, out2) = talk_with pick s1 (awaiting out1) answers
      in (s2, out1 @ out2))"

lemma requests_simps [simp]:
  "requests [] = []" "requests (x # out) = request_of x @ requests out"
  "requests (out @ out') = requests out @ requests out'"
  by (simp_all add: requests_def)

lemma client_calls_simps [simp]:
  "client_calls [] = []" "client_calls (x # out) = call_of x @ client_calls out"
  "client_calls (out @ out') = client_calls out @ client_calls out'"
  by (simp_all add: client_calls_def)

lemma talk_with_None [simp]: "talk_with pick s None answers = (s, [])"
  by (cases answers) auto

abbreviation valid_id :: "int \<Rightarrow> bool" where
  "valid_id i \<equiv> 10000 \<le> i \<and> i < 100000"

lemma answer_to_simps [simp]:
  "k \<noteq> ''id'' \<Longrightarrow> cvalue (answer_to i a) k = cvalue a k"
  "cvalue (answer_to i a) ''id'' = CStr (string_of_int i)"
  "k \<noteq> ''id'' \<Longrightarrow> ccontains (answer_to i a) k = ccontains a k"
  "set_id j (answer_to i a) = set_id j a"
  by (simp_all add: answer_to_def cvalue_def ccontains_def set_id_def)

lemma answer_to_id [simp]: "valid_id i \<Longrightarrow> message_id (answer_to i a) = i"
  by (simp add: message_id_def text_to_int_string)

lemma answer_to_http [simp]: "http_request_of (answer_to i a) = http_request_of a"
  by (simp add: http_request_of_def)

lemma answer_to_results [simp]:
  "good_result (answer_to i a) = good_result a" "result_bytes (answer_to i a) = result_bytes a"
  by (simp_all add: good_result_def result_bytes_def)

lemma request_of_request [simp]:
  "params \<noteq> CNull \<Longrightarrow> request_of (SendMessage (get_request_with i meth params)) = [(meth, params)]"
  "request_of (SendMessage (get_request i meth)) = [(meth, CUndefined)]"
  by (simp_all add: get_request_with_def get_request_def cvalue_def)

section \<open>One answer\<close>

definition breaks :: "jade_output list \<Rightarrow> bool" where
  "breaks out \<longleftrightarrow> EmptyFunctionCalled \<in> set out \<or> JadeAssertion \<in> set out"

lemma process_reply:
  assumes "map_of (j_response_handlers s) j = Some h" and "valid_id j" and "http_request_of a = None"
    and "run_handler pick h (answer_to j a) (remove_proxy j (take_handler j (restart_idle s))) = (s1, out)"
    and "\<not> breaks out"
  shows "process_response_message pick (answer_to j a) s =
    (s1\<lparr>j_msg_inflight := j_msg_inflight s1 - {j}\<rparr>, out @ [ScheduleDrain])"
  using assms
  by (simp add: process_response_message_def call_response_handler_def restart_idle_def breaks_def)

text \<open>Sending, when the random number is free; timers do not matter to a conversation.\<close>

definition chatter :: "jade_output list \<Rightarrow> bool" where
  "chatter out \<longleftrightarrow> requests out = [] \<and> client_calls out = [] \<and> awaiting out = None \<and> \<not> breaks out"

lemma awaiting_append: "awaiting (out @ out') = (case awaiting out' of None \<Rightarrow> awaiting out | Some i \<Rightarrow> Some i)"
  by (induction out) (auto split: option.split)

lemma chatter_simps:
  "chatter []" "chatter [StartTimer i t]" "chatter [ScheduleDrain]" "chatter [CallProgress p m]"
  "chatter out \<Longrightarrow> chatter out' \<Longrightarrow> chatter (out @ out')"
  by (auto simp: chatter_def breaks_def awaiting_append)

lemma jade_send_spec:
  obtains rest where "jade_send msg s = (s\<lparr>j_msg_inflight := insert (message_id msg) (j_msg_inflight s)\<rparr>,
    SendMessage msg # rest)" and "chatter rest"
  by (rule that [of "if 0 < qm_value (j_msg_timeout s) (message_id msg) 0
        then [StartTimer (message_id msg) (qm_value (j_msg_timeout s) (message_id msg) 0)] else []"])
    (auto simp: jade_send_def Let_def chatter_simps)

lemma ask_spec:
  assumes "map_of (j_response_handlers s) (pick (j_draws s)) = None"
  obtains s' rest where "ask_jade pick h meth params s =
      (s', SendMessage (get_request_with (pick (j_draws s)) meth params) # rest)"
    and "chatter rest" and "j_draws s' = j_draws s + 1"
    and "map_of (j_response_handlers s') = (map_of (j_response_handlers s))(pick (j_draws s) \<mapsto> h)"
proof -
  let ?m = "get_request_with (pick (j_draws s)) meth params"
  let ?s = "s\<lparr>j_draws := j_draws s + 1, j_response_handlers := qm_insert (pick (j_draws s)) h (j_response_handlers s)\<rparr>"
  obtain rest where "jade_send ?m ?s =
      (?s\<lparr>j_msg_inflight := insert (message_id ?m) (j_msg_inflight ?s)\<rparr>, SendMessage ?m # rest)" "chatter rest"
    by (rule jade_send_spec)
  with register_fresh [where pick = pick and h = h and timeout = 0, OF assms] show ?thesis
    by (intro that) (auto simp: ask_jade_def fun_eq_iff qm_find_insert)
qed

section \<open>Conversations\<close>

text \<open>
  Where a conversation stands: besides the handlers \<open>H0\<close> of others, the one of the last request.
\<close>

definition stands :: "(int \<Rightarrow> handler option) \<Rightarrow> int \<Rightarrow> handler \<Rightarrow> nat \<Rightarrow> jade \<Rightarrow> bool" where
  "stands H0 j h d s \<longleftrightarrow> map_of (j_response_handlers s) = H0(j \<mapsto> h) \<and> j_draws s = d \<and> H0 j = None \<and> valid_id j"

lemma stands_handler: "stands H0 j h d s \<Longrightarrow> map_of (j_response_handlers s) j = Some h"
  by (simp add: stands_def)

lemma stands_taken:
  assumes "stands H0 j h d s"
  shows "map_of (j_response_handlers (remove_proxy j (take_handler j (restart_idle s)))) = H0"
    and "j_draws (remove_proxy j (take_handler j (restart_idle s))) = d"
  using assms by (auto simp: stands_def remove_proxy_def take_handler_def restart_idle_def qm_find_remove fun_eq_iff)

text \<open>An answer that is passed on to the caller ends a conversation.\<close>

lemma forwarded_answer:
  assumes s: "stands H0 j h d s" and http: "http_request_of a = None" and caller: "H0 i = Some (Client cb)"
    and passed: "\<And>s. handle pick h (answer_to j a) s = ((s, []), Some (i, m))"
  shows "\<exists>s'. talk_with pick s (Some j) (a # answers) = (s', [CallClient cb (set_id i m), ScheduleDrain])"
proof -
  let ?s = "remove_proxy j (take_handler j (restart_idle s))"
  have "map_of (j_response_handlers ?s) i = Some (Client cb)"
    using stands_taken [OF s] caller by simp
  with run_handler_forwards [OF passed]
  have "\<exists>s1. run_handler pick h (answer_to j a) ?s = (s1, [CallClient cb (set_id i m)])"
    by (simp add: run_handler_ends)
  then obtain s1 where "run_handler pick h (answer_to j a) ?s = (s1, [CallClient cb (set_id i m)])" ..
  with process_reply [OF stands_handler [OF s] _ http this] s show ?thesis
    by (simp add: stands_def breaks_def)
qed

text \<open>The answers up to the first that is not good.\<close>

fun accepted :: "(nat \<Rightarrow> cmap \<Rightarrow> bool) \<Rightarrow> nat \<Rightarrow> cmap list \<Rightarrow> nat" where
  "accepted good k [] = 0"
| "accepted good k (a # as) = (if good k a then Suc (accepted good (Suc k) as) else 0)"

lemma accepted_le: "accepted good k as \<le> length as"
  by (induction as arbitrary: k) auto

lemma accepted_take: "n \<le> accepted good k as \<Longrightarrow> accepted good k (take n as) = n"
  by (induction as arbitrary: k n) (auto simp: take_Cons split: nat.split if_splits)

lemma accepted_good: "n < accepted good k as \<Longrightarrow> good (k + n) (as ! n)"
proof (induction as arbitrary: k n)
  case (Cons a as)
  then show ?case
    by (cases n) (force split: if_splits)+
qed simp

lemma accepted_stop: "accepted good k as < length as \<Longrightarrow> \<not> good (k + accepted good k as) (as ! accepted good k as)"
proof (induction as arbitrary: k)
  case (Cons a as)
  then show ?case
    using Cons.IH [of "Suc k"] by (auto split: if_splits)
qed simp

text \<open>
  \<open>H as\<close> is the handler that waits after the good answers \<open>as\<close>, \<open>request k\<close> the request that
  follows the good answer of number \<open>k\<close>, and \<open>extra\<close> what else is reported with it.  A bad answer
  goes to the handler \<open>i\<close>.
\<close>

locale conversation =
  fixes pick :: "nat \<Rightarrow> int" and i :: int and stages :: nat and H :: "cmap list \<Rightarrow> handler"
    and request :: "nat \<Rightarrow> string \<times> cbor" and good :: "nat \<Rightarrow> cmap \<Rightarrow> bool" and extra :: "nat \<Rightarrow> jade_output list"
  assumes extra_chatter: "chatter (extra k)"
    and params: "snd (request k) \<noteq> CNull"
    and more: "length as < stages \<Longrightarrow> good (length as) a \<Longrightarrow>
      ask_jade pick (H (as @ [a])) (fst (request (length as))) (snd (request (length as))) s = (s1, out) \<Longrightarrow>
      handle pick (H as) (answer_to j a) s = ((s1, extra (length as) @ out), None)"
    and bad: "length as \<le> stages \<Longrightarrow> \<not> good (length as) a \<Longrightarrow>
      handle pick (H as) (answer_to j a) s = ((s, []), Some (i, answer_to j a))"
begin

lemma good_answer:
  assumes s: "stands H0 j (H as) d s" and len: "length as < stages" and a: "good (length as) a"
    and http: "http_request_of a = None" and free: "H0 (pick d) = None" and valid: "valid_id (pick d)"
  obtains s' out where "stands H0 (pick d) (H (as @ [a])) (d + 1) s'"
    and "process_response_message pick (answer_to j a) s = (s', out)" and "awaiting out = Some (pick d)"
    and "requests out = [request (length as)]" and "client_calls out = []"
proof -
  let ?s = "remove_proxy j (take_handler j (restart_idle s))"
  let ?r = "request (length as)"
  note taken = stands_taken [OF s]
  from taken free have "map_of (j_response_handlers ?s) (pick (j_draws ?s)) = None"
    by simp
  then obtain s1 rest where ask: "ask_jade pick (H (as @ [a])) (fst ?r) (snd ?r) ?s =
      (s1, SendMessage (get_request_with (pick d) (fst ?r) (snd ?r)) # rest)"
    and rest: "chatter rest" and draws: "j_draws s1 = d + 1"
    and handlers: "map_of (j_response_handlers s1) = H0(pick d \<mapsto> H (as @ [a]))"
    by (rule ask_spec [where h = "H (as @ [a])" and meth = "fst ?r" and params = "snd ?r"]) (simp add: taken)
  note run = run_handler_ends [OF more [OF len a ask]]
  let ?out = "extra (length as) @ SendMessage (get_request_with (pick d) (fst ?r) (snd ?r)) # rest"
  have "\<not> breaks ?out"
    using rest extra_chatter [of "length as"] by (auto simp: chatter_def breaks_def)
  note step = process_reply [OF stands_handler [OF s] _ http run this]
  show ?thesis
  proof (rule that)
    show "process_response_message pick (answer_to j a) s =
        (s1\<lparr>j_msg_inflight := j_msg_inflight s1 - {j}\<rparr>, ?out @ [ScheduleDrain])"
      using step s by (simp add: stands_def)
    show "stands H0 (pick d) (H (as @ [a])) (d + 1) (s1\<lparr>j_msg_inflight := j_msg_inflight s1 - {j}\<rparr>)"
      using handlers draws free valid by (simp add: stands_def)
  qed (use rest extra_chatter [of "length as"] params [of "length as"] valid in
      \<open>auto simp: chatter_def awaiting_append message_id_request simp del: request_of.simps(1)\<close>)
qed

lemma bad_answer:
  assumes s: "stands H0 j (H as) d s" and len: "length as \<le> stages" and a: "\<not> good (length as) a"
    and http: "http_request_of a = None" and caller: "H0 i = Some (Client cb)"
  shows "\<exists>s'. talk_with pick s (Some j) (a # answers) = (s', [CallClient cb (set_id i a), ScheduleDrain])"
  using forwarded_answer [OF s http caller bad [OF len a]] by simp

text \<open>As long as the answers are good, each leads to the next request.\<close>

lemma good_answers:
  assumes "stands H0 j (H as) d s" and "length as + length bs \<le> stages"
    and "accepted good (length as) bs = length bs" and "\<forall>b \<in> set bs. http_request_of b = None"
    and "\<forall>k. d \<le> k \<and> k < d + length bs \<longrightarrow> H0 (pick k) = None \<and> valid_id (pick k)"
  obtains s' j' out where "stands H0 j' (H (as @ bs)) (d + length bs) s'"
    and "requests out = map request [length as..<length as + length bs]" and "client_calls out = []"
    and "\<And>cs. talk_with pick s (Some j) (bs @ cs) =
      (fst (talk_with pick s' (Some j') cs), out @ snd (talk_with pick s' (Some j') cs))"
  using assms
proof (induction bs arbitrary: as d s j thesis)
  case Nil
  from Nil.prems(2) show ?case
    by (intro Nil.prems(1) [of j s "[]"]) auto
next
  case (Cons b bs)
  from Cons.prems have b: "length as < stages" "good (length as) b" "http_request_of b = None"
    "H0 (pick d) = None" "valid_id (pick d)"
    by (auto split: if_splits)
  obtain s1 out1 where s1: "stands H0 (pick d) (H (as @ [b])) (d + 1) s1"
    and step: "process_response_message pick (answer_to j b) s = (s1, out1)" "awaiting out1 = Some (pick d)"
    and out1: "requests out1 = [request (length as)]" "client_calls out1 = []"
    using good_answer [OF Cons.prems(2) b] by metis
  obtain s' j' out where s': "stands H0 j' (H ((as @ [b]) @ bs)) (d + 1 + length bs) s'"
    and out: "requests out = map request [length (as @ [b])..<length (as @ [b]) + length bs]" "client_calls out = []"
    and rest: "\<And>cs. talk_with pick s1 (Some (pick d)) (bs @ cs) =
      (fst (talk_with pick s' (Some j') cs), out @ snd (talk_with pick s' (Some j') cs))"
    by (rule Cons.IH [OF _ s1]) (use Cons.prems b in auto)
  show ?case
  proof (rule Cons.prems(1))
    show "stands H0 j' (H (as @ b # bs)) (d + length (b # bs)) s'"
      using s' by simp
    show "requests (out1 @ out) = map request [length as..<length as + length (b # bs)]"
      using out1 out by (simp add: upt_conv_Cons [of "length as"] del: upt_Suc)
    show "client_calls (out1 @ out) = []"
      using out1 out by simp
    show "talk_with pick s (Some j) ((b # bs) @ cs) =
        (fst (talk_with pick s' (Some j') cs), (out1 @ out) @ snd (talk_with pick s' (Some j') cs))" for cs
      using step rest [of cs] by simp
  qed
qed

text \<open>The first answers of a list of answers that starts the conversation.\<close>

lemma first_answers:
  assumes "stands H0 j (H []) d s" and "n \<le> stages" and "n \<le> accepted good 0 answers"
    and "\<forall>a \<in> set answers. http_request_of a = None"
    and "\<forall>k. d \<le> k \<and> k < d + stages \<longrightarrow> H0 (pick k) = None \<and> valid_id (pick k)"
  obtains s' j' out where "stands H0 j' (H (take n answers)) (d + n) s'"
    and "requests out = map request [0..<n]" and "client_calls out = []"
    and "snd (talk_with pick s (Some j) answers) = out @ snd (talk_with pick s' (Some j') (drop n answers))"
proof -
  have n: "length (take n answers) = n" and m: "min (length answers) n = n"
    using assms(3) accepted_le [of good 0 answers] by simp_all
  obtain s' j' out where "stands H0 j' (H ([] @ take n answers)) (d + length (take n answers)) s'"
    and "requests out = map request [length []..<length [] + length (take n answers)]" and "client_calls out = []"
    and "\<And>cs. talk_with pick s (Some j) (take n answers @ cs) =
      (fst (talk_with pick s' (Some j') cs), out @ snd (talk_with pick s' (Some j') cs))"
    by (rule good_answers [OF assms(1), of "take n answers"])
      (use assms n in \<open>auto simp: accepted_take dest: in_set_takeD\<close>)
  from this(1,2,3) this(4) [of "drop n answers"] show ?thesis
    by (intro that [of j' s' out]) (auto simp: n m)
qed

text \<open>A conversation that does not get past its last stage: it waits, or the caller hears of the bad answer.\<close>

lemma unfinished:
  assumes "stands H0 j (H []) d s" and "accepted good 0 answers \<le> stages"
    and "\<forall>a \<in> set answers. http_request_of a = None"
    and "\<forall>k. d \<le> k \<and> k < d + stages \<longrightarrow> H0 (pick k) = None \<and> valid_id (pick k)"
    and "H0 i = Some (Client cb)"
  shows "requests (snd (talk_with pick s (Some j) answers)) = map request [0..<accepted good 0 answers] \<and>
    client_calls (snd (talk_with pick s (Some j) answers)) =
      (if accepted good 0 answers < length answers
       then [(cb, set_id i (answers ! accepted good 0 answers))] else [])"
proof -
  let ?n = "accepted good 0 answers"
  obtain s' j' out where s': "stands H0 j' (H (take ?n answers)) (d + ?n) s'"
    and out: "requests out = map request [0..<?n]" "client_calls out = []"
    and step: "snd (talk_with pick s (Some j) answers) = out @ snd (talk_with pick s' (Some j') (drop ?n answers))"
    using first_answers [OF assms(1,2) order_refl assms(3,4)] by metis
  show ?thesis
  proof (cases "?n < length answers")
    case True
    then have rest: "drop ?n answers = answers ! ?n # drop (Suc ?n) answers"
      by (simp add: Cons_nth_drop_Suc)
    have "\<exists>s1. talk_with pick s' (Some j') (answers ! ?n # drop (Suc ?n) answers)
        = (s1, [CallClient cb (set_id i (answers ! ?n)), ScheduleDrain])"
      using True assms(2,3) accepted_stop [of good 0 answers]
      by (intro bad_answer [OF s' _ _ _ assms(5)]) auto
    then show ?thesis
      using True out step rest by auto
  qed (use out step accepted_le [of good 0 answers] in simp)
qed

end

end
