(* ===== verification/Jade_Props.thy ===== *)
theory Jade_Props
  imports Jade_Talk
begin

text \<open>
  The properties of the Jade protocol: callbacks are called once, and signing and firmware updates
  are the conversations they are meant to be.
\<close>

section \<open>Starting a conversation\<close>

text \<open>The numbers that the next draws give: valid, free, and not the first again.\<close>

definition free_ids :: "(nat \<Rightarrow> int) \<Rightarrow> jade \<Rightarrow> nat \<Rightarrow> bool" where
  "free_ids pick s n \<longleftrightarrow> (\<forall>k. j_draws s \<le> k \<and> k < j_draws s + n \<longrightarrow> valid_id (pick k) \<and>
     map_of (j_response_handlers s) (pick k) = None \<and> (k \<noteq> j_draws s \<longrightarrow> pick k \<noteq> pick (j_draws s)))"

definition device_idle :: "jade \<Rightarrow> bool" where
  "device_idle s \<longleftrightarrow> j_msg_inflight s = {} \<and> j_msg_queue s = []"

abbreviation with_caller :: "(nat \<Rightarrow> int) \<Rightarrow> nat \<Rightarrow> jade \<Rightarrow> int \<Rightarrow> handler option" where
  "with_caller pick cb s \<equiv> (map_of (j_response_handlers s))(pick (j_draws s) \<mapsto> Client cb)"

lemma start_conversation:
  assumes free: "free_ids pick s n" and n: "2 \<le> n" and idle: "device_idle s" and params: "params \<noteq> CNull"
    and start: "(case register_response_handler pick (Client cb) 0 s of (i, s1) \<Rightarrow>
      case register_response_handler pick (h i) 0 s1 of (tmp, s2) \<Rightarrow>
      jade_enqueue (get_request_with tmp meth params) s2) = (s', out)"
  shows "stands (with_caller pick cb s) (pick (j_draws s + 1)) (h (pick (j_draws s))) (j_draws s + 2) s' \<and>
    requests out = [(meth, params)] \<and> client_calls out = [] \<and> awaiting out = Some (pick (j_draws s + 1)) \<and>
    (\<forall>k. j_draws s + 2 \<le> k \<and> k < j_draws s + n \<longrightarrow> with_caller pick cb s (pick k) = None \<and> valid_id (pick k))"
proof -
  let ?i = "pick (j_draws s)" and ?t = "pick (j_draws s + 1)"
  from free n have i: "map_of (j_response_handlers s) ?i = None"
    and t: "map_of (j_response_handlers s) ?t = None" "?t \<noteq> ?i" "valid_id ?t"
    by (auto simp: free_ids_def)
  obtain s1 where s1: "register_response_handler pick (Client cb) 0 s = (?i, s1)"
    and s1': "j_draws s1 = j_draws s + 1" "map_of (j_response_handlers s1) = with_caller pick cb s"
      "device_idle s1"
    using register_fresh [where pick = pick and h = "Client cb" and timeout = 0, OF i] idle
    by (simp add: fun_eq_iff qm_find_insert device_idle_def)
  from t s1' have "map_of (j_response_handlers s1) (pick (j_draws s1)) = None"
    by simp
  then obtain s2 where s2: "register_response_handler pick (h ?i) 0 s1 = (?t, s2)"
    and s2': "j_draws s2 = j_draws s + 2" "device_idle s2"
      "map_of (j_response_handlers s2) = (with_caller pick cb s)(?t \<mapsto> h ?i)"
    using register_fresh [where pick = pick and h = "h ?i" and timeout = 0 and s = s1] s1'
    by (simp add: fun_eq_iff qm_find_insert device_idle_def)
  let ?m = "get_request_with ?t meth params"
  obtain rest where "jade_send ?m (restart_idle s2) = ((restart_idle s2)\<lparr>j_msg_inflight :=
      insert (message_id ?m) (j_msg_inflight (restart_idle s2))\<rparr>, SendMessage ?m # rest)" "chatter rest"
    by (rule jade_send_spec)
  with start s1 s2 s2' have s': "s' = (restart_idle s2)\<lparr>j_msg_inflight :=
      insert (message_id ?m) (j_msg_inflight (restart_idle s2))\<rparr>" and out: "out = SendMessage ?m # rest"
    and rest: "chatter rest"
    by (auto simp: jade_enqueue_def device_idle_def restart_idle_def)
  have "stands (with_caller pick cb s) ?t (h ?i) (j_draws s + 2) s'"
    using s' s2' t by (simp add: stands_def restart_idle_def)
  moreover have "awaiting out = Some ?t"
    using rest t out by (simp add: chatter_def message_id_request)
  ultimately show ?thesis
    using out rest params free by (auto simp: chatter_def free_ids_def simp del: request_of.simps(1))
qed

section \<open>Signing\<close>

definition without_entropy :: "cmap \<Rightarrow> cbor" where
  "without_entropy inp = CMap (filter (\<lambda>p. fst p \<noteq> ''ae_host_entropy'') inp)"

definition entropy_of :: "cmap \<Rightarrow> cbor" where
  "entropy_of inp = CMap [(''ae_host_entropy'', CBytes (variant_bytes (cvalue inp ''ae_host_entropy'')))]"

text \<open>The handler after some good answers, the request that follows one, and when one is good.\<close>

definition sign_handler :: "int \<Rightarrow> cmap list \<Rightarrow> cmap list \<Rightarrow> handler" where
  "sign_handler i inputs as =
     (let n = length inputs; k = length as
      in if k = 0 then SignInitial i inputs
         else if k \<le> n then ReceiveCommitment i (k - 1) inputs (map result_bytes (tl as))
         else ReceiveSignature i (k - n - 1) inputs (map result_bytes (take n (tl as))) (map result_bytes (drop n (tl as))))"

definition sign_request :: "cmap list \<Rightarrow> nat \<Rightarrow> string \<times> cbor" where
  "sign_request inputs k =
     (if k < length inputs then (''tx_input'', without_entropy (inputs ! k))
      else (''get_signature'', entropy_of (inputs ! (k - length inputs))))"

definition sign_good :: "nat \<Rightarrow> cmap \<Rightarrow> bool" where
  "sign_good k a \<longleftrightarrow> (if k = 0 then good_result a else ccontains a ''result'')"

lemma tl_append_one: "as \<noteq> [] \<Longrightarrow> tl (as @ [a]) = tl as @ [a]"
  by (cases as) auto

lemma sign_more:
  assumes k: "length as < 2 * length inputs" and a: "sign_good (length as) a"
    and ask: "ask_jade pick (sign_handler i inputs (as @ [a])) (fst (sign_request inputs (length as)))
      (snd (sign_request inputs (length as))) s = (s1, out)"
  shows "handle pick (sign_handler i inputs as) (answer_to j a) s = ((s1, out), None)"
proof -
  consider "as = []" | "as \<noteq> []" "length as < length inputs" | "as \<noteq> []" "length as = length inputs"
    | "as \<noteq> []" "length inputs < length as"
    by fastforce
  then show ?thesis
  proof cases
    case 1
    with k a ask show ?thesis
      by (auto simp: sign_handler_def sign_request_def sign_good_def handle_sign_initial_def send_tx_input_def
          without_entropy_def Let_def Suc_le_eq)
  next
    case 2
    with k a ask show ?thesis
      by (auto simp: sign_handler_def sign_request_def sign_good_def handle_commitment_def send_tx_input_def
          without_entropy_def Let_def tl_append_one Suc_le_eq)
  next
    case 3
    then have "length inputs - (length inputs - Suc 0) = Suc 0"
      by (cases inputs) auto
    with 3 k a ask show ?thesis
      by (auto simp: sign_handler_def sign_request_def sign_good_def handle_commitment_def
          send_tx_signature_request_def entropy_of_def Let_def tl_append_one)
  next
    case 4
    then have "length inputs \<le> length (tl as)" "Suc (length as - length inputs - 1) = length as - length inputs"
      by simp_all
    with 4 k a ask show ?thesis
      by (auto simp: sign_handler_def sign_request_def sign_good_def handle_signature_def
          send_tx_signature_request_def entropy_of_def Let_def tl_append_one)
  qed
qed

lemma sign_bad:
  assumes "length as \<le> 2 * length inputs" and "\<not> sign_good (length as) a"
  shows "handle pick (sign_handler i inputs as) (answer_to j a) s = ((s, []), Some (i, answer_to j a))"
proof (cases "as = []")
  case True
  with assms show ?thesis
    by (simp add: sign_handler_def sign_good_def handle_sign_initial_def)
next
  case False
  with assms show ?thesis
    by (auto simp: sign_handler_def sign_good_def handle_commitment_def handle_signature_def Let_def)
qed

interpretation signing: conversation pick i "2 * length inputs" "sign_handler i inputs" "sign_request inputs"
    sign_good "\<lambda>_. []" for pick i inputs
proof unfold_locales
  fix k as a s s1 out j
  show "chatter []" by (rule chatter_simps)
  show "snd (sign_request inputs k) \<noteq> CNull"
    by (simp add: sign_request_def without_entropy_def entropy_of_def)
qed (simp_all add: sign_more sign_bad)

text \<open>The last signature: everything is collected and given to the caller.\<close>

lemma sign_last:
  assumes k: "length as = 2 * length inputs" and n: "inputs \<noteq> []" and a: "sign_good (length as) a"
  shows "handle pick (sign_handler i inputs as) (answer_to j a) s = ((s, []), Some (i,
    signing_result i (map result_bytes (take (length inputs) (drop (Suc (length inputs)) (as @ [a]))))
      (map result_bytes (take (length inputs) (drop 1 (as @ [a]))))))"
proof -
  have "length as > length inputs" "as \<noteq> []" using k n by auto
  with k n a show ?thesis
    by (cases as) (auto simp: sign_handler_def sign_good_def handle_signature_def Let_def)
qed

text \<open>All requests of a signing, in order.\<close>

definition signing_requests :: "cmap list \<Rightarrow> (string \<times> cbor) list" where
  "signing_requests inputs = map (\<lambda>inp. (''tx_input'', without_entropy inp)) inputs
     @ map (\<lambda>inp. (''get_signature'', entropy_of inp)) inputs"

lemma signing_requests_eq: "n \<le> 2 * length inputs \<Longrightarrow> map (sign_request inputs) [0..<n] = take n (signing_requests inputs)"
  by (rule nth_equalityI) (auto simp: signing_requests_def sign_request_def nth_append)

lemma stands_caller:
  "stands H0 j (Client cb) d s \<Longrightarrow> http_request_of a = None \<Longrightarrow>
    client_calls (snd (talk_with pick s (Some j) (a # answers))) = [(cb, answer_to j a)] \<and>
    requests (snd (talk_with pick s (Some j) (a # answers))) = []"
  using process_reply [of s j "Client cb" a pick] stands_handler [of H0 j "Client cb" d s]
  by (simp add: run_handler_ends stands_def breaks_def)

text \<open>The conversation after the first request.\<close>

lemma sign_talk:
  assumes start: "stands H0 j (sign_handler i inputs []) d s" and inputs: "inputs \<noteq> []"
    and free: "\<forall>k. d \<le> k \<and> k < d + 2 * length inputs \<longrightarrow> H0 (pick k) = None \<and> valid_id (pick k)"
    and caller: "H0 i = Some (Client cb)" and http: "\<forall>a \<in> set answers. http_request_of a = None"
    and n: "n = accepted sign_good 0 answers"
  shows "requests (snd (talk_with pick s (Some j) answers)) = take n (signing_requests inputs) \<and>
    client_calls (snd (talk_with pick s (Some j) answers)) =
      (if n > 2 * length inputs
       then [(cb, signing_result i
         (map result_bytes (take (length inputs) (drop (Suc (length inputs)) answers)))
         (map result_bytes (take (length inputs) (drop 1 answers))))]
       else if n < length answers then [(cb, set_id i (answers ! n))] else [])"
proof (cases "n \<le> 2 * length inputs")
  case True
  with signing.unfinished [OF start _ http free caller] n
  show ?thesis by (simp add: signing_requests_eq)
next
  case False
  let ?N = "2 * length inputs"
  have acc: "?N \<le> accepted sign_good 0 answers" "?N < length answers"
    using accepted_le [of sign_good 0 answers] False n by simp_all
  obtain s' j' out where s': "stands H0 j' (sign_handler i inputs (take ?N answers)) (d + ?N) s'"
    and out: "requests out = map (sign_request inputs) [0..<?N]" "client_calls out = []"
    and step: "snd (talk_with pick s (Some j) answers) = out @ snd (talk_with pick s' (Some j') (drop ?N answers))"
    by (rule signing.first_answers [OF start order_refl acc(1) http free])
  have a: "drop ?N answers = answers ! ?N # drop (Suc ?N) answers" "http_request_of (answers ! ?N) = None"
    "sign_good ?N (answers ! ?N)"
    using acc(2) http accepted_good [of ?N sign_good 0 answers] False n
    by (simp_all add: Cons_nth_drop_Suc)
  have len: "length (take ?N answers) = ?N" "take ?N answers @ [answers ! ?N] = take (Suc ?N) answers"
    using acc(2) by (simp_all add: take_Suc_conv_app_nth)
  from forwarded_answer [where pick = pick and answers = "drop (Suc ?N) answers",
      OF s' a(2) caller sign_last [OF len(1) inputs]]
    a(1,3) len False step out
  show ?thesis
    by (auto simp: signing_requests_eq signing_result_def set_id_def drop_take signing_requests_def)
qed

text \<open>
  C36.  Signing a transaction is the conversation it is documented to be, on a device that answers
  one request after the other and is not otherwise busy: \<open>sign_tx\<close> (\<open>sign_liquid_tx\<close> on Liquid), then
  one \<open>tx_input\<close> for each input, without its host entropy, then one \<open>get_signature\<close> for each
  input with it, each request sent when the one before has had a good answer.  So no entropy is
  sent before all the signer's commitments have arrived.  The first answer that is not good goes to
  the caller, under the caller's number, and nothing more is sent; after the last signature the
  caller gets all signatures and commitments, each in the order of the inputs.  The caller is
  called once, or not at all while the device has not answered.
\<close>

theorem signing_conversation:
  assumes "inputs \<noteq> []" and "device_idle s" and "free_ids pick s (2 * length inputs + 2)"
    and "\<forall>a \<in> set answers. http_request_of a = None"
    and "sign_tx pick cb net txn inputs cs change s = (s1, out1)"
    and "talk_with pick s1 (awaiting out1) answers = (s2, out2)"
    and "n = accepted sign_good 0 answers" and "i = pick (j_draws s)"
  shows "requests (out1 @ out2) = take (Suc n)
      ((if cs = None then ''sign_tx'' else ''sign_liquid_tx'', sign_tx_params net txn (length inputs) cs change)
        # map (\<lambda>inp. (''tx_input'', without_entropy inp)) inputs
        @ map (\<lambda>inp. (''get_signature'', entropy_of inp)) inputs)
    \<and> client_calls (out1 @ out2) =
      (if n > 2 * length inputs
       then [(cb, signing_result i
         (map result_bytes (take (length inputs) (drop (Suc (length inputs)) answers)))
         (map result_bytes (take (length inputs) (drop 1 answers))))]
       else if n < length answers then [(cb, set_id i (answers ! n))] else [])"
proof -
  let ?N = "2 * length inputs" and ?H0 = "with_caller pick cb s" and ?j = "pick (j_draws s + 1)"
  let ?first = "(if cs = None then ''sign_tx'' else ''sign_liquid_tx'', sign_tx_params net txn (length inputs) cs change)"
  have "stands ?H0 ?j (SignInitial i inputs) (j_draws s + 2) s1 \<and> requests out1 = [?first] \<and>
      client_calls out1 = [] \<and> awaiting out1 = Some ?j \<and>
      (\<forall>k. j_draws s + 2 \<le> k \<and> k < j_draws s + (?N + 2) \<longrightarrow> ?H0 (pick k) = None \<and> valid_id (pick k))"
    unfolding assms(8)
    by (rule start_conversation [where h = "\<lambda>i. SignInitial i inputs"])
      (use assms in \<open>auto simp: sign_tx_def sign_tx_params_def\<close>)
  then have s1: "stands ?H0 ?j (sign_handler i inputs []) (j_draws s + 2) s1"
    and out1: "requests out1 = [?first]" "client_calls out1 = []" "awaiting out1 = Some ?j"
    and free: "\<forall>k. j_draws s + 2 \<le> k \<and> k < j_draws s + 2 + ?N \<longrightarrow> ?H0 (pick k) = None \<and> valid_id (pick k)"
    by (auto simp: sign_handler_def)
  have caller: "?H0 i = Some (Client cb)"
    using assms(8) by simp
  have "out2 = snd (talk_with pick s1 (Some ?j) answers)"
    using assms(6) out1 by simp
  with sign_talk [OF s1 assms(1) free caller assms(4,7)] out1
  show ?thesis by (simp add: signing_requests_def)
qed

lemma free_ids_count: "n \<le> 1000 \<Longrightarrow> free_ids (\<lambda>k. 10000 + int k) new_jade n"
  by (auto simp: free_ids_def new_jade_def)

lemma idle_new: "device_idle new_jade"
  by (simp add: device_idle_def new_jade_def)

theorem signing_conversation_witness:
  "\<exists>s1 out1 s2 out2.
    sign_tx (\<lambda>k. 10000 + int k) 7 ''mainnet'' [0x02] [[(''ae_host_entropy'', CBytes [0x55])]] None [] new_jade = (s1, out1) \<and>
    talk_with (\<lambda>k. 10000 + int k) s1 (awaiting out1) [[(''result'', CBool True)], [(''result'', CBytes [0x0A])],
      [(''result'', CBytes [0x0B])]] = (s2, out2) \<and>
    map fst (requests (out1 @ out2)) = [''sign_tx'', ''tx_input'', ''get_signature''] \<and>
    client_calls (out1 @ out2) = [(7, signing_result 10000 [CBytes [0x0B]] [CBytes [0x0A]])]"
proof -
  let ?pick = "\<lambda>k. 10000 + int k" and ?inputs = "[[(''ae_host_entropy'', CBytes [0x55])]]"
  let ?answers = "[[(''result'', CBool True)], [(''result'', CBytes [0x0A])], [(''result'', CBytes [0x0B])]]"
  obtain s1 out1 where start: "sign_tx ?pick 7 ''mainnet'' [0x02] ?inputs None [] new_jade = (s1, out1)"
    by fastforce
  obtain s2 out2 where talk: "talk_with ?pick s1 (awaiting out1) ?answers = (s2, out2)"
    by fastforce
  have "accepted sign_good 0 ?answers = 3"
    by (simp add: sign_good_def good_result_def ccontains_def cvalue_def)
  from signing_conversation [OF _ idle_new free_ids_count _ start talk this [symmetric] refl]
  have "map fst (requests (out1 @ out2)) = [''sign_tx'', ''tx_input'', ''get_signature'']"
    "client_calls (out1 @ out2) = [(7, signing_result 10000 [CBytes [0x0B]] [CBytes [0x0A]])]"
    by (simp_all add: http_request_of_def cvalue_def result_bytes_def new_jade_def)
  with start talk show ?thesis
    by (intro exI [of _ s1] exI [of _ out1] exI [of _ s2] exI [of _ out2] conjI)
qed

section \<open>Firmware updates\<close>

definition chunks_of :: "nat \<Rightarrow> bytes \<Rightarrow> bytes list" where
  "chunks_of c fw = map (\<lambda>k. take c (drop (k * c) fw)) [0..<(length fw + c - 1) div c]"

lemma concat_firmware: "concat (map (\<lambda>k. take c (drop (k * c) fw)) [0..<m]) = take (m * c) fw"
  by (induction m) (simp_all add: add.commute [of c] flip: take_add)

lemma chunk_start:
  assumes "0 < c"
  shows "k < (n + c - 1) div c \<longleftrightarrow> k * c < (n :: nat)"
proof -
  have "k < (n + c - 1) div c \<longleftrightarrow> Suc k * c \<le> n + c - 1"
    using assms by (simp add: less_eq_div_iff_mult_less_eq flip: Suc_le_eq)
  with assms show ?thesis by auto
qed

lemma chunks_of:
  assumes "0 < c"
  shows "concat (chunks_of c fw) = fw" and "\<forall>x \<in> set (chunks_of c fw). x \<noteq> [] \<and> length x \<le> c"
proof -
  have "length fw \<le> (length fw + c - 1) div c * c"
    using chunk_start [OF assms, of "(length fw + c - 1) div c" "length fw"] by simp
  then show "concat (chunks_of c fw) = fw"
    by (simp add: chunks_of_def concat_firmware)
  show "\<forall>x \<in> set (chunks_of c fw). x \<noteq> [] \<and> length x \<le> c"
    using assms chunk_start [OF assms, of _ "length fw"] by (auto simp: chunks_of_def)
qed

lemma chunk_length:
  assumes "p < length fw"
  shows "take (nat (if int (length fw) - int p \<ge> int c then int c else int (length fw) - int p)) (drop p fw)
      = take c (drop p fw)"
    and "int p + (if int (length fw) - int p \<ge> int c then int c else int (length fw) - int p)
      = int (min (c + p) (length fw))"
  using assms by (auto simp: nat_diff_distrib)

lemma ota_chunk_good:
  assumes "p < length fw" and "good_result a"
    and "ask_jade pick (OtaChunk i fw (int c) (int (min (c + p) (length fw))) progress) ''ota_data''
      (CBytes (take c (drop p fw))) s = (s1, out)"
  shows "handle_ota_chunk pick i fw (int c) (int p) progress (answer_to j a) s =
    ((s1, ota_progress i fw (int p) progress @ out), None)"
  using assms chunk_length [OF assms(1), of c]
  by (simp add: handle_ota_chunk_def ota_next_def Let_def)

definition ota_handler :: "int \<Rightarrow> bytes \<Rightarrow> nat \<Rightarrow> nat option \<Rightarrow> cmap list \<Rightarrow> handler" where
  "ota_handler i fw c progress as = OtaChunk i fw (int c) (int (min (length as * c) (length fw))) progress"

interpretation ota: conversation pick i "length (chunks_of c fw)" "ota_handler i fw c progress"
    "\<lambda>k. (''ota_data'', CBytes (take c (drop (k * c) fw)))" "\<lambda>k. good_result"
    "\<lambda>k. ota_progress i fw (int (min (k * c) (length fw))) progress" for pick i c fw progress
proof unfold_locales
  fix k as a s s1 out j
  show "chatter (ota_progress i fw (int (min (k * c) (length fw))) progress)"
    by (auto simp: ota_progress_def chatter_simps split: option.split)
  assume len: "length as < length (chunks_of c fw)" and a: "good_result a"
    and ask: "ask_jade pick (ota_handler i fw c progress (as @ [a]))
      (fst (''ota_data'', CBytes (take c (drop (length as * c) fw))))
      (snd (''ota_data'', CBytes (take c (drop (length as * c) fw)))) s = (s1, out)"
  from len have "0 < c"
    by (cases c) (auto simp: chunks_of_def)
  with len chunk_start [of c "length as" "length fw"] have pos: "length as * c < length fw"
    by (simp add: chunks_of_def)
  from ota_chunk_good [OF pos a, of pick i c progress s s1 out j] ask pos
  show "handle pick (ota_handler i fw c progress as) (answer_to j a) s =
      ((s1, ota_progress i fw (int (min (length as * c) (length fw))) progress @ out), None)"
    by (simp add: ota_handler_def min_absorb1 del: of_nat_mult)
next
  fix as a j s
  assume "\<not> good_result a"
  then show "handle pick (ota_handler i fw c progress as) (answer_to j a) s = ((s, []), Some (i, answer_to j a))"
    by (simp add: ota_handler_def handle_ota_chunk_def)
qed simp

lemma chunks_end: "0 < c \<Longrightarrow> length fw \<le> length (chunks_of c fw) * c"
  using chunk_start [of c "length (chunks_of c fw)" "length fw"] by (simp add: chunks_of_def)

text \<open>The answer to the last chunk: the end of the update is sent under the caller's number.\<close>

lemma ota_last:
  assumes s: "stands H0 j (ota_handler i fw c progress as) d s" and c: "0 < c"
    and as: "length as = length (chunks_of c fw)" and a: "good_result a" and http: "http_request_of a = None"
    and caller: "H0 i = Some (Client cb)" and i: "valid_id i"
  obtains s' out where "process_response_message pick (answer_to j a) s = (s', out)" and "awaiting out = Some i"
    and "requests out = [(''ota_complete'', CUndefined)]" and "client_calls out = []"
    and "stands (H0(i := None)) i (Client cb) d s'"
proof -
  let ?s = "remove_proxy j (take_handler j (restart_idle s))" and ?m = "get_request i ''ota_complete''"
  obtain rest where sent: "jade_send ?m ?s =
      (?s\<lparr>j_msg_inflight := insert (message_id ?m) (j_msg_inflight ?s)\<rparr>, SendMessage ?m # rest)" "chatter rest"
    by (rule jade_send_spec)
  let ?p = "ota_progress i fw (int (length fw)) progress"
  have p: "chatter ?p"
    by (auto simp: ota_progress_def chatter_simps split: option.split)
  have "handle pick (ota_handler i fw c progress as) (answer_to j a) ?s =
      ((?s\<lparr>j_msg_inflight := insert (message_id ?m) (j_msg_inflight ?s)\<rparr>, ?p @ SendMessage ?m # rest), None)"
    using a as chunks_end [OF c, of fw] sent
    by (simp add: ota_handler_def handle_ota_chunk_def ota_next_def min_absorb2)
  note run = run_handler_ends [OF this]
  have "\<not> breaks (?p @ SendMessage ?m # rest)"
    using p sent by (auto simp: chatter_def breaks_def)
  note step = process_reply [OF stands_handler [OF s] _ http run this]
  show ?thesis
    by (rule that [OF step]) (use s p sent i caller stands_taken [OF s] in
      \<open>auto simp: stands_def chatter_def awaiting_append message_id_request simp del: request_of.simps(1)\<close>)
qed

lemma ota_end:
  assumes "stands H0 j (ota_handler i fw c progress as) d s" and "0 < c"
    and "length as = length (chunks_of c fw)" and "good_result a" and "\<forall>b \<in> set (a # bs). http_request_of b = None"
    and "H0 i = Some (Client cb)" and "valid_id i"
  shows "requests (snd (talk_with pick s (Some j) (a # bs))) = [(''ota_complete'', CUndefined)] \<and>
    client_calls (snd (talk_with pick s (Some j) (a # bs))) = (case bs of [] \<Rightarrow> [] | b # _ \<Rightarrow> [(cb, answer_to i b)])"
proof -
  obtain s' out where step: "process_response_message pick (answer_to j a) s = (s', out)" "awaiting out = Some i"
    "requests out = [(''ota_complete'', CUndefined)]" "client_calls out = []"
    and s': "stands (H0(i := None)) i (Client cb) d s'"
    using ota_last [OF assms(1-4) _ assms(6,7)] assms(5) by auto
  show ?thesis
  proof (cases bs)
    case Nil
    with step show ?thesis by simp
  next
    case (Cons b bs')
    with step stands_caller [OF s', of b pick bs'] assms(5) show ?thesis
      by (simp add: case_prod_beta)
  qed
qed

lemma ota_data_requests:
  "k \<le> length (chunks_of c fw) \<Longrightarrow> map (\<lambda>k. (''ota_data'', CBytes (take c (drop (k * c) fw)))) [0..<k]
    = take k (map (\<lambda>x. (''ota_data'', CBytes x)) (chunks_of c fw))"
  by (rule nth_equalityI) (auto simp: chunks_of_def)

text \<open>The conversation after the first request.\<close>

lemma ota_talk:
  assumes start: "stands H0 j (ota_handler i fw c progress []) d s" and c: "0 < c" and N: "N = length (chunks_of c fw)"
    and free: "\<forall>k. d \<le> k \<and> k < d + length (chunks_of c fw) \<longrightarrow> H0 (pick k) = None \<and> valid_id (pick k)"
    and caller: "H0 i = Some (Client cb)" and i: "valid_id i" and http: "\<forall>a \<in> set answers. http_request_of a = None"
    and n: "n = accepted (\<lambda>k. good_result) 0 answers"
  shows "requests (snd (talk_with pick s (Some j) answers)) =
      take n (map (\<lambda>x. (''ota_data'', CBytes x)) (chunks_of c fw) @ [(''ota_complete'', CUndefined)]) \<and>
    client_calls (snd (talk_with pick s (Some j) answers)) =
      (if n \<le> N then (if n < length answers then [(cb, set_id i (answers ! n))] else [])
       else if Suc N < length answers then [(cb, answer_to i (answers ! Suc N))] else [])"
proof (cases "n \<le> N")
  case True
  with ota.unfinished [OF start _ http free caller] n N ota_data_requests [of n c fw]
  show ?thesis by simp
next
  case False
  then have acc: "length (chunks_of c fw) \<le> accepted (\<lambda>k. good_result) 0 answers" "N < length answers"
    using accepted_le [of "\<lambda>k. good_result" 0 answers] n N by simp_all
  obtain s' j' out where s': "stands H0 j' (ota_handler i fw c progress (take N answers)) (d + N) s'"
    and out: "requests out = map (\<lambda>k. (''ota_data'', CBytes (take c (drop (k * c) fw)))) [0..<N]" "client_calls out = []"
    and step: "snd (talk_with pick s (Some j) answers) = out @ snd (talk_with pick s' (Some j') (drop N answers))"
    using ota.first_answers [OF start order_refl acc(1) http free] N by metis
  have a: "drop N answers = answers ! N # drop (Suc N) answers" "good_result (answers ! N)"
    "length (take N answers) = length (chunks_of c fw)"
    "\<forall>b \<in> set (answers ! N # drop (Suc N) answers). http_request_of b = None"
    using acc(2) http n N accepted_good [of N "\<lambda>k. good_result" 0 answers] False
    by (auto simp: Cons_nth_drop_Suc dest: in_set_dropD)
  have "(case drop (Suc N) answers of [] \<Rightarrow> [] | b # _ \<Rightarrow> [(cb, answer_to i b)]) =
      (if Suc N < length answers then [(cb, answer_to i (answers ! Suc N))] else [])"
    using Cons_nth_drop_Suc [of "Suc N" answers, symmetric] by (cases "Suc N < length answers") simp_all
  with ota_end [OF s' c a(3,2,4) caller i, of pick] False N out step a(1) ota_data_requests [of N c fw]
  show ?thesis by simp
qed

text \<open>
  C33.  A firmware update sends the firmware: on a device that answers one request after the other
  and is not otherwise busy, the requests are \<open>ota\<close> (\<open>ota_delta\<close> with a patch), then one
  \<open>ota_data\<close> for each chunk, then \<open>ota_complete\<close>; the chunks put together are the compressed
  firmware, none is empty and none is longer than the chunk size.  Each is sent when the answer
  before was good; the first that is not goes to the caller, under the caller's number, and
  nothing more is sent.  The answer to \<open>ota_complete\<close>, whatever it is, is the caller's result.
\<close>

theorem firmware_update:
  assumes "0 < chunk_size" and "device_idle s"
    and "chunks = chunks_of (nat chunk_size) fwcmp" and "free_ids pick s (length chunks + 2)"
    and "\<forall>a \<in> set answers. http_request_of a = None"
    and "ota_update pick sha256 cb progress fwcmp fwlen fwhash patch_size chunk_size s = (s1, out1)"
    and "talk_with pick s1 (awaiting out1) answers = (s2, out2)"
    and "n = accepted (\<lambda>k. good_result) 0 answers" and "i = pick (j_draws s)"
  shows "concat chunks = fwcmp \<and> (\<forall>x \<in> set chunks. x \<noteq> [] \<and> length x \<le> nat chunk_size) \<and>
    requests (out1 @ out2) = take (Suc n)
      ((if patch_size = None then ''ota'' else ''ota_delta'', ota_params sha256 fwcmp fwlen fwhash patch_size)
        # map (\<lambda>x. (''ota_data'', CBytes x)) chunks @ [(''ota_complete'', CUndefined)]) \<and>
    client_calls (out1 @ out2) =
      (if n \<le> length chunks then (if n < length answers then [(cb, set_id i (answers ! n))] else [])
       else if Suc (length chunks) < length answers then [(cb, answer_to i (answers ! Suc (length chunks)))] else [])"
proof -
  let ?c = "nat chunk_size" and ?H0 = "with_caller pick cb s" and ?j = "pick (j_draws s + 1)"
  have c: "0 < ?c" "int ?c = chunk_size" using assms(1) by simp_all
  have "stands ?H0 ?j (OtaChunk i fwcmp chunk_size 0 progress) (j_draws s + 2) s1 \<and> requests out1 =
      [(if patch_size = None then ''ota'' else ''ota_delta'', ota_params sha256 fwcmp fwlen fwhash patch_size)] \<and>
      client_calls out1 = [] \<and> awaiting out1 = Some ?j \<and>
      (\<forall>k. j_draws s + 2 \<le> k \<and> k < j_draws s + (length chunks + 2) \<longrightarrow> ?H0 (pick k) = None \<and> valid_id (pick k))"
    unfolding assms(9)
    by (rule start_conversation [where h = "\<lambda>i. OtaChunk i fwcmp chunk_size 0 progress"])
      (use assms in \<open>auto simp: ota_update_def ota_params_def\<close>)
  then have s1: "stands ?H0 ?j (ota_handler i fwcmp ?c progress []) (j_draws s + 2) s1"
    and out1: "requests out1 =
      [(if patch_size = None then ''ota'' else ''ota_delta'', ota_params sha256 fwcmp fwlen fwhash patch_size)]"
      "client_calls out1 = []" "awaiting out1 = Some ?j"
    and free: "\<forall>k. j_draws s + 2 \<le> k \<and> k < j_draws s + 2 + length (chunks_of ?c fwcmp) \<longrightarrow>
      ?H0 (pick k) = None \<and> valid_id (pick k)"
    using c assms(3) by (auto simp: ota_handler_def)
  have caller: "?H0 i = Some (Client cb)" "valid_id i"
    using assms(4,9) by (auto simp: free_ids_def)
  have "out2 = snd (talk_with pick s1 (Some ?j) answers)"
    using assms(7) out1 by simp
  with ota_talk [OF s1 c(1) refl free caller assms(5,8)] out1 chunks_of [OF c(1), of fwcmp] assms(3)
  show ?thesis by simp
qed

theorem firmware_update_witness:
  "\<exists>s1 out1 s2 out2.
    ota_update (\<lambda>k. 10000 + int k) (\<lambda>b. b) 7 None [1, 2, 3] 9 [] None 2 new_jade = (s1, out1) \<and>
    talk_with (\<lambda>k. 10000 + int k) s1 (awaiting out1) (replicate 4 [(''result'', CBool True)]) = (s2, out2) \<and>
    map fst (requests (out1 @ out2)) = [''ota'', ''ota_data'', ''ota_data'', ''ota_complete''] \<and>
    client_calls (out1 @ out2) = [(7, answer_to 10000 [(''result'', CBool True)])]"
proof -
  let ?pick = "\<lambda>k. 10000 + int k" and ?answers = "replicate 4 [(''result'', CBool True)]"
  obtain s1 out1 where start: "ota_update ?pick (\<lambda>b. b) 7 None [1, 2, 3] 9 [] None 2 new_jade = (s1, out1)"
    by fastforce
  obtain s2 out2 where talk: "talk_with ?pick s1 (awaiting out1) ?answers = (s2, out2)"
    by fastforce
  have "accepted (\<lambda>k. good_result) 0 ?answers = 4"
    by (simp add: good_result_def ccontains_def cvalue_def numeral_eq_Suc)
  moreover have "length (chunks_of (nat 2) [1, 2, 3]) = 2"
    by (simp add: chunks_of_def)
  ultimately have "map fst (requests (out1 @ out2)) = [''ota'', ''ota_data'', ''ota_data'', ''ota_complete'']"
    "client_calls (out1 @ out2) = [(7, answer_to 10000 [(''result'', CBool True)])]"
    using firmware_update [OF _ idle_new refl free_ids_count _ start talk refl refl]
    by (simp_all add: http_request_of_def cvalue_def new_jade_def chunks_of_def numeral_eq_Suc)
  with start talk show ?thesis
    by (intro exI [of _ s1] exI [of _ out1] exI [of _ s2] exI [of _ out2] conjI)
qed

section \<open>Callbacks\<close>

text \<open>
  C32.  A caller's callback is called at most once for each time it is handed over, whatever is
  called, whatever messages arrive with whatever numbers, and whatever timers fire, in any order;
  and it is never lost, being either called (on a locked device, queued to be called) or held by a
  waiting handler, as long as the random numbers drawn are all different.  (They are drawn from ninety thousand, and after five more draws
  a number in use is taken, whose handler is then overwritten.)
\<close>

theorem callbacks_called_once:
  assumes "run (jade_step pick sha256) new_jade es = (s, out)"
  shows "calls_to cb out + waiting cb s \<le> sum_list (map (asked_for cb) es) \<and>
    (inj_on pick {..<j_draws s} \<longrightarrow>
      calls_to cb out + waiting cb s = sum_list (map (asked_for cb) es))"
  using jade_run_settles [of pick cb es new_jade sha256] assms jade_ok_new [of pick]
  by (simp add: settles_def new_jade_def held_def)

theorem callbacks_called_once_witness:
  "\<exists>s out. run (jade_step (\<lambda>k. 10000 + int k) (\<lambda>b. b)) new_jade [JadeCall 7 CallPing, JadeTimer 10000] = (s, out) \<and>
    calls_to 7 out + waiting 7 s = 1"
proof -
  obtain s out where run: "run (jade_step (\<lambda>k. 10000 + int k) (\<lambda>b. b)) new_jade
      [JadeCall 7 CallPing, JadeTimer 10000] = (s, out)"
    by fastforce
  with callbacks_called_once [OF run, of 7] show ?thesis
    by (simp add: inj_on_def)
qed

end
