(* ===== verification/Jade_Control.thy ===== *)
theory Jade_Control
  imports Jade_Api Ledger_Device
begin

text \<open>
  What the program does with a Jade device around its protocol: which firmware it offers and how
  an update runs (\<open>src/jade/jadeupdatecontroller.cpp\<close>), which web hosts a device may reach
  through it, how a device is unlocked and shown to be genuine
  (\<open>src/jade/jadelogincontroller.cpp\<close>), the state it is in (\<open>src/jade/jadedevice.cpp\<close>) and how
  devices on serial ports are found and watched
  (\<open>src/jade/jadedeviceserialportdiscoveryagent.cpp\<close>).
\<close>

section \<open>Variants\<close>

text \<open>\<open>toInt\<close>, \<open>toLongLong\<close>, \<open>toMap\<close>, \<open>toStringList\<close> and \<open>== true\<close> of a value.\<close>

fun variant_int :: "cbor \<Rightarrow> int" where
  "variant_int (CInt n) = n"
| "variant_int (CBool b) = (if b then 1 else 0)"
| "variant_int (CStr s) = text_to_int s"
| "variant_int _ = 0"

fun variant_map :: "cbor \<Rightarrow> cmap" where
  "variant_map (CMap m) = m"
| "variant_map _ = []"

fun variant_strings :: "cbor \<Rightarrow> string list" where
  "variant_strings (CStr s) = [s]"
| "variant_strings (CArr xs) = map variant_text xs"
| "variant_strings _ = []"

fun variant_is_true :: "cbor \<Rightarrow> bool" where
  "variant_is_true (CBool b) \<longleftrightarrow> b"
| "variant_is_true (CInt n) \<longleftrightarrow> n = 1"
| "variant_is_true _ \<longleftrightarrow> False"

section \<open>The device\<close>

datatype device_state = StateReady | StateTemporary | StateUnsaved | StateLocked | StateUninitialized

definition jade_device_get_state :: "cmap \<Rightarrow> device_state" where
  "jade_device_get_state vi =
     (let state = variant_text (cvalue vi ''JADE_STATE'')
      in if state = ''READY'' then StateReady
         else if state = ''TEMP'' then StateTemporary
         else if state = ''UNSAVED'' then StateUnsaved
         else if state = ''LOCKED'' then StateLocked
         else if state = ''UNINIT'' then StateUninitialized
         else if ccontains vi ''JADE_HAS_PIN'' \<and> \<not> variant_bool (cvalue vi ''JADE_HAS_PIN'')
           then StateUninitialized
         else StateLocked)"

definition jade_version :: "cmap \<Rightarrow> string" where
  "jade_version vi = variant_text (cvalue vi ''JADE_VERSION'')"

definition minimum_required_version :: "int list" where
  "minimum_required_version = [1, 0, 37]"

definition update_required :: "cmap \<Rightarrow> bool" where
  "update_required vi \<longleftrightarrow> version_less (parse_version (jade_version vi)) minimum_required_version"

definition jade_supports_network :: "cmap \<Rightarrow> network \<Rightarrow> bool" where
  "jade_supports_network vi n \<longleftrightarrow>
     (if variant_text (cvalue vi ''JADE_NETWORKS'') = ''TEST'' then \<not> n_mainnet n else True)"

section \<open>The firmware that is offered\<close>

definition type_from_version_info :: "cmap \<Rightarrow> string" where
  "type_from_version_info vi =
     (let board = (if ccontains vi ''BOARD_TYPE'' then variant_text (cvalue vi ''BOARD_TYPE'') else ''JADE'');
          sb = ''SB'' \<in> set (variant_strings (cvalue vi ''JADE_FEATURES''))
      in if board = ''JADE'' then (if sb then ''jade'' else ''jadedev'')
         else if board = ''JADE_V1.1'' then (if sb then ''jade1.1'' else ''jade1.1dev'')
         else if board = ''JADE_V2'' then (if sb then ''jade2.0'' else ''jade2.0dev'')
         else if board = ''JADE_V2C'' then (if sb then ''jade2.0c'' else ''jade2.0cdev'')
         else [])"

abbreviation field :: "jobject \<Rightarrow> string \<Rightarrow> string" where
  "field f k \<equiv> to_string (jvalue f k)"

abbreviation flag :: "jobject \<Rightarrow> string \<Rightarrow> bool" where
  "flag f k \<equiv> to_bool (jvalue f k)"

definition firmware_version :: "jobject \<Rightarrow> int list" where
  "firmware_version f = parse_version (field f ''version'')"

definition segment :: "int list \<Rightarrow> nat \<Rightarrow> int" where
  "segment v n = (if n < length v then v ! n else 0)"

text \<open>
  \<open>process\<close>: what the page knows of one entry of the index.  \<open>None\<close> is a delta to what is
  installed, which is left out.
\<close>

definition process_firmware ::
    "string \<Rightarrow> string \<Rightarrow> string \<Rightarrow> string \<Rightarrow> int list \<Rightarrow> bool \<Rightarrow> jobject \<Rightarrow> jobject option" where
  "process_firmware type channel version config latest_version delta f =
     (let fv = firmware_version f; v = parse_version version;
          same_version = (v = fv);
          newer_version = (\<not> version_less fv v);
          same_config = (config = field f ''config'');
          upgrade = (newer_version \<or> same_version \<and> \<not> same_config);
          downgrade = version_less fv v;
          installed = (same_version \<and> same_config \<and> version = field f ''version'');
          compatible = (\<not> version_less fv minimum_required_version);
          latest = (fv = latest_version)
      in if delta \<and> installed then None
         else Some (fold (\<lambda>(k, x). qm_insert k x)
           [(''type'', JStr type), (''channel'', JStr channel), (''newer_version'', JBool newer_version),
            (''same_config'', JBool same_config), (''delta'', JBool delta), (''installed'', JBool installed),
            (''downgrade'', JBool downgrade), (''upgrade'', JBool upgrade), (''compatible'', JBool compatible),
            (''latest'', JBool latest),
            (''index'', JInt (segment fv 0 * 10000 + segment fv 1 * 100 + segment fv 2))] f))"

definition firmware_key :: "jobject \<Rightarrow> string \<times> string" where
  "firmware_key f = (field f ''version'', field f ''config'')"

definition channel_entries :: "jobject \<Rightarrow> string \<Rightarrow> string \<Rightarrow> string \<Rightarrow> jobject list" where
  "channel_entries index type channel kind =
     map to_object (to_array (jvalue (to_object (jvalue (to_object (jvalue index type)) channel)) kind))"

definition latest_stable :: "jobject \<Rightarrow> string \<Rightarrow> int list" where
  "latest_stable index type =
     foldl (\<lambda>latest f. if version_less latest (firmware_version f) then firmware_version f else latest)
       [] (channel_entries index type ''stable'' ''full'')"

text \<open>One channel: the deltas from what is installed, then the full images.\<close>

definition process_channel ::
    "jobject \<Rightarrow> string \<Rightarrow> string \<Rightarrow> string \<Rightarrow> int list \<Rightarrow> string \<Rightarrow>
      (string \<times> string) list \<times> jobject list \<Rightarrow> (string \<times> string) list \<times> jobject list" where
  "process_channel index type version config latest channel acc =
     (let deltas = filter (\<lambda>f. version = field f ''from_version'' \<and> config = field f ''from_config'')
            (channel_entries index type channel ''delta'');
          available = fst acc @ map firmware_key deltas;
          process = process_firmware type channel version config latest
      in (available,
          snd acc @
          List.map_filter (\<lambda>f. process True (qm_insert ''has_delta'' (JBool False) f)) deltas @
          List.map_filter (\<lambda>f. process False
              (qm_insert ''has_delta'' (JBool (firmware_key f \<in> set available)) f))
            (channel_entries index type channel ''full'')))"

definition firmware_channels :: "bool \<Rightarrow> string list" where
  "firmware_channels debug_jade =
     (if debug_jade then [''beta''] else []) @ [''stable''] @ (if debug_jade then [''previous''] else [])"

text \<open>
  \<open>JadeFirmwareCheckController::check\<close>: the firmwares and the one that is available.  \<open>None\<close> is
  a controller without a device.
\<close>

definition check_firmwares :: "bool \<Rightarrow> cmap option \<Rightarrow> jobject \<Rightarrow> jobject list" where
  "check_firmwares debug_jade device index =
     (case device of None \<Rightarrow> []
      | Some vi \<Rightarrow>
          (let type = type_from_version_info vi; version = jade_version vi;
               config = to_lower (variant_text (cvalue vi ''JADE_CONFIG''))
           in if index = [] \<or> type = [] then []
              else snd (fold (process_channel index type version config (latest_stable index type))
                     (firmware_channels debug_jade) ([], []))))"

definition firmware_available :: "jobject list \<Rightarrow> jobject option" where
  "firmware_available fs =
     (let found = filter (\<lambda>f. field f ''channel'' = ''stable'' \<and> flag f ''same_config'' \<and>
                            flag f ''newer_version'') fs
      in if found = [] then None else Some (last found))"

section \<open>The index\<close>

text \<open>
  \<open>JadeFirmwareController\<close>: the results and the requests under way are shared by all
  controllers (\<open>g_jade_firmware_results\<close>, \<open>g_jade_firmware_requests\<close>).  \<open>fc_waiting\<close> is the types
  this controller waits for, once for each \<open>check\<close>.
\<close>

record firmware_ctl =
  fc_results :: "(string, jobject) qmap"
  fc_requests :: "string list"
  fc_waiting :: "string list"
  fc_fetching :: int
  fc_index :: jobject

datatype firmware_output = IndexChanged | FetchingChanged | FetchIndex string

datatype firmware_event = CheckDevice cmap | IndexFetched string jobject | IndexFailed string

text \<open>\<open>IndexFetched type body\<close> carries \<open>body().toJsonObject()\<close>: empty when the answer was an error.\<close>

definition firmware_check :: "cmap \<Rightarrow> firmware_ctl \<Rightarrow> firmware_ctl \<times> firmware_output list" where
  "firmware_check vi c =
     (let type = type_from_version_info vi
      in case map_of (fc_results c) type of
           Some ob \<Rightarrow> (c\<lparr>fc_index := qm_insert type (JObj ob) (fc_index c)\<rparr>, [IndexChanged])
         | None \<Rightarrow>
             (c\<lparr>fc_requests := (if type \<in> set (fc_requests c) then fc_requests c else fc_requests c @ [type]),
                fc_waiting := fc_waiting c @ [type], fc_fetching := fc_fetching c + 1\<rparr>,
              (if type \<in> set (fc_requests c) then [] else [FetchIndex type]) @ [FetchingChanged]))"

text \<open>
  The end of a request: \<open>fetch\<close> forgets it, then every \<open>check\<close> that waits has its turn.
\<close>

definition index_fetched :: "string \<Rightarrow> jobject \<Rightarrow> firmware_ctl \<Rightarrow> firmware_ctl \<times> firmware_output list" where
  "index_fetched type body c =
     (let n = count_list (fc_waiting c) type
      in (c\<lparr>fc_requests := removeAll type (fc_requests c),
            fc_waiting := removeAll type (fc_waiting c), fc_fetching := fc_fetching c - int n,
            fc_results := qm_insert type body (fc_results c),
            fc_index := (if n = 0 then fc_index c else qm_insert type (JObj body) (fc_index c))\<rparr>,
          concat (replicate n [IndexChanged, FetchingChanged])))"

definition index_failed :: "string \<Rightarrow> firmware_ctl \<Rightarrow> firmware_ctl \<times> firmware_output list" where
  "index_failed type c =
     (let n = count_list (fc_waiting c) type
      in (c\<lparr>fc_requests := removeAll type (fc_requests c),
            fc_waiting := removeAll type (fc_waiting c), fc_fetching := fc_fetching c - int n\<rparr>,
          replicate n FetchingChanged))"

fun firmware_step :: "firmware_ctl \<Rightarrow> firmware_event \<Rightarrow> firmware_ctl \<times> firmware_output list" where
  "firmware_step c (CheckDevice vi) = firmware_check vi c"
| "firmware_step c (IndexFetched type body) = index_fetched type body c"
| "firmware_step c (IndexFailed type) = index_failed type c"

definition index_urls :: "string \<Rightarrow> string list" where
  "index_urls type = map (\<lambda>server. server @ ''/bin/'' @ type @ ''/index.json'')
     [''https://jadefw.blockstream.com'',
      ''http://vgza7wu4h7osixmrx6e4op5r72okqpagr3w6oupgsvmim4cz3wzdgrad.onion'']"

section \<open>An update\<close>

text \<open>How \<open>JadeUpdateActivity\<close> takes the device's last answer.\<close>

datatype ota_outcome = OtaFinished | OtaCancelled | OtaLocked | OtaFailed

definition ota_result :: "cmap \<Rightarrow> ota_outcome" where
  "ota_result result =
     (if variant_is_true (cvalue result ''result'') then OtaFinished
      else (let error = variant_map (cvalue result ''error'');
                code = variant_int (cvalue error ''code'');
                message = variant_text (cvalue error ''message'')
            in if code = - 32000 then OtaCancelled
               else if code = - 32002 \<or>
                 message = ''OTA is only allowed on new or logged-in device.'' then OtaLocked
               else OtaFailed))"

text \<open>\<open>toLongLong\<close>, \<open>toInt\<close> of a value of the firmware's entry.\<close>

fun json_number :: "json \<Rightarrow> int" where
  "json_number (JInt n) = n"
| "json_number (JBool b) = (if b then 1 else 0)"
| "json_number (JStr s) = text_to_int s"
| "json_number _ = 0"

text \<open>
  \<open>JadeUpdateActivity::exec\<close>: the call it makes of the device.  \<open>relax\<close> is \<open>relaxWrite\<close>; a
  device that does not tell its largest chunk gets chunks of size 0.
\<close>

definition update_call :: "bool \<Rightarrow> cmap \<Rightarrow> jobject \<Rightarrow> bytes \<Rightarrow> nat \<Rightarrow> jade_call" where
  "update_call relax vi firmware data progress =
     CallOtaUpdate (Some progress) data (json_number (jvalue firmware ''fwsize''))
       (field firmware ''fwhash'')
       (if flag firmware ''delta'' then Some (json_number (jvalue firmware ''patch_size'')) else None)
       (if relax then 256 else variant_int (cvalue vi ''JADE_OTA_MAX_CHUNK''))"

text \<open>
  \<open>JadeFirmwareUpdateController\<close> with the device it updates: \<open>uc_jade\<close> is the device's protocol,
  whose lock the controller sets, \<open>uc_version_info\<close> what the device said of itself.
\<close>

record update_ctl =
  uc_jade :: jade
  uc_version_info :: cmap
  uc_firmware :: jobject
  uc_relax :: bool
  uc_fetching :: bool
  uc_updating :: bool
  uc_started :: bool

datatype update_output =
    Download string
  | UpdatingChanged | FetchingImageChanged
  | Device jade_output
  | UpdateStarted | UpdateCancelled | UnlockRequired | UpdateFailed | UpdateFinished
  | VersionInfoSet cmap
  | ReleaseIn nat
  | Reconnect

definition set_jade_lock :: "bool \<Rightarrow> update_ctl \<Rightarrow> update_ctl" where
  "set_jade_lock b c = c\<lparr>uc_jade := (uc_jade c)\<lparr>j_locked := b\<rparr>\<rparr>"

definition start_update :: "update_ctl \<Rightarrow> update_ctl \<times> update_output list" where
  "start_update c =
     (set_jade_lock True (c\<lparr>uc_updating := True, uc_fetching := True\<rparr>),
      [UpdatingChanged, FetchingImageChanged,
       Download (''/bin/'' @ field (uc_firmware c) ''type'' @ ''/'' @ field (uc_firmware c) ''filename'')])"

definition download_failed :: "update_ctl \<Rightarrow> update_ctl \<times> update_output list" where
  "download_failed c =
     (c\<lparr>uc_fetching := False, uc_updating := False\<rparr>, [FetchingImageChanged, UpdatingChanged])"

text \<open>\<open>cb\<close> stands for the callbacks of the activity.\<close>

definition install :: "(nat \<Rightarrow> int) \<Rightarrow> (bytes \<Rightarrow> bytes) \<Rightarrow> nat \<Rightarrow> bytes \<Rightarrow> update_ctl \<Rightarrow>
    update_ctl \<times> update_output list" where
  "install pick sha256 cb data c =
     (let c1 = set_jade_lock True (c\<lparr>uc_started := False\<rparr>);
          (j, out) = make_jade_call pick sha256 cb
            (update_call (uc_relax c) (uc_version_info c) (uc_firmware c) data cb) (uc_jade c1)
      in (c1\<lparr>uc_jade := j\<rparr>, map Device out))"

text \<open>\<open>None\<close> is a response with an error; otherwise the image.\<close>

definition download_finished :: "(nat \<Rightarrow> int) \<Rightarrow> (bytes \<Rightarrow> bytes) \<Rightarrow> nat \<Rightarrow> bytes option \<Rightarrow>
    update_ctl \<Rightarrow> update_ctl \<times> update_output list" where
  "download_finished pick sha256 cb img c =
     (let (c1, out1) = download_failed c
      in case img of None \<Rightarrow> (c1, out1)
         | Some data \<Rightarrow> (let (c2, out2) = install pick sha256 cb data c1 in (c2, out1 @ out2)))"

definition update_progress :: "int \<Rightarrow> update_ctl \<Rightarrow> update_ctl \<times> update_output list" where
  "update_progress uploaded c =
     (if uploaded > 0 \<and> \<not> uc_started c then (c\<lparr>uc_started := True\<rparr>, [UpdateStarted]) else (c, []))"

definition update_ended :: "update_output \<Rightarrow> update_ctl \<Rightarrow> update_ctl \<times> update_output list" where
  "update_ended signal c = (set_jade_lock False (c\<lparr>uc_updating := False\<rparr>), [UpdatingChanged, signal])"

definition cset :: "string \<Rightarrow> cbor \<Rightarrow> cmap \<Rightarrow> cmap" where
  "cset k v m = (k, v) # filter (\<lambda>p. fst p \<noteq> k) m"

definition updated_version_info :: "jobject \<Rightarrow> cmap \<Rightarrow> cmap" where
  "updated_version_info firmware vi =
     (let v1 = cset ''JADE_CONFIG'' (CStr (field firmware ''config''))
            (cset ''JADE_VERSION'' (CStr (field firmware ''version'')) vi)
      in if variant_text (cvalue v1 ''JADE_STATE'') = ''READY''
         then cset ''JADE_STATE'' (CStr ''LOCKED'') v1 else v1)"

definition update_done :: "cmap \<Rightarrow> update_ctl \<Rightarrow> update_ctl \<times> update_output list" where
  "update_done result c =
     (case ota_result result of
        OtaCancelled \<Rightarrow> update_ended UpdateCancelled c
      | OtaLocked \<Rightarrow> update_ended UnlockRequired c
      | OtaFailed \<Rightarrow> update_ended UpdateFailed c
      | OtaFinished \<Rightarrow>
          (let vi = updated_version_info (uc_firmware c) (uc_version_info c)
           in (c\<lparr>uc_version_info := vi\<rparr>, [VersionInfoSet vi, ReleaseIn 5000])))"

definition release_timer :: "update_ctl \<Rightarrow> update_ctl \<times> update_output list" where
  "release_timer c = (set_jade_lock False c, [Reconnect, UpdateFinished])"

text \<open>
  What can happen to the controller and its device; \<open>DeviceDid\<close> is any event of the protocol
  but the lock, which only the controller sets.
\<close>

datatype update_event =
    Update
  | DownloadFailed
  | DownloadFinished nat "bytes option"
  | Install nat bytes
  | UploadProgress int
  | UpdateDone cmap
  | ReleaseTimer
  | DeviceDid jade_event

fun update_step :: "(nat \<Rightarrow> int) \<Rightarrow> (bytes \<Rightarrow> bytes) \<Rightarrow> update_ctl \<Rightarrow> update_event \<Rightarrow>
    update_ctl \<times> update_output list" where
  "update_step pick sha256 c Update = start_update c"
| "update_step pick sha256 c DownloadFailed = download_failed c"
| "update_step pick sha256 c (DownloadFinished cb img) = download_finished pick sha256 cb img c"
| "update_step pick sha256 c (Install cb data) = install pick sha256 cb data c"
| "update_step pick sha256 c (UploadProgress n) = update_progress n c"
| "update_step pick sha256 c (UpdateDone r) = update_done r c"
| "update_step pick sha256 c ReleaseTimer = release_timer c"
| "update_step pick sha256 c (DeviceDid e) =
     (case e of SetLocked b \<Rightarrow> (c, [])
      | _ \<Rightarrow> (let (j, out) = jade_step pick sha256 (uc_jade c) e in (c\<lparr>uc_jade := j\<rparr>, map Device out)))"

section \<open>Finding and watching devices\<close>

text \<open>
  \<open>scan\<close> asks for the serial ports, unless some device is locked, in which case it tries again
  in ten seconds; \<open>ports_found\<close> is the rest of it, when the ports are known.
\<close>

record backend =
  b_jade :: jade
  b_connected :: bool

datatype scan_output =
    ListPorts
  | ScanIn nat
  | NewBackend string
  | Probe string
  | RemoveBackend string

definition scan :: "(string, backend) qmap \<Rightarrow> scan_output list" where
  "scan bs = (if list_ex (\<lambda>(l, b). j_locked (b_jade b)) bs then [ScanIn 10000] else [ListPorts])"

definition new_backend :: backend where
  "new_backend = \<lparr>b_jade = new_jade, b_connected = False\<rparr>"

definition ports_found ::
    "bool \<Rightarrow> string list \<Rightarrow> (string, backend) qmap \<Rightarrow> (string, backend) qmap \<times> scan_output list" where
  "ports_found active ports bs =
     (fold (\<lambda>l m. qm_insert l (case map_of bs l of Some b \<Rightarrow> b | None \<Rightarrow> new_backend) m) ports [],
      concat (map (\<lambda>l. case map_of bs l of
          None \<Rightarrow> [NewBackend l, Probe l]
        | Some b \<Rightarrow> if b_connected b then [] else [Probe l]) ports) @
      map (RemoveBackend \<circ> fst) (filter (\<lambda>(l, b). l \<notin> set ports) bs) @
      [ScanIn (if active then 1000 else 10000)])"

text \<open>\<open>probe\<close>, and what its answer leads to.\<close>

definition probe :: "(nat \<Rightarrow> int) \<Rightarrow> nat \<Rightarrow> jade \<Rightarrow> jade \<times> jade_output list" where
  "probe pick cb j = (if j_locked j then (j, []) else get_version_info pick cb False j)"

datatype probe_outcome = ProbeAgain | ProbeGivenUp | DeviceFound cmap | NothingFound

definition probe_reply :: "cmap \<Rightarrow> probe_outcome" where
  "probe_reply data =
     (if ccontains data ''error'' then
        (if variant_text (cvalue (variant_map (cvalue data ''error'')) ''message'') = ''timeout''
         then ProbeAgain else ProbeGivenUp)
      else if ccontains data ''result'' then DeviceFound (variant_map (cvalue data ''result''))
      else NothingFound)"

text \<open>
  \<open>updateLater\<close>, a second later: which calls are made of a device with this description.
\<close>

definition pings :: "cmap \<Rightarrow> bool" where
  "pings vi \<longleftrightarrow> \<not> version_less (parse_version (jade_version vi)) [1, 0, 21]"

definition update_later :: "(nat \<Rightarrow> int) \<Rightarrow> nat \<Rightarrow> nat \<Rightarrow> cmap \<Rightarrow> jade \<Rightarrow> jade \<times> jade_output list" where
  "update_later pick cb cb' vi j =
     (let (j1, out1) = (if pings vi then ping pick cb j else (j, []));
          (j2, out2) = (if pings vi \<or> \<not> is_busy j1 \<and> \<not> j_locked j1
             then get_version_info pick cb' True j1 else (j1, []))
      in (j2, out1 @ out2))"

section \<open>Hosts a device may reach\<close>

text \<open>
  \<open>sha256\<close> is Qt's hash of the text of a host, \<open>allowed\<close> the hashes in the settings (a set kept
  as a list).
\<close>

definition is_host_allowed :: "(string \<Rightarrow> bytes) \<Rightarrow> bytes list \<Rightarrow> string \<Rightarrow> bool" where
  "is_host_allowed sha256 allowed host \<longleftrightarrow>
     host = ''jadepin.blockstream.com'' \<or> host = ''j8d.io'' \<or> sha256 host \<in> set allowed"

definition are_hosts_allowed :: "(string \<Rightarrow> bytes) \<Rightarrow> bytes list \<Rightarrow> string list \<Rightarrow> bool" where
  "are_hosts_allowed sha256 allowed hosts \<longleftrightarrow> list_ex (is_host_allowed sha256 allowed) hosts"

definition allow_hosts :: "(string \<Rightarrow> bytes) \<Rightarrow> string list \<Rightarrow> bytes list \<Rightarrow> bytes list" where
  "allow_hosts sha256 hosts allowed = fold (\<lambda>h. List.insert (sha256 h)) hosts allowed"

text \<open>
  A request of the device for the web: its \<open>params\<close> are handed on as they are.  \<open>authority\<close> is
  that of \<open>QUrl\<close>.  The user's answer comes as \<open>UserAccepts remember\<close> or \<open>UserRejects\<close>.
\<close>

definition request_hosts :: "(string \<Rightarrow> string) \<Rightarrow> jobject \<Rightarrow> string list" where
  "request_hosts authority params =
     map (authority \<circ> to_string) (to_array (jvalue params ''urls''))"

datatype web_output = AskUser jobject | PerformRequest jobject | AnswerDevice jobject
datatype web_event = DeviceAsks jobject | UserAccepts jobject bool | UserRejects jobject

fun web_step :: "(string \<Rightarrow> string) \<Rightarrow> (string \<Rightarrow> bytes) \<Rightarrow> bytes list \<Rightarrow> web_event \<Rightarrow>
    bytes list \<times> web_output list" where
  "web_step authority sha256 allowed (DeviceAsks params) =
     (allowed, if are_hosts_allowed sha256 allowed (request_hosts authority params)
       then [PerformRequest params] else [AskUser params])"
| "web_step authority sha256 allowed (UserAccepts params remember) =
     (if remember then allow_hosts sha256 (request_hosts authority params) allowed else allowed,
      [PerformRequest params])"
| "web_step authority sha256 allowed (UserRejects params) = (allowed, [AnswerDevice []])"

section \<open>Unlocking and the genuine check\<close>

text \<open>
  \<open>JadeUnlockTask::update\<close> and \<open>JadeSetupTask::update\<close> on a task that is ready: what becomes of
  it, whether the device is marked as being unlocked, and whether the user is authenticated on
  the device.  \<open>api\<close> says that the device has its protocol.
\<close>

datatype unlock_start = UnlockWaits | UnlockFinished | UnlockFailed bool | UnlockAuthenticates

definition jade_unlock_update :: "(device_state \<times> bool) option \<Rightarrow> bool \<Rightarrow> unlock_start" where
  "jade_unlock_update device has_network =
     (case device of None \<Rightarrow> UnlockWaits
      | Some (state, api) \<Rightarrow>
          if state = StateReady then UnlockFinished
          else if \<not> has_network then UnlockWaits
          else if \<not> api then UnlockFailed True
          else UnlockAuthenticates)"

definition jade_setup_update :: "device_state option \<Rightarrow> bool \<Rightarrow> unlock_start" where
  "jade_setup_update device has_network =
     (case device of None \<Rightarrow> UnlockWaits
      | Some state \<Rightarrow>
          if \<not> (state = StateUninitialized \<or> state = StateUnsaved) then UnlockFinished
          else if \<not> has_network then UnlockWaits
          else UnlockAuthenticates)"

text \<open>The answer to the authentication: whether the task finishes.\<close>

definition unlock_reply :: "cmap \<Rightarrow> bool" where
  "unlock_reply msg \<longleftrightarrow> ccontains msg ''result'' \<and> variant_is_true (cvalue msg ''result'')"

definition unlock_deployment :: "cmap \<Rightarrow> string" where
  "unlock_deployment vi =
     (let nets = variant_text (cvalue vi ''JADE_NETWORKS'')
      in if nets = ''ALL'' \<or> nets = ''MAIN'' then ''mainnet'' else ''testnet'')"

text \<open>
  The genuine check: the signatures that must both be good for the device to be genuine, as
  (key, message, signature), or how the check ends at once.
\<close>

datatype genuine_outcome =
    Verify "(string \<times> bytes \<times> bytes) list"
  | GenuineCancelled | GenuineUnsupported | GenuineFailed

definition text_bytes :: "string \<Rightarrow> bytes" where
  "text_bytes s = map (\<lambda>c. of_nat (of_char c)) s"

definition genuine_reply :: "string \<Rightarrow> bytes \<Rightarrow> cmap \<Rightarrow> genuine_outcome" where
  "genuine_reply ext_pubkey challenge msg =
     (if ccontains msg ''result'' then
        (let result = variant_map (cvalue msg ''result'');
             pem = variant_text (cvalue result ''pubkey_pem'')
         in Verify [(pem, challenge, variant_bytes (cvalue result ''signature'')),
                    (ext_pubkey, text_bytes pem, variant_bytes (cvalue result ''ext_signature''))])
      else if ccontains msg ''error'' then
        (let code = variant_int (cvalue (variant_map (cvalue msg ''error'')) ''code'')
         in if code = - 32000 then GenuineCancelled
            else if code = - 32603 then GenuineUnsupported else GenuineFailed)
      else GenuineFailed)"

section \<open>Logging in with a device\<close>

text \<open>
  What the login controller (\<open>src/loginwithpincontroller.cpp\<close>) makes of a device: a Jade by what it
  says of itself, a Ledger by the app it runs and whether it is a Nano S.
\<close>

datatype hw_device = JadeHw cmap | LedgerHw string bool

definition device_deployment :: "hw_device \<Rightarrow> string" where
  "device_deployment d =
     (case d of
        JadeHw vi \<Rightarrow> if variant_text (cvalue vi ''JADE_NETWORKS'') = ''TEST'' then ''testnet'' else ''mainnet''
      | LedgerHw app nano_s \<Rightarrow>
          if app = ''Bitcoin'' \<or> app = ''Bitcoin Legacy'' \<or> app = ''Liquid'' then ''mainnet''
          else if app = ''Bitcoin Test'' \<or> app = ''Bitcoin Test Legacy'' \<or> app = ''Liquid Test'' then ''testnet''
          else [])"

definition device_details_from_device :: "string \<Rightarrow> hw_device \<Rightarrow> jobject" where
  "device_details_from_device uuid d =
     (case d of
        JadeHw vi \<Rightarrow> jobj [(''device'', JObj (jobj [
          (''name'', JStr uuid), (''supports_arbitrary_scripts'', JBool True), (''supports_low_r'', JBool True),
          (''supports_liquid'', JInt 1), (''supports_ae_protocol'', JInt 1),
          (''supports_host_unblinding'',
            JBool (\<not> version_less (parse_version (jade_version vi)) [0, 1, 27]))]))]
      | LedgerHw app nano_s \<Rightarrow> jobj [(''device'', JObj (jobj [
          (''name'', JStr uuid), (''supports_arbitrary_scripts'', JBool True), (''supports_low_r'', JBool False),
          (''supports_liquid'', JInt (if nano_s then 1 else 0)), (''supports_host_unblinding'', JBool False),
          (''supports_external_blinding'', JBool False), (''supports_ae_protocol'', JInt 0)]))])"

end
