(* ===== verification/Jade_Control_Props.thy ===== *)
theory Jade_Control_Props
  imports Jade_Control
begin

text \<open>
  Properties of what surrounds a Jade device: the firmware that is offered, the lock an update
  sets, the index of firmwares, and the hosts a device may reach.
\<close>

section \<open>Versions\<close>

lemma version_less_trans: "version_less a b \<Longrightarrow> version_less b c \<Longrightarrow> version_less a c"
proof (induction a b arbitrary: c rule: version_less.induct)
  case (2 x xs)
  then show ?case by (cases c) auto
next
  case (3 a as b bs)
  then show ?case by (cases c) auto
qed simp

lemma version_less_irrefl [simp]: "\<not> version_less v v"
  by (induction v) auto

lemma latest_stable_greatest:
  assumes "f \<in> set (channel_entries index type ''stable'' ''full'')"
  shows "\<not> version_less (latest_stable index type) (firmware_version f)"
proof -
  let ?next = "\<lambda>latest f. if version_less latest (firmware_version f) then firmware_version f else latest"
  have "\<not> version_less (foldl ?next acc fs) v"
    if "\<not> version_less acc v \<or> (\<exists>g \<in> set fs. v = firmware_version g)" for acc fs v
    using that
  proof (induction fs arbitrary: acc)
    case (Cons g fs)
    have "\<not> version_less (?next acc g) v \<or> (\<exists>g \<in> set fs. v = firmware_version g)"
      using Cons.prems version_less_trans [of acc "firmware_version g" v] version_less_irrefl by auto
    from Cons.IH [OF this] show ?case by simp
  qed simp
  then show ?thesis using assms by (auto simp: latest_stable_def)
qed

section \<open>Offers\<close>

lemma process_firmware_fields:
  assumes "process_firmware type channel version config latest delta f = Some g"
  shows "k \<notin> {''type'', ''channel'', ''newer_version'', ''same_config'', ''delta'', ''installed'',
      ''downgrade'', ''upgrade'', ''compatible'', ''latest'', ''index''} \<Longrightarrow> jvalue g k = jvalue f k"
    and "field g ''type'' = type" "field g ''channel'' = channel"
    and "flag g ''newer_version'' \<longleftrightarrow> \<not> version_less (firmware_version f) (parse_version version)"
    and "flag g ''same_config'' \<longleftrightarrow> config = field f ''config''"
    and "flag g ''delta'' \<longleftrightarrow> delta"
    and "flag g ''installed'' \<longleftrightarrow> version = field f ''version'' \<and> config = field f ''config''"
    and "flag g ''downgrade'' \<longleftrightarrow> version_less (firmware_version f) (parse_version version)"
    and "flag g ''upgrade'' \<longleftrightarrow> \<not> version_less (firmware_version f) (parse_version version)"
    and "flag g ''compatible'' \<longleftrightarrow> \<not> version_less (firmware_version f) minimum_required_version"
    and "flag g ''latest'' \<longleftrightarrow> firmware_version f = latest"
    and "delta \<Longrightarrow> \<not> (version = field f ''version'' \<and> config = field f ''config'')"
proof -
  note * = assms [unfolded process_firmware_def Let_def, symmetric]
  show "k \<notin> {''type'', ''channel'', ''newer_version'', ''same_config'', ''delta'', ''installed'',
      ''downgrade'', ''upgrade'', ''compatible'', ''latest'', ''index''} \<Longrightarrow> jvalue g k = jvalue f k"
    and "field g ''type'' = type" "field g ''channel'' = channel"
    and "flag g ''newer_version'' \<longleftrightarrow> \<not> version_less (firmware_version f) (parse_version version)"
    and "flag g ''same_config'' \<longleftrightarrow> config = field f ''config''"
    and "flag g ''delta'' \<longleftrightarrow> delta"
    and "flag g ''downgrade'' \<longleftrightarrow> version_less (firmware_version f) (parse_version version)"
    and "flag g ''compatible'' \<longleftrightarrow> \<not> version_less (firmware_version f) minimum_required_version"
    and "flag g ''latest'' \<longleftrightarrow> firmware_version f = latest"
    using * by (simp_all add: jvalue_insert split: if_splits)
  show "flag g ''upgrade'' \<longleftrightarrow> \<not> version_less (firmware_version f) (parse_version version)"
    using * by (auto simp: jvalue_insert split: if_splits)
  show "flag g ''installed'' \<longleftrightarrow> version = field f ''version'' \<and> config = field f ''config''"
    and "delta \<Longrightarrow> \<not> (version = field f ''version'' \<and> config = field f ''config'')"
    using * by (auto simp: jvalue_insert firmware_version_def split: if_splits)
qed

lemma firmware_version_cong:
  "jvalue g ''version'' = jvalue f ''version'' \<Longrightarrow> firmware_version g = firmware_version f"
  by (simp add: firmware_version_def)

text \<open>What one entry of the list comes from.\<close>

definition offered ::
    "jobject \<Rightarrow> string \<Rightarrow> string \<Rightarrow> string \<Rightarrow> int list \<Rightarrow> string \<Rightarrow> (string \<times> string) list \<Rightarrow> jobject \<Rightarrow> bool" where
  "offered index type version config latest channel available g \<longleftrightarrow>
     (\<exists>f. (f \<in> set (channel_entries index type channel ''delta'') \<and>
           version = field f ''from_version'' \<and> config = field f ''from_config'' \<and>
           process_firmware type channel version config latest True
             (qm_insert ''has_delta'' (JBool False) f) = Some g) \<or>
          (f \<in> set (channel_entries index type channel ''full'') \<and>
           process_firmware type channel version config latest False
             (qm_insert ''has_delta'' (JBool (firmware_key f \<in> set available)) f) = Some g))"

definition listed_or_installed :: "string \<Rightarrow> string \<Rightarrow> jobject list \<Rightarrow> string \<times> string \<Rightarrow> bool" where
  "listed_or_installed version config fs k \<longleftrightarrow>
     k = (version, config) \<or> (\<exists>d \<in> set fs. flag d ''delta'' \<and> firmware_key d = k)"

lemma set_map_filter_iff: "y \<in> set (List.map_filter f xs) \<longleftrightarrow> (\<exists>x \<in> set xs. f x = Some y)"
  by (induction xs) (auto simp: map_filter_simps split: option.splits)

lemma process_channel_inv:
  assumes "process_channel index type version config latest channel (av, fs) = (av', fs')"
    and "list_all (listed_or_installed version config fs) av"
  shows "list_all (listed_or_installed version config fs') av'"
    and "set fs' = set fs \<union> {g. offered index type version config latest channel av' g}"
    and "set av \<subseteq> set av'"
proof -
  let ?D = "filter (\<lambda>f. version = field f ''from_version'' \<and> config = field f ''from_config'')
    (channel_entries index type channel ''delta'')"
  let ?P = "process_firmware type channel version config latest"
  have av': "av' = av @ map firmware_key ?D"
    and fs': "fs' = fs @ List.map_filter (\<lambda>f. ?P True (qm_insert ''has_delta'' (JBool False) f)) ?D @
      List.map_filter (\<lambda>f. ?P False (qm_insert ''has_delta'' (JBool (firmware_key f \<in> set av')) f))
        (channel_entries index type channel ''full'')"
    using assms(1) by (auto simp: process_channel_def Let_def)
  show "set av \<subseteq> set av'" by (simp add: av')
  show "set fs' = set fs \<union> {g. offered index type version config latest channel av' g}"
    unfolding fs' by (auto simp: offered_def set_map_filter_iff)
  have old: "listed_or_installed version config fs k \<Longrightarrow> listed_or_installed version config fs' k" for k
    by (auto simp: listed_or_installed_def fs')
  have "listed_or_installed version config fs' (firmware_key f)" if f: "f \<in> set ?D" for f
  proof (cases "?P True (qm_insert ''has_delta'' (JBool False) f)")
    case None
    then have "version = field f ''version'' \<and> config = field f ''config''"
      by (simp add: process_firmware_def Let_def jvalue_insert split: if_splits)
    then show ?thesis by (simp add: listed_or_installed_def firmware_key_def)
  next
    case (Some g)
    then have "g \<in> set fs'" using f by (auto simp: fs' set_map_filter_iff)
    moreover have "flag g ''delta''" "firmware_key g = firmware_key f"
      using process_firmware_fields [OF Some]
      by (simp_all add: firmware_key_def jvalue_insert)
    ultimately show ?thesis by (auto simp: listed_or_installed_def)
  qed
  with assms(2) old show "list_all (listed_or_installed version config fs') av'"
    by (auto simp: av' list_all_iff)
qed

lemma process_channels_inv:
  assumes "fold (process_channel index type version config latest) cs (av, fs) = (av', fs')"
    and "list_all (listed_or_installed version config fs) av"
    and "\<And>g. g \<in> set fs \<Longrightarrow> \<exists>c a. c \<in> set cs0 \<and> set a \<subseteq> set av \<and> offered index type version config latest c a g"
  shows "list_all (listed_or_installed version config fs') av'"
    and "g \<in> set fs' \<Longrightarrow>
      \<exists>c a. c \<in> set (cs0 @ cs) \<and> set a \<subseteq> set av' \<and> offered index type version config latest c a g"
proof -
  have "list_all (listed_or_installed version config fs') av' \<and>
    (\<forall>g \<in> set fs'. \<exists>c a. c \<in> set (cs0 @ cs) \<and> set a \<subseteq> set av' \<and>
      offered index type version config latest c a g)"
    using assms
  proof (induction cs arbitrary: av fs cs0)
    case Nil
    then show ?case by auto
  next
    case (Cons c cs)
    obtain av1 fs1 where one: "process_channel index type version config latest c (av, fs) = (av1, fs1)"
      by fastforce
    note inv = process_channel_inv [OF one Cons.prems(2)]
    have rest: "fold (process_channel index type version config latest) cs (av1, fs1) = (av', fs')"
      using Cons.prems(1) one by simp
    have "\<exists>c' a. c' \<in> set (cs0 @ [c]) \<and> set a \<subseteq> set av1 \<and> offered index type version config latest c' a g"
      if "g \<in> set fs1" for g
    proof (cases "g \<in> set fs")
      case True
      from Cons.prems(3) [OF True] obtain c' a where "c' \<in> set cs0" "set a \<subseteq> set av"
        "offered index type version config latest c' a g" by blast
      with inv(3) show ?thesis by (intro exI [of _ c'] exI [of _ a]) auto
    next
      case False
      with that have "offered index type version config latest c av1 g" unfolding inv(2) by simp
      then show ?thesis by (intro exI [of _ c] exI [of _ av1]) simp
    qed
    from Cons.IH [OF rest inv(1) this] show ?case by auto
  qed
  then show "list_all (listed_or_installed version config fs') av'"
    and "g \<in> set fs' \<Longrightarrow>
      \<exists>c a. c \<in> set (cs0 @ cs) \<and> set a \<subseteq> set av' \<and> offered index type version config latest c a g"
    by auto
qed

lemma check_firmwares_inv:
  assumes "f \<in> set (check_firmwares debug_jade (Some vi) index)"
  defines "type \<equiv> type_from_version_info vi" and "version \<equiv> jade_version vi"
    and "config \<equiv> to_lower (variant_text (cvalue vi ''JADE_CONFIG''))"
  obtains c a where "c \<in> set (firmware_channels debug_jade)"
    and "offered index type version config (latest_stable index type) c a f"
    and "list_all (listed_or_installed version config (check_firmwares debug_jade (Some vi) index)) a"
proof -
  let ?step = "process_channel index type version config (latest_stable index type)"
  obtain av fs where run: "fold ?step (firmware_channels debug_jade) ([], []) = (av, fs)" by fastforce
  have fs: "check_firmwares debug_jade (Some vi) index = fs"
    using assms(1) run
    by (auto simp: check_firmwares_def Let_def type_def version_def config_def split: if_splits)
  note inv = process_channels_inv [OF run, of "[]"]
  from inv(2) [of f] assms(1) obtain c a where ca: "c \<in> set (firmware_channels debug_jade)"
    "set a \<subseteq> set av" "offered index type version config (latest_stable index type) c a f"
    by (auto simp: fs)
  have "list_all (listed_or_installed version config fs) av" by (rule inv(1)) auto
  with ca(2) have "list_all (listed_or_installed version config fs) a" by (auto simp: list_all_iff)
  with ca that fs show thesis by blast
qed

lemmas offered_fields = process_firmware_fields jvalue_insert

text \<open>
  C23.  What the program offers to install.  Every firmware it lists is for the board of the
  device and from a channel it may use (the stable one alone, unless beta testing); it counts as an
  upgrade exactly when it is not older than what runs (the installed version itself included) and
  as compatible from version 1.0.37 on; a delta is listed only when it starts from exactly what is
  installed, and never leads back to it; a full image is hidden in favour of a delta only when
  that delta is listed too, or the image is what is installed; and no stable image is newer than
  one that is called the latest.
\<close>

theorem firmware_offers:
  assumes "f \<in> set (check_firmwares debug_jade (Some vi) index)"
  shows "field f ''type'' = type_from_version_info vi \<and>
    field f ''channel'' \<in> set (firmware_channels debug_jade) \<and>
    (flag f ''upgrade'' \<longleftrightarrow> \<not> version_less (firmware_version f) (parse_version (jade_version vi))) \<and>
    (flag f ''compatible'' \<longleftrightarrow> \<not> version_less (firmware_version f) [1, 0, 37]) \<and>
    (flag f ''delta'' \<longrightarrow> field f ''from_version'' = jade_version vi \<and>
      field f ''from_config'' = to_lower (variant_text (cvalue vi ''JADE_CONFIG'')) \<and>
      \<not> flag f ''installed'') \<and>
    (flag f ''has_delta'' \<longrightarrow> flag f ''installed'' \<or>
      (\<exists>d \<in> set (check_firmwares debug_jade (Some vi) index).
        flag d ''delta'' \<and> firmware_key d = firmware_key f)) \<and>
    (flag f ''latest'' \<longrightarrow>
      (\<forall>g \<in> set (channel_entries index (type_from_version_info vi) ''stable'' ''full'').
        \<not> version_less (firmware_version f) (firmware_version g)))"
proof (intro conjI)
  let ?config = "to_lower (variant_text (cvalue vi ''JADE_CONFIG''))"
  let ?P = "process_firmware (type_from_version_info vi)"
  let ?latest = "latest_stable index (type_from_version_info vi)"
  obtain c a where c: "c \<in> set (firmware_channels debug_jade)"
    and off: "offered index (type_from_version_info vi) (jade_version vi) ?config ?latest c a f"
    and av: "list_all (listed_or_installed (jade_version vi) ?config
      (check_firmwares debug_jade (Some vi) index)) a"
    using assms by (rule check_firmwares_inv)
  from off obtain f0 delta has where f: "?P c (jade_version vi) ?config ?latest delta
      (qm_insert ''has_delta'' (JBool has) f0) = Some f"
    and delta: "delta \<longrightarrow> \<not> has \<and> jade_version vi = field f0 ''from_version'' \<and> ?config = field f0 ''from_config''"
    and full: "\<not> delta \<longrightarrow> has = (firmware_key f0 \<in> set a)"
    unfolding offered_def by blast
  note fields = process_firmware_fields [OF f]
  have version: "firmware_version f = firmware_version (qm_insert ''has_delta'' (JBool has) f0)"
    by (rule firmware_version_cong) (simp add: fields(1))
  have key: "firmware_key f = firmware_key f0"
    by (simp add: firmware_key_def fields(1) jvalue_insert)
  show "field f ''type'' = type_from_version_info vi" by (rule fields(2))
  show "field f ''channel'' \<in> set (firmware_channels debug_jade)" using c fields(3) by simp
  show "flag f ''upgrade'' \<longleftrightarrow> \<not> version_less (firmware_version f) (parse_version (jade_version vi))"
    using fields(9) version by simp
  show "flag f ''compatible'' \<longleftrightarrow> \<not> version_less (firmware_version f) [1, 0, 37]"
    using fields(10) version by (simp add: minimum_required_version_def)
  show "flag f ''delta'' \<longrightarrow> field f ''from_version'' = jade_version vi \<and>
      field f ''from_config'' = ?config \<and> \<not> flag f ''installed''"
    using delta fields(1,6,7,12) by (simp add: jvalue_insert)
  show "flag f ''has_delta'' \<longrightarrow> flag f ''installed'' \<or>
      (\<exists>d \<in> set (check_firmwares debug_jade (Some vi) index).
        flag d ''delta'' \<and> firmware_key d = firmware_key f)"
  proof
    assume "flag f ''has_delta''"
    then have "has" using fields(1) by (simp add: jvalue_insert)
    with delta full av have "listed_or_installed (jade_version vi) ?config
        (check_firmwares debug_jade (Some vi) index) (firmware_key f0)"
      by (auto simp: list_all_iff)
    then show "flag f ''installed'' \<or> (\<exists>d \<in> set (check_firmwares debug_jade (Some vi) index).
        flag d ''delta'' \<and> firmware_key d = firmware_key f)"
      using fields(7) key by (auto simp: listed_or_installed_def firmware_key_def jvalue_insert)
  qed
  show "flag f ''latest'' \<longrightarrow>
      (\<forall>g \<in> set (channel_entries index (type_from_version_info vi) ''stable'' ''full'').
        \<not> version_less (firmware_version f) (firmware_version g))"
    using fields(11) version latest_stable_greatest by metis
qed

definition sample_delta :: jobject where
  "sample_delta = jobj [(''version'', JStr ''1.0.38''), (''config'', JStr ''ble''),
     (''from_version'', JStr ''1.0.37''), (''from_config'', JStr ''ble'')]"

definition sample_index :: jobject where
  "sample_index = jobj [(''jade'', JObj (jobj [(''stable'', JObj (jobj [
     (''delta'', JArr [JObj sample_delta])]))]))]"

definition sample_version_info :: cmap where
  "sample_version_info = [(''JADE_VERSION'', CStr ''1.0.37''), (''JADE_CONFIG'', CStr ''BLE''),
     (''JADE_FEATURES'', CStr ''SB'')]"

theorem firmware_offers_witness:
  "\<exists>f \<in> set (check_firmwares False (Some sample_version_info) sample_index).
     flag f ''delta'' \<and> field f ''from_version'' = ''1.0.37'' \<and> \<not> flag f ''installed''"
proof -
  let ?fs = "check_firmwares False (Some sample_version_info) sample_index"
  let ?gs = "snd (process_channel sample_index ''jade'' ''1.0.37'' ''ble'' [] ''stable'' ([], []))"
  have known: "type_from_version_info sample_version_info = ''jade''"
    "jade_version sample_version_info = ''1.0.37''"
    "to_lower (variant_text (cvalue sample_version_info ''JADE_CONFIG'')) = ''ble''"
    "latest_stable sample_index ''jade'' = []" "sample_index \<noteq> []" by code_simp+
  have fs: "?fs = ?gs"
    using known by (simp add: check_firmwares_def Let_def firmware_channels_def)
  have entries: "channel_entries sample_index ''jade'' ''stable'' ''delta'' = [sample_delta]"
    by (simp add: channel_entries_def sample_index_def jvalue_jobj)
  obtain f where f: "process_firmware ''jade'' ''stable'' ''1.0.37'' ''ble'' [] True
      (qm_insert ''has_delta'' (JBool False) sample_delta) = Some f"
    by (simp add: process_firmware_def Let_def jvalue_insert jvalue_jobj sample_delta_def)
  then have "f \<in> set ?fs" unfolding fs
    by (simp add: process_channel_def Let_def entries sample_delta_def jvalue_jobj map_filter_simps)
  moreover have "flag f ''delta''" using process_firmware_fields(6) [OF f] by simp
  ultimately show ?thesis using firmware_offers [of _ False sample_version_info sample_index] known(2) by metis
qed

section \<open>The lock\<close>

text \<open>Nothing the protocol does by itself touches the lock.\<close>

named_theorems lock_simps "the lock of a device is kept"

lemma redraw_locked [lock_simps]: "j_locked (snd (redraw pick k i s)) = j_locked s"
  by (induction pick k i s rule: redraw.induct) auto

lemma register_locked [lock_simps]: "j_locked (snd (register_response_handler pick h t s)) = j_locked s"
  using redraw_locked [of pick 5 "pick (j_draws s)" "s\<lparr>j_draws := j_draws s + 1\<rparr>"]
  by (simp add: register_response_handler_def Let_def case_prod_beta)

lemma send_locked [lock_simps]: "j_locked (fst (jade_send msg s)) = j_locked s"
  by (simp add: jade_send_def Let_def)

lemma enqueue_locked [lock_simps]: "j_locked (fst (jade_enqueue msg s)) = j_locked s"
  by (simp add: jade_enqueue_def Let_def send_locked restart_idle_def)

lemma drain_locked [lock_simps]: "j_locked (fst (jade_drain s)) = j_locked s"
  by (simp add: jade_drain_def send_locked split: list.splits)

lemma ask_locked [lock_simps]: "j_locked (fst (ask_jade pick h meth params s)) = j_locked s"
  by (simp add: ask_jade_def case_prod_beta lock_simps)

lemma state_locked [lock_simps]:
  "j_locked (take_handler i s) = j_locked s" "j_locked (remove_proxy i s) = j_locked s"
  "j_locked (restart_idle s) = j_locked s"
  by (simp_all add: take_handler_def remove_proxy_def restart_idle_def)

lemma handle_locked [lock_simps]: "j_locked (fst (fst (handle pick h msg s))) = j_locked s"
  by (cases h)
    (simp_all add: handle_ota_chunk_def handle_sign_initial_def handle_commitment_def
      handle_signature_def handle_message_commitment_def handle_message_signature_def ota_next_def
      send_tx_input_def send_tx_signature_request_def case_prod_beta Let_def lock_simps)

lemma run_handler_locked [lock_simps]: "j_locked (fst (run_handler pick h msg s)) = j_locked s"
proof (induction pick h msg s rule: run_handler.induct)
  case (1 pick h msg s)
  obtain s1 out f where hd: "handle pick h msg s = ((s1, out), f)" by (metis surj_pair)
  have s1: "j_locked s1 = j_locked s" using handle_locked [of pick h msg s] hd by simp
  show ?case
  proof (cases f)
    case None
    then show ?thesis using hd s1 by (simp add: run_handler.simps)
  next
    case (Some p)
    obtain t msg' where p: "p = (t, msg')" by fastforce
    show ?thesis
    proof (cases "map_of (j_response_handlers s) t")
      case None
      then show ?thesis using hd Some p
        by (simp add: run_handler.simps [of pick h msg s] state_locked)
    next
      case (Some h')
      have "j_locked (fst (run_handler pick h' (set_id t msg')
          (remove_proxy t (take_handler t (restart_idle s))))) = j_locked s"
        using 1 [OF hd [symmetric] refl] \<open>f = Some p\<close> p Some by (simp add: state_locked)
      then show ?thesis using hd \<open>f = Some p\<close> p Some
        by (simp add: run_handler.simps [of pick h msg s] case_prod_beta)
    qed
  qed
qed

lemma jade_step_locked:
  assumes "\<And>b. e \<noteq> SetLocked b"
  shows "j_locked (fst (jade_step pick sha256 s e)) = j_locked s"
proof (cases e)
  case (JadeCall cb c)
  then show ?thesis
    by (cases c)
      (simp_all add: set_mnemonic_def ping_def get_version_info_def add_entropy_def auth_user_def
        jade_logout_def sign_attestation_def ota_update_def get_receive_address_def
        get_receive_address_variant_def get_xpub_def jade_sign_message_def sign_tx_def
        jade_get_blinding_key_def get_shared_nonce_def get_blinding_factor_def get_commitments_def
        jade_get_master_blinding_key_def simple_call_def case_prod_beta Let_def lock_simps)
next
  case (JadeMessage msg)
  have "j_locked (fst (call_response_handler pick msg s)) = j_locked s" for s
    by (simp add: call_response_handler_def Let_def lock_simps split: option.splits)
  moreover have "j_locked (fst (handle_http_response pick i q r s)) = j_locked s" for i q r s
    by (simp add: handle_http_response_def Let_def case_prod_beta lock_simps split: cbor.splits)
  ultimately show ?thesis
    unfolding JadeMessage
    by (simp add: process_response_message_def Let_def case_prod_beta lock_simps
        split: cbor.splits option.splits)
next
  case (JadeTimer i)
  then show ?thesis
    by (simp add: timer_fired_def case_prod_beta lock_simps split: option.splits)
next
  case (HttpResponse i q r)
  then show ?thesis
    by (simp add: handle_http_response_def Let_def case_prod_beta lock_simps split: cbor.splits)
next
  case Drain
  then show ?thesis by (simp add: lock_simps)
next
  case (SetLocked b)
  with assms show ?thesis by blast
qed

fun ends_install :: "update_event \<Rightarrow> bool" where
  "ends_install (UpdateDone r) \<longleftrightarrow> ota_result r \<noteq> OtaFinished"
| "ends_install ReleaseTimer \<longleftrightarrow> True"
| "ends_install _ \<longleftrightarrow> False"

lemma install_locked: "j_locked (uc_jade (fst (install pick sha256 cb data c)))"
proof -
  let ?j = "(uc_jade c)\<lparr>j_locked := True\<rparr>"
  have "j_locked (fst (make_jade_call pick sha256 cb call ?j))" for call
    using jade_step_locked [of "JadeCall cb call" pick sha256 ?j] by simp
  then show ?thesis by (simp add: install_def set_jade_lock_def Let_def case_prod_beta)
qed

lemma update_step_unlocks: "ends_install e \<Longrightarrow> \<not> j_locked (uc_jade (fst (update_step pick sha256 c e)))"
  by (cases e)
    (auto simp: update_done_def update_ended_def release_timer_def set_jade_lock_def
      split: ota_outcome.splits)

interpretation update_lock: keeps "update_step pick sha256" "\<lambda>e. \<not> ends_install e"
  "\<lambda>c :: update_ctl. j_locked (uc_jade c)" for pick sha256
proof
  fix c :: update_ctl and e
  assume c: "j_locked (uc_jade c)" and e: "\<not> ends_install e"
  show "j_locked (uc_jade (fst (update_step pick sha256 c e)))"
  proof (cases e)
    case (DeviceDid d)
    with c jade_step_locked [of d pick sha256 "uc_jade c"] show ?thesis
      by (cases d) (simp_all add: case_prod_beta Let_def)
  next
    case (DownloadFinished cb img)
    with c install_locked show ?thesis
      by (cases img) (simp_all add: download_finished_def download_failed_def case_prod_beta Let_def)
  qed (use c e install_locked in \<open>auto simp: start_update_def set_jade_lock_def download_failed_def
      update_progress_def update_done_def Let_def split: ota_outcome.splits\<close>)
qed

text \<open>
  A download that fails leaves the device locked.  The controller locks the device before
  it downloads the image, but unlocks it only when an installation ends.  After a download that
  failed, or ended with an error, the page is not updating any more, yet through everything that
  can happen until an installation ends, pings of the device are answered by the program itself,
  probes do nothing, and the search for devices on the serial ports never gets to list them.
\<close>

lemma failed_download_keeps_lock:
  assumes "e = DownloadFailed \<or> (\<exists>cb. e = DownloadFinished cb None)"
    and "list_all (\<lambda>e. \<not> ends_install e) es"
    and "fst (run (update_step pick sha256) c (Update # e # es)) = c1"
    and "map_of bs l = Some b" and "b_jade b = uc_jade c1"
  shows "\<not> uc_updating (fst (run (update_step pick sha256) c [Update, e])) \<and>
    j_locked (uc_jade c1) \<and> scan bs = [ScanIn 10000] \<and>
    ping pick cb (uc_jade c1) = (uc_jade c1, [QueueCall cb [(''result'', CInt 1)]]) \<and>
    probe pick cb (uc_jade c1) = (uc_jade c1, []) \<and>
    (ends_install x \<longrightarrow> \<not> j_locked (uc_jade (fst (update_step pick sha256 c1 x))))"
proof (intro conjI)
  show "\<not> uc_updating (fst (run (update_step pick sha256) c [Update, e]))"
    using assms(1) by (auto simp: download_failed_def download_finished_def)
  have "j_locked (uc_jade (fst (start_update c)))" by (simp add: start_update_def set_jade_lock_def)
  moreover have "\<not> ends_install e" using assms(1) by auto
  ultimately show lock: "j_locked (uc_jade c1)"
    using update_lock.inv_run [of "fst (start_update c)" "e # es" pick sha256] assms(2,3) by simp
  have "(l, b) \<in> set bs" using assms(4) by (rule map_of_SomeD)
  then show "scan bs = [ScanIn 10000]"
    using lock assms(5) by (auto simp: scan_def list_ex_iff intro!: bexI [of _ "(l, b)"])
  show "ping pick cb (uc_jade c1) = (uc_jade c1, [QueueCall cb [(''result'', CInt 1)]])"
    and "probe pick cb (uc_jade c1) = (uc_jade c1, [])"
    using lock by (simp_all add: ping_def probe_def)
qed (simp add: update_step_unlocks)

section \<open>Hosts\<close>

lemma set_allow_hosts: "set (allow_hosts sha256 hosts allowed) = set allowed \<union> sha256 ` set hosts"
  by (induction hosts arbitrary: allowed) (auto simp: allow_hosts_def)

lemma hosts_after:
  "set (fst (run (web_step authority sha256) allowed es)) = set allowed \<union>
     {sha256 h | h p. UserAccepts p True \<in> set es \<and> h \<in> set (request_hosts authority p)}"
proof (induction es arbitrary: allowed)
  case (Cons e es)
  show ?case
  proof (cases e)
    case (UserAccepts p r)
    then show ?thesis by (cases r) (auto simp: Cons.IH set_allow_hosts)
  qed (auto simp: Cons.IH)
qed simp

text \<open>
  Which web requests of a device go through unasked.  After any history, a request is
  performed without asking the user exactly when one of the hosts it names is built in or has the
  hash of a host that was in a request the user accepted for good; the other hosts of the request
  play no part, so that a device may name a host of its own beside one that is trusted.  Otherwise
  the user is asked, and what a rejection hands to the device is empty.
\<close>

lemma unasked_requests:
  "snd (web_step authority sha256 (fst (run (web_step authority sha256) [] es)) (DeviceAsks params)) =
    (if \<exists>h \<in> set (request_hosts authority params).
        h = ''jadepin.blockstream.com'' \<or> h = ''j8d.io'' \<or>
        (\<exists>p h'. UserAccepts p True \<in> set es \<and> h' \<in> set (request_hosts authority p) \<and> sha256 h' = sha256 h)
     then [PerformRequest params] else [AskUser params]) \<and>
   snd (web_step authority sha256 allowed (UserRejects params)) = [AnswerDevice []]"
proof (intro conjI)
  have "is_host_allowed sha256 (fst (run (web_step authority sha256) [] es)) h \<longleftrightarrow>
      h = ''jadepin.blockstream.com'' \<or> h = ''j8d.io'' \<or>
      (\<exists>p h'. UserAccepts p True \<in> set es \<and> h' \<in> set (request_hosts authority p) \<and> sha256 h' = sha256 h)" for h
    unfolding is_host_allowed_def hosts_after by auto metis+
  then show "snd (web_step authority sha256 (fst (run (web_step authority sha256) [] es)) (DeviceAsks params)) =
    (if \<exists>h \<in> set (request_hosts authority params).
        h = ''jadepin.blockstream.com'' \<or> h = ''j8d.io'' \<or>
        (\<exists>p h'. UserAccepts p True \<in> set es \<and> h' \<in> set (request_hosts authority p) \<and> sha256 h' = sha256 h)
     then [PerformRequest params] else [AskUser params])"
    by (simp add: are_hosts_allowed_def list_ex_iff)
qed simp

end
