(* ===== verification/Wallets.thy ===== *)
theory Wallets
  imports Session "HOL-Library.Monad_Syntax"
begin

text \<open>
  Wallets and how they are kept on disk (\<open>src/wallet.{h,cpp}\<close>,
  \<open>src/walletmanager.{h,cpp}\<close>, \<open>src/networkmanager.cpp\<close>): the data with which a wallet logs in,
  the record it writes into the directory \<open>wallets2\<close>, the manager that reads the directory at
  the start and lists the wallets, unique names, and the migration of the older directory.

  \<open>Wallet\<close> objects are shared through pointers: \<open>m_objs\<close> is the store of the objects, by
  index, and \<open>m_wallets\<close> the list the manager shows.  \<open>m_files\<close> is the directory: the name
  of a file and its content, \<open>None\<close> where that is not the text of a JSON object.  A function
  that returns \<open>None\<close> stops the process: a violated \<open>Q_ASSERT\<close> or a null pointer followed.
  Signals that only repaint views are left out; \<open>contextChanged\<close> has a listener and is kept.
\<close>

section \<open>Networks by name\<close>

text \<open>The networks the library describes, but those of signet.\<close>

definition new_network_manager :: "jobject \<Rightarrow> network list" where
  "new_network_manager networks =
     map new_network
       (filter (\<lambda>data. \<not> contains_text ''signet'' (to_string (jvalue data ''network'')))
         (map (\<lambda>key. to_object (jvalue networks (to_string key)))
           (to_array (jvalue networks ''all_networks''))))"

definition network_by_id :: "network list \<Rightarrow> string \<Rightarrow> network option" where
  "network_by_id nets i = find (\<lambda>n. n_id n = i) nets"

definition network_with_server_type ::
    "network list \<Rightarrow> string \<Rightarrow> string \<Rightarrow> string \<Rightarrow> network option" where
  "network_with_server_type nets dep key server_type =
     find (\<lambda>n. deployment n = dep \<and> n_key n = key \<and>
       to_string (jvalue (n_data n) ''server_type'') = server_type) nets"

text \<open>\<open>None\<close> is \<open>Q_UNREACHABLE\<close>, an inner \<open>None\<close> a null pointer in the list.\<close>

definition networks_for_deployment ::
    "network list \<Rightarrow> string \<Rightarrow> network option list option" where
  "networks_for_deployment nets dep =
     (if dep = ''mainnet'' then
        Some (map (network_by_id nets) [''electrum-mainnet'', ''electrum-liquid'', ''liquid''])
      else if dep = ''testnet'' then
        Some (map (network_by_id nets)
          [''electrum-testnet'', ''electrum-testnet-liquid'', ''testnet-liquid''])
      else None)"

section \<open>What a wallet logs in with\<close>

record pin_data =
  p_network :: "network option"
  p_passphrase :: bool
  p_data :: jobject
  p_attempts :: int

record watchonly_data =
  wo_network :: "network option"
  wo_username :: string
  wo_core_descriptors :: "string list"
  wo_extended_pubkeys :: "string list"

datatype login_data = PinData pin_data | DeviceData jobject | WatchonlyData watchonly_data

definition new_pin_data :: pin_data where
  "new_pin_data = \<lparr>p_network = None, p_passphrase = False, p_data = [], p_attempts = 3\<rparr>"

definition new_watchonly_data :: watchonly_data where
  "new_watchonly_data = \<lparr>wo_network = None, wo_username = [], wo_core_descriptors = [],
     wo_extended_pubkeys = []\<rparr>"

definition json_strings :: "string list \<Rightarrow> json" where
  "json_strings xs = JArr (map JStr xs)"

definition to_string_list :: "json \<Rightarrow> string list" where
  "to_string_list v = map to_string (to_array v)"

text \<open>
  \<open>write\<close> inserts the login into the record; its result says whether it did.  A login without
  a network follows a null pointer.
\<close>

definition pin_write :: "pin_data \<Rightarrow> jobject \<Rightarrow> (bool \<times> jobject) option" where
  "pin_write p data = do {
     n \<leftarrow> p_network p;
     Some (True, json_insert ''pin'' (JObj (jobj [
       (''network'', JStr (n_id n)),
       (''data'', JObj (p_data p)),
       (''attempts'', JInt (p_attempts p)),
       (''passphrase'', JBool (p_passphrase p))])) data)}"

definition pin_read :: "network list \<Rightarrow> jobject \<Rightarrow> pin_data" where
  "pin_read nets data =
     (let pin = to_object (jvalue data ''pin'')
      in \<lparr>p_network = network_by_id nets (to_string (jvalue pin ''network'')),
          p_passphrase = to_bool (jvalue pin ''passphrase''),
          p_data = to_object (jvalue pin ''data''),
          p_attempts = to_int (jvalue pin ''attempts'')\<rparr>)"

definition device_write :: "jobject \<Rightarrow> jobject \<Rightarrow> (bool \<times> jobject) option" where
  "device_write device data = Some (True, json_insert ''device'' (JObj device) data)"

definition device_read :: "jobject \<Rightarrow> jobject" where
  "device_read data = to_object (jvalue data ''device'')"

definition watchonly_write :: "watchonly_data \<Rightarrow> jobject \<Rightarrow> (bool \<times> jobject) option" where
  "watchonly_write w data = do {
     n \<leftarrow> wo_network w;
     Some (if n_electrum n \<and> wo_core_descriptors w \<noteq> [] then
         (True, json_insert ''watchonly'' (JObj (jobj [
            (''network'', JStr (n_id n)),
            (''core_descriptors'', json_strings (wo_core_descriptors w))])) data)
       else if n_electrum n \<and> wo_extended_pubkeys w \<noteq> [] then
         (True, json_insert ''watchonly'' (JObj (jobj [
            (''network'', JStr (n_id n)),
            (''extended_pubkeys'', json_strings (wo_extended_pubkeys w))])) data)
       else if \<not> n_electrum n then
         (True, json_insert ''watchonly'' (JObj (jobj [
            (''network'', JStr (n_id n)),
            (''username'', JStr (wo_username w))])) data)
       else (False, data))}"

definition watchonly_read :: "network list \<Rightarrow> jobject \<Rightarrow> watchonly_data" where
  "watchonly_read nets data =
     (let watchonly = to_object (jvalue data ''watchonly'')
      in \<lparr>wo_network = network_by_id nets (to_string (jvalue watchonly ''network'')),
          wo_username = to_string (jvalue watchonly ''username''),
          wo_core_descriptors = to_string_list (jvalue watchonly ''core_descriptors''),
          wo_extended_pubkeys = to_string_list (jvalue watchonly ''extended_pubkeys'')\<rparr>)"

fun login_write :: "login_data \<Rightarrow> jobject \<Rightarrow> (bool \<times> jobject) option" where
  "login_write (PinData p) data = pin_write p data"
| "login_write (DeviceData d) data = device_write d data"
| "login_write (WatchonlyData w) data = watchonly_write w data"

section \<open>Wallets\<close>

text \<open>
  \<open>w_hashes\<close> lists the elements of a \<open>QSet\<close> once each: the order in which the set is
  written is up to Qt and nothing depends on it.  \<open>w_context\<close> is the \<open>Context\<close> the wallet
  is logged in with.
\<close>

record wallet =
  w_persisted :: bool
  w_deployment :: string
  w_id :: string
  w_name :: string
  w_login :: "login_data option"
  w_xpub_hash_id :: string
  w_hashes :: "string list"
  w_context :: "nat option"

definition new_wallet :: wallet where
  "new_wallet = \<lparr>w_persisted = False, w_deployment = [], w_id = [], w_name = [], w_login = None,
     w_xpub_hash_id = [], w_hashes = [], w_context = None\<rparr>"

definition set_insert :: "'a \<Rightarrow> 'a list \<Rightarrow> 'a list" where
  "set_insert x xs = (if x \<in> set xs then xs else xs @ [x])"

text \<open>The object \<open>save\<close> writes; the result of \<open>LoginData::write\<close> is ignored there.\<close>

definition wallet_json :: "wallet \<Rightarrow> jobject option" where
  "wallet_json w =
     (let data0 = jobj [(''name'', JStr (w_name w)), (''deployment'', JStr (w_deployment w)),
                        (''hashes'', json_strings (w_hashes w))];
          data1 = (if w_xpub_hash_id w \<noteq> [] then
                     json_insert ''xpub_hash_id'' (JStr (w_xpub_hash_id w)) data0 else data0)
      in case w_login w of None \<Rightarrow> Some data1
         | Some l \<Rightarrow> map_option snd (login_write l data1))"

record manager =
  m_objs :: "wallet list"
  m_wallets :: "nat list"
  m_files :: "(string, jobject option) qmap"
  m_conns :: "nat list"
  m_open_url :: string

definition modify_wallet :: "nat \<Rightarrow> (wallet \<Rightarrow> wallet) \<Rightarrow> manager \<Rightarrow> manager" where
  "modify_wallet i f m = m\<lparr>m_objs := (m_objs m)[i := f (m_objs m ! i)]\<rparr>"

definition save :: "nat \<Rightarrow> manager \<Rightarrow> manager option" where
  "save i m =
     (let w = m_objs m ! i
      in if w_id w = [] then None
         else if \<not> w_persisted w then Some m
         else do {
           data \<leftarrow> wallet_json w;
           Some (m\<lparr>m_files := qm_insert (w_id w) (Some data) (m_files m)\<rparr>)})"

definition set_name :: "nat \<Rightarrow> string \<Rightarrow> manager \<Rightarrow> manager" where
  "set_name i name = modify_wallet i (w_name_update (\<lambda>_. name))"

definition set_login :: "nat \<Rightarrow> login_data option \<Rightarrow> manager \<Rightarrow> manager" where
  "set_login i l = modify_wallet i (w_login_update (\<lambda>_. l))"

definition set_xpub_hash_id :: "nat \<Rightarrow> string \<Rightarrow> manager \<Rightarrow> manager option" where
  "set_xpub_hash_id i x m =
     (if w_xpub_hash_id (m_objs m ! i) = x then Some m
      else save i (modify_wallet i (w_xpub_hash_id_update (\<lambda>_. x)) m))"

section \<open>The list of wallets\<close>

text \<open>The file of a wallet that is still listed as persisted must exist.\<close>

definition remove_wallet :: "nat \<Rightarrow> manager \<Rightarrow> manager option" where
  "remove_wallet i m =
     (let m1 = m\<lparr>m_wallets := remove1 i (m_wallets m)\<rparr>; w = m_objs m ! i
      in if \<not> w_persisted w then Some m1
         else if map_of (m_files m) (w_id w) = None then None
         else Some (m1\<lparr>m_files := qm_remove (w_id w) (m_files m1)\<rparr>))"

text \<open>
  The handlers of \<open>contextChanged\<close>, one for every \<open>addWallet\<close> that added the wallet: a
  wallet that is not persisted leaves the list when its context goes.
\<close>

fun context_changed :: "nat list \<Rightarrow> nat \<Rightarrow> manager \<Rightarrow> manager option" where
  "context_changed [] i m = Some m"
| "context_changed (c # cs) i m =
     (if c = i \<and> w_context (m_objs m ! i) = None \<and> \<not> w_persisted (m_objs m ! i) then do {
        m1 \<leftarrow> remove_wallet i m;
        context_changed cs i m1}
      else context_changed cs i m)"

definition set_context :: "nat \<Rightarrow> nat option \<Rightarrow> manager \<Rightarrow> manager option" where
  "set_context i c m =
     (if w_context (m_objs m ! i) = c then Some m
      else (let m1 = modify_wallet i (w_context_update (\<lambda>_. c)) m
            in context_changed (m_conns m1) i m1))"

text \<open>\<open>Wallet::disconnect\<close>; logging the device out is an activity of its own.\<close>

definition disconnect :: "nat \<Rightarrow> manager \<Rightarrow> manager option" where
  "disconnect i m =
     (if w_context (m_objs m ! i) = None then Some m else set_context i None m)"

definition add_wallet :: "nat \<Rightarrow> manager \<Rightarrow> manager" where
  "add_wallet i m =
     (if i \<in> set (m_wallets m) then m
      else m\<lparr>m_wallets := m_wallets m @ [i], m_conns := m_conns m @ [i]\<rparr>)"

text \<open>\<open>uuid\<close> stands for the text of a new random identifier.\<close>

definition create_wallet :: "string \<Rightarrow> manager \<Rightarrow> nat \<times> manager" where
  "create_wallet uuid m =
     (length (m_objs m), m\<lparr>m_objs := m_objs m @ [new_wallet\<lparr>w_id := uuid\<rparr>]\<rparr>)"

definition insert_wallet :: "nat \<Rightarrow> manager \<Rightarrow> manager option" where
  "insert_wallet i m =
     (if w_id (m_objs m ! i) = [] then None else save i (add_wallet i m))"

definition listed :: "manager \<Rightarrow> wallet list" where
  "listed m = map (\<lambda>i. m_objs m ! i) (m_wallets m)"

definition wallet_by_id :: "string \<Rightarrow> manager \<Rightarrow> nat option" where
  "wallet_by_id u m = find (\<lambda>i. w_id (m_objs m ! i) = u) (m_wallets m)"

definition set_open_url :: "string \<Rightarrow> manager \<Rightarrow> manager" where
  "set_open_url url m = m\<lparr>m_open_url := url\<rparr>"

definition clear_open_url :: "manager \<Rightarrow> manager" where
  "clear_open_url = set_open_url []"

section \<open>Names nobody has\<close>

text \<open>
  \<open>QString::arg\<close>: every place marker with the lowest number is replaced.  A marker is a percent
  sign, perhaps an L (which asks for the grouping of the locale; here none), and one or two digits.
\<close>

datatype arg_token = Lit char | Marker nat string

definition digit_of :: "char \<Rightarrow> nat option" where
  "digit_of c = (let n = of_char c in if 48 \<le> n \<and> n \<le> 57 then Some (n - 48) else None)"

definition read_marker :: "string \<Rightarrow> (nat \<times> string \<times> string) option" where
  "read_marker s =
     (let l = (case s of c # cs \<Rightarrow> if c = CHR ''L'' then [c] else [] | [] \<Rightarrow> []);
          r = drop (length l) s
      in case r of [] \<Rightarrow> None
         | c # cs \<Rightarrow>
             (case digit_of c of None \<Rightarrow> None
              | Some d \<Rightarrow>
                  (case cs of
                     e # es \<Rightarrow> (case digit_of e of
                         Some d2 \<Rightarrow> Some (10 * d + d2, CHR ''%'' # l @ [c, e], es)
                       | None \<Rightarrow> Some (d, CHR ''%'' # l @ [c], cs))
                   | [] \<Rightarrow> Some (d, CHR ''%'' # l @ [c], []))))"

lemma read_marker_shorter: "read_marker s = Some (n, t, r) \<Longrightarrow> length r < length s"
  by (auto simp: read_marker_def Let_def split: list.splits option.splits if_splits)

fun arg_tokens :: "string \<Rightarrow> arg_token list" where
  "arg_tokens [] = []"
| "arg_tokens (c # cs) =
     (if c = CHR ''%'' then
        (case read_marker cs of
           Some (n, t, r) \<Rightarrow> if length r < length cs then Marker n t # arg_tokens r else []
         | None \<Rightarrow> Lit c # arg_tokens cs)
      else Lit c # arg_tokens cs)"

fun marker_number :: "arg_token \<Rightarrow> nat option" where
  "marker_number (Lit c) = None"
| "marker_number (Marker n t) = Some n"

fun put_arg :: "nat \<Rightarrow> string \<Rightarrow> arg_token \<Rightarrow> string" where
  "put_arg k a (Lit c) = [c]"
| "put_arg k a (Marker n t) = (if n = k then a else t)"

definition qt_arg :: "string \<Rightarrow> string \<Rightarrow> string" where
  "qt_arg s a =
     (let ts = arg_tokens s; ns = List.map_filter marker_number ts
      in if ns = [] then s else concat (map (put_arg (Min (set ns)) a) ts))"

text \<open>\<open>QString("%1 %2").arg(base).arg(n)\<close>: the second number goes to what the first one left.\<close>

definition numbered :: "string \<Rightarrow> nat \<Rightarrow> string" where
  "numbered base n =
     (if n = 0 then base else qt_arg (qt_arg ''%1 %2'' base) (string_of_nat n))"

definition plain_text :: "string \<Rightarrow> bool" where
  "plain_text s \<longleftrightarrow> List.map_filter marker_number (arg_tokens s) = []"

lemma digit_of_ascii [simp]:
  "digit_of CHR '' '' = None" "digit_of CHR ''1'' = Some 1" "digit_of CHR ''2'' = Some 2"
  "digit_of CHR ''%'' = None" "digit_of CHR ''L'' = None"
  by (simp_all add: digit_of_def)

lemma read_marker_space:
  "read_marker (xs @ CHR '' '' # ys) =
    (case read_marker xs of None \<Rightarrow> None | Some (n, t, r) \<Rightarrow> Some (n, t, r @ CHR '' '' # ys))"
  by (cases xs) (auto simp: read_marker_def Let_def Cons_eq_append_conv
      split: list.splits option.splits)

lemma arg_tokens_space: "arg_tokens (xs @ CHR '' '' # ys) = arg_tokens xs @ Lit CHR '' '' # arg_tokens ys"
proof (induction xs rule: arg_tokens.induct)
  case (2 c cs)
  then show ?case
    by (auto simp: read_marker_space split: option.splits dest: read_marker_shorter)
qed simp

lemma two_markers: "qt_arg ''%1 %2'' base = base @ '' %2''"
proof -
  have "arg_tokens ''%1 %2'' = [Marker 1 ''%1'', Lit CHR '' '', Marker 2 ''%2'']"
    by (simp add: read_marker_def)
  then show ?thesis by (simp add: qt_arg_def Let_def map_filter_simps)
qed

lemma arg_tokens_named:
  "arg_tokens (base @ '' %2'') = arg_tokens base @ [Lit CHR '' '', Marker 2 ''%2'']"
proof -
  have "arg_tokens ''%2'' = [Marker 2 ''%2'']" by (simp add: read_marker_def)
  then show ?thesis using arg_tokens_space [of base "''%2''"] by simp
qed

lemma arg_tokens_text: "concat (map (put_arg k a) (arg_tokens s)) = s"
  if "List.map_filter marker_number (arg_tokens s) = []" for k a s
  using that
proof (induction s rule: arg_tokens.induct)
  case (2 c cs)
  then show ?case
    by (auto simp: map_filter_simps split: option.splits if_splits dest: read_marker_shorter)
qed simp

lemma numbered_plain:
  assumes "plain_text base"
  shows "numbered base n = (if n = 0 then base else base @ '' '' @ string_of_nat n)"
proof -
  have "qt_arg (base @ '' %2'') a = base @ CHR '' '' # a" for a
    using assms arg_tokens_text [of base]
    by (simp add: qt_arg_def Let_def arg_tokens_named plain_text_def map_filter_def)
  then show ?thesis by (simp only: numbered_def two_markers) simp
qed

text \<open>What is put in can be told from the text: all its copies have one length.\<close>

lemma put_arg_length:
  "\<exists>c. \<forall>a. length (concat (map (put_arg k a) ts)) = c + length (filter (\<lambda>t. marker_number t = Some k) ts) * length a"
proof (induction ts)
  case (Cons t ts)
  then obtain c where c: "\<forall>a. length (concat (map (put_arg k a) ts)) =
      c + length (filter (\<lambda>t. marker_number t = Some k) ts) * length a" by blast
  show ?case
  proof (cases "marker_number t = Some k")
    case True
    then have "put_arg k a t = a" for a by (cases t) auto
    with c True show ?thesis by (intro exI [of _ c]) auto
  next
    case False
    then obtain p where "\<forall>a. put_arg k a t = p" by (cases t) auto
    with c False show ?thesis by (intro exI [of _ "c + length p"]) auto
  qed
qed simp

lemma put_arg_inject:
  assumes "\<exists>t \<in> set ts. marker_number t = Some k"
    and "concat (map (put_arg k a) ts) = concat (map (put_arg k b) ts)"
  shows "a = b"
proof -
  obtain c where c: "length (concat (map (put_arg k x) ts)) =
      c + length (filter (\<lambda>t. marker_number t = Some k) ts) * length x" for x
    using put_arg_length [of k ts] by blast
  have "filter (\<lambda>t. marker_number t = Some k) ts \<noteq> []" using assms(1) by (auto simp: filter_empty_conv)
  with c [of a] c [of b] assms(2) have same: "length a = length b" by simp
  from assms show ?thesis
  proof (induction ts)
    case (Cons t ts)
    show ?case
    proof (cases "marker_number t = Some k")
      case True
      then have "put_arg k x t = x" for x by (cases t) auto
      with Cons.prems(2) same show ?thesis by simp
    next
      case False
      then have "put_arg k a t = put_arg k b t" by (cases t) auto
      with Cons False show ?thesis by auto
    qed
  qed simp
qed

lemma numbered_inject: "0 < n \<Longrightarrow> 0 < k \<Longrightarrow> numbered base n = numbered base k \<longleftrightarrow> n = k"
proof -
  let ?ts = "arg_tokens (base @ '' %2'')"
  let ?ns = "List.map_filter marker_number ?ts"
  assume "0 < n" "0 < k"
  have ns: "?ns \<noteq> []" by (simp add: arg_tokens_named map_filter_def)
  then have "Min (set ?ns) \<in> set ?ns" by (intro Min_in) auto
  then have marked: "\<exists>t \<in> set ?ts. marker_number t = Some (Min (set ?ns))"
    by (auto simp: map_filter_def)
  have "concat (map (put_arg (Min (set ?ns)) a) ?ts) = concat (map (put_arg (Min (set ?ns)) b) ?ts)
      \<longleftrightarrow> a = b" for a b
    using put_arg_inject [OF marked] by blast
  then have "qt_arg (base @ '' %2'') a = qt_arg (base @ '' %2'') b \<longleftrightarrow> a = b" for a b
    using ns by (simp add: qt_arg_def Let_def)
  with \<open>0 < n\<close> \<open>0 < k\<close> show ?thesis by (simp add: numbered_def two_markers)
qed

lemma finite_numbered: "finite {k. n \<le> k \<and> numbered base k \<in> set names}"
proof -
  have "inj_on (numbered base) {0<..}" by (auto simp: inj_on_def numbered_inject)
  then have "finite (numbered base -` set names \<inter> {0<..})" by (simp add: finite_vimage_IntI)
  then have "finite (insert 0 (numbered base -` set names \<inter> {0<..}))" by simp
  then show ?thesis by (rule finite_subset [rotated]) auto
qed

text \<open>
  The loop: it ends because the names with a number all differ and only finitely many are taken.
\<close>

function search_name :: "string list \<Rightarrow> string \<Rightarrow> nat \<Rightarrow> string" where
  "search_name names base n =
     (if numbered base n \<in> set names then search_name names base (Suc n) else numbered base n)"
  by pat_completeness auto
termination
proof (relation "measure (\<lambda>(names, base, n). card {k. n \<le> k \<and> numbered base k \<in> set names})")
  fix names :: "string list" and base :: string and n :: nat
  assume "numbered base n \<in> set names"
  then have "{k. Suc n \<le> k \<and> numbered base k \<in> set names}
      \<subset> {k. n \<le> k \<and> numbered base k \<in> set names}" by (auto simp: Suc_le_eq)
  then show "((names, base, Suc n), names, base, n)
      \<in> measure (\<lambda>(names, base, n). card {k. n \<le> k \<and> numbered base k \<in> set names})"
    by (simp add: psubset_card_mono finite_numbered)
qed simp

declare search_name.simps [simp del]

definition unique_wallet_name :: "string \<Rightarrow> manager \<Rightarrow> string" where
  "unique_wallet_name base m =
     search_name (filter (\<lambda>name. take (length base) name = base) (map w_name (listed m))) base 0"

definition new_wallet_name :: "manager \<Rightarrow> string" where
  "new_wallet_name m = unique_wallet_name ''My Wallet'' m"

text \<open>\<open>Wallet::rename\<close>: the field calls it at every key with the focus, then once without.\<close>

definition rename :: "nat \<Rightarrow> string \<Rightarrow> bool \<Rightarrow> manager \<Rightarrow> (bool \<times> manager) option" where
  "rename i name0 active_focus m =
     (let name1 = (if active_focus then name0 else trimmed name0);
          name = (if name1 = [] \<and> \<not> active_focus then new_wallet_name m else name1)
      in if w_name (m_objs m ! i) = name then Some (False, m)
         else if active_focus then Some (False, m)
         else let m1 = set_name i name m
              in if name = [] then Some (False, m1)
                 else do { m2 \<leftarrow> save i m1; Some (True, m2) })"

section \<open>Reading the directory\<close>

text \<open>\<open>QFileInfo::baseName\<close>: the name up to the first dot.\<close>

definition base_name :: "string \<Rightarrow> string" where
  "base_name = takeWhile (\<lambda>c. c \<noteq> CHR ''.'')"

text \<open>
  One record; \<open>None\<close> is a record without a login, which is skipped.  \<open>QJsonObject::contains\<close>
  decides which login it is.
\<close>

definition load_record :: "network list \<Rightarrow> string \<Rightarrow> jobject \<Rightarrow> wallet option" where
  "load_record nets i data =
     (let w = new_wallet\<lparr>w_persisted := True, w_id := i,
            w_deployment := to_string_or ''mainnet'' (jvalue data ''deployment''),
            w_name := to_string (jvalue data ''name''),
            w_xpub_hash_id := to_string (jvalue data ''xpub_hash_id''),
            w_hashes := fold (\<lambda>h. set_insert (to_string h)) (to_array (jvalue data ''hashes'')) []\<rparr>
      in if jcontains data ''pin'' then Some (w\<lparr>w_login := Some (PinData (pin_read nets data))\<rparr>)
         else if jcontains data ''watchonly'' then
           Some (w\<lparr>w_login := Some (WatchonlyData (watchonly_read nets data))\<rparr>)
         else if jcontains data ''device'' then
           Some (w\<lparr>w_login := Some (DeviceData (device_read data))\<rparr>)
         else None)"

definition load_entry ::
    "network list \<Rightarrow> string \<times> jobject option \<Rightarrow> manager \<Rightarrow> manager" where
  "load_entry nets e m =
     (case snd e of None \<Rightarrow> m
      | Some data \<Rightarrow> (case load_record nets (base_name (fst e)) data of None \<Rightarrow> m
          | Some w \<Rightarrow> add_wallet (length (m_objs m)) (m\<lparr>m_objs := m_objs m @ [w]\<rparr>)))"

text \<open>
  The second half of \<open>loadWallets\<close>, over the entries of \<open>wallets2\<close> in the order the
  directory gives them.
\<close>

definition load_wallets ::
    "network list \<Rightarrow> (string \<times> jobject option) list \<Rightarrow> manager \<Rightarrow> manager" where
  "load_wallets nets es m = fold (load_entry nets) es m"

definition new_manager :: "(string, jobject option) qmap \<Rightarrow> manager" where
  "new_manager files = \<lparr>m_objs = [], m_wallets = [], m_files = files, m_conns = [],
     m_open_url = []\<rparr>"

section \<open>The older directory\<close>

text \<open>
  The first half of \<open>loadWallets\<close>: while there is no \<open>wallets2\<close>, every login of every
  record of the older directory becomes a record of its own.  \<open>parse64\<close> is the object in the
  Base64 text of the PIN data, \<open>uuids\<close> the new identifiers.  A missing \<open>name\<close> stays
  missing.
\<close>

definition old_logins ::
    "(string \<Rightarrow> jobject) \<Rightarrow> jobject \<Rightarrow> (string \<times> jobject) list" where
  "old_logins parse64 data =
     (let pin_data = to_string (jvalue data ''pin_data'')
      in (if jcontains data ''pin_data'' \<and> jcontains data ''network'' \<and> pin_data \<noteq> [] then
            [(''pin'', jobj [(''data'', JObj (parse64 pin_data)),
               (''attempts'', JInt (to_int (jvalue data ''login_attempts_remaining''))),
               (''network'', JStr (to_string (jvalue data ''network'')))])] else []) @
         (if jcontains data ''device_details'' then
            [(''device'', to_object (jvalue data ''device_details''))] else []) @
         (if jcontains data ''username'' \<and> jcontains data ''network'' then
            [(''watchonly'', jobj [(''username'', JStr (to_string (jvalue data ''username''))),
               (''network'', JStr (to_string (jvalue data ''network'')))])] else []))"

definition migrated_content :: "string \<Rightarrow> jobject \<Rightarrow> string \<times> jobject \<Rightarrow> jobject" where
  "migrated_content uuid data l =
     (let hash_id = to_string (jvalue data ''hash_id'')
      in json_insert ''name'' (jvalue data ''name'') (jobj [
           (''id'', JStr uuid),
           (''xpub_hash_id'', JStr (to_string (jvalue data ''xpub_hash_id''))),
           (''deployment'', JStr (to_string_or ''mainnet'' (jvalue data ''deployment''))),
           (''incognito'', JBool (to_bool (jvalue data ''incognito''))),
           (''hashes'', JArr (if hash_id \<noteq> [] then [JStr hash_id] else [])),
           (fst l, JObj (snd l))]))"

definition migrate ::
    "(string \<Rightarrow> jobject) \<Rightarrow> (string \<times> jobject option) list \<Rightarrow> string list \<Rightarrow>
      (string, jobject option) qmap" where
  "migrate parse64 old uuids =
     fold (\<lambda>(uuid, data, l). qm_insert uuid (Some (migrated_content uuid data l)))
       (zip uuids [(data, l). data \<leftarrow> List.map_filter snd old, l \<leftarrow> old_logins parse64 data]) []"

text \<open>Both halves: \<open>None\<close> is a missing \<open>wallets2\<close>.\<close>

definition start_wallets ::
    "network list \<Rightarrow> (string \<Rightarrow> jobject) \<Rightarrow> (string \<times> jobject option) list \<Rightarrow> string list \<Rightarrow>
      (string, jobject option) qmap option \<Rightarrow> manager" where
  "start_wallets nets parse64 old uuids wallets2 =
     (let files = (case wallets2 of Some fs \<Rightarrow> fs | None \<Rightarrow> migrate parse64 old uuids)
      in load_wallets nets files (new_manager files))"

end
