(* ===== verification/Wallet_Flows.thy ===== *)
theory Wallet_Flows
  imports Wallets
begin

text \<open>
  What the controllers do to wallets and their files: the PIN and its attempts
  (\<open>src/wallet.cpp\<close>, \<open>src/loginwithpincontroller.cpp\<close>, \<open>src/controller.cpp\<close>) with the page
  that asks for it (\<open>qml/PinLoginPage.qml\<close>), signing up (\<open>src/signupcontroller.cpp\<close>),
  restoring (\<open>src/restorecontroller.cpp\<close>), logging in with a device and watching only
  (\<open>src/watchonlylogincontroller.cpp\<close>).  The tasks in front of these steps are those of
  \<open>Task_Kinds\<close>; here a step starts from their outcome.
\<close>

section \<open>PIN data\<close>

definition wallet_pin :: "nat \<Rightarrow> manager \<Rightarrow> pin_data option" where
  "wallet_pin i m = (case w_login (m_objs m ! i) of Some (PinData p) \<Rightarrow> Some p | _ \<Rightarrow> None)"

definition set_attempts :: "nat \<Rightarrow> int \<Rightarrow> manager \<Rightarrow> manager option" where
  "set_attempts i a m = do {
     p \<leftarrow> wallet_pin i m;
     if p_attempts p = a then Some m
     else save i (set_login i (Some (PinData (p\<lparr>p_attempts := a\<rparr>))) m)}"

definition reset_attempts :: "nat \<Rightarrow> manager \<Rightarrow> manager option" where
  "reset_attempts i = set_attempts i 3"

text \<open>\<open>checks\<close> says whether the program is built with its assertions.\<close>

definition decrement_attempts :: "bool \<Rightarrow> nat \<Rightarrow> manager \<Rightarrow> manager option" where
  "decrement_attempts checks i m = do {
     p \<leftarrow> wallet_pin i m;
     if checks \<and> p_attempts p \<le> 0 then None else set_attempts i (p_attempts p - 1) m}"

definition set_passphrase :: "nat \<Rightarrow> bool \<Rightarrow> manager \<Rightarrow> manager option" where
  "set_passphrase i b m = do {
     p \<leftarrow> wallet_pin i m;
     if p_passphrase p = b then Some m
     else save i (set_login i (Some (PinData (p\<lparr>p_passphrase := b\<rparr>))) m)}"

text \<open>
  \<open>setData\<close> of PIN data that is not the wallet's login yet: the wallet is saved with the
  login it has.
\<close>

definition set_new_pin_data :: "nat \<Rightarrow> pin_data \<Rightarrow> jobject \<Rightarrow> manager \<Rightarrow> (pin_data \<times> manager) option" where
  "set_new_pin_data i p d m =
     (if p_data p = d then Some (p, m)
      else do { m1 \<leftarrow> save i m; Some (p\<lparr>p_data := d\<rparr>, m1) })"

text \<open>
  The end of \<open>PinDataController::update\<close> and of \<open>Controller::changePin\<close>, on the result of
  the task that encrypted the credentials.
\<close>

definition new_pin_finished :: "nat \<Rightarrow> network \<Rightarrow> jobject \<Rightarrow> manager \<Rightarrow> manager option" where
  "new_pin_finished i net result m = do {
     let pin = new_pin_data\<lparr>p_network := Some net\<rparr>;
     let d = to_object (jvalue (to_object (jvalue result ''result'')) ''pin_data'');
     (pin1, m1) \<leftarrow> set_new_pin_data i pin d m;
     save i (set_login i (Some (PinData pin1)) m1)}"

definition disable_all_pins_finished :: "nat \<Rightarrow> manager \<Rightarrow> manager" where
  "disable_all_pins_finished i m = set_login i None m"

definition delete_wallet_finished :: "nat \<Rightarrow> manager \<Rightarrow> manager option" where
  "delete_wallet_finished i m = remove_wallet i m"

section \<open>Logging in with a PIN\<close>

datatype pin_start = PinIgnored | PinLogin string jobject "network option"

definition start_pin_login :: "nat option \<Rightarrow> string \<Rightarrow> manager \<Rightarrow> pin_start option" where
  "start_pin_login w pin m =
     (case w of None \<Rightarrow> Some PinIgnored
      | Some i \<Rightarrow> if pin = [] then Some PinIgnored
          else do { p \<leftarrow> wallet_pin i m; Some (PinLogin pin (p_data p) (p_network p)) })"

datatype login_signal = InvalidPin | LoginFailed string

text \<open>
  The handler of the task's failure, then that of the group's: what the page is told, in
  order.  \<open>error0\<close> is \<open>m_error\<close>, empty unless the connection has failed before.
\<close>

definition pin_login_failed ::
    "bool \<Rightarrow> nat \<Rightarrow> string \<Rightarrow> string \<Rightarrow> manager \<Rightarrow> (login_signal list \<times> manager) option" where
  "pin_login_failed checks i error0 error m =
     (if error = ''id_invalid_pin'' then do {
        m1 \<leftarrow> decrement_attempts checks i m;
        Some ([InvalidPin, LoginFailed error0], m1)}
      else Some ([LoginFailed (if error0 = [] then error else error0)], m))"

definition pin_login_finished :: "nat \<Rightarrow> manager \<Rightarrow> manager option" where
  "pin_login_finished i m = reset_attempts i m"

subsection \<open>The page\<close>

text \<open>
  \<open>PinLoginPage.qml\<close>: a field for the PIN, and a timer that covers it two seconds after the
  attempts are seen to be zero.  \<open>pg_id\<close> is the wallet's identifier, \<open>pg_open\<close> says whether
  the page is shown, \<open>pg_pending\<close> whether a login is under way.
\<close>

record pin_page =
  pg_mgr :: manager
  pg_id :: string
  pg_open :: bool
  pg_enabled :: bool
  pg_pending :: bool
  pg_covered :: bool

definition page_wallet :: "pin_page \<Rightarrow> nat option" where
  "page_wallet s = wallet_by_id (pg_id s) (pg_mgr s)"

definition page_attempts :: "pin_page \<Rightarrow> int option" where
  "page_attempts s = do { i \<leftarrow> page_wallet s; p \<leftarrow> wallet_pin i (pg_mgr s); Some (p_attempts p) }"

fun page_signal :: "login_signal \<Rightarrow> pin_page \<Rightarrow> pin_page" where
  "page_signal InvalidPin s = s\<lparr>pg_enabled := (case page_attempts s of Some a \<Rightarrow> a > 0 | None \<Rightarrow> False)\<rparr>"
| "page_signal (LoginFailed e) s = s\<lparr>pg_enabled := True\<rparr>"

datatype page_event =
    PinEntered string
  | LoginRefused string
  | LoginSucceeded
  | NoAttemptsTimer
  | PageOpened
  | PinChanged network jobject
  | Restarted

text \<open>
  What can happen when: the field takes a PIN while it is enabled and not covered; a PIN is
  changed from the open wallet; the program can be stopped and started again at any time.
\<close>

fun page_can :: "page_event \<Rightarrow> pin_page \<Rightarrow> bool" where
  "page_can (PinEntered pin) s \<longleftrightarrow> pg_open s \<and> pg_enabled s \<and> \<not> pg_covered s \<and> pin \<noteq> []"
| "page_can (LoginRefused e) s \<longleftrightarrow> pg_pending s"
| "page_can LoginSucceeded s \<longleftrightarrow> pg_pending s"
| "page_can NoAttemptsTimer s \<longleftrightarrow> pg_open s \<and> page_attempts s = Some 0"
| "page_can PageOpened s \<longleftrightarrow> \<not> pg_open s"
| "page_can (PinChanged net r) s \<longleftrightarrow> \<not> pg_open s"
| "page_can Restarted s \<longleftrightarrow> True"

definition open_page :: "pin_page \<Rightarrow> pin_page" where
  "open_page s = s\<lparr>pg_open := True, pg_enabled := True, pg_pending := False, pg_covered := False\<rparr>"

fun page_step :: "bool \<Rightarrow> network list \<Rightarrow> page_event \<Rightarrow> pin_page \<Rightarrow> pin_page option" where
  "page_step checks nets (PinEntered pin) s = do {
     started \<leftarrow> start_pin_login (page_wallet s) pin (pg_mgr s);
     Some (s\<lparr>pg_enabled := False, pg_pending := started \<noteq> PinIgnored\<rparr>)}"
| "page_step checks nets (LoginRefused e) s = do {
     i \<leftarrow> page_wallet s;
     (signals, m) \<leftarrow> pin_login_failed checks i [] e (pg_mgr s);
     Some (fold page_signal signals (s\<lparr>pg_mgr := m, pg_pending := False\<rparr>))}"
| "page_step checks nets LoginSucceeded s = do {
     i \<leftarrow> page_wallet s;
     m \<leftarrow> pin_login_finished i (pg_mgr s);
     Some (s\<lparr>pg_mgr := m, pg_pending := False, pg_open := False\<rparr>)}"
| "page_step checks nets NoAttemptsTimer s = Some (s\<lparr>pg_covered := True\<rparr>)"
| "page_step checks nets PageOpened s = Some (open_page s)"
| "page_step checks nets (PinChanged net r) s = do {
     i \<leftarrow> page_wallet s;
     m \<leftarrow> new_pin_finished i net r (pg_mgr s);
     Some (s\<lparr>pg_mgr := m\<rparr>)}"
| "page_step checks nets Restarted s =
     Some (open_page (s\<lparr>pg_mgr := load_wallets nets (m_files (pg_mgr s)) (new_manager (m_files (pg_mgr s)))\<rparr>))"

text \<open>The states a page can get to, with the events that lead there.\<close>

inductive page_runs :: "bool \<Rightarrow> network list \<Rightarrow> pin_page \<Rightarrow> page_event list \<Rightarrow> pin_page \<Rightarrow> bool"
  for checks nets s0 where
  runs_start: "page_runs checks nets s0 [] s0"
| runs_step: "page_runs checks nets s0 es s \<Longrightarrow> page_can e s \<Longrightarrow>
    page_step checks nets e s = Some s' \<Longrightarrow> page_runs checks nets s0 (es @ [e]) s'"

text \<open>The wrong PINs since the last right one (or the last new one).\<close>

fun count_wrong :: "page_event \<Rightarrow> nat \<Rightarrow> nat" where
  "count_wrong (LoginRefused e) n = (if e = ''id_invalid_pin'' then Suc n else n)"
| "count_wrong LoginSucceeded n = 0"
| "count_wrong (PinChanged net r) n = 0"
| "count_wrong _ n = n"

definition wrong_pins :: "page_event list \<Rightarrow> nat" where
  "wrong_pins es = fold count_wrong es 0"

section \<open>Creating wallets\<close>

text \<open>
  \<open>Context::setWallet\<close> and \<open>Context::setXPubHashId\<close>, on the wallet: it learns the hash of
  the master key once both are known, unless a BIP39 passphrase is in use.
\<close>

definition context_set_wallet :: "bool \<Rightarrow> string \<Rightarrow> nat \<Rightarrow> manager \<Rightarrow> manager option" where
  "context_set_wallet bip39 xpub i m =
     (if \<not> bip39 \<and> xpub \<noteq> [] then set_xpub_hash_id i xpub m else Some m)"

text \<open>
  Signing up: \<open>SignupCreateWalletTask\<close>, then \<open>SignupPersistWalletTask\<close>; \<open>c\<close> is the context.
\<close>

definition signup_create_wallet ::
    "string \<Rightarrow> string \<Rightarrow> bool \<Rightarrow> string \<Rightarrow> manager \<Rightarrow> (nat \<times> manager) option" where
  "signup_create_wallet uuid dep bip39 xpub m = do {
     let (i, m1) = create_wallet uuid m;
     let m2 = set_name i (new_wallet_name m1) m1;
     let m3 = modify_wallet i (\<lambda>w. w\<lparr>w_deployment := dep, w_persisted := True\<rparr>) m2;
     m4 \<leftarrow> save i m3;
     m5 \<leftarrow> context_set_wallet bip39 xpub i m4;
     Some (i, m5)}"

definition signup_persist_wallet :: "nat \<Rightarrow> nat \<Rightarrow> manager \<Rightarrow> manager option" where
  "signup_persist_wallet i c m = set_context i (Some c) (add_wallet i m)"

text \<open>
  Restoring, when all networks have been tried: \<open>r\<close> is the controller's \<open>m_wallet\<close>.  The
  search over the wallets assigns \<open>m_wallet\<close>; the local \<open>wallet\<close> that is tested after it is
  still null.
\<close>

datatype restore_signal = RestoreFinished nat | RestoreMismatch | AlreadyRestored nat

definition is_pin :: "wallet \<Rightarrow> bool" where
  "is_pin w = (case w_login w of Some (PinData p) \<Rightarrow> True | _ \<Rightarrow> False)"

definition restore_all_finished ::
    "string \<Rightarrow> string \<Rightarrow> string \<Rightarrow> nat \<Rightarrow> nat option \<Rightarrow> manager \<Rightarrow>
      (restore_signal \<times> nat option \<times> manager) option" where
  "restore_all_finished uuid dep xpub c r m =
     (case r of
        Some j \<Rightarrow>
          if w_xpub_hash_id (m_objs m ! j) = xpub then do {
            m1 \<leftarrow> context_set_wallet False xpub j m;
            m2 \<leftarrow> set_context j (Some c) m1;
            Some (RestoreFinished j, r, m2)}
          else Some (RestoreMismatch, r, m)
      | None \<Rightarrow>
          (let r1 = find (\<lambda>j. is_pin (m_objs m ! j) \<and> w_xpub_hash_id (m_objs m ! j) = xpub) (m_wallets m);
               wallet = (None :: nat option)
           in case wallet of
                Some j \<Rightarrow> Some (AlreadyRestored j, r1, m)
              | None \<Rightarrow> do {
                  let (i, m1) = create_wallet uuid m;
                  let m2 = set_name i (new_wallet_name m1) m1;
                  m3 \<leftarrow> set_xpub_hash_id i xpub m2;
                  let m4 = modify_wallet i (\<lambda>w. w\<lparr>w_deployment := dep, w_persisted := True\<rparr>) m3;
                  m5 \<leftarrow> context_set_wallet False xpub i m4;
                  m6 \<leftarrow> set_context i (Some c) m5;
                  m7 \<leftarrow> insert_wallet i m6;
                  Some (RestoreFinished i, r1, m7)}))"

text \<open>
  \<open>RestoreController::restore\<close> for a deployment, when nothing else touches the wallets until all
  networks have been tried: it asserts that the wallet it has remembered is of that deployment, which
  only a build with assertions \<open>checks\<close>.
\<close>

definition restore_assertion :: "string \<Rightarrow> nat option \<Rightarrow> manager \<Rightarrow> bool" where
  "restore_assertion dep r m \<longleftrightarrow> (case r of None \<Rightarrow> True | Some j \<Rightarrow> w_deployment (m_objs m ! j) = dep)"

definition restore ::
    "bool \<Rightarrow> string \<Rightarrow> string \<Rightarrow> string \<Rightarrow> nat \<Rightarrow> nat option \<Rightarrow> manager \<Rightarrow>
      (restore_signal \<times> nat option \<times> manager) option" where
  "restore checks uuid dep xpub c r m =
     (if checks \<and> \<not> restore_assertion dep r m then None else restore_all_finished uuid dep xpub c r m)"

text \<open>
  Logging in with a device, when the login has finished: \<open>w\<close> is the context's wallet, \<open>name\<close>
  and \<open>details\<close> the device's.
\<close>

definition is_device :: "wallet \<Rightarrow> bool" where
  "is_device w = (case w_login w of Some (DeviceData d) \<Rightarrow> True | _ \<Rightarrow> False)"

definition device_login_finished ::
    "string \<Rightarrow> string \<Rightarrow> string \<Rightarrow> string \<Rightarrow> jobject \<Rightarrow> bool \<Rightarrow> nat option \<Rightarrow> manager \<Rightarrow>
      (nat \<times> manager) option" where
  "device_login_finished uuid dep xpub name details remember w m =
     (case (case w of Some i \<Rightarrow> Some i | None \<Rightarrow>
              find (\<lambda>j. is_device (m_objs m ! j) \<and> w_xpub_hash_id (m_objs m ! j) = xpub) (m_wallets m)) of
        Some i \<Rightarrow>
          if is_device (m_objs m ! i) then do {
            m1 \<leftarrow> save i (set_login i (Some (DeviceData details)) m);
            Some (i, m1)}
          else Some (i, m)
      | None \<Rightarrow> do {
          let (i, m1) = create_wallet uuid m;
          let m2 = modify_wallet i (\<lambda>w. w\<lparr>w_deployment := dep, w_name := name,
            w_login := Some (DeviceData details), w_persisted := remember\<rparr>) m1;
          m3 \<leftarrow> insert_wallet i m2;
          Some (i, m3)})"

text \<open>
  \<open>WatchOnlyCreateWalletTask\<close>: \<open>net\<close>, \<open>user\<close>, \<open>xpubs\<close>, \<open>descriptors\<close> and \<open>remember\<close> are the
  controller's, \<open>label\<close> is the translated \<open>id_watchonly_wallet\<close>.  An inner \<open>None\<close> is a task
  that is not started yet, as the hash of the key is not known.
\<close>

definition watches :: "network option \<Rightarrow> wallet \<Rightarrow> bool" where
  "watches net w = (case w_login w of Some (WatchonlyData d) \<Rightarrow> wo_network d = net | _ \<Rightarrow> False)"

definition watchonly_create_wallet ::
    "string \<Rightarrow> string \<Rightarrow> string \<Rightarrow> network \<Rightarrow> string \<Rightarrow> string list \<Rightarrow> string list \<Rightarrow> bool \<Rightarrow> nat \<Rightarrow>
      nat option \<Rightarrow> manager \<Rightarrow> (nat \<times> manager) option option" where
  "watchonly_create_wallet uuid label xpub net user xpubs descriptors remember c w m =
     (if xpub = [] then Some None
      else case w of
        Some i \<Rightarrow> do { m1 \<leftarrow> set_context i (Some c) m; Some (Some (i, m1)) }
      | None \<Rightarrow> do {
          let (i, m1) = (case find (\<lambda>j. w_xpub_hash_id (m_objs m ! j) = xpub \<and>
                                         watches (Some net) (m_objs m ! j)) (m_wallets m) of
             Some j \<Rightarrow> (j, m)
           | None \<Rightarrow>
               (let (i, m1) = create_wallet uuid m;
                    d = new_watchonly_data\<lparr>wo_network := Some net, wo_username := user,
                          wo_extended_pubkeys := xpubs, wo_core_descriptors := descriptors\<rparr>;
                    name = (if user \<noteq> [] then user @ '' '' @ label else label)
                in (i, modify_wallet i (\<lambda>w. w\<lparr>w_name := unique_wallet_name name m1,
                         w_login := Some (WatchonlyData d), w_deployment := deployment net,
                         w_persisted := remember\<rparr>) m1)));
          m2 \<leftarrow> context_set_wallet False xpub i m1;
          m3 \<leftarrow> save i m2;
          m4 \<leftarrow> set_context i (Some c) m3;
          Some (Some (i, m4))})"

text \<open>
  \<open>LoadController\<close>, when the accounts are loaded: the wallet is listed, and saved with the
  identifiers its sessions have (\<open>ids\<close>).
\<close>

definition load_finished :: "nat \<Rightarrow> nat \<Rightarrow> string list \<Rightarrow> manager \<Rightarrow> manager option" where
  "load_finished i c ids m = do {
     m1 \<leftarrow> set_context i (Some c) (add_wallet i m);
     let m2 = modify_wallet i
       (w_hashes_update (\<lambda>hs. fold (\<lambda>h. if h = [] then id else set_insert h) ids hs)) m1;
     save i m2}"

text \<open>\<open>WatchOnlyLoginController::update\<close>: whether the form can be sent.\<close>

definition watchonly_valid ::
    "nat option \<Rightarrow> network option \<Rightarrow> string \<Rightarrow> string \<Rightarrow> manager \<Rightarrow> bool" where
  "watchonly_valid w net user password m =
     (case w of
        Some i \<Rightarrow> (case w_login (m_objs m ! i) of
            Some (WatchonlyData d) \<Rightarrow>
              (case wo_network d of None \<Rightarrow> False
               | Some n \<Rightarrow> if \<not> n_electrum n then password \<noteq> [] else True)
          | _ \<Rightarrow> False)
      | None \<Rightarrow> net \<noteq> None \<and> user \<noteq> [] \<and> password \<noteq> [])"

text \<open>
  \<open>WatchOnlyLoginController::login\<close>: the arguments of the login task.  \<open>None\<close> follows a null
  pointer; an inner \<open>None\<close> starts no login.
\<close>

datatype watch_login = LoginUsername string string | LoginXpubs "string list" | LoginDescriptors "string list"

definition watchonly_login ::
    "nat option \<Rightarrow> network option \<Rightarrow> string \<Rightarrow> string \<Rightarrow> manager \<Rightarrow> watch_login option option" where
  "watchonly_login w net user password m = do {
     let d = (case w of
         Some i \<Rightarrow> (case w_login (m_objs m ! i) of Some (WatchonlyData d) \<Rightarrow> Some d | _ \<Rightarrow> None)
       | None \<Rightarrow> None);
     n \<leftarrow> (case d of Some d \<Rightarrow> wo_network d | None \<Rightarrow> net);
     if \<not> n_electrum n then
       Some (Some (LoginUsername (case d of Some d \<Rightarrow> wo_username d | None \<Rightarrow> user) password))
     else do {
       d \<leftarrow> d;
       Some (if wo_extended_pubkeys d \<noteq> [] then Some (LoginXpubs (wo_extended_pubkeys d))
             else if wo_core_descriptors d \<noteq> [] then Some (LoginDescriptors (wo_core_descriptors d))
             else None)}}"

text \<open>\<open>parseFile\<close> on the object in the file: the keys it offers to watch.\<close>

definition parse_watch_file :: "jobject \<Rightarrow> string list" where
  "parse_watch_file content =
     (if to_string (jvalue content ''chain'') = ''BTC'' then
        concat (map (\<lambda>(k, i). case i of
            JObj bip \<Rightarrow>
              (let name = to_string (jvalue bip ''name''); pub = to_string (jvalue bip ''_pub'');
                   xpub = to_string (jvalue bip ''xpub'')
               in if name \<notin> {''p2pkh'', ''p2sh-p2wpkh'', ''p2wpkh'', ''p2tr''} then []
                  else if pub \<noteq> [] then [pub] else if xpub \<noteq> [] then [xpub] else [])
          | _ \<Rightarrow> []) content)
      else if to_string (jvalue content ''wallet_type'') = ''standard'' then
        [to_string (jvalue (to_object (jvalue content ''keystore'')) ''xpub'')]
      else [])"

end
