(* ===== verification/Wallet_Facts.thy ===== *)
theory Wallet_Facts
  imports Wallet_Flows "HOL-Library.Multiset"
begin

text \<open>
  The library about wallets: what reading a saved record gives back, the manager after a start,
  how each operation moves the store, the list and the directory, and the interface between a
  wallet in memory and its file (\<open>kept_on_disk\<close>).
\<close>

section \<open>Reading back what was written\<close>

text \<open>
  What the login of a saved wallet is when it is read again: a watch-only login keeps only what
  its network needs, and none at all on an Electrum network without keys or descriptors.
\<close>

fun loaded_login :: "login_data \<Rightarrow> login_data option" where
  "loaded_login (PinData p) = Some (PinData p)"
| "loaded_login (DeviceData d) = Some (DeviceData d)"
| "loaded_login (WatchonlyData w) =
     (case wo_network w of None \<Rightarrow> None
      | Some n \<Rightarrow>
          if n_electrum n \<and> wo_core_descriptors w \<noteq> [] then
            Some (WatchonlyData (w\<lparr>wo_username := [], wo_extended_pubkeys := []\<rparr>))
          else if n_electrum n \<and> wo_extended_pubkeys w \<noteq> [] then
            Some (WatchonlyData (w\<lparr>wo_username := [], wo_core_descriptors := []\<rparr>))
          else if \<not> n_electrum n then
            Some (WatchonlyData (w\<lparr>wo_core_descriptors := [], wo_extended_pubkeys := []\<rparr>))
          else None)"

definition as_loaded :: "wallet \<Rightarrow> wallet option" where
  "as_loaded w = do {
     l \<leftarrow> w_login w;
     l1 \<leftarrow> loaded_login l;
     Some (w\<lparr>w_persisted := True, w_login := Some l1, w_context := None\<rparr>)}"

definition network_known :: "network list \<Rightarrow> network option \<Rightarrow> bool" where
  "network_known nets net = (case net of None \<Rightarrow> False | Some n \<Rightarrow> network_by_id nets (n_id n) = Some n)"

fun login_known :: "network list \<Rightarrow> login_data \<Rightarrow> bool" where
  "login_known nets (PinData p) \<longleftrightarrow>
     network_known nets (p_network p) \<and> - (2 ^ 31) \<le> p_attempts p \<and> p_attempts p < 2 ^ 31"
| "login_known nets (DeviceData d) \<longleftrightarrow> True"
| "login_known nets (WatchonlyData w) \<longleftrightarrow> network_known nets (wo_network w)"

definition wallet_known :: "network list \<Rightarrow> wallet \<Rightarrow> bool" where
  "wallet_known nets w \<longleftrightarrow> distinct (w_hashes w) \<and> w_id w \<noteq> [] \<and> CHR ''.'' \<notin> set (w_id w) \<and>
     (case w_login w of None \<Rightarrow> True | Some l \<Rightarrow> login_known nets l)"

lemma fold_set_insert: "distinct (ys @ xs) \<Longrightarrow> fold set_insert xs ys = ys @ xs"
  by (induction xs arbitrary: ys) (auto simp: set_insert_def)

lemma hashes_back: "distinct hs \<Longrightarrow> fold (\<lambda>h. set_insert (to_string h)) (map JStr hs) [] = hs"
  using fold_set_insert [of "[]" hs] by (simp add: fold_map comp_def)

lemma to_string_list_back [simp]: "to_string_list (json_strings xs) = xs"
  by (simp add: to_string_list_def json_strings_def)

lemma base_name_plain [simp]: "CHR ''.'' \<notin> set u \<Longrightarrow> base_name u = u"
  by (auto simp: base_name_def takeWhile_eq_all_conv)

lemma network_known_Some: "network_known nets net \<Longrightarrow> \<exists>n. net = Some n \<and> network_by_id nets (n_id n) = Some n"
  by (simp add: network_known_def split: option.splits)

lemmas json_read = jvalue_jobj jvalue_insert jcontains_insert jcontains_jobj json_insert_def

subsection \<open>The interface \<open>LoginData\<close>\<close>

text \<open>
  The contract of the virtual functions \<open>write\<close> and \<open>read\<close>: \<open>write\<close> puts a value of its own key
  into the record, or leaves the key out and says so, and touches nothing else; \<open>read\<close> gives
  back what was written, up to what the format keeps (\<open>norm\<close>).
\<close>

locale login_format =
  fixes key :: string
    and wr :: "'a \<Rightarrow> jobject \<Rightarrow> (bool \<times> jobject) option"
    and rd :: "jobject \<Rightarrow> 'a"
    and ok :: "'a \<Rightarrow> bool"
    and norm :: "'a \<Rightarrow> 'a option"
  assumes wr_total: "ok x \<Longrightarrow> \<exists>b d'. wr x d = Some (b, d')"
    and wr_norm: "ok x \<Longrightarrow> \<not> jcontains d key \<Longrightarrow> wr x d = Some (b, d') \<Longrightarrow>
      norm x = (if b then Some (rd d') else None)"
    and wr_key: "ok x \<Longrightarrow> \<not> jcontains d key \<Longrightarrow> wr x d = Some (b, d') \<Longrightarrow> jcontains d' key \<longleftrightarrow> b"
    and wr_other: "ok x \<Longrightarrow> wr x d = Some (b, d') \<Longrightarrow> k \<noteq> key \<Longrightarrow>
      jvalue d' k = jvalue d k \<and> jcontains d' k = jcontains d k"
begin

lemma round_trip:
  assumes "ok x" and "\<not> jcontains d key"
  obtains b d' where "wr x d = Some (b, d')"
    and "norm x = (if jcontains d' key then Some (rd d') else None)"
    and "\<forall>k. k \<noteq> key \<longrightarrow> jvalue d' k = jvalue d k \<and> jcontains d' k = jcontains d k"
proof -
  obtain b d' where wr: "wr x d = Some (b, d')" using wr_total [OF assms(1)] by blast
  moreover have "norm x = (if jcontains d' key then Some (rd d') else None)"
    using wr_norm [OF assms wr] wr_key [OF assms wr] by simp
  ultimately show thesis using wr_other [OF assms(1) wr] that by blast
qed

end

interpretation pin_format: login_format "''pin''" pin_write "pin_read nets"
  "\<lambda>p. login_known nets (PinData p)" Some for nets
proof
  fix p d b d' k
  assume "login_known nets (PinData p)"
  then obtain n where n: "p_network p = Some n" "network_by_id nets (n_id n) = Some n"
    and range: "- (2 ^ 31) \<le> p_attempts p" "p_attempts p < 2 ^ 31"
    using network_known_Some [of nets "p_network p"] by auto
  show "\<exists>b d'. pin_write p d = Some (b, d')" using n by (auto simp: pin_write_def)
  assume wr: "pin_write p d = Some (b, d')"
  show "Some p = (if b then Some (pin_read nets d') else None)"
    using wr n range by (auto simp: pin_write_def pin_read_def json_read)
  show "jcontains d' ''pin'' \<longleftrightarrow> b" using wr n by (auto simp: pin_write_def json_read)
  assume "k \<noteq> ''pin''"
  then show "jvalue d' k = jvalue d k \<and> jcontains d' k = jcontains d k"
    using wr n by (auto simp: pin_write_def json_read)
qed

interpretation device_format: login_format "''device''" device_write device_read "\<lambda>d. True" Some
  by unfold_locales (auto simp: device_write_def device_read_def json_read)

text \<open>What a watch-only login keeps.\<close>

definition watchonly_norm :: "watchonly_data \<Rightarrow> watchonly_data option" where
  "watchonly_norm w = (case loaded_login (WatchonlyData w) of Some (WatchonlyData w1) \<Rightarrow> Some w1 | _ \<Rightarrow> None)"

lemma watchonly_norm_loaded: "loaded_login (WatchonlyData w) = map_option WatchonlyData (watchonly_norm w)"
  by (simp add: watchonly_norm_def split: option.splits)

interpretation watchonly_format: login_format "''watchonly''" watchonly_write "watchonly_read nets"
  "\<lambda>w. login_known nets (WatchonlyData w)" watchonly_norm for nets
proof
  fix w d b d' k
  assume "login_known nets (WatchonlyData w)"
  then obtain n where n: "wo_network w = Some n" "network_by_id nets (n_id n) = Some n"
    using network_known_Some [of nets "wo_network w"] by auto
  show "\<exists>b d'. watchonly_write w d = Some (b, d')" using n by (auto simp: watchonly_write_def)
  assume wr: "watchonly_write w d = Some (b, d')"
  have none: "to_string_list JUndefined = []" by (simp add: to_string_list_def)
  show "watchonly_norm w = (if b then Some (watchonly_read nets d') else None)"
    using wr n
    by (auto simp: watchonly_norm_def watchonly_write_def watchonly_read_def json_read none
        split: if_splits)
  show "jcontains d' ''watchonly'' \<longleftrightarrow> b" if "\<not> jcontains d ''watchonly''"
    using wr n that by (auto simp: watchonly_write_def json_read split: if_splits)
  assume "k \<noteq> ''watchonly''"
  then show "jvalue d' k = jvalue d k \<and> jcontains d' k = jcontains d k"
    using wr n by (auto simp: watchonly_write_def json_read split: if_splits)
qed

text \<open>The record without its login.\<close>

definition plain_json :: "wallet \<Rightarrow> jobject" where
  "plain_json w =
     (let data0 = jobj [(''name'', JStr (w_name w)), (''deployment'', JStr (w_deployment w)),
                        (''hashes'', json_strings (w_hashes w))]
      in if w_xpub_hash_id w \<noteq> [] then
           json_insert ''xpub_hash_id'' (JStr (w_xpub_hash_id w)) data0 else data0)"

lemma wallet_json_plain:
  "wallet_json w = (case w_login w of None \<Rightarrow> Some (plain_json w)
     | Some l \<Rightarrow> map_option snd (login_write l (plain_json w)))"
  by (cases "w_login w") (simp_all add: wallet_json_def plain_json_def Let_def)

lemma plain_json_values:
  "to_string (jvalue (plain_json w) ''name'') = w_name w"
  "to_string_or d (jvalue (plain_json w) ''deployment'') = w_deployment w"
  "jvalue (plain_json w) ''hashes'' = json_strings (w_hashes w)"
  "to_string (jvalue (plain_json w) ''xpub_hash_id'') = w_xpub_hash_id w"
  "\<not> jcontains (plain_json w) ''pin''" "\<not> jcontains (plain_json w) ''watchonly''"
  "\<not> jcontains (plain_json w) ''device''"
  by (simp_all add: plain_json_def json_read Let_def)

lemma load_saved:
  assumes known: "wallet_known nets w" and data: "wallet_json w = Some data"
  shows "load_record nets (w_id w) data = as_loaded w"
proof (cases "w_login w")
  case None
  then show ?thesis
    using data by (auto simp: wallet_json_plain as_loaded_def load_record_def plain_json_values)
next
  case (Some l)
  have hs: "fold (\<lambda>h. set_insert (to_string h)) (to_array (json_strings (w_hashes w))) [] = w_hashes w"
    using known hashes_back [of "w_hashes w"] by (simp add: wallet_known_def json_strings_def)
  have lk: "login_known nets l" using known Some by (simp add: wallet_known_def)
  note vals = plain_json_values [where w = w]
  show ?thesis
  proof (cases l)
    case (PinData p)
    with lk have "login_known nets (PinData p)" by simp
    then obtain b d' where
      "pin_write p (plain_json w) = Some (b, d')"
      "Some p = (if jcontains d' ''pin'' then Some (pin_read nets d') else None)"
      and other: "\<forall>k. k \<noteq> ''pin'' \<longrightarrow> jvalue d' k = jvalue (plain_json w) k \<and>
        jcontains d' k = jcontains (plain_json w) k"
      by (rule pin_format.round_trip [OF _ vals(5)])
    then have "d' = data" "jcontains d' ''pin''" "pin_read nets d' = p"
      using data PinData Some by (auto simp: wallet_json_plain split: if_splits)
    then show ?thesis using PinData Some hs vals other
      by (simp add: as_loaded_def load_record_def new_wallet_def)
  next
    case (DeviceData d)
    obtain b d' where
      "device_write d (plain_json w) = Some (b, d')"
      "Some d = (if jcontains d' ''device'' then Some (device_read d') else None)"
      and other: "\<forall>k. k \<noteq> ''device'' \<longrightarrow> jvalue d' k = jvalue (plain_json w) k \<and>
        jcontains d' k = jcontains (plain_json w) k"
      by (rule device_format.round_trip [OF TrueI vals(7)])
    then have "d' = data" "jcontains d' ''device''" "device_read d' = d"
      using data DeviceData Some by (auto simp: wallet_json_plain split: if_splits)
    then show ?thesis using DeviceData Some hs vals other
      by (simp add: as_loaded_def load_record_def new_wallet_def)
  next
    case (WatchonlyData d)
    with lk have "login_known nets (WatchonlyData d)" by simp
    then obtain b d' where
      "watchonly_write d (plain_json w) = Some (b, d')"
      "watchonly_norm d = (if jcontains d' ''watchonly'' then Some (watchonly_read nets d') else None)"
      and other: "\<forall>k. k \<noteq> ''watchonly'' \<longrightarrow> jvalue d' k = jvalue (plain_json w) k \<and>
        jcontains d' k = jcontains (plain_json w) k"
      by (rule watchonly_format.round_trip [OF _ vals(6)])
    then have "d' = data"
      and "watchonly_norm d = (if jcontains data ''watchonly'' then Some (watchonly_read nets data) else None)"
      using data WatchonlyData Some by (auto simp: wallet_json_plain)
    then show ?thesis using WatchonlyData Some hs vals other
      by (simp add: as_loaded_def load_record_def new_wallet_def watchonly_norm_loaded
          del: loaded_login.simps)
  qed
qed

lemma wallet_json_known:
  "wallet_known nets w \<Longrightarrow> \<exists>data. wallet_json w = Some data"
  by (cases "w_login w"; cases "the (w_login w)")
    (auto simp: wallet_known_def wallet_json_plain pin_write_def device_write_def
      watchonly_write_def dest!: network_known_Some)

lemma loaded_login_write: "loaded_login l = Some l1 \<Longrightarrow> login_write l1 d = login_write l d"
  by (cases l) (auto simp: watchonly_write_def split: option.splits if_splits)

lemma as_loaded_json: "as_loaded w = Some w1 \<Longrightarrow> wallet_json w1 = wallet_json w"
  by (auto simp: as_loaded_def wallet_json_def Let_def loaded_login_write
      split: option.splits bind_splits)

lemma loaded_login_known: "login_known nets l \<Longrightarrow> loaded_login l = Some l1 \<Longrightarrow> login_known nets l1"
  by (cases l) (auto split: option.splits if_splits)

lemma as_loaded_known: "wallet_known nets w \<Longrightarrow> as_loaded w = Some w1 \<Longrightarrow> wallet_known nets w1"
  by (auto simp: as_loaded_def wallet_known_def intro: loaded_login_known split: bind_splits)

section \<open>The manager after a start\<close>

definition entry_wallet :: "network list \<Rightarrow> string \<times> jobject option \<Rightarrow> wallet option" where
  "entry_wallet nets e = Option.bind (snd e) (load_record nets (base_name (fst e)))"

lemma load_entry_eq:
  "load_entry nets e m = (case entry_wallet nets e of None \<Rightarrow> m
     | Some w \<Rightarrow> add_wallet (length (m_objs m)) (m\<lparr>m_objs := m_objs m @ [w]\<rparr>))"
  by (simp add: load_entry_def entry_wallet_def split: option.splits)

lemma load_wallets_eq:
  "load_wallets nets es (new_manager files) =
     (let ws = List.map_filter (entry_wallet nets) es
      in \<lparr>m_objs = ws, m_wallets = [0..<length ws], m_files = files, m_conns = [0..<length ws],
          m_open_url = []\<rparr>)"
proof (induction es rule: rev_induct)
  case Nil
  then show ?case by (simp add: load_wallets_def new_manager_def map_filter_def)
next
  case (snoc e es)
  then show ?case
    by (cases "entry_wallet nets e")
      (simp_all add: load_wallets_def load_entry_eq add_wallet_def map_filter_def Let_def)
qed

lemma listed_load [simp]:
  "listed (load_wallets nets es (new_manager files)) = List.map_filter (entry_wallet nets) es"
  by (simp add: load_wallets_eq listed_def Let_def map_nth)

lemma m_files_load [simp]: "m_files (load_wallets nets es (new_manager files)) = files"
  by (simp add: load_wallets_eq Let_def)

lemma load_record_id: "load_record nets i d = Some w \<Longrightarrow> w_id w = i"
  by (auto simp: load_record_def Let_def split: if_splits)

lemma entry_wallet_id: "entry_wallet nets e = Some w \<Longrightarrow> w_id w = base_name (fst e)"
  by (auto simp: entry_wallet_def load_record_id split: bind_splits)

text \<open>Only the file of its own name gives a wallet with an identifier.\<close>

definition only_file :: "string \<Rightarrow> (string \<times> 'a) list \<Rightarrow> bool" where
  "only_file u es \<longleftrightarrow> distinct (map fst es) \<and> list_all (\<lambda>e. base_name (fst e) = u \<longrightarrow> fst e = u) es"

lemma only_file_perm: "only_file u es \<Longrightarrow> mset ls = mset es \<Longrightarrow> only_file u ls"
  by (metis (no_types, lifting) list_all_iff mset_eq_imp_distinct_iff mset_map only_file_def
      set_mset_mset)

lemma only_file_insert:
  assumes "only_file u es" and "qm_ok es" shows "only_file u (qm_insert u c es)"
proof -
  have "set (qm_insert u c es) \<subseteq> insert (u, c) (set es)"
    by (induction u c es rule: qm_insert.induct) auto
  with assms qm_ok_distinct [OF qm_ok_insert [OF assms(2)], of u c] show ?thesis
    by (auto simp: only_file_def list_all_iff)
qed

lemma entries_of_id:
  assumes "only_file u es"
  shows "filter (\<lambda>w. w_id w = u) (List.map_filter (entry_wallet nets) es) =
    (case map_of es u of None \<Rightarrow> []
     | Some c \<Rightarrow> (case entry_wallet nets (u, c) of Some w \<Rightarrow> if base_name u = u then [w] else [] | None \<Rightarrow> []))"
  using assms
proof (induction es)
  case Nil
  then show ?case by (simp add: map_filter_def)
next
  case (Cons e es)
  obtain f c where e: "e = (f, c)" by fastforce
  have rest: "only_file u es" using Cons.prems by (simp add: only_file_def)
  have none: "map_of es u = None" if "f = u"
    using Cons.prems that e by (auto simp: only_file_def map_of_eq_None_iff)
  show ?case
    using Cons.IH [OF rest] Cons.prems none e entry_wallet_id [of nets e]
    by (cases "entry_wallet nets e") (auto simp: map_filter_simps only_file_def)
qed

lemma wallet_by_id_loaded:
  assumes "filter (\<lambda>w. w_id w = u) (List.map_filter (entry_wallet nets) es) = [w]"
  obtains i where "wallet_by_id u (load_wallets nets es (new_manager files)) = Some i"
    and "i < length (m_objs (load_wallets nets es (new_manager files)))"
    and "m_objs (load_wallets nets es (new_manager files)) ! i = w"
proof -
  let ?ws = "List.map_filter (entry_wallet nets) es"
  have "w \<in> set ?ws \<and> w_id w = u"
    using arg_cong [OF assms, of set] by auto
  then obtain k where k: "k < length ?ws" "w_id (?ws ! k) = u" by (metis in_set_conv_nth)
  then have "find (\<lambda>i. w_id (?ws ! i) = u) [0..<length ?ws] \<noteq> None"
    by (auto simp: find_None_iff)
  then obtain i where i: "find (\<lambda>i. w_id (?ws ! i) = u) [0..<length ?ws] = Some i" by blast
  then have "i < length ?ws" "w_id (?ws ! i) = u" by (auto simp: find_Some_iff)
  then have "?ws ! i \<in> set (filter (\<lambda>w. w_id w = u) ?ws)" by simp
  with assms have "?ws ! i = w" by simp
  with i \<open>i < length ?ws\<close> that show ?thesis
    by (simp add: load_wallets_eq Let_def wallet_by_id_def)
qed

section \<open>A wallet and its file\<close>

text \<open>
  \<open>kept_at nets i m\<close>: the file of wallet \<open>i\<close> is what \<open>save\<close> would write now, and no other
  file passes for it.
\<close>

definition kept_at :: "network list \<Rightarrow> nat \<Rightarrow> manager \<Rightarrow> bool" where
  "kept_at nets i m \<longleftrightarrow>
     (let w = m_objs m ! i
      in i < length (m_objs m) \<and> w_persisted w \<and> wallet_known nets w \<and>
         map_of (m_files m) (w_id w) = Some (wallet_json w) \<and>
         qm_ok (m_files m) \<and> only_file (w_id w) (m_files m))"

lemma modify_wallet_simps [simp]:
  "m_files (modify_wallet i f m) = m_files m" "m_wallets (modify_wallet i f m) = m_wallets m"
  "m_conns (modify_wallet i f m) = m_conns m"
  "length (m_objs (modify_wallet i f m)) = length (m_objs m)"
  by (simp_all add: modify_wallet_def)

lemma modify_wallet_nth:
  "i < length (m_objs m) \<Longrightarrow>
    m_objs (modify_wallet i f m) ! j = (if j = i then f (m_objs m ! i) else m_objs m ! j)"
  by (simp add: modify_wallet_def nth_list_update)

lemma modify_wallet_by_id:
  assumes "i < length (m_objs m)" and "w_id (f (m_objs m ! i)) = w_id (m_objs m ! i)"
  shows "wallet_by_id u (modify_wallet i f m) = wallet_by_id u m"
proof -
  have "w_id (m_objs (modify_wallet i f m) ! j) = w_id (m_objs m ! j)" for j
    using assms by (simp add: modify_wallet_nth)
  then show ?thesis by (simp add: wallet_by_id_def)
qed

lemma save_known:
  assumes "w_persisted (m_objs m ! i)" and "wallet_known nets (m_objs m ! i)"
  shows "save i m = Some (m\<lparr>m_files :=
    qm_insert (w_id (m_objs m ! i)) (wallet_json (m_objs m ! i)) (m_files m)\<rparr>)"
  using wallet_json_known [OF assms(2)] assms by (auto simp: save_def wallet_known_def)

lemma save_transient: "w_id (m_objs m ! i) \<noteq> [] \<Longrightarrow> \<not> w_persisted (m_objs m ! i) \<Longrightarrow> save i m = Some m"
  by (simp add: save_def)

lemma save_keeps:
  assumes "i < length (m_objs m)" "w_persisted (m_objs m ! i)" "wallet_known nets (m_objs m ! i)"
    "qm_ok (m_files m)" "only_file (w_id (m_objs m ! i)) (m_files m)"
  obtains m' where "save i m = Some m'" "kept_at nets i m'" "m_objs m' = m_objs m"
    "m_wallets m' = m_wallets m" "\<And>u. wallet_by_id u m' = wallet_by_id u m"
  using assms save_known [of m i nets]
  by (simp add: kept_at_def qmap_simps qm_ok_insert only_file_insert wallet_by_id_def)

text \<open>The pattern of every setter: change the login and save.\<close>

lemma login_update_keeps:
  assumes kept: "kept_at nets i m" and known: "login_known nets l"
  obtains m' where "save i (set_login i (Some l) m) = Some m'" "kept_at nets i m'"
    "m_objs m' ! i = (m_objs m ! i)\<lparr>w_login := Some l\<rparr>"
    "\<And>u. wallet_by_id u m' = wallet_by_id u m"
proof -
  let ?m = "set_login i (Some l) m"
  from kept have i: "i < length (m_objs m)" by (simp add: kept_at_def Let_def)
  have w: "m_objs ?m ! i = (m_objs m ! i)\<lparr>w_login := Some l\<rparr>"
    using i by (simp add: set_login_def modify_wallet_nth)
  have "save i ?m = Some m' \<Longrightarrow> kept_at nets i m' \<Longrightarrow> m_objs m' = m_objs ?m \<Longrightarrow>
      (\<And>u. wallet_by_id u m' = wallet_by_id u ?m) \<Longrightarrow> thesis" for m'
    using that w i by (simp add: set_login_def modify_wallet_by_id)
  then show thesis
    using kept known i w save_keeps [of i ?m nets thesis]
    by (simp add: kept_at_def Let_def wallet_known_def) (simp add: set_login_def)
qed

lemma kept_restart:
  assumes kept: "kept_at nets i m" and w1: "as_loaded (m_objs m ! i) = Some w1"
    and ls: "mset ls = mset (m_files m)"
  obtains j where
    "wallet_by_id (w_id (m_objs m ! i)) (load_wallets nets ls (new_manager (m_files m))) = Some j"
    "kept_at nets j (load_wallets nets ls (new_manager (m_files m)))"
    "m_objs (load_wallets nets ls (new_manager (m_files m))) ! j = w1"
proof -
  let ?w = "m_objs m ! i" and ?m = "load_wallets nets ls (new_manager (m_files m))"
  let ?u = "w_id ?w"
  have known: "wallet_known nets ?w" and stored: "map_of (m_files m) ?u = Some (wallet_json ?w)"
    and ok: "qm_ok (m_files m)" and only: "only_file ?u (m_files m)" and i: "i < length (m_objs m)"
    using kept by (auto simp: kept_at_def Let_def)
  obtain data where data: "wallet_json ?w = Some data" using wallet_json_known [OF known] by blast
  have only': "only_file ?u ls" using only_file_perm [OF only ls] .
  have "map_of ls ?u = Some (Some data)"
    using map_of_SomeD [OF stored] data only' mset_eq_setD [OF ls]
    by (simp add: only_file_def map_of_is_SomeI)
  moreover have "entry_wallet nets (?u, Some data) = Some w1" and base: "base_name ?u = ?u"
    using load_saved [OF known data] known w1 by (auto simp: entry_wallet_def wallet_known_def)
  ultimately have "filter (\<lambda>w. w_id w = ?u) (List.map_filter (entry_wallet nets) ls) = [w1]"
    using entries_of_id [OF only', of nets] by simp
  then obtain j where j: "wallet_by_id ?u ?m = Some j" "j < length (m_objs ?m)" "m_objs ?m ! j = w1"
    by (rule wallet_by_id_loaded)
  have "w_id w1 = ?u" "w_persisted w1"
    using w1 by (auto simp: as_loaded_def split: bind_splits)
  then have "kept_at nets j ?m"
    using j ok only stored as_loaded_known [OF known w1] as_loaded_json [OF w1]
    by (simp add: kept_at_def Let_def)
  with j that show thesis by blast
qed

lemma saved_back:
  assumes "w_persisted (m_objs m ! i)" and "wallet_known nets (m_objs m ! i)"
    and "qm_ok (m_files m)" and "only_file (w_id (m_objs m ! i)) (m_files m)"
    and "save i m = Some m'" and "mset ls = mset (m_files m')"
  shows "filter (\<lambda>w. w_id w = w_id (m_objs m ! i))
      (listed (load_wallets nets ls (new_manager (m_files m')))) =
    (case as_loaded (m_objs m ! i) of None \<Rightarrow> [] | Some w \<Rightarrow> [w])"
proof -
  let ?w = "m_objs m ! i"
  obtain data where data: "wallet_json ?w = Some data" using wallet_json_known [OF assms(2)] by blast
  have files: "m_files m' = qm_insert (w_id ?w) (Some data) (m_files m)"
    using save_known [OF assms(1,2)] assms(5) data by simp
  then have "only_file (w_id ?w) (m_files m')" using assms(3,4) by (simp add: only_file_insert)
  then have only: "only_file (w_id ?w) ls" using assms(6) by (rule only_file_perm)
  have "(w_id ?w, Some data) \<in> set ls"
    using map_of_SomeD [of "m_files m'" "w_id ?w" "Some data"] mset_eq_setD [OF assms(6)]
    by (simp add: files qmap_simps)
  then have "map_of ls (w_id ?w) = Some (Some data)"
    using only by (simp add: only_file_def map_of_is_SomeI)
  moreover have "entry_wallet nets (w_id ?w, Some data) = as_loaded ?w" "base_name (w_id ?w) = w_id ?w"
    using load_saved [OF assms(2) data] assms(2) by (auto simp: entry_wallet_def wallet_known_def)
  ultimately show ?thesis using entries_of_id [OF only, of nets] by (simp split: option.split)
qed

section \<open>Counting attempts\<close>

definition pin_kept :: "network list \<Rightarrow> string \<Rightarrow> int \<Rightarrow> manager \<Rightarrow> bool" where
  "pin_kept nets u a m \<longleftrightarrow>
     (\<exists>i p. wallet_by_id u m = Some i \<and> w_id (m_objs m ! i) = u \<and> kept_at nets i m \<and>
            w_login (m_objs m ! i) = Some (PinData p) \<and> p_attempts p = a)"

lemma pin_keptE:
  assumes "pin_kept nets u a m"
  obtains i p where "wallet_by_id u m = Some i" "w_id (m_objs m ! i) = u" "kept_at nets i m"
    "w_login (m_objs m ! i) = Some (PinData p)" "p_attempts p = a" "wallet_pin i m = Some p"
    "login_known nets (PinData p)"
proof -
  from assms obtain i p where "wallet_by_id u m = Some i" "w_id (m_objs m ! i) = u"
    "kept_at nets i m" and l: "w_login (m_objs m ! i) = Some (PinData p)" and "p_attempts p = a"
    by (auto simp: pin_kept_def)
  moreover from l have "wallet_pin i m = Some p" by (simp add: wallet_pin_def)
  moreover from l \<open>kept_at nets i m\<close> have "login_known nets (PinData p)"
    by (simp add: kept_at_def Let_def wallet_known_def)
  ultimately show thesis using that by blast
qed

lemma pin_login_keeps:
  assumes "wallet_by_id u m = Some i" "w_id (m_objs m ! i) = u" "kept_at nets i m"
    "login_known nets (PinData p)"
  obtains m' where "save i (set_login i (Some (PinData p)) m) = Some m'"
    "pin_kept nets u (p_attempts p) m'"
proof -
  from assms obtain m' where "save i (set_login i (Some (PinData p)) m) = Some m'"
    "kept_at nets i m'" "m_objs m' ! i = (m_objs m ! i)\<lparr>w_login := Some (PinData p)\<rparr>"
    "\<And>v. wallet_by_id v m' = wallet_by_id v m"
    by (blast elim: login_update_keeps)
  with assms that show thesis by (simp add: pin_kept_def)
qed

lemma set_attempts_keeps:
  assumes kept: "pin_kept nets u a m" and b: "- (2 ^ 31) \<le> b" "b < 2 ^ 31"
    and i: "wallet_by_id u m = Some i"
  obtains m' where "set_attempts i b m = Some m'" "pin_kept nets u b m'"
proof (rule pin_keptE [OF kept])
  fix k p
  assume k: "wallet_by_id u m = Some k" "w_id (m_objs m ! k) = u" "kept_at nets k m"
    "w_login (m_objs m ! k) = Some (PinData p)" "p_attempts p = a" "wallet_pin k m = Some p"
    "login_known nets (PinData p)"
  with i have ki: "k = i" by simp
  show thesis
  proof (cases "a = b")
    case True
    with k ki kept that show ?thesis by (simp add: set_attempts_def)
  next
    case False
    have "login_known nets (PinData (p\<lparr>p_attempts := b\<rparr>))" using k b by simp
    with k ki obtain m' where
      "save i (set_login i (Some (PinData (p\<lparr>p_attempts := b\<rparr>))) m) = Some m'"
      "pin_kept nets u (p_attempts (p\<lparr>p_attempts := b\<rparr>)) m'" by (blast elim: pin_login_keeps)
    with k ki False that show ?thesis by (simp add: set_attempts_def)
  qed
qed

lemma new_pin_keeps:
  assumes kept: "pin_kept nets u a m" and net: "network_by_id nets (n_id net) = Some net"
    and i: "wallet_by_id u m = Some i"
  obtains m' where "new_pin_finished i net r m = Some m'" "pin_kept nets u 3 m'"
proof (rule pin_keptE [OF kept])
  fix k p
  assume k: "wallet_by_id u m = Some k" "w_id (m_objs m ! k) = u" "kept_at nets k m"
    "w_login (m_objs m ! k) = Some (PinData p)"
  with i have ki: "k = i" by simp
  define d where "d = to_object (jvalue (to_object (jvalue r ''result'')) ''pin_data'')"
  define q where "q = new_pin_data\<lparr>p_network := Some net, p_data := d\<rparr>"
  have "\<exists>m1. set_new_pin_data i (new_pin_data\<lparr>p_network := Some net\<rparr>) d m = Some (q, m1) \<and>
      wallet_by_id u m1 = Some i \<and> w_id (m_objs m1 ! i) = u \<and> kept_at nets i m1"
  proof (cases "d = []")
    case True
    with k ki show ?thesis by (auto simp: set_new_pin_data_def new_pin_data_def q_def)
  next
    case False
    from k ki obtain m1 where "save i m = Some m1" "kept_at nets i m1" "m_objs m1 = m_objs m"
      "\<And>v. wallet_by_id v m1 = wallet_by_id v m"
      using save_keeps [of i m nets] by (auto simp: kept_at_def Let_def)
    with k ki False show ?thesis by (auto simp: set_new_pin_data_def new_pin_data_def q_def)
  qed
  then obtain m1 where m1: "set_new_pin_data i (new_pin_data\<lparr>p_network := Some net\<rparr>) d m = Some (q, m1)"
    "wallet_by_id u m1 = Some i" "w_id (m_objs m1 ! i) = u" "kept_at nets i m1" by blast
  have "login_known nets (PinData q)" using net by (simp add: q_def new_pin_data_def network_known_def)
  with m1 obtain m2 where m2: "save i (set_login i (Some (PinData q)) m1) = Some m2"
    "pin_kept nets u (p_attempts q) m2" by (blast elim: pin_login_keeps)
  have "new_pin_finished i net r m = Some m2"
    using m1 m2 by (simp add: new_pin_finished_def d_def Let_def)
  with m2 that show thesis by (simp add: q_def new_pin_data_def)
qed

lemma pin_kept_restart:
  assumes kept: "pin_kept nets u a m" and ls: "mset ls = mset (m_files m)"
  shows "pin_kept nets u a (load_wallets nets ls (new_manager (m_files m)))"
proof (rule pin_keptE [OF kept])
  fix i p
  assume i: "w_id (m_objs m ! i) = u" "kept_at nets i m"
    "w_login (m_objs m ! i) = Some (PinData p)" "p_attempts p = a"
  let ?w = "(m_objs m ! i)\<lparr>w_persisted := True, w_login := Some (PinData p), w_context := None\<rparr>"
  have "as_loaded (m_objs m ! i) = Some ?w" using i by (simp add: as_loaded_def)
  then obtain j where
    "wallet_by_id (w_id (m_objs m ! i)) (load_wallets nets ls (new_manager (m_files m))) = Some j"
    "kept_at nets j (load_wallets nets ls (new_manager (m_files m)))"
    "m_objs (load_wallets nets ls (new_manager (m_files m))) ! j = ?w"
    by (rule kept_restart [OF i(2) _ ls])
  with i show ?thesis by (auto simp: pin_kept_def)
qed

section \<open>Names\<close>

lemma search_name_least:
  "\<exists>k \<ge> n. search_name names base n = numbered base k \<and> numbered base k \<notin> set names \<and>
    numbered base ` {n..<k} \<subseteq> set names"
proof (induction names base n rule: search_name.induct)
  case (1 names base n)
  show ?case
  proof (cases "numbered base n \<in> set names")
    case True
    with 1 obtain k where k: "Suc n \<le> k" "search_name names base (Suc n) = numbered base k"
      "numbered base k \<notin> set names" "numbered base ` {Suc n..<k} \<subseteq> set names" by blast
    have "{n..<k} = insert n {Suc n..<k}" using k(1) by auto
    with k True show ?thesis
      by (intro exI [of _ k]) (simp add: search_name.simps [of names base n])
  next
    case False
    then show ?thesis
      by (intro exI [of _ n]) (simp add: search_name.simps [of names base n])
  qed
qed

lemma unique_wallet_name_least:
  obtains k where "unique_wallet_name base m = numbered base k"
    and "numbered base ` {..<k} \<subseteq> w_name ` set (listed m)"
    and "plain_text base \<longrightarrow> unique_wallet_name base m \<notin> w_name ` set (listed m)"
proof -
  let ?names = "filter (\<lambda>name. take (length base) name = base) (map w_name (listed m))"
  obtain k where k: "search_name ?names base 0 = numbered base k"
    "numbered base k \<notin> set ?names" "numbered base ` {0..<k} \<subseteq> set ?names"
    using search_name_least [of 0 ?names base] by blast
  have "plain_text base \<longrightarrow> numbered base k \<notin> w_name ` set (listed m)"
  proof
    assume "plain_text base"
    then have "take (length base) (numbered base k) = base" by (simp add: numbered_plain)
    with k(2) show "numbered base k \<notin> w_name ` set (listed m)" by auto
  qed
  moreover have "numbered base ` {..<k} \<subseteq> w_name ` set (listed m)"
    using k(3) by (auto simp: atLeast0LessThan)
  ultimately show thesis using k(1) that by (simp add: unique_wallet_name_def)
qed

lemma plain_my_wallet [simp]: "plain_text ''My Wallet''"
  by (simp add: plain_text_def map_filter_simps)

section \<open>Creating\<close>

lemma create_wallet_simps [simp]:
  "fst (create_wallet u m) = length (m_objs m)"
  "snd (create_wallet u m) = m\<lparr>m_objs := m_objs m @ [new_wallet\<lparr>w_id := u\<rparr>]\<rparr>"
  by (simp_all add: create_wallet_def)

lemma modify_last [simp]:
  "modify_wallet (length ws) f (m\<lparr>m_objs := ws @ [w]\<rparr>) = m\<lparr>m_objs := ws @ [f w]\<rparr>"
  by (simp add: modify_wallet_def)

lemma save_last_transient:
  "w_id w \<noteq> [] \<Longrightarrow> \<not> w_persisted w \<Longrightarrow>
    save (length ws) (m\<lparr>m_objs := ws @ [w]\<rparr>) = Some (m\<lparr>m_objs := ws @ [w]\<rparr>)"
  by (simp add: save_def)

lemma context_changed_attached:
  "w_context (m_objs m ! i) \<noteq> None \<Longrightarrow> context_changed cs i m = Some m"
  by (induction cs) auto

lemma context_changed_persisted:
  "w_persisted (m_objs m ! i) \<Longrightarrow> context_changed cs i m = Some m"
  by (induction cs) auto

text \<open>Indices in the list are those of objects.\<close>

definition store_ok :: "manager \<Rightarrow> bool" where
  "store_ok m \<longleftrightarrow> list_all (\<lambda>i. i < length (m_objs m)) (m_wallets m)"

lemma listed_append:
  assumes "store_ok m"
  shows "listed (m\<lparr>m_objs := m_objs m @ ws\<rparr>) = listed m"
  using assms by (auto simp: store_ok_def listed_def list_all_iff nth_append)

lemma unique_name_append:
  "store_ok m \<Longrightarrow> unique_wallet_name base (m\<lparr>m_objs := m_objs m @ ws\<rparr>) = unique_wallet_name base m"
  by (simp add: unique_wallet_name_def listed_append)

lemma save_objs: "save i m = Some m' \<Longrightarrow> m_objs m' = m_objs m"
  by (auto simp: save_def Let_def split: if_splits bind_splits)

lemma new_wallet_name_nonempty [simp]: "new_wallet_name m \<noteq> []"
  by (rule unique_wallet_name_least [of "''My Wallet''" m])
    (simp add: new_wallet_name_def numbered_plain)

lemma restore_creates:
  assumes ok: "store_ok m" and uuid: "uuid \<noteq> []" and xpub: "xpub \<noteq> []"
    and w_def: "w = new_wallet\<lparr>w_id := uuid, w_name := new_wallet_name m, w_xpub_hash_id := xpub,
    w_deployment := dep, w_persisted := True, w_context := Some c\<rparr>"
  shows "restore_all_finished uuid dep xpub c None m =
    Some (RestoreFinished (length (m_objs m)),
      find (\<lambda>j. is_pin (m_objs m ! j) \<and> w_xpub_hash_id (m_objs m ! j) = xpub) (m_wallets m),
      m\<lparr>m_objs := m_objs m @ [w], m_wallets := m_wallets m @ [length (m_objs m)],
        m_conns := m_conns m @ [length (m_objs m)],
        m_files := qm_insert uuid (wallet_json w) (m_files m)\<rparr>)"
proof -
  have new: "length (m_objs m) \<notin> set (m_wallets m)"
    using ok by (auto simp: store_ok_def list_all_iff)
  obtain data where data: "wallet_json w = Some data"
    by (simp add: wallet_json_plain w_def new_wallet_def)
  have name: "new_wallet_name (m\<lparr>m_objs := m_objs m @ ws\<rparr>) = new_wallet_name m" for ws
    using unique_name_append [OF ok] by (simp add: new_wallet_name_def)
  show ?thesis
    using uuid xpub new data
    by (simp add: restore_all_finished_def create_wallet_def set_name_def name set_xpub_hash_id_def
        save_last_transient new_wallet_def context_set_wallet_def set_context_def
        context_changed_attached insert_wallet_def add_wallet_def save_def Let_def w_def)
qed

lemma restore_attaches:
  assumes "e < length (m_objs m)" and "w_xpub_hash_id (m_objs m ! e) = xpub"
  shows "\<exists>m2. restore_all_finished u dep xpub c (Some e) m = Some (RestoreFinished e, Some e, m2) \<and>
    m_wallets m2 = m_wallets m"
  using assms
  by (auto simp: restore_all_finished_def context_set_wallet_def set_xpub_hash_id_def
      set_context_def Let_def context_changed_attached modify_wallet_nth)

end
