(* ===== verification/Wallet_Props.thy ===== *)
theory Wallet_Props
  imports Wallet_Facts
begin

text \<open>
  Properties of wallets and their files: what survives a restart, how PIN attempts are counted,
  names, restoring, and PINs that are given up.
\<close>

section \<open>The page for the PIN\<close>

lemma wrong_pins_snoc [simp]: "wrong_pins (es @ [e]) = count_wrong e (wrong_pins es)"
  by (simp add: wrong_pins_def)

lemma wrong_pins_Nil [simp]: "wrong_pins [] = 0"
  by (simp add: wrong_pins_def)

lemma wrong_pins_le: "wrong_pins es \<le> length es"
proof (induction es rule: rev_induct)
  case (snoc e es)
  then show ?case by (cases e) auto
qed simp

text \<open>The networks of new PINs are those of sessions, which come from the network manager.\<close>

fun known_event :: "network list \<Rightarrow> page_event \<Rightarrow> bool" where
  "known_event nets (PinChanged net r) \<longleftrightarrow> network_by_id nets (n_id net) = Some net"
| "known_event nets _ \<longleftrightarrow> True"

definition fresh_page :: "pin_page \<Rightarrow> bool" where
  "fresh_page s \<longleftrightarrow> pg_open s \<and> pg_enabled s \<and> \<not> pg_pending s \<and> \<not> pg_covered s"

definition entered_when :: "(nat \<Rightarrow> bool) \<Rightarrow> page_event list \<Rightarrow> bool" where
  "entered_when P es \<longleftrightarrow> (\<exists>es1 pin es2. es = es1 @ PinEntered pin # es2 \<and> P (wrong_pins es1))"

lemma entered_when_snoc:
  "entered_when P es \<Longrightarrow> entered_when P (es @ [e])"
  "P (wrong_pins es) \<Longrightarrow> entered_when P (es @ [PinEntered pin])"
  unfolding entered_when_def by (metis append.assoc append_Cons, blast)

lemma entered_when_mono: "entered_when P es \<Longrightarrow> (\<And>n. P n \<Longrightarrow> Q n) \<Longrightarrow> entered_when Q es"
  by (auto simp: entered_when_def)

definition page_inv :: "bool \<Rightarrow> network list \<Rightarrow> string \<Rightarrow> page_event list \<Rightarrow> pin_page \<Rightarrow> bool" where
  "page_inv checks nets u es s \<longleftrightarrow>
     pg_id s = u \<and> pin_kept nets u (3 - int (wrong_pins es)) (pg_mgr s) \<and>
     (checks \<longrightarrow> wrong_pins es \<le> 3) \<and>
     (pg_pending s \<longrightarrow> pg_open s \<and> entered_when (\<lambda>n. n = wrong_pins es) es) \<and>
     (pg_covered s \<and> pg_open s \<longrightarrow> 3 \<le> wrong_pins es) \<and>
     (3 < wrong_pins es \<longrightarrow> entered_when (\<lambda>n. 3 \<le> n) es)"

lemma page_attempts_kept:
  "pin_kept nets (pg_id s) a (pg_mgr s) \<Longrightarrow> page_attempts s = Some a"
  by (erule pin_keptE) (auto simp: page_attempts_def page_wallet_def)

lemma page_signal_simps [simp]:
  "pg_mgr (page_signal g s) = pg_mgr s" "pg_id (page_signal g s) = pg_id s"
  "pg_open (page_signal g s) = pg_open s" "pg_pending (page_signal g s) = pg_pending s"
  "pg_covered (page_signal g s) = pg_covered s"
  by (cases g; simp)+

lemma refused_step:
  assumes inv: "page_inv checks nets u es s" and pending: "pg_pending s"
    and len: "wrong_pins es < 2 ^ 31"
    and step: "page_step checks nets (LoginRefused e) s = Some s'"
  shows "page_inv checks nets u (es @ [LoginRefused e]) s'"
proof -
  let ?n = "wrong_pins es"
  have kept: "pin_kept nets u (3 - int ?n) (pg_mgr s)" and u: "pg_id s = u"
    using inv by (auto simp: page_inv_def)
  from kept obtain i p where i: "wallet_by_id u (pg_mgr s) = Some i"
    and p: "wallet_pin i (pg_mgr s) = Some p" "p_attempts p = 3 - int ?n" by (rule pin_keptE)
  have entered: "entered_when (\<lambda>n. n = ?n) es" using inv pending by (simp add: page_inv_def)
  show ?thesis
  proof (cases "e = ''id_invalid_pin''")
    case False
    with step i u have "pg_mgr s' = pg_mgr s" "pg_id s' = u" "pg_open s' = pg_open s"
      "\<not> pg_pending s'" "pg_covered s' = pg_covered s"
      by (auto simp: page_wallet_def pin_login_failed_def)
    with inv False show ?thesis
      by (auto simp: page_inv_def intro: entered_when_snoc)
  next
    case True
    obtain m' where m': "set_attempts i (3 - int (Suc ?n)) (pg_mgr s) = Some m'"
      "pin_kept nets u (3 - int (Suc ?n)) m'"
      using set_attempts_keeps [OF kept _ _ i, of "3 - int (Suc ?n)"] len by auto
    have dec: "decrement_attempts checks i (pg_mgr s) = (if checks \<and> 3 \<le> ?n then None else Some m')"
    proof -
      have less: "p_attempts p - 1 = 3 - int (Suc ?n)" using p by simp
      have none: "p_attempts p \<le> 0 \<longleftrightarrow> 3 \<le> ?n" using p by auto
      show ?thesis using p(1) m'(1) by (simp add: decrement_attempts_def less none)
    qed
    with step i u True have "\<not> (checks \<and> 3 \<le> ?n)" "pg_mgr s' = m'" "pg_id s' = u"
      "pg_open s' = pg_open s" "\<not> pg_pending s'" "pg_covered s' = pg_covered s"
      by (auto simp: page_wallet_def pin_login_failed_def split: if_splits)
    moreover have "entered_when (\<lambda>n. 3 \<le> n) (es @ [LoginRefused e])" if "3 < Suc ?n"
      by (rule entered_when_snoc(1), rule entered_when_mono [OF entered]) (use that in simp)
    ultimately show ?thesis using inv m'(2) True by (auto simp: page_inv_def)
  qed
qed

lemma page_inv_step:
  assumes inv: "page_inv checks nets u es s" and can: "page_can e s" and known: "known_event nets e"
    and len: "wrong_pins es < 2 ^ 31" and step: "page_step checks nets e s = Some s'"
  shows "page_inv checks nets u (es @ [e]) s'"
proof -
  have kept: "pin_kept nets u (3 - int (wrong_pins es)) (pg_mgr s)" and u: "pg_id s = u"
    using inv by (auto simp: page_inv_def)
  from kept obtain i where i: "wallet_by_id u (pg_mgr s) = Some i" by (rule pin_keptE)
  show ?thesis
  proof (cases e)
    case (LoginRefused x)
    with refused_step [OF inv _ len] can step show ?thesis by simp
  next
    case (PinEntered pin)
    then show ?thesis
      using inv step can
      by (auto simp: page_inv_def intro: entered_when_snoc split: bind_splits)
  next
    case LoginSucceeded
    obtain m' where "set_attempts i 3 (pg_mgr s) = Some m'" "pin_kept nets u 3 m'"
      by (rule set_attempts_keeps [OF kept _ _ i, of 3]) auto
    with LoginSucceeded step i u show ?thesis
      by (auto simp: page_inv_def page_wallet_def pin_login_finished_def reset_attempts_def)
  next
    case (PinChanged net r)
    with known obtain m' where "new_pin_finished i net r (pg_mgr s) = Some m'" "pin_kept nets u 3 m'"
      using new_pin_keeps [OF kept _ i] by auto
    with PinChanged step i u inv can show ?thesis
      by (auto simp: page_inv_def page_wallet_def)
  next
    case NoAttemptsTimer
    with can kept u have "wrong_pins es = 3"
      using page_attempts_kept [of nets s "3 - int (wrong_pins es)"] by simp
    with NoAttemptsTimer step inv show ?thesis
      by (auto simp: page_inv_def intro: entered_when_snoc)
  next
    case PageOpened
    with step inv show ?thesis by (auto simp: page_inv_def open_page_def intro: entered_when_snoc)
  next
    case Restarted
    with step inv pin_kept_restart [OF kept refl] show ?thesis
      by (auto simp: page_inv_def open_page_def intro: entered_when_snoc)
  qed
qed

lemma page_runs_inv:
  assumes "page_runs checks nets s0 es s" and start: "pin_kept nets (pg_id s0) 3 (pg_mgr s0)"
    and "fresh_page s0" and "list_all (known_event nets) es" and "length es < 2 ^ 31"
  shows "page_inv checks nets (pg_id s0) es s"
  using assms
proof (induction rule: page_runs.induct)
  case runs_start
  then show ?case by (simp add: page_inv_def fresh_page_def)
next
  case (runs_step es s e s')
  then have "page_inv checks nets (pg_id s0) es s" by simp
  then show ?case
    by (rule page_inv_step) (use runs_step wrong_pins_le [of es] in auto)
qed

text \<open>Runs can be computed.\<close>

fun run_page :: "bool \<Rightarrow> network list \<Rightarrow> page_event list \<Rightarrow> pin_page \<Rightarrow> pin_page option" where
  "run_page checks nets [] s = Some s"
| "run_page checks nets (e # es) s =
     (if page_can e s then do { s' \<leftarrow> page_step checks nets e s; run_page checks nets es s' } else None)"

lemma page_runs_append:
  "page_runs checks nets s0 es0 s \<Longrightarrow> run_page checks nets es s = Some s' \<Longrightarrow>
    page_runs checks nets s0 (es0 @ es) s'"
proof (induction es arbitrary: es0 s)
  case (Cons e es)
  then obtain t where "page_can e s" "page_step checks nets e s = Some t"
    "run_page checks nets es t = Some s'" by (auto split: if_splits bind_splits)
  with Cons.IH [of "es0 @ [e]" t] Cons.prems(1) show ?case by (simp add: runs_step)
qed simp

lemma page_runs_exec: "run_page checks nets es s0 = Some s \<Longrightarrow> page_runs checks nets s0 es s"
  using page_runs_append [OF runs_start, of checks nets es s0 s] by simp

text \<open>A wallet to evaluate the properties on.\<close>

definition demo_net :: network where
  "demo_net = new_network (jobj [(''network'', JStr ''electrum-mainnet''), (''mainnet'', JBool True),
     (''server_type'', JStr ''electrum'')])"

definition demo_pin :: pin_data where
  "demo_pin = new_pin_data\<lparr>p_network := Some demo_net, p_data := [(''salt'', JStr ''00'')]\<rparr>"

definition demo_wallet :: wallet where
  "demo_wallet = new_wallet\<lparr>w_persisted := True, w_deployment := ''mainnet'', w_id := ''a1'',
     w_name := ''My Wallet'', w_xpub_hash_id := ''f0'', w_login := Some (PinData demo_pin)\<rparr>"

definition demo_mgr :: manager where
  "demo_mgr = \<lparr>m_objs = [demo_wallet], m_wallets = [0], m_files = [(''a1'', wallet_json demo_wallet)],
     m_conns = [0], m_open_url = []\<rparr>"

definition demo_page :: pin_page where
  "demo_page = \<lparr>pg_mgr = demo_mgr, pg_id = ''a1'', pg_open = True, pg_enabled = True,
     pg_pending = False, pg_covered = False\<rparr>"

lemma demo_net_known: "network_by_id [demo_net] (n_id demo_net) = Some demo_net"
  by (simp add: network_by_id_def)

lemma demo_known: "wallet_known [demo_net] demo_wallet"
  by (simp add: wallet_known_def demo_wallet_def demo_pin_def new_pin_data_def new_wallet_def
      network_known_def demo_net_known)

lemma demo_kept: "kept_at [demo_net] 0 demo_mgr"
  using demo_known
  by (simp add: kept_at_def Let_def demo_mgr_def demo_wallet_def qm_ok_def only_file_def
      new_wallet_def)

lemma demo_pin_kept: "pin_kept [demo_net] ''a1'' 3 demo_mgr"
  using demo_kept
  by (auto simp: pin_kept_def demo_mgr_def wallet_by_id_def demo_wallet_def demo_pin_def
      new_wallet_def new_pin_data_def)

lemma demo_fresh: "fresh_page demo_page"
  by (simp add: fresh_page_def demo_page_def)

definition demo_events :: "page_event list" where
  "demo_events = [PinEntered ''123456'', LoginRefused ''id_invalid_pin'', Restarted]"

section \<open>Attempts\<close>

text \<open>
  C8.  PIN attempts are counted across restarts.  Along every run of the page (PINs entered,
  logins that end well or badly, the program stopped and started again, PINs changed), the
  attempts the page shows are three less the wrong PINs since the last right or new one, and
  so are those a restart would read back, in whatever order the directory lists its files.  A
  build with assertions never lets a fourth wrong PIN through; in any build the page is covered
  only after three wrong PINs, and more than three were only possible because a PIN was entered
  when no attempt was left.
\<close>

theorem pin_attempts_counted:
  assumes "page_runs checks nets s0 es s" and "pin_kept nets (pg_id s0) 3 (pg_mgr s0)"
    and "fresh_page s0" and "list_all (known_event nets) es" and "length es < 2 ^ 31"
    and "mset ls = mset (m_files (pg_mgr s))"
  shows "page_attempts s = Some (3 - int (wrong_pins es)) \<and>
    page_attempts (s\<lparr>pg_mgr := load_wallets nets ls (new_manager (m_files (pg_mgr s)))\<rparr>) = page_attempts s \<and>
    (checks \<longrightarrow> wrong_pins es \<le> 3) \<and>
    (pg_covered s \<and> pg_open s \<longrightarrow> 3 \<le> wrong_pins es) \<and>
    (3 < wrong_pins es \<longrightarrow> (\<exists>es1 pin es2. es = es1 @ PinEntered pin # es2 \<and> 3 \<le> wrong_pins es1))"
proof (intro conjI)
  have inv: "page_inv checks nets (pg_id s0) es s" by (rule page_runs_inv) (use assms in auto)
  then have kept: "pin_kept nets (pg_id s) (3 - int (wrong_pins es)) (pg_mgr s)"
    by (simp add: page_inv_def)
  from kept show now: "page_attempts s = Some (3 - int (wrong_pins es))"
    by (rule page_attempts_kept)
  let ?s = "s\<lparr>pg_mgr := load_wallets nets ls (new_manager (m_files (pg_mgr s)))\<rparr>"
  have "pin_kept nets (pg_id ?s) (3 - int (wrong_pins es)) (pg_mgr ?s)"
    using pin_kept_restart [OF kept assms(6)] by simp
  then have "page_attempts ?s = Some (3 - int (wrong_pins es))" by (rule page_attempts_kept)
  then show "page_attempts ?s = page_attempts s" using now by simp
qed (use page_runs_inv [OF assms(1-5)] in \<open>auto simp: page_inv_def entered_when_def\<close>)

theorem pin_attempts_counted_witness:
  "\<exists>s. run_page True [demo_net] demo_events demo_page = Some s \<and> page_attempts s = Some 2"
proof -
  have "run_page True [demo_net] demo_events demo_page \<noteq> None"
    by code_simp
  then obtain s where s: "run_page True [demo_net] demo_events demo_page = Some s" by blast
  have "page_attempts s = Some (3 - int (wrong_pins demo_events))"
    by (rule pin_attempts_counted [OF page_runs_exec [OF s] _ demo_fresh _ _ refl, THEN conjunct1])
      (use demo_pin_kept in \<open>auto simp: demo_page_def demo_events_def\<close>)
  with s show ?thesis by (simp add: wrong_pins_def demo_events_def)
qed

lemma wrong_pin_again:
  assumes inv: "page_inv checks nets u es s" and fresh: "fresh_page s" and pin: "pin \<noteq> []"
    and len: "wrong_pins es < 2 ^ 31"
  obtains s1 where "page_can (PinEntered pin) s" "page_step checks nets (PinEntered pin) s = Some s1"
    "page_can (LoginRefused ''id_invalid_pin'') s1"
    "checks \<and> 3 \<le> wrong_pins es \<Longrightarrow> page_step checks nets (LoginRefused ''id_invalid_pin'') s1 = None"
    "\<not> (checks \<and> 3 \<le> wrong_pins es) \<Longrightarrow>
      \<exists>s2. page_step checks nets (LoginRefused ''id_invalid_pin'') s1 = Some s2 \<and> fresh_page s2"
proof -
  let ?n = "wrong_pins es"
  have kept: "pin_kept nets u (3 - int ?n) (pg_mgr s)" and u: "pg_id s = u"
    using inv by (auto simp: page_inv_def)
  from kept obtain i p where i: "wallet_by_id u (pg_mgr s) = Some i"
    and p: "wallet_pin i (pg_mgr s) = Some p" "p_attempts p = 3 - int ?n" by (rule pin_keptE)
  obtain m' where m': "set_attempts i (3 - int (Suc ?n)) (pg_mgr s) = Some m'"
    using set_attempts_keeps [OF kept _ _ i, of "3 - int (Suc ?n)"] len by auto
  let ?s1 = "s\<lparr>pg_enabled := False, pg_pending := True\<rparr>"
  have start: "page_step checks nets (PinEntered pin) s = Some ?s1"
    using i p u pin by (simp add: page_wallet_def start_pin_login_def)
  have less: "p_attempts p - 1 = 3 - int (Suc ?n)" using p by simp
  have none: "p_attempts p \<le> 0 \<longleftrightarrow> 3 \<le> ?n" using p by auto
  show thesis
  proof (rule that [OF _ start])
    show "page_can (PinEntered pin) s" "page_can (LoginRefused ''id_invalid_pin'') ?s1"
      using fresh pin by (auto simp: fresh_page_def)
    assume "checks \<and> 3 \<le> ?n"
    then show "page_step checks nets (LoginRefused ''id_invalid_pin'') ?s1 = None"
      using i u p(1) by (simp add: page_wallet_def pin_login_failed_def decrement_attempts_def none)
  next
    assume "\<not> (checks \<and> 3 \<le> ?n)"
    then show "\<exists>s2. page_step checks nets (LoginRefused ''id_invalid_pin'') ?s1 = Some s2 \<and> fresh_page s2"
      using i u p(1) m' fresh
      by (auto simp: page_wallet_def pin_login_failed_def decrement_attempts_def less none
          fresh_page_def)
  qed
qed

fun wrong_again :: "string \<Rightarrow> nat \<Rightarrow> page_event list" where
  "wrong_again pin 0 = []"
| "wrong_again pin (Suc n) =
     (wrong_again pin n @ [PinEntered pin]) @ [LoginRefused ''id_invalid_pin'']"

lemma wrong_again_count [simp]: "wrong_pins (wrong_again pin n) = n"
  by (induction n) (simp_all del: append_assoc)

lemma wrong_again_runs:
  assumes start: "pin_kept nets (pg_id s0) 3 (pg_mgr s0)" "fresh_page s0" and pin: "pin \<noteq> []"
    and n: "n < 2 ^ 31" and ok: "checks \<Longrightarrow> n \<le> 3"
  shows "\<exists>s. page_runs checks nets s0 (wrong_again pin n) s \<and> fresh_page s \<and>
    page_inv checks nets (pg_id s0) (wrong_again pin n) s"
  using n ok
proof (induction n)
  case 0
  have "page_runs checks nets s0 (wrong_again pin 0) s0"
    by (simp add: runs_start)
  moreover have "page_inv checks nets (pg_id s0) (wrong_again pin 0) s0"
    using start by (simp add: page_inv_def fresh_page_def)
  ultimately show ?case using start(2) by blast
next
  case (Suc n)
  have "\<exists>s. page_runs checks nets s0 (wrong_again pin n) s \<and> fresh_page s \<and>
    page_inv checks nets (pg_id s0) (wrong_again pin n) s"
    by (rule Suc.IH) (use Suc.prems in auto)
  then obtain s where s: "page_runs checks nets s0 (wrong_again pin n) s" "fresh_page s"
    "page_inv checks nets (pg_id s0) (wrong_again pin n) s" by blast
  from Suc.prems have more: "wrong_pins (wrong_again pin n) < 2 ^ 31"
    "\<not> (checks \<and> 3 \<le> wrong_pins (wrong_again pin n))" by auto
  obtain s1 s2 where one: "page_can (PinEntered pin) s"
      "page_step checks nets (PinEntered pin) s = Some s1"
    and two: "page_can (LoginRefused ''id_invalid_pin'') s1"
      "page_step checks nets (LoginRefused ''id_invalid_pin'') s1 = Some s2" and "fresh_page s2"
    using wrong_pin_again [OF s(3,2) pin more(1)] more(2) by metis
  have "page_inv checks nets (pg_id s0) (wrong_again pin n @ [PinEntered pin]) s1"
    by (rule page_inv_step [OF s(3) one(1) _ more(1) one(2)]) simp
  then have "page_inv checks nets (pg_id s0)
      ((wrong_again pin n @ [PinEntered pin]) @ [LoginRefused ''id_invalid_pin'']) s2"
    by (rule page_inv_step [OF _ two(1) _ _ two(2)]) (use more in simp_all)
  moreover have "page_runs checks nets s0
      ((wrong_again pin n @ [PinEntered pin]) @ [LoginRefused ''id_invalid_pin'']) s2"
    using runs_step [OF runs_step [OF s(1) one] two] .
  ultimately show ?case using \<open>fresh_page s2\<close> by (auto simp del: append_assoc)
qed

text \<open>
  The page that reports no attempts comes too late.  After a wrong PIN the failure of the
  login enables the field again, whatever is left, and only a timer covers it two seconds later.
  A build without assertions can be fed any number of wrong PINs in this way, the counter going
  below zero, after which the timer does not run any more; a build with assertions aborts at
  the fourth.
\<close>

lemma no_attempts_page_too_late:
  assumes "pin_kept nets (pg_id s0) 3 (pg_mgr s0)" and "fresh_page s0" and "pin \<noteq> []"
    and "n < 2 ^ 31"
  shows "(\<exists>s. page_runs False nets s0 (wrong_again pin n) s \<and> page_can (PinEntered pin) s \<and>
      page_attempts s = Some (3 - int n) \<and> (3 < n \<longrightarrow> \<not> page_can NoAttemptsTimer s)) \<and>
    (\<exists>s. page_runs True nets s0 (wrong_again pin 3 @ [PinEntered pin]) s \<and>
      page_can (LoginRefused ''id_invalid_pin'') s \<and>
      page_step True nets (LoginRefused ''id_invalid_pin'') s = None)"
proof (intro conjI)
  obtain s where s: "page_runs False nets s0 (wrong_again pin n) s" "fresh_page s"
    "page_inv False nets (pg_id s0) (wrong_again pin n) s"
    using wrong_again_runs [OF assms, of False] by auto
  have "page_attempts s = Some (3 - int n)"
    using s(3) page_attempts_kept [of nets s "3 - int n"] by (simp add: page_inv_def)
  with s assms(3) show "\<exists>s. page_runs False nets s0 (wrong_again pin n) s \<and>
      page_can (PinEntered pin) s \<and> page_attempts s = Some (3 - int n) \<and>
      (3 < n \<longrightarrow> \<not> page_can NoAttemptsTimer s)"
    by (auto simp: fresh_page_def)
next
  obtain s where s: "page_runs True nets s0 (wrong_again pin 3) s" "fresh_page s"
    "page_inv True nets (pg_id s0) (wrong_again pin 3) s"
    using wrong_again_runs [OF assms(1-3), of 3 True] by auto
  from wrong_pin_again [OF s(3,2) assms(3)] obtain s1 where
    "page_can (PinEntered pin) s" "page_step True nets (PinEntered pin) s = Some s1"
    "page_can (LoginRefused ''id_invalid_pin'') s1"
    "page_step True nets (LoginRefused ''id_invalid_pin'') s1 = None" by auto
  with runs_step [OF s(1)] show "\<exists>s. page_runs True nets s0 (wrong_again pin 3 @ [PinEntered pin]) s \<and>
      page_can (LoginRefused ''id_invalid_pin'') s \<and>
      page_step True nets (LoginRefused ''id_invalid_pin'') s = None" by blast
qed

section \<open>What survives a restart\<close>

text \<open>
  C12.  A saved wallet comes back.  When a persisted wallet is saved and the program is started
  again, whatever the order of the directory and whatever other files it holds, as long as no other
  file has the wallet's identifier as the part of its name before the first dot, exactly one
  wallet with its identifier is listed, equal to the saved one but for the context it was
  logged in with (and for what a watch-only login does not need on its network); and none at
  all when the wallet had no login to write.  (A file \<open>id.bak\<close> with the same content is listed as a second
  wallet with that identifier.)
\<close>

theorem saved_wallet_comes_back:
  assumes "w_persisted (m_objs m ! i)" and "wallet_known nets (m_objs m ! i)"
    and "qm_ok (m_files m)" and "only_file (w_id (m_objs m ! i)) (m_files m)"
    and "save i m = Some m'" and "mset ls = mset (m_files m')"
  shows "filter (\<lambda>w. w_id w = w_id (m_objs m ! i))
      (listed (load_wallets nets ls (new_manager (m_files m')))) =
    (case as_loaded (m_objs m ! i) of None \<Rightarrow> [] | Some w \<Rightarrow> [w])"
  using assms by (rule saved_back)

theorem saved_wallet_comes_back_witness:
  "\<exists>m'. save 0 demo_mgr = Some m' \<and>
    filter (\<lambda>w. w_id w = ''a1'') (listed (load_wallets [demo_net] (rev (m_files m'))
      (new_manager (m_files m')))) = [demo_wallet]"
proof -
  have kept: "w_persisted (m_objs demo_mgr ! 0)" "wallet_known [demo_net] (m_objs demo_mgr ! 0)"
    "qm_ok (m_files demo_mgr)" "only_file (w_id (m_objs demo_mgr ! 0)) (m_files demo_mgr)"
    using demo_kept by (auto simp: kept_at_def Let_def)
  then obtain m' where m': "save 0 demo_mgr = Some m'" using save_known by blast
  have loaded: "as_loaded (m_objs demo_mgr ! 0) = Some demo_wallet"
    by (simp add: as_loaded_def demo_mgr_def demo_wallet_def new_wallet_def)
  have "filter (\<lambda>w. w_id w = w_id (m_objs demo_mgr ! 0))
      (listed (load_wallets [demo_net] (rev (m_files m')) (new_manager (m_files m')))) = [demo_wallet]"
    using saved_wallet_comes_back [OF kept m', of "rev (m_files m')"] loaded
    by simp
  then have "filter (\<lambda>w. w_id w = ''a1'') (listed (load_wallets [demo_net] (rev (m_files m'))
      (new_manager (m_files m')))) = [demo_wallet]"
    by (simp add: demo_mgr_def demo_wallet_def)
  with m' show ?thesis by blast
qed



section \<open>Names and restoring\<close>

text \<open>
  C14.  Names are found and never empty, and are unique unless they look like place markers.  The
  search for a name ends, with the first of "base", "base 1", "base 2" and so on that no listed
  wallet has; but for a base with a place marker of its own, as "%1", it can end with a name that
  is taken.  And when the field of a name is left, the wallet is called what was typed, without the
  space around it, or gets a new name of its own, which nobody has, when that is nothing.
\<close>

theorem wallet_names:
  assumes "i < length (m_objs m)" and "rename i name False m = Some (b, m1)"
  shows "(\<exists>k. unique_wallet_name base m = numbered base k \<and>
      numbered base ` {..<k} \<subseteq> w_name ` set (listed m)) \<and>
    (plain_text base \<longrightarrow> unique_wallet_name base m \<notin> w_name ` set (listed m)) \<and>
    (\<exists>m. unique_wallet_name ''%1'' m \<in> w_name ` set (listed m)) \<and>
    w_name (m_objs m1 ! i) = (if trimmed name = [] then new_wallet_name m else trimmed name) \<and>
    w_name (m_objs m1 ! i) \<noteq> [] \<and> new_wallet_name m \<notin> w_name ` set (listed m)"
proof (intro conjI)
  show "\<exists>k. unique_wallet_name base m = numbered base k \<and>
      numbered base ` {..<k} \<subseteq> w_name ` set (listed m)"
    by (rule unique_wallet_name_least [of base m]) blast
  show "plain_text base \<longrightarrow> unique_wallet_name base m \<notin> w_name ` set (listed m)"
    by (rule unique_wallet_name_least [of base m])
  let ?two = "(new_manager [])\<lparr>m_objs := [new_wallet\<lparr>w_name := ''%1''\<rparr>, new_wallet\<lparr>w_name := ''1 %2''\<rparr>],
    m_wallets := [0, 1]\<rparr>"
  have "unique_wallet_name ''%1'' ?two = ''1 %2''" by code_simp
  then show "\<exists>m. unique_wallet_name ''%1'' m \<in> w_name ` set (listed m)"
    by (intro exI [of _ ?two]) (simp add: listed_def)
  show "new_wallet_name m \<notin> w_name ` set (listed m)"
    unfolding new_wallet_name_def by (rule unique_wallet_name_least [of "''My Wallet''" m]) simp
  show eq: "w_name (m_objs m1 ! i) = (if trimmed name = [] then new_wallet_name m else trimmed name)"
    using assms save_objs
    by (auto simp: rename_def Let_def set_name_def modify_wallet_nth split: if_splits bind_splits)
  show "w_name (m_objs m1 ! i) \<noteq> []"
    using eq new_wallet_name_nonempty [of m] by (simp split: if_splits)
qed

theorem wallet_names_witness:
  "\<exists>b m1. rename 0 '' '' False demo_mgr = Some (b, m1) \<and>
    w_name (m_objs m1 ! 0) = new_wallet_name demo_mgr \<and> new_wallet_name demo_mgr = ''My Wallet 1''"
proof -
  have "rename 0 '' '' False demo_mgr \<noteq> None" by code_simp
  then obtain b m1 where r: "rename 0 '' '' False demo_mgr = Some (b, m1)" by auto
  have "w_name (m_objs m1 ! 0) = (if trimmed '' '' = [] then new_wallet_name demo_mgr else trimmed '' '')"
    using wallet_names [OF _ r, of "[]"] by (simp add: demo_mgr_def)
  moreover have "trimmed '' '' = []" by (simp add: trimmed_def is_space_def)
  moreover have "new_wallet_name demo_mgr = ''My Wallet 1''" by code_simp
  ultimately show ?thesis using r by simp
qed

text \<open>
  C16.  Restoring never recognises a wallet it has.  The controller never reports that a wallet
  is already restored: when a listed wallet with a PIN has the key of the restored mnemonic,
  a second wallet of that key is listed, whose file has no login, and the wallet found, of whatever
  deployment it is, is only remembered.  The next time the same controller restores that mnemonic, it
  attaches to the remembered wallet if that is of the deployment it is asked for; if it is not, a build
  with assertions aborts, and a build without them attaches the wallet of the other deployment.
\<close>

theorem restore_never_recognises:
  assumes "store_ok m" and "uuid \<noteq> []" and "xpub \<noteq> []"
    and "j \<in> set (m_wallets m)" and "is_pin (m_objs m ! j)" and "w_xpub_hash_id (m_objs m ! j) = xpub"
  shows "restore b u dep x c r m0 \<noteq> Some (AlreadyRestored k, r', m') \<and>
    (\<exists>e m1 w. restore checks uuid dep xpub c None m =
        Some (RestoreFinished (length (m_objs m)), Some e, m1) \<and>
      is_pin (m_objs m ! e) \<and> w_xpub_hash_id (m_objs m ! e) = xpub \<and> e \<in> set (m_wallets m) \<and>
      listed m1 = listed m @ [w] \<and> w_xpub_hash_id w = xpub \<and> w_name w \<notin> w_name ` set (listed m) \<and>
      map_of (m_files m1) uuid = Some (wallet_json w) \<and> w_login w = None \<and>
      (if checks \<and> w_deployment (m_objs m ! e) \<noteq> dep' then restore checks u dep' xpub d (Some e) m1 = None
       else \<exists>m2. restore checks u dep' xpub d (Some e) m1 = Some (RestoreFinished e, Some e, m2) \<and>
         m_wallets m2 = m_wallets m1))"
proof (intro conjI)
  show "restore b u dep x c r m0 \<noteq> Some (AlreadyRestored k, r', m')"
    by (auto simp: restore_def restore_all_finished_def create_wallet_def Let_def
        split: option.splits if_splits bind_splits)
  let ?found = "\<lambda>j. is_pin (m_objs m ! j) \<and> w_xpub_hash_id (m_objs m ! j) = xpub"
  have "find ?found (m_wallets m) \<noteq> None" using assms(4-6) by (auto simp: find_None_iff)
  then obtain e where e: "find ?found (m_wallets m) = Some e" by blast
  then have found: "?found e" "e \<in> set (m_wallets m)" by (auto simp: find_Some_iff)
  then have here: "e < length (m_objs m)" using assms(1) by (auto simp: store_ok_def list_all_iff)
  define w where "w = new_wallet\<lparr>w_id := uuid, w_name := new_wallet_name m, w_xpub_hash_id := xpub,
    w_deployment := dep, w_persisted := True, w_context := Some c\<rparr>"
  define m1 where "m1 = m\<lparr>m_objs := m_objs m @ [w], m_wallets := m_wallets m @ [length (m_objs m)],
    m_conns := m_conns m @ [length (m_objs m)],
    m_files := qm_insert uuid (wallet_json w) (m_files m)\<rparr>"
  have first: "restore checks uuid dep xpub c None m =
      Some (RestoreFinished (length (m_objs m)), Some e, m1)"
    using restore_creates [OF assms(1-3)] e by (simp add: m1_def w_def restore_def restore_assertion_def)
  have objs: "m_objs m1 ! e = m_objs m ! e" using here by (simp add: m1_def nth_append)
  have "\<exists>m2. restore_all_finished u dep' xpub d (Some e) m1 = Some (RestoreFinished e, Some e, m2) \<and>
      m_wallets m2 = m_wallets m1"
    by (rule restore_attaches) (use found(1) here objs in \<open>auto simp: m1_def\<close>)
  then have "if checks \<and> w_deployment (m_objs m ! e) \<noteq> dep' then restore checks u dep' xpub d (Some e) m1 = None
       else \<exists>m2. restore checks u dep' xpub d (Some e) m1 = Some (RestoreFinished e, Some e, m2) \<and>
         m_wallets m2 = m_wallets m1"
    by (auto simp: restore_def restore_assertion_def objs)
  moreover have "listed m1 = listed m @ [w]"
    using listed_append [OF assms(1), of "[w]"] by (simp add: m1_def listed_def)
  moreover have "w_name w \<notin> w_name ` set (listed m)"
    by (rule unique_wallet_name_least [of "''My Wallet''" m]) (simp add: w_def new_wallet_name_def)
  moreover have "w_xpub_hash_id w = xpub" "w_login w = None"
    "map_of (m_files m1) uuid = Some (wallet_json w)"
    by (simp_all add: w_def m1_def qmap_simps new_wallet_def)
  ultimately show "\<exists>e m1 w. restore checks uuid dep xpub c None m =
        Some (RestoreFinished (length (m_objs m)), Some e, m1) \<and>
      is_pin (m_objs m ! e) \<and> w_xpub_hash_id (m_objs m ! e) = xpub \<and> e \<in> set (m_wallets m) \<and>
      listed m1 = listed m @ [w] \<and> w_xpub_hash_id w = xpub \<and> w_name w \<notin> w_name ` set (listed m) \<and>
      map_of (m_files m1) uuid = Some (wallet_json w) \<and> w_login w = None \<and>
      (if checks \<and> w_deployment (m_objs m ! e) \<noteq> dep' then restore checks u dep' xpub d (Some e) m1 = None
       else \<exists>m2. restore checks u dep' xpub d (Some e) m1 = Some (RestoreFinished e, Some e, m2) \<and>
         m_wallets m2 = m_wallets m1)"
    using first found by blast
qed

theorem restore_never_recognises_witness:
  "\<exists>e m1. restore True ''b2'' ''mainnet'' ''f0'' 1 None demo_mgr =
     Some (RestoreFinished 1, Some e, m1) \<and> length (listed m1) = 2"
proof -
  have "store_ok demo_mgr" "0 \<in> set (m_wallets demo_mgr)" "is_pin (m_objs demo_mgr ! 0)"
    "w_xpub_hash_id (m_objs demo_mgr ! 0) = ''f0''"
    by (simp_all add: store_ok_def demo_mgr_def demo_wallet_def is_pin_def)
  from restore_never_recognises [OF this(1) _ _ this(2-4),
      where uuid = "''b2''" and dep = "''mainnet''" and c = 1 and u = "[]" and d = 2 and checks = True and dep' = "''liquid''", THEN conjunct2]
  obtain e m1 w where "restore True ''b2'' ''mainnet'' ''f0'' 1 None demo_mgr =
      Some (RestoreFinished (length (m_objs demo_mgr)), Some e, m1)"
    and "listed m1 = listed demo_mgr @ [w]" by (auto simp del: One_nat_def)
  moreover have "length (m_objs demo_mgr) = 1" "length (listed demo_mgr) = 1"
    by (simp_all add: demo_mgr_def listed_def)
  ultimately show ?thesis by auto
qed

end
