(* ===== verification/Http_Manager.thy ===== *)
theory Http_Manager
  imports Prelude
begin

text \<open>
  The queue of web requests (\<open>src/httpmanager.cpp\<close>): requests of the DLC client and of the
  firmware controllers wait in one queue and are performed one after the other in a session of
  the wallet library made for them, which is dropped when it is not used for a minute or when the
  settings of the network change.
\<close>

text \<open>Requests are numbered.  \<open>hm_idle\<close> says that the timer of an unused session runs.\<close>

record http_session =
  hs_active :: bool
  hs_connected :: bool
  hs_tor :: bool
  hs_proxy :: string

record http_manager =
  hm_queue :: "nat list"
  hm_running :: "nat option"
  hm_session :: "http_session option"
  hm_idle :: bool
  hm_tor :: bool
  hm_proxy :: string

datatype http_output =
    ScheduleDispatch
  | StartRequest nat
  | FailRequest nat
  | HttpSessionCreated
  | HttpSessionReleased
  | HttpConnect

definition new_http_manager :: "bool \<Rightarrow> string \<Rightarrow> http_manager" where
  "new_http_manager tor proxy = \<lparr>hm_queue = [], hm_running = None, hm_session = None,
     hm_idle = False, hm_tor = tor, hm_proxy = proxy\<rparr>"

definition http_exec :: "nat \<Rightarrow> http_manager \<Rightarrow> http_manager \<times> http_output list" where
  "http_exec a m = (m\<lparr>hm_queue := hm_queue m @ [a]\<rparr>, [ScheduleDispatch])"

definition http_destroyed :: "nat \<Rightarrow> http_manager \<Rightarrow> http_manager \<times> http_output list" where
  "http_destroyed a m =
     (let m1 = m\<lparr>hm_queue := removeAll a (hm_queue m)\<rparr>
      in if hm_running m = Some a then (m1\<lparr>hm_running := None\<rparr>, [ScheduleDispatch]) else (m1, []))"

definition http_drain :: "http_manager \<Rightarrow> http_manager \<times> http_output list" where
  "http_drain m = (m\<lparr>hm_queue := []\<rparr>, map FailRequest (hm_queue m))"

definition http_stop :: "http_manager \<Rightarrow> http_manager \<times> http_output list" where
  "http_stop m =
     (let (m1, out) = http_drain m
      in (m1, out @ (if hm_session m1 = None then [] else [HttpSessionReleased])))"

text \<open>The first part of \<open>dispatch\<close>: a session made with other settings is dropped.\<close>

definition drop_outdated :: "http_manager \<Rightarrow> http_manager \<times> http_output list" where
  "drop_outdated m =
     (case hm_session m of
        Some s \<Rightarrow>
          if hm_running m = None \<and> (hs_tor s \<noteq> hm_tor m \<or> hs_proxy s \<noteq> hm_proxy m)
          then (m\<lparr>hm_session := None\<rparr>, [HttpSessionReleased]) else (m, [])
      | None \<Rightarrow> (m, []))"

definition http_dispatch :: "http_manager \<Rightarrow> http_manager \<times> http_output list" where
  "http_dispatch m0 =
     (let (m, out) = drop_outdated (m0\<lparr>hm_idle := False\<rparr>)
      in case hm_queue m of
           [] \<Rightarrow> (m\<lparr>hm_idle := True\<rparr>, out)
         | a # rest \<Rightarrow>
             if hm_running m \<noteq> None then (m, out)
             else (let (s, out1) = (case hm_session m of
                          Some s \<Rightarrow> (s, out)
                        | None \<Rightarrow> (\<lparr>hs_active = False, hs_connected = False, hs_tor = hm_tor m,
                                     hs_proxy = hm_proxy m\<rparr>, out @ [HttpSessionCreated]))
                   in if \<not> hs_active s then
                        (m\<lparr>hm_session := Some (s\<lparr>hs_active := True\<rparr>)\<rparr>, out1 @ [HttpConnect])
                      else if \<not> hs_connected s then (m\<lparr>hm_session := Some s\<rparr>, out1)
                      else (m\<lparr>hm_session := Some s, hm_queue := rest, hm_running := Some a\<rparr>,
                            out1 @ [StartRequest a])))"

text \<open>The task that connects has failed: the session is inactive, all that wait fail.\<close>

definition http_connect_failed :: "http_manager \<Rightarrow> http_manager \<times> http_output list" where
  "http_connect_failed m =
     http_drain (m\<lparr>hm_session := map_option (\<lambda>s. s\<lparr>hs_active := False\<rparr>) (hm_session m)\<rparr>)"

definition http_connected :: "bool \<Rightarrow> http_manager \<Rightarrow> http_manager \<times> http_output list" where
  "http_connected b m =
     (case hm_session m of None \<Rightarrow> (m, [])
      | Some s \<Rightarrow> if hs_connected s = b then (m, [])
          else http_dispatch (m\<lparr>hm_session := Some (s\<lparr>hs_connected := b\<rparr>)\<rparr>))"

text \<open>The running request has finished or failed.\<close>

definition http_ended :: "http_manager \<Rightarrow> http_manager \<times> http_output list" where
  "http_ended m = (m\<lparr>hm_running := None\<rparr>, [ScheduleDispatch])"

definition idle_timeout :: "http_manager \<Rightarrow> http_manager \<times> http_output list" where
  "idle_timeout m =
     (if \<not> hm_idle m then (m, [])
      else let m1 = m\<lparr>hm_idle := False\<rparr>
      in if hm_running m \<noteq> None \<or> hm_queue m \<noteq> [] then (m1, [])
         else if hm_session m = None then (m1, [])
         else (m1\<lparr>hm_session := None\<rparr>, [HttpSessionReleased]))"

datatype http_event =
    HttpExec nat
  | HttpDestroyed nat
  | HttpDispatch
  | HttpConnectFailed
  | HttpConnected bool
  | HttpEnded nat
  | HttpIdleTimeout
  | HttpSettings bool string
  | HttpStop

text \<open>\<open>HttpEnded a\<close>: only the request that runs can end.\<close>

fun http_step :: "http_manager \<Rightarrow> http_event \<Rightarrow> http_manager \<times> http_output list" where
  "http_step m (HttpExec a) = http_exec a m"
| "http_step m (HttpDestroyed a) = http_destroyed a m"
| "http_step m HttpDispatch = http_dispatch m"
| "http_step m HttpConnectFailed = http_connect_failed m"
| "http_step m (HttpConnected b) = http_connected b m"
| "http_step m (HttpEnded a) = (if hm_running m = Some a then http_ended m else (m, []))"
| "http_step m HttpIdleTimeout = idle_timeout m"
| "http_step m (HttpSettings tor proxy) = http_dispatch (m\<lparr>hm_tor := tor, hm_proxy := proxy\<rparr>)"
| "http_step m HttpStop = http_stop m"

section \<open>Facts\<close>

text \<open>What a step takes from the front of the queue, in order.\<close>

definition handled :: "http_output list \<Rightarrow> nat list" where
  "handled out = List.map_filter
     (\<lambda>x. case x of StartRequest a \<Rightarrow> Some a | FailRequest a \<Rightarrow> Some a | _ \<Rightarrow> None) out"

lemma handled_simps [simp]:
  "handled [] = []" "handled (StartRequest a # out) = a # handled out"
  "handled (FailRequest a # out) = a # handled out" "handled (ScheduleDispatch # out) = handled out"
  "handled (HttpSessionCreated # out) = handled out" "handled (HttpSessionReleased # out) = handled out"
  "handled (HttpConnect # out) = handled out" "handled (out @ out') = handled out @ handled out'"
  "handled (map FailRequest as) = as"
  by (simp_all add: handled_def map_filter_def comp_def)

lemma drop_outdated_simps [simp]:
  "hm_queue (fst (drop_outdated m)) = hm_queue m" "hm_running (fst (drop_outdated m)) = hm_running m"
  "handled (snd (drop_outdated m)) = []" "StartRequest a \<notin> set (snd (drop_outdated m))"
  by (auto simp: drop_outdated_def split: option.splits)

lemma dispatch_handled:
  "handled (snd (http_dispatch m)) @ hm_queue (fst (http_dispatch m)) = hm_queue m"
  by (simp add: http_dispatch_def Let_def case_prod_beta split: list.split option.split)

lemma dispatch_start:
  "StartRequest a \<in> set (snd (http_dispatch m)) \<Longrightarrow>
    hm_running m = None \<and> hm_running (fst (http_dispatch m)) = Some a"
  by (auto simp: http_dispatch_def Let_def case_prod_beta split: list.splits option.splits if_splits)

text \<open>The requests made by events, and one step on those that are never destroyed.\<close>

definition requested :: "http_event list \<Rightarrow> nat list" where
  "requested es = List.map_filter (\<lambda>e. case e of HttpExec a \<Rightarrow> Some a | _ \<Rightarrow> None) es"

lemma requested_Cons:
  "requested (e # es) = (case e of HttpExec a \<Rightarrow> [a] | _ \<Rightarrow> []) @ requested es"
  by (simp add: requested_def map_filter_def split: http_event.splits)

lemma step_handled:
  assumes "\<And>a. e = HttpDestroyed a \<Longrightarrow> \<not> P a"
  shows "filter P (handled (snd (http_step m e)) @ hm_queue (fst (http_step m e))) =
    filter P (hm_queue m @ requested [e])"
proof (cases e)
  case (HttpDestroyed a)
  with assms have "\<not> P a" by blast
  then have "filter P (removeAll a q) = filter P q" for q
    by (induction q) auto
  with HttpDestroyed show ?thesis
    by (simp add: http_destroyed_def requested_def map_filter_def Let_def)
next
  case (HttpConnected b)
  have none: "requested [HttpConnected b] = []" by (simp add: requested_def map_filter_def)
  show ?thesis
    using dispatch_handled [of "m\<lparr>hm_session := Some ((the (hm_session m))\<lparr>hs_connected := b\<rparr>)\<rparr>"]
    by (cases "hm_session m") (auto simp: HttpConnected http_connected_def none simp flip: filter_append)
next
  case HttpDispatch
  then show ?thesis
    using dispatch_handled [of m] by (simp add: requested_def map_filter_def flip: filter_append)
next
  case (HttpSettings tor proxy)
  then show ?thesis
    using dispatch_handled [of "m\<lparr>hm_tor := tor, hm_proxy := proxy\<rparr>"]
    by (simp add: requested_def map_filter_def flip: filter_append)
qed (auto simp: http_exec_def http_connect_failed_def http_drain_def http_ended_def idle_timeout_def
    http_stop_def requested_def map_filter_def Let_def)

fun is_start :: "http_output \<Rightarrow> bool" where
  "is_start (StartRequest a) \<longleftrightarrow> True"
| "is_start _ \<longleftrightarrow> False"

fun ends_request :: "http_event \<Rightarrow> bool" where
  "ends_request (HttpEnded a) \<longleftrightarrow> True"
| "ends_request (HttpDestroyed a) \<longleftrightarrow> True"
| "ends_request _ \<longleftrightarrow> False"

definition busy :: "http_manager \<Rightarrow> nat" where
  "busy m = (if hm_running m = None then 0 else 1)"

lemma busy_simps [simp]:
  "busy (m\<lparr>hm_session := s\<rparr>) = busy m" "busy (m\<lparr>hm_tor := t, hm_proxy := p\<rparr>) = busy m"
  by (simp_all add: busy_def)

lemma filter_start_released [simp]: "filter is_start (snd (drop_outdated m)) = []"
  by (auto simp: drop_outdated_def split: option.splits)

lemma filter_start_failed [simp]: "filter is_start (map FailRequest as) = []"
  by (simp add: filter_empty_conv)

lemma dispatch_busy:
  "busy (fst (http_dispatch m)) = busy m + length (filter is_start (snd (http_dispatch m)))"
  by (simp add: http_dispatch_def busy_def Let_def case_prod_beta split: list.split option.split)

lemma step_busy:
  "length (filter is_start (snd (http_step m e))) + busy m \<le>
    (if ends_request e then 1 else 0) + busy (fst (http_step m e))"
proof (cases e)
  case HttpDispatch
  then show ?thesis using dispatch_busy [of m] by simp
next
  case (HttpSettings tor proxy)
  then show ?thesis using dispatch_busy [of "m\<lparr>hm_tor := tor, hm_proxy := proxy\<rparr>"]
    by simp
next
  case (HttpConnected b)
  show ?thesis
    using dispatch_busy [of "m\<lparr>hm_session := Some ((the (hm_session m))\<lparr>hs_connected := b\<rparr>)\<rparr>"]
    by (cases "hm_session m") (auto simp: HttpConnected http_connected_def)
qed (auto simp: http_exec_def http_destroyed_def http_connect_failed_def http_drain_def
    http_ended_def idle_timeout_def http_stop_def busy_def Let_def)

text \<open>A session that can be used.\<close>

definition http_online :: "http_manager \<Rightarrow> bool" where
  "http_online m = (case hm_session m of None \<Rightarrow> False
     | Some s \<Rightarrow> hs_active s \<and> hs_connected s \<and> hs_tor s = hm_tor m \<and> hs_proxy s = hm_proxy m)"

lemma dispatch_online:
  assumes "http_online m" and "hm_running m = None" and "hm_queue m = a # rest"
  shows "http_dispatch m = (m\<lparr>hm_idle := False, hm_queue := rest, hm_running := Some a\<rparr>, [StartRequest a])"
  using assms
  by (cases "hm_session m") (auto simp: http_online_def http_dispatch_def drop_outdated_def)

lemma dispatch_empty:
  assumes "http_online m" and "hm_queue m = []"
  shows "http_dispatch m = (m\<lparr>hm_idle := True\<rparr>, [])"
  using assms
  by (cases "hm_session m") (auto simp: http_online_def http_dispatch_def drop_outdated_def)

end
