(* ===== verification/Http_Props.thy ===== *)
theory Http_Props
  imports Http_Manager
begin

text \<open>The property of the queue of web requests, with the cooperation it needs to get done.\<close>

lemma requests_handled:
  assumes "\<forall>a. HttpDestroyed a \<in> set es \<longrightarrow> \<not> P a"
  shows "filter P (handled (snd (run http_step m es)) @ hm_queue (fst (run http_step m es))) =
    filter P (hm_queue m @ requested es)"
  using assms
proof (induction es arbitrary: m)
  case Nil
  then show ?case by (simp add: requested_def map_filter_def)
next
  case (Cons e es)
  let ?m = "fst (http_step m e)"
  have one: "filter P (handled (snd (http_step m e)) @ hm_queue ?m) = filter P (hm_queue m @ requested [e])"
    by (rule step_handled) (use Cons.prems in auto)
  have rest: "filter P (handled (snd (run http_step ?m es)) @ hm_queue (fst (run http_step ?m es))) =
      filter P (hm_queue ?m @ requested es)"
    by (rule Cons.IH) (use Cons.prems in auto)
  have "requested (e # es) = requested [e] @ requested es"
    by (simp add: requested_Cons [of e es] requested_Cons [of e "[]"] requested_def [of "[]"] map_filter_def)
  with one rest show ?case by simp
qed

lemma starts_bounded:
  "length (filter is_start (snd (run http_step m es))) + busy m \<le>
    length (filter ends_request es) + busy (fst (run http_step m es))"
proof (induction es arbitrary: m)
  case (Cons e es)
  from Cons [of "fst (http_step m e)"] step_busy [of m e] show ?case by (simp split: if_splits)
qed simp

lemma queue_performed:
  assumes "http_online m" and "hm_running m = None" and "hm_queue m = as"
  shows "snd (run http_step m (HttpDispatch # concat (map (\<lambda>a. [HttpEnded a, HttpDispatch]) as))) =
      concat (map (\<lambda>a. [StartRequest a, ScheduleDispatch]) as) \<and>
    hm_queue (fst (run http_step m (HttpDispatch # concat (map (\<lambda>a. [HttpEnded a, HttpDispatch]) as)))) = []"
  using assms
proof (induction as arbitrary: m)
  case Nil
  then show ?case by (simp add: dispatch_empty)
next
  case (Cons a as)
  let ?m = "m\<lparr>hm_idle := False, hm_queue := as, hm_running := None\<rparr>"
  have "http_online ?m" using Cons.prems(1) by (simp add: http_online_def split: option.splits)
  from Cons.IH [OF this] Cons.prems show ?case
    by (simp add: dispatch_online http_ended_def)
qed

text \<open>
  C10.  Web requests are performed one at a time, in the order they were asked for, and none is
  lost.  In every run, whatever happens to the session and the settings, the requests whose
  owners did not destroy them are exactly those started or failed so far, followed by those
  still in the queue, in the order of the calls; and no more have been started than have ended,
  but for the one that runs.  While the session is connected, each that ends makes room for the
  next, until all have been started.
\<close>

theorem http_requests_in_order:
  assumes "run http_step (new_http_manager tor proxy) es = (m, out)"
  shows "filter (\<lambda>a. HttpDestroyed a \<notin> set es) (handled out @ hm_queue m) =
      filter (\<lambda>a. HttpDestroyed a \<notin> set es) (requested es) \<and>
    length (filter is_start out) \<le> length (filter ends_request es) +
      (if hm_running m = None then 0 else 1) \<and>
    (http_online m \<and> hm_running m = None \<longrightarrow>
      snd (run http_step m (HttpDispatch # concat (map (\<lambda>a. [HttpEnded a, HttpDispatch]) (hm_queue m)))) =
        concat (map (\<lambda>a. [StartRequest a, ScheduleDispatch]) (hm_queue m)))"
  using requests_handled [of es "\<lambda>a. HttpDestroyed a \<notin> set es" "new_http_manager tor proxy"]
    starts_bounded [of "new_http_manager tor proxy" es] queue_performed [of m] assms
  by (simp_all add: new_http_manager_def busy_def split: if_splits)

theorem http_requests_in_order_witness:
  "\<exists>m out. run http_step (new_http_manager False [])
      [HttpExec 1, HttpExec 2, HttpDispatch, HttpExec 3, HttpConnected True] = (m, out) \<and>
    handled out @ hm_queue m = [1, 2, 3] \<and> hm_running m = Some 1"
proof -
  let ?es = "[HttpExec 1, HttpExec 2, HttpDispatch, HttpExec 3, HttpConnected True]"
  obtain m out where r: "run http_step (new_http_manager False []) ?es = (m, out)" by fastforce
  have "requested ?es = [1, 2, 3]" by (simp add: requested_def map_filter_def)
  with http_requests_in_order [OF r] have "handled out @ hm_queue m = [1, 2, 3]" by simp
  moreover have "hm_running (fst (run http_step (new_http_manager False []) ?es)) = Some 1"
    by code_simp
  then have "hm_running m = Some 1" unfolding r by simp
  ultimately show ?thesis using r by blast
qed

end
