(* ===== verification/Context_Data.thy ===== *)
theory Context_Data
  imports Session "HOL-Library.Product_Lexorder"
begin

text \<open>
  The context of a logged-in wallet and what it stores (\<open>src/context.{h,cpp}\<close>,
  \<open>src/sessionmanager.cpp\<close>, \<open>src/account.{h,cpp}\<close>, \<open>src/output.{h,cpp}\<close>,
  \<open>src/notification.{h,cpp}\<close>): sessions, accounts, coins, and the notifications that follow
  from them.

  Objects are shared through pointers, so each class has a list of its objects in the state and a
  pointer is an index into it.  A list model holds one item for each row and a map from objects to
  items; both are one list of rows here, an object with its sort key.  Signals that only repaint
  are left out; \<open>AssertViolated\<close> marks a \<open>Q_ASSERT\<close> that does not hold, after which a build
  without assertions goes on as written.
\<close>

section \<open>State\<close>

record account =
  ac_network :: network
  ac_pointer :: int
  ac_type :: string
  ac_synced :: bool
  ac_json :: jobject
  ac_name :: string
  ac_hidden :: bool
  ac_txs :: "(string, nat) qmap"
  ac_outs :: "(string \<times> int, nat) qmap"
  ac_load_timer :: bool
  ac_dangling :: "string list"

text \<open>\<open>co_session\<close> is the session whose \<open>blockChanged\<close> the coin is connected to.\<close>

record coin =
  co_account :: nat
  co_session :: nat
  co_asset :: "string option"
  co_address :: string
  co_data :: jobject
  co_dust :: bool
  co_locked :: bool
  co_confidential :: bool
  co_unconfirmed :: bool
  co_can_be_locked :: bool
  co_address_type :: string
  co_expired :: bool
  co_spending :: "nat option"

datatype tx_type = Incoming | Outgoing | Redeposit | Mixed | NotUnblindable | UnknownType

record account_tx =
  at_id :: string
  at_account :: nat
  at_type :: tx_type
  at_data :: jobject
  at_memo :: string
  at_payment :: "nat option"

record address =
  ad_value :: string
  ad_account :: "nat option"
  ad_data :: jobject
  ad_pointer :: int
  ad_type :: string

record payment =
  py_data :: jobject
  py_address :: "nat option"
  py_transaction :: "nat option"
  py_updated_at :: string
  py_status :: string

text \<open>
  An expired notification lists coins and their accounts, an outage notification networks, a reset
  notification watches a session; a system notification shows a message of a network's servers, and a
  backup notification reminds of the backup.
\<close>

datatype notice =
    ExpiredNote (note_coins: "nat list") (note_accounts: "nat list")
  | OutageNote (note_networks: "string list")
  | ResetNote (note_session: nat)
  | SystemNote (note_network: string) (note_message: string)
  | BackupNote

text \<open>
  The context with the session manager (\<open>sm_\<close>).  \<open>cx_wallet\<close> says whether there is a wallet and
  whether it logs in with a device; \<open>cx_attempts\<close> are the attempts to log in to more networks: the
  session, and whether the login waits for the connection by way of the assets.
\<close>

record store =
  cx_settings :: app_settings
  cx_wallet :: "bool option"
  cx_device :: bool
  cx_credentials :: jobject
  cx_watchonly :: bool
  cx_skip_load_accounts :: bool
  cx_assets_loaded :: bool
  cx_session_objs :: "session list"
  cx_sessions :: "(string, nat) qmap"
  cx_session_list :: "nat list"
  cx_attempts :: "(nat \<times> bool) list"
  sm_sessions :: "nat list"
  sm_garbage :: "nat list"
  sm_tor :: bool
  cx_accounts :: "account list"
  cx_by_pointer :: "(string \<times> int, nat) qmap"
  cx_coins :: "coin list"
  cx_coin_rows :: "(nat \<times> int) list"
  cx_txs :: "account_tx list"
  cx_chain_txs :: "string list"
  cx_tx_map :: "(string \<times> nat) list"
  cx_tx_rows :: "(nat \<times> int) list"
  cx_addresses :: "address list"
  cx_address_map :: "(string, nat) qmap"
  cx_address_rows :: "nat list"
  cx_payments :: "payment list"
  cx_payment_map :: "(string, nat) qmap"
  cx_payment_rows :: "(nat \<times> string) list"
  cx_note_objs :: "notice list"
  cx_notes :: "nat list"
  cx_outage :: "nat option"

datatype store_output =
    CreateTorSession
  | SessionSays nat session_output
  | FetchPage nat nat
  | FetchCoins nat
  | LoadBalanceAfterGroup nat
  | AddLoadBalance nat
  | AddLoadAccount nat
  | HideAccount nat
  | StartLogin nat bool bool
  | LoadNetwork nat
  | NoteAdded nat
  | NoteRemoved nat
  | AutoLogout
  | AssertViolated

type_synonym store_result = "store \<times> store_output list"

section \<open>Sessions\<close>

definition session_create :: "network \<Rightarrow> store \<Rightarrow> nat \<times> store \<times> store_output list" where
  "session_create n s =
     (let tor = (set_use_tor (cx_settings s) \<and> \<not> set_use_proxy (cx_settings s) \<and> \<not> sm_tor s);
          i = length (cx_session_objs s)
      in (i, s\<lparr>sm_tor := (sm_tor s \<or> tor),
               cx_session_objs := cx_session_objs s @ [new_session (cx_settings s) n],
               sm_sessions := sm_sessions s @ [i]\<rparr>,
          if tor then [CreateTorSession] else []))"

definition session_release :: "nat \<Rightarrow> store \<Rightarrow> store" where
  "session_release i s = s\<lparr>sm_sessions := remove1 i (sm_sessions s), sm_garbage := sm_garbage s @ [i]\<rparr>"

definition set_session :: "nat \<Rightarrow> session \<Rightarrow> store \<Rightarrow> store" where
  "set_session i x s = s\<lparr>cx_session_objs := (cx_session_objs s)[i := x]\<rparr>"

definition get_or_create_session :: "network \<Rightarrow> store \<Rightarrow> nat \<times> store \<times> store_output list" where
  "get_or_create_session n s =
     (case map_of (cx_sessions s) (n_id n) of
        Some i \<Rightarrow> (i, s, [])
      | None \<Rightarrow>
          (let (i, s1, out1) = session_create n s;
               (x, out2) = set_active True (cx_session_objs s1 ! i)
           in (i, (set_session i x s1)\<lparr>cx_sessions := qm_insert (n_id n) i (cx_sessions s1),
                    cx_session_list := cx_session_list s1 @ [i]\<rparr>,
               out1 @ map (SessionSays i) out2)))"

text \<open>\<open>Account::session\<close>, which makes a session when there is none.\<close>

definition account_session :: "nat \<Rightarrow> store \<Rightarrow> nat \<times> store \<times> store_output list" where
  "account_session a s = get_or_create_session (ac_network (cx_accounts s ! a)) s"

text \<open>The sessions of all accounts are looked up for a warning.\<close>

fun visit_sessions :: "nat list \<Rightarrow> store \<Rightarrow> store_result" where
  "visit_sessions [] s = (s, [])"
| "visit_sessions (a # as) s =
     (let (i, s1, out1) = account_session a s; (s2, out2) = visit_sessions as s1
      in (s2, out1 @ out2))"

definition release_session :: "nat \<Rightarrow> store \<Rightarrow> store_result" where
  "release_session i s =
     (let (s1, out) = visit_sessions [0..<length (cx_accounts s)] s;
          n = s_network (cx_session_objs s1 ! i)
      in (session_release i (s1\<lparr>cx_sessions := qm_remove (n_id n) (cx_sessions s1),
            cx_session_list := remove1 i (cx_session_list s1)\<rparr>), out))"

text \<open>\<open>Context::~Context\<close> and \<open>SessionManager::exit\<close>: what is deleted, in order.\<close>

fun destroy_sessions :: "nat list \<Rightarrow> store \<Rightarrow> store_result" where
  "destroy_sessions [] s = (s, [])"
| "destroy_sessions (i # is) s =
     (let s1 = session_release i s; (x, out1) = set_active False (cx_session_objs s1 ! i);
          (s2, out2) = destroy_sessions is (set_session i x s1)
      in (s2, map (SessionSays i) out1 @ out2))"

definition destroy_context :: "store \<Rightarrow> store_result" where
  "destroy_context s = destroy_sessions (cx_session_list s) s"

definition session_manager_exit :: "store \<Rightarrow> nat list" where
  "session_manager_exit s = sm_garbage s"

text \<open>\<open>uint32_t Session::blockHeight\<close>.\<close>

definition session_block_height :: "nat \<Rightarrow> store \<Rightarrow> int" where
  "session_block_height i s = to_uint32 (jvalue (s_block (cx_session_objs s ! i)) ''block_height'')"

section \<open>Notifications\<close>

definition add_notification :: "notice \<Rightarrow> store \<Rightarrow> nat \<times> store \<times> store_output list" where
  "add_notification k s =
     (let i = length (cx_note_objs s)
      in (i, s\<lparr>cx_note_objs := cx_note_objs s @ [k], cx_notes := cx_notes s @ [i]\<rparr>, [NoteAdded i]))"

definition remove_notification :: "nat \<Rightarrow> store \<Rightarrow> store_result" where
  "remove_notification i s = (s\<lparr>cx_notes := remove1 i (cx_notes s)\<rparr>, [NoteRemoved i])"

definition set_note :: "nat \<Rightarrow> notice \<Rightarrow> store \<Rightarrow> store" where
  "set_note i k s = s\<lparr>cx_note_objs := (cx_note_objs s)[i := k]\<rparr>"

fun is_expired_note :: "notice \<Rightarrow> bool" where
  "is_expired_note (ExpiredNote os as) = True"
| "is_expired_note _ = False"

fun is_backup_note :: "notice \<Rightarrow> bool" where
  "is_backup_note BackupNote = True"
| "is_backup_note _ = False"

text \<open>\<open>GetSystemMessageTask\<close> has finished (\<open>NotificationsController::reset\<close>).\<close>

definition system_message :: "string \<Rightarrow> string \<Rightarrow> store \<Rightarrow> store_result" where
  "system_message n message s =
     (if message = [] then (s, []) else snd (add_notification (SystemNote n message) s))"

text \<open>
  \<open>checkAndAddBackupWarningNotification\<close>: whether the wallet logs in with a PIN, and whether the
  settings have the event of a pending backup.
\<close>

definition check_backup :: "bool \<Rightarrow> bool \<Rightarrow> store \<Rightarrow> store_result" where
  "check_backup pin registered s =
     (case find (\<lambda>k. is_backup_note (cx_note_objs s ! k)) (cx_notes s) of
        None \<Rightarrow> if pin \<and> registered then snd (add_notification BackupNote s) else (s, [])
      | Some k \<Rightarrow> if pin \<and> \<not> registered then remove_notification k s else (s, []))"

definition get_expired_notification :: "store \<Rightarrow> nat option" where
  "get_expired_notification s = find (\<lambda>i. is_expired_note (cx_note_objs s ! i)) (cx_notes s)"

text \<open>\<open>TwoFactorExpiredNotification::add\<close> and \<open>remove\<close>, for the coin with its account.\<close>

definition expired_add :: "nat \<Rightarrow> nat \<Rightarrow> notice \<Rightarrow> notice" where
  "expired_add c a k =
     (if c \<in> set (note_coins k) then k
      else ExpiredNote (c # note_coins k)
             (if a \<in> set (note_accounts k) then note_accounts k else note_accounts k @ [a]))"

definition expired_remove :: "(nat \<Rightarrow> nat) \<Rightarrow> nat \<Rightarrow> notice \<Rightarrow> notice" where
  "expired_remove account c k =
     (let cs = removeAll c (note_coins k)
      in if list_ex (\<lambda>d. account d = account c) cs then ExpiredNote cs (note_accounts k)
         else ExpiredNote cs (remove1 (account c) (note_accounts k)))"

definition coin_account :: "store \<Rightarrow> nat \<Rightarrow> nat" where
  "coin_account s c = co_account (cx_coins s ! c)"

definition update_notifications :: "nat \<Rightarrow> store \<Rightarrow> store_result" where
  "update_notifications c s =
     (let x = cx_coins s ! c
      in if cx_watchonly s then (s, [])
         else if n_electrum (ac_network (cx_accounts s ! co_account x)) then (s, [])
         else if co_expired x \<and> co_spending x = None then
           (let (k, s1, out) = (case get_expired_notification s of
                  None \<Rightarrow> add_notification (ExpiredNote [] []) s | Some k \<Rightarrow> (k, s, []))
            in (set_note k (expired_add c (co_account x) (cx_note_objs s1 ! k)) s1, out))
         else (case get_expired_notification s of
             None \<Rightarrow> (s, [])
           | Some k \<Rightarrow>
               (let note = expired_remove (coin_account s) c (cx_note_objs s ! k);
                    s1 = set_note k note s
                in if note_coins note = [] then remove_notification k s1 else (s1, []))))"

section \<open>Coins\<close>

definition modify_coin :: "nat \<Rightarrow> (coin \<Rightarrow> coin) \<Rightarrow> store \<Rightarrow> store" where
  "modify_coin c f s = s\<lparr>cx_coins := (cx_coins s)[c := f (cx_coins s ! c)]\<rparr>"

definition set_expired :: "nat \<Rightarrow> bool \<Rightarrow> store \<Rightarrow> store_result" where
  "set_expired c b s =
     (if co_expired (cx_coins s ! c) = b then (s, [])
      else update_notifications c (modify_coin c (\<lambda>x. x\<lparr>co_expired := b\<rparr>) s))"

definition set_spending_transaction :: "nat \<Rightarrow> nat \<Rightarrow> store \<Rightarrow> store_result" where
  "set_spending_transaction c t s =
     (if co_spending (cx_coins s ! c) = Some t then (s, [])
      else update_notifications c (modify_coin c (\<lambda>x. x\<lparr>co_spending := Some t\<rparr>) s))"

text \<open>Numbers from the library are integral, so a value \<open>isDouble\<close> when it is a \<open>JInt\<close>.\<close>

definition update_expired :: "nat \<Rightarrow> store \<Rightarrow> store_result" where
  "update_expired c s =
     (case jvalue (co_data (cx_coins s ! c)) ''expiry_height'' of
        JInt h \<Rightarrow>
          (let (i, s1, out1) = account_session (coin_account s c) s;
               (s2, out2) = set_expired c (h \<le> session_block_height i s1) s1
           in (s2, out1 @ out2))
      | _ \<Rightarrow> set_expired c False s)"

text \<open>
  \<open>m_data[key]\<close> puts a null under a key that is not there; \<open>touch_key\<close> is that.
\<close>

definition touch_key :: "string \<Rightarrow> jobject \<Rightarrow> jobject" where
  "touch_key k d = (if jcontains d k then d else qm_insert k JNull d)"

definition coin_fields :: "network \<Rightarrow> coin \<Rightarrow> coin" where
  "coin_fields n x =
     (let d0 = (if co_asset x = None \<and> n_liquid n then touch_key ''asset_id'' (co_data x) else co_data x);
          d = fold touch_key [''satoshi'', ''user_status'', ''is_blinded'', ''block_height'', ''address_type''] d0;
          satoshi = to_integer (jvalue d ''satoshi'')
      in x\<lparr>co_data := d,
           co_asset := (if co_asset x \<noteq> None then co_asset x
                        else Some (if n_liquid n then to_string (jvalue d ''asset_id'') else n_policy_asset n)),
           co_dust := (satoshi < 1092 \<and> \<not> n_liquid n),
           co_can_be_locked := (satoshi < 2184),
           co_locked := (to_int (jvalue d ''user_status'') = 1),
           co_confidential := to_bool (jvalue d ''is_blinded''),
           co_unconfirmed := (case jvalue d ''block_height'' of JInt h \<Rightarrow> h = 0 | JReal r \<Rightarrow> False | _ \<Rightarrow> True),
           co_address_type := to_string (jvalue d ''address_type'')\<rparr>)"

definition coin_update :: "nat \<Rightarrow> store \<Rightarrow> store_result" where
  "coin_update c s =
     update_expired c
       (modify_coin c (coin_fields (ac_network (cx_accounts s ! coin_account s c))) s)"

definition coin_update_from_data :: "nat \<Rightarrow> jobject \<Rightarrow> store \<Rightarrow> store_result" where
  "coin_update_from_data c d s =
     (if co_data (cx_coins s ! c) = d then (s, [])
      else coin_update c (modify_coin c (\<lambda>x. x\<lparr>co_data := d\<rparr>) s))"

definition new_coin :: "nat \<Rightarrow> coin" where
  "new_coin a = \<lparr>co_account = a, co_session = 0, co_asset = None, co_address = [], co_data = [],
     co_dust = False, co_locked = False, co_confidential = False, co_unconfirmed = False,
     co_can_be_locked = False, co_address_type = [], co_expired = False, co_spending = None\<rparr>"

definition modify_account :: "nat \<Rightarrow> (account \<Rightarrow> account) \<Rightarrow> store \<Rightarrow> store" where
  "modify_account a f s = s\<lparr>cx_accounts := (cx_accounts s)[a := f (cx_accounts s ! a)]\<rparr>"

definition output_key :: "jobject \<Rightarrow> string \<times> int" where
  "output_key d = (to_string (jvalue d ''txhash''), to_int (jvalue d ''pt_idx''))"

definition get_output :: "nat \<Rightarrow> jobject \<Rightarrow> store \<Rightarrow> nat option" where
  "get_output a d s = map_of (ac_outs (cx_accounts s ! a)) (output_key d)"

text \<open>The row of a coin, whose sort key is its height, those without one at the top.\<close>

definition set_row :: "nat \<Rightarrow> 'k \<Rightarrow> (nat \<times> 'k) list \<Rightarrow> (nat \<times> 'k) list" where
  "set_row i k rows =
     (if i \<in> fst ` set rows then map (\<lambda>r. if fst r = i then (i, k) else r) rows
      else rows @ [(i, k)])"

definition add_coin :: "nat \<Rightarrow> store \<Rightarrow> store" where
  "add_coin c s =
     (let h = to_int (jvalue (co_data (cx_coins s ! c)) ''block_height'')
      in s\<lparr>cx_coin_rows := set_row c (if h > 0 then h else 2 ^ 31 - 1) (cx_coin_rows s)\<rparr>)"

definition get_or_create_output :: "nat \<Rightarrow> jobject \<Rightarrow> store \<Rightarrow> nat \<times> store \<times> store_output list" where
  "get_or_create_output a d s =
     (case get_output a d s of
        None \<Rightarrow>
          (let c = length (cx_coins s);
               (s1, out1) = coin_update_from_data c d (s\<lparr>cx_coins := cx_coins s @ [new_coin a]\<rparr>);
               (i, s2, out2) = account_session a s1;
               s3 = modify_coin c (\<lambda>x. x\<lparr>co_session := i\<rparr>) s2;
               s4 = modify_account a (\<lambda>x. x\<lparr>ac_outs := qm_insert (output_key d) c (ac_outs x)\<rparr>) s3
           in (c, add_coin c s4, out1 @ out2))
      | Some c \<Rightarrow> (let (s1, out) = coin_update_from_data c d s in (c, add_coin c s1, out)))"

fun add_outputs :: "nat \<Rightarrow> json list \<Rightarrow> store \<Rightarrow> store_result" where
  "add_outputs a [] s = (s, [])"
| "add_outputs a (v # vs) s =
     (let (c, s1, out1) = get_or_create_output a (to_object v) s; (s2, out2) = add_outputs a vs s1
      in (s2, out1 @ out2))"

text \<open>The end of \<open>fetchCoins\<close>: an array of coins for each asset.\<close>

definition coins_fetched :: "nat \<Rightarrow> jobject \<Rightarrow> store \<Rightarrow> store_result" where
  "coins_fetched a unspent = add_outputs a (concat (map (to_array \<circ> snd) unspent))"

section \<open>Accounts\<close>

definition new_account :: "network \<Rightarrow> int \<Rightarrow> account" where
  "new_account n p = \<lparr>ac_network = n, ac_pointer = p, ac_type = [], ac_synced = False, ac_json = [],
     ac_name = [], ac_hidden = False, ac_txs = [], ac_outs = [], ac_load_timer = False,
     ac_dangling = []\<rparr>"

definition account_set_name :: "string \<Rightarrow> account \<Rightarrow> account" where
  "account_set_name name a =
     (if ac_name a = name then a
      else a\<lparr>ac_name := name, ac_json := qm_insert ''name'' (JStr name) (ac_json a)\<rparr>)"

definition account_set_hidden :: "bool \<Rightarrow> account \<Rightarrow> account" where
  "account_set_hidden b a =
     (if ac_hidden a = b then a
      else a\<lparr>ac_json := qm_insert ''hidden'' (JBool b) (ac_json a), ac_hidden := b\<rparr>)"

definition account_set_type :: "string \<Rightarrow> account \<Rightarrow> account \<times> store_output list" where
  "account_set_type t a =
     (if ac_type a = t then (a, [])
      else (a\<lparr>ac_type := t\<rparr>, if ac_type a = [] then [] else [AssertViolated]))"

definition account_update :: "jobject \<Rightarrow> account \<Rightarrow> account \<times> store_output list" where
  "account_update d a =
     (let d1 = (if jcontains (ac_json a) ''satoshi'' \<and> \<not> jcontains d ''satoshi''
                then json_insert ''satoshi'' (jvalue (ac_json a) ''satoshi'') d else d);
          (a1, out) = account_set_type (to_string (jvalue d1 ''type'')) (a\<lparr>ac_json := d1\<rparr>);
          a2 = account_set_name (to_string (jvalue d1 ''name'')) a1;
          a3 = account_set_hidden (to_bool (jvalue d1 ''hidden'')) a2
      in (a3, (if ac_pointer a = to_uint32 (jvalue d ''pointer'') then [] else [AssertViolated]) @ out))"

definition set_balance_data :: "jobject \<Rightarrow> account \<Rightarrow> account" where
  "set_balance_data d a = a\<lparr>ac_json := qm_insert ''satoshi'' (JObj d) (ac_json a)\<rparr>"

definition account_is_empty :: "account \<Rightarrow> bool" where
  "account_is_empty a \<longleftrightarrow> ac_name a = [] \<and> ac_txs a = [] \<and>
     list_all (\<lambda>(k, v). to_integer v \<le> 0) (to_object (jvalue (ac_json a) ''satoshi''))"

definition account_is_amp :: "account \<Rightarrow> bool" where
  "account_is_amp a \<longleftrightarrow> n_liquid (ac_network a) \<and> ac_type a = ''2of2_no_recovery''"

definition get_or_create_account :: "network \<Rightarrow> int \<Rightarrow> store \<Rightarrow> nat \<times> store" where
  "get_or_create_account n p s =
     (case map_of (cx_by_pointer s) (n_id n, p) of
        Some a \<Rightarrow> (a, s)
      | None \<Rightarrow>
          (let a = length (cx_accounts s)
           in (a, s\<lparr>cx_by_pointer := qm_insert (n_id n, p) a (cx_by_pointer s),
                    cx_accounts := cx_accounts s @ [new_account n p]\<rparr>)))"

definition account_with_data :: "network \<Rightarrow> jobject \<Rightarrow> store \<Rightarrow> nat \<times> store \<times> store_output list" where
  "account_with_data n d s =
     (let (a, s1) = get_or_create_account n (to_uint32 (jvalue d ''pointer'')) s;
          (x, out) = account_update d (cx_accounts s1 ! a)
      in (a, modify_account a (\<lambda>y. x) s1,
          (if jcontains d ''pointer'' then [] else [AssertViolated]) @ out))"

definition set_synced :: "nat \<Rightarrow> store \<Rightarrow> store" where
  "set_synced a = modify_account a (\<lambda>x. x\<lparr>ac_synced := True\<rparr>)"

text \<open>\<open>loadBalance\<close> starts a timer over; the timer asks for the balance.\<close>

definition load_balance :: "nat \<Rightarrow> store \<Rightarrow> store" where
  "load_balance a = modify_account a (\<lambda>x. x\<lparr>ac_load_timer := True\<rparr>)"

definition balance_timer :: "nat \<Rightarrow> store \<Rightarrow> store_result" where
  "balance_timer a s =
     (if \<not> ac_load_timer (cx_accounts s ! a) then (s, [])
      else (let s1 = modify_account a (\<lambda>x. x\<lparr>ac_load_timer := False\<rparr>) s;
                (i, s2, out) = account_session a s1
            in (s2, out @ [AddLoadBalance a] @
                 (if cx_watchonly s \<and> n_electrum (ac_network (cx_accounts s ! a))
                  then [AddLoadAccount a] else []))))"

text \<open>\<open>Context::cleanAccounts\<close>: first accounts without a name and money are hidden.\<close>

definition hides_account :: "account \<Rightarrow> bool" where
  "hides_account a \<longleftrightarrow> ac_pointer a = 0 \<and> ac_name a = [] \<and>
     \<not> (n_electrum (ac_network a) \<and> to_bool (jvalue (ac_json a) ''bip44_discovered'')) \<and>
     list_all (\<lambda>(k, v). to_integer v \<le> 0) (to_object (jvalue (ac_json a) ''satoshi''))"

fun clean_loop :: "nat list \<Rightarrow> store \<Rightarrow> store_result" where
  "clean_loop [] s = (s, [])"
| "clean_loop (a # as) s =
     (if hides_account (cx_accounts s ! a) then
        (let (i, s1, out1) = account_session a s;
             (s2, out2) = clean_loop as (modify_account a (account_set_hidden True) s1)
         in (s2, out1 @ [HideAccount a] @ out2))
      else clean_loop as s)"

definition clean_accounts :: "store \<Rightarrow> store_result" where
  "clean_accounts s =
     (if cx_watchonly s then (s, []) else clean_loop [0..<length (cx_accounts s)] s)"

end
