(* ===== verification/Context_Flow.thy ===== *)
theory Context_Flow
  imports Context_Data
begin

text \<open>
  How a context is filled and kept up to date (\<open>src/context.cpp\<close>, \<open>src/account.cpp\<close>,
  \<open>src/transaction.cpp\<close>, \<open>src/address.cpp\<close>, \<open>src/payment.cpp\<close>): transactions that are
  fetched page by page, what the events of a session set off, logging in to more networks, and the
  step function that composes them.  The answers of the wallet library are events.
\<close>

section \<open>Transactions\<close>

definition parse_tx_type :: "string \<Rightarrow> tx_type" where
  "parse_tx_type t =
     (if t = ''incoming'' then Incoming else if t = ''outgoing'' then Outgoing
      else if t = ''redeposit'' then Redeposit else if t = ''mixed'' then Mixed
      else if t = ''not unblindable'' then NotUnblindable else UnknownType)"

definition modify_tx :: "nat \<Rightarrow> (account_tx \<Rightarrow> account_tx) \<Rightarrow> store \<Rightarrow> store" where
  "modify_tx t f s = s\<lparr>cx_txs := (cx_txs s)[t := f (cx_txs s ! t)]\<rparr>"

text \<open>Milliseconds; a null time is now, a missing one the epoch.  The division truncates.\<close>

definition tx_timestamp :: "int \<Rightarrow> account_tx \<Rightarrow> int" where
  "tx_timestamp now x =
     (case jvalue (at_data x) ''created_at_ts'' of
        JNull \<Rightarrow> now
      | v \<Rightarrow> (let n = to_integer v in if n \<ge> 0 then n div 1000 else - (- n div 1000)))"

definition tx_is_unconfirmed :: "account_tx \<Rightarrow> bool" where
  "tx_is_unconfirmed x \<longleftrightarrow> to_int (jvalue (at_data x) ''block_height'') = 0"

definition has_unconfirmed_transactions :: "nat \<Rightarrow> store \<Rightarrow> bool" where
  "has_unconfirmed_transactions a s \<longleftrightarrow>
     list_ex (\<lambda>(h, t). tx_is_unconfirmed (cx_txs s ! t)) (ac_txs (cx_accounts s ! a))"

fun spend_inputs :: "nat \<Rightarrow> nat \<Rightarrow> json list \<Rightarrow> store \<Rightarrow> store_result" where
  "spend_inputs a t [] s = (s, [])"
| "spend_inputs a t (v # vs) s =
     (let (c, s1, out1) = get_or_create_output a (to_object v) s;
          (s2, out2) = set_spending_transaction c t s1;
          (s3, out3) = spend_inputs a t vs s2
      in (s3, out1 @ out2 @ out3))"

definition tx_update_from_data :: "nat \<Rightarrow> jobject \<Rightarrow> store \<Rightarrow> store_result" where
  "tx_update_from_data t d s =
     (if at_data (cx_txs s ! t) = d then (s, [])
      else spend_inputs (at_account (cx_txs s ! t)) t (to_array (jvalue d ''inputs''))
             (modify_tx t (\<lambda>x. x\<lparr>at_data := d, at_type := parse_tx_type (to_string (jvalue d ''type'')),
                at_memo := to_string (jvalue d ''memo'')\<rparr>) s))"

text \<open>The map by hash may hold several transactions of one hash, the last one first.\<close>

definition add_transaction :: "int \<Rightarrow> nat \<Rightarrow> store \<Rightarrow> store" where
  "add_transaction now t s =
     (let x = cx_txs s ! t; time = tx_timestamp now x
      in if t \<in> fst ` set (cx_tx_rows s) then s\<lparr>cx_tx_rows := set_row t time (cx_tx_rows s)\<rparr>
         else s\<lparr>cx_tx_map := (at_id x, t) # cx_tx_map s,
                cx_tx_rows := set_row t time (cx_tx_rows s)\<rparr>)"

definition remove_transaction :: "nat \<Rightarrow> store \<Rightarrow> store" where
  "remove_transaction t s = s\<lparr>cx_tx_rows := filter (\<lambda>r. fst r \<noteq> t) (cx_tx_rows s)\<rparr>"

definition get_transaction :: "string \<Rightarrow> store \<Rightarrow> nat list" where
  "get_transaction h s = map snd (filter (\<lambda>p. fst p = h) (cx_tx_map s))"

definition new_account_tx :: "string \<Rightarrow> nat \<Rightarrow> account_tx" where
  "new_account_tx h a = \<lparr>at_id = h, at_account = a, at_type = UnknownType, at_data = [],
     at_memo = [], at_payment = None\<rparr>"

definition get_or_create_chain_transaction :: "string \<Rightarrow> store \<Rightarrow> store" where
  "get_or_create_chain_transaction h s =
     (if h \<in> set (cx_chain_txs s) then s else s\<lparr>cx_chain_txs := h # cx_chain_txs s\<rparr>)"

definition account_tx_for :: "nat \<Rightarrow> string \<Rightarrow> store \<Rightarrow> nat \<times> store" where
  "account_tx_for a h s =
     (case map_of (ac_txs (cx_accounts s ! a)) h of
        Some t \<Rightarrow> (t, s)
      | None \<Rightarrow>
          (let s1 = get_or_create_chain_transaction h s; t = length (cx_txs s1)
           in (t, modify_account a (\<lambda>x. x\<lparr>ac_txs := qm_insert h t (ac_txs x)\<rparr>)
                    (s1\<lparr>cx_txs := cx_txs s1 @ [new_account_tx h a]\<rparr>))))"

definition get_or_create_transaction ::
    "int \<Rightarrow> nat \<Rightarrow> jobject \<Rightarrow> store \<Rightarrow> nat \<times> store \<times> store_output list" where
  "get_or_create_transaction now a d s =
     (let (t, s1) = account_tx_for a (to_string (jvalue d ''txhash'')) s;
          (s2, out) = tx_update_from_data t d s1
      in (t, add_transaction now t s2, out))"

section \<open>Fetching transactions\<close>

definition page_size :: nat where
  "page_size = 30"

definition begin_fetch_transactions :: "nat \<Rightarrow> store \<Rightarrow> store" where
  "begin_fetch_transactions a = modify_account a (\<lambda>x. x\<lparr>ac_dangling := map fst (ac_txs x)\<rparr>)"

definition touch_transaction :: "nat \<Rightarrow> string \<Rightarrow> store \<Rightarrow> store" where
  "touch_transaction a h = modify_account a (\<lambda>x. x\<lparr>ac_dangling := remove1 h (ac_dangling x)\<rparr>)"

fun remove_transactions :: "nat \<Rightarrow> string list \<Rightarrow> store \<Rightarrow> store" where
  "remove_transactions a [] s = s"
| "remove_transactions a (h # hs) s =
     remove_transactions a hs
       (case map_of (ac_txs (cx_accounts s ! a)) h of None \<Rightarrow> s | Some t \<Rightarrow> remove_transaction t s)"

definition end_fetch_transactions :: "nat \<Rightarrow> store \<Rightarrow> store" where
  "end_fetch_transactions a s =
     modify_account a (\<lambda>x. x\<lparr>ac_dangling := []\<rparr>)
       (remove_transactions a (ac_dangling (cx_accounts s ! a)) s)"

definition fetch_page :: "nat \<Rightarrow> nat \<Rightarrow> store \<Rightarrow> store_result" where
  "fetch_page a page s = (let (i, s1, out) = account_session a s in (s1, out @ [FetchPage a page]))"

definition fetch_transactions :: "nat \<Rightarrow> store \<Rightarrow> store_result" where
  "fetch_transactions a s = fetch_page a 0 (begin_fetch_transactions a s)"

definition fetch_coins :: "nat \<Rightarrow> store \<Rightarrow> store_result" where
  "fetch_coins a s = (let (i, s1, out) = account_session a s in (s1, out @ [FetchCoins a]))"

fun touch_page :: "int \<Rightarrow> nat \<Rightarrow> json list \<Rightarrow> store \<Rightarrow> store_result" where
  "touch_page now a [] s = (s, [])"
| "touch_page now a (v # vs) s =
     (let (t, s1, out1) = get_or_create_transaction now a (to_object v) s;
          (s2, out2) = touch_page now a vs (touch_transaction a (at_id (cx_txs s1 ! t)) s1)
      in (s2, out1 @ out2))"

definition page_fetched :: "int \<Rightarrow> nat \<Rightarrow> nat \<Rightarrow> json list \<Rightarrow> store \<Rightarrow> store_result" where
  "page_fetched now a page txs s =
     (let (s1, out1) = touch_page now a txs s
      in if length txs = page_size
         then (let (s2, out2) = fetch_page a (page + 1) s1 in (s2, out1 @ out2))
         else (end_fetch_transactions a s1, out1))"

text \<open>\<open>loadNetwork2\<close>, when the accounts of a network are there.\<close>

fun load_accounts :: "nat list \<Rightarrow> store \<Rightarrow> store_result" where
  "load_accounts [] s = (s, [])"
| "load_accounts (a # as) s =
     (let (i, s1, out1) = account_session a s;
          (s2, out2) = fetch_coins a s1;
          (s3, out3) = fetch_transactions a s2;
          (s4, out4) = load_accounts as s3
      in (s4, out1 @ [AddLoadBalance a] @ out2 @ out3 @ out4))"

section \<open>Events of a session\<close>

text \<open>
  A block: balances are asked for again (on Liquid at every tenth block), and accounts with
  unconfirmed transactions are fetched again.
\<close>

fun block_loop :: "nat list \<Rightarrow> nat \<Rightarrow> bool \<Rightarrow> store \<Rightarrow> store_result" where
  "block_loop [] i balance s = (s, [])"
| "block_loop (a # as) i balance s =
     (let (j, s1, out1) = account_session a s;
          s2 = (if j = i \<and> balance then load_balance a s1 else s1);
          (s3, out3) = (if j = i \<and> has_unconfirmed_transactions a s2 then
              (let (s4, out4) = fetch_transactions a s2; (s5, out5) = fetch_coins a s4
               in (s5, out4 @ out5)) else (s2, []));
          (s6, out6) = block_loop as i balance s3
      in (s6, out1 @ out3 @ out6))"

definition on_block :: "nat \<Rightarrow> jobject \<Rightarrow> store \<Rightarrow> store_result" where
  "on_block i event s =
     (let h = to_uint32 (jvalue (to_object (jvalue event ''block'')) ''block_height'');
          liquid = n_liquid (s_network (cx_session_objs s ! i))
      in block_loop [0..<length (cx_accounts s)] i (\<not> liquid \<or> h mod 10 = 0) s)"

definition on_subaccount :: "nat \<Rightarrow> jobject \<Rightarrow> store \<Rightarrow> store" where
  "on_subaccount i event s =
     (let p = to_uint32 (jvalue event ''pointer''); kind = to_string (jvalue event ''event_type'');
          n = s_network (cx_session_objs s ! i)
      in if kind = ''new'' then snd (get_or_create_account n p s)
         else if kind = ''synced'' \<and> \<not> cx_skip_load_accounts s then
           (let (a, s1) = get_or_create_account n p s
            in if ac_synced (cx_accounts s1 ! a) then s1 else load_balance a (set_synced a s1))
         else s)"

fun transaction_loop :: "json list \<Rightarrow> network \<Rightarrow> store \<Rightarrow> store_result" where
  "transaction_loop [] n s = (s, [])"
| "transaction_loop (v # vs) n s =
     (let (a, s1) = get_or_create_account n (to_uint32 v) s;
          (s2, out2) = fetch_transactions a s1;
          (s3, out3) = fetch_coins a s2;
          (s4, out4) = transaction_loop vs n s3
      in (s4, out2 @ out3 @ [LoadBalanceAfterGroup a] @ out4))"

definition on_transaction :: "nat \<Rightarrow> jobject \<Rightarrow> store \<Rightarrow> store_result" where
  "on_transaction i event s =
     transaction_loop (to_array (jvalue event ''subaccounts'')) (s_network (cx_session_objs s ! i)) s"

text \<open>The coins of a session check whether they expire, in the order in which they were made.\<close>

fun expire_coins :: "nat list \<Rightarrow> store \<Rightarrow> store_result" where
  "expire_coins [] s = (s, [])"
| "expire_coins (c # cs) s =
     (let (s1, out1) = update_expired c s; (s2, out2) = expire_coins cs s1 in (s2, out1 @ out2))"

definition session_coins :: "nat \<Rightarrow> store \<Rightarrow> nat list" where
  "session_coins i s = filter (\<lambda>c. co_session (cx_coins s ! c) = i) [0..<length (cx_coins s)]"

text \<open>Reset notifications of a session whose reset is over are removed.\<close>

definition reset_notes :: "nat \<Rightarrow> store \<Rightarrow> nat list" where
  "reset_notes i s = filter (\<lambda>k. cx_note_objs s ! k = ResetNote i) (cx_notes s)"

fun remove_notes :: "nat list \<Rightarrow> store \<Rightarrow> store_result" where
  "remove_notes [] s = (s, [])"
| "remove_notes (k # ks) s =
     (let (s1, out1) = remove_notification k s; (s2, out2) = remove_notes ks s1 in (s2, out1 @ out2))"

definition on_reset :: "nat \<Rightarrow> bool \<Rightarrow> store \<Rightarrow> store_result" where
  "on_reset i active s = (if active then (s, []) else remove_notes (reset_notes i s) s)"

definition on_reset_event :: "nat \<Rightarrow> jobject \<Rightarrow> store \<Rightarrow> store_result" where
  "on_reset_event i event s =
     (if to_bool (jvalue event ''is_active'') then
        (let (j, s1, out1) = get_or_create_session (s_network (cx_session_objs s ! i)) s;
             (k, s2, out2) = add_notification (ResetNote j) s1
         in (s2, out1 @ out2))
      else on_reset i False s)"

fun on_session :: "nat \<Rightarrow> session_output \<Rightarrow> store \<Rightarrow> store_result" where
  "on_session i BlockChanged s = expire_coins (session_coins i s) s"
| "on_session i (BlockEvent event) s = on_block i event s"
| "on_session i (SubaccountEvent event) s = (on_subaccount i event s, [])"
| "on_session i (TransactionEvent event) s = on_transaction i event s"
| "on_session i (TwoFactorResetEvent event) s = on_reset_event i event s"
| "on_session i ConfigChanged s =
     on_reset i (to_bool (jvalue (to_object (jvalue (s_config (cx_session_objs s ! i)) ''twofactor_reset''))
       ''is_active'')) s"
| "on_session i AutoLogoutTriggered s = (s, if cx_wallet s = Some False then [AutoLogout] else [])"
| "on_session i _ s = (s, [])"

fun on_session_outputs :: "nat \<Rightarrow> session_output list \<Rightarrow> store \<Rightarrow> store_result" where
  "on_session_outputs i [] s = (s, [])"
| "on_session_outputs i (x # xs) s =
     (let (s1, out1) = on_session i x s; (s2, out2) = on_session_outputs i xs s1
      in (s2, SessionSays i x # out1 @ out2))"

definition session_does :: "nat \<Rightarrow> session_event \<Rightarrow> store \<Rightarrow> store_result" where
  "session_does i e s =
     (let (x, out) = session_step (cx_session_objs s ! i) e in on_session_outputs i out (set_session i x s))"

section \<open>Logging in to more networks\<close>

text \<open>
  \<open>loginNetwork\<close>; \<open>None\<close> is the null login it follows when there is neither a device nor a
  mnemonic.  \<open>StartLogin\<close> carries the attempt, whether the login waits for the connection by
  way of the assets, and whether the pricing is copied from the first session.
\<close>

definition login_network :: "network \<Rightarrow> store \<Rightarrow> store_result option" where
  "login_network n s =
     (let (i, s1, out1) = get_or_create_session n s;
          linked = (n_liquid n \<and> \<not> cx_assets_loaded s1);
          k = length (cx_attempts s1);
          pricing = (case jvalue (s_settings (cx_session_objs s1 ! hd (cx_session_list s1))) ''pricing'' of
              JObj ob \<Rightarrow> True | _ \<Rightarrow> False)
      in if cx_device s1 \<or> jcontains (cx_credentials s1) ''mnemonic''
         then Some (s1\<lparr>cx_assets_loaded := (cx_assets_loaded s1 \<or> linked),
                       cx_attempts := cx_attempts s1 @ [(i, linked)]\<rparr>,
                    out1 @ [StartLogin k linked pricing])
         else None)"

definition attempt_network :: "nat \<Rightarrow> store \<Rightarrow> string" where
  "attempt_network k s = n_id (s_network (cx_session_objs s ! fst (cx_attempts s ! k)))"

definition add_outage :: "string \<Rightarrow> store \<Rightarrow> store_result" where
  "add_outage n s =
     (let (k, s1, out) = (case cx_outage s of
            Some k \<Rightarrow> (k, s, [])
          | None \<Rightarrow> (let (k, s1, out) = add_notification (OutageNote []) s in (k, s1\<lparr>cx_outage := Some k\<rparr>, out)));
          ns = note_networks (cx_note_objs s1 ! k)
      in (if n \<in> set ns then s1 else set_note k (OutageNote (ns @ [n])) s1, out))"

definition remove_outage :: "string \<Rightarrow> store \<Rightarrow> store_result" where
  "remove_outage n s =
     (case cx_outage s of
        None \<Rightarrow> (s, [])
      | Some k \<Rightarrow>
          (let ns = remove1 n (note_networks (cx_note_objs s ! k)); s1 = set_note k (OutageNote ns) s
           in if ns = [] then (let (s2, out) = remove_notification k s1 in (s2\<lparr>cx_outage := None\<rparr>, out))
              else (s1, [])))"

definition login_failed :: "nat \<Rightarrow> store \<Rightarrow> store_result" where
  "login_failed k s = release_session (fst (cx_attempts s ! k)) s"

text \<open>A connection that fails takes down the login that waits for it (\<open>Task::setStatus\<close>).\<close>

definition connect_failed :: "nat \<Rightarrow> string \<Rightarrow> store \<Rightarrow> store_result" where
  "connect_failed k error s =
     (let n = attempt_network k s;
          (s1, out1) = (if error = ''timeout error'' then
              (let (s2, out2) = release_session (fst (cx_attempts s ! k)) s; (s3, out3) = add_outage n s2
               in (s3, out2 @ out3)) else (s, []));
          (s4, out4) = (if snd (cx_attempts s ! k) then login_failed k s1 else (s1, []))
      in (s4, out1 @ out4))"

definition login_finished :: "nat \<Rightarrow> store \<Rightarrow> store_result" where
  "login_finished k s =
     (let (s1, out) = remove_outage (attempt_network k s) s
      in (s1, out @ [LoadNetwork (fst (cx_attempts s ! k))]))"

section \<open>Addresses and payments\<close>

definition get_or_create_address :: "string \<Rightarrow> store \<Rightarrow> nat \<times> store" where
  "get_or_create_address v s =
     (case map_of (cx_address_map s) v of
        Some d \<Rightarrow> (d, s)
      | None \<Rightarrow>
          (let d = length (cx_addresses s)
           in (d, s\<lparr>cx_addresses := cx_addresses s @ [\<lparr>ad_value = v, ad_account = None, ad_data = [],
                       ad_pointer = 0, ad_type = []\<rparr>],
                    cx_address_map := qm_insert v d (cx_address_map s),
                    cx_address_rows := cx_address_rows s @ [d]\<rparr>)))"

definition address_update :: "jobject \<Rightarrow> address \<Rightarrow> address" where
  "address_update d x =
     (if ad_data x = d then x
      else x\<lparr>ad_data := d, ad_pointer := to_int (jvalue d ''pointer''),
             ad_type := to_string (jvalue d ''address_type'')\<rparr>)"

definition account_address :: "nat \<Rightarrow> jobject \<Rightarrow> store \<Rightarrow> nat \<times> store" where
  "account_address a d s =
     (let (i, s1) = get_or_create_address (to_string (jvalue d ''address'')) s
      in (i, s1\<lparr>cx_addresses := (cx_addresses s1)
               [i := address_update d ((cx_addresses s1 ! i)\<lparr>ad_account := Some a\<rparr>)]\<rparr>))"

definition get_or_create_payment :: "string \<Rightarrow> store \<Rightarrow> nat \<times> store" where
  "get_or_create_payment v s =
     (case map_of (cx_payment_map s) v of
        Some p \<Rightarrow> (p, s)
      | None \<Rightarrow>
          (let p = length (cx_payments s)
           in (p, s\<lparr>cx_payments := cx_payments s @ [\<lparr>py_data = [], py_address = None,
                       py_transaction = None, py_updated_at = [], py_status = []\<rparr>],
                    cx_payment_map := qm_insert v p (cx_payment_map s),
                    cx_payment_rows := cx_payment_rows s @ [(p, [])]\<rparr>)))"

definition set_tx_payment :: "nat \<Rightarrow> nat option \<Rightarrow> store \<Rightarrow> store" where
  "set_tx_payment t p = modify_tx t (\<lambda>x. x\<lparr>at_payment := p\<rparr>)"

text \<open>\<open>Payment::refresh\<close>; the date a text denotes is left to Qt.\<close>

definition payment_refresh :: "nat \<Rightarrow> store \<Rightarrow> store" where
  "payment_refresh p s =
     (let x = cx_payments s ! p; d = py_data x;
          details = to_object (jvalue d ''cryptoDetails'');
          updated = to_string (jvalue d ''updatedAt'');
          to_address = to_string (jvalue details ''destinationWalletAddress'');
          txid = to_string (jvalue details ''blockchainTransactionId'');
          (address, s1) = (if py_address x = None \<and> to_address \<noteq> [] then
              (let (i, s1) = get_or_create_address to_address s in (Some i, s1)) else (py_address x, s));
          tx = (if txid = [] then None
                else (case get_transaction txid s1 of [] \<Rightarrow> None | t # ts \<Rightarrow> Some t));
          y = x\<lparr>py_updated_at := updated, py_status := to_string (jvalue d ''status''), py_address := address\<rparr>;
          s2 = s1\<lparr>cx_payment_rows := set_row p updated (cx_payment_rows s1)\<rparr>
      in if py_transaction x = tx then s2\<lparr>cx_payments := (cx_payments s2)[p := y]\<rparr>
         else (let s3 = (case py_transaction x of None \<Rightarrow> s2 | Some t \<Rightarrow> set_tx_payment t None s2);
                   s4 = (case tx of None \<Rightarrow> s3 | Some t \<Rightarrow> set_tx_payment t (Some p) s3)
               in s4\<lparr>cx_payments := (cx_payments s4)[p := y\<lparr>py_transaction := tx\<rparr>]\<rparr>))"

definition payment_update :: "nat \<Rightarrow> jobject \<Rightarrow> store \<Rightarrow> store" where
  "payment_update p d s =
     (if py_data (cx_payments s ! p) = d then s
      else payment_refresh p (s\<lparr>cx_payments := (cx_payments s)[p := (cx_payments s ! p)\<lparr>py_data := d\<rparr>]\<rparr>))"

section \<open>Steps\<close>

text \<open>
  What can happen to a context: a session takes an event, an answer of the library arrives, a timer
  fires, a list of coins brings one of its coins up to date.  Answers name the account they were asked
  for; an index that does not exist is ignored.
\<close>

datatype store_event =
    SessionDoes nat session_event
  | AccountLoaded network jobject
  | AccountsReady "nat list"
  | BalanceLoaded nat jobject
  | BalanceTimer nat
  | PageFetched int nat nat "json list"
  | CoinsFetched nat jobject
  | TransactionSent int nat jobject
  | AddressReceived nat jobject
  | PaymentReceived string jobject
  | PaymentsRefreshed
  | CleanAccounts
  | LoginNetwork network
  | ConnectFailed nat string
  | NetworkLoginFailed nat
  | NetworkLoginFinished nat
  | SystemMessage string string
  | BackupChecked bool bool
  | CoinUpdated nat

definition has_account :: "nat \<Rightarrow> store \<Rightarrow> bool" where
  "has_account a s \<longleftrightarrow> a < length (cx_accounts s)"

definition has_attempt :: "nat \<Rightarrow> store \<Rightarrow> bool" where
  "has_attempt k s \<longleftrightarrow> k < length (cx_attempts s)"

fun store_step :: "store \<Rightarrow> store_event \<Rightarrow> store_result" where
  "store_step s (SessionDoes i e) = (if i < length (cx_session_objs s) then session_does i e s else (s, []))"
| "store_step s (AccountLoaded n d) = (let (a, s1, out) = account_with_data n d s in (s1, out))"
| "store_step s (AccountsReady as) = load_accounts (filter (\<lambda>a. has_account a s) as) s"
| "store_step s (BalanceLoaded a d) =
     (if has_account a s then (modify_account a (set_balance_data d) s, []) else (s, []))"
| "store_step s (BalanceTimer a) = (if has_account a s then balance_timer a s else (s, []))"
| "store_step s (PageFetched now a page txs) =
     (if has_account a s then page_fetched now a page txs s else (s, []))"
| "store_step s (CoinsFetched a unspent) = (if has_account a s then coins_fetched a unspent s else (s, []))"
| "store_step s (TransactionSent now a d) =
     (if has_account a s then (let (t, s1, out) = get_or_create_transaction now a d s in (s1, out)) else (s, []))"
| "store_step s (AddressReceived a d) =
     (if has_account a s then (snd (account_address a d s), []) else (s, []))"
| "store_step s (PaymentReceived v d) =
     (let (p, s1) = get_or_create_payment v s in (payment_update p d s1, []))"
| "store_step s PaymentsRefreshed = (fold payment_refresh (map snd (cx_payment_map s)) s, [])"
| "store_step s CleanAccounts = clean_accounts s"
| "store_step s (LoginNetwork n) = (case login_network n s of None \<Rightarrow> (s, []) | Some r \<Rightarrow> r)"
| "store_step s (ConnectFailed k error) = (if has_attempt k s then connect_failed k error s else (s, []))"
| "store_step s (NetworkLoginFailed k) = (if has_attempt k s then login_failed k s else (s, []))"
| "store_step s (SystemMessage n message) = system_message n message s"
| "store_step s (BackupChecked pin registered) = check_backup pin registered s"
| "store_step s (CoinUpdated c) = (if c < length (cx_coins s) then coin_update c s else (s, []))"
| "store_step s (NetworkLoginFinished k) = (if has_attempt k s then login_finished k s else (s, []))"

definition new_store :: "app_settings \<Rightarrow> bool option \<Rightarrow> bool \<Rightarrow> jobject \<Rightarrow> bool \<Rightarrow> store" where
  "new_store st wallet device credentials watchonly =
     \<lparr>cx_settings = st, cx_wallet = wallet, cx_device = device, cx_credentials = credentials,
      cx_watchonly = watchonly, cx_skip_load_accounts = False, cx_assets_loaded = False,
      cx_session_objs = [], cx_sessions = [], cx_session_list = [], cx_attempts = [], sm_sessions = [],
      sm_garbage = [], sm_tor = False, cx_accounts = [], cx_by_pointer = [], cx_coins = [],
      cx_coin_rows = [], cx_txs = [], cx_chain_txs = [], cx_tx_map = [], cx_tx_rows = [],
      cx_addresses = [], cx_address_map = [], cx_address_rows = [], cx_payments = [],
      cx_payment_map = [], cx_payment_rows = [], cx_note_objs = [], cx_notes = [], cx_outage = None\<rparr>"

end
