(* ===== verification/Context_Facts.thy ===== *)
theory Context_Facts
  imports Context_Flow
begin

text \<open>
  The library about the context: what each group of operations leaves alone, stated once as
  interfaces for invariants that do not look at sessions (\<open>session_blind\<close>), at anything but
  transactions (\<open>tx_invariant\<close>) or at anything but coins and notifications
  (\<open>coin_invariant\<close>), and the invariants themselves.
\<close>

section \<open>Sessions\<close>

locale session_blind =
  fixes inv :: "store \<Rightarrow> bool"
  assumes session_fields [simp]:
    "inv (s\<lparr>cx_session_objs := xs\<rparr>) \<longleftrightarrow> inv s" "inv (s\<lparr>cx_sessions := m\<rparr>) \<longleftrightarrow> inv s"
    "inv (s\<lparr>cx_session_list := is\<rparr>) \<longleftrightarrow> inv s" "inv (s\<lparr>cx_attempts := ks\<rparr>) \<longleftrightarrow> inv s"
    "inv (s\<lparr>cx_assets_loaded := b\<rparr>) \<longleftrightarrow> inv s" "inv (s\<lparr>sm_sessions := is\<rparr>) \<longleftrightarrow> inv s"
    "inv (s\<lparr>sm_garbage := is\<rparr>) \<longleftrightarrow> inv s" "inv (s\<lparr>sm_tor := b\<rparr>) \<longleftrightarrow> inv s"
begin

lemma set_session [simp]: "inv (set_session i x s) \<longleftrightarrow> inv s"
  by (simp add: set_session_def)

lemma session_release [simp]: "inv (session_release i s) \<longleftrightarrow> inv s"
  by (simp add: session_release_def)

lemma get_or_create_session [simp]: "inv (fst (snd (get_or_create_session n s))) \<longleftrightarrow> inv s"
  by (simp add: get_or_create_session_def session_create_def Let_def case_prod_beta split: option.split)

lemma account_session [simp]: "inv (fst (snd (account_session a s))) \<longleftrightarrow> inv s"
  by (simp add: account_session_def)

lemma visit_sessions [simp]: "inv (fst (visit_sessions as s)) \<longleftrightarrow> inv s"
  by (induction as arbitrary: s) (simp_all add: case_prod_beta Let_def)

lemma release_session [simp]: "inv (fst (release_session i s)) \<longleftrightarrow> inv s"
  by (simp add: release_session_def case_prod_beta Let_def)

lemma login_failed [simp]: "inv (fst (login_failed k s)) \<longleftrightarrow> inv s"
  by (simp add: login_failed_def)

lemma fetch_page [simp]: "inv (fst (fetch_page a p s)) \<longleftrightarrow> inv s"
  by (simp add: fetch_page_def case_prod_beta Let_def)

lemma fetch_coins [simp]: "inv (fst (fetch_coins a s)) \<longleftrightarrow> inv s"
  by (simp add: fetch_coins_def case_prod_beta Let_def)

lemma login_network: "login_network n s = Some (s', out) \<Longrightarrow> inv s' \<longleftrightarrow> inv s"
  using get_or_create_session [of n s]
  by (auto simp: login_network_def case_prod_beta Let_def split: if_splits)

end

text \<open>What sessions leave alone, as equations.\<close>

named_theorems frame_simps "fields an operation of the context leaves alone"

lemma session_frame [frame_simps]:
  "cx_accounts (fst (snd (get_or_create_session n s))) = cx_accounts s"
  "cx_coins (fst (snd (get_or_create_session n s))) = cx_coins s"
  "cx_txs (fst (snd (get_or_create_session n s))) = cx_txs s"
  "cx_watchonly (fst (snd (get_or_create_session n s))) = cx_watchonly s"
  by (simp_all add: get_or_create_session_def session_create_def set_session_def Let_def case_prod_beta
      split: option.split)

lemma account_session_frame [frame_simps]:
  "cx_accounts (fst (snd (account_session a s))) = cx_accounts s"
  "cx_coins (fst (snd (account_session a s))) = cx_coins s"
  "cx_txs (fst (snd (account_session a s))) = cx_txs s"
  "cx_watchonly (fst (snd (account_session a s))) = cx_watchonly s"
  by (simp_all add: account_session_def frame_simps)

section \<open>Invariants of transactions\<close>

text \<open>Everything but the transactions themselves, their rows and the lists of the fetch.\<close>

locale tx_invariant = session_blind +
  assumes other_fields [simp]:
    "inv (s\<lparr>cx_coins := cs\<rparr>) \<longleftrightarrow> inv s" "inv (s\<lparr>cx_coin_rows := rs\<rparr>) \<longleftrightarrow> inv s"
    "inv (s\<lparr>cx_note_objs := ns\<rparr>) \<longleftrightarrow> inv s" "inv (s\<lparr>cx_notes := is\<rparr>) \<longleftrightarrow> inv s"
    "inv (s\<lparr>cx_outage := k\<rparr>) \<longleftrightarrow> inv s" "inv (s\<lparr>cx_addresses := ds\<rparr>) \<longleftrightarrow> inv s"
    "inv (s\<lparr>cx_address_map := m\<rparr>) \<longleftrightarrow> inv s" "inv (s\<lparr>cx_address_rows := is\<rparr>) \<longleftrightarrow> inv s"
    "inv (s\<lparr>cx_payments := ps\<rparr>) \<longleftrightarrow> inv s" "inv (s\<lparr>cx_payment_map := m\<rparr>) \<longleftrightarrow> inv s"
    "inv (s\<lparr>cx_payment_rows := ts\<rparr>) \<longleftrightarrow> inv s"
    and account_fields: "\<lbrakk>\<And>x. ac_network (f x) = ac_network x; \<And>x. ac_pointer (f x) = ac_pointer x;
      \<And>x. ac_txs (f x) = ac_txs x; \<And>x. ac_dangling (f x) = ac_dangling x\<rbrakk> \<Longrightarrow> inv (modify_account a f s) \<longleftrightarrow> inv s"
begin

lemma note_ops [simp]:
  "inv (fst (snd (add_notification k s))) \<longleftrightarrow> inv s" "inv (fst (remove_notification i s)) \<longleftrightarrow> inv s"
  "inv (set_note i k s) \<longleftrightarrow> inv s"
  by (simp_all add: add_notification_def remove_notification_def set_note_def Let_def)

lemma message_ops [simp]:
  "inv (fst (system_message n msg s)) \<longleftrightarrow> inv s" "inv (fst (check_backup pin registered s)) \<longleftrightarrow> inv s"
  by (simp_all add: system_message_def check_backup_def split: option.split)

lemma update_notifications [simp]: "inv (fst (update_notifications c s)) \<longleftrightarrow> inv s"
  by (simp add: update_notifications_def Let_def case_prod_beta split: option.split)

lemma coin_ops [simp]:
  "inv (modify_coin c g s) \<longleftrightarrow> inv s" "inv (fst (set_expired c b s)) \<longleftrightarrow> inv s"
  "inv (fst (set_spending_transaction c t s)) \<longleftrightarrow> inv s" "inv (add_coin c s) \<longleftrightarrow> inv s"
  by (simp_all add: modify_coin_def set_expired_def set_spending_transaction_def add_coin_def Let_def)

lemma update_expired [simp]: "inv (fst (update_expired c s)) \<longleftrightarrow> inv s"
  by (simp add: update_expired_def Let_def case_prod_beta split: json.split)

lemma coin_update [simp]: "inv (fst (coin_update c s)) \<longleftrightarrow> inv s"
  by (simp add: coin_update_def)

lemma coin_update_from_data [simp]: "inv (fst (coin_update_from_data c d s)) \<longleftrightarrow> inv s"
  by (simp add: coin_update_from_data_def)

lemma get_or_create_output [simp]: "inv (fst (snd (get_or_create_output a d s))) \<longleftrightarrow> inv s"
  by (simp add: get_or_create_output_def Let_def case_prod_beta account_fields split: option.split)

lemma add_outputs [simp]: "inv (fst (add_outputs a vs s)) \<longleftrightarrow> inv s"
  by (induction vs arbitrary: s) (simp_all add: Let_def case_prod_beta)

lemma coins_fetched [simp]: "inv (fst (coins_fetched a unspent s)) \<longleftrightarrow> inv s"
  by (simp add: coins_fetched_def)

lemma spend_inputs [simp]: "inv (fst (spend_inputs a t vs s)) \<longleftrightarrow> inv s"
  by (induction vs arbitrary: s) (simp_all add: Let_def case_prod_beta)

lemma expire_coins [simp]: "inv (fst (expire_coins cs s)) \<longleftrightarrow> inv s"
  by (induction cs arbitrary: s) (simp_all add: Let_def case_prod_beta)

lemma account_ops [simp]:
  "inv (set_synced a s) \<longleftrightarrow> inv s" "inv (load_balance a s) \<longleftrightarrow> inv s"
  "inv (modify_account a (set_balance_data d) s) \<longleftrightarrow> inv s"
  "inv (modify_account a (account_set_hidden b) s) \<longleftrightarrow> inv s"
  by (simp_all add: set_synced_def load_balance_def account_fields set_balance_data_def
      account_set_hidden_def)

lemma balance_timer [simp]: "inv (fst (balance_timer a s)) \<longleftrightarrow> inv s"
  by (simp add: balance_timer_def Let_def case_prod_beta account_fields)

lemma clean_loop [simp]: "inv (fst (clean_loop as s)) \<longleftrightarrow> inv s"
  by (induction as arbitrary: s) (simp_all add: Let_def case_prod_beta)

lemma clean_accounts [simp]: "inv (fst (clean_accounts s)) \<longleftrightarrow> inv s"
  by (simp add: clean_accounts_def)

lemma remove_notes [simp]: "inv (fst (remove_notes ks s)) \<longleftrightarrow> inv s"
  by (induction ks arbitrary: s) (simp_all add: Let_def case_prod_beta)

lemma reset_ops [simp]:
  "inv (fst (on_reset i b s)) \<longleftrightarrow> inv s" "inv (fst (on_reset_event i d s)) \<longleftrightarrow> inv s"
  by (simp_all add: on_reset_def on_reset_event_def Let_def case_prod_beta)

lemma outage_ops [simp]:
  "inv (fst (add_outage n s)) \<longleftrightarrow> inv s" "inv (fst (remove_outage n s)) \<longleftrightarrow> inv s"
  by (simp_all add: add_outage_def remove_outage_def Let_def case_prod_beta split: option.split)

lemma login_ops [simp]:
  "inv (fst (connect_failed k e s)) \<longleftrightarrow> inv s" "inv (fst (login_finished k s)) \<longleftrightarrow> inv s"
  by (simp_all add: connect_failed_def login_finished_def Let_def case_prod_beta)

lemma address_ops [simp]:
  "inv (snd (get_or_create_address v s)) \<longleftrightarrow> inv s" "inv (snd (account_address a d s)) \<longleftrightarrow> inv s"
  "inv (snd (get_or_create_payment v s)) \<longleftrightarrow> inv s"
  by (simp_all add: get_or_create_address_def account_address_def get_or_create_payment_def Let_def
      case_prod_beta split: option.split)

end

lemma nth_modify_account:
  "b < length (cx_accounts s) \<Longrightarrow>
    cx_accounts (modify_account a f s) ! b = (if b = a then f (cx_accounts s ! a) else cx_accounts s ! b)"
  by (simp add: modify_account_def nth_list_update)

lemma modify_account_frame [simp]:
  "length (cx_accounts (modify_account a f s)) = length (cx_accounts s)"
  "cx_txs (modify_account a f s) = cx_txs s" "cx_tx_rows (modify_account a f s) = cx_tx_rows s"
  "cx_coins (modify_account a f s) = cx_coins s" "cx_notes (modify_account a f s) = cx_notes s"
  "cx_note_objs (modify_account a f s) = cx_note_objs s" "cx_outage (modify_account a f s) = cx_outage s"
  "cx_watchonly (modify_account a f s) = cx_watchonly s" "cx_tx_map (modify_account a f s) = cx_tx_map s"
  by (simp_all add: modify_account_def)

lemma nth_modify_tx:
  "u < length (cx_txs s) \<Longrightarrow>
    cx_txs (modify_tx t f s) ! u = (if u = t then f (cx_txs s ! t) else cx_txs s ! u)"
  by (simp add: modify_tx_def nth_list_update)

lemma modify_tx_frame [simp]:
  "length (cx_txs (modify_tx t f s)) = length (cx_txs s)" "cx_accounts (modify_tx t f s) = cx_accounts s"
  "cx_tx_rows (modify_tx t f s) = cx_tx_rows s" "cx_coins (modify_tx t f s) = cx_coins s"
  by (simp_all add: modify_tx_def)

text \<open>
  Every account knows its own transactions by their hashes; every row is of such a transaction, and
  no transaction has two.
\<close>

definition tx_registry :: "store \<Rightarrow> bool" where
  "tx_registry s \<longleftrightarrow>
     (\<forall>a < length (cx_accounts s).
        qm_ok (ac_txs (cx_accounts s ! a)) \<and> distinct (ac_dangling (cx_accounts s ! a)) \<and>
        (\<forall>h t. map_of (ac_txs (cx_accounts s ! a)) h = Some t \<longrightarrow>
           t < length (cx_txs s) \<and> at_account (cx_txs s ! t) = a \<and> at_id (cx_txs s ! t) = h)) \<and>
     distinct (map fst (cx_tx_rows s)) \<and>
     (\<forall>t \<in> fst ` set (cx_tx_rows s). t < length (cx_txs s) \<and>
        at_account (cx_txs s ! t) < length (cx_accounts s) \<and>
        map_of (ac_txs (cx_accounts s ! at_account (cx_txs s ! t))) (at_id (cx_txs s ! t)) = Some t)"

text \<open>What the list of transactions shows for an account: its hashes with their data.\<close>

definition rows_data :: "(string, nat) qmap \<Rightarrow> nat set \<Rightarrow> account_tx list \<Rightarrow> string \<rightharpoonup> jobject" where
  "rows_data m ts txs h = (case map_of m h of
     None \<Rightarrow> None | Some t \<Rightarrow> if t \<in> ts then Some (at_data (txs ! t)) else None)"

definition listing :: "nat \<Rightarrow> store \<Rightarrow> string \<rightharpoonup> jobject" where
  "listing a s = rows_data (ac_txs (cx_accounts s ! a)) (fst ` set (cx_tx_rows s)) (cx_txs s)"

definition tx_view :: "nat \<Rightarrow> store \<Rightarrow> (string, nat) qmap \<times> string list \<times> (string \<rightharpoonup> jobject)" where
  "tx_view a s = (ac_txs (cx_accounts s ! a), ac_dangling (cx_accounts s ! a), listing a s)"

lemma account_kept:
  assumes "\<And>x. ac_network (f x) = ac_network x" "\<And>x. ac_pointer (f x) = ac_pointer x"
    "\<And>x. ac_txs (f x) = ac_txs x" "\<And>x. ac_dangling (f x) = ac_dangling x"
  shows "ac_network (cx_accounts (modify_account a f s) ! b) = ac_network (cx_accounts s ! b)"
    "ac_txs (cx_accounts (modify_account a f s) ! b) = ac_txs (cx_accounts s ! b)"
    "ac_dangling (cx_accounts (modify_account a f s) ! b) = ac_dangling (cx_accounts s ! b)"
proof -
  have "cx_accounts (modify_account a f s) ! b =
      (if b = a \<and> a < length (cx_accounts s) then f (cx_accounts s ! a) else cx_accounts s ! b)"
    by (cases "a < length (cx_accounts s)"; cases "b = a") (simp_all add: modify_account_def not_less list_update_beyond)
  then show "ac_network (cx_accounts (modify_account a f s) ! b) = ac_network (cx_accounts s ! b)"
    "ac_txs (cx_accounts (modify_account a f s) ! b) = ac_txs (cx_accounts s ! b)"
    "ac_dangling (cx_accounts (modify_account a f s) ! b) = ac_dangling (cx_accounts s ! b)"
    using assms by auto
qed

interpretation registry: tx_invariant tx_registry
  by unfold_locales (simp_all add: tx_registry_def account_kept)

interpretation view: tx_invariant "\<lambda>s. tx_view a s = v" for a v
  by unfold_locales (simp_all add: tx_view_def listing_def account_kept)

text \<open>The number of accounts only grows, and nothing here changes it.\<close>

interpretation accounts: tx_invariant "\<lambda>s. length (cx_accounts s) = n" for n
  by unfold_locales simp_all

interpretation has_account: tx_invariant "\<lambda>s. a < length (cx_accounts s)" for a
  by unfold_locales simp_all

interpretation txs: tx_invariant "\<lambda>s. cx_txs s = x" for x
  by unfold_locales simp_all

interpretation tx_rows: tx_invariant "\<lambda>s. cx_tx_rows s = x" for x
  by unfold_locales simp_all

lemma spend_inputs_frame [simp]:
  "cx_txs (fst (spend_inputs a t vs s)) = cx_txs s"
  "cx_tx_rows (fst (spend_inputs a t vs s)) = cx_tx_rows s"
  "length (cx_accounts (fst (spend_inputs a t vs s))) = length (cx_accounts s)"
  "tx_view b (fst (spend_inputs a t vs s)) = tx_view b s"
  by simp_all

lemma fetch_page_frame [simp]:
  "cx_txs (fst (fetch_page a p s)) = cx_txs s"
  "cx_tx_rows (fst (fetch_page a p s)) = cx_tx_rows s"
  "length (cx_accounts (fst (fetch_page a p s))) = length (cx_accounts s)"
  "tx_view b (fst (fetch_page a p s)) = tx_view b s"
  by simp_all

lemma tx_viewD:
  "tx_view b s' = tx_view b s \<Longrightarrow> ac_txs (cx_accounts s' ! b) = ac_txs (cx_accounts s ! b)"
  "tx_view b s' = tx_view b s \<Longrightarrow> ac_dangling (cx_accounts s' ! b) = ac_dangling (cx_accounts s ! b)"
  "tx_view b s' = tx_view b s \<Longrightarrow> listing b s' = listing b s"
  by (simp_all add: tx_view_def)

section \<open>Looking up and adding transactions\<close>

lemma registryD:
  assumes "tx_registry s" and "a < length (cx_accounts s)"
  shows "qm_ok (ac_txs (cx_accounts s ! a))" "distinct (ac_dangling (cx_accounts s ! a))"
    "map_of (ac_txs (cx_accounts s ! a)) h = Some t \<Longrightarrow>
      t < length (cx_txs s) \<and> at_account (cx_txs s ! t) = a \<and> at_id (cx_txs s ! t) = h"
  using assms by (auto simp: tx_registry_def)

lemma registry_inject:
  assumes "tx_registry s" and "a < length (cx_accounts s)"
    and "map_of (ac_txs (cx_accounts s ! a)) h = Some t" and "map_of (ac_txs (cx_accounts s ! a)) k = Some u"
  shows "u = t \<longleftrightarrow> k = h"
proof
  show "k = h" if "u = t"
    using that registryD(3) [OF assms(1-3)] registryD(3) [OF assms(1,2,4)] by simp
  show "u = t" if "k = h" using that assms(3,4) by simp
qed

lemma registry_rowD:
  assumes "tx_registry s" and "t \<in> fst ` set (cx_tx_rows s)"
  shows "t < length (cx_txs s)" "at_account (cx_txs s ! t) < length (cx_accounts s)"
    "map_of (ac_txs (cx_accounts s ! at_account (cx_txs s ! t))) (at_id (cx_txs s ! t)) = Some t"
  using assms by (auto simp: tx_registry_def)

lemma tx_registryI:
  assumes "\<And>a. a < length (cx_accounts s) \<Longrightarrow> qm_ok (ac_txs (cx_accounts s ! a))"
    and "\<And>a. a < length (cx_accounts s) \<Longrightarrow> distinct (ac_dangling (cx_accounts s ! a))"
    and "\<And>a h t. \<lbrakk>a < length (cx_accounts s); map_of (ac_txs (cx_accounts s ! a)) h = Some t\<rbrakk> \<Longrightarrow>
      t < length (cx_txs s) \<and> at_account (cx_txs s ! t) = a \<and> at_id (cx_txs s ! t) = h"
    and "distinct (map fst (cx_tx_rows s))"
    and "\<And>t. t \<in> fst ` set (cx_tx_rows s) \<Longrightarrow>
      t < length (cx_txs s) \<and> at_account (cx_txs s ! t) < length (cx_accounts s) \<and>
      map_of (ac_txs (cx_accounts s ! at_account (cx_txs s ! t))) (at_id (cx_txs s ! t)) = Some t"
  shows "tx_registry s"
  unfolding tx_registry_def using assms by blast

lemma registry_rows: "tx_registry s \<Longrightarrow> distinct (map fst (cx_tx_rows s))"
  by (simp add: tx_registry_def)

lemma rows_data_cong:
  "(\<And>h t. map_of m h = Some t \<Longrightarrow> (t \<in> ts \<longleftrightarrow> t \<in> ts') \<and> (t \<in> ts \<longrightarrow> at_data (txs ! t) = at_data (txs' ! t)))
    \<Longrightarrow> rows_data m ts txs = rows_data m ts' txs'"
  by (rule ext) (auto simp: rows_data_def split: option.split)

lemma account_tx_for:
  assumes reg: "tx_registry s" and a: "a < length (cx_accounts s)" and step: "account_tx_for a h s = (t, s1)"
  shows "tx_registry s1" and "length (cx_accounts s1) = length (cx_accounts s)"
    and "map_of (ac_txs (cx_accounts s1 ! a)) h = Some t" and "t < length (cx_txs s1)"
    and "dom (map_of (ac_txs (cx_accounts s1 ! a))) = insert h (dom (map_of (ac_txs (cx_accounts s ! a))))"
    and "ac_dangling (cx_accounts s1 ! a) = ac_dangling (cx_accounts s ! a)"
    and "listing a s1 = listing a s"
    and "\<And>b. b \<noteq> a \<Longrightarrow> b < length (cx_accounts s) \<Longrightarrow> tx_view b s1 = tx_view b s"
proof -
  let ?A = "cx_accounts s ! a"
  have "tx_registry s1 \<and> length (cx_accounts s1) = length (cx_accounts s) \<and>
    map_of (ac_txs (cx_accounts s1 ! a)) h = Some t \<and> t < length (cx_txs s1) \<and>
    dom (map_of (ac_txs (cx_accounts s1 ! a))) = insert h (dom (map_of (ac_txs ?A))) \<and>
    ac_dangling (cx_accounts s1 ! a) = ac_dangling ?A \<and> listing a s1 = listing a s \<and>
    (\<forall>b. b \<noteq> a \<longrightarrow> b < length (cx_accounts s) \<longrightarrow> tx_view b s1 = tx_view b s)"
  proof (cases "map_of (ac_txs ?A) h")
    case (Some u)
    with step have "t = u" "s1 = s" by (simp_all add: account_tx_for_def)
    with Some registryD(3) [OF reg a Some] reg show ?thesis by (auto simp: insert_absorb)
  next
    case None
    let ?s = "get_or_create_chain_transaction h s"
    have same: "cx_accounts ?s = cx_accounts s" "cx_txs ?s = cx_txs s" "cx_tx_rows ?s = cx_tx_rows s"
      by (simp_all add: get_or_create_chain_transaction_def)
    from None step have t: "t = length (cx_txs s)" and s1: "s1 = modify_account a
        (\<lambda>x. x\<lparr>ac_txs := qm_insert h t (ac_txs x)\<rparr>) (?s\<lparr>cx_txs := cx_txs ?s @ [new_account_tx h a]\<rparr>)"
      by (auto simp: account_tx_for_def Let_def same)
    have acc: "cx_accounts s1 ! b = (if b = a then ?A\<lparr>ac_txs := qm_insert h t (ac_txs ?A)\<rparr> else cx_accounts s ! b)"
      if "b < length (cx_accounts s)" for b
      using that by (simp add: s1 nth_modify_account same)
    have len: "length (cx_accounts s1) = length (cx_accounts s)" by (simp add: s1 same)
    have txs: "cx_txs s1 = cx_txs s @ [new_account_tx h a]" "cx_tx_rows s1 = cx_tx_rows s"
      by (simp_all add: s1 same)
    have old: "cx_txs s1 ! u = cx_txs s ! u" if "u < t" for u
      using that by (simp add: txs t nth_append)
    have new: "cx_txs s1 ! t = new_account_tx h a" by (simp add: txs t)
    have data: "rows_data (ac_txs (cx_accounts s ! b)) (fst ` set (cx_tx_rows s)) (cx_txs s1) =
        rows_data (ac_txs (cx_accounts s ! b)) (fst ` set (cx_tx_rows s)) (cx_txs s)"
      if "b < length (cx_accounts s)" for b
      by (rule rows_data_cong) (use registryD(3) [OF reg that] old t in auto)
    have "listing a s1 = rows_data (ac_txs ?A) (fst ` set (cx_tx_rows s)) (cx_txs s1)"
    proof
      fix k
      have "t \<notin> fst ` set (cx_tx_rows s)" using registry_rowD(1) [OF reg, of t] t by auto
      then show "listing a s1 k = rows_data (ac_txs ?A) (fst ` set (cx_tx_rows s)) (cx_txs s1) k"
        using None by (simp add: listing_def rows_data_def acc a txs(2) qm_find_insert)
    qed
    then have "listing a s1 = listing a s" by (simp add: data a listing_def)
    moreover have "tx_view b s1 = tx_view b s" if "b \<noteq> a" "b < length (cx_accounts s)" for b
      using that by (simp add: tx_view_def listing_def acc txs(2) data)
    moreover have "tx_registry s1"
    proof (rule tx_registryI, unfold len txs(2))
      fix b assume b: "b < length (cx_accounts s)"
      show "qm_ok (ac_txs (cx_accounts s1 ! b))" "distinct (ac_dangling (cx_accounts s1 ! b))"
        using registryD(1,2) [OF reg b] by (auto simp: acc b qm_ok_insert)
      fix k u assume u: "map_of (ac_txs (cx_accounts s1 ! b)) k = Some u"
      show "u < length (cx_txs s1) \<and> at_account (cx_txs s1 ! u) = b \<and> at_id (cx_txs s1 ! u) = k"
      proof (cases "b = a \<and> k = h")
        case True
        with u b have "u = t" by (simp add: acc qm_find_insert)
        with True show ?thesis using new by (simp add: new_account_tx_def txs(1) t)
      next
        case False
        with u b have "map_of (ac_txs (cx_accounts s ! b)) k = Some u"
          by (auto simp: acc qm_find_insert split: if_splits)
        from registryD(3) [OF reg b this] have "u < t \<and> at_account (cx_txs s ! u) = b \<and> at_id (cx_txs s ! u) = k"
          using t by simp
        then show ?thesis using old [of u] by (simp add: txs(1) t)
      qed
    next
      show "distinct (map fst (cx_tx_rows s))" using reg by (rule registry_rows)
    next
      fix u assume "u \<in> fst ` set (cx_tx_rows s)"
      note row = registry_rowD [OF reg this]
      then have "u \<noteq> t" using t by simp
      with row None show "u < length (cx_txs s1) \<and> at_account (cx_txs s1 ! u) < length (cx_accounts s) \<and>
          map_of (ac_txs (cx_accounts s1 ! at_account (cx_txs s1 ! u))) (at_id (cx_txs s1 ! u)) = Some u"
        using old [of u] acc [of "at_account (cx_txs s ! u)"] t by (auto simp: qm_find_insert txs(1))
    qed
    moreover have "dom (map_of (ac_txs (cx_accounts s1 ! a))) = insert h (dom (map_of (ac_txs ?A)))"
      by (auto simp: acc a qm_find_insert dom_def)
    ultimately show ?thesis using a by (simp add: len acc qm_find_insert txs t)
  qed
  then show "tx_registry s1" "length (cx_accounts s1) = length (cx_accounts s)"
    "map_of (ac_txs (cx_accounts s1 ! a)) h = Some t" "t < length (cx_txs s1)"
    "dom (map_of (ac_txs (cx_accounts s1 ! a))) = insert h (dom (map_of (ac_txs ?A)))"
    "ac_dangling (cx_accounts s1 ! a) = ac_dangling ?A" "listing a s1 = listing a s"
    "\<And>b. b \<noteq> a \<Longrightarrow> b < length (cx_accounts s) \<Longrightarrow> tx_view b s1 = tx_view b s" by auto
qed

lemma registry_modify_tx:
  assumes reg: "tx_registry s" and t: "t < length (cx_txs s)"
    and f: "\<And>x. at_id (f x) = at_id x" "\<And>x. at_account (f x) = at_account x"
  shows "tx_registry (modify_tx t f s)"
proof -
  have same: "at_id (cx_txs (modify_tx t f s) ! u) = at_id (cx_txs s ! u)"
    "at_account (cx_txs (modify_tx t f s) ! u) = at_account (cx_txs s ! u)" if "u < length (cx_txs s)" for u
    using that f by (simp_all add: nth_modify_tx)
  show ?thesis
  proof (rule tx_registryI, unfold modify_tx_frame)
    fix b k u assume "b < length (cx_accounts s)" "map_of (ac_txs (cx_accounts s ! b)) k = Some u"
    from registryD(3) [OF reg this] show "u < length (cx_txs s) \<and>
        at_account (cx_txs (modify_tx t f s) ! u) = b \<and> at_id (cx_txs (modify_tx t f s) ! u) = k"
      by (simp add: same)
  next
    fix u assume "u \<in> fst ` set (cx_tx_rows s)"
    note row = registry_rowD [OF reg this]
    then show "u < length (cx_txs s) \<and> at_account (cx_txs (modify_tx t f s) ! u) < length (cx_accounts s) \<and>
        map_of (ac_txs (cx_accounts s ! at_account (cx_txs (modify_tx t f s) ! u)))
          (at_id (cx_txs (modify_tx t f s) ! u)) = Some u"
      by (simp add: same)
  qed (use registryD(1,2) [OF reg] registry_rows [OF reg] in auto)
qed

lemma tx_update_from_data:
  assumes reg: "tx_registry s" and t: "t < length (cx_txs s)" and s': "tx_update_from_data t d s = (s', out)"
  shows "tx_registry s'" and "length (cx_accounts s') = length (cx_accounts s)"
    and "length (cx_txs s') = length (cx_txs s)" and "cx_tx_rows s' = cx_tx_rows s"
    and "at_data (cx_txs s' ! t) = d" and "at_id (cx_txs s' ! t) = at_id (cx_txs s ! t)"
    and "at_account (cx_txs s' ! t) = at_account (cx_txs s ! t)"
    and "\<And>u. u \<noteq> t \<Longrightarrow> cx_txs s' ! u = cx_txs s ! u"
    and "\<And>b. ac_txs (cx_accounts s' ! b) = ac_txs (cx_accounts s ! b)"
    and "\<And>b. ac_dangling (cx_accounts s' ! b) = ac_dangling (cx_accounts s ! b)"
proof -
  let ?f = "\<lambda>x. x\<lparr>at_data := d, at_type := parse_tx_type (to_string (jvalue d ''type'')),
    at_memo := to_string (jvalue d ''memo'')\<rparr>"
  let ?m = "modify_tx t ?f s"
  let ?s = "fst (spend_inputs (at_account (cx_txs s ! t)) t (to_array (jvalue d ''inputs'')) ?m)"
  have "s' = s \<and> at_data (cx_txs s ! t) = d \<or> s' = ?s"
    using s' by (auto simp: tx_update_from_data_def split: if_splits prod.splits)
  then show "tx_registry s'" "length (cx_accounts s') = length (cx_accounts s)"
    "length (cx_txs s') = length (cx_txs s)" "cx_tx_rows s' = cx_tx_rows s"
    "at_data (cx_txs s' ! t) = d" "at_id (cx_txs s' ! t) = at_id (cx_txs s ! t)"
    "at_account (cx_txs s' ! t) = at_account (cx_txs s ! t)"
    using reg t registry_modify_tx [OF reg t, of ?f] by (auto simp: nth_modify_tx)
  show "cx_txs s' ! u = cx_txs s ! u" if "u \<noteq> t" for u
    using \<open>s' = s \<and> _ \<or> s' = ?s\<close> that by (auto simp: modify_tx_def)
  have "tx_view b ?s = tx_view b ?m" for b by simp
  from this [THEN tx_viewD(1)] this [THEN tx_viewD(2)]
  show "ac_txs (cx_accounts s' ! b) = ac_txs (cx_accounts s ! b)"
    "ac_dangling (cx_accounts s' ! b) = ac_dangling (cx_accounts s ! b)" for b
    using \<open>s' = s \<and> _ \<or> s' = ?s\<close> by auto
qed

lemma map_fst_set_row:
  "map fst (set_row i k rows) = (if i \<in> fst ` set rows then map fst rows else map fst rows @ [i])"
  by (auto simp: set_row_def)

lemma set_row_keys [simp]: "fst ` set (set_row i k rows) = insert i (fst ` set rows)"
proof -
  have "set (map fst (set_row i k rows)) = insert i (set (map fst rows))"
    unfolding map_fst_set_row by auto
  then show ?thesis by simp
qed

lemma set_row_distinct: "distinct (map fst rows) \<Longrightarrow> distinct (map fst (set_row i k rows))"
  unfolding map_fst_set_row by auto

lemma add_transaction_frame [simp]:
  "cx_accounts (add_transaction now t s) = cx_accounts s" "cx_txs (add_transaction now t s) = cx_txs s"
  "cx_tx_rows (add_transaction now t s) = set_row t (tx_timestamp now (cx_txs s ! t)) (cx_tx_rows s)"
  by (simp_all add: add_transaction_def Let_def)

lemma registry_add_transaction:
  assumes reg: "tx_registry s" and a: "a < length (cx_accounts s)"
    and t: "map_of (ac_txs (cx_accounts s ! a)) h = Some t"
  shows "tx_registry (add_transaction now t s)"
proof (rule tx_registryI, unfold add_transaction_frame)
  fix u assume "u \<in> fst ` set (set_row t (tx_timestamp now (cx_txs s ! t)) (cx_tx_rows s))"
  then consider "u = t" | "u \<in> fst ` set (cx_tx_rows s)" by auto
  then show "u < length (cx_txs s) \<and> at_account (cx_txs s ! u) < length (cx_accounts s) \<and>
      map_of (ac_txs (cx_accounts s ! at_account (cx_txs s ! u))) (at_id (cx_txs s ! u)) = Some u"
    by cases (use registryD(3) [OF reg a t] a t registry_rowD [OF reg] in auto)
qed (use registryD [OF reg] registry_rows [OF reg] in \<open>auto intro: set_row_distinct\<close>)

lemma listing_put:
  assumes reg: "tx_registry s" and a: "a < length (cx_accounts s)"
    and t: "map_of (ac_txs (cx_accounts s ! a)) h = Some t"
    and s': "ac_txs (cx_accounts s' ! a) = ac_txs (cx_accounts s ! a)"
      "fst ` set (cx_tx_rows s') = insert t (fst ` set (cx_tx_rows s))" "at_data (cx_txs s' ! t) = d"
      "\<And>u. u \<noteq> t \<Longrightarrow> cx_txs s' ! u = cx_txs s ! u"
  shows "listing a s' = (listing a s)(h \<mapsto> d)"
proof
  fix k
  show "listing a s' k = ((listing a s)(h \<mapsto> d)) k"
  proof (cases "map_of (ac_txs (cx_accounts s ! a)) k")
    case None
    with t have "k \<noteq> h" by auto
    with None show ?thesis by (simp add: listing_def rows_data_def s'(1))
  next
    case (Some u)
    show ?thesis
    proof (cases "k = h")
      case True
      with Some t have "u = t" by simp
      with True t show ?thesis by (simp add: listing_def rows_data_def s'(1-3))
    next
      case False
      then have "u \<noteq> t" using registryD(3) [OF reg a Some] registryD(3) [OF reg a t] by metis
      with False Some show ?thesis by (simp add: listing_def rows_data_def s'(1,2) s'(4) [OF \<open>u \<noteq> t\<close>])
    qed
  qed
qed

text \<open>Adding a transaction of one account shows it there and leaves the other accounts alone.\<close>

definition known :: "nat \<Rightarrow> store \<Rightarrow> string set" where
  "known a s = dom (map_of (ac_txs (cx_accounts s ! a)))"

definition dangling :: "nat \<Rightarrow> store \<Rightarrow> string set" where
  "dangling a s = set (ac_dangling (cx_accounts s ! a))"

definition tx_hash :: "json \<Rightarrow> string" where
  "tx_hash v = to_string (jvalue (to_object v) ''txhash'')"

lemma other_view:
  assumes "tx_registry s" and "b < length (cx_accounts s)" and "at_account (cx_txs s ! t) \<noteq> b"
    and "ac_txs (cx_accounts s' ! b) = ac_txs (cx_accounts s ! b)"
    and "ac_dangling (cx_accounts s' ! b) = ac_dangling (cx_accounts s ! b)"
    and "\<And>u. u \<noteq> t \<Longrightarrow> u \<in> fst ` set (cx_tx_rows s') \<longleftrightarrow> u \<in> fst ` set (cx_tx_rows s)"
    and "\<And>u. u \<noteq> t \<Longrightarrow> cx_txs s' ! u = cx_txs s ! u"
  shows "tx_view b s' = tx_view b s"
proof -
  have "rows_data (ac_txs (cx_accounts s ! b)) (fst ` set (cx_tx_rows s')) (cx_txs s') =
      rows_data (ac_txs (cx_accounts s ! b)) (fst ` set (cx_tx_rows s)) (cx_txs s)"
  proof (rule rows_data_cong)
    fix h u assume "map_of (ac_txs (cx_accounts s ! b)) h = Some u"
    then have "u \<noteq> t" using registryD(3) [OF assms(1,2)] assms(3) by auto
    then show "(u \<in> fst ` set (cx_tx_rows s') \<longleftrightarrow> u \<in> fst ` set (cx_tx_rows s)) \<and>
        (u \<in> fst ` set (cx_tx_rows s') \<longrightarrow> at_data (cx_txs s' ! u) = at_data (cx_txs s ! u))"
      using assms(6,7) by simp
  qed
  with assms(4,5) show ?thesis by (simp add: tx_view_def listing_def)
qed

lemma get_or_create_transaction:
  assumes reg: "tx_registry s" and a: "a < length (cx_accounts s)"
    and step: "get_or_create_transaction now a d s = (t, s', out)"
    and h: "h = to_string (jvalue d ''txhash'')"
  shows "tx_registry s'" and "length (cx_accounts s') = length (cx_accounts s)"
    and "at_id (cx_txs s' ! t) = h" and "listing a s' = (listing a s)(h \<mapsto> d)"
    and "known a s' = insert h (known a s)" and "dangling a s' = dangling a s"
    and "\<And>b. \<lbrakk>b \<noteq> a; b < length (cx_accounts s)\<rbrakk> \<Longrightarrow> tx_view b s' = tx_view b s"
proof -
  from step obtain s1 s2 where one: "account_tx_for a h s = (t, s1)"
    and two: "tx_update_from_data t d s1 = (s2, out)" and three: "s' = add_transaction now t s2"
    by (auto simp: get_or_create_transaction_def h Let_def split: prod.splits)
  note one = account_tx_for [OF reg a one]
  note two = tx_update_from_data [OF one(1,4) two]
  have a1: "a < length (cx_accounts s1)" using a one(2) by simp
  have mine: "at_account (cx_txs s1 ! t) = a" "at_id (cx_txs s1 ! t) = h"
    using registryD(3) [OF one(1) a1 one(3)] by simp_all
  have t2: "map_of (ac_txs (cx_accounts s2 ! a)) h = Some t" and a2: "a < length (cx_accounts s2)"
    using one(3) two(2,9) a1 by simp_all
  show "tx_registry s'" unfolding three by (rule registry_add_transaction [OF two(1) a2 t2])
  show "length (cx_accounts s') = length (cx_accounts s)" by (simp add: three two(2) one(2))
  show "at_id (cx_txs s' ! t) = h" by (simp add: three two(6) mine)
  have "listing a s' = (listing a s1)(h \<mapsto> d)"
    by (rule listing_put [OF one(1) a1 one(3)]) (simp_all add: three two(4,5,8,9))
  then show "listing a s' = (listing a s)(h \<mapsto> d)" by (simp add: one(7))
  show "known a s' = insert h (known a s)" "dangling a s' = dangling a s"
    by (simp_all add: known_def dangling_def three two(9,10) one(5,6))
  show "tx_view b s' = tx_view b s" if "b \<noteq> a" "b < length (cx_accounts s)" for b
  proof -
    have "tx_view b s' = tx_view b s1"
      by (rule other_view [OF one(1), of _ t])
        (use that mine in \<open>auto simp: three two(4,8,9,10) one(2)\<close>)
    then show ?thesis using one(8) that by simp
  qed
qed

section \<open>Fetching\<close>

lemma touch_transaction:
  assumes reg: "tx_registry s" and a: "a < length (cx_accounts s)"
  shows "tx_registry (touch_transaction a h s)"
    "length (cx_accounts (touch_transaction a h s)) = length (cx_accounts s)"
    "listing b (touch_transaction a h s) = listing b s" "known b (touch_transaction a h s) = known b s"
    "dangling a (touch_transaction a h s) = dangling a s - {h}"
    "b \<noteq> a \<Longrightarrow> tx_view b (touch_transaction a h s) = tx_view b s"
proof -
  let ?s = "touch_transaction a h s"
  have acc: "cx_accounts ?s ! b = (if b = a then (cx_accounts s ! a)\<lparr>ac_dangling :=
      remove1 h (ac_dangling (cx_accounts s ! a))\<rparr> else cx_accounts s ! b)" for b
    using a by (auto simp: touch_transaction_def modify_account_def nth_list_update)
  then have txs: "ac_txs (cx_accounts ?s ! b) = ac_txs (cx_accounts s ! b)" for b by simp
  have same: "length (cx_accounts ?s) = length (cx_accounts s)" "cx_txs ?s = cx_txs s"
    "cx_tx_rows ?s = cx_tx_rows s" by (simp_all add: touch_transaction_def)
  then show "length (cx_accounts ?s) = length (cx_accounts s)" "listing b ?s = listing b s"
    "known b ?s = known b s" by (simp_all add: listing_def known_def txs)
  show "tx_registry ?s"
    using reg a unfolding tx_registry_def same txs by (simp add: acc)
  show "dangling a ?s = dangling a s - {h}"
    using registryD(2) [OF reg a] by (simp add: dangling_def acc)
  show "b \<noteq> a \<Longrightarrow> tx_view b ?s = tx_view b s"
    by (simp add: tx_view_def listing_def same txs) (simp add: acc)
qed

text \<open>A page shows its transactions and takes them off the list of those that are missing.\<close>

definition page_data :: "json list \<Rightarrow> string \<rightharpoonup> jobject" where
  "page_data txs = map_of (rev (map (\<lambda>v. (tx_hash v, to_object v)) txs))"

lemma page_data_Cons: "page_data (v # vs) = [tx_hash v \<mapsto> to_object v] ++ page_data vs"
  by (simp add: page_data_def)

lemma page_data_append: "page_data (us @ vs) = page_data us ++ page_data vs"
  by (simp add: page_data_def)

lemma page_data_Nil [simp]: "page_data [] = Map.empty"
  by (simp add: page_data_def)

lemma dom_page_data: "dom (page_data txs) = tx_hash ` set txs"
  by (auto simp: page_data_def dom_map_of_conv_image_fst image_image)

lemma touch_page:
  assumes "tx_registry s" and "a < length (cx_accounts s)"
  shows "tx_registry (fst (touch_page now a txs s))"
    and "length (cx_accounts (fst (touch_page now a txs s))) = length (cx_accounts s)"
    and "listing a (fst (touch_page now a txs s)) = listing a s ++ page_data txs"
    and "known a (fst (touch_page now a txs s)) = known a s \<union> tx_hash ` set txs"
    and "dangling a (fst (touch_page now a txs s)) = dangling a s - tx_hash ` set txs"
    and "\<And>b. \<lbrakk>b \<noteq> a; b < length (cx_accounts s)\<rbrakk> \<Longrightarrow>
      tx_view b (fst (touch_page now a txs s)) = tx_view b s"
proof -
  have "tx_registry (fst (touch_page now a txs s)) \<and>
    length (cx_accounts (fst (touch_page now a txs s))) = length (cx_accounts s) \<and>
    listing a (fst (touch_page now a txs s)) = listing a s ++ page_data txs \<and>
    known a (fst (touch_page now a txs s)) = known a s \<union> tx_hash ` set txs \<and>
    dangling a (fst (touch_page now a txs s)) = dangling a s - tx_hash ` set txs \<and>
    (\<forall>b. b \<noteq> a \<longrightarrow> b < length (cx_accounts s) \<longrightarrow> tx_view b (fst (touch_page now a txs s)) = tx_view b s)"
    using assms
  proof (induction txs arbitrary: s)
    case (Cons v vs)
    obtain t s1 out where one: "get_or_create_transaction now a (to_object v) s = (t, s1, out)"
      by (cases "get_or_create_transaction now a (to_object v) s") auto
    note one_facts = get_or_create_transaction [OF Cons.prems one refl, folded tx_hash_def]
    let ?s = "touch_transaction a (tx_hash v) s1"
    have a1: "a < length (cx_accounts s1)" using Cons.prems one_facts(2) by simp
    note two = touch_transaction [OF one_facts(1) a1, where h = "tx_hash v"]
    have run: "fst (touch_page now a (v # vs) s) = fst (touch_page now a vs ?s)"
      using one one_facts(3) by (simp add: case_prod_beta)
    have IH: "tx_registry (fst (touch_page now a vs ?s)) \<and>
      length (cx_accounts (fst (touch_page now a vs ?s))) = length (cx_accounts ?s) \<and>
      listing a (fst (touch_page now a vs ?s)) = listing a ?s ++ page_data vs \<and>
      known a (fst (touch_page now a vs ?s)) = known a ?s \<union> tx_hash ` set vs \<and>
      dangling a (fst (touch_page now a vs ?s)) = dangling a ?s - tx_hash ` set vs \<and>
      (\<forall>b. b \<noteq> a \<longrightarrow> b < length (cx_accounts ?s) \<longrightarrow>
        tx_view b (fst (touch_page now a vs ?s)) = tx_view b ?s)"
      by (rule Cons.IH) (use two a1 in auto)
    show ?case unfolding run
      using IH one_facts two by (auto simp: page_data_Cons)
  qed simp
  then show "tx_registry (fst (touch_page now a txs s))"
    "length (cx_accounts (fst (touch_page now a txs s))) = length (cx_accounts s)"
    "listing a (fst (touch_page now a txs s)) = listing a s ++ page_data txs"
    "known a (fst (touch_page now a txs s)) = known a s \<union> tx_hash ` set txs"
    "dangling a (fst (touch_page now a txs s)) = dangling a s - tx_hash ` set txs"
    "\<And>b. \<lbrakk>b \<noteq> a; b < length (cx_accounts s)\<rbrakk> \<Longrightarrow>
      tx_view b (fst (touch_page now a txs s)) = tx_view b s" by auto
qed

lemma remove_transaction_frame [simp]:
  "cx_accounts (remove_transaction t s) = cx_accounts s" "cx_txs (remove_transaction t s) = cx_txs s"
  "fst ` set (cx_tx_rows (remove_transaction t s)) = fst ` set (cx_tx_rows s) - {t}"
  by (auto simp: remove_transaction_def image_iff)

lemma registry_remove_transaction: "tx_registry s \<Longrightarrow> tx_registry (remove_transaction t s)"
  by (rule tx_registryI)
    (auto dest: registryD registry_rowD simp: registry_rows remove_transaction_def distinct_map_filter)

lemma remove_one:
  assumes reg: "tx_registry s" and a: "a < length (cx_accounts s)"
    and t: "map_of (ac_txs (cx_accounts s ! a)) h = Some t"
  shows "listing a (remove_transaction t s) = (listing a s) |` (- {h})"
    and "\<lbrakk>b \<noteq> a; b < length (cx_accounts s)\<rbrakk> \<Longrightarrow> tx_view b (remove_transaction t s) = tx_view b s"
proof -
  show "listing a (remove_transaction t s) = (listing a s) |` (- {h})"
  proof
    fix k
    show "listing a (remove_transaction t s) k = ((listing a s) |` (- {h})) k"
    proof (cases "map_of (ac_txs (cx_accounts s ! a)) k")
      case None
      then show ?thesis by (simp add: listing_def rows_data_def restrict_map_def)
    next
      case (Some u)
      have "u = t \<longleftrightarrow> k = h"
        by (rule registry_inject [OF reg a t Some])
      with Some show ?thesis by (simp add: listing_def rows_data_def restrict_map_def)
    qed
  qed
  show "tx_view b (remove_transaction t s) = tx_view b s" if "b \<noteq> a" "b < length (cx_accounts s)"
    by (rule other_view [OF reg that(2), of t]) (use that registryD(3) [OF reg a t] in auto)
qed

lemma remove_transactions:
  assumes "tx_registry s" and "a < length (cx_accounts s)"
  shows "tx_registry (remove_transactions a hs s)"
    and "cx_accounts (remove_transactions a hs s) = cx_accounts s"
    and "listing a (remove_transactions a hs s) = (listing a s) |` (- set hs)"
    and "\<And>b. \<lbrakk>b \<noteq> a; b < length (cx_accounts s)\<rbrakk> \<Longrightarrow> tx_view b (remove_transactions a hs s) = tx_view b s"
proof -
  have "tx_registry (remove_transactions a hs s) \<and> cx_accounts (remove_transactions a hs s) = cx_accounts s \<and>
    listing a (remove_transactions a hs s) = (listing a s) |` (- set hs) \<and>
    (\<forall>b. b \<noteq> a \<longrightarrow> b < length (cx_accounts s) \<longrightarrow> tx_view b (remove_transactions a hs s) = tx_view b s)"
    using assms
  proof (induction hs arbitrary: s)
    case (Cons h hs)
    show ?case
    proof (cases "map_of (ac_txs (cx_accounts s ! a)) h")
      case None
      then have "listing a s h = None" by (simp add: listing_def rows_data_def)
      then have "(listing a s) |` (- set hs) = (listing a s) |` (- set (h # hs))"
        by (auto simp: restrict_map_def fun_eq_iff)
      with Cons.IH [OF Cons.prems] None show ?thesis by simp
    next
      case (Some t)
      let ?s = "remove_transaction t s"
      have "(listing a s) |` (- {h}) |` (- set hs) = (listing a s) |` (- set (h # hs))"
        by (auto simp: restrict_map_def fun_eq_iff)
      moreover have "tx_registry (remove_transactions a hs ?s) \<and>
        cx_accounts (remove_transactions a hs ?s) = cx_accounts ?s \<and>
        listing a (remove_transactions a hs ?s) = (listing a ?s) |` (- set hs) \<and>
        (\<forall>b. b \<noteq> a \<longrightarrow> b < length (cx_accounts ?s) \<longrightarrow> tx_view b (remove_transactions a hs ?s) = tx_view b ?s)"
        by (rule Cons.IH) (use Cons.prems registry_remove_transaction in auto)
      ultimately show ?thesis using Some remove_one [OF Cons.prems Some] by auto
    qed
  qed (auto simp: restrict_map_def fun_eq_iff)
  then show "tx_registry (remove_transactions a hs s)"
    "cx_accounts (remove_transactions a hs s) = cx_accounts s"
    "listing a (remove_transactions a hs s) = (listing a s) |` (- set hs)"
    "\<And>b. \<lbrakk>b \<noteq> a; b < length (cx_accounts s)\<rbrakk> \<Longrightarrow> tx_view b (remove_transactions a hs s) = tx_view b s"
    by auto
qed

text \<open>The list of what is missing is set at the start of a fetch and emptied at its end.\<close>

lemma set_dangling:
  assumes s'_def: "s' = modify_account a (\<lambda>x. x\<lparr>ac_dangling := g x\<rparr>) s"
    and reg: "tx_registry s" and a: "a < length (cx_accounts s)" and g: "\<And>x. qm_ok (ac_txs x) \<Longrightarrow> distinct (g x)"
  shows "tx_registry s'" and "length (cx_accounts s') = length (cx_accounts s)" and "listing b s' = listing b s"
    and "known b s' = known b s" and "dangling a s' = set (g (cx_accounts s ! a))"
    and "b \<noteq> a \<Longrightarrow> tx_view b s' = tx_view b s"
proof -
  have acc: "cx_accounts s' ! b = (if b = a then (cx_accounts s ! a)\<lparr>ac_dangling := g (cx_accounts s ! a)\<rparr>
      else cx_accounts s ! b)" for b
    using a by (auto simp: s'_def modify_account_def nth_list_update)
  then have txs: "ac_txs (cx_accounts s' ! b) = ac_txs (cx_accounts s ! b)" for b by simp
  have same: "length (cx_accounts s') = length (cx_accounts s)" "cx_txs s' = cx_txs s"
    "cx_tx_rows s' = cx_tx_rows s" by (simp_all add: s'_def)
  then show "length (cx_accounts s') = length (cx_accounts s)" "listing b s' = listing b s"
    "known b s' = known b s" by (simp_all add: listing_def known_def txs)
  show "tx_registry s'" using reg a g unfolding tx_registry_def same txs by (simp add: acc)
  show "dangling a s' = set (g (cx_accounts s ! a))" by (simp add: dangling_def acc)
  show "b \<noteq> a \<Longrightarrow> tx_view b s' = tx_view b s"
    by (simp add: tx_view_def listing_def same txs) (simp add: acc)
qed

lemma begin_fetch:
  assumes reg: "tx_registry s" and a: "a < length (cx_accounts s)"
  shows "tx_registry (begin_fetch_transactions a s)"
    "length (cx_accounts (begin_fetch_transactions a s)) = length (cx_accounts s)"
    "listing b (begin_fetch_transactions a s) = listing b s"
    "known b (begin_fetch_transactions a s) = known b s"
    "dangling a (begin_fetch_transactions a s) = known a s"
    "b \<noteq> a \<Longrightarrow> tx_view b (begin_fetch_transactions a s) = tx_view b s"
  using set_dangling [OF refl reg a, of "\<lambda>x. map fst (ac_txs x)"]
  by (auto simp: begin_fetch_transactions_def qm_ok_distinct known_def dom_map_of_conv_image_fst)

lemma end_fetch:
  assumes reg: "tx_registry s" and a: "a < length (cx_accounts s)"
  shows "tx_registry (end_fetch_transactions a s)"
    "length (cx_accounts (end_fetch_transactions a s)) = length (cx_accounts s)"
    "listing a (end_fetch_transactions a s) = (listing a s) |` (- dangling a s)"
    "known b (end_fetch_transactions a s) = known b s" "dangling a (end_fetch_transactions a s) = {}"
    "\<lbrakk>b \<noteq> a; b < length (cx_accounts s)\<rbrakk> \<Longrightarrow> tx_view b (end_fetch_transactions a s) = tx_view b s"
proof -
  let ?hs = "ac_dangling (cx_accounts s ! a)"
  note gone = remove_transactions [OF reg a, where hs = ?hs]
  have a1: "a < length (cx_accounts (remove_transactions a ?hs s))" using a gone(2) by simp
  show "tx_registry (end_fetch_transactions a s)"
    "length (cx_accounts (end_fetch_transactions a s)) = length (cx_accounts s)"
    "listing a (end_fetch_transactions a s) = (listing a s) |` (- dangling a s)"
    "known b (end_fetch_transactions a s) = known b s" "dangling a (end_fetch_transactions a s) = {}"
    "\<lbrakk>b \<noteq> a; b < length (cx_accounts s)\<rbrakk> \<Longrightarrow> tx_view b (end_fetch_transactions a s) = tx_view b s"
    using set_dangling [OF refl gone(1) a1, of "\<lambda>x. []"] gone
    by (auto simp: end_fetch_transactions_def dangling_def known_def)
qed

lemma page_fetched:
  assumes reg: "tx_registry s" and a: "a < length (cx_accounts s)"
  shows "tx_registry (fst (page_fetched now a p txs s))"
    "length (cx_accounts (fst (page_fetched now a p txs s))) = length (cx_accounts s)"
    "known a (fst (page_fetched now a p txs s)) = known a s \<union> tx_hash ` set txs"
    "length txs = page_size \<Longrightarrow> listing a (fst (page_fetched now a p txs s)) = listing a s ++ page_data txs"
    "length txs = page_size \<Longrightarrow>
      dangling a (fst (page_fetched now a p txs s)) = dangling a s - tx_hash ` set txs"
    "length txs \<noteq> page_size \<Longrightarrow> listing a (fst (page_fetched now a p txs s)) =
      (listing a s ++ page_data txs) |` (- (dangling a s - tx_hash ` set txs))"
    "length txs \<noteq> page_size \<Longrightarrow> dangling a (fst (page_fetched now a p txs s)) = {}"
    "\<lbrakk>b \<noteq> a; b < length (cx_accounts s)\<rbrakk> \<Longrightarrow> tx_view b (fst (page_fetched now a p txs s)) = tx_view b s"
proof -
  let ?s = "fst (touch_page now a txs s)"
  note page = touch_page [OF reg a, where now = now and txs = txs]
  have a1: "a < length (cx_accounts ?s)" using a page(2) by simp
  note done_facts = end_fetch [OF page(1) a1]
  have run: "fst (page_fetched now a p txs s) = (if length txs = page_size
      then fst (fetch_page a (p + 1) ?s) else end_fetch_transactions a ?s)"
    by (simp add: page_fetched_def Let_def case_prod_beta)
  have view: "listing b (fst (fetch_page a q t)) = listing b t" "known b (fst (fetch_page a q t)) = known b t"
    "dangling b (fst (fetch_page a q t)) = dangling b t" for b q t
    using tx_viewD [of b "fst (fetch_page a q t)" t] by (simp_all add: known_def dangling_def)
  show "tx_registry (fst (page_fetched now a p txs s))"
    "length (cx_accounts (fst (page_fetched now a p txs s))) = length (cx_accounts s)"
    "known a (fst (page_fetched now a p txs s)) = known a s \<union> tx_hash ` set txs"
    unfolding run using page done_facts by (simp_all add: view)
  show "listing a (fst (page_fetched now a p txs s)) = listing a s ++ page_data txs"
    "dangling a (fst (page_fetched now a p txs s)) = dangling a s - tx_hash ` set txs"
    if "length txs = page_size"
    unfolding run using that page by (simp_all add: view)
  show "listing a (fst (page_fetched now a p txs s)) =
      (listing a s ++ page_data txs) |` (- (dangling a s - tx_hash ` set txs))"
    "dangling a (fst (page_fetched now a p txs s)) = {}" if "length txs \<noteq> page_size"
    unfolding run using that page done_facts by simp_all
  show "tx_view b (fst (page_fetched now a p txs s)) = tx_view b s" if "b \<noteq> a" "b < length (cx_accounts s)"
    unfolding run using that page done_facts by simp
qed

lemma fetch_transactions:
  assumes reg: "tx_registry s" and a: "a < length (cx_accounts s)"
  shows "tx_registry (fst (fetch_transactions a s))"
    "length (cx_accounts (fst (fetch_transactions a s))) = length (cx_accounts s)"
    "listing b (fst (fetch_transactions a s)) = listing b s" "known b (fst (fetch_transactions a s)) = known b s"
    "dangling a (fst (fetch_transactions a s)) = known a s"
    "b \<noteq> a \<Longrightarrow> tx_view b (fst (fetch_transactions a s)) = tx_view b s"
  using begin_fetch [OF reg a] tx_viewD [of _ "fst (fetch_transactions a s)" "begin_fetch_transactions a s"]
  by (simp_all add: fetch_transactions_def known_def dangling_def)

section \<open>Accounts\<close>

text \<open>There is one account for each network and pointer, found by them.\<close>

definition account_keys :: "store \<Rightarrow> (string \<times> int, nat) qmap \<times> (string \<times> int) list" where
  "account_keys s = (cx_by_pointer s, map (\<lambda>x. (n_id (ac_network x), ac_pointer x)) (cx_accounts s))"

definition keys_ok :: "(string \<times> int, nat) qmap \<times> (string \<times> int) list \<Rightarrow> bool" where
  "keys_ok = (\<lambda>(m, ks). \<forall>k a. map_of m k = Some a \<longleftrightarrow> a < length ks \<and> ks ! a = k)"

lemma account_keys_modify [simp]:
  assumes "\<And>x. ac_network (f x) = ac_network x" "\<And>x. ac_pointer (f x) = ac_pointer x"
  shows "account_keys (modify_account a f s) = account_keys s"
proof (cases "a < length (cx_accounts s)")
  case True
  then show ?thesis using assms
    by (simp add: account_keys_def modify_account_def map_update list_update_same_conv)
qed (simp add: account_keys_def modify_account_def not_less list_update_beyond)

lemma account_keys_fields [simp]:
  "account_keys (s\<lparr>cx_session_objs := x0\<rparr>) = account_keys s"
  "account_keys (s\<lparr>cx_sessions := x1\<rparr>) = account_keys s"
  "account_keys (s\<lparr>cx_session_list := x2\<rparr>) = account_keys s"
  "account_keys (s\<lparr>cx_attempts := x3\<rparr>) = account_keys s"
  "account_keys (s\<lparr>cx_assets_loaded := x4\<rparr>) = account_keys s"
  "account_keys (s\<lparr>sm_sessions := x5\<rparr>) = account_keys s"
  "account_keys (s\<lparr>sm_garbage := x6\<rparr>) = account_keys s"
  "account_keys (s\<lparr>sm_tor := x7\<rparr>) = account_keys s"
  "account_keys (s\<lparr>cx_coins := x8\<rparr>) = account_keys s"
  "account_keys (s\<lparr>cx_coin_rows := x9\<rparr>) = account_keys s"
  "account_keys (s\<lparr>cx_note_objs := x10\<rparr>) = account_keys s"
  "account_keys (s\<lparr>cx_notes := x11\<rparr>) = account_keys s"
  "account_keys (s\<lparr>cx_outage := x12\<rparr>) = account_keys s"
  "account_keys (s\<lparr>cx_addresses := x13\<rparr>) = account_keys s"
  "account_keys (s\<lparr>cx_address_map := x14\<rparr>) = account_keys s"
  "account_keys (s\<lparr>cx_address_rows := x15\<rparr>) = account_keys s"
  "account_keys (s\<lparr>cx_payments := x16\<rparr>) = account_keys s"
  "account_keys (s\<lparr>cx_payment_map := x17\<rparr>) = account_keys s"
  "account_keys (s\<lparr>cx_payment_rows := x18\<rparr>) = account_keys s"
  by (simp_all add: account_keys_def)

interpretation keys: tx_invariant "\<lambda>s. account_keys s = v" for v
  by unfold_locales simp_all

lemma keys_tx_ops [simp]:
  "account_keys (modify_tx t g s) = account_keys s"
  "account_keys (add_transaction now t s) = account_keys s"
  "account_keys (remove_transaction t s) = account_keys s"
  "account_keys (touch_transaction a h s) = account_keys s"
  "account_keys (begin_fetch_transactions a s) = account_keys s"
  by (simp_all add: account_keys_def [of "modify_tx t g s"] account_keys_def [of "add_transaction now t s"]
      account_keys_def [of "remove_transaction t s"] touch_transaction_def begin_fetch_transactions_def
      modify_tx_def add_transaction_def remove_transaction_def Let_def)
    (simp_all add: account_keys_def)

lemma keys_account_tx_for [simp]: "account_keys (snd (account_tx_for a h s)) = account_keys s"
  by (simp add: account_tx_for_def Let_def split: option.split)
    (simp add: account_keys_def get_or_create_chain_transaction_def)

lemma keys_tx_update [simp]: "account_keys (fst (tx_update_from_data t d s)) = account_keys s"
  by (simp add: tx_update_from_data_def)

lemma keys_get_transaction [simp]:
  "account_keys (fst (snd (get_or_create_transaction now a d s))) = account_keys s"
  by (simp add: get_or_create_transaction_def Let_def case_prod_beta)

lemma keys_touch_page [simp]: "account_keys (fst (touch_page now a vs s)) = account_keys s"
  by (induction vs arbitrary: s) (simp_all add: Let_def case_prod_beta)

lemma keys_remove_transactions [simp]: "account_keys (remove_transactions a hs s) = account_keys s"
  by (induction hs arbitrary: s) (simp_all split: option.split)

lemma keys_end_fetch [simp]: "account_keys (end_fetch_transactions a s) = account_keys s"
  by (simp add: end_fetch_transactions_def)

lemma keys_fetch_transactions [simp]: "account_keys (fst (fetch_transactions a s)) = account_keys s"
  by (simp add: fetch_transactions_def)

lemma keys_page_fetched [simp]: "account_keys (fst (page_fetched now a p vs s)) = account_keys s"
  by (simp add: page_fetched_def Let_def case_prod_beta)

lemma keys_accounts: "length (snd (account_keys s)) = length (cx_accounts s)"
  by (simp add: account_keys_def)

lemma keys_ok_insert:
  assumes ok: "keys_ok (m, ks)" and k: "map_of m k = None"
  shows "keys_ok (qm_insert k (length ks) m, ks @ [k])"
proof -
  have iff: "map_of m l = Some b \<longleftrightarrow> b < length ks \<and> ks ! b = l" for l b
    using ok unfolding keys_ok_def by blast
  have "map_of (qm_insert k (length ks) m) l = Some b \<longleftrightarrow> b < length (ks @ [k]) \<and> (ks @ [k]) ! b = l" for l b
  proof (cases "l = k")
    case True
    then show ?thesis using iff [of k b] k by (auto simp: qm_find_insert nth_append less_Suc_eq)
  next
    case False
    then show ?thesis using iff [of l b] by (auto simp: qm_find_insert nth_append less_Suc_eq)
  qed
  then show ?thesis by (simp add: keys_ok_def)
qed

text \<open>Looking up an account adds it when it is new.\<close>

lemma get_or_create_account:
  assumes ok: "keys_ok (account_keys s)" and step: "get_or_create_account n p s = (a, s')"
  shows "keys_ok (account_keys s')" and "a < length (cx_accounts s')"
    and "length (cx_accounts s) \<le> length (cx_accounts s')"
    and "\<And>b. b < length (cx_accounts s) \<Longrightarrow> cx_accounts s' ! b = cx_accounts s ! b"
    and "snd (account_keys s') ! a = (n_id n, p)"
    and "tx_registry s \<Longrightarrow> tx_registry s'"
    and "\<And>b. b < length (cx_accounts s) \<Longrightarrow> tx_view b s' = tx_view b s"
proof -
  have "keys_ok (account_keys s') \<and> a < length (cx_accounts s') \<and>
    length (cx_accounts s) \<le> length (cx_accounts s') \<and>
    (\<forall>b < length (cx_accounts s). cx_accounts s' ! b = cx_accounts s ! b) \<and>
    snd (account_keys s') ! a = (n_id n, p) \<and> (tx_registry s \<longrightarrow> tx_registry s') \<and>
    (\<forall>b < length (cx_accounts s). tx_view b s' = tx_view b s)"
  proof (cases "map_of (cx_by_pointer s) (n_id n, p)")
    case (Some b)
    with step have "a = b" "s' = s" by (simp_all add: get_or_create_account_def)
    with ok Some show ?thesis by (auto simp: keys_ok_def account_keys_def)
  next
    case None
    with step have a: "a = length (cx_accounts s)" and s': "s' = s\<lparr>cx_by_pointer :=
        qm_insert (n_id n, p) a (cx_by_pointer s), cx_accounts := cx_accounts s @ [new_account n p]\<rparr>"
      by (auto simp: get_or_create_account_def Let_def)
    have old: "cx_accounts s' ! b = cx_accounts s ! b" if "b < length (cx_accounts s)" for b
      using that by (simp add: s' nth_append)
    have keys: "account_keys s' = (qm_insert (n_id n, p) a (cx_by_pointer s),
        snd (account_keys s) @ [(n_id n, p)])"
      by (simp add: account_keys_def s' new_account_def)
    have "account_keys s = (cx_by_pointer s, snd (account_keys s))" by (simp add: account_keys_def)
    then have "keys_ok (account_keys s')"
      using keys_ok_insert [of "cx_by_pointer s" "snd (account_keys s)" "(n_id n, p)"] ok None
      unfolding keys by (simp add: a keys_accounts)
    moreover have "tx_registry s'" if reg: "tx_registry s"
    proof (rule tx_registryI)
      fix b assume "b < length (cx_accounts s')"
      then consider "b < length (cx_accounts s)" | "cx_accounts s' ! b = new_account n p"
        by (auto simp: s' nth_append less_Suc_eq)
      then show "qm_ok (ac_txs (cx_accounts s' ! b))" "distinct (ac_dangling (cx_accounts s' ! b))"
        by (cases; simp add: old registryD(1,2) [OF reg] new_account_def qm_ok_empty)+
      fix h t assume "map_of (ac_txs (cx_accounts s' ! b)) h = Some t"
      with \<open>b < length (cx_accounts s')\<close> have "b < length (cx_accounts s)"
        by (auto simp: s' nth_append new_account_def less_Suc_eq split: if_splits)
      moreover from this \<open>map_of _ h = Some t\<close> have "map_of (ac_txs (cx_accounts s ! b)) h = Some t"
        by (simp add: old)
      ultimately have "t < length (cx_txs s) \<and> at_account (cx_txs s ! t) = b \<and> at_id (cx_txs s ! t) = h"
        by (rule registryD(3) [OF reg])
      then show "t < length (cx_txs s') \<and> at_account (cx_txs s' ! t) = b \<and> at_id (cx_txs s' ! t) = h"
        by (simp add: s')
    next
      fix t assume "t \<in> fst ` set (cx_tx_rows s')"
      then have "t \<in> fst ` set (cx_tx_rows s)" by (simp add: s')
      from registry_rowD [OF reg this] show "t < length (cx_txs s') \<and>
          at_account (cx_txs s' ! t) < length (cx_accounts s') \<and>
          map_of (ac_txs (cx_accounts s' ! at_account (cx_txs s' ! t))) (at_id (cx_txs s' ! t)) = Some t"
        by (simp add: s' nth_append)
    qed (use registry_rows [OF reg] in \<open>simp add: s'\<close>)
    moreover have "tx_view b s' = tx_view b s" if "b < length (cx_accounts s)" for b
      using old [OF that] by (simp add: tx_view_def listing_def s')
    moreover have "snd (account_keys s') ! a = (n_id n, p)"
      by (simp add: keys a nth_append keys_accounts)
    moreover have "length (cx_accounts s') = Suc a" by (simp add: s' a)
    ultimately show ?thesis using old by (simp add: a)
  qed
  then show "keys_ok (account_keys s')" "a < length (cx_accounts s')"
    "length (cx_accounts s) \<le> length (cx_accounts s')"
    "\<And>b. b < length (cx_accounts s) \<Longrightarrow> cx_accounts s' ! b = cx_accounts s ! b"
    "snd (account_keys s') ! a = (n_id n, p)" "tx_registry s \<Longrightarrow> tx_registry s'"
    "\<And>b. b < length (cx_accounts s) \<Longrightarrow> tx_view b s' = tx_view b s" by auto
qed

section \<open>The registries along a run\<close>

definition context_ok :: "store \<Rightarrow> bool" where
  "context_ok s \<longleftrightarrow> tx_registry s \<and> keys_ok (account_keys s)"

text \<open>The same, with an account whose transactions nobody touches.\<close>

definition stays :: "(string, nat) qmap \<times> string list \<times> (string \<rightharpoonup> jobject) \<Rightarrow> nat \<Rightarrow> store \<Rightarrow> bool" where
  "stays v b s \<longleftrightarrow> context_ok s \<and> b < length (cx_accounts s) \<and> tx_view b s = v"

interpretation ok: tx_invariant context_ok
proof unfold_locales
  show "context_ok (modify_account a f s) \<longleftrightarrow> context_ok s"
    if "\<And>x. ac_network (f x) = ac_network x" "\<And>x. ac_pointer (f x) = ac_pointer x"
      "\<And>x. ac_txs (f x) = ac_txs x" "\<And>x. ac_dangling (f x) = ac_dangling x"
    for f :: "account \<Rightarrow> account" and a s
    using that registry.account_fields [of f a s] by (simp add: context_ok_def)
qed (simp_all add: context_ok_def)

interpretation stays: tx_invariant "stays v b" for v b
proof unfold_locales
  show "stays v b (modify_account a f s) \<longleftrightarrow> stays v b s"
    if "\<And>x. ac_network (f x) = ac_network x" "\<And>x. ac_pointer (f x) = ac_pointer x"
      "\<And>x. ac_txs (f x) = ac_txs x" "\<And>x. ac_dangling (f x) = ac_dangling x"
    for f :: "account \<Rightarrow> account" and a s
    using that ok.account_fields [of f a s] view.account_fields [of f b a s v] by (simp add: stays_def)
qed (simp_all add: stays_def)

lemma ok_fetch_transactions:
  assumes "context_ok s" and "a < length (cx_accounts s)"
  shows "context_ok (fst (fetch_transactions a s))"
    "length (cx_accounts (fst (fetch_transactions a s))) = length (cx_accounts s)"
    "stays v b s \<Longrightarrow> b \<noteq> a \<Longrightarrow> stays v b (fst (fetch_transactions a s))"
  using assms fetch_transactions [of s a] by (auto simp: context_ok_def stays_def)

lemma ok_page_fetched:
  assumes "context_ok s" and "a < length (cx_accounts s)"
  shows "context_ok (fst (page_fetched now a p txs s))"
    "stays v b s \<Longrightarrow> b \<noteq> a \<Longrightarrow> stays v b (fst (page_fetched now a p txs s))"
  using assms page_fetched [of s a] by (auto simp: context_ok_def stays_def)

lemma ok_get_transaction:
  assumes "context_ok s" and "a < length (cx_accounts s)"
  shows "context_ok (fst (snd (get_or_create_transaction now a d s)))"
    "stays v b s \<Longrightarrow> b \<noteq> a \<Longrightarrow> stays v b (fst (snd (get_or_create_transaction now a d s)))"
proof -
  obtain t s' out where step: "get_or_create_transaction now a d s = (t, s', out)"
    by (cases "get_or_create_transaction now a d s") auto
  have reg: "tx_registry s" using assms(1) by (simp add: context_ok_def)
  note facts = get_or_create_transaction [OF reg assms(2) step refl]
  have "account_keys s' = account_keys s" using keys_get_transaction [of now a d s] step by simp
  with facts assms show "context_ok (fst (snd (get_or_create_transaction now a d s)))"
    "stays v b s \<Longrightarrow> b \<noteq> a \<Longrightarrow> stays v b (fst (snd (get_or_create_transaction now a d s)))"
    by (auto simp: step context_ok_def stays_def)
qed

lemma ok_get_account:
  assumes "context_ok s" and "get_or_create_account n p s = (a, s')"
  shows "context_ok s'" "a < length (cx_accounts s')" "stays v b s \<Longrightarrow> stays v b s'"
proof -
  have ok: "tx_registry s" "keys_ok (account_keys s)" using assms(1) by (simp_all add: context_ok_def)
  note facts = get_or_create_account [OF ok(2) assms(2)]
  show "context_ok s'" "a < length (cx_accounts s')" using facts ok by (simp_all add: context_ok_def)
  show "stays v b s \<Longrightarrow> stays v b s'" using facts ok by (auto simp: stays_def context_ok_def)
qed

lemma ok_load_accounts:
  assumes "context_ok s" and "list_all (\<lambda>a. a < length (cx_accounts s)) as"
  shows "context_ok (fst (load_accounts as s))"
    and "stays v b s \<Longrightarrow> b \<notin> set as \<Longrightarrow> stays v b (fst (load_accounts as s))"
proof -
  have "context_ok (fst (load_accounts as s)) \<and>
    (stays v b s \<longrightarrow> b \<notin> set as \<longrightarrow> stays v b (fst (load_accounts as s)))" using assms
  proof (induction as arbitrary: s)
    case (Cons a as)
    let ?s = "fst (fetch_coins a (fst (snd (account_session a s))))"
    have s: "context_ok ?s" "length (cx_accounts ?s) = length (cx_accounts s)" "a < length (cx_accounts ?s)"
      using Cons.prems by simp_all
    note f = ok_fetch_transactions [OF s(1,3)]
    have "context_ok (fst (load_accounts as (fst (fetch_transactions a ?s)))) \<and>
      (stays v b (fst (fetch_transactions a ?s)) \<longrightarrow> b \<notin> set as \<longrightarrow>
        stays v b (fst (load_accounts as (fst (fetch_transactions a ?s)))))"
      by (rule Cons.IH) (use Cons.prems f(1,2) s(2) in auto)
    moreover have "stays v b ?s \<longleftrightarrow> stays v b s" by simp
    ultimately show ?case using f(3) by (simp add: case_prod_beta Let_def)
  qed simp
  then show "context_ok (fst (load_accounts as s))"
    "stays v b s \<Longrightarrow> b \<notin> set as \<Longrightarrow> stays v b (fst (load_accounts as s))" by auto
qed

lemma ok_block_loop:
  "context_ok s \<Longrightarrow> list_all (\<lambda>a. a < length (cx_accounts s)) as \<Longrightarrow>
    context_ok (fst (block_loop as i balance s))"
proof (induction as arbitrary: s)
  case (Cons a as)
  obtain j s1 out1 where one: "account_session a s = (j, s1, out1)" by (cases "account_session a s") auto
  have s1: "context_ok s1" "length (cx_accounts s1) = length (cx_accounts s)"
    using Cons.prems(1) one ok.account_session [of a s] accounts.account_session [of a s] by auto
  define s2 where "s2 = (if j = i \<and> balance then load_balance a s1 else s1)"
  have s2: "context_ok s2" "length (cx_accounts s2) = length (cx_accounts s)" using s1 by (simp_all add: s2_def)
  then have f: "context_ok (fst (fetch_transactions a s2))"
    "length (cx_accounts (fst (fetch_transactions a s2))) = length (cx_accounts s)"
    using ok_fetch_transactions(1,2) [of s2 a] Cons.prems(2) by simp_all
  define s3 where "s3 = (if j = i \<and> has_unconfirmed_transactions a s2
    then fst (fetch_coins a (fst (fetch_transactions a s2))) else s2)"
  have "context_ok s3" "length (cx_accounts s3) = length (cx_accounts s)" using f s2 by (simp_all add: s3_def)
  then have "context_ok (fst (block_loop as i balance s3))"
    using Cons.IH [of s3] Cons.prems(2) by simp
  moreover have "fst (block_loop (a # as) i balance s) = fst (block_loop as i balance s3)"
    by (simp add: one case_prod_beta Let_def s3_def s2_def)
  ultimately show ?case by simp
qed simp

lemma ok_transaction_loop: "context_ok s \<Longrightarrow> context_ok (fst (transaction_loop vs n s))"
proof (induction vs arbitrary: s)
  case (Cons v vs)
  obtain a s1 where step: "get_or_create_account n (to_uint32 v) s = (a, s1)"
    by (cases "get_or_create_account n (to_uint32 v) s") auto
  note one = ok_get_account [OF Cons.prems step]
  note two = ok_fetch_transactions [OF one(1,2)]
  have "context_ok (fst (transaction_loop vs n (fst (fetch_coins a (fst (fetch_transactions a s1))))))"
    by (rule Cons.IH) (use two in simp)
  then show ?case by (simp add: step case_prod_beta Let_def)
qed simp

lemma ok_on_subaccount:
  assumes "context_ok s"
  shows "context_ok (on_subaccount i d s)" "stays v b s \<Longrightarrow> stays v b (on_subaccount i d s)"
proof -
  obtain a s1 where step: "get_or_create_account (s_network (cx_session_objs s ! i))
      (to_uint32 (jvalue d ''pointer'')) s = (a, s1)" by force
  note one = ok_get_account [OF assms step]
  then show "context_ok (on_subaccount i d s)" "stays v b s \<Longrightarrow> stays v b (on_subaccount i d s)"
    using assms by (auto simp: on_subaccount_def Let_def step)
qed

fun loud_output :: "session_output \<Rightarrow> bool" where
  "loud_output (BlockEvent d) = True"
| "loud_output (TransactionEvent d) = True"
| "loud_output _ = False"

lemma ok_on_session:
  assumes "context_ok s"
  shows "context_ok (fst (on_session i x s))"
    "stays v b s \<Longrightarrow> \<not> loud_output x \<Longrightarrow> stays v b (fst (on_session i x s))"
proof -
  have "list_all (\<lambda>a. a < length (cx_accounts s)) [0..<length (cx_accounts s)]"
    by (simp add: list_all_iff)
  note block = ok_block_loop [OF assms this]
  show "context_ok (fst (on_session i x s))"
    using assms block ok_transaction_loop ok_on_subaccount
    by (cases x) (simp_all add: on_block_def on_transaction_def Let_def)
  show "stays v b s \<Longrightarrow> \<not> loud_output x \<Longrightarrow> stays v b (fst (on_session i x s))"
    using assms ok_on_subaccount(2) [OF assms] by (cases x) simp_all
qed

lemma ok_on_session_outputs:
  assumes "context_ok s"
  shows "context_ok (fst (on_session_outputs i xs s))"
    "stays v b s \<Longrightarrow> list_all (\<lambda>x. \<not> loud_output x) xs \<Longrightarrow> stays v b (fst (on_session_outputs i xs s))"
proof -
  have "context_ok (fst (on_session_outputs i xs s)) \<and> (stays v b s \<longrightarrow> list_all (\<lambda>x. \<not> loud_output x) xs \<longrightarrow>
      stays v b (fst (on_session_outputs i xs s)))" using assms
  proof (induction xs arbitrary: s)
    case (Cons x xs)
    note one = ok_on_session [OF Cons.prems, where i = i and x = x]
    from Cons.IH [OF one(1)] one(2) show ?case by (auto simp: case_prod_beta Let_def)
  qed simp
  then show "context_ok (fst (on_session_outputs i xs s))"
    "stays v b s \<Longrightarrow> list_all (\<lambda>x. \<not> loud_output x) xs \<Longrightarrow> stays v b (fst (on_session_outputs i xs s))"
    by auto
qed

end
