(* ===== verification/Context_Runs.thy ===== *)
theory Context_Runs
  imports Context_Facts
begin

text \<open>
  What every step of a context preserves: the registries of accounts and transactions, and, for steps
  that are quiet about an account, all that is known and shown of its transactions.
\<close>

section \<open>Payments and accounts\<close>

lemma nth_modify_any:
  assumes "\<And>x. g (f x) = g x"
  shows "g (cx_txs (modify_tx t f s) ! u) = g (cx_txs s ! u)"
proof (cases "t < length (cx_txs s)")
  case True
  then show ?thesis using assms by (cases "u = t") (simp_all add: modify_tx_def)
qed (simp add: modify_tx_def not_less list_update_beyond)

lemma stays_modify_tx [simp]:
  assumes f: "\<And>x. at_id (f x) = at_id x" "\<And>x. at_account (f x) = at_account x" "\<And>x. at_data (f x) = at_data x"
  shows "stays v b (modify_tx t f s) \<longleftrightarrow> stays v b s" "context_ok (modify_tx t f s) \<longleftrightarrow> context_ok s"
proof -
  note same = nth_modify_any [where g = at_id and f = f, OF f(1)]
    nth_modify_any [where g = at_account and f = f, OF f(2)] nth_modify_any [where g = at_data and f = f, OF f(3)]
  have reg: "tx_registry (modify_tx t f s) \<longleftrightarrow> tx_registry s"
    by (simp add: tx_registry_def same)
  have "rows_data m ts (cx_txs (modify_tx t f s)) = rows_data m ts (cx_txs s)" for m ts
    by (rule rows_data_cong) (simp add: same)
  then have "tx_view b (modify_tx t f s) = tx_view b s" by (simp add: tx_view_def listing_def)
  with reg show "stays v b (modify_tx t f s) \<longleftrightarrow> stays v b s" "context_ok (modify_tx t f s) \<longleftrightarrow> context_ok s"
    by (simp_all add: stays_def context_ok_def)
qed

lemma stays_payment_refresh [simp]:
  "stays v b (payment_refresh p s) \<longleftrightarrow> stays v b s" "context_ok (payment_refresh p s) \<longleftrightarrow> context_ok s"
  by (simp_all add: payment_refresh_def Let_def case_prod_beta set_tx_payment_def split: option.split list.split)

lemma stays_payment_update [simp]:
  "stays v b (payment_update p d s) \<longleftrightarrow> stays v b s" "context_ok (payment_update p d s) \<longleftrightarrow> context_ok s"
  by (simp_all add: payment_update_def)

lemma stays_refresh_all [simp]:
  "stays v b (fold payment_refresh ps s) \<longleftrightarrow> stays v b s"
  "context_ok (fold payment_refresh ps s) \<longleftrightarrow> context_ok s"
  by (induction ps arbitrary: s) simp_all

lemma account_update_frame [simp]:
  "ac_network (fst (account_update d x)) = ac_network x" "ac_pointer (fst (account_update d x)) = ac_pointer x"
  "ac_txs (fst (account_update d x)) = ac_txs x" "ac_dangling (fst (account_update d x)) = ac_dangling x"
  by (simp_all add: account_update_def Let_def case_prod_beta account_set_type_def account_set_name_def
      account_set_hidden_def)

lemma account_with_data_split:
  "account_with_data n d s =
     (let (a, s1) = get_or_create_account n (to_uint32 (jvalue d ''pointer'')) s
      in (a, modify_account a (\<lambda>x. fst (account_update d x)) s1,
          (if jcontains d ''pointer'' then [] else [AssertViolated]) @ snd (account_update d (cx_accounts s1 ! a))))"
  by (simp add: account_with_data_def Let_def case_prod_beta modify_account_def)

lemma ok_account_with_data:
  assumes "context_ok s"
  shows "context_ok (fst (snd (account_with_data n d s)))"
    "stays v b s \<Longrightarrow> stays v b (fst (snd (account_with_data n d s)))"
proof -
  obtain a s1 where step: "get_or_create_account n (to_uint32 (jvalue d ''pointer'')) s = (a, s1)" by force
  note one = ok_get_account [OF assms step]
  then show "context_ok (fst (snd (account_with_data n d s)))"
    "stays v b s \<Longrightarrow> stays v b (fst (snd (account_with_data n d s)))"
    by (simp_all add: account_with_data_split step ok.account_fields stays.account_fields)
qed

section \<open>Sessions\<close>

text \<open>Only a notification of a block or of transactions makes a session loud.\<close>

fun loud_event :: "session_event \<Rightarrow> bool" where
  "loud_event (Notified d) \<longleftrightarrow> to_string (jvalue d ''event'') \<in> {''block'', ''transaction''}"
| "loud_event _ \<longleftrightarrow> False"

lemmas session_outputs = set_connected_def set_settings_def set_unit_def set_active_def session_update_def
  set_block_def logout_timer_event_def

lemma quiet_event: "\<not> loud_event e \<Longrightarrow> list_all (\<lambda>x. \<not> loud_output x) (snd (session_step x e))"
  by (cases e) (simp_all add: handle_notification_def handle_event_def session_outputs Let_def case_prod_beta
      split: option.split)

lemma ok_session_does:
  assumes "context_ok s"
  shows "context_ok (fst (session_does i e s))"
    "stays v b s \<Longrightarrow> \<not> loud_event e \<Longrightarrow> stays v b (fst (session_does i e s))"
proof -
  let ?x = "session_step (cx_session_objs s ! i) e"
  have run: "fst (session_does i e s) = fst (on_session_outputs i (snd ?x) (set_session i (fst ?x) s))"
    by (simp add: session_does_def case_prod_beta)
  have ok: "context_ok (set_session i (fst ?x) s)" using assms by simp
  show "context_ok (fst (session_does i e s))" unfolding run by (rule ok_on_session_outputs(1) [OF ok])
  show "stays v b s \<Longrightarrow> \<not> loud_event e \<Longrightarrow> stays v b (fst (session_does i e s))"
    unfolding run using ok_on_session_outputs(2) [OF ok] quiet_event [of e] by simp
qed

section \<open>Steps\<close>

text \<open>
  A step is quiet about an account when it is not one that adds, touches, removes or fetches
  transactions of it.  A session that announces a block or a transaction never counts as quiet, also when
  the accounts it touches are others: which accounts these are depends on the state, and this is a condition
  on the step alone.
\<close>

fun quiet_about :: "nat \<Rightarrow> store_event \<Rightarrow> bool" where
  "quiet_about a (SessionDoes i e) \<longleftrightarrow> \<not> loud_event e"
| "quiet_about a (AccountsReady as) \<longleftrightarrow> a \<notin> set as"
| "quiet_about a (PageFetched now b page txs) \<longleftrightarrow> b \<noteq> a"
| "quiet_about a (TransactionSent now b d) \<longleftrightarrow> b \<noteq> a"
| "quiet_about a _ \<longleftrightarrow> True"

lemma ok_step:
  assumes ok: "context_ok s"
  shows "context_ok (fst (store_step s e))" "stays v b s \<Longrightarrow> quiet_about b e \<Longrightarrow> stays v b (fst (store_step s e))"
proof -
  have ready: "list_all (\<lambda>a. a < length (cx_accounts s)) (filter (\<lambda>a. has_account a s) as)" for as
    by (simp add: list_all_iff has_account_def)
  note login = ok.login_network stays.login_network
  show "context_ok (fst (store_step s e))"
    using ok ok_session_does(1) [OF ok] ok_account_with_data(1) [OF ok] ok_load_accounts(1) [OF ok ready]
      ok_page_fetched(1) [OF ok] ok_get_transaction(1) [OF ok]
    by (cases e) (auto simp: has_account_def case_prod_beta Let_def ok.account_fields login split: option.split)
  show "stays v b s \<Longrightarrow> quiet_about b e \<Longrightarrow> stays v b (fst (store_step s e))"
    using ok ok_session_does(2) [OF ok] ok_account_with_data(2) [OF ok] ok_load_accounts(2) [OF ok ready]
      ok_page_fetched(2) [OF ok] ok_get_transaction(2) [OF ok]
    by (cases e) (auto simp: has_account_def case_prod_beta Let_def stays.account_fields login split: option.split)
qed

interpretation ok_run: keeps store_step "\<lambda>e. True" context_ok
  by unfold_locales (rule ok_step(1))

interpretation stays_run: keeps store_step "quiet_about b" "stays v b" for v b
  by unfold_locales (rule ok_step(2), simp_all add: stays_def)

lemma new_store_ok [simp]: "context_ok (new_store st w d c wo)"
  by (simp add: context_ok_def tx_registry_def keys_ok_def account_keys_def new_store_def)

end
