(* ===== verification/Context_Props.thy ===== *)
theory Context_Props
  imports Context_Runs
begin

text \<open>
  What the context shows of the wallet's transactions and coins, as properties of all its runs.
\<close>

section \<open>What a fetch shows\<close>

text \<open>
  \<open>serves a p L es\<close>: the events answer the fetch of an account from page \<open>p\<close> on with the
  transactions \<open>L\<close>, thirty to a page, and do nothing else to the transactions of the account.
\<close>

fun serves :: "nat \<Rightarrow> nat \<Rightarrow> json list \<Rightarrow> store_event list \<Rightarrow> bool" where
  "serves a p L [] \<longleftrightarrow> False"
| "serves a p L (PageFetched now b q txs # es) \<longleftrightarrow>
     (if b \<noteq> a then serves a p L es
      else q = p \<and> txs = take page_size L \<and>
        (if length txs = page_size then serves a (p + 1) (drop page_size L) es else list_all (quiet_about a) es))"
| "serves a p L (e # es) \<longleftrightarrow> quiet_about a e \<and> serves a p L es"

lemma serves_Cons:
  assumes "serves a p L (e # es)"
  obtains "quiet_about a e" and "serves a p L es"
    | now where "e = PageFetched now a p (take page_size L)" and "page_size \<le> length L"
        and "serves a (p + 1) (drop page_size L) es"
    | now where "e = PageFetched now a p L" and "length L < page_size" and "list_all (quiet_about a) es"
proof (cases e)
  case (PageFetched now b q txs)
  with assms that show ?thesis by (cases "page_size \<le> length L") (auto split: if_splits simp: min_def)
qed (use assms that in auto)

text \<open>What is known, shown and missing for an account, as an undisturbed state keeps it.\<close>

lemma quiet_run:
  assumes "context_ok s" and "a < length (cx_accounts s)" and "list_all (quiet_about a) es"
  shows "stays (tx_view a s) a (fst (run store_step s es))"
  by (rule stays_run.inv_run) (use assms in \<open>simp_all add: stays_def\<close>)

lemma staysD:
  assumes "stays (tx_view a s) a s'"
  shows "context_ok s'" "a < length (cx_accounts s')" "listing a s' = listing a s" "known a s' = known a s"
    "dangling a s' = dangling a s"
  using assms tx_viewD [of a s' s] by (simp_all add: stays_def known_def dangling_def)

lemma page_step:
  "has_account a s \<Longrightarrow> fst (store_step s (PageFetched now a p txs)) = fst (page_fetched now a p txs s)"
  by simp

lemma served_listing:
  assumes "context_ok s" and "a < length (cx_accounts s)" and "serves a p L es"
  shows "listing a (fst (run store_step s es)) =
    (listing a s ++ page_data L) |` (- (dangling a s - tx_hash ` set L))"
  using assms
proof (induction es arbitrary: s p L)
  case (Cons e es)
  have reg: "tx_registry s" using Cons.prems(1) by (simp add: context_ok_def)
  note ok = ok_step(1) [OF Cons.prems(1), of e]
  note page = page_fetched [OF reg Cons.prems(2)]
  have has: "has_account a s" using Cons.prems(2) by (simp add: has_account_def)
  from Cons.prems(3) show ?case
  proof (cases rule: serves_Cons)
    case 1
    have "stays (tx_view a s) a (fst (store_step s e))"
      using quiet_run [OF Cons.prems(1,2), of "[e]"] 1(1) by simp
    note same = staysD [OF this]
    from Cons.IH [OF same(1,2) 1(2)] show ?thesis by (simp add: same)
  next
    case (2 now)
    let ?s = "fst (store_step s e)"
    have "a < length (cx_accounts ?s)" using page(2) Cons.prems(2) by (simp add: 2(1) has)
    note rest = Cons.IH [OF ok this 2(3)]
    have "listing a ?s = listing a s ++ page_data (take page_size L)"
      "dangling a ?s = dangling a s - tx_hash ` set (take page_size L)"
      using page(4,5) 2(2) by (simp_all add: 2(1) has)
    moreover have "tx_hash ` set L = tx_hash ` set (take page_size L) \<union> tx_hash ` set (drop page_size L)"
      by (metis append_take_drop_id image_Un set_append)
    moreover have "page_data L = page_data (take page_size L) ++ page_data (drop page_size L)"
      by (metis append_take_drop_id page_data_append)
    ultimately show ?thesis using rest by (simp add: Diff_eq Int_assoc)
  next
    case (3 now)
    let ?s = "fst (store_step s e)"
    have s: "?s = fst (page_fetched now a p L s)" by (simp add: 3(1) has)
    have a: "a < length (cx_accounts ?s)" using page(2) Cons.prems(2) by (simp add: s)
    from staysD(3) [OF quiet_run [OF ok a 3(3)]] page(6) 3(2) show ?thesis by (simp add: s)
  qed
qed simp

lemma listing_known: "dom (listing a s) \<subseteq> known a s"
  by (auto simp: listing_def rows_data_def known_def dom_def split: option.splits)

text \<open>A fetch begins: everything known of the account is missing until a page brings it.\<close>

definition fetch_begun :: "nat \<Rightarrow> store \<Rightarrow> bool" where
  "fetch_begun a s \<longleftrightarrow> context_ok s \<and> a < length (cx_accounts s) \<and> dangling a s = known a s"

lemma begun_listing:
  assumes "fetch_begun a s" and "serves a p L es"
  shows "listing a (fst (run store_step s es)) = page_data L"
proof -
  have "(listing a s ++ page_data L) |` (- (known a s - tx_hash ` set L)) = page_data L"
  proof
    fix h
    show "((listing a s ++ page_data L) |` (- (known a s - tx_hash ` set L))) h = page_data L h"
    proof (cases "h \<in> tx_hash ` set L")
      case True
      then obtain d where "page_data L h = Some d" using dom_page_data by blast
      with True show ?thesis by (simp add: restrict_map_def map_add_def)
    next
      case False
      then have "page_data L h = None" using dom_page_data by blast
      with False listing_known [of a s] show ?thesis by (auto simp: restrict_map_def map_add_def dom_def)
    qed
  qed
  with served_listing [OF _ _ assms(2)] assms(1) show ?thesis by (simp add: fetch_begun_def)
qed

lemma begun_run:
  assumes "fetch_begun a s" and "list_all (quiet_about a) es"
  shows "fetch_begun a (fst (run store_step s es))"
  using assms staysD [OF quiet_run [of s a es]] by (simp add: fetch_begun_def)

lemma begun_coins [simp]: "fetch_begun a (fst (fetch_coins b s)) \<longleftrightarrow> fetch_begun a s"
proof -
  have "tx_view a (fst (fetch_coins b s)) = tx_view a s" by simp
  from tx_viewD [OF this] show ?thesis by (simp add: fetch_begun_def dangling_def known_def)
qed

text \<open>Two ways in which a fetch begins: the accounts of a network are ready, or a transaction is announced.\<close>

lemma begun_fetch:
  assumes "context_ok s" and "a < length (cx_accounts s)"
  shows "fetch_begun a (fst (fetch_transactions a s))"
proof -
  have "tx_registry s" using assms(1) by (simp add: context_ok_def)
  from fetch_transactions [OF this assms(2)] ok_fetch_transactions(1) [OF assms] assms(2)
  show ?thesis by (simp add: fetch_begun_def)
qed

lemma begun_invariant:
  assumes "fetch_begun a s" and "stays (tx_view a s) a s'"
  shows "fetch_begun a s'"
  using assms staysD [OF assms(2)] by (simp add: fetch_begun_def)

lemma begun_ready:
  assumes "context_ok s" and "distinct as" and "a \<in> set as" and "list_all (\<lambda>a. a < length (cx_accounts s)) as"
  shows "fetch_begun a (fst (load_accounts as s))"
  using assms
proof (induction as arbitrary: s)
  case (Cons b as)
  let ?s = "fst (fetch_coins b (fst (snd (account_session b s))))"
  let ?t = "fst (fetch_transactions b ?s)"
  have s: "context_ok ?s" "length (cx_accounts ?s) = length (cx_accounts s)" "b < length (cx_accounts ?s)"
    using Cons.prems by simp_all
  note f = ok_fetch_transactions [OF s(1,3)]
  have run: "fst (load_accounts (b # as) s) = fst (load_accounts as ?t)" by (simp add: case_prod_beta Let_def)
  have as: "list_all (\<lambda>a. a < length (cx_accounts ?t)) as" using Cons.prems(4) s(2) f(2) by simp
  show ?case
  proof (cases "b = a")
    case True
    have begun: "fetch_begun a ?t" using begun_fetch [OF s(1,3)] True by simp
    have "stays (tx_view a ?t) a ?t" using begun by (simp add: stays_def fetch_begun_def)
    from ok_load_accounts(2) [OF f(1) as this] True Cons.prems(2)
    have "stays (tx_view a ?t) a (fst (load_accounts as ?t))" by simp
    from begun_invariant [OF begun this] show ?thesis by (simp only: run)
  next
    case False
    then have "fetch_begun a (fst (load_accounts as ?t))"
      using Cons.IH [OF f(1) _ _ as] Cons.prems(2,3) by simp
    then show ?thesis by (simp only: run)
  qed
qed simp

lemma get_account_again:
  assumes "context_ok s" and "b < length (cx_accounts s)"
    and "n_id n = n_id (ac_network (cx_accounts s ! b))" and "p = ac_pointer (cx_accounts s ! b)"
  shows "get_or_create_account n p s = (b, s)"
proof -
  have "map_of (cx_by_pointer s) (n_id n, p) = Some b"
    using assms by (simp add: context_ok_def keys_ok_def account_keys_def)
  then show ?thesis by (simp add: get_or_create_account_def)
qed

lemma begun_loop_again: "fetch_begun a s \<Longrightarrow> fetch_begun a (fst (transaction_loop vs n s))"
proof (induction vs arbitrary: s)
  case (Cons v vs)
  obtain b s1 where step: "get_or_create_account n (to_uint32 v) s = (b, s1)" by force
  have s: "context_ok s" "stays (tx_view a s) a s" using Cons.prems by (simp_all add: fetch_begun_def stays_def)
  note one = ok_get_account [OF s(1) step]
  have begun: "fetch_begun a s1" by (rule begun_invariant [OF Cons.prems one(3) [OF s(2)]])
  let ?t = "fst (fetch_transactions b s1)"
  have "fetch_begun a ?t"
  proof (cases "b = a")
    case True
    then show ?thesis using begun_fetch [OF one(1,2)] by simp
  next
    case False
    have "stays (tx_view a s1) a s1" using begun by (simp add: fetch_begun_def stays_def)
    from ok_fetch_transactions(3) [OF one(1,2) this] False begun_invariant [OF begun] show ?thesis by simp
  qed
  from Cons.IH [of "fst (fetch_coins b ?t)"] this show ?case by (simp add: step case_prod_beta Let_def)
qed simp

lemma begun_loop:
  assumes "context_ok s" and "a < length (cx_accounts s)" and "v \<in> set vs"
    and "n_id n = n_id (ac_network (cx_accounts s ! a))" and "to_uint32 v = ac_pointer (cx_accounts s ! a)"
  shows "fetch_begun a (fst (transaction_loop vs n s))"
  using assms
proof (induction vs arbitrary: s)
  case (Cons w vs)
  obtain b s1 where step: "get_or_create_account n (to_uint32 w) s = (b, s1)" by force
  note one = ok_get_account [OF Cons.prems(1) step]
  let ?t = "fst (fetch_coins b (fst (fetch_transactions b s1)))"
  have run: "fst (transaction_loop (w # vs) n s) = fst (transaction_loop vs n ?t)"
    by (simp add: step case_prod_beta Let_def)
  show ?case
  proof (cases "b = a")
    case True
    have "fetch_begun a ?t" using begun_fetch [OF one(1,2)] True by simp
    from begun_loop_again [OF this] show ?thesis by (simp only: run)
  next
    case False
    with Cons.prems step get_account_again have "w \<noteq> v" by fastforce
    with Cons.prems(3) have v: "v \<in> set vs" by simp
    have keys: "snd (account_keys s1) ! a = snd (account_keys s) ! a"
      "length (cx_accounts s) \<le> length (cx_accounts s1)"
      using get_or_create_account(3,4) [OF _ step] Cons.prems(1,2)
      by (simp_all add: context_ok_def account_keys_def)
    have t: "context_ok ?t" "account_keys ?t = account_keys s1" "length (cx_accounts ?t) = length (cx_accounts s1)"
      using ok_fetch_transactions(1,2) [OF one(1,2)] by simp_all
    have "snd (account_keys ?t) ! a = snd (account_keys s) ! a" by (simp only: t(2) keys(1))
    moreover have "a < length (cx_accounts ?t)" using keys t Cons.prems(2) by simp
    ultimately
    have "n_id (ac_network (cx_accounts ?t ! a)) = n_id (ac_network (cx_accounts s ! a))"
      "ac_pointer (cx_accounts ?t ! a) = ac_pointer (cx_accounts s ! a)"
      using Cons.prems(2) by (simp_all add: account_keys_def)
    with Cons.IH [OF t(1) _ v] Cons.prems(4,5) \<open>a < length (cx_accounts ?t)\<close> show ?thesis by (simp only: run)
  qed
qed simp

text \<open>A notification of transactions names the account: its session's network and its pointer.\<close>

definition announces :: "nat \<Rightarrow> jobject \<Rightarrow> nat \<Rightarrow> store \<Rightarrow> bool" where
  "announces i d a s \<longleftrightarrow> i < length (cx_session_objs s) \<and> a < length (cx_accounts s) \<and>
     to_string (jvalue d ''event'') = ''transaction'' \<and>
     n_id (s_network (cx_session_objs s ! i)) = n_id (ac_network (cx_accounts s ! a)) \<and>
     list_ex (\<lambda>v. to_uint32 v = ac_pointer (cx_accounts s ! a))
       (to_array (jvalue (to_object (jvalue d ''transaction'')) ''subaccounts''))"

lemma begun_announced:
  assumes ok: "context_ok s" and "announces i d a s"
  shows "fetch_begun a (fst (store_step s (SessionDoes i (Notified d))))"
proof -
  let ?x = "cx_session_objs s ! i"
  let ?e = "to_object (jvalue d ''transaction'')"
  let ?y = "?x\<lparr>s_events := json_insert ''transaction'' (jvalue d ''transaction'') (s_events ?x)\<rparr>"
  let ?s = "set_session i ?y s"
  from assms obtain v where i: "i < length (cx_session_objs s)" and a: "a < length (cx_accounts s)"
    and ev: "to_string (jvalue d ''event'') = ''transaction''"
    and n: "n_id (s_network ?x) = n_id (ac_network (cx_accounts s ! a))"
    and v: "v \<in> set (to_array (jvalue ?e ''subaccounts''))" "to_uint32 v = ac_pointer (cx_accounts s ! a)"
    by (auto simp: announces_def list_ex_iff)
  have "session_step ?x (Notified d) = (?y, [NotificationHandled d, EventsChanged, TransactionEvent ?e])"
    using ev by (simp add: handle_notification_def handle_event_def Let_def)
  moreover have "cx_session_objs ?s ! i = ?y" "cx_accounts ?s = cx_accounts s"
    using i by (simp_all add: set_session_def)
  moreover have "context_ok ?s" using ok by simp
  moreover have "fetch_begun a (fst (transaction_loop (to_array (jvalue ?e ''subaccounts'')) (s_network ?x) ?s))"
    by (rule begun_loop [OF \<open>context_ok ?s\<close> _ v(1)]) (use a n v(2) \<open>cx_accounts ?s = cx_accounts s\<close> in simp_all)
  ultimately show ?thesis using i
    by (simp add: session_does_def on_transaction_def case_prod_beta Let_def)
qed

text \<open>How a fetch starts: the accounts of a network are ready, or a notification names the account.\<close>

fun starts_fetch :: "nat \<Rightarrow> store_event \<Rightarrow> store \<Rightarrow> bool" where
  "starts_fetch a (AccountsReady as) s \<longleftrightarrow> distinct as \<and> a \<in> set as \<and> has_account a s"
| "starts_fetch a (SessionDoes i (Notified d)) s \<longleftrightarrow> announces i d a s"
| "starts_fetch a e s \<longleftrightarrow> False"

lemma started_fetch:
  assumes ok: "context_ok s" and "starts_fetch a e s"
  shows "fetch_begun a (fst (store_step s e))"
proof -
  consider as where "e = AccountsReady as" "distinct as" "a \<in> set as" "has_account a s"
    | i d where "e = SessionDoes i (Notified d)" "announces i d a s"
    using assms(2) by (cases "(a, e, s)" rule: starts_fetch.cases) auto
  then show ?thesis
  proof cases
    case (1 as)
    have "fetch_begun a (fst (load_accounts (filter (\<lambda>a. has_account a s) as) s))"
      by (rule begun_ready [OF ok]) (use 1 in \<open>simp_all add: list_all_iff has_account_def\<close>)
    with 1 show ?thesis by simp
  next
    case 2
    with begun_announced [OF ok 2(2)] show ?thesis by simp
  qed
qed

lemma reached_ok: "context_ok (fst (run store_step (new_store st w dv c wo) es))"
  by (rule ok_run.inv_run) (simp_all add: list_all_iff)

lemma serves_quietly: "list_all (quiet_about a) es \<Longrightarrow> serves a p L fs \<Longrightarrow> serves a p L (es @ fs)"
proof (induction es)
  case (Cons e es)
  then show ?case by (cases e) simp_all
qed simp

definition demo_network :: network where
  "demo_network = \<lparr>n_data = [], n_id = ''mainnet'', n_canonical_id = ''bitcoin'', n_key = ''bitcoin'',
     n_display_name = ''Bitcoin'', n_name = ''Bitcoin'', n_mainnet = True, n_liquid = False,
     n_electrum = False, n_development = False, n_policy_asset = ''btc''\<rparr>"

definition demo_settings :: app_settings where
  "demo_settings = \<lparr>set_use_tor = False, set_use_proxy = False, set_proxy = [], set_electrum_tls = False,
     set_personal_node = False, set_bitcoin_url = [], set_liquid_url = [], set_testnet_url = [],
     set_liquid_testnet_url = []\<rparr>"

definition demo_tx :: "string \<Rightarrow> json" where
  "demo_tx h = JObj [(''block_height'', JInt 7), (''txhash'', JStr h)]"

text \<open>
  C25.  A fetch that nothing disturbs shows exactly what the server has.  After any history, let a fetch
  of an account's transactions start, because its network has been loaded or because a notification names
  the account, and let the server answer the pages the fetch asks for with the transactions L, thirty to a
  page, while anything else happens that does not concern the account's transactions (pages of other accounts,
  coins, balances, payments, log-ins, sessions that come and go), except that no session announces a block
  or a transaction meanwhile, of whatever network and accounts.  Then the list of transactions shows
  for the account each hash of L with the data last sent for it and nothing else: what the server no
  longer has is gone, however much was shown before; and no transaction has two rows.
\<close>

theorem fetched_transactions_shown:
  assumes "s = fst (run store_step (new_store st w dv c wo) es0)"
    and "starts_fetch a e s" and "serves a 0 L es"
  shows "listing a (fst (run store_step s (e # es))) = page_data L \<and>
    distinct (map fst (cx_tx_rows (fst (run store_step s (e # es)))))"
proof -
  have ok: "context_ok s" using reached_ok assms(1) by simp
  have "context_ok (fst (run store_step s (e # es)))"
    by (rule ok_run.inv_run [OF ok]) (simp add: list_all_iff)
  then have "tx_registry (fst (run store_step s (e # es)))" by (simp add: context_ok_def)
  with begun_listing [OF started_fetch [OF ok assms(2)] assms(3)] show ?thesis
    by (simp add: registry_rows)
qed

theorem fetched_transactions_shown_witness:
  "\<exists>s. listing 0 s ''b'' = Some (to_object (demo_tx ''b'')) \<and> listing 0 s ''a'' = None"
proof -
  let ?es = "[AccountLoaded demo_network [(''pointer'', JInt 1)], AccountsReady [0],
    PageFetched 5 0 0 [demo_tx ''a'']]"
  define s where "s = fst (run store_step (new_store demo_settings (Some True) True [] False) ?es)"
  have "has_account 0 s" unfolding s_def by code_simp
  then have "starts_fetch 0 (AccountsReady [0]) s" by simp
  moreover have "serves 0 0 [demo_tx ''b''] [BalanceTimer 0, PageFetched 6 0 0 [demo_tx ''b'']]"
    by (simp add: page_size_def)
  ultimately obtain t where "listing 0 t = page_data [demo_tx ''b'']"
    using fetched_transactions_shown [OF s_def] by blast
  moreover have "tx_hash (demo_tx ''b'') = ''b''" by code_simp
  ultimately show ?thesis by (intro exI [of _ t]) (simp add: page_data_def)
qed

text \<open>
  C29.  Fetches of one account that overlap hide transactions.  Nothing tells the pages of one fetch from
  those of the next.  After any history, let a second fetch of an account start while a page of the first
  is on its way; when that page arrives and is the first fetch's last one, it ends the fetch: the list
  shows for the account the transactions of that one page and no others, also not those the first fetch
  has just brought.  (No session announces a block or a transaction between the start of the second fetch
  and that page.)  They are back only when the pages of the second fetch have arrived, and whatever the
  late page had shows then, also when the server does not have it any more.
\<close>

theorem overlapping_fetches_hide:
  assumes "s = fst (run store_step (new_store st w dv c wo) es0)" and "starts_fetch a e s"
    and "list_all (quiet_about a) es" and "length late < page_size"
    and "s1 = fst (run store_step s (e # es @ [PageFetched now a p late]))"
  shows "listing a s1 = page_data late \<and>
    (serves a 0 L fs \<longrightarrow> listing a (fst (run store_step s1 fs)) = page_data (late @ L))"
proof -
  have ok: "context_ok s" using reached_ok assms(1) by simp
  note begun = started_fetch [OF ok assms(2)]
  have "serves a p late (es @ [PageFetched now a p late])"
    by (rule serves_quietly [OF assms(3)]) (use assms(4) in simp)
  from begun_listing [OF begun this] have shown: "listing a s1 = page_data late" by (simp add: assms(5))
  let ?t = "fst (run store_step (fst (store_step s e)) es)"
  have "fetch_begun a ?t" by (rule begun_run [OF begun assms(3)])
  then have t: "tx_registry ?t" "a < length (cx_accounts ?t)" by (simp_all add: fetch_begun_def context_ok_def)
  have "s1 = fst (page_fetched now a p late ?t)"
    using t(2) by (simp add: assms(5) run_append_fst has_account_def)
  with page_fetched(2,7) [OF t, where txs = late and now = now and p = p] t(2) assms(4)
  have s1: "a < length (cx_accounts s1)" "dangling a s1 = {}" by simp_all
  have "context_ok s1" unfolding assms(5) by (rule ok_run.inv_run [OF ok]) (simp add: list_all_iff)
  from served_listing [OF this s1(1)] shown s1(2) show ?thesis
    by (simp add: page_data_append restrict_map_def)
qed

theorem overlapping_fetches_hide_witness:
  "\<exists>s s1. listing 0 s ''a'' = Some (to_object (demo_tx ''a'')) \<and> listing 0 s1 ''a'' = None \<and>
     listing 0 s1 ''z'' = Some (to_object (demo_tx ''z''))"
proof -
  let ?d = "[(''event'', JStr ''transaction''), (''transaction'', JObj [(''subaccounts'', JArr [JInt 1])])]"
  let ?es = "[AccountLoaded demo_network [(''pointer'', JInt 1)], AccountsReady [0],
    PageFetched 5 0 0 (replicate 30 (demo_tx ''a''))]"
  define s where "s = fst (run store_step (new_store demo_settings (Some True) True [] False) ?es)"
  define s1 where "s1 = fst (run store_step s
    (SessionDoes 0 (Notified ?d) # [] @ [PageFetched 6 0 1 [demo_tx ''z'']]))"
  have "announces 0 ?d 0 s" unfolding s_def by code_simp
  then have starts: "starts_fetch 0 (SessionDoes 0 (Notified ?d)) s" by simp
  have late: "length [demo_tx ''z''] < page_size" by (simp add: page_size_def)
  have "listing 0 s1 = page_data [demo_tx ''z'']"
    using overlapping_fetches_hide [OF s_def starts _ late s1_def] by simp
  moreover have "tx_hash (demo_tx ''z'') = ''z''" by code_simp
  moreover have "listing 0 s ''a'' = Some (to_object (demo_tx ''a''))" unfolding s_def by code_simp
  ultimately show ?thesis by (intro exI [of _ s] exI [of _ s1]) (simp add: page_data_def)
qed

end
