(* ===== verification/Context_Coins.thy ===== *)
theory Context_Coins
  imports Context_Runs
begin

text \<open>
  The library about coins and notifications: \<open>coin_invariant\<close> is the interface of an invariant of a
  context that the handful of operations on coins, accounts and notices keep; every step keeps it
  then.  It is interpreted on \<open>objects_ok\<close> (indices are good), on the notification about expired
  coins and on coins that have been spent.
\<close>

section \<open>Indices\<close>

text \<open>Transactions and coins belong to accounts that exist, accounts find transactions and coins that exist.\<close>

fun is_outage_note :: "notice \<Rightarrow> bool" where
  "is_outage_note (OutageNote ns) = True"
| "is_outage_note _ = False"

definition account_ok :: "nat \<Rightarrow> nat \<Rightarrow> account \<Rightarrow> bool" where
  "account_ok txs coins x \<longleftrightarrow>
     list_all (\<lambda>p. snd p < txs) (ac_txs x) \<and> list_all (\<lambda>p. snd p < coins) (ac_outs x)"

definition outage_ok :: "nat option \<Rightarrow> notice list \<Rightarrow> bool" where
  "outage_ok outage notes \<longleftrightarrow>
     (case outage of None \<Rightarrow> True | Some k \<Rightarrow> k < length notes \<and> is_outage_note (notes ! k))"

definition objects_ok :: "store \<Rightarrow> bool" where
  "objects_ok s \<longleftrightarrow>
     list_all (\<lambda>x. at_account x < length (cx_accounts s)) (cx_txs s) \<and>
     list_all (\<lambda>x. co_account x < length (cx_accounts s)) (cx_coins s) \<and>
     list_all (account_ok (length (cx_txs s)) (length (cx_coins s))) (cx_accounts s) \<and>
     outage_ok (cx_outage s) (cx_note_objs s)"

lemma objectsD:
  assumes "objects_ok s"
  shows "t < length (cx_txs s) \<Longrightarrow> at_account (cx_txs s ! t) < length (cx_accounts s)"
    and "c < length (cx_coins s) \<Longrightarrow> co_account (cx_coins s ! c) < length (cx_accounts s)"
    and "a < length (cx_accounts s) \<Longrightarrow> map_of (ac_txs (cx_accounts s ! a)) h = Some t \<Longrightarrow> t < length (cx_txs s)"
    and "a < length (cx_accounts s) \<Longrightarrow> map_of (ac_outs (cx_accounts s ! a)) k = Some c \<Longrightarrow> c < length (cx_coins s)"
    and "cx_outage s = Some i \<Longrightarrow> i < length (cx_note_objs s) \<and> is_outage_note (cx_note_objs s ! i)"
proof -
  show "t < length (cx_txs s) \<Longrightarrow> at_account (cx_txs s ! t) < length (cx_accounts s)"
    "c < length (cx_coins s) \<Longrightarrow> co_account (cx_coins s ! c) < length (cx_accounts s)"
    "cx_outage s = Some i \<Longrightarrow> i < length (cx_note_objs s) \<and> is_outage_note (cx_note_objs s ! i)"
    using assms by (simp_all add: objects_ok_def list_all_length outage_ok_def)
  have "account_ok (length (cx_txs s)) (length (cx_coins s)) (cx_accounts s ! a)" if "a < length (cx_accounts s)"
    using assms that by (simp add: objects_ok_def list_all_length)
  then show "a < length (cx_accounts s) \<Longrightarrow> map_of (ac_txs (cx_accounts s ! a)) h = Some t \<Longrightarrow> t < length (cx_txs s)"
    "a < length (cx_accounts s) \<Longrightarrow> map_of (ac_outs (cx_accounts s ! a)) k = Some c \<Longrightarrow> c < length (cx_coins s)"
    by (fastforce simp: account_ok_def list_all_iff dest: map_of_SomeD)+
qed

text \<open>How many coins and accounts there are.\<close>

lemma coin_counts [simp]:
  "length (cx_coins (fst (update_notifications c s))) = length (cx_coins s)"
  "length (cx_coins (fst (set_expired c b s))) = length (cx_coins s)"
  "length (cx_coins (fst (set_spending_transaction c t s))) = length (cx_coins s)"
  "length (cx_coins (modify_coin c f s)) = length (cx_coins s)"
  by (simp_all add: update_notifications_def set_expired_def set_spending_transaction_def modify_coin_def
      set_note_def remove_notification_def add_notification_def Let_def case_prod_beta split: option.split)

lemma update_expired_counts [simp]:
  "length (cx_coins (fst (update_expired c s))) = length (cx_coins s)"
  by (simp add: update_expired_def case_prod_beta Let_def frame_simps split: json.split)

lemma coin_update_counts [simp]:
  "length (cx_coins (fst (coin_update_from_data c d s))) = length (cx_coins s)"
  by (simp add: coin_update_from_data_def coin_update_def)

lemma coin_accounts [simp]:
  "cx_accounts (modify_coin c f s) = cx_accounts s"
  "cx_accounts (fst (update_notifications c s)) = cx_accounts s"
  "cx_accounts (fst (set_expired c b s)) = cx_accounts s"
  "cx_accounts (fst (set_spending_transaction c t s)) = cx_accounts s"
  "cx_accounts (fst (update_expired c s)) = cx_accounts s"
  "cx_accounts (fst (coin_update_from_data c d s)) = cx_accounts s"
proof -
  show one: "cx_accounts (modify_coin c f s) = cx_accounts s"
    "cx_accounts (fst (update_notifications c s)) = cx_accounts s"
    "cx_accounts (fst (set_expired c b s)) = cx_accounts s"
    "cx_accounts (fst (set_spending_transaction c t s)) = cx_accounts s" for c f s b t
    by (simp_all add: modify_coin_def update_notifications_def set_expired_def set_spending_transaction_def
        set_note_def remove_notification_def add_notification_def Let_def case_prod_beta split: option.split)
  show two: "cx_accounts (fst (update_expired c s)) = cx_accounts s" for s
    by (simp add: update_expired_def case_prod_beta Let_def frame_simps one split: json.split)
  show "cx_accounts (fst (coin_update_from_data c d s)) = cx_accounts s"
    by (simp add: coin_update_from_data_def coin_update_def one two)
qed

lemma get_or_create_output_count:
  assumes "objects_ok s" and "a < length (cx_accounts s)" and "get_or_create_output a d s = (c, s', out)"
  shows "c < length (cx_coins s')"
  using assms objectsD(4) [OF assms(1,2), where k = "output_key d"]
  by (auto simp: get_or_create_output_def get_output_def Let_def case_prod_beta frame_simps add_coin_def
      split: option.splits)

lemma tx_counts [simp]:
  "length (cx_accounts (snd (account_tx_for a h s))) = length (cx_accounts s)"
  "length (cx_accounts (fst (tx_update_from_data t d s))) = length (cx_accounts s)"
  by (simp_all add: account_tx_for_def tx_update_from_data_def get_or_create_chain_transaction_def Let_def
      split: option.split)

lemma get_transaction_counts [simp]:
  "length (cx_accounts (fst (snd (get_or_create_transaction now a d s)))) = length (cx_accounts s)"
  by (simp add: get_or_create_transaction_def Let_def case_prod_beta)

section \<open>The interface\<close>

text \<open>
  \<open>coin_steps\<close>: what finding a coin and marking it as spent keep.  \<open>tx_steps\<close>: transactions come
  and change as well.  \<open>store_invariant\<close>: everything but the events of a session; \<open>store_steps\<close> adds
  them, and every step keeps the invariant.
\<close>

locale coin_steps =
  fixes inv :: "store \<Rightarrow> bool"
  assumes objects: "inv s \<Longrightarrow> objects_ok s"
    and coin_got: "inv s \<Longrightarrow> a < length (cx_accounts s) \<Longrightarrow> inv (fst (snd (get_or_create_output a d s)))"
    and coin_spent: "inv s \<Longrightarrow> c < length (cx_coins s) \<Longrightarrow> inv (fst (set_spending_transaction c t s))"
begin

lemma inv_spend_inputs: "inv s \<Longrightarrow> a < length (cx_accounts s) \<Longrightarrow> inv (fst (spend_inputs a t vs s))"
proof (induction vs arbitrary: s)
  case (Cons v vs)
  obtain c s1 out where step: "get_or_create_output a (to_object v) s = (c, s1, out)"
    by (cases "get_or_create_output a (to_object v) s") auto
  have "inv s1" "length (cx_accounts s1) = length (cx_accounts s)" "c < length (cx_coins s1)"
    using coin_got [OF Cons.prems, of "to_object v"] step
      accounts.get_or_create_output [of a "to_object v" s] get_or_create_output_count [OF objects [OF Cons.prems(1)] Cons.prems(2) step]
    by simp_all
  then have "inv (fst (set_spending_transaction c t s1))"
    "a < length (cx_accounts (fst (set_spending_transaction c t s1)))"
    using coin_spent Cons.prems(2) by simp_all
  from Cons.IH [OF this] show ?case by (simp add: step case_prod_beta Let_def)
qed simp

lemma inv_add_outputs: "inv s \<Longrightarrow> a < length (cx_accounts s) \<Longrightarrow> inv (fst (add_outputs a vs s))"
  by (induction vs arbitrary: s) (simp_all add: case_prod_beta Let_def coin_got)

end

locale tx_steps = coin_steps +
  assumes tx_indexes [simp]:
    "inv (s\<lparr>cx_chain_txs := x2\<rparr>) \<longleftrightarrow> inv s" "inv (s\<lparr>cx_tx_map := x3\<rparr>) \<longleftrightarrow> inv s"
    "inv (s\<lparr>cx_tx_rows := x4\<rparr>) \<longleftrightarrow> inv s"
    and tx_changed: "(\<And>x. at_account (g x) = at_account x) \<Longrightarrow> inv s \<Longrightarrow> inv (modify_tx t g s)"
    and tx_new: "inv s \<Longrightarrow> a < length (cx_accounts s) \<Longrightarrow>
      inv (modify_account a (\<lambda>x. x\<lparr>ac_txs := qm_insert h (length (cx_txs s)) (ac_txs x)\<rparr>)
        (s\<lparr>cx_txs := cx_txs s @ [new_account_tx h a]\<rparr>))"
begin

lemma inv_get_or_create_transaction:
  assumes "inv s" and "a < length (cx_accounts s)"
  shows "inv (fst (snd (get_or_create_transaction now a d s)))"
proof -
  let ?h = "to_string (jvalue d ''txhash'')"
  obtain t s1 where one: "account_tx_for a ?h s = (t, s1)" by force
  have s1: "inv s1" "t < length (cx_txs s1)"
  proof -
    let ?s = "get_or_create_chain_transaction ?h s"
    have s: "inv ?s" "cx_txs ?s = cx_txs s" "a < length (cx_accounts ?s)"
      using assms by (simp_all add: get_or_create_chain_transaction_def)
    show "inv s1"
      using one assms(1) tx_new [OF s(1,3), of ?h] by (auto simp: account_tx_for_def Let_def split: option.splits)
    show "t < length (cx_txs s1)"
      using one objectsD(3) [OF objects [OF assms(1)] assms(2)] s(2)
      by (auto simp: account_tx_for_def Let_def split: option.splits)
  qed
  let ?f = "\<lambda>x. x\<lparr>at_data := d, at_type := parse_tx_type (to_string (jvalue d ''type'')),
    at_memo := to_string (jvalue d ''memo'')\<rparr>"
  have "inv (modify_tx t ?f s1)" by (rule tx_changed) (use s1 in simp_all)
  moreover have "at_account (cx_txs s1 ! t) < length (cx_accounts (modify_tx t ?f s1))"
    using objectsD(1) [OF objects [OF s1(1)] s1(2)] by simp
  ultimately have "inv (fst (tx_update_from_data t d s1))"
    using inv_spend_inputs s1(1) by (simp add: tx_update_from_data_def)
  then show ?thesis by (simp add: get_or_create_transaction_def one case_prod_beta Let_def add_transaction_def)
qed

end

locale store_invariant = coin_steps +
  assumes other_fields [simp]:
    "inv (s\<lparr>cx_by_pointer := m0\<rparr>) \<longleftrightarrow> inv s" "inv (s\<lparr>cx_tx_rows := r1\<rparr>) \<longleftrightarrow> inv s"
    "inv (s\<lparr>cx_addresses := x5\<rparr>) \<longleftrightarrow> inv s" "inv (s\<lparr>cx_address_map := x6\<rparr>) \<longleftrightarrow> inv s"
    "inv (s\<lparr>cx_address_rows := x7\<rparr>) \<longleftrightarrow> inv s" "inv (s\<lparr>cx_payments := x8\<rparr>) \<longleftrightarrow> inv s"
    "inv (s\<lparr>cx_payment_map := x9\<rparr>) \<longleftrightarrow> inv s" "inv (s\<lparr>cx_payment_rows := x10\<rparr>) \<longleftrightarrow> inv s"
    "inv (s\<lparr>cx_attempts := ks\<rparr>) \<longleftrightarrow> inv s" "inv (s\<lparr>cx_assets_loaded := b\<rparr>) \<longleftrightarrow> inv s"
    and session_got [simp]: "inv s \<Longrightarrow> inv (fst (snd (get_or_create_session nw s)))"
    and session_released [simp]: "inv s \<Longrightarrow> inv (fst (release_session i s))"
    and account_fields: "\<lbrakk>\<And>x. ac_network (f x) = ac_network x; \<And>x. ac_txs (f x) = ac_txs x;
      \<And>x. ac_outs (f x) = ac_outs x\<rbrakk> \<Longrightarrow> inv s \<Longrightarrow> inv (modify_account a f s)"
    and account_new: "inv s \<Longrightarrow> inv (s\<lparr>cx_accounts := cx_accounts s @ [new_account nw p]\<rparr>)"
    and tx_fields: "\<lbrakk>\<And>x. at_account (g x) = at_account x; \<And>x. at_data (g x) = at_data x\<rbrakk> \<Longrightarrow>
      inv s \<Longrightarrow> inv (modify_tx t g s)"
    and tx_got: "inv s \<Longrightarrow> a < length (cx_accounts s) \<Longrightarrow>
      inv (fst (snd (get_or_create_transaction now a d s)))"
    and coin_refreshed: "inv s \<Longrightarrow> c < length (cx_coins s) \<Longrightarrow> inv (fst (coin_update c s))"
    and coin_expires: "inv s \<Longrightarrow> c < length (cx_coins s) \<Longrightarrow> inv (fst (update_expired c s))"
    and note_added: "inv s \<Longrightarrow> \<not> is_expired_note n \<Longrightarrow> inv (fst (snd (add_notification n s)))"
    and note_gone: "inv s \<Longrightarrow> \<not> is_expired_note (cx_note_objs s ! k) \<Longrightarrow> inv (fst (remove_notification k s))"
    and outage: "inv s \<Longrightarrow> inv (fst (add_outage net s))" "inv s \<Longrightarrow> inv (fst (remove_outage net s))"
begin

lemma inv_sessions [simp]:
  "inv s \<Longrightarrow> inv (fst (snd (account_session a s)))" "inv s \<Longrightarrow> inv (fst (fetch_page a p s))"
  "inv s \<Longrightarrow> inv (fst (fetch_coins a s))" "inv s \<Longrightarrow> inv (fst (login_failed k s))"
  by (simp_all add: account_session_def fetch_page_def fetch_coins_def login_failed_def case_prod_beta Let_def
      session_got session_released)

lemma inv_login_network: "login_network n s = Some (s', out) \<Longrightarrow> inv s \<Longrightarrow> inv s'"
  using session_got [of s n] by (auto simp: login_network_def case_prod_beta Let_def split: if_splits)

lemma inv_expire_coins:
  "inv s \<Longrightarrow> list_all (\<lambda>c. c < length (cx_coins s)) cs \<Longrightarrow> inv (fst (expire_coins cs s))"
  by (induction cs arbitrary: s) (simp_all add: case_prod_beta Let_def coin_expires)

lemma inv_fetch: "inv s \<Longrightarrow> inv (fst (fetch_transactions a s))"
proof -
  have "inv s \<Longrightarrow> inv (begin_fetch_transactions a s)"
    unfolding begin_fetch_transactions_def by (rule account_fields) simp_all
  then show "inv s \<Longrightarrow> inv (fst (fetch_transactions a s))" by (simp add: fetch_transactions_def)
qed

lemma inv_touch_page: "inv s \<Longrightarrow> a < length (cx_accounts s) \<Longrightarrow> inv (fst (touch_page now a vs s))"
proof (induction vs arbitrary: s)
  case (Cons v vs)
  obtain t s1 out where step: "get_or_create_transaction now a (to_object v) s = (t, s1, out)"
    by (cases "get_or_create_transaction now a (to_object v) s") auto
  have "inv s1" "length (cx_accounts s1) = length (cx_accounts s)"
    using tx_got [OF Cons.prems, of now "to_object v"]
      get_transaction_counts [of now a "to_object v" s] step by simp_all
  then have "inv (touch_transaction a h s1)" "length (cx_accounts (touch_transaction a h s1)) = length (cx_accounts s)" for h
    unfolding touch_transaction_def by (auto intro: account_fields)
  with Cons show ?case by (simp add: step case_prod_beta Let_def)
qed simp

lemma inv_end_fetch: "inv s \<Longrightarrow> inv (end_fetch_transactions a s)"
proof -
  have "inv s \<Longrightarrow> inv (remove_transactions a hs s)" for hs
    by (induction hs arbitrary: s) (simp_all add: remove_transaction_def split: option.split)
  then show "inv s \<Longrightarrow> inv (end_fetch_transactions a s)"
    unfolding end_fetch_transactions_def by (intro account_fields) simp_all
qed

lemma inv_page_fetched: "inv s \<Longrightarrow> a < length (cx_accounts s) \<Longrightarrow> inv (fst (page_fetched now a p vs s))"
  using inv_touch_page [of s a now vs] inv_end_fetch by (simp add: page_fetched_def case_prod_beta Let_def)

lemma inv_load_accounts: "inv s \<Longrightarrow> inv (fst (load_accounts as s))"
  by (induction as arbitrary: s) (simp_all add: case_prod_beta Let_def inv_fetch)

lemma inv_load_balance: "inv s \<Longrightarrow> inv (load_balance a s)"
  unfolding load_balance_def by (rule account_fields) simp_all

lemma inv_block_loop: "inv s \<Longrightarrow> inv (fst (block_loop as i b s))"
  by (induction as arbitrary: s) (simp_all add: case_prod_beta Let_def inv_fetch inv_load_balance)

lemma inv_get_or_create_account: "inv s \<Longrightarrow> inv (snd (get_or_create_account n p s))"
  using account_new [of "s\<lparr>cx_by_pointer := qm_insert (n_id n, p) (length (cx_accounts s)) (cx_by_pointer s)\<rparr>" n p]
  by (simp add: get_or_create_account_def Let_def split: option.split)

lemma inv_transaction_loop: "inv s \<Longrightarrow> inv (fst (transaction_loop vs n s))"
  using inv_get_or_create_account
  by (induction vs arbitrary: s) (simp_all add: case_prod_beta Let_def inv_fetch)

lemma inv_on_subaccount: "inv s \<Longrightarrow> inv (on_subaccount i d s)"
proof -
  have "inv s \<Longrightarrow> inv (set_synced a s)" for a s unfolding set_synced_def by (rule account_fields) simp_all
  then show "inv s \<Longrightarrow> inv (on_subaccount i d s)"
    using inv_get_or_create_account inv_load_balance by (simp add: on_subaccount_def case_prod_beta Let_def)
qed

lemma inv_remove_notes:
  "inv s \<Longrightarrow> list_all (\<lambda>k. cx_note_objs s ! k = ResetNote i) ks \<Longrightarrow> inv (fst (remove_notes ks s))"
  using note_gone by (induction ks arbitrary: s) (simp_all add: case_prod_beta Let_def remove_notification_def)

lemma inv_on_reset: "inv s \<Longrightarrow> inv (fst (on_reset i b s))"
  using inv_remove_notes [of s i "reset_notes i s"] by (simp add: on_reset_def reset_notes_def list_all_iff)

lemma inv_messages:
  "inv s \<Longrightarrow> inv (fst (system_message n msg s))" "inv s \<Longrightarrow> inv (fst (check_backup pin registered s))"
proof -
  have "\<not> is_expired_note x" if "is_backup_note x" for x using that by (cases x) simp_all
  then show "inv s \<Longrightarrow> inv (fst (system_message n msg s))" "inv s \<Longrightarrow> inv (fst (check_backup pin registered s))"
    by (auto simp: system_message_def check_backup_def note_added note_gone find_Some_iff split: option.split)
qed

lemma inv_on_session: "inv s \<Longrightarrow> inv (fst (on_session i x s))"
  by (cases x) (simp_all add: inv_expire_coins session_coins_def list_all_iff on_block_def on_transaction_def
      Let_def inv_block_loop inv_transaction_loop inv_on_subaccount on_reset_event_def case_prod_beta note_added
      inv_on_reset)

lemma inv_on_session_outputs: "inv s \<Longrightarrow> inv (fst (on_session_outputs i xs s))"
  by (induction xs arbitrary: s) (simp_all add: case_prod_beta Let_def inv_on_session)

lemma inv_account_ops:
  "inv s \<Longrightarrow> inv (modify_account a (set_balance_data d) s)"
  "inv s \<Longrightarrow> inv (modify_account a (account_set_hidden b) s)"
  "inv s \<Longrightarrow> inv (modify_account a (\<lambda>x. x\<lparr>ac_load_timer := b\<rparr>) s)"
  "inv s \<Longrightarrow> inv (modify_account a (\<lambda>x. fst (account_update d x)) s)"
  by (rule account_fields; simp add: set_balance_data_def account_set_hidden_def account_update_def Let_def
      case_prod_beta account_set_type_def account_set_name_def)+

lemma inv_clean_loop: "inv s \<Longrightarrow> inv (fst (clean_loop as s))"
  by (induction as arbitrary: s) (simp_all add: case_prod_beta Let_def inv_account_ops)

lemma inv_payment_refresh: "inv s \<Longrightarrow> inv (payment_refresh p s)"
proof -
  have "inv s \<Longrightarrow> inv (set_tx_payment t q s)" for t q s
    unfolding set_tx_payment_def by (rule tx_fields) simp_all
  then show "inv s \<Longrightarrow> inv (payment_refresh p s)"
    by (simp add: payment_refresh_def get_or_create_address_def Let_def case_prod_beta split: option.split list.split)
qed

lemma inv_refresh_all: "inv s \<Longrightarrow> inv (fold payment_refresh ps s)"
  by (induction ps arbitrary: s) (simp_all add: inv_payment_refresh)

end

locale store_steps = store_invariant +
  assumes session_done: "inv s \<Longrightarrow> i < length (cx_session_objs s) \<Longrightarrow> inv (fst (session_does i e s))"
begin

lemma inv_step:
  assumes "inv s"
  shows "inv (fst (store_step s e))"
proof (cases e)
  case (PaymentReceived v d)
  have "inv (snd (get_or_create_payment v s))"
    using assms by (simp add: get_or_create_payment_def Let_def split: option.split)
  with PaymentReceived show ?thesis
    by (simp add: case_prod_beta Let_def payment_update_def inv_payment_refresh)
next
  case (AddressReceived a d)
  with assms show ?thesis
    by (simp add: account_address_def get_or_create_address_def Let_def case_prod_beta split: option.split)
next
  case (LoginNetwork n)
  with assms show ?thesis using inv_login_network by (auto split: option.split)
next
  case (ConnectFailed k error)
  with assms show ?thesis
    by (simp add: connect_failed_def login_failed_def Let_def case_prod_beta outage)
qed (use assms in \<open>simp_all add: session_done case_prod_beta Let_def
      account_with_data_split inv_get_or_create_account inv_account_ops inv_load_accounts balance_timer_def
      inv_page_fetched has_account_def coins_fetched_def inv_add_outputs tx_got
      inv_refresh_all clean_accounts_def inv_clean_loop login_finished_def outage inv_messages coin_refreshed\<close>)

end

text \<open>An invariant that does not look at sessions has to be kept by the handful of operations below.\<close>

locale coin_invariant = session_blind +
  assumes fields [simp]:
    "inv (s\<lparr>cx_by_pointer := m0\<rparr>) \<longleftrightarrow> inv s" "inv (s\<lparr>cx_coin_rows := r1\<rparr>) \<longleftrightarrow> inv s"
    "inv (s\<lparr>cx_chain_txs := x2\<rparr>) \<longleftrightarrow> inv s" "inv (s\<lparr>cx_tx_map := x3\<rparr>) \<longleftrightarrow> inv s"
    "inv (s\<lparr>cx_tx_rows := x4\<rparr>) \<longleftrightarrow> inv s" "inv (s\<lparr>cx_addresses := x5\<rparr>) \<longleftrightarrow> inv s"
    "inv (s\<lparr>cx_address_map := x6\<rparr>) \<longleftrightarrow> inv s" "inv (s\<lparr>cx_address_rows := x7\<rparr>) \<longleftrightarrow> inv s"
    "inv (s\<lparr>cx_payments := x8\<rparr>) \<longleftrightarrow> inv s" "inv (s\<lparr>cx_payment_map := x9\<rparr>) \<longleftrightarrow> inv s"
    "inv (s\<lparr>cx_payment_rows := x10\<rparr>) \<longleftrightarrow> inv s"
    and good: "inv s \<Longrightarrow> objects_ok s"
    and account_kept: "\<lbrakk>\<And>x. ac_network (f x) = ac_network x; \<And>x. ac_txs (f x) = ac_txs x;
      \<And>x. ac_outs (f x) = ac_outs x\<rbrakk> \<Longrightarrow> inv s \<Longrightarrow> inv (modify_account a f s)"
    and account_made: "inv s \<Longrightarrow> inv (s\<lparr>cx_accounts := cx_accounts s @ [new_account nw p]\<rparr>)"
    and account_out: "inv s \<Longrightarrow> c < length (cx_coins s) \<Longrightarrow> map_of (ac_outs (cx_accounts s ! a)) key = None \<Longrightarrow>
      inv (modify_account a (\<lambda>x. x\<lparr>ac_outs := qm_insert key c (ac_outs x)\<rparr>) s)"
    and tx_kept: "(\<And>x. at_account (g x) = at_account x) \<Longrightarrow> inv s \<Longrightarrow> inv (modify_tx t g s)"
    and tx_made: "inv s \<Longrightarrow> a < length (cx_accounts s) \<Longrightarrow>
      inv (modify_account a (\<lambda>x. x\<lparr>ac_txs := qm_insert h (length (cx_txs s)) (ac_txs x)\<rparr>)
        (s\<lparr>cx_txs := cx_txs s @ [new_account_tx h a]\<rparr>))"
    and coin_data: "\<lbrakk>\<And>x. co_account (u x) = co_account x; \<And>x. co_expired (u x) = co_expired x;
      \<And>x. co_spending (u x) = co_spending x\<rbrakk> \<Longrightarrow> inv s \<Longrightarrow> inv (modify_coin c u s)"
    and coin_new: "inv s \<Longrightarrow> a < length (cx_accounts s) \<Longrightarrow> inv (s\<lparr>cx_coins := cx_coins s @ [new_coin a]\<rparr>)"
    and coin_expired: "inv s \<Longrightarrow> c < length (cx_coins s) \<Longrightarrow> inv (fst (set_expired c b s))"
    and coin_marked: "inv s \<Longrightarrow> c < length (cx_coins s) \<Longrightarrow> inv (fst (set_spending_transaction c t s))"
    and notice_added: "inv s \<Longrightarrow> \<not> is_expired_note n \<Longrightarrow> inv (fst (snd (add_notification n s)))"
    and notice_gone: "inv s \<Longrightarrow> \<not> is_expired_note (cx_note_objs s ! k) \<Longrightarrow> inv (fst (remove_notification k s))"
    and outage_kept: "inv s \<Longrightarrow> inv (fst (add_outage net s))" "inv s \<Longrightarrow> inv (fst (remove_outage net s))"
begin

lemma inv_update_expired: "inv s \<Longrightarrow> c < length (cx_coins s) \<Longrightarrow> inv (fst (update_expired c s))"
  by (simp add: update_expired_def case_prod_beta Let_def coin_expired frame_simps split: json.split)

lemma inv_coin_update:
  assumes "inv s" and "c < length (cx_coins s)"
  shows "inv (fst (coin_update c s))"
proof -
  have "inv (modify_coin c (coin_fields n) s)" for n
    by (rule coin_data) (use assms in \<open>simp_all add: coin_fields_def Let_def\<close>)
  with assms inv_update_expired show ?thesis by (simp add: coin_update_def)
qed

lemma inv_coin_update_from_data:
  assumes "inv s" and "c < length (cx_coins s)"
  shows "inv (fst (coin_update_from_data c d s))"
proof -
  have "inv (modify_coin c (\<lambda>x. x\<lparr>co_data := d\<rparr>) s)" by (rule coin_data) (use assms in simp_all)
  with assms inv_coin_update show ?thesis by (simp add: coin_update_from_data_def)
qed

lemma inv_get_or_create_output:
  assumes "inv s" and "a < length (cx_accounts s)"
  shows "inv (fst (snd (get_or_create_output a d s)))"
proof (cases "get_output a d s")
  case (Some c)
  have "c < length (cx_coins s)"
    using objectsD(4) [OF good [OF assms(1)] assms(2)] Some by (simp add: get_output_def)
  with Some inv_coin_update_from_data [OF assms(1)] show ?thesis
    by (simp add: get_or_create_output_def case_prod_beta Let_def add_coin_def)
next
  case None
  let ?c = "length (cx_coins s)"
  let ?s0 = "s\<lparr>cx_coins := cx_coins s @ [new_coin a]\<rparr>"
  let ?s1 = "fst (coin_update_from_data ?c d ?s0)"
  let ?s2 = "fst (snd (account_session a ?s1))"
  let ?i = "fst (account_session a ?s1)"
  let ?s3 = "modify_coin ?c (\<lambda>x. x\<lparr>co_session := ?i\<rparr>) ?s2"
  have "inv ?s1" by (rule inv_coin_update_from_data) (use coin_new [OF assms] in simp_all)
  then have "inv ?s3" by (intro coin_data) simp_all
  moreover have "?c < length (cx_coins ?s3)" by (simp add: frame_simps)
  moreover have "map_of (ac_outs (cx_accounts ?s3 ! a)) (output_key d) = None"
    using None by (simp add: frame_simps get_output_def)
  ultimately have "inv (modify_account a (\<lambda>x. x\<lparr>ac_outs := qm_insert (output_key d) ?c (ac_outs x)\<rparr>) ?s3)"
    by (rule account_out)
  with None show ?thesis by (simp add: get_or_create_output_def case_prod_beta Let_def add_coin_def)
qed

end

sublocale coin_invariant \<subseteq> tx_steps inv
  by unfold_locales (simp_all add: good inv_get_or_create_output coin_marked tx_kept tx_made)

sublocale coin_invariant \<subseteq> store_invariant inv
  by unfold_locales (simp_all add: account_kept account_made tx_kept inv_get_or_create_transaction inv_update_expired
      inv_coin_update
      notice_added notice_gone outage_kept)

sublocale coin_invariant \<subseteq> store_steps inv
  by unfold_locales (simp add: session_does_def case_prod_beta inv_on_session_outputs)

section \<open>Indices are good\<close>

lemma modify_beyond [simp]:
  "\<not> a < length (cx_accounts s) \<Longrightarrow> modify_account a f s = s"
  "\<not> t < length (cx_txs s) \<Longrightarrow> modify_tx t g s = s"
  "\<not> c < length (cx_coins s) \<Longrightarrow> modify_coin c u s = s"
  by (simp_all add: modify_account_def modify_tx_def modify_coin_def list_update_beyond)

lemma list_all_updated:
  "list_all P xs \<Longrightarrow> (i < length xs \<Longrightarrow> P y) \<Longrightarrow> list_all P (xs[i := y])"
  by (cases "i < length xs") (auto simp: list_all_length nth_list_update list_update_beyond)

lemma list_all_modified:
  assumes "list_all P xs" and "\<And>x. P (f x) \<longleftrightarrow> P x"
  shows "list_all P (xs[i := f (xs ! i)])"
  by (rule list_all_updated [OF assms(1)]) (use assms in \<open>simp add: list_all_length\<close>)

lemma list_all_qm_insert: "list_all P m \<Longrightarrow> P (k, v) \<Longrightarrow> list_all P (qm_insert k v m)"
  by (induction k v m rule: qm_insert.induct) auto

lemma account_ok_mono:
  "account_ok t c x \<Longrightarrow> t \<le> t' \<Longrightarrow> c \<le> c' \<Longrightarrow> account_ok t' c' x"
  by (auto simp: account_ok_def list_all_iff)

lemma account_ok_nth:
  "objects_ok s \<Longrightarrow> a < length (cx_accounts s) \<Longrightarrow>
    account_ok (length (cx_txs s)) (length (cx_coins s)) (cx_accounts s ! a)"
  by (simp add: objects_ok_def list_all_length)

lemma objects_account:
  assumes "objects_ok s"
    and "a < length (cx_accounts s) \<Longrightarrow> account_ok (length (cx_txs s)) (length (cx_coins s)) (f (cx_accounts s ! a))"
  shows "objects_ok (modify_account a f s)"
  using assms by (simp add: objects_ok_def modify_account_def list_all_updated)

lemma objects_coin:
  assumes "objects_ok s" and "\<And>x. co_account (u x) = co_account x"
  shows "objects_ok (modify_coin c u s)"
  using assms by (simp add: objects_ok_def modify_coin_def list_all_modified)

lemma outage_other:
  "outage_ok out ns \<Longrightarrow> (k < length ns \<Longrightarrow> \<not> is_outage_note (ns ! k)) \<Longrightarrow> outage_ok out (ns[k := n])"
  by (cases "k < length ns") (auto simp: outage_ok_def nth_list_update list_update_beyond split: option.splits)

lemma outage_append: "outage_ok out ns \<Longrightarrow> outage_ok out (ns @ [n])"
  by (auto simp: outage_ok_def nth_append split: option.splits)

lemma set_note_objects:
  "objects_ok s \<Longrightarrow> \<not> is_outage_note (cx_note_objs s ! k) \<Longrightarrow> objects_ok (set_note k n s)"
  by (simp add: objects_ok_def set_note_def outage_other)

lemma add_note_objects: "objects_ok s \<Longrightarrow> objects_ok (fst (snd (add_notification n s)))"
  by (simp add: add_notification_def Let_def objects_ok_def outage_append)

lemma remove_note_objects [simp]: "objects_ok (fst (remove_notification n s)) \<longleftrightarrow> objects_ok s"
  by (simp add: remove_notification_def objects_ok_def)

lemma expired_noteD: "get_expired_notification s = Some k \<Longrightarrow> is_expired_note (cx_note_objs s ! k)"
  by (auto simp: get_expired_notification_def find_Some_iff)

lemma expired_not_outage: "is_expired_note n \<Longrightarrow> \<not> is_outage_note n"
  by (cases n) simp_all

lemma update_notifications_objects:
  assumes ok: "objects_ok s"
  shows "objects_ok (fst (update_notifications c s))"
proof -
  have old: "objects_ok (set_note k n s)" if "get_expired_notification s = Some k" for k n
    by (rule set_note_objects [OF ok expired_not_outage [OF expired_noteD [OF that]]])
  have new: "objects_ok (set_note (length (cx_note_objs s)) n (fst (snd (add_notification (ExpiredNote [] []) s))))" for n
    by (rule set_note_objects [OF add_note_objects [OF ok]]) (simp add: add_notification_def Let_def)
  show ?thesis
  proof (cases "get_expired_notification s")
    case None
    moreover have "fst (add_notification (ExpiredNote [] []) s) = length (cx_note_objs s)"
      by (simp add: add_notification_def Let_def)
    ultimately show ?thesis using ok new by (simp add: update_notifications_def Let_def case_prod_beta)
  next
    case (Some k)
    then show ?thesis using ok old [OF Some] by (simp add: update_notifications_def Let_def case_prod_beta)
  qed
qed

interpretation indices: coin_invariant objects_ok
proof unfold_locales
  show "objects_ok (modify_account a f s)"
    if "\<And>x. ac_network (f x) = ac_network x" "\<And>x. ac_txs (f x) = ac_txs x" "\<And>x. ac_outs (f x) = ac_outs x"
      "objects_ok s" for f :: "account \<Rightarrow> account" and s a
    by (rule objects_account [OF that(4)]) (use account_ok_nth [OF that(4)] in \<open>simp add: account_ok_def that\<close>)
  show "objects_ok (s\<lparr>cx_accounts := cx_accounts s @ [new_account n p]\<rparr>)" if "objects_ok s" for s n p
    using that by (simp add: objects_ok_def list_all_length less_SucI) (simp add: new_account_def account_ok_def nth_append)
  show "objects_ok (modify_account a (\<lambda>x. x\<lparr>ac_outs := qm_insert k c (ac_outs x)\<rparr>) s)"
    if "objects_ok s" "c < length (cx_coins s)" for s c a k
    by (rule objects_account [OF that(1)])
      (use account_ok_nth [OF that(1)] that(2) in \<open>simp add: account_ok_def list_all_qm_insert\<close>)
  show "objects_ok (modify_tx t g s)" if "\<And>x. at_account (g x) = at_account x" "objects_ok s"
    for g :: "account_tx \<Rightarrow> account_tx" and s t
    using that by (simp add: objects_ok_def modify_tx_def list_all_modified)
  show "objects_ok (modify_account a (\<lambda>x. x\<lparr>ac_txs := qm_insert h (length (cx_txs s)) (ac_txs x)\<rparr>)
      (s\<lparr>cx_txs := cx_txs s @ [new_account_tx h a]\<rparr>))"
    if "objects_ok s" "a < length (cx_accounts s)" for s h a
  proof -
    let ?s = "s\<lparr>cx_txs := cx_txs s @ [new_account_tx h a]\<rparr>"
    have "list_all (account_ok (length (cx_txs ?s)) (length (cx_coins ?s))) (cx_accounts ?s)"
      using that(1) by (auto simp: objects_ok_def list_all_iff intro: account_ok_mono)
    with that have "objects_ok ?s" by (simp add: objects_ok_def new_account_tx_def)
    then show ?thesis
      using account_ok_nth [OF \<open>objects_ok ?s\<close>, of a] that(2)
      by (intro objects_account) (simp_all add: account_ok_def list_all_qm_insert)
  qed
  show "objects_ok (modify_coin c u s)"
    if "\<And>x. co_account (u x) = co_account x" "\<And>x. co_expired (u x) = co_expired x"
      "\<And>x. co_spending (u x) = co_spending x" "objects_ok s" for u :: "coin \<Rightarrow> coin" and s c
    by (rule objects_coin [OF that(4,1)])
  show "objects_ok (s\<lparr>cx_coins := cx_coins s @ [new_coin a]\<rparr>)" if "objects_ok s" "a < length (cx_accounts s)" for s a
  proof -
    have "list_all (account_ok (length (cx_txs s)) (Suc (length (cx_coins s)))) (cx_accounts s)"
      using that(1) by (auto simp: objects_ok_def list_all_iff intro: account_ok_mono)
    with that show ?thesis by (simp add: objects_ok_def new_coin_def)
  qed
  show "objects_ok (fst (set_expired c b s))" "objects_ok (fst (set_spending_transaction c t s))"
    if "objects_ok s" "c < length (cx_coins s)" for s c b t
    using that by (simp_all add: set_expired_def set_spending_transaction_def update_notifications_objects objects_coin)
  show "objects_ok (fst (add_outage n s))" if "objects_ok s" for s n
    using that objectsD(5) [OF that]
    by (simp add: add_outage_def Let_def case_prod_beta add_notification_def set_note_def objects_ok_def
        outage_ok_def nth_append split: option.split)
  show "objects_ok (fst (remove_outage n s))" if "objects_ok s" for s n
    using that objectsD(5) [OF that]
    by (simp add: remove_outage_def Let_def case_prod_beta remove_notification_def set_note_def objects_ok_def
        outage_ok_def split: option.split)
  show "objects_ok (fst (snd (add_notification n s)))" if "objects_ok s" for s n
    by (rule add_note_objects [OF that])
  show "objects_ok (fst (remove_notification k s))" if "objects_ok s" for s k
    using that by simp
qed (simp_all add: objects_ok_def)

section \<open>The notification about expired coins\<close>

text \<open>
  What the notification depends on: for each coin its account and whether it is overdue (expired, not
  spent, of a multisig account, in a wallet that is not watch-only), the notifications and the objects.
\<close>

definition is_overdue :: "store \<Rightarrow> coin \<Rightarrow> bool" where
  "is_overdue s x \<longleftrightarrow> co_expired x \<and> co_spending x = None \<and> \<not> cx_watchonly s \<and>
     \<not> n_electrum (ac_network (cx_accounts s ! co_account x))"

type_synonym notice_view = "(nat \<times> bool) list \<times> nat list \<times> notice list"

definition notice_view :: "store \<Rightarrow> notice_view" where
  "notice_view s = (map (\<lambda>x. (co_account x, is_overdue s x)) (cx_coins s), cx_notes s, cx_note_objs s)"

definition overdue :: "(nat \<times> bool) list \<Rightarrow> nat set" where
  "overdue fl = {c. c < length fl \<and> snd (fl ! c)}"

definition lists_exactly :: "(nat \<times> bool) list \<Rightarrow> notice \<Rightarrow> bool" where
  "lists_exactly fl n \<longleftrightarrow> set (note_coins n) = overdue fl \<and> distinct (note_coins n) \<and>
     set (note_accounts n) = (\<lambda>c. fst (fl ! c)) ` overdue fl \<and> distinct (note_accounts n)"

definition expired_notes :: "nat list \<Rightarrow> notice list \<Rightarrow> nat list" where
  "expired_notes ns objs = filter (\<lambda>k. is_expired_note (objs ! k)) ns"

text \<open>There is at most one, and it lists exactly the overdue coins and their accounts, each once.\<close>

definition listed_ok :: "notice_view \<Rightarrow> bool" where
  "listed_ok = (\<lambda>(fl, ns, objs). distinct ns \<and> (\<forall>k \<in> set ns. k < length objs) \<and>
     (case expired_notes ns objs of
        [] \<Rightarrow> overdue fl = {}
      | k # ks \<Rightarrow> ks = [] \<and> overdue fl \<noteq> {} \<and> lists_exactly fl (objs ! k)))"

lemma find_filter: "find P xs = (case filter P xs of [] \<Rightarrow> None | x # ys \<Rightarrow> Some x)"
  by (induction xs) auto

lemma get_expired_eq:
  "get_expired_notification s = (case expired_notes (cx_notes s) (cx_note_objs s) of [] \<Rightarrow> None | k # ks \<Rightarrow> Some k)"
  by (simp add: get_expired_notification_def expired_notes_def find_filter)

lemma expired_notes_cong:
  "(\<And>k. k \<in> set ns \<Longrightarrow> is_expired_note (objs' ! k) \<longleftrightarrow> is_expired_note (objs ! k)) \<Longrightarrow>
    expired_notes ns objs' = expired_notes ns objs"
  unfolding expired_notes_def by (rule filter_cong) simp_all

lemma listed_step:
  assumes ok: "listed_ok (fl, ns, objs)" and "distinct ns'" and "\<And>k. k \<in> set ns' \<Longrightarrow> k < length objs'"
    and same: "expired_notes ns' objs' = expired_notes ns objs"
    and "\<And>k. k \<in> set (expired_notes ns objs) \<Longrightarrow> objs' ! k = objs ! k"
  shows "listed_ok (fl, ns', objs')"
  using assms by (auto simp: listed_ok_def split: list.splits)

lemma listed_note_added:
  assumes ok: "listed_ok (fl, ns, objs)" and n: "\<not> is_expired_note n"
  shows "listed_ok (fl, ns @ [length objs], objs @ [n])"
proof (rule listed_step [OF ok])
  have ns: "distinct ns" "\<And>k. k \<in> set ns \<Longrightarrow> k < length objs" using ok by (auto simp: listed_ok_def)
  then show "distinct (ns @ [length objs])" by auto
  show "k \<in> set (ns @ [length objs]) \<Longrightarrow> k < length (objs @ [n])" for k using ns(2) by (auto intro: less_SucI)
  have "expired_notes ns (objs @ [n]) = expired_notes ns objs"
    by (rule expired_notes_cong) (simp add: ns(2) nth_append)
  with n show "expired_notes (ns @ [length objs]) (objs @ [n]) = expired_notes ns objs"
    by (simp add: expired_notes_def)
  show "k \<in> set (expired_notes ns objs) \<Longrightarrow> (objs @ [n]) ! k = objs ! k" for k
    using ns(2) by (simp add: expired_notes_def nth_append)
qed

lemma listed_note_removed:
  assumes ok: "listed_ok (fl, ns, objs)" and k: "\<not> is_expired_note (objs ! k)"
  shows "listed_ok (fl, remove1 k ns, objs)"
proof (rule listed_step [OF ok])
  show "expired_notes (remove1 k ns) objs = expired_notes ns objs"
    using k by (simp add: expired_notes_def filter_remove1 remove1_idem)
qed (use ok in \<open>auto simp: listed_ok_def dest: notin_set_remove1 set_remove1_subset [THEN subsetD]\<close>)

lemma listed_note_set:
  assumes ok: "listed_ok (fl, ns, objs)" and k: "\<not> is_expired_note (objs ! k)" "\<not> is_expired_note n"
  shows "listed_ok (fl, ns, objs[k := n])"
proof (rule listed_step [OF ok])
  have ns: "distinct ns" "\<And>j. j \<in> set ns \<Longrightarrow> j < length objs" using ok by (auto simp: listed_ok_def)
  then show "distinct ns" "\<And>j. j \<in> set ns \<Longrightarrow> j < length (objs[k := n])" by simp_all
  show "expired_notes ns (objs[k := n]) = expired_notes ns objs"
    by (rule expired_notes_cong) (metis k ns(2) nth_list_update_eq nth_list_update_neq)
  show "j \<in> set (expired_notes ns objs) \<Longrightarrow> objs[k := n] ! j = objs ! j" for j
    using k(1) ns(2) by (cases "j = k") (auto simp: expired_notes_def)
qed

text \<open>Marking a coin and bringing the notification up to date.\<close>

definition bring_up_to_date :: "nat \<Rightarrow> bool \<Rightarrow> notice_view \<Rightarrow> notice_view" where
  "bring_up_to_date c w = (\<lambda>(fl, ns, objs). (fl[c := (fst (fl ! c), w)],
     (case expired_notes ns objs of
        [] \<Rightarrow> if w then (ns @ [length objs], objs @ [expired_add c (fst (fl ! c)) (ExpiredNote [] [])]) else (ns, objs)
      | k # ks \<Rightarrow>
          if w then (ns, objs[k := expired_add c (fst (fl ! c)) (objs ! k)])
          else (let n = expired_remove (\<lambda>c. fst (fl ! c)) c (objs ! k)
                in (if note_coins n = [] then remove1 k ns else ns, objs[k := n])))))"

lemma overdue_set: "c < length fl \<Longrightarrow> overdue (fl[c := (a, w)]) = (if w then insert c (overdue fl) else overdue fl - {c})"
  by (auto simp: overdue_def nth_list_update)

lemma account_set: "(fl[c := (fst (fl ! c), w)]) ! d = (fst (fl ! d), snd ((fl[c := (fst (fl ! c), w)]) ! d))"
  by (cases "c < length fl"; cases "d = c") (simp_all add: list_update_beyond)

lemma fst_account_set [simp]: "fst ((fl[c := (fst (fl ! c), w)]) ! d) = fst (fl ! d)"
  by (subst account_set) simp

lemma lists_add:
  assumes "c < length fl" and "lists_exactly fl n" and "is_expired_note n"
  shows "lists_exactly (fl[c := (fst (fl ! c), True)]) (expired_add c (fst (fl ! c)) n)"
  using assms by (cases n) (auto simp: lists_exactly_def expired_add_def overdue_set)

lemma lists_first:
  assumes "c < length fl" and "overdue fl = {}"
  shows "lists_exactly (fl[c := (fst (fl ! c), True)]) (expired_add c (fst (fl ! c)) (ExpiredNote [] []))"
  using assms by (auto simp: lists_exactly_def expired_add_def overdue_set)

lemma lists_remove:
  assumes c: "c < length fl" and n: "lists_exactly fl n" "is_expired_note n"
  shows "lists_exactly (fl[c := (fst (fl ! c), False)]) (expired_remove (\<lambda>c. fst (fl ! c)) c n)"
proof -
  obtain os as where n': "n = ExpiredNote os as" using n(2) by (cases n) auto
  let ?a = "\<lambda>c. fst (fl ! c)"
  have os: "set os = overdue fl" "distinct os" "set as = ?a ` set os" "distinct as"
    using n(1) by (auto simp: lists_exactly_def n')
  have "?a ` (set os - {c}) = (if list_ex (\<lambda>d. ?a d = ?a c) (removeAll c os) then set as else set as - {?a c})"
  proof (cases "list_ex (\<lambda>d. ?a d = ?a c) (removeAll c os)")
    case True
    then obtain d where d: "d \<in> set os - {c}" "?a d = ?a c" by (auto simp: list_ex_iff)
    then have "?a e \<in> ?a ` (set os - {c})" if "e \<in> set os" for e
      using that by (cases "e = c") (metis imageI, simp)
    with True show ?thesis unfolding os(3) by auto
  next
    case False
    then show ?thesis unfolding os(3) by (auto simp: list_ex_iff)
  qed
  then show ?thesis
    using os by (auto simp: lists_exactly_def n' expired_remove_def Let_def overdue_set [OF c] distinct_removeAll)
qed

lemma listed_update:
  assumes ok: "listed_ok (fl, ns, objs)" and c: "c < length fl"
  shows "listed_ok (bring_up_to_date c w (fl, ns, objs))"
proof -
  let ?fl = "fl[c := (fst (fl ! c), w)]"
  have ns: "distinct ns" "\<And>k. k \<in> set ns \<Longrightarrow> k < length objs" using ok by (auto simp: listed_ok_def)
  show ?thesis
  proof (cases "expired_notes ns objs")
    case Nil
    then have none: "overdue fl = {}" using ok by (simp add: listed_ok_def)
    let ?n = "expired_add c (fst (fl ! c)) (ExpiredNote [] [])"
    have "expired_notes ns (objs @ [?n]) = []"
      unfolding Nil [symmetric] by (rule expired_notes_cong) (simp add: ns(2) nth_append)
    then have "expired_notes (ns @ [length objs]) (objs @ [?n]) = [length objs]"
      by (simp add: expired_notes_def expired_add_def)
    with Nil none ns lists_first [OF c none] overdue_set [OF c] show ?thesis
      by (auto simp: bring_up_to_date_def listed_ok_def less_SucI)
  next
    case (Cons k ks)
    then have k: "ks = []" "lists_exactly fl (objs ! k)" using ok by (auto simp: listed_ok_def)
    have "k \<in> set (expired_notes ns objs)" using Cons by simp
    then have in_ns: "k \<in> set ns" "is_expired_note (objs ! k)" by (auto simp: expired_notes_def)
    have still: "expired_notes ns (objs[k := n]) = [k]" if "is_expired_note n" for n
      using Cons k(1) that in_ns ns(2) expired_notes_cong [of ns "objs[k := n]" objs]
      by (metis nth_list_update_eq nth_list_update_neq)
    show ?thesis
    proof (cases w)
      case True
      have "is_expired_note (expired_add c a (objs ! k))" for a
        using in_ns(2) by (auto simp: expired_add_def)
      with True Cons lists_add [OF c k(2) in_ns(2)] still ns in_ns overdue_set [OF c] show ?thesis
        by (simp add: bring_up_to_date_def listed_ok_def)
    next
      case False
      let ?n = "expired_remove (\<lambda>c. fst (fl ! c)) c (objs ! k)"
      have n: "is_expired_note ?n" by (simp add: expired_remove_def Let_def)
      have gone: "expired_notes (remove1 k ns) (objs[k := ?n]) = []"
        using still [OF n] by (simp add: expired_notes_def filter_remove1)
      have exactly: "lists_exactly ?fl ?n" using lists_remove [OF c k(2) in_ns(2)] False by simp
      then have "overdue ?fl = {} \<longleftrightarrow> note_coins ?n = []" by (metis lists_exactly_def set_empty)
      with False Cons exactly still [OF n] gone ns in_ns show ?thesis
        by (auto simp: bring_up_to_date_def listed_ok_def Let_def dest: set_remove1_subset [THEN subsetD])
    qed
  qed
qed

text \<open>The operations of the context, on what the notification depends on.\<close>

lemma view_fields:
  "notice_view s' = (map (\<lambda>x. (co_account x, is_overdue s' x)) (cx_coins s'), cx_notes s', cx_note_objs s')"
  by (simp add: notice_view_def)

lemma view_cong:
  assumes "cx_coins s' = cx_coins s" and "cx_notes s' = cx_notes s" and "cx_note_objs s' = cx_note_objs s"
    and "cx_watchonly s' = cx_watchonly s"
    and "\<And>a. a \<in> co_account ` set (cx_coins s) \<Longrightarrow>
      ac_network (cx_accounts s' ! a) = ac_network (cx_accounts s ! a)"
  shows "notice_view s' = notice_view s"
  using assms by (auto simp: notice_view_def is_overdue_def)

lemma expired_remove_cong:
  "(\<And>d. d \<in> insert c (set (note_coins n)) \<Longrightarrow> f d = g d) \<Longrightarrow> expired_remove f c n = expired_remove g c n"
  by (auto simp: expired_remove_def Let_def list_ex_iff)

lemma view_notes [simp]: "notice_view (s\<lparr>cx_notes := ns, cx_note_objs := objs\<rparr>) = (fst (notice_view s), ns, objs)"
  by (simp add: notice_view_def is_overdue_def)

definition is_live :: "nat \<Rightarrow> store \<Rightarrow> bool" where
  "is_live c s \<longleftrightarrow> \<not> cx_watchonly s \<and> \<not> n_electrum (ac_network (cx_accounts s ! coin_account s c))"

lemma update_not_live: "\<not> is_live c s \<Longrightarrow> fst (update_notifications c s) = s"
  by (auto simp: update_notifications_def is_live_def coin_account_def Let_def)

lemma update_live_None:
  assumes "is_live c s" and "get_expired_notification s = None"
  shows "fst (update_notifications c s) =
    (if is_overdue s (cx_coins s ! c)
     then s\<lparr>cx_notes := cx_notes s @ [length (cx_note_objs s)],
       cx_note_objs := cx_note_objs s @ [expired_add c (coin_account s c) (ExpiredNote [] [])]\<rparr>
     else s)"
  using assms
  by (simp add: update_notifications_def is_live_def is_overdue_def coin_account_def Let_def add_notification_def
      set_note_def)

lemma update_live_Some:
  assumes "is_live c s" and "get_expired_notification s = Some k"
  shows "fst (update_notifications c s) =
    (if is_overdue s (cx_coins s ! c)
     then s\<lparr>cx_notes := cx_notes s, cx_note_objs := (cx_note_objs s)[k := expired_add c (coin_account s c) (cx_note_objs s ! k)]\<rparr>
     else (let n = expired_remove (coin_account s) c (cx_note_objs s ! k)
           in s\<lparr>cx_notes := if note_coins n = [] then remove1 k (cx_notes s) else cx_notes s,
                cx_note_objs := (cx_note_objs s)[k := n]\<rparr>))"
  using assms
  by (simp add: update_notifications_def is_live_def is_overdue_def coin_account_def [of s c] Let_def
      remove_notification_def set_note_def)

lemma notified_view:
  assumes ok: "listed_ok (notice_view s)" and c: "c < length (cx_coins s)"
    and u: "\<And>x. co_account (u x) = co_account x" and live: "is_live c s"
  shows "notice_view (fst (update_notifications c (modify_coin c u s))) =
    bring_up_to_date c (is_overdue s (u (cx_coins s ! c))) (notice_view s)"
proof -
  let ?x = "cx_coins s ! c"
  define t where "t = modify_coin c u s"
  define w where "w = is_overdue s (u ?x)"
  define fl where "fl = map (\<lambda>x. (co_account x, is_overdue s x)) (cx_coins s)"
  let ?ns = "cx_notes s" and ?objs = "cx_note_objs s"
  have view: "notice_view s = (fl, ?ns, ?objs)" by (simp add: notice_view_def fl_def)
  have over: "is_overdue t = is_overdue s" by (simp add: is_overdue_def t_def modify_coin_def fun_eq_iff)
  have tc: "cx_coins t ! c = u ?x" using c by (simp add: t_def modify_coin_def)
  have flc: "c < length fl" "fst (fl ! c) = co_account ?x" using c by (simp_all add: fl_def)
  have t: "cx_notes t = ?ns" "cx_note_objs t = ?objs" "is_live c t" "coin_account t c = fst (fl ! c)"
    using live c u flc by (simp_all add: t_def modify_coin_def is_live_def coin_account_def)
  have "map (\<lambda>x. (co_account x, is_overdue s x)) (cx_coins t) = fl[c := (fst (fl ! c), w)]"
    using c by (simp add: t_def modify_coin_def map_update fl_def w_def u)
  then have ft: "fst (notice_view t) = fl[c := (fst (fl ! c), w)]" by (simp add: notice_view_def over)
  have wt: "is_overdue t (cx_coins t ! c) = w" by (simp add: over tc w_def)
  have acc: "coin_account t d = fst (fl ! d)" if "d < length (cx_coins s)" for d
    using that c u by (cases "d = c") (simp_all add: coin_account_def t_def modify_coin_def fl_def)
  have "notice_view (fst (update_notifications c t)) = bring_up_to_date c w (fl, ?ns, ?objs)"
  proof (cases "expired_notes ?ns ?objs")
    case Nil
    then have "get_expired_notification t = None" by (simp add: get_expired_eq t)
    from update_live_None [OF t(3) this] Nil ft show ?thesis
      by (simp add: wt t bring_up_to_date_def) (simp add: notice_view_def t)
  next
    case (Cons k ks)
    then have k: "get_expired_notification t = Some k" by (simp add: get_expired_eq t)
    from Cons have "lists_exactly fl (?objs ! k)" using ok by (simp add: listed_ok_def view)
    then have "set (note_coins (?objs ! k)) \<subseteq> {..<length (cx_coins s)}"
      by (auto simp: lists_exactly_def overdue_def fl_def)
    then have rem: "expired_remove (coin_account t) c (?objs ! k) = expired_remove (\<lambda>d. fst (fl ! d)) c (?objs ! k)"
      by (intro expired_remove_cong acc) (use c in auto)
    from update_live_Some [OF t(3) k] Cons ft rem show ?thesis
      by (simp add: wt t bring_up_to_date_def Let_def)
  qed
  then show ?thesis by (simp add: t_def w_def view)
qed

lemma notified_ok:
  assumes ok: "listed_ok (notice_view s)" and c: "c < length (cx_coins s)"
    and u: "\<And>x. co_account (u x) = co_account x"
  shows "listed_ok (notice_view (fst (update_notifications c (modify_coin c u s))))"
proof (cases "is_live c s")
  case False
  let ?x = "cx_coins s ! c" and ?s = "modify_coin c u s"
  have "is_overdue s (u ?x) = is_overdue s ?x" using False u by (auto simp: is_overdue_def is_live_def coin_account_def)
  then have "map (\<lambda>x. (co_account x, is_overdue s x)) ((cx_coins s)[c := u ?x]) =
      map (\<lambda>x. (co_account x, is_overdue s x)) (cx_coins s)"
    using c by (simp add: map_update u list_update_same_conv)
  moreover have "is_overdue ?s = is_overdue s" by (simp add: is_overdue_def modify_coin_def fun_eq_iff)
  ultimately have "notice_view ?s = notice_view s" by (simp add: notice_view_def) (simp add: modify_coin_def)
  moreover have "\<not> is_live c ?s"
    using False c u by (simp add: is_live_def coin_account_def modify_coin_def)
  ultimately show ?thesis using ok by (simp add: update_not_live)
next
  case True
  show ?thesis
    unfolding notified_view [OF ok c u True]
    by (cases "notice_view s") (use ok c listed_update in \<open>auto simp: notice_view_def\<close>)
qed

section \<open>The interface, on the notification and on coins that are spent\<close>

lemma view_modify_coin:
  assumes "\<And>x. co_account (u x) = co_account x" "\<And>x. co_expired (u x) = co_expired x"
    "\<And>x. co_spending (u x) = co_spending x"
  shows "notice_view (modify_coin c u s) = notice_view s"
proof (cases "c < length (cx_coins s)")
  case True
  have "is_overdue (modify_coin c u s) = is_overdue s" by (simp add: is_overdue_def modify_coin_def fun_eq_iff)
  then show ?thesis using True assms
    by (simp add: notice_view_def)
      (simp add: modify_coin_def map_update list_update_same_conv is_overdue_def)
qed simp

lemma view_modify_account:
  "(\<And>x. ac_network (f x) = ac_network x) \<Longrightarrow> notice_view (modify_account a f s) = notice_view s"
proof (cases "a < length (cx_accounts s)")
  case True
  assume f: "\<And>x. ac_network (f x) = ac_network x"
  show ?thesis
    by (rule view_cong) (simp_all add: modify_account_def nth_list_update True f)
qed simp

lemma view_new_coin:
  "listed_ok (notice_view s) \<Longrightarrow> listed_ok (notice_view (s\<lparr>cx_coins := cx_coins s @ [new_coin a]\<rparr>))"
proof -
  have view: "notice_view (s\<lparr>cx_coins := cx_coins s @ [new_coin a]\<rparr>) =
      (fst (notice_view s) @ [(a, False)], cx_notes s, cx_note_objs s)"
    by (simp add: notice_view_def is_overdue_def new_coin_def)
  have over: "overdue (fl @ [(a, False)]) = overdue fl" for fl
    by (auto simp: overdue_def nth_append less_Suc_eq)
  have "(\<lambda>c. fst ((fl @ [(a, False)]) ! c)) ` overdue fl = (\<lambda>c. fst (fl ! c)) ` overdue fl" for fl
    by (rule image_cong) (auto simp: overdue_def nth_append)
  then have "lists_exactly (fl @ [(a, False)]) n \<longleftrightarrow> lists_exactly fl n" for fl n
    by (simp add: lists_exactly_def over)
  then show "listed_ok (notice_view s) \<Longrightarrow> listed_ok (notice_view (s\<lparr>cx_coins := cx_coins s @ [new_coin a]\<rparr>))"
    unfolding view by (auto simp: listed_ok_def over notice_view_def split: list.splits)
qed

lemma view_add_note:
  "listed_ok (notice_view s) \<Longrightarrow> \<not> is_expired_note n \<Longrightarrow>
    listed_ok (notice_view (fst (snd (add_notification n s))))"
  using listed_note_added [of "fst (notice_view s)" "cx_notes s" "cx_note_objs s" n]
  by (simp add: notice_view_def add_notification_def Let_def is_overdue_def)

lemma view_remove_note:
  "listed_ok (notice_view s) \<Longrightarrow> \<not> is_expired_note (cx_note_objs s ! k) \<Longrightarrow>
    listed_ok (notice_view (fst (remove_notification k s)))"
  using listed_note_removed [of "fst (notice_view s)" "cx_notes s" "cx_note_objs s" k]
  by (simp add: notice_view_def remove_notification_def is_overdue_def)

lemma view_set_note:
  "listed_ok (notice_view s) \<Longrightarrow> \<not> is_expired_note (cx_note_objs s ! k) \<Longrightarrow> \<not> is_expired_note n \<Longrightarrow>
    listed_ok (notice_view (set_note k n s))"
  using listed_note_set [of "fst (notice_view s)" "cx_notes s" "cx_note_objs s" k n]
  by (simp add: notice_view_def set_note_def is_overdue_def)

lemma view_outage [simp]: "notice_view (s\<lparr>cx_outage := k\<rparr>) = notice_view s"
  by (simp add: notice_view_def is_overdue_def)

lemma outage_not_expired: "is_outage_note n \<Longrightarrow> \<not> is_expired_note n"
  by (cases n) simp_all

lemma listed_outage:
  assumes ok: "objects_ok s" "listed_ok (notice_view s)"
  shows "listed_ok (notice_view (fst (add_outage net s)))" "listed_ok (notice_view (fst (remove_outage net s)))"
proof -
  have old: "listed_ok (notice_view (set_note k (OutageNote ns) s))" if "cx_outage s = Some k" for k ns
    using objectsD(5) [OF ok(1) that] by (intro view_set_note ok(2)) (simp_all add: outage_not_expired)
  let ?k = "length (cx_note_objs s)"
  let ?s = "(fst (snd (add_notification (OutageNote []) s)))\<lparr>cx_outage := Some ?k\<rparr>"
  have at: "cx_note_objs (fst (snd (add_notification (OutageNote []) s))) ! ?k = OutageNote []"
    by (simp add: add_notification_def Let_def)
  have first: "listed_ok (notice_view ?s)" by (simp add: view_add_note [OF ok(2)])
  then have "listed_ok (notice_view (set_note ?k (OutageNote ns) ?s))" for ns
    by (rule view_set_note) (simp_all add: at)
  with first at old ok(2) show "listed_ok (notice_view (fst (add_outage net s)))"
    by (cases "cx_outage s") (simp_all add: add_outage_def Let_def case_prod_beta add_notification_def)
  have "listed_ok (notice_view (fst (remove_notification k (set_note k (OutageNote ns) s))))"
    if "cx_outage s = Some k" for k ns
    by (rule view_remove_note [OF old [OF that]]) (use objectsD(5) [OF ok(1) that] in \<open>simp add: set_note_def\<close>)
  with old ok(2) show "listed_ok (notice_view (fst (remove_outage net s)))"
    by (cases "cx_outage s") (simp_all add: remove_outage_def Let_def case_prod_beta)
qed

lemma listed_marked:
  assumes "listed_ok (notice_view s)" and "c < length (cx_coins s)"
  shows "listed_ok (notice_view (fst (set_expired c b s)))"
    "listed_ok (notice_view (fst (set_spending_transaction c t s)))"
  using assms notified_ok [OF assms, of "\<lambda>x. x\<lparr>co_expired := b\<rparr>"] notified_ok [OF assms, of "\<lambda>x. x\<lparr>co_spending := Some t\<rparr>"]
  by (simp_all add: set_expired_def set_spending_transaction_def)

interpretation notices: coin_invariant "\<lambda>s. objects_ok s \<and> listed_ok (notice_view s)"
proof unfold_locales
  show "objects_ok (s\<lparr>cx_accounts := cx_accounts s @ [new_account n p]\<rparr>) \<and>
      listed_ok (notice_view (s\<lparr>cx_accounts := cx_accounts s @ [new_account n p]\<rparr>))"
    if "objects_ok s \<and> listed_ok (notice_view s)" for s n p
  proof -
    have "notice_view (s\<lparr>cx_accounts := cx_accounts s @ [new_account n p]\<rparr>) = notice_view s"
      by (rule view_cong) (use that in \<open>auto simp: objects_ok_def list_all_iff nth_append\<close>)
    with that indices.account_new show ?thesis by simp
  qed
  show "objects_ok (modify_account a (\<lambda>x. x\<lparr>ac_txs := qm_insert h (length (cx_txs s)) (ac_txs x)\<rparr>)
        (s\<lparr>cx_txs := cx_txs s @ [new_account_tx h a]\<rparr>)) \<and>
      listed_ok (notice_view (modify_account a (\<lambda>x. x\<lparr>ac_txs := qm_insert h (length (cx_txs s)) (ac_txs x)\<rparr>)
        (s\<lparr>cx_txs := cx_txs s @ [new_account_tx h a]\<rparr>)))"
    if "objects_ok s \<and> listed_ok (notice_view s)" "a < length (cx_accounts s)" for s h a
  proof -
    have "notice_view (s\<lparr>cx_txs := cx_txs s @ [new_account_tx h a]\<rparr>) = notice_view s"
      by (rule view_cong) simp_all
    with that indices.tx_new show ?thesis by (simp add: view_modify_account)
  qed
  show "objects_ok (modify_tx t g s) \<and> listed_ok (notice_view (modify_tx t g s))"
    if "\<And>x. at_account (g x) = at_account x" "objects_ok s \<and> listed_ok (notice_view s)"
    for g :: "account_tx \<Rightarrow> account_tx" and s t
  proof -
    have "notice_view (modify_tx t g s) = notice_view s" by (rule view_cong) (simp_all add: modify_tx_def)
    with that indices.tx_changed show ?thesis by simp
  qed
qed (simp_all add: indices.account_fields indices.account_out indices.coin_data indices.coin_new
    indices.coin_expired indices.coin_spent indices.note_added indices.outage view_modify_account view_modify_coin
    view_new_coin listed_marked view_add_note view_remove_note listed_outage,
    simp_all add: notice_view_def is_overdue_def)

lemma update_notifications_coins [simp]: "cx_coins (fst (update_notifications c s)) = cx_coins s"
  by (simp add: update_notifications_def set_note_def remove_notification_def add_notification_def Let_def
      case_prod_beta split: option.split)

section \<open>Runs\<close>

interpretation notices_run: keeps store_step "\<lambda>e. True" "\<lambda>s. objects_ok s \<and> listed_ok (notice_view s)"
  by unfold_locales (rule notices.inv_step)

lemma new_store_notices [simp]:
  "objects_ok (new_store st w d c wo)" "listed_ok (notice_view (new_store st w d c wo))"
  by (simp_all add: objects_ok_def outage_ok_def listed_ok_def notice_view_def expired_notes_def overdue_def
      new_store_def)

end
