(* ===== verification/Context_Marks.thy ===== *)
theory Context_Marks
  imports Context_Coins
begin

text \<open>
  What a context knows of its coins: \<open>inputs_spent\<close>, the inputs of every transaction it has are marked
  as spent, and \<open>marks_ok\<close>, whether a coin is marked as expired agrees with its expiry height and
  the block its session has seen.  Both are invariants of the store (\<open>store_steps\<close>); the first looks
  at the data of transactions and the second at sessions, which \<open>coin_invariant\<close> rules out.
\<close>

section \<open>Coins that are spent\<close>

text \<open>The account finds this coin under the key, and it is spent if that is asked for; it then stays so.\<close>

definition found_coin :: "bool \<Rightarrow> nat \<Rightarrow> string \<times> int \<Rightarrow> nat \<Rightarrow> store \<Rightarrow> bool" where
  "found_coin p a k c s \<longleftrightarrow> objects_ok s \<and> a < length (cx_accounts s) \<and>
     map_of (ac_outs (cx_accounts s ! a)) k = Some c \<and>
     c < length (cx_coins s) \<and> (p \<longrightarrow> co_spending (cx_coins s ! c) \<noteq> None)"

abbreviation found_spent :: "nat \<Rightarrow> string \<times> int \<Rightarrow> nat \<Rightarrow> store \<Rightarrow> bool" where
  "found_spent \<equiv> found_coin True"

lemma found_modify_account:
  assumes "\<And>x. ac_network (f x) = ac_network x" "\<And>x. ac_txs (f x) = ac_txs x" "\<And>x. ac_outs (f x) = ac_outs x"
    and "found_coin p a k c s"
  shows "found_coin p a k c (modify_account e f s)"
proof (cases "e < length (cx_accounts s)")
  case True
  have "objects_ok (modify_account e f s)"
    by (rule indices.account_kept) (use assms in \<open>simp_all add: found_coin_def\<close>)
  with True assms show ?thesis
    by (cases "e = a") (simp_all add: found_coin_def modify_account_def)
qed (use assms in simp)

lemma found_modify_coin:
  assumes "\<And>x. co_spending x \<noteq> None \<Longrightarrow> co_spending (u x) \<noteq> None" "\<And>x. co_account (u x) = co_account x"
    and "found_coin p a k c s"
  shows "found_coin p a k c (modify_coin d u s)"
proof (cases "d < length (cx_coins s)")
  case True
  have "objects_ok (modify_coin d u s)"
    by (rule objects_coin) (use assms in \<open>simp_all add: found_coin_def\<close>)
  with True assms show ?thesis
    by (cases "d = c") (auto simp: found_coin_def modify_coin_def)
qed (use assms in simp)

lemma found_update_notifications:
  "found_coin p a k c s \<Longrightarrow> found_coin p a k c (fst (update_notifications d s))"
  using update_notifications_objects by (simp add: found_coin_def)

lemma found_marked:
  assumes "found_coin p a k c s"
  shows "found_coin p a k c (fst (set_expired d b s))" "found_coin p a k c (fst (set_spending_transaction d t s))"
  using assms found_update_notifications found_modify_coin [of "\<lambda>x. x\<lparr>co_expired := b\<rparr>" p a k c s d]
    found_modify_coin [of "\<lambda>x. x\<lparr>co_spending := Some t\<rparr>" p a k c s d]
  by (simp_all add: set_expired_def set_spending_transaction_def)

interpretation found: coin_invariant "found_coin p a k c" for p a k c
proof unfold_locales
  show "found_coin p a k c (modify_account e f s)"
    if "\<And>x. ac_network (f x) = ac_network x" "\<And>x. ac_txs (f x) = ac_txs x" "\<And>x. ac_outs (f x) = ac_outs x"
      "found_coin p a k c s" for f :: "account \<Rightarrow> account" and s e
    by (rule found_modify_account [OF that])
  show "found_coin p a k c (s\<lparr>cx_accounts := cx_accounts s @ [new_account n q]\<rparr>)" if "found_coin p a k c s" for s n q
    using that indices.account_made [of s n q] by (simp add: found_coin_def nth_append)
  show "found_coin p a k c (modify_account e (\<lambda>x. x\<lparr>ac_outs := qm_insert key d (ac_outs x)\<rparr>) s)"
    if "found_coin p a k c s" "d < length (cx_coins s)" "map_of (ac_outs (cx_accounts s ! e)) key = None" for s d e key
  proof (cases "e < length (cx_accounts s)")
    case True
    have "objects_ok (modify_account e (\<lambda>x. x\<lparr>ac_outs := qm_insert key d (ac_outs x)\<rparr>) s)"
      using that by (intro indices.account_out) (simp_all add: found_coin_def)
    with that True show ?thesis
      by (cases "e = a") (auto simp: found_coin_def modify_account_def qm_find_insert)
  qed (use that in simp)
  show "found_coin p a k c (modify_tx t g s)" if "\<And>x. at_account (g x) = at_account x" "found_coin p a k c s"
    for g :: "account_tx \<Rightarrow> account_tx" and s t
    using that indices.tx_kept [of g s t] by (simp add: found_coin_def)
  show "found_coin p a k c (modify_account e (\<lambda>x. x\<lparr>ac_txs := qm_insert h (length (cx_txs s)) (ac_txs x)\<rparr>)
      (s\<lparr>cx_txs := cx_txs s @ [new_account_tx h e]\<rparr>))"
    if "found_coin p a k c s" "e < length (cx_accounts s)" for s e h
    using that indices.tx_made [of s e h]
    by (cases "e = a") (simp_all add: found_coin_def modify_account_def)
  show "found_coin p a k c (modify_coin d u s)"
    if "\<And>x. co_account (u x) = co_account x" "\<And>x. co_expired (u x) = co_expired x"
      "\<And>x. co_spending (u x) = co_spending x" "found_coin p a k c s" for u :: "coin \<Rightarrow> coin" and s d
    by (rule found_modify_coin) (simp_all add: that)
  show "found_coin p a k c (s\<lparr>cx_coins := cx_coins s @ [new_coin b]\<rparr>)"
    if "found_coin p a k c s" "b < length (cx_accounts s)" for s b
    using that indices.coin_new [of s b] by (simp add: found_coin_def nth_append)
  show "found_coin p a k c (fst (snd (add_notification n s)))" if "found_coin p a k c s" for s n
    using that add_note_objects [of s n] by (simp add: found_coin_def add_notification_def Let_def)
  show "found_coin p a k c (fst (add_outage n s))" "found_coin p a k c (fst (remove_outage n s))"
    if "found_coin p a k c s" for s n
    using that indices.outage_kept [of s n]
    by (simp_all add: found_coin_def add_outage_def remove_outage_def add_notification_def remove_notification_def
        set_note_def Let_def case_prod_beta split: option.split)
  show "found_coin p a k c (fst (remove_notification n s))" if "found_coin p a k c s" for s n
    using that remove_note_objects [of n s] by (simp add: found_coin_def remove_notification_def)
qed (simp_all add: found_marked, simp_all add: found_coin_def)

text \<open>After an account has found or made a coin, it finds it.\<close>

lemma output_found:
  assumes "objects_ok s" and "a < length (cx_accounts s)" and "get_or_create_output a d s = (c, s1, out)"
  shows "map_of (ac_outs (cx_accounts s1 ! a)) (output_key d) = Some c"
  using assms
  by (auto simp: get_or_create_output_def get_output_def Let_def case_prod_beta add_coin_def frame_simps
      modify_account_def qm_find_insert split: option.splits)

lemma coin_found:
  assumes "objects_ok s" and "a < length (cx_accounts s)" and "get_or_create_output a d s = (c, s1, out)"
  shows "found_coin False a (output_key d) c s1"
proof -
  have "objects_ok s1" "length (cx_accounts s1) = length (cx_accounts s)"
    using indices.coin_got [OF assms(1,2), of d] accounts.get_or_create_output [of a d s] assms(3) by simp_all
  then show ?thesis
    using output_found [OF assms] get_or_create_output_count [OF assms] assms(2) by (simp add: found_coin_def)
qed

lemma input_spent:
  assumes "objects_ok s" and "a < length (cx_accounts s)" and "get_or_create_output a d s = (c, s1, out)"
  shows "found_spent a (output_key d) c (fst (set_spending_transaction c t s1))"
proof -
  have "found_coin False a (output_key d) c s1" by (rule coin_found [OF assms])
  then show ?thesis
    using indices.coin_spent [of s1 c t] by (simp add: found_coin_def set_spending_transaction_def modify_coin_def)
qed

lemma inputs_found:
  assumes "objects_ok s" and "a < length (cx_accounts s)" and "v \<in> set vs"
  shows "\<exists>c. found_spent a (output_key (to_object v)) c (fst (spend_inputs a t vs s))"
  using assms
proof (induction vs arbitrary: s)
  case (Cons w vs)
  obtain c s1 out where step: "get_or_create_output a (to_object w) s = (c, s1, out)"
    by (cases "get_or_create_output a (to_object w) s") auto
  let ?s = "fst (set_spending_transaction c t s1)"
  have first: "found_spent a (output_key (to_object w)) c ?s" by (rule input_spent [OF Cons.prems(1,2) step])
  then have ok: "objects_ok ?s" "a < length (cx_accounts ?s)" by (simp_all add: found_coin_def)
  show ?case
  proof (cases "v = w")
    case True
    with found.inv_spend_inputs [OF first ok(2), of t vs] show ?thesis by (auto simp: step case_prod_beta Let_def)
  next
    case False
    with Cons.IH [OF ok] Cons.prems(3) show ?thesis by (simp add: step case_prod_beta Let_def)
  qed
qed simp

section \<open>The inputs of transactions\<close>

definition tx_inputs :: "jobject \<Rightarrow> json list" where
  "tx_inputs d = to_array (jvalue d ''inputs'')"

text \<open>Accounts find transactions of their own.\<close>

definition own_txs :: "store \<Rightarrow> bool" where
  "own_txs s \<longleftrightarrow> objects_ok s \<and> (\<forall>a < length (cx_accounts s). \<forall>h t.
     map_of (ac_txs (cx_accounts s ! a)) h = Some t \<longrightarrow> at_account (cx_txs s ! t) = a)"

lemma own_modify_account:
  assumes "\<And>x. ac_txs (f x) = ac_txs x" and "own_txs s" and "objects_ok (modify_account a f s)"
  shows "own_txs (modify_account a f s)"
  using assms by (cases "a < length (cx_accounts s)") (auto simp: own_txs_def modify_account_def nth_list_update)

lemma own_same:
  "own_txs s \<Longrightarrow> objects_ok s' \<Longrightarrow> cx_accounts s' = cx_accounts s \<Longrightarrow> cx_txs s' = cx_txs s \<Longrightarrow> own_txs s'"
  by (simp add: own_txs_def)

lemma coin_txs [simp]:
  "cx_txs (modify_coin c f s) = cx_txs s"
  "cx_txs (fst (update_notifications c s)) = cx_txs s"
  "cx_txs (fst (set_expired c b s)) = cx_txs s"
  "cx_txs (fst (set_spending_transaction c t s)) = cx_txs s"
  by (simp_all add: modify_coin_def update_notifications_def set_expired_def set_spending_transaction_def
      set_note_def remove_notification_def add_notification_def Let_def case_prod_beta split: option.split)

lemma note_txs [simp]:
  "cx_txs (fst (snd (add_notification n s))) = cx_txs s" "cx_txs (fst (remove_notification k s)) = cx_txs s"
  "cx_txs (fst (add_outage m s)) = cx_txs s" "cx_txs (fst (remove_outage m s)) = cx_txs s"
  "cx_accounts (fst (snd (add_notification n s))) = cx_accounts s"
  "cx_accounts (fst (remove_notification k s)) = cx_accounts s"
  "cx_accounts (fst (add_outage m s)) = cx_accounts s" "cx_accounts (fst (remove_outage m s)) = cx_accounts s"
  by (simp_all add: add_outage_def remove_outage_def add_notification_def remove_notification_def
      set_note_def Let_def case_prod_beta split: option.split)

interpretation own: coin_invariant own_txs
proof unfold_locales
  show "own_txs (modify_account a f s)"
    if "\<And>x. ac_network (f x) = ac_network x" "\<And>x. ac_txs (f x) = ac_txs x" "\<And>x. ac_outs (f x) = ac_outs x"
      "own_txs s" for f :: "account \<Rightarrow> account" and s a
    using that indices.account_kept [of f s a] by (intro own_modify_account) (simp_all add: own_txs_def)
  show "own_txs (s\<lparr>cx_accounts := cx_accounts s @ [new_account n p]\<rparr>)" if "own_txs s" for s n p
    using that indices.account_made [of s n p]
    by (auto simp: own_txs_def nth_append new_account_def less_Suc_eq)
  show "own_txs (modify_account a (\<lambda>x. x\<lparr>ac_outs := qm_insert k c (ac_outs x)\<rparr>) s)"
    if "own_txs s" "c < length (cx_coins s)" "map_of (ac_outs (cx_accounts s ! a)) k = None" for s c a k
    using that indices.account_out [of s c a k] by (intro own_modify_account) (simp_all add: own_txs_def)
  show "own_txs (modify_tx t g s)" if "\<And>x. at_account (g x) = at_account x" "own_txs s"
    for g :: "account_tx \<Rightarrow> account_tx" and s t
  proof -
    have "at_account (cx_txs (modify_tx t g s) ! u) = at_account (cx_txs s ! u)" for u
      by (rule nth_modify_any) (rule that(1))
    with that indices.tx_kept [of g s t] show ?thesis by (simp add: own_txs_def)
  qed
  show "own_txs (modify_account a (\<lambda>x. x\<lparr>ac_txs := qm_insert h (length (cx_txs s)) (ac_txs x)\<rparr>)
      (s\<lparr>cx_txs := cx_txs s @ [new_account_tx h a]\<rparr>))"
    if "own_txs s" "a < length (cx_accounts s)" for s a h
  proof -
    have "t < length (cx_txs s)" if "b < length (cx_accounts s)" "map_of (ac_txs (cx_accounts s ! b)) k = Some t" for b k t
      using objectsD(3) that \<open>own_txs s\<close> by (simp add: own_txs_def)
    with that indices.tx_made [of s a h] show ?thesis
      by (auto simp: own_txs_def modify_account_def nth_list_update qm_find_insert nth_append new_account_tx_def)
  qed
qed (auto intro: own_same simp: own_txs_def indices.coin_data indices.coin_new indices.coin_expired
    indices.coin_marked indices.notice_added indices.notice_gone indices.outage_kept)

text \<open>The inputs of a transaction are spent.\<close>

definition spends :: "store \<Rightarrow> nat \<Rightarrow> bool" where
  "spends s t \<longleftrightarrow> (\<forall>v \<in> set (tx_inputs (at_data (cx_txs s ! t))).
     \<exists>c. found_spent (at_account (cx_txs s ! t)) (output_key (to_object v)) c s)"

definition inputs_spent :: "nat set \<Rightarrow> store \<Rightarrow> bool" where
  "inputs_spent K s \<longleftrightarrow> own_txs s \<and> (\<forall>t < length (cx_txs s). t \<notin> K \<longrightarrow> spends s t)"

lemma spends_kept:
  assumes "spends s t" and "at_account (cx_txs s' ! t) = at_account (cx_txs s ! t)"
    and "at_data (cx_txs s' ! t) = at_data (cx_txs s ! t)"
    and "\<And>a k c. found_spent a k c s \<Longrightarrow> found_spent a k c s'"
  shows "spends s' t"
  using assms unfolding spends_def by metis

lemma inputs_same:
  assumes "inputs_spent K s" and "own_txs s'" and "cx_txs s' = cx_txs s"
    and "\<And>a k c. found_spent a k c s \<Longrightarrow> found_spent a k c s'"
  shows "inputs_spent K s'"
  using assms spends_kept [of s _ s'] by (simp add: inputs_spent_def)

lemma inputs_own: "inputs_spent K s \<Longrightarrow> own_txs s" "inputs_spent K s \<Longrightarrow> objects_ok s"
  by (simp_all add: inputs_spent_def own_txs_def)

interpretation inputs_steps: coin_steps "inputs_spent K" for K
proof unfold_locales
  show "inputs_spent K (fst (snd (get_or_create_output a d s)))"
    if "inputs_spent K s" "a < length (cx_accounts s)" for s a d
    by (rule inputs_same [OF that(1)])
      (use that in \<open>simp_all add: own.coin_got inputs_own, simp add: found.coin_got\<close>)
  show "inputs_spent K (fst (set_spending_transaction c t s))"
    if "inputs_spent K s" "c < length (cx_coins s)" for s c t
    by (rule inputs_same [OF that(1)]) (use that in \<open>simp_all add: own.coin_spent inputs_own found.coin_spent\<close>)
qed (simp add: inputs_own)

lemma inputs_tx_for:
  assumes ok: "inputs_spent {} s" and a: "a < length (cx_accounts s)" and step: "account_tx_for a h s = (t, s1)"
  shows "inputs_spent {} s1" and "t < length (cx_txs s1)" and "at_account (cx_txs s1 ! t) = a"
    and "a < length (cx_accounts s1)" and "found_spent b k c s \<Longrightarrow> found_spent b k c s1"
proof -
  have own: "own_txs s" and obj: "objects_ok s" using inputs_own [OF ok] by simp_all
  have all: "inputs_spent {} s1 \<and> t < length (cx_txs s1) \<and> at_account (cx_txs s1 ! t) = a \<and>
      a < length (cx_accounts s1) \<and> (\<forall>b k c. found_spent b k c s \<longrightarrow> found_spent b k c s1)"
  proof (cases "map_of (ac_txs (cx_accounts s ! a)) h")
    case (Some u)
    then have "u < length (cx_txs s)" "at_account (cx_txs s ! u) = a"
      using objectsD(3) [OF obj a] own a by (simp_all add: own_txs_def)
    with Some step ok a show ?thesis by (simp add: account_tx_for_def)
  next
    case None
    let ?s = "get_or_create_chain_transaction h s"
    let ?u = "length (cx_txs s)"
    let ?s1 = "modify_account a (\<lambda>x. x\<lparr>ac_txs := qm_insert h (length (cx_txs ?s)) (ac_txs x)\<rparr>)
      (?s\<lparr>cx_txs := cx_txs ?s @ [new_account_tx h a]\<rparr>)"
    have s: "cx_txs ?s = cx_txs s" "cx_accounts ?s = cx_accounts s" "own_txs ?s"
      "\<And>b k c. found_spent b k c s \<Longrightarrow> found_spent b k c ?s"
      using own by (simp_all add: get_or_create_chain_transaction_def)
    have s1: "s1 = ?s1" "t = ?u" using None step by (auto simp: account_tx_for_def Let_def s)
    have own1: "own_txs ?s1" by (rule own.tx_new) (use s a in simp_all)
    have found1: "found_spent b k c ?s1" if "found_spent b k c s" for b k c
      by (rule found.tx_new) (use s a that in simp_all)
    have "spends ?s1 u" if "u < length (cx_txs ?s1)" for u
    proof (cases "u = ?u")
      case True
      then show ?thesis by (simp add: spends_def s new_account_tx_def tx_inputs_def jvalue_def)
    next
      case False
      with that have u: "u < ?u" by (simp add: s)
      show ?thesis
        by (rule spends_kept [of s]) (use ok u found1 in \<open>simp_all add: inputs_spent_def s nth_append\<close>)
    qed
    with own1 found1 a show ?thesis by (simp add: s1 inputs_spent_def) (simp add: s new_account_tx_def)
  qed
  then show "inputs_spent {} s1" "t < length (cx_txs s1)" "at_account (cx_txs s1 ! t) = a"
    "a < length (cx_accounts s1)" "found_spent b k c s \<Longrightarrow> found_spent b k c s1" by blast+
qed

lemma inputs_updated:
  assumes ok: "inputs_spent {} s" and t: "t < length (cx_txs s)" "at_account (cx_txs s ! t) = a"
    and a: "a < length (cx_accounts s)"
  shows "inputs_spent {} (fst (tx_update_from_data t d s))"
    and "v \<in> set (tx_inputs d) \<Longrightarrow>
      \<exists>c. found_spent a (output_key (to_object v)) c (fst (tx_update_from_data t d s))"
proof -
  let ?r = "fst (tx_update_from_data t d s)"
  have "inputs_spent {} ?r \<and>
    (\<forall>v \<in> set (tx_inputs d). \<exists>c. found_spent a (output_key (to_object v)) c ?r)"
  proof (cases "at_data (cx_txs s ! t) = d")
    case True
    with ok t show ?thesis by (auto simp: tx_update_from_data_def inputs_spent_def spends_def)
  next
    case False
    let ?f = "\<lambda>x. x\<lparr>at_data := d, at_type := parse_tx_type (to_string (jvalue d ''type'')),
      at_memo := to_string (jvalue d ''memo'')\<rparr>"
    let ?s = "modify_tx t ?f s"
    have r: "?r = fst (spend_inputs a t (tx_inputs d) ?s)"
      using False t by (simp add: tx_update_from_data_def tx_inputs_def)
    have own: "own_txs ?s" by (rule own.tx_changed) (use inputs_own [OF ok] in simp_all)
    have found: "found_spent b k c ?s" if "found_spent b k c s" for b k c
      by (rule found.tx_changed) (use that in simp_all)
    have "inputs_spent {t} ?s"
      using ok own spends_kept [of s _ ?s] found by (simp add: inputs_spent_def nth_modify_tx)
    then have rest: "inputs_spent {t} ?r" unfolding r by (rule inputs_steps.inv_spend_inputs) (use a in simp)
    have now: "\<exists>c. found_spent a (output_key (to_object v)) c ?r" if "v \<in> set (tx_inputs d)" for v
      unfolding r by (rule inputs_found) (use own a that in \<open>simp_all add: own_txs_def\<close>)
    have "cx_txs ?r = cx_txs ?s" unfolding r by simp
    then have "spends ?r t" using now t by (simp add: spends_def nth_modify_tx)
    with rest now show ?thesis by (auto simp: inputs_spent_def)
  qed
  then show "inputs_spent {} ?r" "v \<in> set (tx_inputs d) \<Longrightarrow> \<exists>c. found_spent a (output_key (to_object v)) c ?r"
    by simp_all
qed

lemma inputs_tx_got:
  assumes ok: "inputs_spent {} s" and a: "a < length (cx_accounts s)"
  shows "inputs_spent {} (fst (snd (get_or_create_transaction now a d s)))"
    and "v \<in> set (tx_inputs d) \<Longrightarrow>
      \<exists>c. found_spent a (output_key (to_object v)) c (fst (snd (get_or_create_transaction now a d s)))"
proof -
  obtain t s1 where one: "account_tx_for a (to_string (jvalue d ''txhash'')) s = (t, s1)" by force
  note s1 = inputs_tx_for [OF ok a one]
  let ?s2 = "fst (tx_update_from_data t d s1)"
  have s3: "fst (snd (get_or_create_transaction now a d s)) = add_transaction now t ?s2"
    by (simp add: get_or_create_transaction_def one case_prod_beta)
  have found: "found_spent b k c (add_transaction now t s) \<longleftrightarrow> found_spent b k c s"
    "own_txs (add_transaction now t s) \<longleftrightarrow> own_txs s" for b k c s
    by (simp_all add: add_transaction_def Let_def)
  have "inputs_spent {} (add_transaction now t s) \<longleftrightarrow> inputs_spent {} s" for s
    by (simp add: inputs_spent_def spends_def found)
  with inputs_updated [OF s1(1-4), where d = d] show
    "inputs_spent {} (fst (snd (get_or_create_transaction now a d s)))"
    "v \<in> set (tx_inputs d) \<Longrightarrow>
      \<exists>c. found_spent a (output_key (to_object v)) c (fst (snd (get_or_create_transaction now a d s)))"
    by (simp_all add: s3 found)
qed

interpretation inputs: store_invariant "inputs_spent {}"
proof unfold_locales
  show "inputs_spent {} (modify_account a f s)"
    if "\<And>x. ac_network (f x) = ac_network x" "\<And>x. ac_txs (f x) = ac_txs x" "\<And>x. ac_outs (f x) = ac_outs x"
      "inputs_spent {} s" for f :: "account \<Rightarrow> account" and s a
    by (rule inputs_same [OF that(4)]) (use that in \<open>simp_all add: own.account_kept found.account_kept inputs_own\<close>)
  show "inputs_spent {} (modify_tx t g s)"
    if g: "\<And>x. at_account (g x) = at_account x" "\<And>x. at_data (g x) = at_data x" "inputs_spent {} s"
    for g :: "account_tx \<Rightarrow> account_tx" and s t
  proof -
    have "spends (modify_tx t g s) u" if "u < length (cx_txs s)" for u
      by (rule spends_kept [of s]) (use that g in \<open>simp_all add: inputs_spent_def nth_modify_tx found.tx_kept\<close>)
    with g show ?thesis by (simp add: inputs_spent_def own.tx_kept)
  qed
  show "inputs_spent {} (fst (snd (get_or_create_session n s)))" "inputs_spent {} (fst (release_session i s))"
    if "inputs_spent {} s" for s n i
    by (rule inputs_same [OF that]; use inputs_own [OF that] in simp)+
  show "inputs_spent {} (s\<lparr>cx_accounts := cx_accounts s @ [new_account n p]\<rparr>)" if "inputs_spent {} s" for s n p
    by (rule inputs_same [OF that]) (use inputs_own [OF that] in \<open>simp_all add: own.account_made found.account_made\<close>)
  show "inputs_spent {} (fst (coin_update c s))" if "inputs_spent {} s" "c < length (cx_coins s)" for s c
    by (rule inputs_same [OF that(1)])
      (use that inputs_own [OF that(1)] in \<open>simp_all add: own.coin_refreshed found.coin_refreshed\<close>)
  show "inputs_spent {} (fst (update_expired c s))" if "inputs_spent {} s" "c < length (cx_coins s)" for s c
    by (rule inputs_same [OF that(1)])
      (use that inputs_own [OF that(1)] in \<open>simp_all add: own.coin_expires found.coin_expires\<close>)
  show "inputs_spent {} (fst (snd (add_notification n s)))" if "inputs_spent {} s" "\<not> is_expired_note n" for s n
    by (rule inputs_same [OF that(1)])
      (use that inputs_own [OF that(1)] in \<open>simp_all add: own.note_added found.note_added\<close>)
  show "inputs_spent {} (fst (remove_notification k s))"
    if "inputs_spent {} s" "\<not> is_expired_note (cx_note_objs s ! k)" for s k
    by (rule inputs_same [OF that(1)])
      (use that inputs_own [OF that(1)] in \<open>simp_all add: own.note_gone found.note_gone\<close>)
  show "inputs_spent {} (fst (add_outage n s))" "inputs_spent {} (fst (remove_outage n s))"
    if "inputs_spent {} s" for s n
    by (rule inputs_same [OF that]; use inputs_own [OF that] in \<open>simp add: own.outage found.outage\<close>)+
  show "inputs_spent {} (fst (snd (get_or_create_transaction now a d s)))"
    if "inputs_spent {} s" "a < length (cx_accounts s)" for s now a d
    by (rule inputs_tx_got(1) [OF that])
qed (simp_all add: inputs_spent_def spends_def)

interpretation inputs_all: store_steps "inputs_spent {}"
proof unfold_locales
  show "inputs_spent {} (fst (session_does i e s))" if "inputs_spent {} s" for i e s
  proof -
    have "inputs_spent {} (set_session i x s)" for x
      by (rule inputs_same [OF that]) (use inputs_own [OF that] in simp_all)
    then show ?thesis by (simp add: session_does_def case_prod_beta inputs.inv_on_session_outputs)
  qed
qed

text \<open>
  A page, or a transaction that has just been sent, tells of transactions; their inputs are then spent.
\<close>

fun told_of :: "nat \<Rightarrow> store_event \<Rightarrow> jobject list" where
  "told_of a (PageFetched now b page txs) = (if b = a then map to_object txs else [])"
| "told_of a (TransactionSent now b d) = (if b = a then [d] else [])"
| "told_of a _ = []"

lemma inputs_touch:
  assumes "inputs_spent {} s" and "a < length (cx_accounts s)"
    and "w \<in> set txs" and "v \<in> set (tx_inputs (to_object w))"
  shows "\<exists>c. found_spent a (output_key (to_object v)) c (fst (touch_page now a txs s))"
  using assms
proof (induction txs arbitrary: s)
  case (Cons x txs)
  obtain t s1 out where step: "get_or_create_transaction now a (to_object x) s = (t, s1, out)"
    by (cases "get_or_create_transaction now a (to_object x) s") auto
  let ?s = "touch_transaction a (at_id (cx_txs s1 ! t)) s1"
  have s1: "inputs_spent {} s1" "length (cx_accounts s1) = length (cx_accounts s)"
    using inputs_tx_got(1) [OF Cons.prems(1,2), of now "to_object x"]
      get_transaction_counts [of now a "to_object x" s] step by simp_all
  then have s2: "inputs_spent {} ?s" "a < length (cx_accounts ?s)"
    using Cons.prems(2) unfolding touch_transaction_def by (auto intro: inputs.account_fields)
  show ?case
  proof (cases "w = x")
    case True
    with inputs_tx_got(2) [OF Cons.prems(1,2), of v "to_object x" now] Cons.prems(4) step
    obtain c where "found_spent a (output_key (to_object v)) c s1" by auto
    then have "found_spent a (output_key (to_object v)) c ?s"
      unfolding touch_transaction_def by (intro found.account_fields) simp_all
    from found.inv_touch_page [OF this s2(2), of now txs] show ?thesis by (auto simp: step case_prod_beta Let_def)
  next
    case False
    with Cons.IH [OF s2] Cons.prems(3,4) show ?thesis by (simp add: step case_prod_beta Let_def)
  qed
qed simp

lemma told_inputs_spent:
  assumes ok: "inputs_spent {} s" and a: "a < length (cx_accounts s)"
    and d: "d \<in> set (told_of a e)" and v: "v \<in> set (tx_inputs d)"
  shows "\<exists>c. found_spent a (output_key (to_object v)) c (fst (store_step s e))"
  using d
proof (cases e)
  case (PageFetched now b page txs)
  with d obtain w where w: "w \<in> set txs" "d = to_object w" "b = a" by (auto split: if_splits)
  with inputs_touch [OF ok a w(1)] v obtain c
    where "found_spent a (output_key (to_object v)) c (fst (touch_page now a txs s))" by blast
  then have "found_spent a (output_key (to_object v)) c (fst (page_fetched now a page txs s))"
    by (simp add: page_fetched_def case_prod_beta Let_def found.inv_end_fetch)
  with PageFetched w(3) a show ?thesis by (auto simp: has_account_def)
next
  case (TransactionSent now b d')
  with d inputs_tx_got(2) [OF ok a v, of now] a show ?thesis
    by (auto simp: has_account_def case_prod_beta Let_def split: if_splits)
qed simp_all

interpretation inputs_run: keeps store_step "\<lambda>e. True" "inputs_spent {}"
  by unfold_locales (rule inputs_all.inv_step)

interpretation found_run: keeps store_step "\<lambda>e. True" "found_coin p a k c" for p a k c
  by unfold_locales (rule found.inv_step)

lemma new_store_inputs [simp]: "inputs_spent {} (new_store st w d c wo)"
  by (simp add: inputs_spent_def own_txs_def) (simp add: new_store_def)

section \<open>Coins that have expired\<close>

text \<open>
  A coin is followed while the session of its network is the one the coin listens to; a session that is
  made again is another one.
\<close>

definition coin_followed :: "store \<Rightarrow> coin \<Rightarrow> bool" where
  "coin_followed s x \<longleftrightarrow>
     map_of (cx_sessions s) (n_id (ac_network (cx_accounts s ! co_account x))) = Some (co_session x)"

definition past_expiry :: "store \<Rightarrow> coin \<Rightarrow> bool" where
  "past_expiry s x \<longleftrightarrow> (case jvalue (co_data x) ''expiry_height'' of
     JInt h \<Rightarrow> h \<le> session_block_height (co_session x) s | _ \<Rightarrow> False)"

definition mark_ok :: "store \<Rightarrow> coin \<Rightarrow> bool" where
  "mark_ok s x \<longleftrightarrow> co_session x < length (cx_session_objs s) \<and>
     (coin_followed s x \<longrightarrow> (co_expired x \<longleftrightarrow> past_expiry s x))"

definition marks_ok :: "nat set \<Rightarrow> store \<Rightarrow> bool" where
  "marks_ok K s \<longleftrightarrow> objects_ok s \<and>
     (\<forall>k i. map_of (cx_sessions s) k = Some i \<longrightarrow> i < length (cx_session_objs s)) \<and>
     (\<forall>c < length (cx_coins s). c \<notin> K \<longrightarrow> mark_ok s (cx_coins s ! c))"

text \<open>What sessions a step leaves and what of the accounts matters.\<close>

definition same_sessions :: "store \<Rightarrow> store \<Rightarrow> bool" where
  "same_sessions s s' \<longleftrightarrow> cx_sessions s' = cx_sessions s \<and> cx_session_objs s' = cx_session_objs s \<and>
     (\<forall>a < length (cx_accounts s). ac_network (cx_accounts s' ! a) = ac_network (cx_accounts s ! a))"

lemma same_modify_account:
  "(\<And>x. ac_network (f x) = ac_network x) \<Longrightarrow> same_sessions s (modify_account a f s)"
  by (simp add: same_sessions_def nth_modify_account) (simp add: modify_account_def)

lemma same_modify_tx: "same_sessions s (modify_tx t g s)"
  by (simp add: same_sessions_def modify_tx_def)

lemma mark_same:
  "same_sessions s s' \<Longrightarrow> co_account x < length (cx_accounts s) \<Longrightarrow> mark_ok s' x \<longleftrightarrow> mark_ok s x"
  by (simp add: same_sessions_def mark_ok_def coin_followed_def past_expiry_def session_block_height_def split: json.split)

lemma mark_fields:
  "co_account y = co_account x \<Longrightarrow> co_session y = co_session x \<Longrightarrow> co_data y = co_data x \<Longrightarrow>
    co_expired y = co_expired x \<Longrightarrow> mark_ok s y \<longleftrightarrow> mark_ok s x"
  by (simp add: mark_ok_def coin_followed_def past_expiry_def split: json.split)

lemma marks_objects: "marks_ok K s \<Longrightarrow> objects_ok s"
  by (simp add: marks_ok_def)

lemma marks_same:
  assumes "marks_ok K s" and "objects_ok s'" and "same_sessions s s'" and "cx_coins s' = cx_coins s"
  shows "marks_ok K s'"
  using assms mark_same [OF assms(3)] objectsD(2) [OF marks_objects [OF assms(1)]]
  by (simp add: marks_ok_def) (simp add: same_sessions_def)

lemma marks_eq:
  assumes "objects_ok s' \<longleftrightarrow> objects_ok s" and "cx_coins s' = cx_coins s" and "cx_accounts s' = cx_accounts s"
    and "cx_sessions s' = cx_sessions s" and "cx_session_objs s' = cx_session_objs s"
  shows "marks_ok K s' \<longleftrightarrow> marks_ok K s"
  using marks_same [of K s s'] marks_same [of K s' s] marks_objects [of K s] marks_objects [of K s'] assms
  by (auto simp: same_sessions_def)

lemma marks_fields [simp]:
  "marks_ok K (s\<lparr>cx_by_pointer := m0\<rparr>) \<longleftrightarrow> marks_ok K s" "marks_ok K (s\<lparr>cx_tx_rows := r1\<rparr>) \<longleftrightarrow> marks_ok K s"
  "marks_ok K (s\<lparr>cx_chain_txs := x2\<rparr>) \<longleftrightarrow> marks_ok K s" "marks_ok K (s\<lparr>cx_tx_map := x3\<rparr>) \<longleftrightarrow> marks_ok K s"
  "marks_ok K (s\<lparr>cx_addresses := x5\<rparr>) \<longleftrightarrow> marks_ok K s" "marks_ok K (s\<lparr>cx_address_map := x6\<rparr>) \<longleftrightarrow> marks_ok K s"
  "marks_ok K (s\<lparr>cx_address_rows := x7\<rparr>) \<longleftrightarrow> marks_ok K s" "marks_ok K (s\<lparr>cx_payments := x8\<rparr>) \<longleftrightarrow> marks_ok K s"
  "marks_ok K (s\<lparr>cx_payment_map := x9\<rparr>) \<longleftrightarrow> marks_ok K s"
  "marks_ok K (s\<lparr>cx_payment_rows := x10\<rparr>) \<longleftrightarrow> marks_ok K s"
  "marks_ok K (s\<lparr>cx_attempts := ks\<rparr>) \<longleftrightarrow> marks_ok K s" "marks_ok K (s\<lparr>cx_assets_loaded := b\<rparr>) \<longleftrightarrow> marks_ok K s"
  by (rule marks_eq; simp)+

lemma marks_modify:
  assumes "marks_ok K s" and "\<And>x. co_account (u x) = co_account x"
    and "c \<notin> K \<Longrightarrow> c < length (cx_coins s) \<Longrightarrow> mark_ok s (u (cx_coins s ! c))"
  shows "marks_ok K (modify_coin c u s)"
proof (cases "c < length (cx_coins s)")
  case True
  have same: "same_sessions s (modify_coin c u s)" by (simp add: same_sessions_def modify_coin_def)
  have "mark_ok (modify_coin c u s) (cx_coins (modify_coin c u s) ! d)" if "d < length (cx_coins s)" "d \<notin> K" for d
    using that assms mark_same [OF same] objectsD(2) [OF marks_objects [OF assms(1)]] True
    by (cases "d = c") (simp_all add: marks_ok_def modify_coin_def)
  with assms objects_coin [of s u c] same show ?thesis by (simp add: marks_ok_def same_sessions_def)
qed (use assms in simp)

lemma update_notifications_sessions [simp]:
  "cx_sessions (fst (update_notifications c s)) = cx_sessions s"
  "cx_session_objs (fst (update_notifications c s)) = cx_session_objs s"
  by (simp_all add: update_notifications_def set_note_def remove_notification_def add_notification_def Let_def
      case_prod_beta split: option.split)

lemma marks_update_notifications:
  "marks_ok K s \<Longrightarrow> marks_ok K (fst (update_notifications c s))"
  by (rule marks_same [where s = s]) (simp_all add: update_notifications_objects marks_ok_def same_sessions_def)

text \<open>A session is made: the ones that are there do not change.\<close>

lemma get_session_old:
  assumes "i < length (cx_session_objs s)"
  shows "cx_session_objs (fst (snd (get_or_create_session n s))) ! i = cx_session_objs s ! i"
    and "i < length (cx_session_objs (fst (snd (get_or_create_session n s))))"
    and "map_of (cx_sessions (fst (snd (get_or_create_session n s)))) k = Some i \<longleftrightarrow> map_of (cx_sessions s) k = Some i"
  using assms
  by (auto simp: get_or_create_session_def session_create_def set_session_def Let_def case_prod_beta nth_append
      qm_find_insert split: option.split)

lemma get_session_found:
  "map_of (cx_sessions (fst (snd (get_or_create_session n s)))) (n_id n) = Some (fst (get_or_create_session n s))"
  by (simp add: get_or_create_session_def session_create_def set_session_def Let_def case_prod_beta qm_find_insert
      split: option.split)

lemma mark_get_session:
  "mark_ok s x \<Longrightarrow> mark_ok (fst (snd (get_or_create_session n s))) x"
  using get_session_old [of "co_session x" s n]
  by (simp add: mark_ok_def coin_followed_def past_expiry_def session_block_height_def frame_simps split: json.split)

lemma get_session_known:
  assumes "\<forall>k i. map_of (cx_sessions s) k = Some i \<longrightarrow> i < length (cx_session_objs s)"
  shows "\<forall>k i. map_of (cx_sessions (fst (snd (get_or_create_session n s)))) k = Some i \<longrightarrow>
    i < length (cx_session_objs (fst (snd (get_or_create_session n s))))"
  using assms
  by (auto simp: get_or_create_session_def session_create_def set_session_def Let_def case_prod_beta
      qm_find_insert less_SucI split: option.splits if_splits)

lemma marks_get_session: "marks_ok K s \<Longrightarrow> marks_ok K (fst (snd (get_or_create_session n s)))"
  using get_session_known [of s n] by (simp add: marks_ok_def mark_get_session frame_simps)

lemma marks_account_session: "marks_ok K s \<Longrightarrow> marks_ok K (fst (snd (account_session a s)))"
  by (simp add: account_session_def marks_get_session)

text \<open>After its update a coin is marked as it should be.\<close>

lemma marks_set_expired:
  assumes "marks_ok (insert c K) s" and "c < length (cx_coins s)" and "mark_ok s ((cx_coins s ! c)\<lparr>co_expired := b\<rparr>)"
  shows "marks_ok K (fst (set_expired c b s))"
proof (cases "co_expired (cx_coins s ! c) = b")
  case True
  then have "(cx_coins s ! c)\<lparr>co_expired := b\<rparr> = cx_coins s ! c" by simp
  with assms True show ?thesis by (auto simp: marks_ok_def set_expired_def)
next
  case False
  let ?u = "\<lambda>x. x\<lparr>co_expired := b\<rparr>"
  have "mark_ok (modify_coin c ?u s) (cx_coins (modify_coin c ?u s) ! c)"
    using assms(2,3) mark_same [of s "modify_coin c ?u s"] objectsD(2) [OF marks_objects [OF assms(1)] assms(2)]
    by (simp add: same_sessions_def modify_coin_def)
  moreover have "marks_ok (insert c K) (modify_coin c ?u s)" by (rule marks_modify [OF assms(1)]) simp_all
  ultimately have "marks_ok K (modify_coin c ?u s)" by (auto simp: marks_ok_def)
  with False show ?thesis by (simp add: set_expired_def marks_update_notifications)
qed

lemma marks_update_expired:
  assumes ok: "marks_ok (insert c K) s" and c: "c < length (cx_coins s)"
    and i: "co_session (cx_coins s ! c) < length (cx_session_objs s)"
  shows "marks_ok K (fst (update_expired c s))"
proof (cases "\<exists>h. jvalue (co_data (cx_coins s ! c)) ''expiry_height'' = JInt h")
  case True
  then obtain h where h: "jvalue (co_data (cx_coins s ! c)) ''expiry_height'' = JInt h" by blast
  let ?n = "ac_network (cx_accounts s ! coin_account s c)"
  let ?s = "fst (snd (get_or_create_session ?n s))" and ?j = "fst (get_or_create_session ?n s)"
  have "mark_ok ?s ((cx_coins ?s ! c)\<lparr>co_expired := (h \<le> session_block_height ?j ?s)\<rparr>)"
    using get_session_found [of ?n s] get_session_old(2) [OF i, of ?n] h
    by (simp add: mark_ok_def coin_followed_def past_expiry_def coin_account_def frame_simps)
  from marks_set_expired [OF marks_get_session [OF ok] _ this] c h show ?thesis
    by (simp add: update_expired_def account_session_def case_prod_beta Let_def frame_simps)
next
  case False
  then have upd: "fst (update_expired c s) = fst (set_expired c False s)"
    by (simp add: update_expired_def split: json.split)
  have "mark_ok s ((cx_coins s ! c)\<lparr>co_expired := False\<rparr>)"
    using False i by (simp add: mark_ok_def past_expiry_def split: json.split)
  from marks_set_expired [OF ok c this] show ?thesis unfolding upd .
qed

lemma set_expired_coins:
  "cx_coins (fst (set_expired c b s)) = (cx_coins s)[c := (cx_coins s ! c)\<lparr>co_expired := b\<rparr>]"
proof (cases "co_expired (cx_coins s ! c) = b")
  case True
  then have same: "(cx_coins s ! c)\<lparr>co_expired := b\<rparr> = cx_coins s ! c" by simp
  show ?thesis unfolding same using True by (simp add: set_expired_def)
qed (simp add: set_expired_def modify_coin_def)

lemma set_expired_sessions [simp]:
  "cx_sessions (fst (set_expired c b s)) = cx_sessions s"
  "cx_session_objs (fst (set_expired c b s)) = cx_session_objs s"
  by (simp_all add: set_expired_def modify_coin_def)

lemma marks_keep_expired:
  assumes "marks_ok K s" and "c \<in> K" and "c < length (cx_coins s)"
  shows "marks_ok K (fst (update_expired c s))"
proof -
  have "marks_ok K (fst (set_expired c b s))" if "marks_ok K s" for b s
    using that assms(2) marks_modify [OF that, of "\<lambda>x. x\<lparr>co_expired := b\<rparr>" c] marks_update_notifications
    by (simp add: set_expired_def)
  with assms marks_account_session show ?thesis
    by (simp add: update_expired_def case_prod_beta Let_def split: json.split)
qed

text \<open>The mark follows from the session the account has then.\<close>

lemma update_expired_exact:
  assumes c: "c < length (cx_coins s)" and a: "a = coin_account s c" and s': "s' = fst (update_expired c s)"
  shows "co_expired (cx_coins s' ! c) \<longleftrightarrow>
    past_expiry (fst (snd (account_session a s'))) ((cx_coins s' ! c)\<lparr>co_session := fst (account_session a s')\<rparr>)"
proof (cases "\<exists>h. jvalue (co_data (cx_coins s ! c)) ''expiry_height'' = JInt h")
  case True
  then obtain h where h: "jvalue (co_data (cx_coins s ! c)) ''expiry_height'' = JInt h" by blast
  let ?n = "ac_network (cx_accounts s ! a)"
  let ?t = "fst (snd (get_or_create_session ?n s))" and ?j = "fst (get_or_create_session ?n s)"
  have s1: "s' = fst (set_expired c (h \<le> session_block_height ?j ?t) ?t)"
    using h by (simp add: s' a update_expired_def account_session_def case_prod_beta)
  have "account_session a s' = (?j, s', [])"
    using get_session_found [of ?n s]
    by (simp add: s1 account_session_def frame_simps) (simp add: get_or_create_session_def)
  moreover have "cx_coins s' = (cx_coins s)[c := (cx_coins s ! c)\<lparr>co_expired := (h \<le> session_block_height ?j ?t)\<rparr>]"
    by (simp add: s1 set_expired_coins frame_simps)
  moreover have "session_block_height ?j s' = session_block_height ?j ?t"
    by (simp add: s1 session_block_height_def)
  ultimately show ?thesis using c h by (simp add: past_expiry_def)
next
  case False
  then have "s' = fst (set_expired c False s)" by (simp add: s' update_expired_def split: json.split)
  then show ?thesis using False c by (simp add: set_expired_coins past_expiry_def split: json.split)
qed

lemma marks_refresh:
  assumes ok: "marks_ok (insert c K) s" and c: "c < length (cx_coins s)"
    and i: "c \<notin> K \<Longrightarrow> co_session (cx_coins s ! c) < length (cx_session_objs s)"
  shows "marks_ok K (fst (coin_update c s))"
proof -
  define t where "t = modify_coin c (coin_fields (ac_network (cx_accounts s ! coin_account s c))) s"
  have t1: "fst (coin_update c s) = fst (update_expired c t)" by (simp add: t_def coin_update_def)
  have fields: "co_account (coin_fields n x) = co_account x" "co_session (coin_fields n x) = co_session x" for n x
    by (simp_all add: coin_fields_def Let_def)
  have t2: "marks_ok (insert c K) t" unfolding t_def by (rule marks_modify [OF ok]) (simp_all add: fields)
  have t3: "c < length (cx_coins t)" using c by (simp add: t_def)
  show ?thesis
  proof (cases "c \<in> K")
    case True
    with t2 t3 show ?thesis unfolding t1 by (intro marks_keep_expired) (simp_all add: insert_absorb)
  next
    case False
    with i c have "co_session (cx_coins t ! c) < length (cx_session_objs t)"
      by (simp add: t_def modify_coin_def fields)
    with t2 t3 show ?thesis unfolding t1 by (rule marks_update_expired)
  qed
qed

lemma marks_coin_update:
  assumes ok: "marks_ok K s" and c: "c < length (cx_coins s)"
  shows "marks_ok K (fst (coin_update_from_data c d s))"
proof (cases "co_data (cx_coins s ! c) = d")
  case False
  let ?s = "modify_coin c (\<lambda>x. x\<lparr>co_data := d\<rparr>) s"
  have "marks_ok (insert c K) s" using ok by (simp add: marks_ok_def)
  then have "marks_ok (insert c K) ?s" by (rule marks_modify) simp_all
  then have "marks_ok K (fst (coin_update c ?s))"
    by (rule marks_refresh) (use ok c in \<open>simp_all add: marks_ok_def mark_ok_def modify_coin_def\<close>)
  with False show ?thesis by (simp add: coin_update_from_data_def)
qed (use ok in \<open>simp add: coin_update_from_data_def\<close>)

lemma new_coin_exact:
  fixes s :: store and d :: jobject and a :: nat
  defines "c \<equiv> length (cx_coins s)"
  defines "s1 \<equiv> fst (coin_update_from_data c d (s\<lparr>cx_coins := cx_coins s @ [new_coin a]\<rparr>))"
  shows "co_expired (cx_coins s1 ! c) \<longleftrightarrow>
    past_expiry (fst (snd (account_session a s1))) ((cx_coins s1 ! c)\<lparr>co_session := fst (account_session a s1)\<rparr>)"
proof (cases "d = []")
  case True
  then show ?thesis
    by (simp add: s1_def c_def coin_update_from_data_def new_coin_def past_expiry_def jvalue_def)
next
  case False
  let ?s = "s\<lparr>cx_coins := cx_coins s @ [new_coin a]\<rparr>"
  define t where "t = modify_coin c (coin_fields (ac_network (cx_accounts ?s ! a))) (modify_coin c (\<lambda>x. x\<lparr>co_data := d\<rparr>) ?s)"
  have "s1 = fst (update_expired c t)"
    using False by (simp add: s1_def t_def c_def coin_update_from_data_def coin_update_def coin_account_def
        modify_coin_def new_coin_def)
  moreover have "c < length (cx_coins t)" "coin_account t c = a"
    by (simp_all add: t_def c_def coin_account_def modify_coin_def coin_fields_def new_coin_def Let_def)
  ultimately show ?thesis using update_expired_exact [of c t a s1] by simp
qed

lemma marks_get_output:
  assumes ok: "marks_ok {} s" and a: "a < length (cx_accounts s)"
  shows "marks_ok {} (fst (snd (get_or_create_output a d s)))"
proof -
  have row: "marks_ok {} (add_coin c t)" if "marks_ok {} t" for c t
    by (rule marks_same [OF that]) (use marks_objects [OF that] in \<open>simp_all add: add_coin_def Let_def same_sessions_def\<close>)
  show ?thesis
  proof (cases "get_output a d s")
    case (Some c)
    have "c < length (cx_coins s)"
      using objectsD(4) [OF marks_objects [OF ok] a] Some by (simp add: get_output_def)
    with Some row marks_coin_update [OF ok] show ?thesis
      by (simp add: get_or_create_output_def case_prod_beta Let_def)
  next
    case None
    let ?c = "length (cx_coins s)"
    let ?s0 = "s\<lparr>cx_coins := cx_coins s @ [new_coin a]\<rparr>"
    define s1 where "s1 = fst (coin_update_from_data ?c d ?s0)"
    define s2 where "s2 = fst (snd (account_session a s1))"
    define i where "i = fst (account_session a s1)"
    define s3 where "s3 = modify_coin ?c (\<lambda>x. x\<lparr>co_session := i\<rparr>) s2"
    define s4 where "s4 = modify_account a (\<lambda>x. x\<lparr>ac_outs := qm_insert (output_key d) ?c (ac_outs x)\<rparr>) s3"
    have same0: "same_sessions s ?s0" by (simp add: same_sessions_def)
    have "mark_ok ?s0 (cx_coins ?s0 ! b)" if "b < length (cx_coins s)" for b
      using ok that mark_same [OF same0] objectsD(2) [OF marks_objects [OF ok] that]
      by (simp add: marks_ok_def nth_append)
    then have "marks_ok {?c} ?s0"
      using ok indices.coin_new [of s a] a by (simp add: marks_ok_def less_Suc_eq)
    then have ok1: "marks_ok {?c} s1" unfolding s1_def by (rule marks_coin_update) simp
    then have ok2: "marks_ok {?c} s2" unfolding s2_def by (rule marks_account_session)
    then have ok3: "marks_ok {?c} s3" unfolding s3_def by (rule marks_modify) simp_all
    have len: "?c < length (cx_coins s2)" by (simp add: s2_def s1_def frame_simps)
    have own: "co_account (cx_coins s1 ! ?c) = a"
    proof -
      have "co_account (cx_coins (fst (update_expired c t)) ! c) = co_account (cx_coins t ! c)" if "c < length (cx_coins t)" for c t
        using that by (simp add: update_expired_def case_prod_beta set_expired_coins frame_simps split: json.split)
      then show ?thesis
        by (simp add: s1_def coin_update_from_data_def coin_update_def modify_coin_def coin_fields_def Let_def new_coin_def)
    qed
    have coins: "cx_coins s2 = cx_coins s1" "cx_accounts s2 = cx_accounts s1" by (simp_all add: s2_def frame_simps)
    have i: "map_of (cx_sessions s2) (n_id (ac_network (cx_accounts s1 ! a))) = Some i"
      using get_session_found by (simp add: s2_def i_def account_session_def)
    with ok2 have "i < length (cx_session_objs s2)" by (auto simp: marks_ok_def)
    moreover have "co_expired (cx_coins s1 ! ?c) \<longleftrightarrow> past_expiry s2 ((cx_coins s1 ! ?c)\<lparr>co_session := i\<rparr>)"
      using new_coin_exact [of s d a] by (simp add: s1_def s2_def i_def)
    ultimately have "mark_ok s2 ((cx_coins s2 ! ?c)\<lparr>co_session := i\<rparr>)" by (simp add: mark_ok_def coins)
    moreover have "same_sessions s2 s3" by (simp add: same_sessions_def s3_def modify_coin_def)
    ultimately have "mark_ok s3 (cx_coins s3 ! ?c)"
      using mark_same [of s2 s3] objectsD(2) [OF marks_objects [OF ok2] len] len
      by (simp add: s3_def modify_coin_def)
    with ok3 have ok3: "marks_ok {} s3" by (auto simp: marks_ok_def)
    have "objects_ok s4" unfolding s4_def
      by (rule indices.account_out)
        (use marks_objects [OF ok3] len None in \<open>simp_all add: s3_def s2_def s1_def frame_simps get_output_def\<close>)
    moreover have "same_sessions s3 s4" unfolding s4_def by (rule same_modify_account) simp
    ultimately have "marks_ok {} s4" by (rule marks_same [OF ok3]) (simp add: s4_def)
    with None row show ?thesis
      by (simp add: get_or_create_output_def case_prod_beta Let_def s1_def s2_def s3_def s4_def i_def)
  qed
qed

lemma marks_spent:
  assumes "marks_ok K s"
  shows "marks_ok K (fst (set_spending_transaction c t s))"
proof -
  have "marks_ok K (modify_coin c (\<lambda>x. x\<lparr>co_spending := Some t\<rparr>) s)"
  proof (rule marks_modify [OF assms])
    show "mark_ok s ((cx_coins s ! c)\<lparr>co_spending := Some t\<rparr>)" if "c \<notin> K" "c < length (cx_coins s)"
    proof -
      have "mark_ok s ((cx_coins s ! c)\<lparr>co_spending := Some t\<rparr>) \<longleftrightarrow> mark_ok s (cx_coins s ! c)"
        by (rule mark_fields) simp_all
      with that assms show ?thesis by (simp add: marks_ok_def)
    qed
  qed simp
  with assms marks_update_notifications show ?thesis by (simp add: set_spending_transaction_def)
qed

interpretation marks_tx: tx_steps "marks_ok {}"
proof unfold_locales
  show "marks_ok {} (modify_tx t g s)" if "\<And>x. at_account (g x) = at_account x" "marks_ok {} s"
    for g :: "account_tx \<Rightarrow> account_tx" and s t
  proof -
    have "objects_ok (modify_tx t g s)" by (rule indices.tx_kept) (use that marks_objects in simp_all)
    then show ?thesis by (rule marks_same [OF that(2) _ same_modify_tx]) simp
  qed
  show "marks_ok {} (modify_account a (\<lambda>x. x\<lparr>ac_txs := qm_insert h (length (cx_txs s)) (ac_txs x)\<rparr>)
      (s\<lparr>cx_txs := cx_txs s @ [new_account_tx h a]\<rparr>))" (is "marks_ok {} ?s")
    if "marks_ok {} s" "a < length (cx_accounts s)" for s a h
  proof -
    have "objects_ok ?s" by (rule indices.tx_made) (use that marks_objects in simp_all)
    moreover have "same_sessions (s\<lparr>cx_txs := cx_txs s @ [new_account_tx h a]\<rparr>) ?s"
      by (rule same_modify_account) simp
    then have "same_sessions s ?s" by (simp add: same_sessions_def)
    ultimately show ?thesis by (rule marks_same [OF that(1)]) simp
  qed
qed (simp_all add: marks_objects marks_get_output marks_spent)

text \<open>A session that is released is not the one of its network any more.\<close>

lemma marks_release:
  assumes "marks_ok K s"
  shows "marks_ok K (fst (release_session i s))"
proof -
  have visit: "marks_ok K (fst (visit_sessions as s))" if "marks_ok K s" for as s
    using that by (induction as arbitrary: s) (simp_all add: case_prod_beta Let_def marks_account_session)
  let ?s = "fst (visit_sessions [0..<length (cx_accounts s)] s)"
  let ?t = "fst (release_session i s)"
  have t: "cx_coins ?t = cx_coins ?s" "cx_accounts ?t = cx_accounts ?s" "cx_session_objs ?t = cx_session_objs ?s"
    "\<And>k j. map_of (cx_sessions ?t) k = Some j \<Longrightarrow> map_of (cx_sessions ?s) k = Some j"
    by (auto simp: release_session_def session_release_def case_prod_beta Let_def qm_find_remove split: if_splits)
  have "mark_ok ?t x" if "mark_ok ?s x" for x
    using that t(4) by (simp add: mark_ok_def coin_followed_def past_expiry_def session_block_height_def t(1-3) split: json.split)
  moreover have "objects_ok ?t" using marks_objects [OF assms] by simp
  moreover have "marks_ok K ?s" by (rule visit [OF assms])
  then have "j < length (cx_session_objs ?t)" if "map_of (cx_sessions ?t) k = Some j" for k j
    using t(4) [OF that] by (simp add: marks_ok_def t(3))
  moreover note \<open>marks_ok K ?s\<close>
  ultimately show ?thesis unfolding marks_ok_def t(1) by blast
qed

interpretation marks: store_invariant "marks_ok {}"
proof unfold_locales
  show "marks_ok {} (fst (snd (get_or_create_session n s)))" "marks_ok {} (fst (release_session i s))"
    if "marks_ok {} s" for s n i
    using that by (simp_all add: marks_get_session marks_release)
  show "marks_ok {} (modify_account a f s)"
    if "\<And>x. ac_network (f x) = ac_network x" "\<And>x. ac_txs (f x) = ac_txs x" "\<And>x. ac_outs (f x) = ac_outs x"
      "marks_ok {} s" for f :: "account \<Rightarrow> account" and s a
  proof -
    have "objects_ok (modify_account a f s)" by (rule indices.account_kept) (use that marks_objects in simp_all)
    then show ?thesis by (rule marks_same [OF that(4) _ same_modify_account]) (simp_all add: that)
  qed
  show "marks_ok {} (s\<lparr>cx_accounts := cx_accounts s @ [new_account n p]\<rparr>)" if "marks_ok {} s" for s n p
    by (rule marks_same [OF that])
      (use marks_objects [OF that] in \<open>simp_all add: indices.account_made same_sessions_def nth_append\<close>)
  show "marks_ok {} (fst (coin_update c s))" if "marks_ok {} s" "c < length (cx_coins s)" for s c
    by (rule marks_refresh) (use that in \<open>auto simp: marks_ok_def mark_ok_def\<close>)
  show "marks_ok {} (fst (update_expired c s))" if "marks_ok {} s" "c < length (cx_coins s)" for s c
    by (rule marks_update_expired) (use that in \<open>auto simp: marks_ok_def mark_ok_def\<close>)
  show "marks_ok {} (fst (snd (add_notification n s)))" if "marks_ok {} s" "\<not> is_expired_note n" for s n
  proof -
    have "objects_ok (fst (snd (add_notification n s)))" by (rule add_note_objects [OF marks_objects [OF that(1)]])
    then show ?thesis
      by (rule marks_same [OF that(1)]) (simp_all add: same_sessions_def add_notification_def Let_def)
  qed
  show "marks_ok {} (fst (remove_notification k s))" if "marks_ok {} s" for s k
  proof -
    have "objects_ok (fst (remove_notification k s))" using marks_objects [OF that] by simp
    then show ?thesis by (rule marks_same [OF that]) (simp_all add: same_sessions_def remove_notification_def)
  qed
  show "marks_ok {} (fst (add_outage n s))" "marks_ok {} (fst (remove_outage n s))" if "marks_ok {} s" for s n
  proof -
    have "cx_coins (fst (add_outage n s)) = cx_coins s" "same_sessions s (fst (add_outage n s))"
      "cx_coins (fst (remove_outage n s)) = cx_coins s" "same_sessions s (fst (remove_outage n s))"
      by (simp_all add: same_sessions_def add_outage_def remove_outage_def add_notification_def
          remove_notification_def set_note_def Let_def case_prod_beta split: option.split)
    with that indices.outage [OF marks_objects [OF that]] marks_same
    show "marks_ok {} (fst (add_outage n s))" "marks_ok {} (fst (remove_outage n s))" by blast+
  qed
qed (simp_all add: marks_tx.inv_get_or_create_transaction marks_tx.tx_changed)

text \<open>
  An event of a session: either the block it has seen is the same, or its coins are brought up to date
  before anything else happens.
\<close>

lemma session_block_kept:
  "s_block (fst (set_connected b x)) = s_block x" "s_block (fst (set_active b x)) = s_block x"
  "s_block (fst (set_settings v x)) = s_block x" "s_block (fst (logout_timer_event x)) = s_block x"
  "s_block (user_input x) = s_block x"
  by (simp_all add: session_outputs user_input_def set_altimeout_def Let_def case_prod_beta split: option.split)

lemma handle_event_block:
  "handle_event ev v x = Some (x', out) \<Longrightarrow> s_block x' = s_block x \<or> out = [BlockChanged, BlockEvent (to_object v)]"
  using session_block_kept(1) [of _ x] session_block_kept(3) [of "to_object v" x]
  by (cases "set_settings (to_object v) x")
    (auto simp: handle_event_def set_block_def Let_def case_prod_beta split: if_splits)

lemma session_block:
  "s_block (fst (session_step x e)) = s_block x \<or>
    (\<exists>n d. snd (session_step x e) = [NotificationHandled n, EventsChanged, BlockChanged, BlockEvent d])"
proof (cases e)
  case (Notified v)
  let ?e = "to_string (jvalue v ''event'')"
  let ?v = "jvalue v ?e"
  show ?thesis
  proof (cases "?e = [] \<or> handle_event ?e ?v (x\<lparr>s_events := json_insert ?e ?v (s_events x)\<rparr>) = None")
    case True
    with Notified show ?thesis by (auto simp: handle_notification_def Let_def)
  next
    case False
    then obtain x' out where r: "handle_event ?e ?v (x\<lparr>s_events := json_insert ?e ?v (s_events x)\<rparr>) = Some (x', out)"
      by auto
    from handle_event_block [OF r] False Notified r show ?thesis by (auto simp: handle_notification_def Let_def)
  qed
qed (simp_all add: session_block_kept)

lemma marks_expire_coins:
  assumes "marks_ok (set cs) s" and "\<And>c. c \<in> set cs \<Longrightarrow> c < length (cx_coins s) \<and> co_session (cx_coins s ! c) < length (cx_session_objs s)"
  shows "marks_ok {} (fst (expire_coins cs s))"
  using assms
proof (induction cs arbitrary: s)
  case (Cons c cs)
  let ?s = "fst (update_expired c s)"
  have "marks_ok (set cs) ?s" by (rule marks_update_expired) (use Cons.prems in simp_all)
  moreover have "co_session (cx_coins ?s ! d) < length (cx_session_objs ?s)" if "d \<in> set cs" for d
  proof -
    have "cx_coins ?s ! d = cx_coins s ! d \<or> (\<exists>b. cx_coins ?s ! d = (cx_coins s ! d)\<lparr>co_expired := b\<rparr>)"
      using Cons.prems(2) [of c]
      by (cases "d = c") (auto simp: update_expired_def case_prod_beta set_expired_coins frame_simps split: json.split)
    moreover have "length (cx_session_objs s) \<le> length (cx_session_objs ?s)"
      by (simp add: update_expired_def account_session_def get_or_create_session_def session_create_def
          set_session_def case_prod_beta Let_def split: json.split option.split)
    ultimately show ?thesis using Cons.prems(2) [of d] that by auto
  qed
  ultimately have "marks_ok {} (fst (expire_coins cs ?s))" using Cons by simp
  then show ?case by (simp add: case_prod_beta Let_def)
qed simp

lemma marks_set_session:
  assumes ok: "marks_ok {} s" and same: "s_block x = s_block (cx_session_objs s ! i)"
  shows "marks_ok {} (set_session i x s)"
proof -
  have "mark_ok (set_session i x s) y" if "mark_ok s y" for y
    using that same
    by (cases "co_session y = i")
      (simp_all add: mark_ok_def coin_followed_def past_expiry_def session_block_height_def set_session_def split: json.split)
  moreover have "objects_ok (set_session i x s)" using marks_objects [OF ok] by simp
  moreover have "cx_coins (set_session i x s) = cx_coins s" "cx_sessions (set_session i x s) = cx_sessions s"
    "length (cx_session_objs (set_session i x s)) = length (cx_session_objs s)" by (simp_all add: set_session_def)
  ultimately show ?thesis using ok by (simp add: marks_ok_def)
qed

lemma marks_new_block:
  assumes ok: "marks_ok {} s" and i: "i < length (cx_session_objs s)"
  shows "marks_ok {} (fst (on_session i BlockChanged (set_session i x s)))"
proof -
  let ?s = "set_session i x s"
  have t: "cx_coins ?s = cx_coins s" "cx_sessions ?s = cx_sessions s" "cx_accounts ?s = cx_accounts s"
    "length (cx_session_objs ?s) = length (cx_session_objs s)" by (simp_all add: set_session_def)
  have "mark_ok ?s y" if "mark_ok s y" "co_session y \<noteq> i" for y
    using that
    by (simp add: mark_ok_def coin_followed_def past_expiry_def session_block_height_def set_session_def split: json.split)
  moreover have "objects_ok ?s" using marks_objects [OF ok] by simp
  moreover have "set (session_coins i ?s) = {c. c < length (cx_coins s) \<and> co_session (cx_coins s ! c) = i}"
    by (auto simp: session_coins_def t)
  ultimately have "marks_ok (set (session_coins i ?s)) ?s" using ok by (simp add: marks_ok_def t)
  from marks_expire_coins [OF this] i show ?thesis by (simp add: session_coins_def t)
qed

interpretation marks_all: store_steps "marks_ok {}"
proof unfold_locales
  show "marks_ok {} (fst (session_does i e s))" if ok: "marks_ok {} s" and i: "i < length (cx_session_objs s)" for i e s
  proof -
    let ?x = "cx_session_objs s ! i"
    let ?r = "session_step ?x e"
    have run: "fst (session_does i e s) = fst (on_session_outputs i (snd ?r) (set_session i (fst ?r) s))"
      by (simp add: session_does_def case_prod_beta)
    show ?thesis
    proof (cases "s_block (fst ?r) = s_block ?x")
      case True
      from marks.inv_on_session_outputs [OF marks_set_session [OF ok True]] show ?thesis by (simp add: run)
    next
      case False
      then obtain n d where out: "snd ?r = [NotificationHandled n, EventsChanged, BlockChanged, BlockEvent d]"
        using session_block [of ?x e] by auto
      have "marks_ok {} (fst (on_session_outputs i [BlockEvent d] (fst (on_session i BlockChanged (set_session i (fst ?r) s)))))"
        by (rule marks.inv_on_session_outputs [OF marks_new_block [OF ok i]])
      then show ?thesis by (simp add: run out case_prod_beta Let_def)
    qed
  qed
qed

interpretation marks_run: keeps store_step "\<lambda>e. True" "marks_ok {}"
  by unfold_locales (rule marks_all.inv_step)

lemma new_store_marks [simp]: "marks_ok {} (new_store st w d c wo)"
  by (simp add: marks_ok_def) (simp add: new_store_def)

end
