(* ===== verification/Context_Models.thy ===== *)
theory Context_Models
  imports Context_Flow
begin

text \<open>
  The lists a view shows of a context (\<open>src/contextmodel.{h,cpp}\<close>): a filter on the rows of one of
  its lists, and the export of what it lets through as a table.  The order of the rows, which Qt sorts
  by the sort key, is the order in which they are given.  Texts of dates and of amounts are left to Qt
  and to the library: they are parameters of the export.
\<close>

section \<open>Filters\<close>

text \<open>Assets are objects that are unique for their id, so they are ids here.\<close>

record model_filter =
  mf_accounts :: "nat list"
  mf_assets :: "string list"
  mf_types :: "string list"
  mf_statuses :: "string list"
  mf_has_transactions :: bool
  mf_text :: string

definition no_filter :: model_filter where
  "no_filter = \<lparr>mf_accounts = [], mf_assets = [], mf_types = [], mf_statuses = [],
     mf_has_transactions = False, mf_text = []\<rparr>"

definition set_filter_text :: "string \<Rightarrow> model_filter \<Rightarrow> model_filter" where
  "set_filter_text t f = f\<lparr>mf_text := t\<rparr>"

definition clear_filters :: "model_filter \<Rightarrow> model_filter" where
  "clear_filters f = f\<lparr>mf_accounts := [], mf_assets := [], mf_text := [], mf_types := [], mf_statuses := [],
     mf_has_transactions := False\<rparr>"

definition set_filter_account :: "nat \<Rightarrow> model_filter \<Rightarrow> model_filter" where
  "set_filter_account a f = f\<lparr>mf_accounts := [a]\<rparr>"

definition set_filter_asset :: "string \<Rightarrow> model_filter \<Rightarrow> model_filter" where
  "set_filter_asset i f = f\<lparr>mf_assets := [i]\<rparr>"

text \<open>The four \<open>updateFilter...\<close> of lists do the same to their list.\<close>

definition toggle :: "'a \<Rightarrow> bool \<Rightarrow> 'a list \<Rightarrow> 'a list" where
  "toggle x b xs =
     (if b then (if x \<in> set xs then xs else xs @ [x]) else (if x \<in> set xs then remove1 x xs else xs))"

definition update_filter_accounts :: "nat \<Rightarrow> bool \<Rightarrow> model_filter \<Rightarrow> model_filter" where
  "update_filter_accounts a b f = f\<lparr>mf_accounts := toggle a b (mf_accounts f)\<rparr>"

definition update_filter_assets :: "string \<Rightarrow> bool \<Rightarrow> model_filter \<Rightarrow> model_filter" where
  "update_filter_assets i b f = f\<lparr>mf_assets := toggle i b (mf_assets f)\<rparr>"

definition update_filter_types :: "string \<Rightarrow> bool \<Rightarrow> model_filter \<Rightarrow> model_filter" where
  "update_filter_types t b f = f\<lparr>mf_types := toggle t b (mf_types f)\<rparr>"

definition update_filter_statuses :: "string \<Rightarrow> bool \<Rightarrow> model_filter \<Rightarrow> model_filter" where
  "update_filter_statuses t b f = f\<lparr>mf_statuses := toggle t b (mf_statuses f)\<rparr>"

definition update_filter_has_transactions :: "bool \<Rightarrow> model_filter \<Rightarrow> model_filter" where
  "update_filter_has_transactions b f = f\<lparr>mf_has_transactions := b\<rparr>"

section \<open>What a list lets through\<close>

definition filter_text_accepts_transaction :: "model_filter \<Rightarrow> account_tx \<Rightarrow> bool" where
  "filter_text_accepts_transaction f x \<longleftrightarrow>
     mf_text f = [] \<or> contains_text (mf_text f) (at_id x) \<or>
     (at_memo x \<noteq> [] \<and> contains_text (mf_text f) (at_memo x)) \<or>
     list_ex (\<lambda>v. contains_text (mf_text f) (to_string (jvalue (to_object v) ''address'')))
       (to_array (jvalue (at_data x) ''outputs''))"

definition has_asset :: "string \<Rightarrow> account_tx \<Rightarrow> bool" where
  "has_asset i x \<longleftrightarrow> jcontains (to_object (jvalue (at_data x) ''satoshi'')) i"

definition transaction_accepted :: "model_filter \<Rightarrow> account_tx \<Rightarrow> bool" where
  "transaction_accepted f x \<longleftrightarrow>
     jcontains (at_data x) ''satoshi'' \<and> jcontains (at_data x) ''type'' \<and>
     (mf_accounts f = [] \<or> at_account x \<in> set (mf_accounts f)) \<and>
     (mf_assets f = [] \<or> list_ex (\<lambda>i. has_asset i x) (mf_assets f)) \<and>
     filter_text_accepts_transaction f x"

definition address_accepted :: "model_filter \<Rightarrow> address \<Rightarrow> bool" where
  "address_accepted f x \<longleftrightarrow>
     (mf_accounts f = [] \<or> list_ex (\<lambda>a. ad_account x = Some a) (mf_accounts f)) \<and>
     (mf_text f = [] \<or> contains_text (mf_text f) (ad_value x)) \<and>
     (mf_types f = [] \<or> ad_type x \<in> set (mf_types f)) \<and>
     (\<not> mf_has_transactions f \<or> to_int (jvalue (ad_data x) ''tx_count'') > 0)"

definition coin_accepted :: "model_filter \<Rightarrow> coin \<Rightarrow> bool" where
  "coin_accepted f x \<longleftrightarrow>
     co_spending x = None \<and>
     (mf_accounts f = [] \<or> co_account x \<in> set (mf_accounts f)) \<and>
     (mf_assets f = [] \<or> list_ex (\<lambda>i. co_asset x = Some i) (mf_assets f)) \<and>
     (mf_text f = [] \<or> contains_text (mf_text f) (co_address x))"

definition payment_accepted :: "model_filter \<Rightarrow> payment \<Rightarrow> bool" where
  "payment_accepted f x \<longleftrightarrow>
     (mf_statuses f = [] \<or> py_status x \<in> set (mf_statuses f)) \<and>
     py_transaction x = None \<and> py_status x = ''SETTLING''"

definition transaction_model :: "model_filter \<Rightarrow> store \<Rightarrow> nat list" where
  "transaction_model f s = filter (\<lambda>t. transaction_accepted f (cx_txs s ! t)) (map fst (cx_tx_rows s))"

definition address_model :: "model_filter \<Rightarrow> store \<Rightarrow> nat list" where
  "address_model f s = filter (\<lambda>d. address_accepted f (cx_addresses s ! d)) (cx_address_rows s)"

definition coin_model :: "model_filter \<Rightarrow> store \<Rightarrow> nat list" where
  "coin_model f s = filter (\<lambda>c. coin_accepted f (cx_coins s ! c)) (map fst (cx_coin_rows s))"

definition payment_model :: "model_filter \<Rightarrow> store \<Rightarrow> nat list" where
  "payment_model f s = filter (\<lambda>p. payment_accepted f (cx_payments s ! p)) (map fst (cx_payment_rows s))"

section \<open>Export\<close>

fun join_with :: "string \<Rightarrow> string list \<Rightarrow> string" where
  "join_with sep [] = []"
| "join_with sep [x] = x"
| "join_with sep (x # y # ys) = x @ sep @ join_with sep (y # ys)"

definition newline :: string where
  "newline = [CHR 0x0A]"

definition table_text :: "string list list \<Rightarrow> string" where
  "table_text rows = join_with newline (map (join_with '','') rows)"

definition shown_name :: "string \<Rightarrow> account \<Rightarrow> string" where
  "shown_name main x = (if ac_name x = [] then main else ac_name x)"

text \<open>
  \<open>AddressModel::exportToFile\<close>; \<open>None\<close> is the null account of an address that it follows, and \<open>main\<close> the
  translated name of a main account.
\<close>

definition address_values :: "string \<Rightarrow> store \<Rightarrow> nat \<Rightarrow> string list option" where
  "address_values main s d =
     (let x = cx_addresses s ! d
      in map_option (\<lambda>a. [n_display_name (ac_network (cx_accounts s ! a)), shown_name main (cx_accounts s ! a),
             ad_value x, string_of_int (to_int (jvalue (ad_data x) ''tx_count''))]) (ad_account x))"

definition export_addresses :: "string \<Rightarrow> store \<Rightarrow> nat list \<Rightarrow> string option" where
  "export_addresses main s rows =
     map_option (\<lambda>lines. table_text ([''network'', ''account'', ''address'', ''tx_count''] # lines))
       (those (map (address_values main s) rows))"

text \<open>
  \<open>TransactionModel::exportToFile\<close>.  The parameters: the text of the date a JSON number denotes, the
  conversion of an amount (\<open>Wallet::convert\<close>), the data of an asset, and an amount of an asset as a
  decimal number of a precision.
\<close>

record export_env =
  ee_main :: string
  ee_time :: "json \<Rightarrow> string"
  ee_convert :: "json \<Rightarrow> jobject"
  ee_asset :: "string \<Rightarrow> jobject"
  ee_decimal :: "int \<Rightarrow> int \<Rightarrow> string"

definition export_unit :: "string \<Rightarrow> string" where
  "export_unit u = replace_all (CHR 0xB5 # ''btc'') ''ubtc'' (to_lower u)"

definition clean_memo :: "string \<Rightarrow> string" where
  "clean_memo m = replace_all '','' ''-'' (replace_all newline '' '' m)"

text \<open>The header, from the settings of the first session and the date.\<close>

definition export_fields :: "session \<Rightarrow> string \<Rightarrow> string list" where
  "export_fields x date =
     (let pricing = to_object (jvalue (s_settings x) ''pricing'');
          currency = (if n_mainnet (s_network x) then to_string (jvalue pricing ''currency'') else ''FIAT'')
      in [''time'', ''network'', ''account'', ''description'', ''amount'', ''unit'',
          ''fee ('' @ s_display_unit x @ '')'',
          ''fiat ('' @ currency @ '' '' @ to_string (jvalue pricing ''exchange'') @ '' '' @ date @ '')'',
          ''txhash'', ''memo''])"

definition export_values :: "export_env \<Rightarrow> session \<Rightarrow> account \<Rightarrow> jobject \<Rightarrow> string \<times> json \<Rightarrow> string list" where
  "export_values ee x a data = (\<lambda>(asset, v).
     (let unit = export_unit (s_unit x); n = ac_network a; other = (asset \<noteq> n_policy_asset n);
          info = ee_asset ee asset
      in [ee_time ee (jvalue data ''created_at_ts''),
          n_display_name n,
          shown_name (ee_main ee) a,
          to_string (jvalue data ''type''),
          (if other then ee_decimal ee (to_integer v) (to_int (jvalue info ''precision''))
           else to_string (jvalue (ee_convert ee v) unit)),
          (if other then to_string (jvalue info ''ticker'') else s_display_unit x),
          (if to_string (jvalue data ''type'') = ''outgoing''
           then to_string (jvalue (ee_convert ee (JInt (to_int (jvalue data ''fee'')))) unit) else []),
          (if other then [] else to_string (jvalue (ee_convert ee (JInt (to_integer v))) ''fiat'')),
          to_string (jvalue data ''txhash''),
          clean_memo (to_string (jvalue data ''memo''))]))"

definition transaction_rows :: "export_env \<Rightarrow> session \<Rightarrow> store \<Rightarrow> nat \<Rightarrow> string list list" where
  "transaction_rows ee x s t =
     (let tx = cx_txs s ! t; data = at_data tx
      in if to_int (jvalue data ''block_height'') = 0 then []
         else map (export_values ee x (cx_accounts s ! at_account tx) data)
                (to_object (jvalue data ''satoshi'')))"

definition export_transactions :: "export_env \<Rightarrow> session \<Rightarrow> string \<Rightarrow> store \<Rightarrow> nat list \<Rightarrow> string" where
  "export_transactions ee x date s rows =
     table_text (export_fields x date # concat (map (transaction_rows ee x s) rows))"

end
