(* ===== verification/Context_Select.thy ===== *)
theory Context_Select
  imports Context_Models
begin

text \<open>
  The list that coins to spend are selected from (\<open>src/outputlistmodel.cpp\<close>,
  \<open>src/outputlistmodelfilter.cpp\<close>): it asks the library for the unspent coins of an account itself,
  and a filter, a text of words, lets some of them through.  The order of the rows is left to Qt.
\<close>

section \<open>The list\<close>

text \<open>
  \<open>cl_asked\<close> is the account of the task that is under way, and \<open>cl_sessions\<close> the sessions
  whose events the list is connected to, once for each connection.  \<open>m_account\<close> has no initial value in
  the code; it is null here.
\<close>

record coin_list =
  cl_account :: "nat option"
  cl_fetching :: bool
  cl_asked :: "nat option"
  cl_outputs :: "nat list"
  cl_sessions :: "nat list"

definition new_coin_list :: coin_list where
  "new_coin_list = \<lparr>cl_account = None, cl_fetching = False, cl_asked = None, cl_outputs = [], cl_sessions = []\<rparr>"

datatype list_output =
    AskUnspent nat
  | StoreSays store_output
  | NullAccount

definition list_fetch :: "coin_list \<Rightarrow> coin_list \<times> list_output list" where
  "list_fetch l =
     (case cl_account l of
        None \<Rightarrow> (l, [])
      | Some a \<Rightarrow> if cl_fetching l then (l, [])
                  else (l\<lparr>cl_asked := Some a, cl_fetching := True\<rparr>, [AskUnspent a]))"

definition list_set_account ::
    "nat option \<Rightarrow> store \<Rightarrow> coin_list \<Rightarrow> (store \<times> coin_list) \<times> list_output list" where
  "list_set_account a s l =
     (if cl_account l = a then ((s, l), [])
      else (let l1 = (if cl_account l \<noteq> None then l\<lparr>cl_outputs := []\<rparr> else l);
                (l2, out) = list_fetch (l1\<lparr>cl_account := a\<rparr>)
            in (case a of
                  None \<Rightarrow> ((s, l2), out)
                | Some b \<Rightarrow> (let (i, s1, out1) = account_session b s
                            in ((s1, l2\<lparr>cl_sessions := cl_sessions l2 @ [i]\<rparr>), out @ map StoreSays out1)))))"

text \<open>The coins of the answer, which the account of that moment finds or makes.\<close>

fun get_outputs :: "nat \<Rightarrow> json list \<Rightarrow> store \<Rightarrow> nat list \<times> store \<times> store_output list" where
  "get_outputs a [] s = ([], s, [])"
| "get_outputs a (v # vs) s =
     (let (c, s1, out1) = get_or_create_output a (to_object v) s; (cs, s2, out2) = get_outputs a vs s1
      in (c # cs, s2, out1 @ out2))"

definition unspent_values :: "jobject \<Rightarrow> json list" where
  "unspent_values unspent = concat (map (\<lambda>(i, v). to_array v) unspent)"

definition list_answered :: "jobject \<Rightarrow> store \<Rightarrow> coin_list \<Rightarrow> (store \<times> coin_list) \<times> list_output list" where
  "list_answered unspent s l =
     (case cl_account l of
        None \<Rightarrow> if unspent_values unspent = [] then ((s, l\<lparr>cl_asked := None, cl_outputs := [], cl_fetching := False\<rparr>), [])
                else ((s, l), [NullAccount])
      | Some a \<Rightarrow> (let (cs, s1, out) = get_outputs a (unspent_values unspent) s
                  in ((s1, l\<lparr>cl_asked := None, cl_outputs := cs, cl_fetching := False\<rparr>), map StoreSays out)))"

text \<open>Only the end of a task is connected: after a failure the list goes on waiting.\<close>

definition list_failed :: "coin_list \<Rightarrow> coin_list" where
  "list_failed l = l\<lparr>cl_asked := None\<rparr>"

text \<open>A session tells of transactions: each connection to it looks at the account of that moment.\<close>

fun list_transactions :: "nat \<Rightarrow> json list \<Rightarrow> store \<Rightarrow> coin_list \<Rightarrow> coin_list \<times> list_output list" where
  "list_transactions 0 ps s l = (l, [])"
| "list_transactions (Suc k) ps s l =
     (case cl_account l of
        None \<Rightarrow> if ps = [] then (l, []) else (l, [NullAccount])
      | Some a \<Rightarrow>
          (let (l1, out1) = (if list_ex (\<lambda>p. to_int p mod 2 ^ 32 = ac_pointer (cx_accounts s ! a)) ps
                             then list_fetch l else (l, []));
               (l2, out2) = list_transactions k ps s l1
           in (l2, out1 @ out2)))"

fun update_coins :: "nat list \<Rightarrow> store \<Rightarrow> store_result" where
  "update_coins [] s = (s, [])"
| "update_coins (c # cs) s =
     (let (s1, out1) = coin_update c s; (s2, out2) = update_coins cs s1 in (s2, out1 @ out2))"

text \<open>A session tells of a block, to each connection.\<close>

fun list_block :: "nat \<Rightarrow> store \<Rightarrow> coin_list \<Rightarrow> (store \<times> coin_list) \<times> list_output list" where
  "list_block 0 s l = ((s, l), [])"
| "list_block (Suc k) s l =
     (if list_ex (\<lambda>c. co_unconfirmed (cx_coins s ! c)) (cl_outputs l) then
        (let (l1, out1) = list_fetch l; (r, out2) = list_block k s l1 in (r, out1 @ out2))
      else
        (let (s1, out1) = update_coins (cl_outputs l) s; (r, out2) = list_block k s1 l
         in (r, map StoreSays out1 @ out2)))"

datatype list_event =
    ListAccount "nat option"
  | ListFetch
  | ListAnswered jobject
  | ListFailed
  | ListTransactions nat jobject
  | ListBlock nat

definition connections :: "nat \<Rightarrow> coin_list \<Rightarrow> nat" where
  "connections i l = count_list (cl_sessions l) i"

fun list_step :: "store \<times> coin_list \<Rightarrow> list_event \<Rightarrow> (store \<times> coin_list) \<times> list_output list" where
  "list_step (s, l) (ListAccount a) = list_set_account a s l"
| "list_step (s, l) ListFetch = (let (l1, out) = list_fetch l in ((s, l1), out))"
| "list_step (s, l) (ListAnswered unspent) = (if cl_asked l = None then ((s, l), []) else list_answered unspent s l)"
| "list_step (s, l) ListFailed = ((s, if cl_asked l = None then l else list_failed l), [])"
| "list_step (s, l) (ListTransactions i event) =
     (let (l1, out) = list_transactions (connections i l) (to_array (jvalue event ''subaccounts'')) s l
      in ((s, l1), out))"
| "list_step (s, l) (ListBlock i) = list_block (connections i l) s l"

section \<open>The filter\<close>

fun cut_at_spaces :: "string \<Rightarrow> string list" where
  "cut_at_spaces [] = [[]]"
| "cut_at_spaces (x # xs) =
     (if x = CHR '' '' then [] # cut_at_spaces xs
      else (case cut_at_spaces xs of [] \<Rightarrow> [[x]] | w # ws \<Rightarrow> (x # w) # ws))"

text \<open>\<open>QString::split\<close>, empty parts skipped.\<close>

definition filter_words :: "string \<Rightarrow> string list" where
  "filter_words t = filter (\<lambda>w. w \<noteq> []) (cut_at_spaces t)"

record coin_filter =
  of_asset :: "string option"
  of_text :: string

definition word_result :: "string \<Rightarrow> coin \<Rightarrow> bool" where
  "word_result w x =
     (if w = ''csv'' then co_address_type x = ''csv''
      else if w = ''p2wsh'' then co_address_type x = ''p2wsh''
      else if w = ''p2sh'' then co_address_type x = ''p2sh''
      else if w = ''dust'' then co_dust x
      else if w = ''locked'' then co_locked x
      else if w = ''not_confidential'' then \<not> co_confidential x
      else if w = ''expired'' then co_expired x
      else True)"

text \<open>The asset is looked at for each word, so that a filter without words lets every asset through.\<close>

definition word_accepts :: "coin_filter \<Rightarrow> string \<Rightarrow> coin \<Rightarrow> bool" where
  "word_accepts g w x \<longleftrightarrow>
     \<not> (of_asset g \<noteq> None \<and> of_asset g \<noteq> co_asset x) \<and>
     (if take 1 w = ''!'' then \<not> word_result (drop 1 w) x else word_result w x)"

definition filter_accepts :: "coin_filter \<Rightarrow> coin \<Rightarrow> bool" where
  "filter_accepts g x \<longleftrightarrow> list_all (\<lambda>w. word_accepts g w x) (filter_words (of_text g))"

definition offered_coins :: "coin_filter \<Rightarrow> store \<Rightarrow> coin_list \<Rightarrow> nat list" where
  "offered_coins g s l = filter (\<lambda>c. filter_accepts g (cx_coins s ! c)) (cl_outputs l)"

end
