(* ===== verification/Context_View_Props.thy ===== *)
theory Context_View_Props
  imports Context_Props Context_Marks Context_Select
begin

text \<open>
  What the context shows of coins: the notification about expired ones and the list of those to be
  spent; and tables: what an export can be read back to.  Two more facts about log-ins and addresses.
\<close>

section \<open>Coins\<close>

lemma reached_notices:
  "objects_ok (fst (run store_step (new_store st w dv cr wo) es)) \<and>
   listed_ok (notice_view (fst (run store_step (new_store st w dv cr wo) es)))"
  by (rule notices_run.inv_run) (simp_all add: list_all_iff)

lemma reached_marks: "marks_ok {} (fst (run store_step (new_store st w dv cr wo) es))"
  by (rule marks_run.inv_run) (simp_all add: list_all_iff)

lemma reached_inputs: "inputs_spent {} (fst (run store_step (new_store st w dv cr wo) es))"
  by (rule inputs_run.inv_run) (simp_all add: list_all_iff)

lemma overdue_coins:
  "overdue (fst (notice_view s)) = {c. c < length (cx_coins s) \<and> is_overdue s (cx_coins s ! c)}"
  by (auto simp: overdue_def notice_view_def)

lemma overdue_accounts:
  "(\<lambda>c. fst (fst (notice_view s) ! c)) ` overdue (fst (notice_view s)) =
    coin_account s ` {c. c < length (cx_coins s) \<and> is_overdue s (cx_coins s ! c)}"
  unfolding overdue_coins by (rule image_cong) (simp_all add: notice_view_def coin_account_def)

text \<open>
  What the user should be told of: a coin of a multisig account that is past its expiry and not spent, in
  a wallet that is not watch-only.  A coin whose session has been released is not told of new blocks; it
  counts as it was marked last.
\<close>

definition is_late :: "store \<Rightarrow> coin \<Rightarrow> bool" where
  "is_late s x \<longleftrightarrow> (if coin_followed s x then past_expiry s x else co_expired x) \<and> co_spending x = None \<and>
     \<not> cx_watchonly s \<and> \<not> n_electrum (ac_network (cx_accounts s ! co_account x))"

lemma late_overdue:
  "marks_ok {} s \<Longrightarrow> c < length (cx_coins s) \<Longrightarrow> is_late s (cx_coins s ! c) \<longleftrightarrow> is_overdue s (cx_coins s ! c)"
  by (auto simp: marks_ok_def mark_ok_def is_late_def is_overdue_def)

text \<open>
  C26.  The user is told of exactly the coins that have expired.  After any history of a wallet (blocks
  that come, coins and transactions that are fetched in any order and with any content, sessions that
  are released and made again, other notifications that come and go; the functions that add
  notifications for tests apart), there is a notification about expired coins if and only if some coin
  of a multisig account is late: not spent, with an expiry height that the block height of its
  session has reached, in a wallet that is not watch-only.  There is then only one, and it lists those
  coins and no others, and their accounts.  The height is compared for every coin whose session is
  still the session of its network; a coin whose session has been released and made again is late if it
  was when it was last brought up to date, because it does not hear of blocks any more.
\<close>

theorem expired_notification_exact:
  "let s = fst (run store_step (new_store st w dv cr wo) es);
       told = filter (\<lambda>k. is_expired_note (cx_note_objs s ! k)) (cx_notes s);
       late = {c. c < length (cx_coins s) \<and> is_late s (cx_coins s ! c)}
   in length told \<le> 1 \<and> (told = [] \<longleftrightarrow> late = {}) \<and>
      (\<Union>k \<in> set told. set (note_coins (cx_note_objs s ! k))) = late \<and>
      (\<Union>k \<in> set told. set (note_accounts (cx_note_objs s ! k))) = coin_account s ` late"
proof -
  define s where "s = fst (run store_step (new_store st w dv cr wo) es)"
  define told where "told = expired_notes (cx_notes s) (cx_note_objs s)"
  define late where "late = {c. c < length (cx_coins s) \<and> is_late s (cx_coins s ! c)}"
  have "late = {c. c < length (cx_coins s) \<and> is_overdue s (cx_coins s ! c)}"
    using late_overdue [OF reached_marks [of st w dv cr wo es]] by (auto simp: late_def s_def)
  then have fl: "overdue (fst (notice_view s)) = late"
    "(\<lambda>c. fst (fst (notice_view s) ! c)) ` late = coin_account s ` late"
    using overdue_accounts [of s] overdue_coins [of s] by simp_all
  have "listed_ok (fst (notice_view s), cx_notes s, cx_note_objs s)"
    using reached_notices [of st w dv cr wo es] by (simp add: s_def notice_view_def)
  then have "case told of [] \<Rightarrow> late = {}
      | k # ks \<Rightarrow> ks = [] \<and> late \<noteq> {} \<and> lists_exactly (fst (notice_view s)) (cx_note_objs s ! k)"
    by (simp add: listed_ok_def told_def fl split: list.splits)
  then have "length told \<le> 1 \<and> (told = [] \<longleftrightarrow> late = {}) \<and>
      (\<Union>k \<in> set told. set (note_coins (cx_note_objs s ! k))) = late \<and>
      (\<Union>k \<in> set told. set (note_accounts (cx_note_objs s ! k))) = coin_account s ` late"
    by (cases told) (auto simp: lists_exactly_def fl)
  then show ?thesis by (simp add: Let_def told_def expired_notes_def late_def s_def)
qed

definition demo_coin :: json where
  "demo_coin = JObj [(''expiry_height'', JInt 5), (''pt_idx'', JInt 0), (''satoshi'', JInt 9000), (''txhash'', JStr ''c'')]"

definition demo_spend :: json where
  "demo_spend = JObj [(''inputs'', JArr [demo_coin]), (''txhash'', JStr ''a'')]"

definition demo_block :: "int \<Rightarrow> session_event" where
  "demo_block h = Notified [(''block'', JObj [(''block_height'', JInt h)]), (''event'', JStr ''block'')]"

text \<open>
  A coin that expires at height 5, for which block 10 comes: the user is told.  When the log-in of the
  network has failed and its session has been made again in between, the user is not.
\<close>

theorem expired_notification_exact_witness:
  "\<exists>s t. cx_notes s \<noteq> [] \<and> is_late s (cx_coins s ! 0) \<and>
     cx_notes t = [] \<and> session_block_height 1 t = 10 \<and> \<not> is_late t (cx_coins t ! 0)"
proof -
  let ?new = "new_store demo_settings (Some True) True [] False"
  let ?es = "[LoginNetwork demo_network, AccountLoaded demo_network [(''pointer'', JInt 1)],
    CoinsFetched 0 [(''btc'', JArr [demo_coin])]]"
  let ?fs = "?es @ [SessionDoes 0 (demo_block 10)]"
  let ?gs = "?es @ [NetworkLoginFailed 0, AccountsReady [0], SessionDoes 1 (demo_block 10)]"
  define s where "s = fst (run store_step ?new ?fs)"
  define t where "t = fst (run store_step ?new ?gs)"
  have "is_late s (cx_coins s ! 0)" "0 < length (cx_coins s)" unfolding s_def by code_simp+
  then have "cx_notes s \<noteq> []"
    using expired_notification_exact [of demo_settings "Some True" True "[]" False ?fs] by (auto simp: Let_def s_def)
  moreover have "session_block_height 1 t = 10" "cx_notes t = []" "\<not> is_late t (cx_coins t ! 0)"
    unfolding t_def by code_simp+
  ultimately show ?thesis using \<open>is_late s (cx_coins s ! 0)\<close> by blast
qed

text \<open>
  C28.  The list of coins does not show a coin that a transaction spends.  After any history, let the
  context be told of a transaction of an account, by a page of transactions that has been fetched or
  because the transaction has just been sent, and whatever happens afterwards.  Then the account knows
  each input of the transaction as a coin, and the list of the coins on the page of transactions does not
  show it, whatever filter is set.  This also holds when the transaction is dropped: when the server
  does not have it any more, it disappears from the list of transactions, and when the library
  then reports the coin as unspent again, the coin is still not shown.  (The list that coins to
  spend are selected from does not look at the transactions of the context.)
\<close>

theorem spent_coin_hidden:
  assumes "s = fst (run store_step (new_store st w dv cr wo) es0)" and "a < length (cx_accounts s)"
    and "d \<in> set (told_of a e)" and "v \<in> set (to_array (jvalue d ''inputs''))"
    and "s' = fst (run store_step s (e # es))"
  shows "\<exists>c. get_output a (to_object v) s' = Some c \<and> c < length (cx_coins s') \<and> c \<notin> set (coin_model f s')"
proof -
  obtain c where "found_spent a (output_key (to_object v)) c (fst (store_step s e))"
    using told_inputs_spent [of s a d e v] reached_inputs assms by (auto simp: tx_inputs_def)
  then have "found_spent a (output_key (to_object v)) c s'"
    using found_run.inv_run [of True a "output_key (to_object v)" c "fst (store_step s e)" es] assms(5)
    by (simp add: list_all_iff case_prod_beta)
  then show ?thesis
    by (intro exI [of _ c]) (auto simp: found_coin_def get_output_def coin_model_def coin_accepted_def)
qed

theorem spent_coin_hidden_witness:
  "\<exists>s. listing 0 s ''a'' = None \<and> 0 \<in> fst ` set (cx_coin_rows s) \<and> 0 \<notin> set (coin_model no_filter s)"
proof -
  let ?es = "[AccountLoaded demo_network [(''pointer'', JInt 1)], CoinsFetched 0 [(''btc'', JArr [demo_coin])],
    AccountsReady [0]]"
  let ?e = "PageFetched 5 0 0 [demo_spend]"
  let ?fs = "[AccountsReady [0], PageFetched 6 0 0 [], CoinsFetched 0 [(''btc'', JArr [demo_coin])]]"
  define s where "s = fst (run store_step (new_store demo_settings (Some True) True [] False) ?es)"
  define s' where "s' = fst (run store_step s (?e # ?fs))"
  have "0 < length (cx_accounts s)" unfolding s_def by code_simp
  moreover have "to_object demo_spend \<in> set (told_of 0 ?e)" by simp
  moreover have "demo_coin \<in> set (to_array (jvalue (to_object demo_spend) ''inputs''))" by code_simp
  ultimately obtain c where c: "get_output 0 (to_object demo_coin) s' = Some c" "c \<notin> set (coin_model no_filter s')"
    using spent_coin_hidden [OF s_def _ _ _ s'_def] by blast
  moreover have "get_output 0 (to_object demo_coin) s' = Some 0" unfolding s'_def s_def by code_simp
  ultimately have "0 \<notin> set (coin_model no_filter s')" by simp
  moreover have "listing 0 s' ''a'' = None" unfolding s'_def s_def by code_simp
  moreover have "0 \<in> fst ` set (cx_coin_rows s')" unfolding s'_def s_def by code_simp
  ultimately show ?thesis by blast
qed

section \<open>Coins to select\<close>

lemma get_outputs_found:
  assumes "objects_ok s" and "a < length (cx_accounts s)" and "get_outputs a vs s = (cs, s', out)"
  shows "list_all2 (\<lambda>v c. found_coin False a (output_key (to_object v)) c s') vs cs"
    and "found_coin p b k d s \<Longrightarrow> found_coin p b k d s'"
proof -
  have "list_all2 (\<lambda>v c. found_coin False a (output_key (to_object v)) c s') vs cs \<and>
    (\<forall>p b i j d. found_coin p b (i, j) d s \<longrightarrow> found_coin p b (i, j) d s')"
    using assms
  proof (induction vs arbitrary: s cs out)
    case (Cons v vs)
    obtain c s1 out1 where one: "get_or_create_output a (to_object v) s = (c, s1, out1)"
      by (cases "get_or_create_output a (to_object v) s") auto
    obtain cs2 s2 out2 where two: "get_outputs a vs s1 = (cs2, s2, out2)" by (cases "get_outputs a vs s1") auto
    from Cons.prems(3) have r: "cs = c # cs2" "s' = s2" by (auto simp: one two)
    have first: "found_coin False a (output_key (to_object v)) c s1" by (rule coin_found [OF Cons.prems(1,2) one])
    then have ok: "objects_ok s1" "a < length (cx_accounts s1)" by (simp_all add: found_coin_def)
    have kept: "found_coin p b k d s1" if "found_coin p b k d s" for p b k d
    proof -
      have "b < length (cx_accounts s)" using that by (simp add: found_coin_def)
      then show ?thesis using found.coin_got [OF that, of a "to_object v"] Cons.prems(2) one by simp
    qed
    show ?case using Cons.IH [OF ok] two first kept by (cases "output_key (to_object v)") (auto simp: r)
  qed simp
  then show "list_all2 (\<lambda>v c. found_coin False a (output_key (to_object v)) c s') vs cs"
    "found_coin p b k d s \<Longrightarrow> found_coin p b k d s'" by (simp, cases k) blast
qed

text \<open>
  C11.  The list that coins to spend are selected from follows the answer of the library, not what the
  context knows of spending.  After any history, let the context be told of a transaction of an account,
  let anything happen afterwards, and then let the library answer the list's question for the coins of
  that account.  Then the list has one row for each coin of the answer, in the order of the answer: the
  coin the account knows under its transaction and index.  If the answer names an input of the transaction (which
  the library does again when the transaction has been dropped), then the first tab, which filters by
  the asset and for coins that are not locked, offers the coin exactly if it is of the asset and not locked, although
  the list of coins on the page of transactions does not show it (C28).
\<close>

theorem selection_follows_answer:
  assumes "s = fst (run store_step (new_store st w dv cr wo) es0)" and "a < length (cx_accounts s)"
    and "d \<in> set (told_of a e)" and "v \<in> set (to_array (jvalue d ''inputs''))"
    and "s1 = fst (run store_step s (e # es))" and "cl_account l = Some a" and "cl_asked l \<noteq> None"
    and "u \<in> set (unspent_values unspent)" and "output_key (to_object u) = output_key (to_object v)"
    and "list_step (s1, l) (ListAnswered unspent) = ((s', l'), out)"
  shows "list_all2 (\<lambda>x c. get_output a (to_object x) s' = Some c) (unspent_values unspent) (cl_outputs l') \<and>
    (\<exists>c. get_output a (to_object v) s' = Some c \<and> c \<notin> set (coin_model f s') \<and>
       (c \<in> set (offered_coins \<lparr>of_asset = Some i, of_text = '' !locked''\<rparr> s' l') \<longleftrightarrow>
          \<not> co_locked (cx_coins s' ! c) \<and> co_asset (cx_coins s' ! c) = Some i))"
proof -
  obtain c where "found_spent a (output_key (to_object v)) c (fst (store_step s e))"
    using told_inputs_spent [of s a d e v] reached_inputs assms by (auto simp: tx_inputs_def)
  then have c1: "found_spent a (output_key (to_object v)) c s1"
    using found_run.inv_run [of True a "output_key (to_object v)" c "fst (store_step s e)" es] assms(5)
    by (simp add: list_all_iff case_prod_beta)
  then have ok: "objects_ok s1" "a < length (cx_accounts s1)" by (simp_all add: found_coin_def)
  obtain cs s2 out1 where two: "get_outputs a (unspent_values unspent) s1 = (cs, s2, out1)"
    by (cases "get_outputs a (unspent_values unspent) s1") auto
  then have got: "get_outputs a (unspent_values unspent) s1 = (cs, s', out1)" and l': "cl_outputs l' = cs"
    using assms(6,7,10) by (auto simp: list_answered_def)
  note rows = get_outputs_found(1) [OF ok got]
  have c: "found_spent a (output_key (to_object v)) c s'" by (rule get_outputs_found(2) [OF ok got c1])
  have "\<exists>b \<in> set cs. found_coin False a (output_key (to_object u)) b s'"
    using rows assms(8) by (auto simp: list_all2_conv_all_nth in_set_conv_nth [of u]) (metis nth_mem)
  then have "c \<in> set cs" using c assms(9) by (auto simp: found_coin_def)
  moreover have "filter_words '' !locked'' = [''!locked'']" by code_simp
  ultimately have "c \<in> set (offered_coins \<lparr>of_asset = Some i, of_text = '' !locked''\<rparr> s' l') \<longleftrightarrow>
      \<not> co_locked (cx_coins s' ! c) \<and> co_asset (cx_coins s' ! c) = Some i"
    by (auto simp: offered_coins_def l' filter_accepts_def word_accepts_def word_result_def)
  moreover have "get_output a (to_object v) s' = Some c" "c \<notin> set (coin_model f s')"
    using c by (auto simp: found_coin_def get_output_def coin_model_def coin_accepted_def)
  moreover have "list_all2 (\<lambda>x c. get_output a (to_object x) s' = Some c) (unspent_values unspent) (cl_outputs l')"
    using rows by (auto simp: l' found_coin_def get_output_def elim: list_all2_mono)
  ultimately show ?thesis by blast
qed

text \<open>
  A coin, a transaction that spends it, the transaction is dropped, and the coin is offered for selection
  while the page of transactions hides it.
\<close>

theorem selection_follows_answer_witness:
  "\<exists>s l. cl_outputs l = [0] \<and> listing 0 s ''a'' = None \<and> 0 \<notin> set (coin_model no_filter s) \<and>
     0 \<in> set (offered_coins \<lparr>of_asset = Some ''btc'', of_text = '' !locked''\<rparr> s l)"
proof -
  let ?es = "[AccountLoaded demo_network [(''pointer'', JInt 1)], CoinsFetched 0 [(''btc'', JArr [demo_coin])],
    AccountsReady [0]]"
  let ?e = "PageFetched 5 0 0 [demo_spend]"
  let ?fs = "[AccountsReady [0], PageFetched 6 0 0 []]"
  let ?u = "[(''btc'', JArr [demo_coin])]"
  define s where "s = fst (run store_step (new_store demo_settings (Some True) True [] False) ?es)"
  define t where "t = fst (run store_step s (?e # ?fs))"
  define l where "l = snd (fst (list_step (t, new_coin_list) (ListAccount (Some 0))))"
  define s' where "s' = fst (fst (list_step (t, l) (ListAnswered ?u)))"
  define l' where "l' = snd (fst (list_step (t, l) (ListAnswered ?u)))"
  have step: "list_step (t, l) (ListAnswered ?u) = ((s', l'), snd (list_step (t, l) (ListAnswered ?u)))"
    by (simp add: s'_def l'_def)
  have "0 < length (cx_accounts s)" unfolding s_def by code_simp
  moreover have "to_object demo_spend \<in> set (told_of 0 ?e)" by simp
  moreover have "demo_coin \<in> set (to_array (jvalue (to_object demo_spend) ''inputs''))" by code_simp
  moreover have "cl_account l = Some 0" "cl_asked l \<noteq> None" unfolding l_def t_def s_def by code_simp+
  moreover have "demo_coin \<in> set (unspent_values ?u)" by code_simp
  ultimately obtain c where c: "get_output 0 (to_object demo_coin) s' = Some c" "c \<notin> set (coin_model no_filter s')"
    "c \<in> set (offered_coins \<lparr>of_asset = Some ''btc'', of_text = '' !locked''\<rparr> s' l') \<longleftrightarrow>
      \<not> co_locked (cx_coins s' ! c) \<and> co_asset (cx_coins s' ! c) = Some ''btc''"
    using selection_follows_answer [OF s_def _ _ _ t_def _ _ _ refl step] by blast
  moreover have "get_output 0 (to_object demo_coin) s' = Some 0" unfolding s'_def l_def t_def s_def by code_simp
  moreover have "\<not> co_locked (cx_coins s' ! 0)" "co_asset (cx_coins s' ! 0) = Some ''btc''"
    unfolding s'_def l_def t_def s_def by code_simp+
  moreover have "listing 0 s' ''a'' = None" "cl_outputs l' = [0]" unfolding s'_def l'_def l_def t_def s_def by code_simp+
  ultimately show ?thesis by auto
qed

text \<open>A list whose question has failed waits for ever: it does not ask again and keeps its rows.\<close>

definition list_stuck :: "nat list \<Rightarrow> coin_list \<Rightarrow> bool" where
  "list_stuck cs l \<longleftrightarrow> cl_fetching l \<and> cl_asked l = None \<and> cl_outputs l = cs"

lemma stuck_transactions: "list_stuck cs l \<Longrightarrow> fst (list_transactions k ps s l) = l"
  by (induction k) (auto simp: list_stuck_def list_fetch_def case_prod_beta Let_def split: option.split)

lemma stuck_block: "list_stuck cs l \<Longrightarrow> snd (fst (list_block k s l)) = l"
  by (induction k arbitrary: s) (auto simp: list_stuck_def list_fetch_def case_prod_beta Let_def split: option.split)

lemma failed_list_stuck:
  assumes "list_stuck cs l" and "\<And>a. ev \<noteq> ListAccount a"
  shows "list_stuck cs (snd (fst (list_step (s, l) ev)))"
  using assms stuck_transactions [OF assms(1)] stuck_block [OF assms(1)]
  by (cases ev) (auto simp: list_stuck_def list_fetch_def case_prod_beta Let_def split: option.split)

section \<open>Tables\<close>

text \<open>Reading a table: lines, and cells of a line.\<close>

fun split_on :: "char \<Rightarrow> string \<Rightarrow> string list" where
  "split_on c [] = [[]]"
| "split_on c (x # xs) = (if x = c then [] # split_on c xs
     else (case split_on c xs of [] \<Rightarrow> [[x]] | y # ys \<Rightarrow> (x # y) # ys))"

definition read_table :: "string \<Rightarrow> string list list" where
  "read_table t = map (split_on (CHR '','')) (split_on (CHR 0x0A) t)"

lemma split_on_plain [simp]: "c \<notin> set x \<Longrightarrow> split_on c x = [x]"
  by (induction x) auto

lemma split_on_append: "c \<notin> set x \<Longrightarrow> split_on c (x @ c # t) = x # split_on c t"
  by (induction x) auto

lemma split_join:
  "xs \<noteq> [] \<Longrightarrow> list_all (\<lambda>x. c \<notin> set x) xs \<Longrightarrow> split_on c (join_with [c] xs) = xs"
proof (induction "[c]" xs rule: join_with.induct)
  case (3 x y ys)
  then show ?case using split_on_append [of c x "join_with [c] (y # ys)"] by simp
qed simp_all

lemma join_chars: "set (join_with sep xs) \<subseteq> set sep \<union> \<Union> (set ` set xs)"
  by (induction sep xs rule: join_with.induct) auto

definition plain_cell :: "string \<Rightarrow> bool" where
  "plain_cell x \<longleftrightarrow> CHR '','' \<notin> set x \<and> CHR 0x0A \<notin> set x"

lemma read_table_text:
  assumes "rows \<noteq> []" and "list_all (\<lambda>r. r \<noteq> [] \<and> list_all plain_cell r) rows"
  shows "read_table (table_text rows) = rows"
proof -
  have row: "CHR 0x0A \<notin> set (join_with '','' r) \<and> split_on (CHR '','') (join_with '','' r) = r"
    if "r \<in> set rows" for r
  proof -
    have r: "r \<noteq> []" "list_all plain_cell r" using assms(2) that by (auto simp: list_all_iff)
    then have "split_on (CHR '','') (join_with '','' r) = r"
      by (intro split_join) (auto simp: list_all_iff plain_cell_def)
    moreover have "CHR 0x0A \<notin> set (join_with '','' r)"
      using join_chars [of "'',''" r] r(2) by (auto simp: list_all_iff plain_cell_def)
    ultimately show ?thesis by simp
  qed
  have "split_on (CHR 0x0A) (table_text rows) = map (join_with '','') rows"
    unfolding table_text_def newline_def by (rule split_join) (use assms(1) row in \<open>auto simp: list_all_iff\<close>)
  then show ?thesis using row by (simp add: read_table_def map_idI)
qed

lemma replace_char: "replace_all [c] t s = concat (map (\<lambda>x. if x = c then t else [x]) s)"
  by (induction s) auto

lemma plain_memo: "plain_cell (clean_memo m)"
  by (auto simp: plain_cell_def clean_memo_def replace_char newline_def)

text \<open>
  C38.  An exported table can be read back, unless a name breaks it.  When no cell but the memo has a
  comma or a line break, the lines of the exported text and the cells of each line are the header and,
  in the order of the list, one row for each asset of each confirmed transaction, each with its ten
  values in the columns the header names; memos never break the table, whatever the user wrote, because
  their commas and line breaks are replaced.
\<close>

theorem exported_table_reads_back:
  assumes "list_all plain_cell (export_fields x date)"
    and "list_all (\<lambda>t. list_all (\<lambda>r. list_all plain_cell (butlast r)) (transaction_rows ee x s t)) rows"
  shows "read_table (export_transactions ee x date s rows) =
      export_fields x date # concat (map (transaction_rows ee x s) rows) \<and>
    length (export_fields x date) = 10 \<and>
    (\<forall>r \<in> set (concat (map (transaction_rows ee x s) rows)). length r = 10)"
proof -
  have last: "length r = 10 \<and> r \<noteq> [] \<and> plain_cell (last r)" if "r \<in> set (transaction_rows ee x s t)" for r t
    using that plain_memo
    by (auto simp: transaction_rows_def export_values_def Let_def case_prod_beta split: if_splits)
  have "list_all plain_cell r \<and> r \<noteq> []" if "r \<in> set (concat (map (transaction_rows ee x s) rows))" for r
  proof -
    from that obtain t where t: "t \<in> set rows" "r \<in> set (transaction_rows ee x s t)" by auto
    then have "list_all plain_cell (butlast r)" using assms(2) by (auto simp: list_all_iff)
    moreover have "plain_cell (last r)" "r \<noteq> []" using last [OF t(2)] by simp_all
    ultimately show ?thesis by (cases r rule: rev_cases) simp_all
  qed
  then have "list_all (\<lambda>r. r \<noteq> [] \<and> list_all plain_cell r) (concat (map (transaction_rows ee x s) rows))"
    unfolding list_all_iff by blast
  moreover have fields: "export_fields x date \<noteq> []" "length (export_fields x date) = 10"
    by (simp_all add: export_fields_def Let_def)
  ultimately have "read_table (export_transactions ee x date s rows) =
      export_fields x date # concat (map (transaction_rows ee x s) rows)"
    unfolding export_transactions_def by (intro read_table_text) (use assms(1) in simp_all)
  with last fields show ?thesis by auto
qed

definition demo_env :: export_env where
  "demo_env = \<lparr>ee_main = ''Main'', ee_time = (\<lambda>v. ''2025''), ee_convert = (\<lambda>v. [(''btc'', JStr ''5'')]),
     ee_asset = (\<lambda>i. []), ee_decimal = (\<lambda>n p. string_of_int n)\<rparr>"

definition demo_payment :: json where
  "demo_payment = JObj [(''block_height'', JInt 7), (''memo'', JStr ''rent, may''), (''satoshi'', JObj [(''btc'', JInt 5)]),
     (''txhash'', JStr ''a''), (''type'', JStr ''incoming'')]"

theorem exported_table_reads_back_witness:
  "\<exists>s x. length (read_table (export_transactions demo_env x ''now'' s [0])) = 2 \<and>
     last (read_table (export_transactions demo_env x ''now'' s [0]) ! 1) = ''rent- may''"
proof -
  define x where "x = new_session demo_settings demo_network"
  define s where "s = fst (run store_step (new_store demo_settings (Some True) True [] False)
    [AccountLoaded demo_network [(''pointer'', JInt 1)], AccountsReady [0], PageFetched 5 0 0 [demo_payment]])"
  have "list_all plain_cell (export_fields x ''now'')" unfolding x_def by code_simp
  moreover have "list_all (\<lambda>t. list_all (\<lambda>r. list_all plain_cell (butlast r)) (transaction_rows demo_env x s t)) [0]"
    unfolding x_def s_def by code_simp
  ultimately have "read_table (export_transactions demo_env x ''now'' s [0]) =
      export_fields x ''now'' # concat (map (transaction_rows demo_env x s) [0])"
    using exported_table_reads_back [of x "''now''" demo_env s "[0]"] by blast
  moreover have "length (transaction_rows demo_env x s 0) = 1" "last (transaction_rows demo_env x s 0 ! 0) = ''rent- may''"
    unfolding x_def s_def by code_simp+
  ultimately show ?thesis by (intro exI [of _ s] exI [of _ x]) simp
qed

section \<open>Addresses of payments, and log-ins that time out\<close>

text \<open>
  The address a payment names is listed although it belongs to no account, and the export of the
  list follows the account it does not have.
\<close>

lemma export_needs_accounts:
  "export_addresses main s rows = None \<longleftrightarrow> (\<exists>d \<in> set rows. ad_account (cx_addresses s ! d) = None)"
proof -
  have "those (map (address_values main s) rows) = None \<longleftrightarrow> (\<exists>d \<in> set rows. ad_account (cx_addresses s ! d) = None)"
    by (induction rows) (auto simp: address_values_def Let_def split: option.splits)
  then show ?thesis by (simp add: export_addresses_def)
qed

lemma payment_address_breaks_export:
  assumes "map_of (cx_payment_map s) v = None"
    and "w = to_string (jvalue (to_object (jvalue d ''cryptoDetails'')) ''destinationWalletAddress'')"
    and "w \<noteq> []" and "map_of (cx_address_map s) w = None" and "s' = fst (store_step s (PaymentReceived v d))"
  shows "export_addresses main s' (address_model no_filter s') = None"
proof -
  have d: "d \<noteq> []" using assms(2,3) by auto
  let ?k = "length (cx_addresses s)"
  have "?k \<in> set (cx_address_rows s')" "ad_account (cx_addresses s' ! ?k) = None"
    using assms d
    by (auto simp: get_or_create_payment_def Let_def payment_update_def payment_refresh_def get_or_create_address_def
        set_tx_payment_def modify_tx_def split: option.split list.split)
  moreover have "address_accepted no_filter x" for x by (simp add: address_accepted_def no_filter_def)
  ultimately show ?thesis by (auto simp: export_needs_accounts address_model_def)
qed

text \<open>
  The session of a log-in that waits for its connection by way of the assets is handed to the session
  manager twice when the connection times out, which deletes it twice when the program ends.
\<close>

lemma session_garbage [simp]:
  "sm_garbage (fst (snd (get_or_create_session n s))) = sm_garbage s"
  "cx_attempts (fst (snd (get_or_create_session n s))) = cx_attempts s"
  by (simp_all add: get_or_create_session_def session_create_def set_session_def Let_def case_prod_beta split: option.split)

lemma visit_garbage [simp]:
  "sm_garbage (fst (visit_sessions as s)) = sm_garbage s" "cx_attempts (fst (visit_sessions as s)) = cx_attempts s"
  by (induction as arbitrary: s) (simp_all add: case_prod_beta Let_def account_session_def)

lemma release_garbage:
  "sm_garbage (fst (release_session i s)) = sm_garbage s @ [i]" "cx_attempts (fst (release_session i s)) = cx_attempts s"
  by (simp_all add: release_session_def session_release_def case_prod_beta Let_def)

lemma outage_garbage [simp]:
  "sm_garbage (fst (add_outage n s)) = sm_garbage s" "cx_attempts (fst (add_outage n s)) = cx_attempts s"
  by (simp_all add: add_outage_def add_notification_def set_note_def case_prod_beta Let_def split: option.split)

lemma timeout_deletes_twice:
  assumes "has_attempt k s" and "cx_attempts s ! k = (i, True)"
  shows "session_manager_exit (fst (store_step s (ConnectFailed k ''timeout error''))) =
    session_manager_exit s @ [i, i]"
  using assms
  by (simp add: connect_failed_def login_failed_def session_manager_exit_def case_prod_beta Let_def release_garbage)

end
