(* ===== verification/Assets.thy ===== *)
theory Assets
  imports Wallets Context_Data
begin

text \<open>
  Assets (\<open>src/asset.{h,cpp}\<close>): an asset with what the registry and the remote configuration say of
  it, the manager that holds one object for each asset of a deployment, and the sorted and filtered
  list the pages show.  An asset is the index of its object, and \<open>am_assets\<close> is also the order of
  the rows of the manager's model.
\<close>

section \<open>Assets\<close>

record asset =
  as_deployment :: string
  as_id :: string
  as_network_key :: string
  as_key :: string
  as_icon :: string
  as_name :: string
  as_is_amp :: bool
  as_weight :: int
  as_policy :: bool
  as_data :: jobject

text \<open>\<open>None\<close> is \<open>Q_UNREACHABLE\<close>.\<close>

definition asset_network_key :: "network list \<Rightarrow> string \<Rightarrow> string \<Rightarrow> string option" where
  "asset_network_key nets dep i =
     map_option n_key (find (\<lambda>n. deployment n = dep \<and> n_liquid n = (i \<noteq> ''btc'')) nets)"

definition new_asset :: "network list \<Rightarrow> string \<Rightarrow> string \<Rightarrow> asset option" where
  "new_asset nets dep i =
     map_option (\<lambda>k. \<lparr>as_deployment = dep, as_id = i, as_network_key = k, as_key = i, as_icon = [],
       as_name = [], as_is_amp = False, as_weight = 0, as_policy = False, as_data = []\<rparr>)
       (asset_network_key nets dep i)"

definition asset_set_icon :: "string \<Rightarrow> asset \<Rightarrow> asset" where
  "asset_set_icon icon x = x\<lparr>as_icon := icon\<rparr>"

text \<open>The second component: the assertion that a name is given once is violated.\<close>

definition asset_set_name :: "string \<Rightarrow> asset \<Rightarrow> asset \<times> bool" where
  "asset_set_name name x =
     (if as_name x = name then (x, False) else (x\<lparr>as_name := name\<rparr>, as_name x \<noteq> []))"

definition asset_ticker :: "asset \<Rightarrow> string" where
  "asset_ticker x = to_string (jvalue (as_data x) ''ticker'')"

definition asset_set_is_amp :: "bool \<Rightarrow> asset \<Rightarrow> asset" where
  "asset_set_is_amp b x = x\<lparr>as_is_amp := b\<rparr>"

definition asset_set_weight :: "int \<Rightarrow> asset \<Rightarrow> asset" where
  "asset_set_weight w x = x\<lparr>as_weight := w\<rparr>"

definition asset_set_policy :: "bool \<Rightarrow> asset \<Rightarrow> asset" where
  "asset_set_policy b x = x\<lparr>as_policy := b\<rparr>"

definition asset_precision :: "asset \<Rightarrow> int" where
  "asset_precision x = to_int (jvalue (as_data x) ''precision'')"

definition asset_set_data :: "jobject \<Rightarrow> asset \<Rightarrow> asset \<times> bool" where
  "asset_set_data data x =
     (if as_data x = data then (x, False)
      else let x1 = x\<lparr>as_data := data\<rparr>
           in if jvalue data ''name'' = JStr ''btc'' then (x1, False)
              else asset_set_name (to_string (jvalue data ''name'')) x1)"

definition asset_set_key :: "string \<Rightarrow> asset \<Rightarrow> asset" where
  "asset_set_key k x = x\<lparr>as_key := k\<rparr>"

definition asset_has_icon :: "asset \<Rightarrow> bool" where
  "asset_has_icon x \<longleftrightarrow> as_icon x \<noteq> []"

definition asset_has_data :: "asset \<Rightarrow> bool" where
  "asset_has_data x \<longleftrightarrow> as_data x \<noteq> []"

definition asset_url :: "network list \<Rightarrow> asset \<Rightarrow> string" where
  "asset_url nets x =
     (case network_with_server_type nets (as_deployment x) (as_network_key x) ''green'' of
        None \<Rightarrow> []
      | Some n \<Rightarrow>
          (let u = to_string (jvalue (n_data n) ''tx_explorer_url'')
           in take (length u - 3) u @ ''asset/'' @ as_id x))"

text \<open>
  \<open>Asset::formatAmount\<close>: \<open>decimal\<close> writes an amount as a number with so many decimals in the
  system's locale.
\<close>

definition asset_format_amount :: "(int \<Rightarrow> int \<Rightarrow> string) \<Rightarrow> int \<Rightarrow> bool \<Rightarrow> asset \<Rightarrow> string" where
  "asset_format_amount decimal amount include_ticker x =
     (let s = decimal amount (asset_precision x); t = asset_ticker x
      in if include_ticker \<and> t \<noteq> [] then s @ '' '' @ t else s)"

section \<open>The manager\<close>

record asset_manager =
  am_networks :: "network list"
  am_assets :: "asset list"
  am_index :: "(string \<times> string, nat) qmap"

definition modify_asset :: "nat \<Rightarrow> (asset \<Rightarrow> asset) \<Rightarrow> asset_manager \<Rightarrow> asset_manager" where
  "modify_asset i f m = m\<lparr>am_assets := (am_assets m)[i := f (am_assets m ! i)]\<rparr>"

definition asset_with_id :: "string \<Rightarrow> string \<Rightarrow> asset_manager \<Rightarrow> (nat \<times> asset_manager) option" where
  "asset_with_id dep i m =
     (case map_of (am_index m) (dep, i) of
        Some k \<Rightarrow> Some (k, m)
      | None \<Rightarrow> map_option (\<lambda>x. (length (am_assets m),
          m\<lparr>am_assets := am_assets m @ [x],
            am_index := qm_insert (dep, i) (length (am_assets m)) (am_index m)\<rparr>))
          (new_asset (am_networks m) dep i))"

text \<open>The remote configuration: the weights of assets of the Liquid network.\<close>

fun remote_assets :: "json list \<Rightarrow> asset_manager \<Rightarrow> asset_manager option" where
  "remote_assets [] m = Some m"
| "remote_assets (v # vs) m =
     (let data = to_object v
      in case asset_with_id ''mainnet'' (to_string (jvalue data ''id'')) m of
           None \<Rightarrow> None
         | Some (k, m1) \<Rightarrow> remote_assets vs
             (modify_asset k (asset_set_weight (to_int (jvalue data ''weight'')) \<circ>
               asset_set_is_amp (to_bool (jvalue data ''amp''))) m1))"

definition int_max :: int where
  "int_max = 2147483647"

definition policy_name :: "network \<Rightarrow> string" where
  "policy_name n = (if n_liquid n \<and> n_mainnet n then n_display_name n @ '' Bitcoin'' else n_display_name n)"

fun policy_assets :: "network list \<Rightarrow> asset_manager \<Rightarrow> asset_manager option" where
  "policy_assets [] m = Some m"
| "policy_assets (n # ns) m =
     (let i = to_string_or ''btc'' (jvalue (n_data n) ''policy_asset'')
      in case asset_with_id (deployment n) i m of
           None \<Rightarrow> None
         | Some (k, m1) \<Rightarrow> policy_assets ns
             (modify_asset k (fst \<circ> asset_set_name (policy_name n) \<circ> asset_set_key i \<circ>
               asset_set_weight int_max \<circ> asset_set_policy True) m1))"

definition new_asset_manager :: "network list \<Rightarrow> asset_manager option" where
  "new_asset_manager nets =
     policy_assets nets \<lparr>am_networks = nets, am_assets = [], am_index = []\<rparr>"

section \<open>The list of assets\<close>

text \<open>The context of the list: its deployment, and which networks its device supports.\<close>

record asset_filter =
  af_filter :: string
  af_context :: "(string \<times> (network \<Rightarrow> bool) option) option"
  af_min_weight :: int

definition new_asset_filter :: asset_filter where
  "new_asset_filter = \<lparr>af_filter = [], af_context = None, af_min_weight = 0\<rparr>"

definition asset_filter_text :: "string \<Rightarrow> asset_filter \<Rightarrow> asset_filter" where
  "asset_filter_text t f = f\<lparr>af_filter := t\<rparr>"

definition asset_filter_context ::
    "(string \<times> (network \<Rightarrow> bool) option) option \<Rightarrow> asset_filter \<Rightarrow> asset_filter" where
  "asset_filter_context c f = f\<lparr>af_context := c\<rparr>"

definition asset_filter_min_weight :: "int \<Rightarrow> asset_filter \<Rightarrow> asset_filter" where
  "asset_filter_min_weight w f = f\<lparr>af_min_weight := w\<rparr>"

definition asset_accepted :: "network list \<Rightarrow> asset_filter \<Rightarrow> asset \<Rightarrow> bool" where
  "asset_accepted nets f x \<longleftrightarrow>
     \<not> as_weight x < af_min_weight f \<and>
     (if af_filter f = [] then \<not> (as_weight x = 0 \<and> (\<not> asset_has_data x \<or> \<not> asset_has_icon x))
      else contains_text (to_lower (af_filter f)) (to_lower (as_name x)) \<or>
           contains_text (to_lower (af_filter f)) (to_lower (asset_ticker x))) \<and>
     (case af_context f of
        None \<Rightarrow> True
      | Some (dep, device) \<Rightarrow>
          (dep \<noteq> [] \<longrightarrow> as_deployment x = dep) \<and>
          (case device of
             None \<Rightarrow> True
           | Some supports \<Rightarrow> list_ex (\<lambda>n. n_key n = as_network_key x \<and> supports n) nets))"

text \<open>\<open>AssetsModel::lessThan\<close>; \<open>cmp\<close> is \<open>QString::localeAwareCompare\<close>.\<close>

definition asset_less :: "(string \<Rightarrow> string \<Rightarrow> int) \<Rightarrow> asset \<Rightarrow> asset \<Rightarrow> bool" where
  "asset_less cmp l r =
     (if as_weight l > as_weight r then True
      else if as_weight l < as_weight r then False
      else if as_weight l = 0 \<and> asset_has_icon l \<and> \<not> asset_has_icon r then True
      else if as_weight l = 0 \<and> \<not> asset_has_icon l \<and> asset_has_icon r then False
      else if as_weight l = 0 \<and> asset_has_data l \<and> \<not> asset_has_data r then True
      else if as_weight l = 0 \<and> \<not> asset_has_data l \<and> asset_has_data r then False
      else cmp (as_name l) (as_name r) < 0)"

text \<open>The rows in order: a stable sort by \<open>lessThan\<close> of the rows that are accepted.\<close>

fun place :: "('a \<Rightarrow> 'a \<Rightarrow> bool) \<Rightarrow> 'a \<Rightarrow> 'a list \<Rightarrow> 'a list" where
  "place before x [] = [x]"
| "place before x (y # ys) = (if before y x then y # place before x ys else x # y # ys)"

fun sort_rows :: "('a \<Rightarrow> 'a \<Rightarrow> bool) \<Rightarrow> 'a list \<Rightarrow> 'a list" where
  "sort_rows before [] = []"
| "sort_rows before (x # xs) = place before x (sort_rows before xs)"

definition assets_model ::
    "(string \<Rightarrow> string \<Rightarrow> int) \<Rightarrow> asset_filter \<Rightarrow> asset_manager \<Rightarrow> nat list" where
  "assets_model cmp f m =
     sort_rows (\<lambda>i j. asset_less cmp (am_assets m ! i) (am_assets m ! j))
       (filter (\<lambda>i. asset_accepted (am_networks m) f (am_assets m ! i)) [0..<length (am_assets m)])"

section \<open>One object for each asset\<close>

text \<open>
  The index of the manager holds each object once, under its deployment and its identifier.
\<close>

definition assets_ok :: "asset_manager \<Rightarrow> bool" where
  "assets_ok m \<longleftrightarrow>
     (\<forall>dep i k. map_of (am_index m) (dep, i) = Some k \<longleftrightarrow>
        k < length (am_assets m) \<and> as_deployment (am_assets m ! k) = dep \<and> as_id (am_assets m ! k) = i)"

definition same_asset :: "asset \<Rightarrow> asset \<Rightarrow> bool" where
  "same_asset x y \<longleftrightarrow> as_deployment y = as_deployment x \<and> as_id y = as_id x"

lemma assets_ok_distinct:
  assumes "assets_ok m" and "k < length (am_assets m)" and "l < length (am_assets m)"
    and "same_asset (am_assets m ! k) (am_assets m ! l)"
  shows "k = l"
  using assms unfolding assets_ok_def same_asset_def by (metis option.inject)

lemma assets_ok_modify:
  assumes "assets_ok m" and "\<And>x. same_asset x (f x)"
  shows "assets_ok (modify_asset i f m)"
proof (cases "i < length (am_assets m)")
  case True
  with assms show ?thesis
    by (simp add: assets_ok_def modify_asset_def same_asset_def nth_list_update)
next
  case False
  then show ?thesis using assms(1) by (simp add: modify_asset_def list_update_beyond)
qed

lemma new_asset_fields: "new_asset nets dep i = Some x \<Longrightarrow> as_deployment x = dep \<and> as_id x = i"
  by (auto simp: new_asset_def)

lemma assets_ok_with_id:
  assumes ok: "assets_ok m" and found: "asset_with_id dep i m = Some (k, m1)"
  shows "assets_ok m1" and "k < length (am_assets m1)"
    and "as_deployment (am_assets m1 ! k) = dep" and "as_id (am_assets m1 ! k) = i"
    and "am_networks m1 = am_networks m" and "\<exists>ys. am_assets m1 = am_assets m @ ys"
proof -
  have "assets_ok m1 \<and> k < length (am_assets m1) \<and> as_deployment (am_assets m1 ! k) = dep \<and>
    as_id (am_assets m1 ! k) = i \<and> am_networks m1 = am_networks m \<and> (\<exists>ys. am_assets m1 = am_assets m @ ys)"
  proof (cases "map_of (am_index m) (dep, i)")
    case None
    with found obtain x where x: "new_asset (am_networks m) dep i = Some x"
      and k: "k = length (am_assets m)" and m1: "m1 = m\<lparr>am_assets := am_assets m @ [x],
        am_index := qm_insert (dep, i) k (am_index m)\<rparr>"
      by (auto simp: asset_with_id_def)
    have fresh: "\<not> (l < length (am_assets m) \<and> as_deployment (am_assets m ! l) = dep \<and>
      as_id (am_assets m ! l) = i)" for l
      using ok None unfolding assets_ok_def by (metis option.distinct(1))
    have "map_of (am_index m1) (dep', i') = Some k' \<longleftrightarrow> k' < length (am_assets m1) \<and>
      as_deployment (am_assets m1 ! k') = dep' \<and> as_id (am_assets m1 ! k') = i'" for dep' i' k'
      using ok None new_asset_fields [OF x] k fresh unfolding assets_ok_def
      by (auto simp: m1 qmap_simps nth_append less_Suc_eq)
    then show ?thesis
      using new_asset_fields [OF x] k by (simp add: assets_ok_def m1 del: split_paired_All)
  next
    case (Some k')
    with found have "k' = k" and "m1 = m" by (auto simp: asset_with_id_def)
    with ok Some show ?thesis by (auto simp: assets_ok_def)
  qed
  then show "assets_ok m1" and "k < length (am_assets m1)"
    and "as_deployment (am_assets m1 ! k) = dep" and "as_id (am_assets m1 ! k) = i"
    and "am_networks m1 = am_networks m" and "\<exists>ys. am_assets m1 = am_assets m @ ys" by blast+
qed

lemma same_asset_setters:
  "same_asset x (asset_set_weight w x)" "same_asset x (asset_set_is_amp b x)"
  "same_asset x (asset_set_policy b x)" "same_asset x (asset_set_key k x)"
  "same_asset x (asset_set_icon s x)" "same_asset x (fst (asset_set_name s x))"
  "same_asset x (fst (asset_set_data d x))"
  by (simp_all add: same_asset_def asset_set_weight_def asset_set_is_amp_def asset_set_policy_def
      asset_set_key_def asset_set_icon_def asset_set_name_def asset_set_data_def Let_def)

lemma remote_assets_ok: "assets_ok m \<Longrightarrow> remote_assets vs m = Some m1 \<Longrightarrow> assets_ok m1"
proof (induction vs m rule: remote_assets.induct)
  case (2 v vs m)
  then show ?case
    by (auto simp: Let_def same_asset_def asset_set_weight_def asset_set_is_amp_def
        split: option.splits prod.splits
        intro!: "2.IH" assets_ok_modify dest: assets_ok_with_id(1))
qed simp

lemma policy_assets_ok: "assets_ok m \<Longrightarrow> policy_assets ns m = Some m1 \<Longrightarrow> assets_ok m1"
proof (induction ns m rule: policy_assets.induct)
  case (2 n ns m)
  then show ?case
    by (auto simp: Let_def same_asset_def asset_set_weight_def asset_set_policy_def
        asset_set_key_def asset_set_name_def split: option.splits prod.splits
        intro!: "2.IH" assets_ok_modify dest: assets_ok_with_id(1))
qed simp

lemma new_asset_manager_ok: "new_asset_manager nets = Some m \<Longrightarrow> assets_ok m"
  unfolding new_asset_manager_def by (erule policy_assets_ok [rotated]) (simp add: assets_ok_def)

section \<open>The order of the list\<close>

text \<open>
  Where the locale compares names by a collation key, \<open>lessThan\<close> is the order of a rank: heavier
  first, among the assets of no weight those with an icon and then those with data first, then by name.
\<close>

definition asset_rank :: "(string \<Rightarrow> 'k) \<Rightarrow> asset \<Rightarrow> int \<times> bool \<times> bool \<times> 'k" where
  "asset_rank collate x = (- as_weight x, as_weight x = 0 \<and> \<not> asset_has_icon x,
     as_weight x = 0 \<and> \<not> asset_has_data x, collate (as_name x))"

lemma asset_less_rank:
  fixes collate :: "string \<Rightarrow> 'k::linorder"
  assumes "\<And>a b. cmp a b < 0 \<longleftrightarrow> collate a < collate b"
  shows "asset_less cmp x y \<longleftrightarrow> asset_rank collate x < asset_rank collate y"
  by (auto simp: asset_less_def asset_rank_def assms)

lemma place_insort:
  "(\<And>y. y \<in> set ys \<Longrightarrow> before y x \<longleftrightarrow> k y < k x) \<Longrightarrow> place before x ys = insort_key k x ys"
  by (induction ys) (auto simp: not_less)

lemma sort_rows_sort_key:
  "(\<And>x y. x \<in> set xs \<Longrightarrow> y \<in> set xs \<Longrightarrow> before x y \<longleftrightarrow> k x < k y) \<Longrightarrow>
    sort_rows before xs = sort_key k xs"
proof (induction xs)
  case (Cons x xs)
  then have "sort_rows before xs = sort_key k xs" by simp
  moreover have "place before x (sort_key k xs) = insort_key k x (sort_key k xs)"
    using Cons.prems by (intro place_insort) simp
  ultimately show ?case by simp
qed simp

lemma asset_rows_sorted:
  fixes collate :: "string \<Rightarrow> 'k::linorder"
  assumes "\<And>a b. cmp a b < 0 \<longleftrightarrow> collate a < collate b"
  shows "assets_model cmp f m = sort_key (\<lambda>i. asset_rank collate (am_assets m ! i))
    (filter (\<lambda>i. asset_accepted (am_networks m) f (am_assets m ! i)) [0..<length (am_assets m)])"
  unfolding assets_model_def using asset_less_rank [OF assms] by (intro sort_rows_sort_key) simp

lemma asset_rows_once:
  fixes collate :: "string \<Rightarrow> 'k::linorder"
  assumes cmp: "\<And>a b. cmp a b < 0 \<longleftrightarrow> collate a < collate b"
    and made: "new_asset_manager nets = Some m0" and remote: "remote_assets vs m0 = Some m"
  shows "let rows = assets_model cmp f m
    in sorted (map (\<lambda>i. asset_rank collate (am_assets m ! i)) rows) \<and>
       set rows = {i. i < length (am_assets m) \<and> asset_accepted (am_networks m) f (am_assets m ! i)} \<and>
       distinct (map (\<lambda>i. (as_deployment (am_assets m ! i), as_id (am_assets m ! i))) rows)"
proof -
  have ok: "assets_ok m" using remote_assets_ok [OF new_asset_manager_ok [OF made] remote] .
  have "distinct (assets_model cmp f m)" by (simp add: asset_rows_sorted [of cmp, OF cmp])
  moreover have "inj_on (\<lambda>i. (as_deployment (am_assets m ! i), as_id (am_assets m ! i)))
      {i. i < length (am_assets m)}"
    by (rule inj_onI) (auto intro: assets_ok_distinct [OF ok] simp: same_asset_def)
  ultimately show ?thesis
    by (auto simp: asset_rows_sorted [of cmp, OF cmp] distinct_map elim: inj_on_subset)
qed

end
