(* ===== verification/Convert.thy ===== *)
theory Convert
  imports Assets
begin

text \<open>
  The conversion of amounts (\<open>src/convert.{h,cpp}\<close>): what is entered is kept as it is, in any unit or
  currency, and ten milliseconds after the last change the wallet library is asked for the amount in
  all units.  The answers come from other threads, in any order.
\<close>

section \<open>Numbers\<close>

text \<open>
  Doubles and the texts a \<open>QLocale\<close> reads and writes, with the operations the code uses of them:
  reading in the system's locale and in the C locale (\<open>None\<close>: not a number), writing with so many
  decimals in either, the decimal point of the system's locale, addition, an integer scaled down by a power of
  ten, and the whole part of a JSON number given as text.
\<close>

record 'd numbers =
  nu_zero :: 'd
  nu_read :: "string \<Rightarrow> 'd option"
  nu_read_c :: "string \<Rightarrow> 'd option"
  nu_show :: "'d \<Rightarrow> nat \<Rightarrow> string"
  nu_show_c :: "'d \<Rightarrow> nat \<Rightarrow> string"
  nu_point :: string
  nu_add :: "'d \<Rightarrow> 'd \<Rightarrow> 'd"
  nu_scale :: "'d \<Rightarrow> int \<Rightarrow> 'd"
  nu_whole :: "string \<Rightarrow> int"

definition to_double_c :: "'d numbers \<Rightarrow> string \<Rightarrow> 'd" where
  "to_double_c nu s = (case nu_read_c nu s of None \<Rightarrow> nu_zero nu | Some d \<Rightarrow> d)"

text \<open>Zeros at the end go, and the point with them, when there is one.\<close>

definition strip_number :: "string \<Rightarrow> string \<Rightarrow> string" where
  "strip_number point s =
     (if contains_text point s then
        (let t = rev (dropWhile (\<lambda>c. c = CHR ''0'') (rev s))
         in if drop (length t - length point) t = point \<and> length point \<le> length t
            then take (length t - length point) t else t)
      else s)"

definition to_c :: "'d numbers \<Rightarrow> string \<Rightarrow> string" where
  "to_c nu s = strip_number ''.''
     (nu_show_c nu (case nu_read nu s of None \<Rightarrow> to_double_c nu s | Some d \<Rightarrow> d) 10)"

definition number_to_string :: "'d numbers \<Rightarrow> string \<Rightarrow> nat \<Rightarrow> string" where
  "number_to_string nu s precision =
     strip_number (nu_point nu) (nu_show nu (to_double_c nu s) precision)"

text \<open>\<open>QString::toLongLong\<close>: zero for what is not a number of 64 bits.\<close>

definition long_of_text :: "string \<Rightarrow> int" where
  "long_of_text s =
     (let t = trimmed s; neg = (t \<noteq> [] \<and> hd t = CHR ''-'');
          ds = (if t \<noteq> [] \<and> (hd t = CHR ''-'' \<or> hd t = CHR ''+'') then tl t else t)
      in if ds = [] then 0
         else case digits_value 0 ds of
                None \<Rightarrow> 0
              | Some n \<Rightarrow> (let v = (if neg then - n else n) in if - (2 ^ 63) \<le> v \<and> v < 2 ^ 63 then v else 0))"

section \<open>The world of a converter\<close>

text \<open>
  What a converter reads of the rest of the program: the context and what it stores, its
  deployment, the network a first session would be made for, the assets, and the fee estimates
  the library has for a session.
\<close>

record world =
  wo_store :: store
  wo_deployment :: string
  wo_primary :: "network option"
  wo_assets :: asset_manager
  wo_estimates :: "nat \<Rightarrow> json list"

definition world_asset :: "world \<Rightarrow> nat \<Rightarrow> asset" where
  "world_asset w x = am_assets (wo_assets w) ! x"

definition world_account :: "world \<Rightarrow> nat \<Rightarrow> account" where
  "world_account w a = cx_accounts (wo_store w) ! a"

definition world_session :: "world \<Rightarrow> nat \<Rightarrow> session" where
  "world_session w k = cx_session_objs (wo_store w) ! k"

text \<open>\<open>Context::primarySession\<close>; \<open>None\<close> is a null network.\<close>

definition primary_session :: "world \<Rightarrow> (nat \<times> world) option" where
  "primary_session w =
     (case cx_session_list (wo_store w) of
        k # ks \<Rightarrow> Some (k, w)
      | [] \<Rightarrow> map_option (\<lambda>n. let (k, s, out) = get_or_create_session n (wo_store w)
                              in (k, w\<lparr>wo_store := s\<rparr>)) (wo_primary w))"

section \<open>State\<close>

text \<open>A value of the input map: null, a text, or another value by its whole part.\<close>

datatype amount_value = VNull | VText string | VNumber int

type_synonym amount_input = "(string, amount_value) qmap"

text \<open>
  \<open>cv_context\<close>: a context is set, of which there is one.  \<open>cv_asking\<close>: the conversions that have
  been asked for and not answered, with their session.  \<open>cv_connected\<close> is the session the converter
  remembers, \<open>cv_listening\<close> the one whose signals reach it.
\<close>

record convert =
  cv_world :: world
  cv_context :: bool
  cv_account :: "nat option"
  cv_asset :: "nat option"
  cv_unit :: string
  cv_input :: amount_input
  cv_result :: jobject
  cv_timer :: bool
  cv_connected :: "nat option"
  cv_listening :: "nat option"
  cv_asking :: "(nat \<times> jobject) list"

text \<open>\<open>Crash\<close> is the use of a null pointer or \<open>Q_UNREACHABLE\<close>.\<close>

datatype convert_signal = ResultChanged | InputCleared | AskConvert nat jobject | ConvertCrash

type_synonym convert_result = "convert \<times> convert_signal list"

definition new_convert :: "world \<Rightarrow> convert" where
  "new_convert w = \<lparr>cv_world = w, cv_context = False, cv_account = None, cv_asset = None, cv_unit = [],
     cv_input = [], cv_result = [], cv_timer = False, cv_connected = None, cv_listening = None, cv_asking = []\<rparr>"

definition is_liquid_asset :: "convert \<Rightarrow> bool" where
  "is_liquid_asset c =
     (case (cv_account c, cv_asset c) of
        (_, None) \<Rightarrow> False
      | (Some a, Some x) \<Rightarrow>
          (let n = ac_network (world_account (cv_world c) a)
           in n_liquid n \<and> n_policy_asset n \<noteq> as_id (world_asset (cv_world c) x))
      | (None, Some x) \<Rightarrow>
          \<not> list_ex (\<lambda>n. n_policy_asset n = as_id (world_asset (cv_world c) x))
              (am_networks (wo_assets (cv_world c))))"

text \<open>The outer \<open>None\<close> is a crash, the inner one that there is no session.\<close>

definition asset_session :: "convert \<Rightarrow> (nat option \<times> convert) option" where
  "asset_session c =
     (if \<not> cv_context c then Some (None, c)
      else let w = cv_world c
           in case find (\<lambda>k. n_liquid (s_network (world_session w k)) = is_liquid_asset c)
                    (cx_session_list (wo_store w)) of
                Some k \<Rightarrow> Some (Some k, c)
              | None \<Rightarrow> map_option (\<lambda>(k, w1). (Some k, c\<lparr>cv_world := w1\<rparr>)) (primary_session w))"

definition convert_mainnet :: "convert \<Rightarrow> bool" where
  "convert_mainnet c \<longleftrightarrow>
     (cv_context c \<or> cv_account c \<noteq> None) \<and> wo_deployment (cv_world c) = ''mainnet''"

section \<open>Setters\<close>

definition convert_invalidate :: "convert \<Rightarrow> convert" where
  "convert_invalidate c = c\<lparr>cv_timer := True\<rparr>"

text \<open>
  \<open>connectToSessionSignals\<close>: where there is no session the old one is disconnected, but still
  remembered.
\<close>

definition connect_to_session :: "convert \<Rightarrow> convert_result" where
  "connect_to_session c =
     (case asset_session c of
        None \<Rightarrow> (c, [ConvertCrash])
      | Some (None, c1) \<Rightarrow> (c1\<lparr>cv_listening := None\<rparr>, [])
      | Some (Some k, c1) \<Rightarrow>
          (if cv_connected c1 = Some k then (c1, [])
           else (c1\<lparr>cv_connected := Some k, cv_listening := Some k\<rparr>, [])))"

definition convert_set_context :: "bool \<Rightarrow> convert \<Rightarrow> convert_result" where
  "convert_set_context b c =
     (if cv_context c = b then (c, [])
      else let c1 = convert_invalidate (c\<lparr>cv_context := b\<rparr>)
           in if b then connect_to_session c1 else (c1, []))"

definition convert_set_account :: "nat option \<Rightarrow> convert \<Rightarrow> convert_result" where
  "convert_set_account a c =
     (if cv_account c = a then (c, [])
      else let c1 = convert_invalidate (c\<lparr>cv_account := a\<rparr>)
           in if a = None then (c1, []) else convert_set_context True c1)"

definition convert_set_asset :: "nat option \<Rightarrow> convert \<Rightarrow> convert_result" where
  "convert_set_asset x c =
     (if cv_asset c = x then (c, [])
      else let c1 = convert_invalidate (c\<lparr>cv_asset := x\<rparr>)
           in if x = None then (c1, []) else connect_to_session c1)"

definition set_input :: "amount_input \<Rightarrow> convert \<Rightarrow> convert" where
  "set_input i c = (if cv_input c = i then c else convert_invalidate (c\<lparr>cv_input := i\<rparr>))"

definition clear_input :: "convert \<Rightarrow> convert_result" where
  "clear_input c = (set_input [] c, [InputCleared])"

definition convert_set_unit :: "string \<Rightarrow> convert \<Rightarrow> convert" where
  "convert_set_unit u c = c\<lparr>cv_unit := u\<rparr>"

definition unit_key :: "string \<Rightarrow> string" where
  "unit_key u = (if u = CHR 0xB5 # ''BTC'' then ''ubtc'' else to_lower u)"

fun to_variant :: "'d numbers \<Rightarrow> json \<Rightarrow> amount_value" where
  "to_variant nu JUndefined = VNull"
| "to_variant nu JNull = VNull"
| "to_variant nu (JStr s) = VText s"
| "to_variant nu (JInt i) = VNumber i"
| "to_variant nu (JBool b) = VNumber (if b then 1 else 0)"
| "to_variant nu (JReal s) = VNumber (nu_whole nu s)"
| "to_variant nu (JArr xs) = VNumber 0"
| "to_variant nu (JObj ob) = VNumber 0"

text \<open>A key that the result does not have is undefined, which \<open>isNull\<close> does not count as null.\<close>

definition change_unit :: "'d numbers \<Rightarrow> string \<Rightarrow> convert \<Rightarrow> convert" where
  "change_unit nu u c =
     (if cv_unit c = u then c
      else let c1 = c\<lparr>cv_unit := u\<rparr>; v = jvalue (cv_result c1) (unit_key u)
           in if v = JNull then c1 else c1\<lparr>cv_input := [(unit_key u, to_variant nu v)]\<rparr>)"

definition show_result :: "jobject \<Rightarrow> convert \<Rightarrow> convert_result" where
  "show_result r c = (c\<lparr>cv_result := r\<rparr>, [ResultChanged])"

definition convert_satoshi :: "convert \<Rightarrow> string" where
  "convert_satoshi c = to_string_or ''0'' (jvalue (cv_result c) ''satoshi'')"

section \<open>Asking\<close>

text \<open>The pages give numbers, which are not texts, only for satoshi, as an assertion says.\<close>

fun prepare_value :: "'d numbers \<Rightarrow> amount_value \<Rightarrow> json option" where
  "prepare_value nu VNull = None"
| "prepare_value nu (VText s) = (if s = [] then None else Some (JStr (to_c nu s)))"
| "prepare_value nu (VNumber i) = Some (JStr (string_of_int i))"

definition prepare_input :: "'d numbers \<Rightarrow> amount_input \<Rightarrow> jobject" where
  "prepare_input nu i =
     List.map_filter (\<lambda>(k, v). map_option (Pair k) (prepare_value nu v)) i"

definition asset_info :: "convert \<Rightarrow> nat \<Rightarrow> json" where
  "asset_info c x = JObj (jobj [(''asset_id'', JStr (as_id (world_asset (cv_world c) x))),
     (''precision'', JInt (asset_precision (world_asset (cv_world c) x)))])"

definition text_key :: "convert \<Rightarrow> string" where
  "text_key c =
     (case cv_asset c of
        Some x \<Rightarrow> if is_liquid_asset c then as_id (world_asset (cv_world c) x) else unit_key (cv_unit c)
      | None \<Rightarrow> unit_key (cv_unit c))"

text \<open>What is asked for, but for the currency.\<close>

definition amount_details :: "'d numbers \<Rightarrow> convert \<Rightarrow> jobject" where
  "amount_details nu c =
     (let d0 = prepare_input nu (cv_input c);
          d1 = (case cv_asset c of
                  Some x \<Rightarrow> if is_liquid_asset c then qm_insert ''asset_info'' (asset_info c x) d0 else d0
                | None \<Rightarrow> d0);
          text = to_string (jvalue d1 ''text'');
          d2 = (if jcontains d1 ''text'' then
                  (if text = [] then qm_remove ''text'' d1
                   else qm_insert (text_key c) (JStr text) (qm_remove ''text'' d1))
                else d1);
          d3 = (case jvalue d2 ''satoshi'' of
                  JStr s \<Rightarrow> qm_insert ''satoshi'' (JInt (long_of_text s)) d2 | _ \<Rightarrow> d2)
      in if d3 = [] \<or> map fst d3 = [''asset_info''] then qm_insert ''satoshi'' (JInt 0) d3 else d3)"

definition convert_currency :: "convert \<Rightarrow> session \<Rightarrow> string" where
  "convert_currency c x =
     (if convert_mainnet c then to_string (jvalue (to_object (jvalue (s_settings x) ''pricing'')) ''currency'')
      else ''FIAT'')"

text \<open>The primary session is taken for the currency, before the session that is asked.\<close>

definition convert_update :: "'d numbers \<Rightarrow> convert \<Rightarrow> convert_result" where
  "convert_update nu c =
     (if \<not> cv_context c \<and> cv_account c = None then show_result [] (set_input [] c)
      else
        let d = amount_details nu c
        in if \<not> cv_context c then show_result [] c
           else case primary_session (cv_world c) of
                  None \<Rightarrow> (c, [ConvertCrash])
                | Some (p, w1) \<Rightarrow>
                    (let c1 = c\<lparr>cv_world := w1\<rparr>;
                         d1 = (if jcontains d ''fiat_currency'' then d
                               else qm_insert ''fiat_currency''
                                      (JStr (convert_currency c1 (world_session w1 p))) d)
                     in case asset_session c1 of
                          None \<Rightarrow> (c1, [ConvertCrash])
                        | Some (None, c2) \<Rightarrow> show_result [] c2
                        | Some (Some k, c2) \<Rightarrow>
                            (c2\<lparr>cv_asking := cv_asking c2 @ [(k, d1)]\<rparr>, [AskConvert k d1])))"

text \<open>
  An answer of the library, an empty object when the conversion failed; \<open>satoshi\<close> is undefined
  then, which is not null, and becomes \<open>"0"\<close>.
\<close>

definition convert_answered :: "nat \<Rightarrow> jobject \<Rightarrow> convert \<Rightarrow> convert_result" where
  "convert_answered i r c =
     (if i < length (cv_asking c) then
        show_result
          (if jvalue r ''satoshi'' = JNull then r
           else qm_insert ''satoshi'' (JStr (string_of_int (to_integer (jvalue r ''satoshi'')))) r)
          (c\<lparr>cv_asking := take i (cv_asking c) @ drop (Suc i) (cv_asking c)\<rparr>)
      else (c, []))"

definition convert_timer_fires :: "'d numbers \<Rightarrow> convert \<Rightarrow> convert_result" where
  "convert_timer_fires nu c =
     (if cv_timer c then convert_update nu (c\<lparr>cv_timer := False\<rparr>) else (c, []))"

text \<open>The settings of a session have changed, or the library has a new price.\<close>

definition session_signal :: "nat \<Rightarrow> convert \<Rightarrow> convert" where
  "session_signal k c = (if cv_listening c = Some k then convert_invalidate c else c)"

section \<open>Showing\<close>

record 'd fiat_view =
  fv_label :: string
  fv_amount :: string
  fv_currency :: "string option"
  fv_value :: 'd
  fv_available :: bool

definition no_fiat :: "'d numbers \<Rightarrow> 'd fiat_view" where
  "no_fiat nu = \<lparr>fv_label = [], fv_amount = [], fv_currency = None, fv_value = nu_zero nu,
     fv_available = False\<rparr>"

definition format_fiat :: "'d numbers \<Rightarrow> 'd \<Rightarrow> convert \<Rightarrow> 'd fiat_view" where
  "format_fiat nu extra c =
     (let r = cv_result c
      in if jcontains r ''fiat'' \<and> jvalue r ''fiat'' \<noteq> JNull \<and> jcontains r ''fiat_currency'' then
           (case nu_read_c nu (to_string (jvalue r ''fiat'')) of
              None \<Rightarrow> no_fiat nu
            | Some base \<Rightarrow>
                (let currency = (if convert_mainnet c then to_string (jvalue r ''fiat_currency'') else ''FIAT'');
                     v = nu_add nu base extra;
                     amount = number_to_string nu (nu_show_c nu v 10) 2
                 in \<lparr>fv_label = amount @ '' '' @ currency, fv_amount = amount, fv_currency = Some currency,
                     fv_value = v, fv_available = True\<rparr>))
         else no_fiat nu)"

text \<open>\<open>mainnetUnit\<close> and \<open>testnetUnit\<close>; \<open>None\<close> is \<open>Q_UNREACHABLE\<close>.\<close>

definition display_unit :: "bool \<Rightarrow> string \<Rightarrow> string option" where
  "display_unit mainnet u =
     (if u = ''BTC'' \<or> u = ''btc'' then Some (if mainnet then ''BTC'' else ''TEST'')
      else if u = ''mBTC'' \<or> u = ''mbtc'' then Some (if mainnet then ''mBTC'' else ''mTEST'')
      else if u = CHR 0xB5 # ''BTC'' \<or> u = CHR 0xB5 # ''btc'' \<or> u = ''ubtc''
        then Some (CHR 0xB5 # (if mainnet then ''BTC'' else ''TEST''))
      else if u = ''bits'' then Some (if mainnet then ''bits'' else ''bTEST'')
      else if u = ''sats'' then Some (if mainnet then ''sats'' else ''sTEST'')
      else None)"

text \<open>
  The text of a value of the input (\<open>QVariant::toString\<close>), which stands in for a result without an
  amount.
\<close>

fun value_text :: "amount_value \<Rightarrow> string" where
  "value_text VNull = []"
| "value_text (VText s) = s"
| "value_text (VNumber i) = string_of_int i"

text \<open>\<open>format\<close>: a map with the label, the amount, the unit and the amount for a payment request.\<close>

definition format_asset :: "'d numbers \<Rightarrow> asset \<Rightarrow> convert \<Rightarrow> jobject \<Rightarrow> jobject" where
  "format_asset nu x c r =
     (let p = asset_precision x;
          sat = to_string_or (value_text (qm_value (cv_input c) ''satoshi'' VNull))
                  (jvalue (cv_result c) ''satoshi'');
          plain = nu_show_c nu (nu_scale nu (to_double_c nu sat) p) (nat p);
          amount = number_to_string nu plain (nat p);
          r1 = qm_insert ''amount'' (JStr amount) (qm_insert ''bip21_amount'' (JStr plain) r)
      in if jcontains (as_data x) ''ticker'' then
           qm_insert ''label'' (JStr (amount @ '' '' @ asset_ticker x))
             (qm_insert ''unit'' (JStr (asset_ticker x)) r1)
         else qm_insert ''label'' (JStr amount) (qm_insert ''unit'' (JStr []) r1))"

definition format_unit :: "'d numbers \<Rightarrow> string \<Rightarrow> convert \<Rightarrow> jobject \<Rightarrow> jobject option" where
  "format_unit nu u c r =
     (let w = cv_world c;
          liquid = ((case cv_account c of None \<Rightarrow> False | Some a \<Rightarrow> n_liquid (ac_network (world_account w a))) \<or>
            (case cv_asset c of None \<Rightarrow> False
             | Some x \<Rightarrow> contains_text ''liquid'' (as_network_key (world_asset w x))))
      in case display_unit (convert_mainnet c) u of
           None \<Rightarrow> None
         | Some du \<Rightarrow>
             (let shown = (if liquid then ''L'' else []) @ du;
                  r1 = qm_insert ''bip21_amount'' (jvalue (cv_result c) ''btc'')
                         (qm_insert ''unit'' (JStr shown) r);
                  amount = number_to_string nu (to_string (jvalue (cv_result c) (unit_key u))) 8
              in Some (if \<not> jcontains (cv_result c) (unit_key u) then r1
                   else qm_insert ''label'' (JStr (amount @ '' '' @ shown))
                          (qm_insert ''amount'' (JStr amount) r1))))"

definition convert_format :: "'d numbers \<Rightarrow> string \<Rightarrow> convert \<Rightarrow> jobject option" where
  "convert_format nu u c =
     (let r = jobj [(''label'', JStr []), (''amount'', JStr []), (u, JStr [])]
      in if \<not> cv_context c \<and> cv_account c = None then Some r
         else case (cv_asset c, is_liquid_asset c) of
                (Some x, True) \<Rightarrow> Some (format_asset nu (world_asset (cv_world c) x) c r)
              | _ \<Rightarrow> if u = [] then Some r else format_unit nu u c r)"

definition convert_output :: "'d numbers \<Rightarrow> convert \<Rightarrow> jobject option" where
  "convert_output nu c = convert_format nu (cv_unit c) c"

end
