(* ===== verification/Sending.thy ===== *)
theory Sending
  imports Convert Context_Flow
begin

text \<open>
  Making a transaction (\<open>src/createtransactioncontroller.{h,cpp}\<close>): the controller behind the pages
  that send.  What the user enters is kept here and in the converter of the amount; five
  milliseconds after a change the wallet library is asked for a transaction, first for the coins of
  the account.  Answers come in any order; only that to the last request for a transaction counts.
\<close>

section \<open>State\<close>

text \<open>
  \<open>se_fetching\<close>: the accounts whose coins have been asked for.  \<open>se_creating\<close>: the requests for a
  transaction under way, with their number, session and details.
\<close>

record sender =
  se_convert :: convert
  se_address :: string
  se_greedy :: bool
  se_context :: bool
  se_account :: "nat option"
  se_asset :: "nat option"
  se_previous :: "nat option"
  se_coins :: "nat list"
  se_fee_rate :: int
  se_utxos :: json
  se_timer :: bool
  se_seq :: nat
  se_transaction :: jobject
  se_fetching :: "nat list"
  se_creating :: "(nat \<times> nat \<times> jobject) list"

datatype sender_output =
    FetchUnspent nat
  | CreateTransaction nat nat jobject
  | AsksConversion nat jobject
  | SenderCrash

type_synonym sender_result = "sender \<times> sender_output list"

definition new_sender :: "world \<Rightarrow> sender" where
  "new_sender w = \<lparr>se_convert = new_convert w, se_address = [], se_greedy = False, se_context = False,
     se_account = None, se_asset = None, se_previous = None, se_coins = [], se_fee_rate = 0,
     se_utxos = JNull, se_timer = False, se_seq = 0, se_transaction = [], se_fetching = [],
     se_creating = []\<rparr>"

definition sender_world :: "sender \<Rightarrow> world" where
  "sender_world s = cv_world (se_convert s)"

definition sender_invalidate :: "sender \<Rightarrow> sender" where
  "sender_invalidate s = s\<lparr>se_timer := True\<rparr>"

text \<open>A change of the converter; its \<open>resultChanged\<close> makes the recipient \<open>changed\<close>.\<close>

fun converted_output :: "convert_signal \<Rightarrow> sender_output list" where
  "converted_output (AskConvert k d) = [AsksConversion k d]"
| "converted_output ConvertCrash = [SenderCrash]"
| "converted_output _ = []"

definition with_convert :: "convert_result \<Rightarrow> sender \<Rightarrow> sender_result" where
  "with_convert r s =
     (let s1 = s\<lparr>se_convert := fst r\<rparr>
      in (if ResultChanged \<in> set (snd r) then sender_invalidate s1 else s1,
          concat (map converted_output (snd r))))"

definition sender_then :: "sender_result \<Rightarrow> (sender \<Rightarrow> sender_result) \<Rightarrow> sender_result" where
  "sender_then r f = (fst (f (fst r)), snd r @ snd (f (fst r)))"

section \<open>What the user enters\<close>

definition set_address :: "string \<Rightarrow> sender \<Rightarrow> sender" where
  "set_address a s = (if se_address s = a then s else sender_invalidate (s\<lparr>se_address := a\<rparr>))"

definition set_greedy :: "bool \<Rightarrow> sender \<Rightarrow> sender" where
  "set_greedy b s = (if se_greedy s = b then s else sender_invalidate (s\<lparr>se_greedy := b\<rparr>))"

definition sender_set_account :: "nat option \<Rightarrow> sender \<Rightarrow> sender_result" where
  "sender_set_account a s =
     (if se_account s = a then (s, [])
      else let s1 = s\<lparr>se_account := a\<rparr>;
               (s2, out) = with_convert (convert_set_account a (se_convert s1)) s1
           in (sender_invalidate (s2\<lparr>se_utxos := JNull\<rparr>), out))"

definition sender_set_asset :: "nat option \<Rightarrow> sender \<Rightarrow> sender_result" where
  "sender_set_asset x s =
     (if se_asset s = x then (s, [])
      else let s1 = s\<lparr>se_asset := x\<rparr>;
               (s2, out) = with_convert (convert_set_asset x (se_convert s1)) s1
           in (sender_invalidate s2, out))"

definition tx_account :: "nat \<Rightarrow> sender \<Rightarrow> nat" where
  "tx_account t s = at_account (cx_txs (wo_store (sender_world s)) ! t)"

definition set_previous_transaction :: "nat option \<Rightarrow> sender \<Rightarrow> sender_result" where
  "set_previous_transaction t s =
     (if se_previous s = t then (s, [])
      else let s1 = s\<lparr>se_previous := t\<rparr>;
               (s2, out) = (case t of
                  None \<Rightarrow> (s1, [])
                | Some i \<Rightarrow> sender_set_account (Some (tx_account i s1)) (s1\<lparr>se_context := True\<rparr>))
           in (sender_invalidate s2, out))"

definition set_coins :: "nat list \<Rightarrow> sender \<Rightarrow> sender" where
  "set_coins cs s = (if se_coins s = cs then s else sender_invalidate (s\<lparr>se_coins := cs\<rparr>))"

definition set_fee_rate :: "int \<Rightarrow> sender \<Rightarrow> sender" where
  "set_fee_rate r s = (if se_fee_rate s = r then s else sender_invalidate (s\<lparr>se_fee_rate := r\<rparr>))"

section \<open>The transaction\<close>

definition recipient_input :: "amount_input \<Rightarrow> sender \<Rightarrow> sender" where
  "recipient_input i s = s\<lparr>se_convert := set_input i (se_convert s)\<rparr>"

text \<open>\<open>Context::getOrCreateAsset\<close>.\<close>

definition get_or_create_asset :: "string \<Rightarrow> sender \<Rightarrow> (nat \<times> sender) option" where
  "get_or_create_asset i s =
     (let c = se_convert s; w = cv_world c
      in map_option (\<lambda>(k, m). (k, s\<lparr>se_convert := c\<lparr>cv_world := w\<lparr>wo_assets := m\<rparr>\<rparr>\<rparr>))
           (asset_with_id (wo_deployment w) i (wo_assets w)))"

definition take_asset :: "jobject \<Rightarrow> sender \<Rightarrow> sender_result" where
  "take_asset params s =
     (if jcontains params ''assetid'' then
        (case get_or_create_asset (to_string (jvalue params ''assetid'')) s of
           None \<Rightarrow> (s, [SenderCrash])
         | Some (x, s1) \<Rightarrow> sender_set_asset (Some x) s1)
      else (s, []))"

definition satoshi_input :: "jobject \<Rightarrow> amount_input" where
  "satoshi_input ob = [(''satoshi'', VNumber (to_integer (jvalue ob ''satoshi'')))]"

definition take_request :: "jobject \<Rightarrow> sender \<Rightarrow> sender" where
  "take_request ad s =
     (let params = to_object (jvalue ad ''bip21-params''); address = to_string (jvalue ad ''address'');
          s1 = (if address = [] then s else set_address address s)
      in if jcontains params ''amount'' then recipient_input (satoshi_input ad) (set_greedy False s1)
         else s1)"

text \<open>What the library found out about the recipient replaces what was entered.\<close>

definition set_transaction :: "jobject \<Rightarrow> sender \<Rightarrow> sender_result" where
  "set_transaction tx s =
     (let s0 = s\<lparr>se_transaction := tx\<rparr>
      in case to_array (jvalue tx ''addressees'') of
           [] \<Rightarrow> (s0, [])
         | v # vs \<Rightarrow>
             (let ad = to_object v
              in if jcontains ad ''bip21-params'' then
                   sender_then (take_asset (to_object (jvalue ad ''bip21-params'')) s0)
                     (\<lambda>s1. (take_request ad s1, []))
                 else if se_previous s0 \<noteq> None \<or> to_bool (jvalue ad ''is_greedy'') then
                   (recipient_input (satoshi_input ad)
                      (set_address (to_string (jvalue ad ''address'')) s0), [])
                 else (s0, [])))"

section \<open>Asking for a transaction\<close>

definition addressee :: "session \<Rightarrow> sender \<Rightarrow> jobject" where
  "addressee x s =
     (let ad = jobj [(''address'', JStr (trimmed (se_address s))),
            (''satoshi'', JInt (long_of_text (convert_satoshi (se_convert s)))),
            (''is_greedy'', JBool (\<not> contains_text ''amount'' (se_address s) \<and> se_greedy s))]
      in case cv_asset (se_convert s) of
           Some y \<Rightarrow> if n_liquid (s_network x)
                     then qm_insert ''asset_id'' (JStr (as_id (world_asset (sender_world s) y))) ad else ad
         | None \<Rightarrow> ad)"

text \<open>
  The fee rate: entered, or what replaces the previous transaction, or for a day.  The sum is one of 32-bit
  \<open>int\<close>s, which wraps on the platforms the program is built for.
\<close>

definition int_sum :: "int \<Rightarrow> int \<Rightarrow> int" where
  "int_sum a b = sint (word_of_int (a + b) :: 32 word)"

definition with_fee_rate :: "nat \<Rightarrow> sender \<Rightarrow> jobject \<Rightarrow> jobject" where
  "with_fee_rate k s d =
     (let estimates = wo_estimates (sender_world s) k
      in if se_fee_rate s > 0 then qm_insert ''fee_rate'' (JInt (se_fee_rate s)) d
         else case se_previous s of
                Some t \<Rightarrow>
                  if length estimates > 0 then
                    qm_insert ''fee_rate''
                      (JInt (int_sum (to_int (jvalue (at_data (cx_txs (wo_store (sender_world s)) ! t)) ''fee_rate''))
                               (to_int (hd estimates)))) d
                  else d
              | None \<Rightarrow>
                  if length estimates > 24 then json_insert ''fee_rate'' (estimates ! 24) d else d)"

text \<open>
  \<open>None\<close> is the use of a null asset: coins are given under the asset's identifier, also none for
  a transaction that replaces another.
\<close>

definition transaction_details :: "nat \<Rightarrow> nat \<Rightarrow> sender \<Rightarrow> jobject option" where
  "transaction_details k a s =
     (let st = wo_store (sender_world s);
          own = (if se_previous s = None \<and> se_coins s = [] then Some (se_utxos s)
                 else map_option (\<lambda>x. JObj (jobj [(as_id (world_asset (sender_world s) x),
                        JArr (map (\<lambda>c. JObj (co_data (cx_coins st ! c))) (se_coins s)))])) (se_asset s))
      in map_option (\<lambda>u. with_fee_rate k s
           (case se_previous s of
              Some t \<Rightarrow> jobj [(''utxos'', u), (''previous_transaction'', JObj (at_data (cx_txs st ! t))),
                              (''subaccount'', JInt (ac_pointer (cx_accounts st ! a)))]
            | None \<Rightarrow> jobj [(''utxos'', u),
                 (''addressees'', JArr [JObj (addressee (world_session (sender_world s) k) s)])])) own)"

definition sender_session :: "nat \<Rightarrow> sender \<Rightarrow> nat \<times> sender" where
  "sender_session a s =
     (let c = se_convert s; w = cv_world c; (k, st, out) = account_session a (wo_store w)
      in (k, s\<lparr>se_convert := c\<lparr>cv_world := w\<lparr>wo_store := st\<rparr>\<rparr>\<rparr>))"

definition sender_create :: "nat \<Rightarrow> sender \<Rightarrow> sender_result" where
  "sender_create a s =
     (let (k, s1) = sender_session a s
      in case transaction_details k a s1 of
           None \<Rightarrow> (s1, [SenderCrash])
         | Some d \<Rightarrow>
             (let q = se_seq s1 + 1
              in (s1\<lparr>se_seq := q, se_creating := se_creating s1 @ [(q, k, d)]\<rparr>, [CreateTransaction q k d])))"

definition sender_update :: "sender \<Rightarrow> sender_result" where
  "sender_update s =
     (if \<not> se_context s then (s, [])
      else case se_account s of
             None \<Rightarrow> (s, [])
           | Some a \<Rightarrow>
               if se_previous s = None \<and> se_utxos s = JNull then
                 (s\<lparr>se_fetching := se_fetching s @ [a]\<rparr>, [FetchUnspent a])
               else if se_previous s = None \<and> trimmed (se_address s) = [] then set_transaction [] s
               else sender_create a s)"

section \<open>Tasks that end\<close>

definition drop_at :: "nat \<Rightarrow> 'a list \<Rightarrow> 'a list" where
  "drop_at i xs = take i xs @ drop (Suc i) xs"

definition unspent_fetched :: "nat \<Rightarrow> json \<Rightarrow> sender \<Rightarrow> sender_result" where
  "unspent_fetched i u s =
     (if i < length (se_fetching s)
      then sender_update (s\<lparr>se_fetching := drop_at i (se_fetching s), se_utxos := u\<rparr>) else (s, []))"

text \<open>Nothing is connected to the failure of this task.\<close>

definition unspent_failed :: "nat \<Rightarrow> sender \<Rightarrow> sender_result" where
  "unspent_failed i s =
     (if i < length (se_fetching s) then (s\<lparr>se_fetching := drop_at i (se_fetching s)\<rparr>, []) else (s, []))"

text \<open>A task that made a transaction, or an empty object for one that failed.\<close>

definition creation_ended :: "nat \<Rightarrow> jobject \<Rightarrow> sender \<Rightarrow> sender_result" where
  "creation_ended i tx s =
     (if i < length (se_creating s) then
        (let (q, k, d) = se_creating s ! i; s1 = s\<lparr>se_creating := drop_at i (se_creating s)\<rparr>
         in if se_seq s1 = q then set_transaction tx s1 else (s1, []))
      else (s, []))"

section \<open>Events\<close>

text \<open>
  \<open>WorldChanges\<close> is anything that happens elsewhere in the program.  The pages set the input and the unit of
  the recipient's converter, whose other setters only the controller calls.
\<close>

datatype sender_event =
    SetContext bool | SetAccount "nat option" | SetAsset "nat option" | SetPrevious "nat option"
  | SetCoins "nat list" | SetFeeRate int | SetAddress string | SetGreedy bool
  | SetInput amount_input | ClearInput | SetUnit string | ChangeUnit string
  | SenderTimer | ConvertTimer | Converted nat jobject | SessionSignal nat
  | UnspentFetched nat json | UnspentFailed nat | Created nat jobject | CreateFailed nat
  | WorldChanges world

fun sender_step :: "'d numbers \<Rightarrow> sender \<Rightarrow> sender_event \<Rightarrow> sender_result" where
  "sender_step nu s (SetContext b) = (s\<lparr>se_context := b\<rparr>, [])"
| "sender_step nu s (SetAccount a) = sender_set_account a s"
| "sender_step nu s (SetAsset x) = sender_set_asset x s"
| "sender_step nu s (SetPrevious t) = set_previous_transaction t s"
| "sender_step nu s (SetCoins cs) = (set_coins cs s, [])"
| "sender_step nu s (SetFeeRate r) = (set_fee_rate r s, [])"
| "sender_step nu s (SetAddress a) = (set_address a s, [])"
| "sender_step nu s (SetGreedy b) = (set_greedy b s, [])"
| "sender_step nu s (SetInput i) = (recipient_input i s, [])"
| "sender_step nu s ClearInput = with_convert (clear_input (se_convert s)) s"
| "sender_step nu s (SetUnit u) = with_convert (convert_set_unit u (se_convert s), []) s"
| "sender_step nu s (ChangeUnit u) = with_convert (change_unit nu u (se_convert s), []) s"
| "sender_step nu s SenderTimer =
     (if se_timer s then sender_update (s\<lparr>se_timer := False\<rparr>) else (s, []))"
| "sender_step nu s ConvertTimer = with_convert (convert_timer_fires nu (se_convert s)) s"
| "sender_step nu s (Converted i r) = with_convert (convert_answered i r (se_convert s)) s"
| "sender_step nu s (SessionSignal k) = with_convert (session_signal k (se_convert s), []) s"
| "sender_step nu s (UnspentFetched i u) = unspent_fetched i u s"
| "sender_step nu s (UnspentFailed i) = unspent_failed i s"
| "sender_step nu s (Created i tx) = creation_ended i tx s"
| "sender_step nu s (CreateFailed i) = creation_ended i [] s"
| "sender_step nu s (WorldChanges w) = (s\<lparr>se_convert := (se_convert s)\<lparr>cv_world := w\<rparr>\<rparr>, [])"

end
