(* ===== verification/Sending_Props.thy ===== *)
theory Sending_Props
  imports Sending
begin

text \<open>
  What making a transaction guarantees: once everything has settled, the transaction that is shown
  is the library's answer to what is entered now.  And what it does not: which account the coins
  belong to, what happens when the recipient is erased, and which amount is meant when answers of
  the converter overtake each other.
\<close>

section \<open>What a step can do\<close>

text \<open>What a request is made from.\<close>

definition sender_inputs where
  "sender_inputs (s :: sender) = (se_account s, se_asset s, se_previous s, se_coins s, se_fee_rate s, se_utxos s,
     se_address s, se_greedy s, convert_satoshi (se_convert s), cv_asset (se_convert s))"

definition sender_ready :: "sender \<Rightarrow> bool" where
  "sender_ready s \<longleftrightarrow> se_context s \<and> se_account s \<noteq> None \<and>
     (se_previous s \<noteq> None \<or> se_utxos s \<noteq> JNull \<and> trimmed (se_address s) \<noteq> [])"

text \<open>The tasks that end, and with what.\<close>

fun creation_result :: "sender_event \<Rightarrow> (nat \<times> jobject) option" where
  "creation_result (Created i tx) = Some (i, tx)"
| "creation_result (CreateFailed i) = Some (i, [])"
| "creation_result _ = None"

named_theorems sender_simps

declare sender_inputs_def [sender_simps] sender_invalidate_def [sender_simps]
  with_convert_def [sender_simps] set_address_def [sender_simps] set_greedy_def [sender_simps]
  sender_set_account_def [sender_simps] sender_set_asset_def [sender_simps]
  set_previous_transaction_def [sender_simps] set_coins_def [sender_simps]
  set_fee_rate_def [sender_simps] recipient_input_def [sender_simps] clear_input_def [sender_simps]
  convert_satoshi_def [sender_simps] convert_invalidate_def [sender_simps] set_input_def [sender_simps]
  convert_set_unit_def [sender_simps] session_signal_def [sender_simps] show_result_def [sender_simps]

text \<open>\<open>same s t\<close>: from \<open>s\<close> to \<open>t\<close> nothing a request is made from has changed; \<open>calm\<close>: or a timer runs.\<close>

definition same_request :: "sender \<Rightarrow> sender \<Rightarrow> bool" where
  "same_request s t \<longleftrightarrow> sender_inputs t = sender_inputs s \<and> se_context t = se_context s \<and>
     se_timer t = se_timer s"

definition kept_requests :: "sender \<Rightarrow> sender \<Rightarrow> bool" where
  "kept_requests s t \<longleftrightarrow> se_seq t = se_seq s \<and> se_creating t = se_creating s \<and>
     se_transaction t = se_transaction s \<and> (se_context s \<longrightarrow> se_context t)"

definition calm :: "sender \<Rightarrow> sender \<Rightarrow> bool" where
  "calm s t \<longleftrightarrow> kept_requests s t \<and> (se_timer t \<or> same_request s t)"

lemma calm_refl: "calm s s"
  by (simp add: calm_def kept_requests_def same_request_def)

lemma calm_trans:
  assumes "calm s t" and "calm t u" and "se_timer t \<Longrightarrow> se_timer u"
  shows "calm s u"
  using assms unfolding calm_def kept_requests_def same_request_def by auto

lemma convert_quiet:
  assumes "ResultChanged \<notin> set (snd (convert_timer_fires nu c))"
  shows "cv_result (fst (convert_timer_fires nu c)) = cv_result c"
    and "cv_asset (fst (convert_timer_fires nu c)) = cv_asset c"
  using assms
  by (auto simp: convert_timer_fires_def convert_update_def show_result_def Let_def asset_session_def
      primary_session_def split: if_splits option.splits list.splits prod.splits)

lemma change_unit_quiet [simp]:
  "cv_result (change_unit nu u c) = cv_result c" "cv_asset (change_unit nu u c) = cv_asset c"
  by (simp_all add: change_unit_def Let_def)

lemma calm_set_asset: "calm s (fst (sender_set_asset x s))"
  by (auto simp: calm_def kept_requests_def same_request_def sender_simps Let_def split: prod.splits)

lemma timer_set_asset: "se_timer s \<Longrightarrow> se_timer (fst (sender_set_asset x s))"
  by (auto simp: sender_simps Let_def split: prod.splits)

lemma calm_set_account: "calm s (fst (sender_set_account a s))"
  by (auto simp: calm_def kept_requests_def same_request_def sender_simps Let_def split: prod.splits)

lemma kept_set_account:
  "kept_requests s (fst (sender_set_account a s))"
  using calm_set_account [of s a] by (simp add: calm_def)

lemma calm_invalidate: "kept_requests s t \<Longrightarrow> calm s (sender_invalidate t)"
  by (simp add: calm_def kept_requests_def sender_invalidate_def)

lemma calm_set_previous: "calm s (fst (set_previous_transaction t s))"
proof (cases "se_previous s = t")
  case True
  then show ?thesis by (simp add: set_previous_transaction_def calm_refl)
next
  case False
  let ?s1 = "s\<lparr>se_previous := t\<rparr>"
  have "fst (set_previous_transaction t s) = sender_invalidate (case t of None \<Rightarrow> ?s1
      | Some i \<Rightarrow> fst (sender_set_account (Some (tx_account i ?s1)) (?s1\<lparr>se_context := True\<rparr>)))"
    using False by (simp add: set_previous_transaction_def Let_def split: option.splits prod.splits)
  moreover have "kept_requests s (case t of None \<Rightarrow> ?s1
      | Some i \<Rightarrow> fst (sender_set_account (Some (tx_account i ?s1)) (?s1\<lparr>se_context := True\<rparr>)))"
    using kept_set_account [of "?s1\<lparr>se_context := True\<rparr>"]
    by (cases t) (simp_all add: kept_requests_def)
  ultimately show ?thesis using calm_invalidate by simp
qed

lemma calm_set_address: "calm s (set_address a s)"
  by (cases "se_address s = a") (simp_all add: set_address_def calm_refl calm_invalidate kept_requests_def)

lemma timer_set_address: "se_timer s \<Longrightarrow> se_timer (set_address a s)"
  by (simp add: sender_simps)

lemma calm_recipient_input: "calm s (recipient_input i s)"
  by (cases "cv_input (se_convert s) = i")
    (simp_all add: calm_def kept_requests_def same_request_def sender_simps)

lemma timer_recipient_input: "se_timer (recipient_input i s) = se_timer s"
  by (simp add: sender_simps)

lemma calm_set_greedy: "calm s (set_greedy b s)"
  by (cases "se_greedy s = b") (simp_all add: set_greedy_def calm_refl calm_invalidate kept_requests_def)

lemma timer_set_greedy: "se_timer s \<Longrightarrow> se_timer (set_greedy b s)"
  by (simp add: sender_simps)

lemma timer_take_request: "se_timer s \<Longrightarrow> se_timer (take_request ad s)"
  by (simp add: take_request_def Let_def timer_recipient_input timer_set_greedy timer_set_address)

lemma calm_take_request: "calm s (take_request ad s)"
proof -
  have greedy: "calm t (recipient_input i (set_greedy False t))" for t i
    by (rule calm_trans [OF calm_set_greedy calm_recipient_input]) (simp add: timer_recipient_input)
  have "calm s (if b then recipient_input i (set_greedy False t) else t)" if "calm s t" for t b i
    using that by (auto intro: calm_trans [OF _ greedy] simp: timer_recipient_input timer_set_greedy)
  then show ?thesis
    unfolding take_request_def Let_def by (simp add: calm_refl calm_set_address)
qed


lemma calm_take_asset: "calm s (fst (take_asset params s))"
proof (cases "get_or_create_asset (to_string (jvalue params ''assetid'')) s")
  case None
  then show ?thesis by (simp add: take_asset_def calm_refl)
next
  case (Some p)
  then obtain x t where p: "get_or_create_asset (to_string (jvalue params ''assetid'')) s = Some (x, t)"
    by (cases p) auto
  then have "calm s t" and "se_timer t = se_timer s"
    by (auto simp: get_or_create_asset_def Let_def calm_def kept_requests_def same_request_def
        sender_inputs_def convert_satoshi_def)
  then have "calm s (fst (sender_set_asset (Some x) t))"
    by (blast intro: calm_trans calm_set_asset timer_set_asset)
  with p show ?thesis by (simp add: take_asset_def calm_refl)
qed

lemma calm_set_transaction: "calm (s\<lparr>se_transaction := tx\<rparr>) (fst (set_transaction tx s))"
proof -
  let ?s = "s\<lparr>se_transaction := tx\<rparr>"
  have "calm ?s (fst (sender_then (take_asset params ?s) (\<lambda>s1. (take_request ad s1, []))))" for params ad
    by (simp add: sender_then_def) (blast intro: calm_trans calm_take_asset calm_take_request timer_take_request)
  moreover have "calm ?s (recipient_input i (set_address a ?s))" for i a
    by (rule calm_trans [OF calm_set_address calm_recipient_input]) (simp add: timer_recipient_input)
  ultimately show ?thesis
    by (auto simp: set_transaction_def Let_def calm_refl split: list.splits)
qed

text \<open>The last request is made from the present state.\<close>

definition just_asked :: "sender \<Rightarrow> sender_output list \<Rightarrow> bool" where
  "just_asked s out \<longleftrightarrow> (\<exists>k d. CreateTransaction (se_seq s) k d \<in> set out \<and>
     (se_seq s, k, d) \<in> set (se_creating s) \<and> transaction_details k (the (se_account s)) s = Some d)"

lemma just_asked_create:
  assumes "se_account s = Some a" and "SenderCrash \<notin> set (snd (sender_create a s))"
  shows "just_asked (fst (sender_create a s)) (snd (sender_create a s))"
proof -
  obtain k s1 where s1: "sender_session a s = (k, s1)" by (cases "sender_session a s")
  then have a: "se_account s1 = Some a" using assms(1) by (auto simp: sender_session_def Let_def split: prod.splits)
  from assms(2) s1 obtain d where d: "transaction_details k a s1 = Some d"
    by (auto simp: sender_create_def split: option.splits)
  have "transaction_details k a (s1\<lparr>se_seq := q, se_creating := r\<rparr>) = transaction_details k a s1" for q r
    by (simp add: transaction_details_def with_fee_rate_def sender_world_def addressee_def Let_def
        cong: if_cong option.case_cong)
  with s1 d a show ?thesis by (auto simp: sender_create_def just_asked_def Let_def)
qed

lemma update_asks:
  assumes ctx: "se_context s"
  shows "let s' = fst (sender_update s); out = snd (sender_update s)
    in se_timer s' \<or> \<not> sender_ready s' \<or> SenderCrash \<in> set out \<or> just_asked s' out"
proof (cases "se_account s")
  case None
  then show ?thesis by (simp add: sender_update_def sender_ready_def)
next
  case (Some a)
  consider "se_previous s = None" "se_utxos s = JNull"
    | "se_previous s = None" "se_utxos s \<noteq> JNull" "trimmed (se_address s) = []"
    | "se_previous s \<noteq> None \<or> se_utxos s \<noteq> JNull \<and> trimmed (se_address s) \<noteq> []" by blast
  then show ?thesis
  proof cases
    case 1
    with Some ctx show ?thesis by (simp add: sender_update_def sender_ready_def)
  next
    case 2
    then have "sender_update s = set_transaction [] s"
      using Some ctx by (simp add: sender_update_def)
    moreover have "\<not> sender_ready (fst (set_transaction [] s))" if "\<not> se_timer (fst (set_transaction [] s))"
      using calm_set_transaction [where s = s and tx = "[]"] that 2
      by (simp add: calm_def same_request_def sender_ready_def sender_inputs_def)
    ultimately show ?thesis by (auto simp: Let_def)
  next
    case 3
    then have "sender_update s = sender_create a s"
      using Some ctx by (auto simp: sender_update_def)
    then show ?thesis using just_asked_create [OF Some] by (auto simp: Let_def)
  qed
qed

section \<open>What a step leaves\<close>

definition told :: "sender_event \<Rightarrow> sender \<Rightarrow> sender \<Rightarrow> bool" where
  "told e s t \<longleftrightarrow> (\<exists>i tx. creation_result e = Some (i, tx) \<and> i < length (se_creating s) \<and>
     fst (se_creating s ! i) = se_seq s \<and> se_transaction t = tx \<and>
     se_creating t = drop_at i (se_creating s))"

definition undisturbed :: "sender_event \<Rightarrow> sender \<Rightarrow> sender \<Rightarrow> bool" where
  "undisturbed e s t \<longleftrightarrow> same_request s t \<and> se_seq t = se_seq s \<and> set (se_creating t) \<subseteq> set (se_creating s) \<and>
     (se_transaction t = se_transaction s \<and>
        (\<forall>k d. (se_seq s, k, d) \<in> set (se_creating s) \<longrightarrow> (se_seq s, k, d) \<in> set (se_creating t)) \<or>
      told e s t)"

lemma calm_step: "calm s t \<Longrightarrow> se_timer t \<or> undisturbed e s t"
  by (auto simp: calm_def kept_requests_def undisturbed_def)

lemma drop_at_other: "x \<in> set xs \<Longrightarrow> xs ! i \<noteq> x \<Longrightarrow> x \<in> set (drop_at i xs)"
  by (metis drop_at_def id_take_nth_drop insert_iff linorder_not_le list.simps(15)
      set_append Un_iff take_all)

lemma calm_with_convert:
  assumes "ResultChanged \<notin> set (snd r) \<Longrightarrow>
    cv_result (fst r) = cv_result (se_convert s) \<and> cv_asset (fst r) = cv_asset (se_convert s)"
  shows "calm s (fst (with_convert r s))"
  using assms by (auto simp: with_convert_def calm_def kept_requests_def same_request_def sender_inputs_def
      convert_satoshi_def sender_invalidate_def Let_def)

lemma drop_at_subset: "set (drop_at i xs) \<subseteq> set xs"
  by (auto simp: drop_at_def dest: in_set_takeD in_set_dropD)

lemma distinct_drop_at: "distinct xs \<Longrightarrow> distinct (drop_at i xs)"
  using set_take_disj_set_drop_if_distinct [of xs i "Suc i"] by (simp add: drop_at_def)

lemma map_drop_at: "map f (drop_at i xs) = drop_at i (map f xs)"
  by (simp add: drop_at_def take_map drop_map)

lemma keyed_at:
  "distinct (map fst xs) \<Longrightarrow> i < length xs \<Longrightarrow> x \<in> set xs \<Longrightarrow> fst (xs ! i) = fst x \<Longrightarrow> xs ! i = x"
  by (metis distinct_map inj_onD nth_mem)

lemma keyed_dropped:
  assumes "distinct (map fst xs)" and "i < length xs"
  shows "fst (xs ! i) \<notin> fst ` set (drop_at i xs)"
proof -
  have "distinct (map fst (take i xs @ xs ! i # drop (Suc i) xs))"
    using assms by (simp add: id_take_nth_drop [symmetric])
  then show ?thesis by (auto simp: drop_at_def)
qed

text \<open>Numbers of requests are not used twice.\<close>

definition numbers_ok :: "sender \<Rightarrow> bool" where
  "numbers_ok s \<longleftrightarrow> (\<forall>x \<in> set (se_creating s). fst x \<le> se_seq s) \<and> distinct (map fst (se_creating s))"

lemma numbers_drop: "numbers_ok s \<Longrightarrow> numbers_ok (s\<lparr>se_creating := drop_at i (se_creating s)\<rparr>)"
proof -
  assume "numbers_ok s"
  then have "\<forall>x \<in> set (drop_at i (se_creating s)). fst x \<le> se_seq s"
    using drop_at_subset [of i "se_creating s"] unfolding numbers_ok_def by blast
  with \<open>numbers_ok s\<close> show ?thesis by (simp add: numbers_ok_def map_drop_at distinct_drop_at)
qed

lemma calm_numbers: "calm s t \<Longrightarrow> numbers_ok s \<Longrightarrow> numbers_ok t"
  by (simp add: calm_def kept_requests_def numbers_ok_def)

lemma calm_context: "calm s t \<Longrightarrow> se_context s \<Longrightarrow> se_context t"
  by (simp add: calm_def kept_requests_def)

definition orderly :: "sender \<Rightarrow> bool" where
  "orderly s \<longleftrightarrow> numbers_ok s \<and> se_context s"

lemma calm_orderly: "calm s t \<Longrightarrow> orderly s \<Longrightarrow> orderly t"
  unfolding orderly_def using calm_numbers calm_context by blast

lemma transaction_orderly: "orderly s \<Longrightarrow> orderly (fst (set_transaction tx s))"
  by (rule calm_orderly [OF calm_set_transaction]) (simp add: orderly_def numbers_ok_def)

lemma create_orderly:
  assumes "orderly s" shows "orderly (fst (sender_create a s))"
proof -
  have "orderly t \<Longrightarrow> orderly (t\<lparr>se_seq := se_seq t + 1, se_creating := se_creating t @ [(se_seq t + 1, k, d)]\<rparr>)"
    for t k d
    by (force simp: orderly_def numbers_ok_def)
  moreover have "orderly (snd (sender_session a s))"
    using assms by (simp add: sender_session_def orderly_def numbers_ok_def Let_def split: prod.splits)
  ultimately show ?thesis
    by (cases "sender_session a s") (simp add: sender_create_def Let_def split: option.splits)
qed

lemma update_orderly: "orderly s \<Longrightarrow> orderly (fst (sender_update s))"
  by (auto simp: sender_update_def transaction_orderly create_orderly split: option.splits)
    (simp_all add: orderly_def numbers_ok_def)

text \<open>After a step a timer runs, or nothing can be asked for, or it has been, or nothing has changed.\<close>

definition step_result :: "sender_event \<Rightarrow> sender \<Rightarrow> sender_result \<Rightarrow> bool" where
  "step_result e s r \<longleftrightarrow> orderly (fst r) \<and>
     (se_timer (fst r) \<or> \<not> sender_ready (fst r) \<or> SenderCrash \<in> set (snd r) \<or>
      just_asked (fst r) (snd r) \<or> undisturbed e s (fst r))"

lemma calm_result: "orderly s \<Longrightarrow> calm s (fst r) \<Longrightarrow> step_result e s r"
  using calm_step calm_orderly unfolding step_result_def by blast

lemma update_result: "orderly s \<Longrightarrow> step_result e t (sender_update s)"
  using update_asks [of s] update_orderly by (auto simp: step_result_def Let_def orderly_def)

lemma creation_result_step:
  assumes e: "creation_result e = Some (i, tx)" and s: "orderly s"
  shows "step_result e s (creation_ended i tx s)"
proof (cases "i < length (se_creating s)")
  case False
  then show ?thesis using s by (simp add: creation_ended_def calm_result calm_refl)
next
  case True
  obtain q k d where at: "se_creating s ! i = (q, k, d)" by (cases "se_creating s ! i")
  let ?s1 = "s\<lparr>se_creating := drop_at i (se_creating s)\<rparr>"
  have s1: "orderly ?s1" using s numbers_drop [of s i] by (simp add: orderly_def)
  show ?thesis
  proof (cases "q = se_seq s")
    case now: True
    then have eq: "creation_ended i tx s = set_transaction tx ?s1"
      using True at by (simp add: creation_ended_def)
    from calm_set_transaction [where s = ?s1 and tx = tx]
    have "se_timer (fst (set_transaction tx ?s1)) \<or> undisturbed e s (fst (set_transaction tx ?s1))"
      using True at now e drop_at_subset [of i "se_creating s"]
      unfolding calm_def kept_requests_def same_request_def undisturbed_def told_def
      by (auto simp: sender_inputs_def)
    then show ?thesis unfolding eq step_result_def using transaction_orderly [OF s1] by blast
  next
    case False
    then have "creation_ended i tx s = (?s1, [])"
      using True at by (simp add: creation_ended_def)
    moreover have "undisturbed e s ?s1"
      using False at drop_at_subset [of i "se_creating s"]
      by (auto simp: undisturbed_def same_request_def sender_inputs_def intro: drop_at_other)
    ultimately show ?thesis using s1 by (simp add: step_result_def)
  qed
qed

lemma sender_step_result:
  assumes s: "orderly s" and e: "e \<noteq> SetContext False"
  shows "step_result e s (sender_step nu s e)"
proof (cases e)
  case (SetContext b)
  with s e have "fst (sender_step nu s e) = s" by (cases b) (auto simp: orderly_def)
  then show ?thesis using s by (simp add: calm_result calm_refl)
next
  case SenderTimer
  then show ?thesis using s update_result [of "s\<lparr>se_timer := False\<rparr>"]
    by (simp add: calm_result calm_refl orderly_def numbers_ok_def)
next
  case ConvertTimer
  then show ?thesis using s convert_quiet by (auto intro!: calm_result calm_with_convert)
next
  case (UnspentFetched i u)
  then show ?thesis using s
    by (simp add: unspent_fetched_def calm_result calm_refl update_result orderly_def numbers_ok_def)
next
  case (UnspentFailed i)
  then show ?thesis using s
    by (auto simp: unspent_failed_def intro!: calm_result)
      (simp_all add: calm_def kept_requests_def same_request_def sender_inputs_def)
next
  case (Created i tx)
  then show ?thesis using creation_result_step [of e i tx s] s by simp
next
  case (CreateFailed i)
  then show ?thesis using creation_result_step [of e i "[]" s] s by simp
next
  case (WorldChanges w)
  then show ?thesis using s
    by (auto intro!: calm_result)
      (simp add: calm_def kept_requests_def same_request_def sender_inputs_def convert_satoshi_def)
next
  case (Converted i r)
  then show ?thesis using s
    by (auto intro!: calm_result calm_with_convert simp: convert_answered_def show_result_def)
next
  case (SetCoins cs)
  then show ?thesis using s
    by (cases "se_coins s = cs") (simp_all add: calm_result set_coins_def calm_refl calm_invalidate kept_requests_def)
next
  case (SetFeeRate r)
  then show ?thesis using s
    by (cases "se_fee_rate s = r")
      (simp_all add: calm_result set_fee_rate_def calm_refl calm_invalidate kept_requests_def)
qed (insert s, auto intro!: calm_result calm_set_account calm_set_asset calm_set_previous calm_set_address
    calm_set_greedy calm_recipient_input calm_with_convert
    simp: clear_input_def set_input_def convert_invalidate_def convert_set_unit_def session_signal_def)

section \<open>The transaction is that of what is entered\<close>

text \<open>A history of a controller, whose context is given first.\<close>

definition sender_after :: "'d numbers \<Rightarrow> world \<Rightarrow> sender_event list \<Rightarrow> sender" where
  "sender_after nu w es = fst (run (sender_step nu) (new_sender w) (SetContext True # es))"

definition sender_says :: "'d numbers \<Rightarrow> world \<Rightarrow> sender_event list \<Rightarrow> sender_event \<Rightarrow> sender_output list" where
  "sender_says nu w es e = snd (sender_step nu (sender_after nu w es) e)"

lemma sender_after_snoc: "sender_after nu w (es @ [e]) = fst (sender_step nu (sender_after nu w es) e)"
  by (simp add: sender_after_def run_append_fst)

text \<open>
  The last request was made from the present inputs, and is still under way or has been answered
  with the transaction.
\<close>

definition request_stands :: "'d numbers \<Rightarrow> world \<Rightarrow> sender_event list \<Rightarrow> nat \<times> nat \<times> jobject \<Rightarrow>
    sender_event list \<Rightarrow> sender_event list \<Rightarrow> bool" where
  "request_stands nu w es = (\<lambda>(q, k, d) es1 es2. \<exists>e. es = es1 @ e # es2 \<and>
     q = se_seq (sender_after nu w es) \<and> CreateTransaction q k d \<in> set (sender_says nu w es1 e) \<and>
     sender_inputs (sender_after nu w (es1 @ [e])) = sender_inputs (sender_after nu w es) \<and>
     transaction_details k (the (se_account (sender_after nu w es))) (sender_after nu w (es1 @ [e])) = Some d)"

definition answered_with :: "'d numbers \<Rightarrow> world \<Rightarrow> nat \<times> nat \<times> jobject \<Rightarrow> sender_event list \<Rightarrow>
    sender_event \<Rightarrow> jobject \<Rightarrow> bool" where
  "answered_with nu w r es f tx \<longleftrightarrow> (\<exists>i. creation_result f = Some (i, tx) \<and>
     i < length (se_creating (sender_after nu w es)) \<and> se_creating (sender_after nu w es) ! i = r)"

definition settled_by :: "'d numbers \<Rightarrow> world \<Rightarrow> sender_event list \<Rightarrow> bool" where
  "settled_by nu w es \<longleftrightarrow> (\<exists>r es1 es2. request_stands nu w es r es1 es2 \<and>
     (r \<in> set (se_creating (sender_after nu w es)) \<or>
      fst r \<notin> fst ` set (se_creating (sender_after nu w es)) \<and>
      (\<exists>es3 f es4. es = es3 @ f # es4 \<and> length es1 < length es3 \<and>
         answered_with nu w r es3 f (se_transaction (sender_after nu w es)))))"

lemma request_stands_snoc:
  assumes "request_stands nu w es r es1 es2"
    and "undisturbed e (sender_after nu w es) (sender_after nu w (es @ [e]))"
  shows "request_stands nu w (es @ [e]) r es1 (es2 @ [e])"
  using assms
  by (auto simp: request_stands_def undisturbed_def same_request_def sender_inputs_def split: prod.splits)

lemma settled_snoc:
  assumes "settled_by nu w es" and s: "orderly (sender_after nu w es)"
    and un: "undisturbed e (sender_after nu w es) (sender_after nu w (es @ [e]))"
  shows "settled_by nu w (es @ [e])"
proof -
  let ?s = "sender_after nu w es" and ?t = "sender_after nu w (es @ [e])"
  from assms(1) obtain r es1 es2 where r: "request_stands nu w es r es1 es2"
    and how: "r \<in> set (se_creating ?s) \<or> fst r \<notin> fst ` set (se_creating ?s) \<and>
      (\<exists>es3 f es4. es = es3 @ f # es4 \<and> length es1 < length es3 \<and>
         answered_with nu w r es3 f (se_transaction ?s))"
    unfolding settled_by_def by blast
  have seq: "fst r = se_seq ?s" using r by (cases r) (auto simp: request_stands_def)
  have sub: "set (se_creating ?t) \<subseteq> set (se_creating ?s)" using un by (simp add: undisturbed_def)
  have numbers: "distinct (map fst (se_creating ?s))" using s by (simp add: orderly_def numbers_ok_def)
  note stands = request_stands_snoc [OF r un]
  consider (told) i tx where "creation_result e = Some (i, tx)" "i < length (se_creating ?s)"
      "fst (se_creating ?s ! i) = se_seq ?s" "se_transaction ?t = tx"
      "se_creating ?t = drop_at i (se_creating ?s)"
    | (quiet) "se_transaction ?t = se_transaction ?s"
      "\<forall>k d. (se_seq ?s, k, d) \<in> set (se_creating ?s) \<longrightarrow> (se_seq ?s, k, d) \<in> set (se_creating ?t)"
    using un unfolding undisturbed_def told_def by blast
  then show ?thesis
  proof cases
    case told
    then have "fst r \<in> fst ` set (se_creating ?s)" using seq by (metis image_eqI nth_mem)
    with how have pending: "r \<in> set (se_creating ?s)" by blast
    have at: "se_creating ?s ! i = r" using told(2,3) seq by (intro keyed_at numbers pending) simp_all
    have "fst r \<notin> fst ` set (se_creating ?t)" using keyed_dropped [OF numbers told(2)] told(5) at by simp
    moreover have "answered_with nu w r es e (se_transaction ?t)"
      using told at by (auto simp: answered_with_def)
    moreover have "length es1 < length es" using r by (cases r) (auto simp: request_stands_def)
    ultimately show ?thesis using stands unfolding settled_by_def by blast
  next
    case quiet
    from how show ?thesis
    proof
      assume "r \<in> set (se_creating ?s)"
      then have "r \<in> set (se_creating ?t)" using quiet(2) seq by (metis prod.collapse)
      then show ?thesis using stands unfolding settled_by_def by blast
    next
      assume "fst r \<notin> fst ` set (se_creating ?s) \<and> (\<exists>es3 f es4. es = es3 @ f # es4 \<and>
        length es1 < length es3 \<and> answered_with nu w r es3 f (se_transaction ?s))"
      then obtain es3 f es4 where "fst r \<notin> fst ` set (se_creating ?s)" "es = es3 @ f # es4"
        "length es1 < length es3" "answered_with nu w r es3 f (se_transaction ?s)" by blast
      moreover from this have "es @ [e] = es3 @ f # (es4 @ [e])" by simp
      moreover have "fst r \<notin> fst ` set (se_creating ?t)" using sub calculation(1) by blast
      ultimately show ?thesis using stands quiet(1) unfolding settled_by_def by metis
    qed
  qed
qed

lemma settled_or_busy:
  assumes "SetContext False \<notin> set es"
    and "SenderCrash \<notin> set (snd (run (sender_step nu) (new_sender w) (SetContext True # es)))"
  shows "orderly (sender_after nu w es) \<and>
    (se_timer (sender_after nu w es) \<or> \<not> sender_ready (sender_after nu w es) \<or> settled_by nu w es)"
  using assms
proof (induction es rule: rev_induct)
  case Nil
  then show ?case
    by (simp add: sender_after_def orderly_def numbers_ok_def sender_ready_def new_sender_def)
next
  case (snoc e es)
  let ?s = "sender_after nu w es" and ?t = "sender_after nu w (es @ [e])"
  have IH: "orderly ?s" "se_timer ?s \<or> \<not> sender_ready ?s \<or> settled_by nu w es"
    using snoc by (auto simp: run_append_snd)
  have calm: "SenderCrash \<notin> set (sender_says nu w es e)"
    using snoc.prems(2) by (simp add: sender_says_def sender_after_def run_append_snd)
  have "step_result e ?s (sender_step nu ?s e)"
    using snoc.prems(1) by (intro sender_step_result IH) auto
  then have result: "orderly ?t" "se_timer ?t \<or> \<not> sender_ready ?t \<or>
      just_asked ?t (sender_says nu w es e) \<or> undisturbed e ?s ?t"
    using calm by (auto simp: step_result_def sender_after_snoc sender_says_def)
  moreover have "settled_by nu w (es @ [e])" if "just_asked ?t (sender_says nu w es e)"
  proof -
    from that obtain k d where "CreateTransaction (se_seq ?t) k d \<in> set (sender_says nu w es e)"
      "(se_seq ?t, k, d) \<in> set (se_creating ?t)"
      "transaction_details k (the (se_account ?t)) ?t = Some d" by (auto simp: just_asked_def)
    then show ?thesis
      by (intro settled_by_def [THEN iffD2] exI [of _ "(se_seq ?t, k, d)"] exI [of _ es] exI [of _ "[]"])
        (auto simp: request_stands_def)
  qed
  moreover have "se_timer ?t \<or> \<not> sender_ready ?t \<or> settled_by nu w (es @ [e])" if "undisturbed e ?s ?t"
  proof -
    have "se_timer ?t = se_timer ?s" "sender_ready ?t = sender_ready ?s"
      using that by (auto simp: undisturbed_def same_request_def sender_inputs_def sender_ready_def)
    then show ?thesis using IH settled_snoc that by auto
  qed
  ultimately show ?case by blast
qed

text \<open>
  C27.  The transaction that is shown is that of what is entered.  After any history of the
  controller, whatever is entered when, in whatever order tasks end and whatever they answer, and
  whatever changes elsewhere: once no timer of the controller runs and its last request is answered, and there are
  coins and a recipient (or a transaction to replace), the transaction that is shown is what the
  library answered to a request made from exactly what is entered now: the account, the coins, the
  amount in satoshi, the recipient and the fee rate.
\<close>

theorem shown_transaction_current:
  assumes "SetContext False \<notin> set es"
    and "SenderCrash \<notin> set (snd (run (sender_step nu) (new_sender w) (SetContext True # es)))"
    and "\<not> se_timer (sender_after nu w es)" and "sender_ready (sender_after nu w es)"
    and "se_seq (sender_after nu w es) \<notin> fst ` set (se_creating (sender_after nu w es))"
  shows "\<exists>k d es1 e es2 f es3. es = es1 @ e # es2 @ f # es3 \<and>
    (let s = sender_after nu w es; asked = sender_after nu w (es1 @ [e]); r = (se_seq s, k, d)
     in CreateTransaction (se_seq s) k d \<in> set (sender_says nu w es1 e) \<and>
        sender_inputs asked = sender_inputs s \<and>
        transaction_details k (the (se_account s)) asked = Some d \<and>
        answered_with nu w r (es1 @ e # es2) f (se_transaction s))"
proof -
  let ?s = "sender_after nu w es"
  obtain r es1 es2 where r: "request_stands nu w es r es1 es2" and
    how: "r \<in> set (se_creating ?s) \<or> (\<exists>es3 f es4. es = es3 @ f # es4 \<and> length es1 < length es3 \<and>
      answered_with nu w r es3 f (se_transaction ?s))"
    using settled_or_busy [OF assms(1,2)] assms(3,4) unfolding settled_by_def by blast
  obtain q k d where q: "r = (q, k, d)" by (cases r)
  with r have "q = se_seq ?s" by (auto simp: request_stands_def)
  with q assms(5) have "r \<notin> set (se_creating ?s)" by force
  with how obtain es3 f es4 where f: "es = es3 @ f # es4" "length es1 < length es3"
    "answered_with nu w r es3 f (se_transaction ?s)" by blast
  from r q obtain e where e: "es = es1 @ e # es2" by (auto simp: request_stands_def)
  obtain es5 where es5: "es3 = es1 @ e # es5"
    using f(1,2) e by (auto simp: append_eq_append_conv2 Cons_eq_append_conv)
  show ?thesis
    using r f e q es5
    by (intro exI [of _ k] exI [of _ d] exI [of _ es1] exI [of _ e] exI [of _ es5] exI [of _ f] exI [of _ es4])
      (auto simp: request_stands_def Let_def)
qed

text \<open>A wallet of two accounts of one network, and numbers that are integers.\<close>

definition spend_settings :: app_settings where
  "spend_settings = \<lparr>set_use_tor = False, set_use_proxy = False, set_proxy = [], set_electrum_tls = False,
     set_personal_node = False, set_bitcoin_url = [], set_liquid_url = [], set_testnet_url = [],
     set_liquid_testnet_url = []\<rparr>"

definition spend_network :: network where
  "spend_network = new_network (jobj [(''network'', JStr ''net''), (''mainnet'', JBool True)])"

definition spend_world :: world where
  "spend_world = \<lparr>wo_store = (new_store spend_settings None False [] False)\<lparr>
       cx_accounts := [new_account spend_network 0, new_account spend_network 1],
       cx_session_objs := [new_session spend_settings spend_network], cx_sessions := [(''net'', 0)],
       cx_session_list := [0]\<rparr>,
     wo_deployment = ''mainnet'', wo_primary = Some spend_network,
     wo_assets = \<lparr>am_networks = [spend_network], am_assets = [], am_index = []\<rparr>, wo_estimates = (\<lambda>_. [])\<rparr>"

definition spend_numbers :: "int numbers" where
  "spend_numbers = \<lparr>nu_zero = 0, nu_read = (\<lambda>_. None), nu_read_c = (\<lambda>_. None), nu_show = (\<lambda>_ _. ''0''),
     nu_show_c = (\<lambda>_ _. ''0''), nu_point = ''.'', nu_add = (+), nu_scale = (\<lambda>n _. n), nu_whole = (\<lambda>_. 0)\<rparr>"

definition spend_events :: "sender_event list" where
  "spend_events = [SetAccount (Some 0), SetAddress ''bc1'', SenderTimer, UnspentFetched 0 (JObj []),
     Created 0 [(''transaction'', JStr ''00'')]]"

lemma spend_after:
  "\<not> se_timer (sender_after spend_numbers spend_world spend_events)"
  "sender_ready (sender_after spend_numbers spend_world spend_events)"
  "se_seq (sender_after spend_numbers spend_world spend_events) = 1"
  "se_creating (sender_after spend_numbers spend_world spend_events) = []"
  "se_transaction (sender_after spend_numbers spend_world spend_events) = [(''transaction'', JStr ''00'')]"
  by code_simp+

lemma spend_says:
  "SenderCrash \<notin> set (snd (run (sender_step spend_numbers) (new_sender spend_world) (SetContext True # spend_events)))"
  by code_simp

theorem shown_transaction_current_witness:
  "\<exists>k d es1 e es2 f es3. spend_events = es1 @ e # es2 @ f # es3 \<and>
    CreateTransaction 1 k d \<in> set (sender_says spend_numbers spend_world es1 e) \<and>
    answered_with spend_numbers spend_world (1, k, d) (es1 @ e # es2) f [(''transaction'', JStr ''00'')]"
proof -
  have "SetContext False \<notin> set spend_events" by (simp add: spend_events_def)
  from shown_transaction_current [OF this spend_says spend_after(1,2)] show ?thesis
    unfolding Let_def spend_after(3-5) by simp blast
qed

section \<open>Where what is shown is not what is meant\<close>

text \<open>
  The controller only ignores answers to requests that newer ones have replaced.  When the recipient is erased
  nothing is asked for, so the answer that is still on its way is shown, with nobody to pay in the page.
\<close>

lemma erased_recipient_shown:
  assumes "se_context s" and "se_account s = Some a" and "se_previous s = None" and "se_utxos s \<noteq> JNull"
    and "se_address s \<noteq> []" and "i < length (se_creating s)" and "fst (se_creating s ! i) = se_seq s"
    and "to_array (jvalue tx ''addressees'') = []"
  shows "let t = fst (run (sender_step nu) s [SetAddress [], SenderTimer, Created i tx])
    in se_address t = [] \<and> \<not> se_timer t \<and> se_transaction t = tx"
  using assms
  by (auto simp: Let_def set_address_def sender_invalidate_def sender_update_def trimmed_def
      set_transaction_def creation_ended_def split: prod.splits)

text \<open>The coins a request spends from.\<close>

lemma jvalue_other_insert: "k' \<noteq> k \<Longrightarrow> jvalue (json_insert k v d) k' = jvalue d k'"
  by (simp add: json_insert_def jvalue_def qm_value_insert qm_value_remove)

lemma fee_rate_utxos: "jvalue (with_fee_rate k s d) ''utxos'' = jvalue d ''utxos''"
  by (simp add: with_fee_rate_def Let_def jvalue_insert jvalue_other_insert split: option.splits)

lemma details_utxos:
  assumes "se_previous s = None" and "se_coins s = []"
  shows "\<exists>d. transaction_details k a s = Some d \<and> jvalue d ''utxos'' = se_utxos s"
  using assms
  by (simp add: transaction_details_def Let_def fee_rate_utxos jvalue_jobj)

definition has_session :: "world \<Rightarrow> nat \<Rightarrow> nat \<Rightarrow> bool" where
  "has_session w a k \<longleftrightarrow> cx_session_list (wo_store w) \<noteq> [] \<and>
     map_of (cx_sessions (wo_store w)) (n_id (ac_network (world_account w a))) = Some k"

lemma sender_session_known:
  "has_session (sender_world s) a k \<Longrightarrow> sender_session a s = (k, s)"
  by (simp add: has_session_def sender_session_def account_session_def get_or_create_session_def
      sender_world_def world_account_def)

lemma create_asks:
  assumes "has_session (sender_world s) a k" and "se_previous s = None" and "se_coins s = []"
  shows "\<exists>d. sender_create a s = (s\<lparr>se_seq := se_seq s + 1,
      se_creating := se_creating s @ [(se_seq s + 1, k, d)]\<rparr>, [CreateTransaction (se_seq s + 1) k d]) \<and>
    transaction_details k a s = Some d \<and> jvalue d ''utxos'' = se_utxos s"
  using details_utxos [OF assms(2,3), of k a] sender_session_known [OF assms(1)]
  by (auto simp: sender_create_def Let_def)

lemma update_creates:
  assumes "se_context s" and "se_account s = Some a" and "se_previous s = None" and "se_utxos s \<noteq> JNull"
    and "trimmed (se_address s) \<noteq> []"
  shows "sender_update s = sender_create a s"
  using assms by (simp add: sender_update_def)

lemma connect_quiet:
  assumes "cx_session_list (wo_store (cv_world c)) \<noteq> []"
  shows "\<exists>x y. connect_to_session c = (c\<lparr>cv_connected := x, cv_listening := y\<rparr>, [])"
proof -
  obtain k ks where "cx_session_list (wo_store (cv_world c)) = k # ks"
    using assms by (cases "cx_session_list (wo_store (cv_world c))") auto
  then have "\<exists>m. asset_session c = Some (m, c)"
    by (auto simp: asset_session_def primary_session_def Let_def split: option.splits)
  then obtain m where m: "asset_session c = Some (m, c)" by blast
  have "\<exists>x y. c = c\<lparr>cv_connected := x, cv_listening := y\<rparr>"
    by (intro exI [of _ "cv_connected c"] exI [of _ "cv_listening c"]) simp
  moreover have "\<exists>x y. c\<lparr>cv_listening := l\<rparr> = c\<lparr>cv_connected := x, cv_listening := y\<rparr>" for l
    by (intro exI [of _ "cv_connected c"] exI [of _ l]) simp
  ultimately show ?thesis using m by (auto simp: connect_to_session_def split: option.splits)
qed

lemma set_account_quiet:
  assumes "cx_session_list (wo_store (sender_world s)) \<noteq> []" and "se_account s \<noteq> Some b"
  shows "\<exists>c. cv_world c = sender_world s \<and> sender_set_account (Some b) s =
    (s\<lparr>se_account := Some b, se_convert := c, se_utxos := JNull, se_timer := True\<rparr>, [])"
proof -
  let ?c = "se_convert s"
  have "\<exists>c. cv_world c = cv_world ?c \<and> convert_set_account (Some b) ?c = (c, [])"
  proof (cases "cv_account ?c = Some b \<or> cv_context ?c")
    case True
    then show ?thesis
      by (auto simp: convert_set_account_def convert_set_context_def convert_invalidate_def)
  next
    case False
    with connect_quiet [of "?c\<lparr>cv_account := Some b, cv_context := True, cv_timer := True\<rparr>"] assms(1)
    show ?thesis
      by (auto simp: convert_set_account_def convert_set_context_def convert_invalidate_def sender_world_def)
  qed
  then obtain c where "cv_world c = cv_world ?c" "convert_set_account (Some b) ?c = (c, [])" by blast
  with assms(2) show ?thesis
    by (intro exI [of _ c]) (simp add: sender_set_account_def with_convert_def sender_invalidate_def
        sender_world_def Let_def)
qed

text \<open>The coins arrive before the update timer fires, or after the other account's.\<close>

lemma early_coins:
  assumes "se_context s" and "se_account s = Some a" and "se_previous s = None" and "se_coins s = []"
    and "se_fetching s = [a]" and "b \<noteq> a" and "trimmed (se_address s) \<noteq> []" and "u \<noteq> JNull"
    and session: "has_session (sender_world s) b k"
  shows "let r = run (sender_step nu) s [SetAccount (Some b), UnspentFetched 0 u, SenderTimer]; t = fst r
    in (\<exists>d d'. snd r = [CreateTransaction (se_seq s + 1) k d, CreateTransaction (se_seq s + 2) k d'] \<and>
       jvalue d ''utxos'' = u \<and> jvalue d' ''utxos'' = u) \<and>
       se_account t = Some b \<and> se_fetching t = [] \<and> \<not> se_timer t"
proof -
  obtain c where c: "cv_world c = sender_world s" and account: "sender_set_account (Some b) s =
      (s\<lparr>se_account := Some b, se_convert := c, se_utxos := JNull, se_timer := True\<rparr>, [])"
    using set_account_quiet [of s b] session assms(2,6) by (auto simp: has_session_def)
  let ?s1 = "s\<lparr>se_account := Some b, se_convert := c, se_timer := True, se_fetching := [], se_utxos := u\<rparr>"
  obtain d where d: "sender_create b ?s1 = (?s1\<lparr>se_seq := se_seq s + 1,
      se_creating := se_creating s @ [(se_seq s + 1, k, d)]\<rparr>, [CreateTransaction (se_seq s + 1) k d])"
    "jvalue d ''utxos'' = u"
    using create_asks [of ?s1 b k] session assms(3,4) c by (auto simp: sender_world_def)
  let ?s2 = "?s1\<lparr>se_seq := se_seq s + 1, se_creating := se_creating s @ [(se_seq s + 1, k, d)], se_timer := False\<rparr>"
  obtain d' where d': "sender_create b ?s2 = (?s2\<lparr>se_seq := se_seq s + 2,
      se_creating := se_creating ?s2 @ [(se_seq s + 2, k, d')]\<rparr>, [CreateTransaction (se_seq s + 2) k d'])"
    "jvalue d' ''utxos'' = u"
    using create_asks [of ?s2 b k] session assms(3,4) c by (auto simp: sender_world_def)
  have "unspent_fetched 0 u (s\<lparr>se_account := Some b, se_convert := c, se_utxos := JNull, se_timer := True\<rparr>) =
      sender_create b ?s1"
    using assms by (simp add: unspent_fetched_def drop_at_def update_creates)
  moreover have "sender_update ?s2 = sender_create b ?s2"
    using assms by (intro update_creates) simp_all
  ultimately show ?thesis using account d d' by (simp add: Let_def)
qed

lemma late_coins:
  assumes "se_context s" and "se_account s = Some a" and "se_previous s = None" and "se_coins s = []"
    and "se_fetching s = [a]" and "b \<noteq> a" and "trimmed (se_address s) \<noteq> []" and "u \<noteq> JNull" and "v \<noteq> JNull"
    and session: "has_session (sender_world s) b k"
  shows "let r = run (sender_step nu) s [SetAccount (Some b), SenderTimer, UnspentFetched 1 v, UnspentFetched 0 u];
      t = fst r
    in (\<exists>d d'. snd r = [FetchUnspent b, CreateTransaction (se_seq s + 1) k d, CreateTransaction (se_seq s + 2) k d'] \<and>
         jvalue d ''utxos'' = v \<and> jvalue d' ''utxos'' = u) \<and>
       se_account t = Some b \<and> se_seq t = se_seq s + 2 \<and> se_fetching t = [] \<and> \<not> se_timer t"
proof -
  obtain c where c: "cv_world c = sender_world s" and account: "sender_set_account (Some b) s =
      (s\<lparr>se_account := Some b, se_convert := c, se_utxos := JNull, se_timer := True\<rparr>, [])"
    using set_account_quiet [of s b] session assms(2,6) by (auto simp: has_session_def)
  let ?s0 = "s\<lparr>se_account := Some b, se_convert := c, se_utxos := JNull, se_timer := False\<rparr>"
  let ?s1 = "s\<lparr>se_account := Some b, se_convert := c, se_timer := False, se_fetching := [a], se_utxos := v\<rparr>"
  have fetch: "sender_update ?s0 = (?s0\<lparr>se_fetching := [a, b]\<rparr>, [FetchUnspent b])"
    using assms by (simp add: sender_update_def)
  obtain d where d: "sender_create b ?s1 = (?s1\<lparr>se_seq := se_seq s + 1,
      se_creating := se_creating s @ [(se_seq s + 1, k, d)]\<rparr>, [CreateTransaction (se_seq s + 1) k d])"
    "jvalue d ''utxos'' = v"
    using create_asks [of ?s1 b k] session assms(3,4) c by (auto simp: sender_world_def)
  let ?s2 = "?s1\<lparr>se_seq := se_seq s + 1, se_creating := se_creating s @ [(se_seq s + 1, k, d)],
    se_fetching := [], se_utxos := u\<rparr>"
  obtain d' where d': "sender_create b ?s2 = (?s2\<lparr>se_seq := se_seq s + 2,
      se_creating := se_creating ?s2 @ [(se_seq s + 2, k, d')]\<rparr>, [CreateTransaction (se_seq s + 2) k d'])"
    "jvalue d' ''utxos'' = u"
    using create_asks [of ?s2 b k] session assms(3,4) c by (auto simp: sender_world_def)
  have "unspent_fetched 1 v (?s0\<lparr>se_fetching := [a, b]\<rparr>) = sender_create b ?s1"
    using assms by (simp add: unspent_fetched_def drop_at_def update_creates)
  moreover have "unspent_fetched 0 u (?s1\<lparr>se_seq := se_seq s + 1,
      se_creating := se_creating s @ [(se_seq s + 1, k, d)]\<rparr>) = sender_create b ?s2"
    using assms by (simp add: unspent_fetched_def drop_at_def update_creates)
  ultimately show ?thesis using account fetch d d' by (simp add: Let_def)
qed

text \<open>
  C9.  The coins of one account can be spent from another.  Let the coins of an account be asked for
  (nothing else being asked for), for a payment that replaces no transaction and for which no coins have
  been chosen, and let the account be changed before they arrive; the session of the new account is
  there.  If they arrive before the update timer (5 ms) fires, then they are taken for those of the new
  account: the two requests that are made spend them in the session of the new account, and the new
  account's own coins are not asked for.  If the timer fires first, the new account's coins are asked for
  as well; but if the old account's arrive after them, the last request, whose sequence number is the one
  the sender waits for, spends the old account's coins in the session of the new account.
\<close>

theorem coins_of_other_account:
  assumes "se_context s" and "se_account s = Some a" and "se_previous s = None" and "se_coins s = []"
    and "se_fetching s = [a]" and "b \<noteq> a" and "trimmed (se_address s) \<noteq> []" and "u \<noteq> JNull" and "v \<noteq> JNull"
    and "has_session (sender_world s) b k"
  shows "let early = run (sender_step nu) s [SetAccount (Some b), UnspentFetched 0 u, SenderTimer];
      late = run (sender_step nu) s [SetAccount (Some b), SenderTimer, UnspentFetched 1 v, UnspentFetched 0 u]
    in (\<exists>d d'. snd early = [CreateTransaction (se_seq s + 1) k d, CreateTransaction (se_seq s + 2) k d'] \<and>
         jvalue d ''utxos'' = u \<and> jvalue d' ''utxos'' = u) \<and>
       se_account (fst early) = Some b \<and> se_fetching (fst early) = [] \<and> \<not> se_timer (fst early) \<and>
       (\<exists>d d'. snd late = [FetchUnspent b, CreateTransaction (se_seq s + 1) k d, CreateTransaction (se_seq s + 2) k d'] \<and>
         jvalue d ''utxos'' = v \<and> jvalue d' ''utxos'' = u) \<and>
       se_account (fst late) = Some b \<and> se_seq (fst late) = se_seq s + 2 \<and> se_fetching (fst late) = [] \<and>
       \<not> se_timer (fst late)"
  using early_coins [OF assms(1-8,10), of nu] late_coins [OF assms, of nu]
  by (simp add: Let_def del: run_Cons_fst run_Cons_snd)

definition fetching_sender :: sender where
  "fetching_sender =
     sender_after spend_numbers spend_world [SetAccount (Some 0), SetAddress ''bc1'', SenderTimer]"

lemma fetching_sender_facts:
  "se_context fetching_sender" "se_account fetching_sender = Some 0" "se_previous fetching_sender = None"
  "se_coins fetching_sender = []" "se_fetching fetching_sender = [0]"
  "trimmed (se_address fetching_sender) \<noteq> []" "has_session (sender_world fetching_sender) 1 0"
  "cv_context (se_convert fetching_sender)" "cv_input (se_convert fetching_sender) = []"
  "cv_asking (se_convert fetching_sender) = []" "se_seq fetching_sender = 0"
  "cx_session_list (wo_store (cv_world (se_convert fetching_sender))) \<noteq> []"
  by code_simp+

theorem coins_of_other_account_witness:
  "\<exists>d d'. snd (run (sender_step spend_numbers) fetching_sender
      [SetAccount (Some 1), UnspentFetched 0 (JArr [JInt 7]), SenderTimer]) =
    [CreateTransaction 1 0 d, CreateTransaction 2 0 d'] \<and>
    jvalue d ''utxos'' = JArr [JInt 7] \<and> jvalue d' ''utxos'' = JArr [JInt 7]"
  using coins_of_other_account [OF fetching_sender_facts(1-5) _ fetching_sender_facts(6) _
      _ fetching_sender_facts(7), where u = "JArr [JInt 7]" and v = "JArr [JInt 8]" and nu = spend_numbers]
  unfolding Let_def fetching_sender_facts(11)
  by (simp add: numeral_2_eq_2 del: run_Cons_fst run_Cons_snd)

section \<open>Amounts\<close>

lemma digits_value_append:
  "digits_value a (xs @ ys) = (case digits_value a xs of None \<Rightarrow> None | Some b \<Rightarrow> digits_value b ys)"
  by (induction a xs rule: digits_value.induct) (auto simp: Let_def)

lemma digit_char_code: "d < 10 \<Longrightarrow> (of_char (digit_char d) :: int) = 48 + int d"
proof -
  assume "d < 10"
  then have "(of_char (digit_char d) :: nat) = 48 + d" by (simp add: digit_char_def)
  then show ?thesis by (metis of_nat_of_char of_nat_add of_nat_numeral)
qed

lemma digits_value_digit: "d < 10 \<Longrightarrow> digits_value a [digit_char d] = Some (10 * a + int d)"
  by (simp add: digit_char_code)

lemma digits_value_nat: "digits_value 0 (string_of_nat n) = Some (int n)"
proof (induction n rule: string_of_nat.induct)
  case (1 n)
  show ?case
  proof (cases "n < 10")
    case True
    then show ?thesis by (simp add: string_of_nat.simps [of n] digits_value_digit del: digits_value.simps)
  next
    case False
    then have "digits_value 0 (string_of_nat n) = Some (10 * int (n div 10) + int (n mod 10))"
      using 1 by (simp add: string_of_nat.simps [of n] digits_value_append digits_value_digit
          del: digits_value.simps)
    moreover have "10 * int (n div 10) + int (n mod 10) = int n" by presburger
    ultimately show ?thesis by simp
  qed
qed

lemma string_of_nat_digit: "c \<in> set (string_of_nat n) \<Longrightarrow> \<exists>d < 10. c = digit_char d"
proof (induction n rule: string_of_nat.induct)
  case (1 n)
  then show ?case
    by (cases "n < 10") (auto simp: string_of_nat.simps [of n] intro: exI [of _ n] exI [of _ "n mod 10"])
qed

lemma string_of_nat_codes: "c \<in> set (string_of_nat n) \<Longrightarrow> (of_char c :: nat) \<ge> 48"
  using string_of_nat_digit [of c n] by (auto simp: digit_char_def)

lemma space_codes: "is_space c \<Longrightarrow> (of_char c :: nat) \<le> 32"
  by (auto simp: is_space_def)

lemma no_space_dropped: "(\<And>c. c \<in> set s \<Longrightarrow> \<not> is_space c) \<Longrightarrow> dropWhile is_space s = s"
  by (cases s) auto

lemma trimmed_plain: "(\<And>c. c \<in> set s \<Longrightarrow> \<not> is_space c) \<Longrightarrow> trimmed s = s"
  using no_space_dropped [of s] no_space_dropped [of "rev s"] by (simp add: trimmed_def)

lemma string_of_int_trimmed: "trimmed (string_of_int v) = string_of_int v"
proof (rule trimmed_plain)
  fix c assume "c \<in> set (string_of_int v)"
  then have "(of_char c :: nat) \<ge> 45"
    using string_of_nat_codes by (fastforce simp: string_of_int_def split: if_splits)
  then show "\<not> is_space c" using space_codes by fastforce
qed

lemma long_of_string:
  assumes "- (2 ^ 63) \<le> v" and "v < 2 ^ 63"
  shows "long_of_text (string_of_int v) = v"
proof (cases "v < 0")
  case True
  then show ?thesis using assms digits_value_nat [of "nat (- v)"] string_of_int_trimmed [of v]
    by (simp add: long_of_text_def string_of_int_def Let_def)
next
  case False
  have "hd (string_of_nat n) \<noteq> CHR ''-'' \<and> hd (string_of_nat n) \<noteq> CHR ''+''" for n
    using string_of_nat_codes [of "hd (string_of_nat n)" n] by auto
  then show ?thesis using False assms digits_value_nat [of "nat v"] string_of_int_trimmed [of v]
    by (simp add: long_of_text_def string_of_int_def Let_def)
qed

lemma to_integer_range: "- (2 ^ 63) \<le> to_integer j \<and> to_integer j < 2 ^ 63"
  by (cases j) auto

text \<open>An update of a converter with a context and a session asks, once.\<close>

lemma convert_update_asks:
  assumes "cv_context c" and "cx_session_list (wo_store (cv_world c)) \<noteq> []"
  shows "\<exists>k d. convert_update nu c = (c\<lparr>cv_asking := cv_asking c @ [(k, d)]\<rparr>, [AskConvert k d])"
proof -
  obtain p ps where list: "cx_session_list (wo_store (cv_world c)) = p # ps"
    using assms(2) by (cases "cx_session_list (wo_store (cv_world c))") auto
  then have primary: "primary_session (cv_world c) = Some (p, cv_world c)"
    by (simp add: primary_session_def)
  then have "\<exists>k. asset_session c = Some (Some k, c)"
    using assms(1) by (auto simp: asset_session_def Let_def split: option.splits)
  with primary assms(1) show ?thesis by (auto simp: convert_update_def Let_def)
qed

text \<open>
  C18.  The amount that is sent can be one that has been replaced.  Nothing tells the answer to one
  conversion from that to the next.  Let a user replace an amount by another before the first has
  been converted, and the answers come in the other order: then the converter is at rest with the
  second amount entered and the first as its result, and the transaction that is asked for pays the
  first.
\<close>

theorem overtaken_amount_paid:
  assumes c: "c = se_convert s" and "cv_context c" and "cx_session_list (wo_store (cv_world c)) \<noteq> []"
    and new: "i \<noteq> cv_input c" "j \<noteq> i" and n: "n = length (cv_asking c)"
    and r: "jvalue p ''satoshi'' = JInt v" "- (2 ^ 63) \<le> v" "v < 2 ^ 63"
  shows "let t = fst (run (sender_step nu) s
      [SetInput i, ConvertTimer, SetInput j, ConvertTimer, Converted (Suc n) q, Converted n p])
    in cv_input (se_convert t) = j \<and> \<not> cv_timer (se_convert t) \<and> cv_asking (se_convert t) = cv_asking c \<and>
       se_timer t \<and> (\<forall>x. jvalue (addressee x t) ''satoshi'' = JInt v)"
proof -
  let ?c1 = "c\<lparr>cv_input := i, cv_timer := False\<rparr>"
  obtain k1 d1 where d1: "convert_update nu ?c1 =
      (?c1\<lparr>cv_asking := cv_asking c @ [(k1, d1)]\<rparr>, [AskConvert k1 d1])"
    using convert_update_asks [of ?c1 nu] assms(2,3) by auto
  let ?c2 = "c\<lparr>cv_asking := cv_asking c @ [(k1, d1)], cv_input := j, cv_timer := False\<rparr>"
  obtain k2 d2 where d2: "convert_update nu ?c2 =
      (?c2\<lparr>cv_asking := cv_asking c @ [(k1, d1), (k2, d2)]\<rparr>, [AskConvert k2 d2])"
    using convert_update_asks [of ?c2 nu] assms(2,3) by auto
  define t where "t = fst (run (sender_step nu) s
      [SetInput i, ConvertTimer, SetInput j, ConvertTimer, Converted (Suc n) q, Converted n p])"
  have t: "se_convert t = c\<lparr>cv_input := j, cv_timer := False, cv_asking := cv_asking c,
      cv_result := qm_insert ''satoshi'' (JStr (string_of_int v)) p\<rparr>" "se_timer t"
    using new n r d1 d2 unfolding t_def c
    by (simp_all add: recipient_input_def set_input_def convert_invalidate_def with_convert_def
        convert_timer_fires_def convert_answered_def show_result_def sender_invalidate_def Let_def)
  have "convert_satoshi (se_convert t) = string_of_int v"
    by (simp add: t convert_satoshi_def jvalue_insert)
  then have "jvalue (addressee x t) ''satoshi'' = JInt v" for x
    using long_of_string [OF r(2,3)]
    by (simp add: addressee_def jvalue_jobj jvalue_insert Let_def split: option.splits)
  with t show ?thesis unfolding Let_def t_def [symmetric] by simp
qed

theorem overtaken_amount_paid_witness:
  "let t = fst (run (sender_step spend_numbers) fetching_sender
      [SetInput [(''sats'', VText ''5'')], ConvertTimer, SetInput [(''sats'', VText ''9'')], ConvertTimer,
       Converted 1 [(''satoshi'', JInt 9)], Converted 0 [(''satoshi'', JInt 5)]])
    in cv_input (se_convert t) = [(''sats'', VText ''9'')] \<and>
       (\<forall>x. jvalue (addressee x t) ''satoshi'' = JInt 5)"
proof -
  have "jvalue [(''satoshi'', JInt 5)] ''satoshi'' = JInt 5" by (simp add: jvalue_def qm_value_def)
  from overtaken_amount_paid [where i = "[(''sats'', VText ''5'')]" and j = "[(''sats'', VText ''9'')]"
      and n = 0 and q = "[(''satoshi'', JInt 9)]" and nu = spend_numbers,
      OF refl fetching_sender_facts(8,12) _ _ _ this]
  show ?thesis unfolding Let_def fetching_sender_facts(9,10) One_nat_def
    by (simp del: run_Cons_fst run_Cons_snd)
qed

text \<open>
  Changing the unit puts the amount as it is in that unit into the input; when there is no result yet
  that is an undefined value, which is taken for an amount, and the next conversion asks for zero.
\<close>

lemma unit_change_erases_amount:
  assumes "cv_result c = []" and "cv_unit c \<noteq> u" and "\<not> is_liquid_asset c"
  shows "cv_input (change_unit nu u c) = [(unit_key u, VNull)]"
    and "amount_details nu (change_unit nu u c) = [(''satoshi'', JInt 0)]"
proof -
  show input: "cv_input (change_unit nu u c) = [(unit_key u, VNull)]"
    using assms by (simp add: change_unit_def)
  have "is_liquid_asset (change_unit nu u c) = is_liquid_asset c"
    by (simp add: is_liquid_asset_def change_unit_def Let_def cong: option.case_cong)
  with assms(3) input show "amount_details nu (change_unit nu u c) = [(''satoshi'', JInt 0)]"
    by (simp add: amount_details_def prepare_input_def map_filter_simps jcontains_def split: option.splits)
qed

end
