(* ===== verification/Swaps.thy ===== *)
theory Swaps
  imports Json "HOL-Library.Product_Lexorder"
begin

text \<open>
  Swaps (\<open>src/swap.{h,cpp}\<close>, \<open>addSwap\<close> and \<open>removeSwap\<close> of \<open>src/context.cpp\<close>, the loading of
  \<open>src/lwkcreatesessiontask.cpp\<close>): a swap object follows a swap of the Boltz library until it has completed
  or failed.  The library's own object for a swap is a response: its identifier, the
  transactions it knows of, and whether reading them throws; the library changes them while it
  advances a swap, in another thread.
\<close>

section \<open>State\<close>

record response =
  rs_id :: string
  rs_lockup :: "string option"
  rs_claim :: "string option"
  rs_throws :: bool

text \<open>
  A submarine swap without a response pays an address directly.  Chain transactions are their identifiers;
  \<open>sp_chain\<close> has the swap each of them points to.
\<close>

datatype swap_kind =
    ReverseSwap nat
  | SubmarineSwap "nat option" string string int
  | ChainSwap nat

datatype swap_status = Pending | Completed | Failed

text \<open>\<open>sw_advancing\<close>: calls of the library under way; \<open>sw_timers\<close>: single shots of a second.\<close>

record swap =
  sw_id :: string
  sw_kind :: swap_kind
  sw_status :: swap_status
  sw_lockup :: "string option"
  sw_claim :: "string option"
  sw_advancing :: nat
  sw_timers :: nat

record swap_pool =
  sp_session :: bool
  sp_responses :: "response list"
  sp_swaps :: "swap list"
  sp_listed :: "nat list"
  sp_chain :: "(string, nat) qmap"

datatype swap_output =
    Advance nat
  | LockupTold nat string
  | SwapErased string
  | SwapThrows
  | SwapAssertion

type_synonym swap_result = "swap_pool \<times> swap_output list"

definition new_swap :: "string \<Rightarrow> swap_kind \<Rightarrow> swap" where
  "new_swap i k = \<lparr>sw_id = i, sw_kind = k, sw_status = Pending, sw_lockup = None, sw_claim = None,
     sw_advancing = 0, sw_timers = 0\<rparr>"

definition swap_at :: "nat \<Rightarrow> swap_pool \<Rightarrow> swap" where
  "swap_at i p = sp_swaps p ! i"

definition response_at :: "nat \<Rightarrow> swap_pool \<Rightarrow> response" where
  "response_at h p = sp_responses p ! h"

definition modify_swap :: "nat \<Rightarrow> (swap \<Rightarrow> swap) \<Rightarrow> swap_pool \<Rightarrow> swap_pool" where
  "modify_swap i f p = p\<lparr>sp_swaps := (sp_swaps p)[i := f (swap_at i p)]\<rparr>"

fun response_of :: "swap_kind \<Rightarrow> nat option" where
  "response_of (ReverseSwap h) = Some h"
| "response_of (SubmarineSwap h invoice address amount) = h"
| "response_of (ChainSwap h) = Some h"

fun invoice_of :: "swap_kind \<Rightarrow> string option" where
  "invoice_of (SubmarineSwap h invoice address amount) = Some invoice"
| "invoice_of _ = None"

section \<open>Transactions of a swap\<close>

text \<open>\<open>ChainTransaction::setSwap\<close>.\<close>

definition set_chain_swap :: "nat option \<Rightarrow> string option \<Rightarrow> swap_pool \<Rightarrow> swap_pool" where
  "set_chain_swap i t p =
     (case t of
        None \<Rightarrow> p
      | Some x \<Rightarrow> p\<lparr>sp_chain := (case i of None \<Rightarrow> qm_remove x (sp_chain p) | Some k \<Rightarrow> qm_insert x k (sp_chain p))\<rparr>)"

definition base_set_lockup :: "nat \<Rightarrow> string option \<Rightarrow> swap_pool \<Rightarrow> swap_pool" where
  "base_set_lockup i t p =
     (if sw_lockup (swap_at i p) = t then p
      else set_chain_swap (Some i) t
             (modify_swap i (\<lambda>w. w\<lparr>sw_lockup := t\<rparr>) (set_chain_swap None (sw_lockup (swap_at i p)) p)))"

definition set_claim_transaction :: "nat \<Rightarrow> string option \<Rightarrow> swap_pool \<Rightarrow> swap_pool" where
  "set_claim_transaction i t p =
     (if sw_claim (swap_at i p) = t then p
      else set_chain_swap (Some i) t
             (modify_swap i (\<lambda>w. w\<lparr>sw_claim := t\<rparr>) (set_chain_swap None (sw_claim (swap_at i p)) p)))"

text \<open>
  \<open>setLockupTransaction\<close> of a submarine and of a chain swap tells the library, if it does not know;
  a response that throws ends the call.
\<close>

definition set_lockup_transaction :: "nat \<Rightarrow> string option \<Rightarrow> swap_pool \<Rightarrow> swap_result" where
  "set_lockup_transaction i t p =
     (case (sw_kind (swap_at i p), response_of (sw_kind (swap_at i p))) of
        (ReverseSwap _, _) \<Rightarrow> (base_set_lockup i t p, [])
      | (_, None) \<Rightarrow> (base_set_lockup i t p, [])
      | (_, Some h) \<Rightarrow>
          if rs_throws (response_at h p) then (p, [SwapThrows])
          else if rs_lockup (response_at h p) = None \<and> t \<noteq> None then
            (base_set_lockup i t
               (p\<lparr>sp_responses := (sp_responses p)[h := (response_at h p)\<lparr>rs_lockup := t\<rparr>]\<rparr>),
             [LockupTold h (the t)])
          else (base_set_lockup i t p, []))"

section \<open>Following\<close>

text \<open>
  \<open>update\<close> of the three classes: transactions the library has come to know.  What throws is
  caught by the callers, with what was done before it.
\<close>

definition update_lockup :: "nat \<Rightarrow> nat \<Rightarrow> swap_pool \<Rightarrow> swap_result" where
  "update_lockup i h p =
     (if sw_lockup (swap_at i p) = None \<and> rs_lockup (response_at h p) \<noteq> None
      then set_lockup_transaction i (rs_lockup (response_at h p)) p else (p, []))"

definition update_claim :: "nat \<Rightarrow> nat \<Rightarrow> swap_pool \<Rightarrow> swap_pool" where
  "update_claim i h p =
     (if sw_claim (swap_at i p) = None \<and> rs_claim (response_at h p) \<noteq> None
      then set_claim_transaction i (rs_claim (response_at h p)) p else p)"

definition swap_update :: "nat \<Rightarrow> swap_pool \<Rightarrow> swap_pool" where
  "swap_update i p =
     (case response_of (sw_kind (swap_at i p)) of
        None \<Rightarrow> p
      | Some h \<Rightarrow>
          if rs_throws (response_at h p) then p
          else let p1 = fst (update_lockup i h p)
               in case sw_kind (swap_at i p) of
                    SubmarineSwap _ _ _ _ \<Rightarrow> p1
                  | _ \<Rightarrow> update_claim i h p1)"

definition sync :: "nat \<Rightarrow> swap_pool \<Rightarrow> swap_result" where
  "sync i p =
     (modify_swap i (\<lambda>w. w\<lparr>sw_advancing := sw_advancing w + 1\<rparr>) (swap_update i p), [Advance i])"

text \<open>What a call of the library comes to: a state of the payment, or an exception.\<close>

datatype advance_outcome =
    Continues | Succeeds | Fails
  | NoBoltzUpdate | ObjectConsumed | BackendHttpError | SwapExpired | GenericError | OtherException

fun status_of_outcome :: "advance_outcome \<Rightarrow> swap_status" where
  "status_of_outcome Succeeds = Completed"
| "status_of_outcome Fails = Failed"
| "status_of_outcome _ = Pending"

definition advanced_status :: "swap_kind \<Rightarrow> advance_outcome \<Rightarrow> swap_status" where
  "advanced_status k out = (if response_of k = None then Completed else status_of_outcome out)"

definition advance_ended :: "nat \<Rightarrow> advance_outcome \<Rightarrow> swap_pool \<Rightarrow> swap_pool" where
  "advance_ended i out p =
     (if i < length (sp_swaps p) \<and> sw_advancing (swap_at i p) > 0 then
        (let p1 = swap_update i (modify_swap i (\<lambda>w. w\<lparr>sw_advancing := sw_advancing w - 1\<rparr>) p);
             st = advanced_status (sw_kind (swap_at i p1)) out
         in modify_swap i (\<lambda>w. w\<lparr>sw_status := st,
              sw_timers := (if st = Pending then sw_timers w + 1 else sw_timers w)\<rparr>) p1)
      else p)"

definition swap_timer :: "nat \<Rightarrow> swap_pool \<Rightarrow> swap_result" where
  "swap_timer i p =
     (if i < length (sp_swaps p) \<and> sw_timers (swap_at i p) > 0
      then sync i (modify_swap i (\<lambda>w. w\<lparr>sw_timers := sw_timers w - 1\<rparr>) p) else (p, []))"

section \<open>The list of the context\<close>

definition add_swap :: "swap \<Rightarrow> swap_pool \<Rightarrow> nat \<times> swap_result" where
  "add_swap w p =
     (let i = length (sp_swaps p)
      in (i, sync i (p\<lparr>sp_swaps := sp_swaps p @ [w], sp_listed := sp_listed p @ [i]\<rparr>)))"

text \<open>
  \<open>removeSwap\<close> and the deletion of the object that follows it: its call and its timer end with it.
\<close>

definition remove_swap :: "nat \<Rightarrow> swap_pool \<Rightarrow> swap_result" where
  "remove_swap i p =
     (modify_swap i (\<lambda>w. w\<lparr>sw_advancing := 0, sw_timers := 0\<rparr>)
        (p\<lparr>sp_listed := remove1 i (sp_listed p)\<rparr>),
      (if sp_session p then [] else [SwapAssertion]) @ [SwapErased (sw_id (swap_at i p))])"

definition add_response :: "response \<Rightarrow> swap_pool \<Rightarrow> nat \<times> swap_pool" where
  "add_response r p = (length (sp_responses p), p\<lparr>sp_responses := sp_responses p @ [r]\<rparr>)"

text \<open>
  Swaps of earlier runs: \<open>load\<close> of the task that makes the session, for the identifiers of the
  pending and then of the completed swaps.  \<open>data\<close> is what the library's store has for an identifier,
  \<open>restore\<close> the response it makes of it.  Only a \<open>Generic\<close> error of making the response is
  caught (\<open>NotRestored\<close>); what else is thrown, and all that reading the entry throws, leaves the slot,
  so that nothing more is loaded, the session is not kept and the program ends.
\<close>

datatype stored = Stored jobject | NotStored | StoreThrows

datatype restored = Restored response | NotRestored | RestoreThrows

definition load_swap ::
    "(string \<Rightarrow> stored) \<Rightarrow> (jobject \<Rightarrow> restored) \<Rightarrow> string \<Rightarrow> swap_pool \<Rightarrow> swap_result" where
  "load_swap data restore i p =
     (case data i of
        NotStored \<Rightarrow> (p, [])
      | StoreThrows \<Rightarrow> (p, [SwapThrows])
      | Stored d \<Rightarrow>
          (let type = to_string (jvalue d ''swap_type''); last = to_string (jvalue d ''last_state'')
           in if last = ''swap.expired'' \<or> last = ''invoice.failedToPay'' then (p, [])
              else if type \<notin> {''submarine'', ''chain'', ''reverse''} then (p, [])
              else case restore d of
                     NotRestored \<Rightarrow> (p, [])
                   | RestoreThrows \<Rightarrow> (p, [SwapThrows])
                   | Restored r \<Rightarrow>
                       (let (h, p1) = add_response r p;
                            k = (if type = ''submarine''
                                 then SubmarineSwap (Some h) (to_string (jvalue d ''bolt11_invoice'')) [] 0
                                 else if type = ''chain'' then ChainSwap h else ReverseSwap h)
                        in snd (add_swap (new_swap (rs_id r) k) p1))))"

fun load_swaps ::
    "(string \<Rightarrow> stored) \<Rightarrow> (jobject \<Rightarrow> restored) \<Rightarrow> string list \<Rightarrow> swap_pool \<Rightarrow> swap_result" where
  "load_swaps data restore [] p = (p, [])"
| "load_swaps data restore (i # is) p =
     (let (p1, out1) = load_swap data restore i p
      in if SwapThrows \<in> set out1 then (p1, out1)
         else (let (p2, out2) = load_swaps data restore is p1 in (p2, out1 @ out2)))"

text \<open>The task's end; \<open>ids\<close>: the pending and the completed swaps, in this order.\<close>

definition session_created ::
    "(string \<Rightarrow> stored) \<Rightarrow> (jobject \<Rightarrow> restored) \<Rightarrow> string list \<Rightarrow> swap_pool \<Rightarrow> swap_result" where
  "session_created data restore ids p =
     (let (p1, out) = load_swaps data restore ids p
      in (if SwapThrows \<in> set out then p1 else p1\<lparr>sp_session := True\<rparr>, out))"

definition new_pool :: swap_pool where
  "new_pool = \<lparr>sp_session = False, sp_responses = [], sp_swaps = [], sp_listed = [], sp_chain = []\<rparr>"

end
