(* ===== verification/Swap_Controllers.thy ===== *)
theory Swap_Controllers
  imports Swaps Session
begin

text \<open>
  The controllers that make swaps (\<open>src/submarinecontroller.cpp\<close>, \<open>src/chainswapcontroller.cpp\<close>,
  \<open>src/invoicecontroller.cpp\<close>, \<open>src/swapquotecontroller.cpp\<close>): each asks the library some time after
  its inputs have changed, in another thread, and takes the answer whenever it comes.  A context
  is given to each of them.  A page opens and closes a controller; the pool outlives them.
\<close>

text \<open>\<open>QString::toULongLong\<close> with its \<open>ok\<close>.\<close>

definition ulong_of_text :: "string \<Rightarrow> int option" where
  "ulong_of_text s =
     (let t = trimmed s; ds = (if t \<noteq> [] \<and> hd t = CHR ''+'' then tl t else t)
      in if ds = [] then None
         else case digits_value 0 ds of None \<Rightarrow> None | Some n \<Rightarrow> if n < 2 ^ 64 then Some n else None)"

section \<open>Paying an invoice: submarine swaps\<close>

text \<open>\<open>su_asking\<close>: the threads that prepare a payment, with what they have read, once they have.\<close>

record submarine =
  su_timer :: bool
  su_payment :: string
  su_refund :: string
  su_busy :: bool
  su_error :: "string option"
  su_swap :: "nat option"
  su_asking :: "(string \<times> string) option list"

datatype prepare_result =
    Prepared response
  | MagicRoutingHint string int
  | PrepareFailed string

definition new_submarine :: submarine where
  "new_submarine = \<lparr>su_timer = False, su_payment = [], su_refund = [], su_busy = False, su_error = None,
     su_swap = None, su_asking = []\<rparr>"

definition submarine_invalidate :: "submarine \<Rightarrow> submarine" where
  "submarine_invalidate c = c\<lparr>su_timer := True, su_busy := True\<rparr>"

definition set_payment :: "string \<Rightarrow> submarine \<Rightarrow> submarine" where
  "set_payment t c = (if su_payment c = t then c else submarine_invalidate (c\<lparr>su_payment := t\<rparr>))"

definition set_refund :: "string \<Rightarrow> submarine \<Rightarrow> submarine" where
  "set_refund t c = (if su_refund c = t then c else submarine_invalidate (c\<lparr>su_refund := t\<rparr>))"

definition swap_for_invoice :: "string \<Rightarrow> swap_pool \<Rightarrow> nat option" where
  "swap_for_invoice t p = find (\<lambda>i. invoice_of (sw_kind (swap_at i p)) = Some t) (sp_listed p)"

definition submarine_update :: "swap_pool \<Rightarrow> submarine \<Rightarrow> submarine" where
  "submarine_update p c =
     (if \<not> sp_session p \<or> su_payment c = [] \<or> su_refund c = [] then c
      else case swap_for_invoice (su_payment c) p of
             Some i \<Rightarrow> c\<lparr>su_busy := False, su_swap := Some i, su_error := None\<rparr>
           | None \<Rightarrow> c\<lparr>su_asking := su_asking c @ [None]\<rparr>)"

definition submarine_timer :: "swap_pool \<Rightarrow> submarine \<Rightarrow> submarine" where
  "submarine_timer p c = (if su_timer c then submarine_update p (c\<lparr>su_timer := False\<rparr>) else c)"

text \<open>The thread reads the payment and the refund address of the controller when it runs.\<close>

definition prepare_reads :: "nat \<Rightarrow> submarine \<Rightarrow> submarine" where
  "prepare_reads i c =
     (if i < length (su_asking c) \<and> su_asking c ! i = None
      then c\<lparr>su_asking := (su_asking c)[i := Some (su_payment c, su_refund c)]\<rparr> else c)"

definition prepare_error :: "string \<Rightarrow> string" where
  "prepare_error t =
     (if contains_text ''a swap with this invoice exists already'' t then ''id_there_is_already_a_swap_in''
      else if contains_text ''could not find route to pay invoice'' t then ''Could not find route to pay invoice''
      else t)"

definition prepare_ended ::
    "nat \<Rightarrow> prepare_result \<Rightarrow> string \<Rightarrow> swap_pool \<Rightarrow> submarine \<Rightarrow> (swap_pool \<times> submarine) \<times> swap_output list" where
  "prepare_ended i r uuid p c =
     (if \<not> (i < length (su_asking c) \<and> su_asking c ! i \<noteq> None) then ((p, c), [])
      else let c1 = c\<lparr>su_asking := take i (su_asking c) @ drop (Suc i) (su_asking c), su_busy := False\<rparr>
           in case r of
                Prepared q \<Rightarrow>
                  (let (h, p1) = add_response q p;
                       (k, p2, out) = add_swap (new_swap (rs_id q) (SubmarineSwap (Some h) (su_payment c) [] 0)) p1
                   in ((p2, c1\<lparr>su_swap := Some k, su_error := None\<rparr>), out))
              | MagicRoutingHint address amount \<Rightarrow>
                  (let (k, p1, out) = add_swap (new_swap uuid (SubmarineSwap None [] address amount)) p
                   in ((p1, c1\<lparr>su_swap := Some k, su_error := None\<rparr>), out))
              | PrepareFailed t \<Rightarrow> ((p, c1\<lparr>su_swap := None, su_error := Some (prepare_error t)\<rparr>), []))"

section \<open>Between the chains\<close>

text \<open>
  An address of an account: its text, and whether its network is Liquid.  \<open>ch_asking\<close>: the amount of
  each request, taken when it started.
\<close>

record chain_controller =
  ch_timer :: bool
  ch_amount :: string
  ch_refund :: "(string \<times> bool) option"
  ch_claim :: "(string \<times> bool) option"
  ch_busy :: bool
  ch_swap :: "nat option"
  ch_asking :: "int list"

definition chain_invalidate :: "chain_controller \<Rightarrow> chain_controller" where
  "chain_invalidate c = c\<lparr>ch_timer := True, ch_busy := True\<rparr>"

definition new_chain_controller :: chain_controller where
  "new_chain_controller = chain_invalidate \<lparr>ch_timer = False, ch_amount = [], ch_refund = None,
     ch_claim = None, ch_busy = False, ch_swap = None, ch_asking = []\<rparr>"

definition chain_set_amount :: "string \<Rightarrow> chain_controller \<Rightarrow> chain_controller" where
  "chain_set_amount t c = (if ch_amount c = t then c else chain_invalidate (c\<lparr>ch_amount := t\<rparr>))"

definition chain_set_refund :: "(string \<times> bool) option \<Rightarrow> chain_controller \<Rightarrow> chain_controller" where
  "chain_set_refund x c = (if ch_refund c = x then c else chain_invalidate (c\<lparr>ch_refund := x\<rparr>))"

definition chain_set_claim :: "(string \<times> bool) option \<Rightarrow> chain_controller \<Rightarrow> chain_controller" where
  "chain_set_claim x c = (if ch_claim c = x then c else chain_invalidate (c\<lparr>ch_claim := x\<rparr>))"

definition chain_amount :: "chain_controller \<Rightarrow> int option" where
  "chain_amount c =
     (if ch_claim c = None \<or> ch_refund c = None then None
      else case ulong_of_text (ch_amount c) of Some n \<Rightarrow> if n = 0 then None else Some n | None \<Rightarrow> None)"

definition chain_update :: "swap_pool \<Rightarrow> chain_controller \<Rightarrow> chain_controller" where
  "chain_update p c =
     (if \<not> sp_session p then c
      else case chain_amount c of
             None \<Rightarrow> c\<lparr>ch_busy := False, ch_swap := None\<rparr>
           | Some n \<Rightarrow> c\<lparr>ch_asking := ch_asking c @ [n]\<rparr>)"

definition chain_timer :: "swap_pool \<Rightarrow> chain_controller \<Rightarrow> chain_controller" where
  "chain_timer p c = (if ch_timer c then chain_update p (c\<lparr>ch_timer := False\<rparr>) else c)"

text \<open>What the library is asked for an amount, a refund and a claim address.\<close>

datatype lockup_call =
    BtcToLbtc int string string
  | LbtcToBtc int string string

definition lockup_request :: "int \<Rightarrow> string \<times> bool \<Rightarrow> string \<times> bool \<Rightarrow> lockup_call option" where
  "lockup_request n refund claim =
     (if snd claim \<and> \<not> snd refund then Some (BtcToLbtc n (fst refund) (fst claim))
      else if \<not> snd claim \<and> snd refund then Some (LbtcToBtc n (fst refund) (fst claim))
      else None)"

text \<open>
  The end of a request: \<open>None\<close> when it threw, after which it is repeated; an inner \<open>None\<close> when
  both accounts are of the same chain.
\<close>

definition chain_ended :: "nat \<Rightarrow> response option option \<Rightarrow> swap_pool \<Rightarrow> chain_controller \<Rightarrow>
    (swap_pool \<times> chain_controller) \<times> swap_output list" where
  "chain_ended i r p c =
     (if \<not> i < length (ch_asking c) then ((p, c), [])
      else let c1 = c\<lparr>ch_asking := take i (ch_asking c) @ drop (Suc i) (ch_asking c)\<rparr>
           in case r of
                None \<Rightarrow> ((p, c1\<lparr>ch_timer := True\<rparr>), [])
              | Some None \<Rightarrow> ((p, c1\<lparr>ch_busy := False\<rparr>), [])
              | Some (Some q) \<Rightarrow>
                  (let (h, p1) = add_response q p;
                       (k, p2, out) = add_swap (new_swap (rs_id q) (ChainSwap h)) p1
                   in ((p2, c1\<lparr>ch_busy := False, ch_swap := Some k\<rparr>), out)))"

text \<open>The destructor.\<close>

definition chain_close :: "swap_pool \<Rightarrow> chain_controller \<Rightarrow> swap_result" where
  "chain_close p c =
     (case ch_swap c of
        None \<Rightarrow> (p, [])
      | Some i \<Rightarrow> if sw_lockup (swap_at i p) = None then remove_swap i p else (p, []))"

section \<open>Being paid: invoices\<close>

record invoice_controller =
  in_address :: string
  in_satoshi :: string
  in_description :: string
  in_timer :: bool
  in_busy :: bool
  in_swap :: "nat option"
  in_asking :: "(int \<times> string option \<times> string) list"

definition new_invoice_controller :: invoice_controller where
  "new_invoice_controller = \<lparr>in_address = [], in_satoshi = [], in_description = [], in_timer = False,
     in_busy = False, in_swap = None, in_asking = []\<rparr>"

definition invoice_set_address :: "string \<Rightarrow> invoice_controller \<Rightarrow> invoice_controller" where
  "invoice_set_address t c = (if in_address c = t then c else c\<lparr>in_address := t, in_timer := True\<rparr>)"

definition invoice_set_satoshi :: "string \<Rightarrow> swap_pool \<Rightarrow> invoice_controller \<Rightarrow>
    (swap_pool \<times> invoice_controller) \<times> swap_output list" where
  "invoice_set_satoshi t p c =
     (if in_satoshi c = t then ((p, c), [])
      else let c1 = c\<lparr>in_satoshi := t\<rparr>
           in case in_swap c1 of
                None \<Rightarrow> ((p, c1), [])
              | Some i \<Rightarrow> (let (p1, out) = remove_swap i p in ((p1, c1\<lparr>in_swap := None\<rparr>), out)))"

definition invoice_set_description :: "string \<Rightarrow> invoice_controller \<Rightarrow> invoice_controller" where
  "invoice_set_description t c = c\<lparr>in_description := t\<rparr>"

definition invoice_request :: "invoice_controller \<Rightarrow> invoice_controller" where
  "invoice_request c = (if in_busy c then c else c\<lparr>in_busy := True, in_timer := True\<rparr>)"

definition invoice_amount :: "swap_pool \<Rightarrow> invoice_controller \<Rightarrow> int option" where
  "invoice_amount p c =
     (if \<not> sp_session p \<or> in_address c = [] then None
      else case ulong_of_text (in_satoshi c) of Some n \<Rightarrow> if n = 0 then None else Some n | None \<Rightarrow> None)"

text \<open>\<open>readable\<close>: the texts the library reads as an address; for another it throws.\<close>

definition invoice_update ::
    "(string \<Rightarrow> bool) \<Rightarrow> swap_pool \<Rightarrow> invoice_controller \<Rightarrow> invoice_controller" where
  "invoice_update readable p c =
     (case invoice_amount p c of
        Some n \<Rightarrow>
          if readable (in_address c) then
            c\<lparr>in_asking := in_asking c @
               [(n, if in_description c = [] then None else Some (in_description c), in_address c)]\<rparr>
          else c\<lparr>in_swap := None, in_busy := False\<rparr>
      | None \<Rightarrow> c\<lparr>in_swap := None, in_busy := False\<rparr>)"

definition invoice_timer ::
    "(string \<Rightarrow> bool) \<Rightarrow> swap_pool \<Rightarrow> invoice_controller \<Rightarrow> invoice_controller" where
  "invoice_timer readable p c =
     (if in_timer c then invoice_update readable p (c\<lparr>in_timer := False\<rparr>) else c)"

definition invoice_ended :: "nat \<Rightarrow> response option \<Rightarrow> swap_pool \<Rightarrow> invoice_controller \<Rightarrow>
    (swap_pool \<times> invoice_controller) \<times> swap_output list" where
  "invoice_ended i r p c =
     (if \<not> i < length (in_asking c) then ((p, c), [])
      else let c1 = c\<lparr>in_asking := take i (in_asking c) @ drop (Suc i) (in_asking c)\<rparr>
           in case r of
                None \<Rightarrow> ((p, c1\<lparr>in_timer := True\<rparr>), [])
              | Some q \<Rightarrow>
                  (let (h, p1) = add_response q p;
                       (k, p2, out) = add_swap (new_swap (rs_id q) (ReverseSwap h)) p1
                   in ((p2, c1\<lparr>in_swap := Some k, in_busy := False\<rparr>), out)))"

section \<open>The system\<close>

record swap_system =
  sy_pool :: swap_pool
  sy_submarine :: submarine
  sy_chain :: chain_controller
  sy_invoice :: invoice_controller

definition new_swap_system :: swap_system where
  "new_swap_system = \<lparr>sy_pool = new_pool, sy_submarine = new_submarine, sy_chain = new_chain_controller,
     sy_invoice = new_invoice_controller\<rparr>"

text \<open>
  \<open>ResponseChanges\<close>: the library learns of transactions.  \<open>SwapLocked\<close> is the end of a page that has
  sent the transaction of the controller's swap.  The paths of the controllers' own events: what the page
  sets, their timers, their threads, and pages that open and close.
\<close>

datatype swap_event =
    SessionCreated "string \<Rightarrow> stored" "jobject \<Rightarrow> restored" "string list"
  | ResponseChanges nat response
  | AdvanceEnded nat advance_outcome
  | SwapTimer nat
  | SubmarineOpens | SetPayment string | SetRefund string | SubmarineTimer
  | PrepareReads nat | PrepareEnded nat prepare_result string | SubmarineLocked string
  | ChainOpens | SetChainAmount string | SetChainRefund "(string \<times> bool) option"
  | SetChainClaim "(string \<times> bool) option" | ChainTimer | ChainEnded nat "response option option"
  | ChainLocked string | ChainCloses
  | InvoiceOpens | SetInvoiceAddress string | SetInvoiceSatoshi string | SetInvoiceDescription string
  | InvoiceRequest | InvoiceTimer | InvoiceEnded nat "response option"

definition pool_does :: "swap_result \<Rightarrow> swap_system \<Rightarrow> swap_system \<times> swap_output list" where
  "pool_does r y = (y\<lparr>sy_pool := fst r\<rparr>, snd r)"

definition lock_swap :: "nat option \<Rightarrow> string \<Rightarrow> swap_pool \<Rightarrow> swap_result" where
  "lock_swap i t p = (case i of None \<Rightarrow> (p, []) | Some k \<Rightarrow> set_lockup_transaction k (Some t) p)"

fun swap_step :: "(string \<Rightarrow> bool) \<Rightarrow> swap_system \<Rightarrow> swap_event \<Rightarrow> swap_system \<times> swap_output list" where
  "swap_step ok y (SessionCreated data restore ids) =
     (if sp_session (sy_pool y) then (y, []) else pool_does (session_created data restore ids (sy_pool y)) y)"
| "swap_step ok y (ResponseChanges h q) =
     (y\<lparr>sy_pool := (sy_pool y)\<lparr>sp_responses := (sp_responses (sy_pool y))[h := q]\<rparr>\<rparr>, [])"
| "swap_step ok y (AdvanceEnded i out) = (y\<lparr>sy_pool := advance_ended i out (sy_pool y)\<rparr>, [])"
| "swap_step ok y (SwapTimer i) = pool_does (swap_timer i (sy_pool y)) y"
| "swap_step ok y SubmarineOpens = (y\<lparr>sy_submarine := new_submarine\<rparr>, [])"
| "swap_step ok y (SetPayment t) = (y\<lparr>sy_submarine := set_payment t (sy_submarine y)\<rparr>, [])"
| "swap_step ok y (SetRefund t) = (y\<lparr>sy_submarine := set_refund t (sy_submarine y)\<rparr>, [])"
| "swap_step ok y SubmarineTimer =
     (y\<lparr>sy_submarine := submarine_timer (sy_pool y) (sy_submarine y)\<rparr>, [])"
| "swap_step ok y (PrepareReads i) = (y\<lparr>sy_submarine := prepare_reads i (sy_submarine y)\<rparr>, [])"
| "swap_step ok y (PrepareEnded i r uuid) =
     (let ((p, c), out) = prepare_ended i r uuid (sy_pool y) (sy_submarine y)
      in (y\<lparr>sy_pool := p, sy_submarine := c\<rparr>, out))"
| "swap_step ok y (SubmarineLocked t) = pool_does (lock_swap (su_swap (sy_submarine y)) t (sy_pool y)) y"
| "swap_step ok y ChainOpens = (y\<lparr>sy_chain := new_chain_controller\<rparr>, [])"
| "swap_step ok y (SetChainAmount t) = (y\<lparr>sy_chain := chain_set_amount t (sy_chain y)\<rparr>, [])"
| "swap_step ok y (SetChainRefund x) = (y\<lparr>sy_chain := chain_set_refund x (sy_chain y)\<rparr>, [])"
| "swap_step ok y (SetChainClaim x) = (y\<lparr>sy_chain := chain_set_claim x (sy_chain y)\<rparr>, [])"
| "swap_step ok y ChainTimer = (y\<lparr>sy_chain := chain_timer (sy_pool y) (sy_chain y)\<rparr>, [])"
| "swap_step ok y (ChainEnded i r) =
     (let ((p, c), out) = chain_ended i r (sy_pool y) (sy_chain y)
      in (y\<lparr>sy_pool := p, sy_chain := c\<rparr>, out))"
| "swap_step ok y (ChainLocked t) = pool_does (lock_swap (ch_swap (sy_chain y)) t (sy_pool y)) y"
| "swap_step ok y ChainCloses =
     pool_does (chain_close (sy_pool y) (sy_chain y)) (y\<lparr>sy_chain := new_chain_controller\<rparr>)"
| "swap_step ok y InvoiceOpens = (y\<lparr>sy_invoice := new_invoice_controller\<rparr>, [])"
| "swap_step ok y (SetInvoiceAddress t) = (y\<lparr>sy_invoice := invoice_set_address t (sy_invoice y)\<rparr>, [])"
| "swap_step ok y (SetInvoiceSatoshi t) =
     (let ((p, c), out) = invoice_set_satoshi t (sy_pool y) (sy_invoice y)
      in (y\<lparr>sy_pool := p, sy_invoice := c\<rparr>, out))"
| "swap_step ok y (SetInvoiceDescription t) =
     (y\<lparr>sy_invoice := invoice_set_description t (sy_invoice y)\<rparr>, [])"
| "swap_step ok y InvoiceRequest = (y\<lparr>sy_invoice := invoice_request (sy_invoice y)\<rparr>, [])"
| "swap_step ok y InvoiceTimer = (y\<lparr>sy_invoice := invoice_timer ok (sy_pool y) (sy_invoice y)\<rparr>, [])"
| "swap_step ok y (InvoiceEnded i r) =
     (let ((p, c), out) = invoice_ended i r (sy_pool y) (sy_invoice y)
      in (y\<lparr>sy_pool := p, sy_invoice := c\<rparr>, out))"

section \<open>Quotes\<close>

datatype swap_asset = Onchain | Liquid | Lightning

text \<open>\<open>qt_asking\<close>: the amounts of the quotes under way, with whether they are what is sent.\<close>

record quote_controller =
  qt_send :: swap_asset
  qt_receive :: swap_asset
  qt_sends :: bool
  qt_amount :: string
  qt_quote :: jobject
  qt_asking :: "int list"

definition new_quote_controller :: quote_controller where
  "new_quote_controller = \<lparr>qt_send = Onchain, qt_receive = Liquid, qt_sends = True, qt_amount = [],
     qt_quote = [], qt_asking = []\<rparr>"

definition quote_is_lightning :: "quote_controller \<Rightarrow> bool" where
  "quote_is_lightning c \<longleftrightarrow> qt_send c = Lightning \<or> qt_receive c = Lightning"

definition quote_update :: "bool \<Rightarrow> quote_controller \<Rightarrow> quote_controller" where
  "quote_update session c =
     (if \<not> session then c
      else case ulong_of_text (qt_amount c) of
             None \<Rightarrow> c\<lparr>qt_quote := []\<rparr>
           | Some n \<Rightarrow> c\<lparr>qt_asking := qt_asking c @ [n]\<rparr>)"

text \<open>The argument of \<open>setLightning\<close> is not read.\<close>

definition set_lightning :: "bool \<Rightarrow> bool \<Rightarrow> quote_controller \<Rightarrow> quote_controller" where
  "set_lightning session lightning c =
     quote_update session
       (if qt_send c = Onchain then c\<lparr>qt_send := Lightning\<rparr>
        else if qt_receive c = Onchain then c\<lparr>qt_receive := Lightning\<rparr> else c)"

definition quote_receive :: "bool \<Rightarrow> string \<Rightarrow> quote_controller \<Rightarrow> quote_controller" where
  "quote_receive session t c =
     (if qt_amount c = t then c else quote_update session (c\<lparr>qt_sends := False, qt_amount := t\<rparr>))"

definition quote_send :: "bool \<Rightarrow> string \<Rightarrow> quote_controller \<Rightarrow> quote_controller" where
  "quote_send session t c =
     (if qt_amount c = t then c else quote_update session (c\<lparr>qt_sends := True, qt_amount := t\<rparr>))"

definition swap_networks :: "bool \<Rightarrow> quote_controller \<Rightarrow> quote_controller" where
  "swap_networks session c = quote_update session (c\<lparr>qt_send := qt_receive c, qt_receive := qt_send c\<rparr>)"

definition quote_ended :: "nat \<Rightarrow> jobject \<Rightarrow> quote_controller \<Rightarrow> quote_controller" where
  "quote_ended i q c =
     (if i < length (qt_asking c)
      then c\<lparr>qt_asking := take i (qt_asking c) @ drop (Suc i) (qt_asking c), qt_quote := q\<rparr> else c)"

lemma lightning_argument_ignored: "set_lightning session b c = set_lightning session b' c"
  by (simp add: set_lightning_def)

end
