(* ===== verification/Swap_Props.thy ===== *)
theory Swap_Props
  imports Swap_Controllers
begin

text \<open>
  What the swaps guarantee: a swap that is listed is followed until it has completed or failed, by
  one call of the library or one timer at a time.  And what they do not: a swap that has been paid
  can be erased.
\<close>

section \<open>The flow of a swap\<close>

text \<open>Of a pool, what following depends on: who is listed, and each swap's status, calls and timers.\<close>

definition flow :: "swap \<Rightarrow> swap_status \<times> nat \<times> nat" where
  "flow w = (sw_status w, sw_advancing w, sw_timers w)"

definition flows :: "swap_pool \<Rightarrow> nat list \<times> (swap_status \<times> nat \<times> nat) list" where
  "flows p = (sp_listed p, map flow (sp_swaps p))"

lemma flows_modify_quiet: "(\<And>w. flow (f w) = flow w) \<Longrightarrow> flows (modify_swap i f p) = flows p"
  by (cases "i < length (sp_swaps p)")
    (simp_all add: flows_def modify_swap_def swap_at_def map_update list_update_beyond
      list_update_same_conv)

lemma flows_chain [simp]: "flows (set_chain_swap j t p) = flows p"
  by (simp add: flows_def set_chain_swap_def split: option.splits)

lemma flows_responses [simp]: "flows (p\<lparr>sp_responses := rs\<rparr>) = flows p"
  by (simp add: flows_def)

lemma flows_base_lockup [simp]: "flows (base_set_lockup i t p) = flows p"
  by (simp add: base_set_lockup_def flows_modify_quiet flow_def)

lemma flows_claim [simp]: "flows (set_claim_transaction i t p) = flows p"
  by (simp add: set_claim_transaction_def flows_modify_quiet flow_def)

lemma flows_lockup [simp]: "flows (fst (set_lockup_transaction i t p)) = flows p"
  by (simp add: set_lockup_transaction_def split: swap_kind.splits option.splits)

lemma flows_update [simp]: "flows (swap_update i p) = flows p"
  by (auto simp: swap_update_def update_lockup_def update_claim_def Let_def
      split: option.splits swap_kind.splits)

lemma lockup_outputs: "Advance k \<notin> set (snd (set_lockup_transaction i t p))"
  by (simp add: set_lockup_transaction_def split: swap_kind.splits option.splits)

lemma flows_modify:
  assumes "i < length (snd (flows p))" and "snd (flows p) ! i = x" and "\<And>w. flow w = x \<Longrightarrow> flow (f w) = y"
  shows "flows (modify_swap i f p) = (fst (flows p), (snd (flows p))[i := y])"
proof -
  have "flow (swap_at i p) = x" using assms(1,2) by (simp add: flows_def swap_at_def)
  with assms(1,3) show ?thesis by (simp add: flows_def modify_swap_def map_update)
qed

lemma flows_length: "length (sp_swaps p) = length (snd (flows p))"
  by (simp add: flows_def)

lemma flows_at: "i < length (sp_swaps p) \<Longrightarrow> flow (swap_at i p) = snd (flows p) ! i"
  by (simp add: flows_def swap_at_def)

lemma flows_listed: "fst (flows p) = sp_listed p"
  by (simp add: flows_def)

lemma flows_sync:
  assumes "i < length (snd (flows p))" and "snd (flows p) ! i = (st, a, t)"
  shows "flows (fst (sync i p)) = (fst (flows p), (snd (flows p))[i := (st, a + 1, t)])"
  using flows_modify [of i "swap_update i p" "(st, a, t)" "\<lambda>w. w\<lparr>sw_advancing := sw_advancing w + 1\<rparr>"] assms
  by (simp add: sync_def flow_def)

lemma flows_add:
  assumes "flow w = (st, a, t)"
  shows "flows (fst (snd (add_swap w p))) =
    (fst (flows p) @ [length (snd (flows p))], snd (flows p) @ [(st, a + 1, t)])"
  using flows_sync [of "length (sp_swaps p)"
      "p\<lparr>sp_swaps := sp_swaps p @ [w], sp_listed := sp_listed p @ [length (sp_swaps p)]\<rparr>" st a t] assms
  by (simp add: add_swap_def Let_def flows_def nth_append list_update_append)

lemma flows_timer:
  assumes "i < length (snd (flows p))" and "snd (flows p) ! i = (st, a, t)"
  shows "flows (fst (swap_timer i p)) = (if t > 0 then (fst (flows p), (snd (flows p))[i := (st, a + 1, t - 1)])
    else flows p)"
proof -
  have "sw_timers (swap_at i p) = t" and "i < length (sp_swaps p)"
    using assms by (auto simp: flows_def swap_at_def flow_def)
  moreover have "flows (modify_swap i (\<lambda>w. w\<lparr>sw_timers := sw_timers w - 1\<rparr>) p) =
      (fst (flows p), (snd (flows p))[i := (st, a, t - 1)])"
    using assms by (intro flows_modify) (auto simp: flow_def)
  ultimately show ?thesis
    using assms(1) flows_sync [of i "modify_swap i (\<lambda>w. w\<lparr>sw_timers := sw_timers w - 1\<rparr>) p" st a "t - 1"]
    by (simp add: swap_timer_def)
qed

lemma flows_ended:
  assumes "i < length (snd (flows p))" and "snd (flows p) ! i = (st, a, t)"
  shows "\<exists>st'. flows (advance_ended i out p) = (if a > 0
    then (fst (flows p), (snd (flows p))[i := (st', a - 1, if st' = Pending then t + 1 else t)]) else flows p)"
proof -
  have at: "sw_advancing (swap_at i p) = a" "i < length (sp_swaps p)"
    using assms by (auto simp: flows_def swap_at_def flow_def)
  define q where "q = swap_update i (modify_swap i (\<lambda>w. w\<lparr>sw_advancing := sw_advancing w - 1\<rparr>) p)"
  define st' where "st' = advanced_status (sw_kind (swap_at i q)) out"
  have q: "flows q = (fst (flows p), (snd (flows p))[i := (st, a - 1, t)])"
    unfolding q_def flows_update using assms by (intro flows_modify) (auto simp: flow_def)
  have "flows (modify_swap i (\<lambda>w. w\<lparr>sw_status := st',
      sw_timers := (if st' = Pending then sw_timers w + 1 else sw_timers w)\<rparr>) q) =
    (fst (flows q), (snd (flows q))[i := (st', a - 1, if st' = Pending then t + 1 else t)])"
    using assms(1) by (intro flows_modify [where x = "(st, a - 1, t)"]) (auto simp: flow_def q)
  moreover have "advance_ended i out p = (if a > 0 then modify_swap i (\<lambda>w. w\<lparr>sw_status := st',
      sw_timers := (if st' = Pending then sw_timers w + 1 else sw_timers w)\<rparr>) q else p)"
    using at by (simp add: advance_ended_def q_def st'_def Let_def)
  ultimately show ?thesis using q by (intro exI [of _ st']) simp
qed

lemma flows_remove:
  assumes "i < length (snd (flows p))" and "snd (flows p) ! i = (st, a, t)"
  shows "flows (fst (remove_swap i p)) = (remove1 i (fst (flows p)), (snd (flows p))[i := (st, 0, 0)])"
  using flows_modify [of i "p\<lparr>sp_listed := remove1 i (sp_listed p)\<rparr>" "(st, a, t)"
      "\<lambda>w. w\<lparr>sw_advancing := 0, sw_timers := 0\<rparr>" "(st, 0, 0)"] assms
  by (auto simp: remove_swap_def flow_def flows_def)

lemma flows_remove_none:
  "\<not> i < length (snd (flows p)) \<Longrightarrow> flows (fst (remove_swap i p)) = (remove1 i (fst (flows p)), snd (flows p))"
  by (simp add: remove_swap_def modify_swap_def flows_def list_update_beyond)

text \<open>A listed swap that is pending has one call or one timer, every other swap has none.\<close>

fun flow_ok :: "bool \<Rightarrow> swap_status \<times> nat \<times> nat \<Rightarrow> bool" where
  "flow_ok listed (st, a, t) \<longleftrightarrow> a + t = (if listed \<and> st = Pending then 1 else 0)"

definition flows_ok :: "nat list \<times> (swap_status \<times> nat \<times> nat) list \<Rightarrow> bool" where
  "flows_ok f \<longleftrightarrow> distinct (fst f) \<and> set (fst f) \<subseteq> {..<length (snd f)} \<and>
     (\<forall>i < length (snd f). flow_ok (i \<in> set (fst f)) (snd f ! i))"

definition followed :: "swap_pool \<Rightarrow> bool" where
  "followed p \<longleftrightarrow> flows_ok (flows p)"

lemma followed_same: "flows q = flows p \<Longrightarrow> followed p \<Longrightarrow> followed q"
  by (simp add: followed_def)

lemma flows_ok_update:
  assumes "flows_ok f" and "flow_ok (i \<in> set (fst f)) x"
  shows "flows_ok (fst f, (snd f)[i := x])"
  using assms by (cases "i < length (snd f)") (auto simp: flows_ok_def nth_list_update list_update_beyond)

lemma flows_ok_at:
  "flows_ok f \<Longrightarrow> i < length (snd f) \<Longrightarrow> flow_ok (i \<in> set (fst f)) (snd f ! i)"
  by (simp add: flows_ok_def)

lemma followed_add:
  assumes "followed p" and "flow w = (Pending, 0, 0)"
  shows "followed (fst (snd (add_swap w p)))"
  using assms by (auto simp: followed_def flows_add [OF assms(2)] flows_ok_def nth_append less_Suc_eq)

lemma followed_timer: "followed p \<Longrightarrow> followed (fst (swap_timer i p))"
proof (cases "i < length (snd (flows p))")
  case True
  assume p: "followed p"
  obtain st a t where at: "snd (flows p) ! i = (st, a, t)" by (metis prod_cases3)
  have "flow_ok (i \<in> set (fst (flows p))) (st, a, t)"
    using flows_ok_at [of "flows p" i] p True at by (simp add: followed_def)
  then show ?thesis using p flows_timer [OF True at]
    by (auto simp: followed_def split: if_splits intro!: flows_ok_update)
qed (simp add: swap_timer_def flows_def)

lemma followed_ended: "followed p \<Longrightarrow> followed (advance_ended i out p)"
proof (cases "i < length (snd (flows p))")
  case True
  assume p: "followed p"
  obtain st a t where at: "snd (flows p) ! i = (st, a, t)" by (metis prod_cases3)
  have "flow_ok (i \<in> set (fst (flows p))) (st, a, t)"
    using flows_ok_at [of "flows p" i] p True at by (simp add: followed_def)
  then show ?thesis using p flows_ended [OF True at, of out]
    by (auto simp: followed_def split: if_splits intro!: flows_ok_update)
qed (simp add: advance_ended_def flows_def)

lemma followed_remove: "followed p \<Longrightarrow> followed (fst (remove_swap i p))"
proof (cases "i < length (snd (flows p))")
  case True
  assume p: "followed p"
  obtain st a t where at: "snd (flows p) ! i = (st, a, t)" by (metis prod_cases3)
  show ?thesis using p True flows_remove [OF True at]
    by (auto simp: followed_def flows_ok_def nth_list_update dest: set_remove1_subset [THEN subsetD])
next
  case False
  assume p: "followed p"
  with False have "remove1 i (fst (flows p)) = fst (flows p)"
    by (intro remove1_idem) (auto simp: followed_def flows_ok_def)
  then show ?thesis using p flows_remove_none [OF False] by (simp add: followed_def)
qed

section \<open>What moves a pool\<close>

text \<open>Every event moves the pool by these steps: nothing that matters, a new swap, a timer, the end of a call, a removal.\<close>

inductive pool_moves :: "swap_pool \<Rightarrow> swap_output list \<Rightarrow> swap_pool \<Rightarrow> bool" where
  quiet: "flows q = flows p \<Longrightarrow> (\<And>k. Advance k \<notin> set out) \<Longrightarrow> pool_moves p out q"
| added: "flow w = (Pending, 0, 0) \<Longrightarrow> snd (add_swap w p) = (q, out) \<Longrightarrow> pool_moves p out q"
| timer: "swap_timer i p = (q, out) \<Longrightarrow> pool_moves p out q"
| ended: "pool_moves p [] (advance_ended i r p)"
| removed: "remove_swap i p = (q, out) \<Longrightarrow> pool_moves p out q"
| further: "pool_moves p out1 q \<Longrightarrow> pool_moves q out2 r \<Longrightarrow> pool_moves p (out1 @ out2) r"

lemma moves_refl: "pool_moves p [] p"
  by (rule pool_moves.quiet) simp_all

lemma moves_quiet: "flows q = flows p \<Longrightarrow> pool_moves p [] q"
  by (rule pool_moves.quiet) simp_all

lemma moves_swap: "snd (add_swap (new_swap i k) p) = (q, out) \<Longrightarrow> pool_moves p out q"
  by (rule pool_moves.added [of "new_swap i k"]) (simp_all add: flow_def new_swap_def)

lemma moves_response:
  assumes "add_response r p = (h, p1)" and "snd (add_swap (new_swap i k) p1) = (q, out)"
  shows "pool_moves p out q"
proof -
  have "pool_moves p [] p1" using assms(1) by (intro moves_quiet) (auto simp: add_response_def)
  from pool_moves.further [OF this moves_swap [OF assms(2)]] show ?thesis by simp
qed

lemma moves_made:
  "add_swap (new_swap i k) p = (j, q, out) \<Longrightarrow> pool_moves p out q"
  "add_response r p = (h, p1) \<Longrightarrow> add_swap (new_swap i k) p1 = (j, q, out) \<Longrightarrow> pool_moves p out q"
  using moves_swap moves_response by (metis snd_conv)+

lemma moves_throws: "pool_moves p [SwapThrows] p"
  by (rule pool_moves.quiet) simp_all

lemma moves_load: "load_swap data restore i p = (q, out) \<Longrightarrow> pool_moves p out q"
  by (auto simp: load_swap_def Let_def moves_refl moves_throws intro: moves_response
      split: option.splits if_splits prod.splits stored.splits restored.splits)

lemma moves_loads: "load_swaps data restore is p = (q, out) \<Longrightarrow> pool_moves p out q"
proof (induction "is" arbitrary: p q out)
  case (Cons i is')
  obtain p1 out1 where one: "load_swap data restore i p = (p1, out1)" by fastforce
  obtain p2 out2 where two: "load_swaps data restore is' p1 = (p2, out2)" by fastforce
  from pool_moves.further [OF moves_load [OF one] Cons.IH [OF two]] moves_load [OF one] Cons.prems one two
  show ?case by (auto split: if_splits)
qed (simp add: moves_refl)

lemma moves_lock: "lock_swap i t p = (q, out) \<Longrightarrow> pool_moves p out q"
proof (cases i)
  case (Some k)
  assume "lock_swap i t p = (q, out)"
  with Some have "set_lockup_transaction k (Some t) p = (q, out)" by (simp add: lock_swap_def)
  then show ?thesis
    using flows_lockup [of k "Some t" p] lockup_outputs [of _ k "Some t" p] by (intro pool_moves.quiet) auto
qed (simp add: lock_swap_def moves_refl)

lemma step_moves: "pool_moves (sy_pool y) (snd (swap_step ok y e)) (sy_pool (fst (swap_step ok y e)))"
proof (cases e)
  case (SessionCreated data restore ids)
  obtain p1 out where load: "load_swaps data restore ids (sy_pool y) = (p1, out)" by fastforce
  have "pool_moves p1 [] (p1\<lparr>sp_session := True\<rparr>)" by (intro moves_quiet) (simp add: flows_def)
  from pool_moves.further [OF moves_loads [OF load] this] show ?thesis
    using SessionCreated load moves_loads [OF load] by (simp add: session_created_def pool_does_def moves_refl)
next
  case (AdvanceEnded i r)
  then show ?thesis by (simp add: pool_moves.ended)
next
  case (SwapTimer i)
  then show ?thesis by (auto simp: pool_does_def intro: pool_moves.timer prod.collapse [symmetric])
next
  case (ResponseChanges h q)
  then show ?thesis by (simp add: moves_quiet)
next
  case (PrepareEnded i r uuid)
  then show ?thesis
    by (cases r) (auto simp: prepare_ended_def Let_def moves_refl split: prod.splits intro: moves_made)
next
  case (ChainEnded i r)
  then show ?thesis
    by (auto simp: chain_ended_def Let_def moves_refl split: prod.splits option.splits intro: moves_made)
next
  case (InvoiceEnded i r)
  then show ?thesis
    by (auto simp: invoice_ended_def Let_def moves_refl split: prod.splits option.splits intro: moves_made)
next
  case ChainCloses
  then show ?thesis
    by (auto simp: pool_does_def chain_close_def moves_refl split: option.splits
        intro: pool_moves.removed prod.collapse [symmetric])
next
  case (SetInvoiceSatoshi t)
  then show ?thesis
    by (auto simp: invoice_set_satoshi_def Let_def moves_refl split: prod.splits option.splits
        intro: pool_moves.removed)
next
  case (SubmarineLocked t)
  then show ?thesis by (auto simp: pool_does_def intro: moves_lock prod.collapse [symmetric])
next
  case (ChainLocked t)
  then show ?thesis by (auto simp: pool_does_def intro: moves_lock prod.collapse [symmetric])
qed (simp_all add: moves_refl)

lemma followed_moves: "pool_moves p out q \<Longrightarrow> followed p \<Longrightarrow> followed q"
proof (induction rule: pool_moves.induct)
  case (quiet q p out)
  then show ?case by (simp add: followed_def)
next
  case (added w p q out)
  then show ?case using followed_add [of p w] by simp
next
  case (timer i p q out)
  then show ?case using followed_timer [of p i] by simp
next
  case (removed i p q out)
  then show ?case using followed_remove [of p i] by simp
qed (simp_all add: followed_ended)

section \<open>Following\<close>

interpretation swaps: keeps "swap_step ok" "\<lambda>_. True" "\<lambda>y. followed (sy_pool y)" for ok
  by unfold_locales (rule followed_moves [OF step_moves])

lemma new_pool_followed: "followed (sy_pool new_swap_system)"
  by (simp add: followed_def flows_ok_def flows_def new_swap_system_def new_pool_def)

text \<open>
  C24.  A swap is followed until it is over, and not after.  In every history of the sessions,
  the pages, the library's calls and the timers, a swap in the wallet's list that is pending has exactly
  one call of the library under way or one timer running that will make the next, and one that has
  completed or failed, or has been removed, has neither.
\<close>

theorem swaps_are_followed:
  "let p = sy_pool (fst (run (swap_step ok) new_swap_system es))
   in distinct (sp_listed p) \<and> set (sp_listed p) \<subseteq> {..<length (sp_swaps p)} \<and>
      list_all (\<lambda>i. sw_advancing (swap_at i p) + sw_timers (swap_at i p) =
        (if i \<in> set (sp_listed p) \<and> sw_status (swap_at i p) = Pending then 1 else 0)) [0..<length (sp_swaps p)]"
proof -
  define p where "p = sy_pool (fst (run (swap_step ok) new_swap_system es))"
  have ok: "flows_ok (flows p)"
    using swaps.inv_run [OF new_pool_followed, of es ok] by (simp add: p_def followed_def)
  have "sw_advancing (swap_at i p) + sw_timers (swap_at i p) =
      (if i \<in> set (sp_listed p) \<and> sw_status (swap_at i p) = Pending then 1 else 0)"
    if "i < length (sp_swaps p)" for i
  proof -
    have "flow_ok (i \<in> set (fst (flows p))) (flow (swap_at i p))"
      unfolding flows_at [OF that] using that by (intro flows_ok_at ok) (simp only: flows_length)
    then show ?thesis by (simp add: flow_def flows_listed)
  qed
  then show ?thesis using ok unfolding Let_def p_def [symmetric]
    by (auto simp: list_all_iff flows_ok_def flows_def)
qed

section \<open>Erasing\<close>

text \<open>A swap that is out of the list, with its status and without a call or a timer.\<close>

definition abandoned :: "nat \<Rightarrow> swap_status \<Rightarrow> swap_pool \<Rightarrow> bool" where
  "abandoned i st p \<longleftrightarrow> i < length (snd (flows p)) \<and> i \<notin> set (fst (flows p)) \<and> snd (flows p) ! i = (st, 0, 0)"

lemma abandoned_other:
  "abandoned i st p \<Longrightarrow> k \<noteq> i \<Longrightarrow> flows q = (fst (flows p), (snd (flows p))[k := x]) \<Longrightarrow> abandoned i st q"
  by (simp add: abandoned_def)

lemma abandoned_same: "abandoned i st p \<Longrightarrow> flows q = flows p \<Longrightarrow> abandoned i st q"
  by (simp add: abandoned_def)

lemma abandoned_at: "abandoned i st p \<Longrightarrow> flow (swap_at i p) = (st, 0, 0)"
  by (auto simp: abandoned_def flows_def swap_at_def)

lemma abandoned_timer:
  assumes "abandoned i st p"
  shows "abandoned i st (fst (swap_timer k p)) \<and> Advance i \<notin> set (snd (swap_timer k p))"
proof (cases "k = i \<or> \<not> k < length (snd (flows p))")
  case True
  then have "swap_timer k p = (p, [])"
    using abandoned_at [OF assms] by (auto simp: swap_timer_def flow_def flows_def)
  with assms show ?thesis by simp
next
  case False
  obtain st' a t where at: "snd (flows p) ! k = (st', a, t)" by (metis prod_cases3)
  have "abandoned i st (fst (swap_timer k p))"
    using flows_timer [OF _ at] False assms
    by (cases "t > 0") (auto intro: abandoned_other [OF assms, of k] abandoned_same [OF assms])
  moreover have "Advance i \<notin> set (snd (swap_timer k p))" using False by (simp add: swap_timer_def sync_def)
  ultimately show ?thesis by blast
qed

lemma abandoned_ended:
  assumes "abandoned i st p"
  shows "abandoned i st (advance_ended k r p)"
proof (cases "k = i \<or> \<not> k < length (snd (flows p))")
  case True
  then have "advance_ended k r p = p"
    using abandoned_at [OF assms] by (auto simp: advance_ended_def flow_def flows_def)
  with assms show ?thesis by simp
next
  case False
  obtain st' a t where at: "snd (flows p) ! k = (st', a, t)" by (metis prod_cases3)
  then show ?thesis using flows_ended [OF _ at, of r] False
    by (cases "a > 0") (auto intro: abandoned_other [OF assms, of k] abandoned_same [OF assms])
qed

lemma abandoned_removed:
  assumes "abandoned i st p"
  shows "abandoned i st (fst (remove_swap k p)) \<and> Advance i \<notin> set (snd (remove_swap k p))"
proof -
  obtain st' a t where at: "snd (flows p) ! k = (st', a, t)" by (metis prod_cases3)
  have "abandoned i st (fst (remove_swap k p))"
    using assms flows_remove [OF _ at] flows_remove_none [of k p] at
    by (cases "k < length (snd (flows p))"; cases "k = i")
      (auto simp: abandoned_def dest: set_remove1_subset [THEN subsetD])
  then show ?thesis by (simp add: remove_swap_def)
qed

lemma abandoned_moves:
  "pool_moves p out q \<Longrightarrow> abandoned i st p \<Longrightarrow> abandoned i st q \<and> Advance i \<notin> set out"
proof (induction rule: pool_moves.induct)
  case (quiet q p out)
  then show ?case by (simp add: abandoned_same)
next
  case (added w p q out)
  have "out = [Advance (length (sp_swaps p))]" using added(2) by (auto simp: add_swap_def sync_def Let_def)
  moreover have "flows q = (fst (flows p) @ [length (snd (flows p))], snd (flows p) @ [(Pending, 1, 0)])"
    using flows_add [OF added(1), of p] added(2) by simp
  ultimately show ?case using added(3) by (simp add: abandoned_def nth_append flows_length)
next
  case (timer k p q out)
  then show ?case using abandoned_timer [of i st p k] by simp
next
  case (ended k r p)
  then show ?case by (simp add: abandoned_ended)
next
  case (removed k p q out)
  then show ?case using abandoned_removed [of i st p k] by simp
qed simp

interpretation erased: promises "swap_step ok" "\<lambda>_. True" "\<lambda>y. abandoned i st (sy_pool y)" "\<lambda>x. x \<noteq> Advance i"
  for ok i st
  using abandoned_moves [OF step_moves] by unfold_locales blast+

text \<open>
  C19.  A payment that is being received can be thrown away.  When the amount of the page changes, the
  invoice controller erases its swap, and does not look whether it has been paid.  After any
  history, let the swap shown have a lockup transaction, so that the payer's money is in it and
  is waiting to be claimed: then changing the amount erases it from the library's store, and in every
  history after that the library is never called for it again and it stays as it is.
\<close>

theorem paid_swap_erased:
  assumes y: "y = fst (run (swap_step ok) new_swap_system es)"
    and shown: "in_swap (sy_invoice y) = Some i" and listed: "i \<in> set (sp_listed (sy_pool y))"
    and "sw_lockup (swap_at i (sy_pool y)) = Some tx" and new: "t \<noteq> in_satoshi (sy_invoice y)"
  shows "let r = run (swap_step ok) y (SetInvoiceSatoshi t # fs); w = swap_at i (sy_pool y)
    in SwapErased (sw_id w) \<in> set (snd r) \<and> Advance i \<notin> set (snd r) \<and>
       i \<notin> set (sp_listed (sy_pool (fst r))) \<and> sw_status (swap_at i (sy_pool (fst r))) = sw_status w"
proof -
  let ?p = "sy_pool y" and ?y1 = "fst (swap_step ok y (SetInvoiceSatoshi t))"
  have ok: "flows_ok (flows ?p)"
    using swaps.inv_run [OF new_pool_followed, of es ok] by (simp add: y followed_def)
  then have i: "i < length (snd (flows ?p))" using listed by (auto simp: flows_ok_def flows_def)
  obtain st a n where at: "snd (flows ?p) ! i = (st, a, n)" by (metis prod_cases3)
  have st: "sw_status (swap_at i ?p) = st" using at i by (simp add: flows_def flow_def swap_at_def)
  have step: "sy_pool ?y1 = fst (remove_swap i ?p)"
    "snd (swap_step ok y (SetInvoiceSatoshi t)) = snd (remove_swap i ?p)"
    using shown new by (auto simp: invoice_set_satoshi_def Let_def split: prod.splits)
  have "i \<notin> set (remove1 i (fst (flows ?p)))" using ok by (simp add: flows_ok_def)
  then have gone: "abandoned i st (sy_pool ?y1)"
    unfolding step abandoned_def using flows_remove [OF i at] i by simp
  define r where "r = run (swap_step ok) ?y1 fs"
  have "abandoned i st (sy_pool (fst r))" and "Advance i \<notin> set (snd r)"
    using erased.inv_run [OF gone, of fs ok] erased.good_run [OF gone, of fs "Advance i" ok]
    by (auto simp: r_def)
  then have "i \<notin> set (sp_listed (sy_pool (fst r)))" "sw_status (swap_at i (sy_pool (fst r))) = st"
    by (auto simp: abandoned_def flows_def swap_at_def flow_def)
  moreover have "SwapErased (sw_id (swap_at i ?p)) \<in> set (snd (remove_swap i ?p))"
    and "Advance i \<notin> set (snd (remove_swap i ?p))" by (simp_all add: remove_swap_def)
  moreover have "fst (run (swap_step ok) y (SetInvoiceSatoshi t # fs)) = fst r"
    and "snd (run (swap_step ok) y (SetInvoiceSatoshi t # fs)) = snd (remove_swap i ?p) @ snd r"
    by (simp_all only: run_Cons_fst run_Cons_snd r_def step)
  ultimately show ?thesis using \<open>Advance i \<notin> set (snd r)\<close> st by (simp add: Let_def del: run_Cons_fst run_Cons_snd)
qed

definition paid_events :: "swap_event list" where
  "paid_events = [SessionCreated (\<lambda>_. NotStored) (\<lambda>_. NotRestored) [], SetInvoiceAddress ''lq1'', SetInvoiceSatoshi ''5000'',
     InvoiceRequest, InvoiceTimer,
     InvoiceEnded 0 (Some \<lparr>rs_id = ''s1'', rs_lockup = None, rs_claim = None, rs_throws = False\<rparr>),
     ResponseChanges 0 \<lparr>rs_id = ''s1'', rs_lockup = Some ''tx1'', rs_claim = None, rs_throws = False\<rparr>,
     AdvanceEnded 0 Continues]"

lemma paid_state:
  "in_swap (sy_invoice (fst (run (swap_step (\<lambda>_. True)) new_swap_system paid_events))) = Some 0"
  "sp_listed (sy_pool (fst (run (swap_step (\<lambda>_. True)) new_swap_system paid_events))) = [0]"
  "sw_lockup (swap_at 0 (sy_pool (fst (run (swap_step (\<lambda>_. True)) new_swap_system paid_events)))) = Some ''tx1''"
  "in_satoshi (sy_invoice (fst (run (swap_step (\<lambda>_. True)) new_swap_system paid_events))) = ''5000''"
  "sw_id (swap_at 0 (sy_pool (fst (run (swap_step (\<lambda>_. True)) new_swap_system paid_events)))) = ''s1''"
  by code_simp+

theorem paid_swap_erased_witness:
  "let y = fst (run (swap_step (\<lambda>_. True)) new_swap_system paid_events)
   in SwapErased ''s1'' \<in> set (snd (run (swap_step (\<lambda>_. True)) y [SetInvoiceSatoshi ''6000'']))"
  using paid_swap_erased [OF refl paid_state(1) _ paid_state(3), where t = "''6000''" and fs = "[]"]
  unfolding Let_def paid_state(2,4,5) by simp

text \<open>
  A submarine swap is remembered under the invoice that is entered when its preparation ends, which
  need not be the one it was prepared for; from then on it is taken for the swap of that invoice.
\<close>

lemma swap_under_other_invoice:
  assumes "i < length (su_asking c)" and "su_asking c ! i = Some (prepared, refund)"
  shows "\<exists>p1 c1 k. prepare_ended i (Prepared q) u p c = ((p1, c1), [Advance k]) \<and> su_swap c1 = Some k \<and>
    k = length (sp_swaps p) \<and> k \<in> set (sp_listed p1)"
proof -
  let ?p = "p\<lparr>sp_responses := sp_responses p @ [q]\<rparr>"
  let ?w = "new_swap (rs_id q) (SubmarineSwap (Some (length (sp_responses p))) (su_payment c) [] 0)"
  have "sp_listed (fst (snd (add_swap ?w ?p))) = sp_listed p @ [length (sp_swaps p)]"
    using flows_add [of ?w Pending 0 0 ?p] by (simp add: new_swap_def flow_def flows_def)
  moreover have "snd (snd (add_swap ?w ?p)) = [Advance (length (sp_swaps p))]"
    and "fst (add_swap ?w ?p) = length (sp_swaps p)"
    by (simp_all add: add_swap_def sync_def Let_def)
  ultimately show ?thesis
    using assms by (auto simp: prepare_ended_def add_response_def Let_def split: prod.splits)
qed

end
