(* ===== verification/Qml_Util.thy ===== *)
theory Qml_Util
  imports Complex_Main Json "HOL-Library.Multiset"
begin

text \<open>
  The functions of the user interface's \<open>qml/util.js\<close>.  \<open>tr\<close> stands for
  \<open>qsTrId\<close>, the translation of an identifier.  Objects are records of the fields the functions
  read; a missing object is \<open>None\<close>.  Numbers are integers where the code has them, and
  \<open>Math.round(a / b)\<close> is rounding to nearest with ties up.
\<close>

section \<open>Objects\<close>

record js_network =
  jn_key :: string
  jn_mainnet :: bool
  jn_liquid :: bool
  jn_electrum :: bool
  jn_policy_asset :: string

record js_account =
  ja_name :: string
  ja_main_account :: bool
  ja_pointer :: int
  ja_hidden :: bool
  ja_type :: string
  ja_network :: js_network
  ja_satoshi :: "(string \<times> int) list"

record js_asset =
  jas_id :: string
  jas_icon :: string
  jas_policy :: bool
  jas_network_key :: string

record js_device =
  jd_type :: int
  jd_board :: "json option"
  jd_version :: string
  jd_app_version :: string

record js_context =
  jc_accounts :: "js_account list"
  jc_mainnet :: bool
  jc_device :: "js_device option"

section \<open>Lists\<close>

datatype 'a js_arg = Falsy | Elements "'a list" | Single 'a

definition flatten :: "'a js_arg list \<Rightarrow> 'a list" where
  "flatten args = foldl (\<lambda>result arg. case arg of
     Falsy \<Rightarrow> result | Elements xs \<Rightarrow> foldl (\<lambda>r x. r @ [x]) result xs | Single x \<Rightarrow> result @ [x]) [] args"

text \<open>
  \<open>pick i n\<close> is \<open>Math.floor(Math.random() * n)\<close> at the \<open>i\<close>-th draw; the copy
  \<open>b\<close> shrinks by one each time.
\<close>

function shuffle_loop :: "(nat \<Rightarrow> nat \<Rightarrow> nat) \<Rightarrow> nat \<Rightarrow> 'a list \<Rightarrow> 'a list \<Rightarrow> 'a list" where
  "shuffle_loop pick i b c =
     (if b = [] \<or> pick i (length b) \<ge> length b then c
      else (let k = pick i (length b)
            in shuffle_loop pick (i + 1) (take k b @ drop (k + 1) b) (c @ [b ! k])))"
  by pat_completeness auto
termination
  by (relation "measure (\<lambda>(pick, i, b, c). length b)") auto

declare shuffle_loop.simps [simp del]

definition shuffle :: "(nat \<Rightarrow> nat \<Rightarrow> nat) \<Rightarrow> 'a list \<Rightarrow> 'a list" where
  "shuffle pick a = shuffle_loop pick 0 a []"

section \<open>Icons and labels\<close>

definition link :: "string \<Rightarrow> string \<Rightarrow> string" where
  "link url caption = ''<style>a:link { color: '' @ [CHR 0x22] @ ''#00BCFF'' @ [CHR 0x22] @
     ''; text-decoration: none; }</style><a href='' @ [CHR 0x22] @ url @ [CHR 0x22] @ ''>'' @
     (if caption \<noteq> [] then caption else url) @ ''</a>''"

definition icon_for :: "string \<Rightarrow> string" where
  "icon_for target =
     (if target = ''liquid'' then ''qrc:/svg/liquid.svg''
      else if target = ''testnet-liquid'' then ''qrc:/svg/testnet-liquid.svg''
      else if target = ''bitcoin'' then ''qrc:/svg/btc.svg''
      else if target = ''testnet'' then ''qrc:/svg/btc_testnet.svg''
      else if target = ''localtest'' then ''qrc:/svg/localtest.svg''
      else if target = ''localtest-liquid'' then ''qrc:/svg/localtest-liquid.svg''
      else ''qrc:/svg/generic_icon_30p.svg'')"

definition network_icon :: "js_network \<Rightarrow> string" where
  "network_icon n = icon_for (jn_key n)"

definition account_icon :: "js_account \<Rightarrow> string" where
  "account_icon a = network_icon (ja_network a)"

definition asset_icon :: "js_asset \<Rightarrow> string" where
  "asset_icon a = (if jas_icon a \<noteq> [] then jas_icon a
     else if jas_policy a then icon_for (jas_network_key a) else icon_for (jas_id a))"

text \<open>\<open>QString::arg\<close> on a text with one \<open>%1\<close>.\<close>

fun str_arg :: "string \<Rightarrow> string \<Rightarrow> string" where
  "str_arg [] x = []"
| "str_arg (c # cs) x = (if c = CHR ''%'' \<and> take 1 cs = ''1'' then x @ str_arg (drop 1 cs) x
     else c # str_arg cs x)"

definition account_name :: "(string \<Rightarrow> string) \<Rightarrow> js_account option \<Rightarrow> string" where
  "account_name tr a = (case a of
     None \<Rightarrow> []
   | Some acc \<Rightarrow>
       if ja_name acc \<noteq> [] then ja_name acc
       else if ja_main_account acc then tr ''id_main_account''
       else str_arg (tr ''Account %1'') (string_of_int (ja_pointer acc)))"

definition account_label :: "(string \<Rightarrow> string) \<Rightarrow> js_account option \<Rightarrow> string" where
  "account_label tr a = (let t = (case a of None \<Rightarrow> [] | Some acc \<Rightarrow> ja_type acc) in
     if t = ''2of2'' then tr ''id_2of2''
     else if t = ''2of3'' then tr ''id_2of3''
     else if t = ''2of2_no_recovery'' then tr ''id_amp''
     else if t = ''p2sh-p2wpkh'' then tr ''id_legacy_segwit''
     else if t = ''p2wpkh'' then tr ''id_native_segwit''
     else if t = ''p2pkh'' then tr ''id_legacy''
     else tr ''-'')"

definition network_label :: "(string \<Rightarrow> string) \<Rightarrow> js_network option \<Rightarrow> string" where
  "network_label tr n = (case n of
     None \<Rightarrow> ''-'' | Some net \<Rightarrow> if jn_electrum net then tr ''id_singlesig'' else tr ''id_multisig'')"

definition two_factor_method_label :: "(string \<Rightarrow> string) \<Rightarrow> string \<Rightarrow> string option" where
  "two_factor_method_label tr m = map_option tr (map_of
     [(''email'', ''id_email''), (''gauth'', ''id_authenticator_app''), (''phone'', ''id_phone_call''),
      (''sms'', ''id_sms''), (''telegram'', ''id_telegram'')] m)"

definition localized_label :: "(string \<Rightarrow> string) \<Rightarrow> string \<Rightarrow> string" where
  "localized_label tr l =
     (if l = [] \<or> l = ''all'' then tr ''id_all''
      else if l = ''csv'' then tr ''id_csv''
      else if l = ''p2wsh'' then tr ''id_p2wsh''
      else if l = ''p2sh'' then tr ''id_p2sh''
      else if l = ''not_confidential'' then tr ''id_not_confidential''
      else if l = ''dust'' then tr ''id_dust''
      else if l = ''locked'' then tr ''id_locked''
      else if l = ''expired'' then tr ''id_2fa_expired''
      else l)"

definition swap_network_type :: "js_network option \<Rightarrow> string option" where
  "swap_network_type n = (case n of
     None \<Rightarrow> None
   | Some net \<Rightarrow> if jn_liquid net then Some ''liquid''
       else if jn_mainnet net then Some ''mainnet'' else None)"

definition is_jade_v2 :: "string option \<Rightarrow> bool" where
  "is_jade_v2 board = (case board of None \<Rightarrow> False | Some b \<Rightarrow> take 7 b = ''JADE_V2'')"

definition jade_image :: "string option \<Rightarrow> int \<Rightarrow> string" where
  "jade_image board index = ''qrc:/png/'' @ (if is_jade_v2 board then ''jade2'' else ''jade'') @ ''_'' @
     string_of_int index @ ''.png''"

section \<open>Accounts\<close>

definition accounts :: "js_context option \<Rightarrow> js_account list" where
  "accounts c = (case c of
     None \<Rightarrow> [] | Some ctx \<Rightarrow> filter (\<lambda>a. \<not> ja_hidden a) (jc_accounts ctx))"

definition multisig_liquid :: "js_account \<Rightarrow> bool" where
  "multisig_liquid a \<longleftrightarrow> \<not> jn_electrum (ja_network a) \<and> jn_liquid (ja_network a)"

definition archived_accounts :: "js_context option \<Rightarrow> js_account list" where
  "archived_accounts c = (case c of
     None \<Rightarrow> []
   | Some ctx \<Rightarrow>
       (let amp = filter (\<lambda>a. multisig_liquid a \<and> ja_type a = ''2of2_no_recovery'') (jc_accounts ctx) \<noteq> [];
            except_amp = filter (\<lambda>a. multisig_liquid a \<and> ja_type a \<noteq> ''2of2_no_recovery'' \<and>
              (ja_pointer a > 0 \<or> \<not> ja_hidden a)) (jc_accounts ctx) \<noteq> []
        in filter (\<lambda>a.
             if \<not> ja_hidden a then False
             else if multisig_liquid a \<and> ja_pointer a = 0 \<and> \<not> except_amp \<and> amp then False
             else True) (jc_accounts ctx)))"

section \<open>Hiding amounts\<close>

text \<open>The regular-expression replacements of \<open>incognito\<close>, each as a scan.\<close>

definition is_digit :: "char \<Rightarrow> bool" where
  "is_digit c \<longleftrightarrow> CHR ''0'' \<le> c \<and> c \<le> CHR ''9''"

definition is_js_space :: "char \<Rightarrow> bool" where
  "is_js_space c \<longleftrightarrow> c \<in> {CHR '' '', CHR 0x09, CHR 0x0A, CHR 0x0B, CHR 0x0C, CHR 0x0D, CHR 0xA0}"

text \<open>\<open>replace(p, '')\<close> with a string: the first occurrence only.\<close>

fun remove_first :: "string \<Rightarrow> string \<Rightarrow> string" where
  "remove_first p [] = []"
| "remove_first p (c # cs) =
     (if take (length p) (c # cs) = p then drop (length p) (c # cs) else c # remove_first p cs)"

fun join_digits :: "string \<Rightarrow> string" where
  "join_digits (a # b # c # cs) =
     (if is_digit a \<and> is_js_space b \<and> is_digit c then CHR ''0'' # join_digits cs
      else a # join_digits (b # c # cs))"
| "join_digits cs = cs"

function mask_digits :: "nat \<Rightarrow> string \<Rightarrow> string" where
  "mask_digits n [] = []"
| "mask_digits n (c # cs) =
     (if is_digit c then replicate n CHR ''*'' @ mask_digits n (dropWhile is_digit cs)
      else c # mask_digits n cs)"
  by pat_completeness auto
termination
  by (relation "measure (\<lambda>(n, s). length s)") (auto intro: le_imp_less_Suc length_dropWhile_le)

definition incognito :: "bool \<Rightarrow> string \<Rightarrow> nat \<Rightarrow> string" where
  "incognito enabled v stars =
     (if enabled then
        mask_digits stars (filter (\<lambda>c. c \<noteq> CHR '','' \<and> c \<noteq> CHR ''.'')
          (join_digits (remove_first ''-'' (remove_first ''~ '' v))))
      else v)"

section \<open>Numbers\<close>

text \<open>\<open>toLowerCase\<close> and \<open>toUpperCase\<close> on ASCII letters.\<close>

definition lower :: "string \<Rightarrow> string" where
  "lower = map (\<lambda>c. if CHR ''A'' \<le> c \<and> c \<le> CHR ''Z'' then char_of (of_char c + (32::nat)) else c)"

definition upper :: "string \<Rightarrow> string" where
  "upper = map (\<lambda>c. if CHR ''a'' \<le> c \<and> c \<le> CHR ''z'' then char_of (of_char c - (32::nat)) else c)"

definition normalize_unit :: "string \<Rightarrow> string" where
  "normalize_unit u = (if u = CHR 0xB5 # ''BTC'' then ''ubtc'' else lower u)"

definition round_div :: "int \<Rightarrow> int \<Rightarrow> int" where
  "round_div a b = (2 * a + b) div (2 * b)"

definition csv_time_label :: "(string \<Rightarrow> string) \<Rightarrow> int \<Rightarrow> string" where
  "csv_time_label tr blocks =
     (let hours = round_div blocks 6; days = round_div blocks (6 * 24);
          months = round_div blocks (6 * 24 * 30)
      in if hours \<le> 1 then ''~1 '' @ tr ''id_hour''
         else if hours < 24 then string_of_int hours @ '' '' @ tr ''id_hours''
         else if days \<le> 1 then ''1 '' @ tr ''id_day''
         else if days < 30 then string_of_int days @ tr ''id_days''
         else if months \<le> 1 then ''1 '' @ tr ''id_month''
         else string_of_int months @ '' '' @ tr ''id_months'')"

definition csv_label :: "(string \<Rightarrow> string) \<Rightarrow> int \<Rightarrow> string" where
  "csv_label tr blocks = csv_time_label tr blocks @ '' ('' @ string_of_int blocks @ '' '' @
     tr ''id_blocks'' @ '')''"

definition confirmations :: "int \<Rightarrow> int \<Rightarrow> int" where
  "confirmations tip block_height = (if block_height = 0 then 0 else 1 + tip - block_height)"

definition transaction_icon :: "string \<Rightarrow> int \<Rightarrow> string" where
  "transaction_icon ty n = (if n > 0 then ''qrc:/svg2/tx-'' @ ty @ ''.svg''
     else ''qrc:/ffffff/24/hourglass-high.svg'')"

text \<open>A number of hundredths as JavaScript prints it: no trailing zeros, no point when whole.\<close>

definition show_hundredths :: "int \<Rightarrow> string" where
  "show_hundredths n = (let m = \<bar>n\<bar> in (if n < 0 then ''-'' else []) @ string_of_int (m div 100) @
     (if m mod 100 = 0 then []
      else if m mod 10 = 0 then ''.'' @ string_of_int (m mod 100 div 10)
      else if m mod 100 < 10 then ''.0'' @ string_of_int (m mod 100)
      else ''.'' @ string_of_int (m mod 100)))"

definition format_fee_rate :: "int \<Rightarrow> js_network option \<Rightarrow> string" where
  "format_fee_rate fee n =
     (if (case n of None \<Rightarrow> False | Some net \<Rightarrow> jn_liquid net)
      then show_hundredths (round_div fee 10) @ '' sat/vbyte''
      else show_hundredths (10 * round_div fee 100) @ '' sat/vbyte'')"

definition confirmation_time :: "(string \<Rightarrow> string) \<Rightarrow> int \<Rightarrow> int list \<Rightarrow> string" where
  "confirmation_time tr rate estimates =
     (if length estimates \<noteq> 25 then ''-''
      else if estimates ! 24 < estimates ! 12 \<and> rate < estimates ! 24 then tr ''id_custom''
      else if estimates ! 12 < estimates ! 3 \<and> rate < estimates ! 12 then tr ''id_4_hours''
      else if rate < estimates ! 3 then tr ''id_2_hours''
      else tr ''id_1030_minutes'')"

section \<open>Providers\<close>

fun split_at :: "char \<Rightarrow> string \<Rightarrow> string list" where
  "split_at d [] = [[]]"
| "split_at d (c # cs) = (if c = d then [] # split_at d cs
     else (case split_at d cs of [] \<Rightarrow> [[c]] | w # ws \<Rightarrow> (c # w) # ws))"

definition get_provider_initials :: "string \<Rightarrow> string" where
  "get_provider_initials name = (if name = [] then ''--''
     else (case split_at CHR '' '' name of
         a # b # rest \<Rightarrow> upper (take 1 a @ take 1 b)
       | _ \<Rightarrow> upper (take 2 name)))"

text \<open>\<open>((hash << 5) - hash) + charCode\<close>, brought back to 32 bits by \<open>| 0\<close> every round.\<close>

definition provider_hash :: "string \<Rightarrow> 32 word" where
  "provider_hash name =
     foldl (\<lambda>h c. (push_bit 5 h - h) + of_nat (of_char c)) 0 name"

text \<open>The hue in 360ths; \<open>None\<close> is the fixed colour of an empty name.\<close>

definition provider_hue :: "string \<Rightarrow> int option" where
  "provider_hue name = (if name = [] then None else Some (\<bar>sint (provider_hash name)\<bar> mod 360))"

section \<open>Transactions and promotions\<close>

definition transaction_type_label :: "(string \<Rightarrow> string) \<Rightarrow> string \<Rightarrow> bool list \<Rightarrow> string" where
  "transaction_type_label tr ty relevant =
     (if ty = ''incoming'' \<and> (relevant = [] \<or> True \<in> set relevant) then tr ''id_received''
      else if ty = ''outgoing'' then tr ''id_sent''
      else if ty = ''redeposit'' then tr ''id_redeposited''
      else if ty = ''mixed'' then tr ''id_swap''
      else if ty = ''not unblindable'' then ''Not unblindable''
      else ty)"

record js_coin =
  jco_pt_idx :: int
  jco_asset_id :: string
  jco_satoshi :: int
  jco_assetblinder :: string
  jco_amountblinder :: string

definition unblinded :: "js_coin \<Rightarrow> bool" where
  "unblinded i \<longleftrightarrow> jco_asset_id i \<noteq> [] \<and> jco_satoshi i \<noteq> 0 \<and> jco_assetblinder i \<noteq> [] \<and>
     jco_amountblinder i \<noteq> []"

definition unblinding_entry :: "string \<Rightarrow> js_coin \<Rightarrow> json" where
  "unblinding_entry index i = JObj (jobj [(index, JInt (jco_pt_idx i)),
     (''asset_id'', JStr (jco_asset_id i)), (''assetblinder'', JStr (jco_assetblinder i)),
     (''satoshi'', JInt (jco_satoshi i)), (''amountblinder'', JStr (jco_amountblinder i))])"

definition get_unblinding_data :: "string \<Rightarrow> string \<Rightarrow> js_coin list \<Rightarrow> js_coin list \<Rightarrow> jobject" where
  "get_unblinding_data txid ty inputs outputs =
     jobj [(''version'', JInt 0), (''txid'', JStr txid), (''type'', JStr ty),
       (''inputs'', JArr (map (unblinding_entry ''vin'') (filter unblinded inputs))),
       (''outputs'', JArr (map (unblinding_entry ''vout'') (filter unblinded outputs)))]"

text \<open>A wallet's device, if its login has one: its type and board.\<close>

type_synonym js_wallet = "(string \<times> string) option"

definition filter_promo :: "js_wallet list \<Rightarrow> string \<Rightarrow> bool" where
  "filter_promo wallets target =
     (let sww = length (filter (\<lambda>w. w = None) wallets);
          hww = length (filter (\<lambda>w. w \<noteq> None) wallets);
          jade_plus = length (filter (\<lambda>w. w = Some (''jade'', ''JADE_V2'')) wallets);
          jade_classic = length (filter (\<lambda>w. case w of
            None \<Rightarrow> False | Some (t, b) \<Rightarrow> t = ''jade'' \<and> b \<noteq> ''JADE_V2'') wallets)
      in if target = [] then True
         else if target = ''only_sww'' then sww > 0 \<and> hww = 0
         else if target = ''jade_user'' then jade_classic > 0 \<and> jade_plus = 0
         else if target = ''jadeplus_user'' then jade_plus > 0
         else True)"

section \<open>Items of the scene\<close>

text \<open>An item with its parents; \<open>ji_id\<close> tells items apart.\<close>

datatype js_item = JsItem (ji_id: nat) (ji_x: real) (ji_y: real) (ji_width: real) (ji_visible: bool)
  (ji_parent: "js_item option")

fun effective_visible :: "js_item option \<Rightarrow> bool" where
  "effective_visible None \<longleftrightarrow> True"
| "effective_visible (Some (JsItem i x y w v parent)) \<longleftrightarrow> (if \<not> v then False else effective_visible parent)"

definition effective_width :: "js_item \<Rightarrow> real" where
  "effective_width item = (if ji_visible item then ji_width item else 0)"

text \<open>
  A binding on \<open>dynamicScenePosition\<close> is evaluated again when one of the properties it has read
  changes: the loop reads the position of every parent for that alone.  \<open>map_to_scene\<close> is Qt's
  \<open>mapToItem(null, x, y)\<close>.
\<close>

fun position_reads :: "js_item option \<Rightarrow> (nat \<times> string) list" where
  "position_reads None = []"
| "position_reads (Some (JsItem i x y w v parent)) = (i, ''x'') # (i, ''y'') # position_reads parent"

definition dynamic_scene_position ::
    "(js_item \<Rightarrow> real \<Rightarrow> real \<Rightarrow> 'p) \<Rightarrow> js_item \<Rightarrow> real \<Rightarrow> real \<Rightarrow> (nat \<times> string) list \<times> 'p" where
  "dynamic_scene_position map_to_scene item x y = (position_reads (Some item), map_to_scene item x y)"

text \<open>\<open>is_item\<close> is \<open>instanceof Item\<close>: children that are not items keep their index.\<close>

definition find_child_index :: "('a \<Rightarrow> bool) \<Rightarrow> ('a \<Rightarrow> bool) \<Rightarrow> 'a list option \<Rightarrow> nat" where
  "find_child_index is_item pred parent = (case parent of
     None \<Rightarrow> 0
   | Some children \<Rightarrow> foldl (\<lambda>index (i, child).
       if \<not> is_item child then index else if pred child then i else index) 0 (enumerate 0 children))"

section \<open>Colours, units and times\<close>

text \<open>\<open>qt_color\<close> is \<open>Qt.color\<close>; a colour is its hue, saturation and value.\<close>

record js_color =
  hsv_hue :: real
  hsv_saturation :: real
  hsv_value :: real

definition network_color :: "(string \<Rightarrow> js_color) \<Rightarrow> js_network \<Rightarrow> js_color" where
  "network_color qt_color n =
     (let c = qt_color (if jn_liquid n then ''#46BEAE'' else ''#FF8E00'')
      in if \<not> jn_mainnet n
         then c\<lparr>hsv_value := hsv_value c * 0.5, hsv_saturation := hsv_saturation c * 0.1\<rparr>
         else c)"

text \<open>The unit of the target's primary session; \<open>None\<close> is the exception when it has none.\<close>

record js_session =
  jse_unit :: string

record js_target =
  jt_primary_session :: "js_session option"

definition unit_of :: "js_target \<Rightarrow> string option" where
  "unit_of target = map_option jse_unit (jt_primary_session target)"

text \<open>
  Microseconds to the whole milliseconds of a \<open>Date\<close>, cut towards zero.  The locale's format 0
  and the printing of a date are parameters.
\<close>

definition format_transaction_timestamp ::
    "(int \<Rightarrow> string \<Rightarrow> string) \<Rightarrow> (nat \<Rightarrow> string) \<Rightarrow> int \<Rightarrow> string" where
  "format_transaction_timestamp to_locale_string date_time_format created_at_ts =
     to_locale_string (sgn created_at_ts * (\<bar>created_at_ts\<bar> div 1000)) (date_time_format 0)"

end
