(* ===== verification/Qml_Analytics.thy ===== *)
theory Qml_Analytics
  imports Qml_Util
begin

text \<open>
  The segmentations sent with analytics events (\<open>qml/analytics.js\<close>).  A segmentation is an
  object with text, number and flag values; assigning an undefined value is not told apart from
  not assigning.
\<close>

section \<open>Networks and security of a wallet\<close>

definition any_account :: "(js_network \<Rightarrow> bool) \<Rightarrow> js_context \<Rightarrow> bool" where
  "any_account p c = list_ex (\<lambda>a. p (ja_network a)) (accounts (Some c))"

definition wallet_networks :: "js_context \<Rightarrow> string option" where
  "wallet_networks c =
     (let mainnet = any_account (\<lambda>n. jn_mainnet n \<and> \<not> jn_liquid n) c;
          liquid = any_account (\<lambda>n. jn_mainnet n \<and> jn_liquid n) c;
          testnet = any_account (\<lambda>n. \<not> jn_mainnet n \<and> \<not> jn_liquid n) c;
          testnet_liquid = any_account (\<lambda>n. \<not> jn_mainnet n \<and> jn_liquid n) c
      in if jc_mainnet c then
           (if mainnet \<and> liquid then Some ''mainnet-mixed''
            else if mainnet \<and> \<not> liquid then Some ''mainnet''
            else if \<not> mainnet \<and> liquid then Some ''liquid'' else None)
         else
           (if testnet \<and> testnet_liquid then Some ''testnet-mixed''
            else if testnet \<and> \<not> liquid then Some ''testnet''
            else if \<not> testnet \<and> liquid then Some ''testnet-liquid'' else None))"

definition wallet_security :: "js_context \<Rightarrow> string option" where
  "wallet_security c =
     (let singlesig = any_account jn_electrum c; multisig = any_account (\<lambda>n. \<not> jn_electrum n) c
      in if singlesig \<and> multisig then Some ''single-multi''
         else if singlesig then Some ''singlesig''
         else if multisig then Some ''multisig'' else None)"

definition set_opt :: "string \<Rightarrow> string option \<Rightarrow> jobject \<Rightarrow> jobject" where
  "set_opt k v seg = (case v of None \<Rightarrow> seg | Some s \<Rightarrow> qm_insert k (JStr s) seg)"

definition segmentation_network :: "js_context option \<Rightarrow> jobject" where
  "segmentation_network c =
     (let seg = jobj [(''segment'', JStr ''Desktop'')] in
      case c of
        None \<Rightarrow> seg
      | Some ctx \<Rightarrow> set_opt ''security'' (wallet_security ctx)
                      (set_opt ''wallet_networks'' (wallet_networks ctx) seg))"

text \<open>A text that is empty or missing is not set.\<close>

definition set_text :: "string \<Rightarrow> string \<Rightarrow> jobject \<Rightarrow> jobject" where
  "set_text k v seg = (if v = [] then seg else qm_insert k (JStr v) seg)"

definition segmentation_on_board :: "string \<Rightarrow> string \<Rightarrow> string \<Rightarrow> jobject" where
  "segmentation_on_board flow net security = set_text ''security'' security
     (set_text ''network'' net (set_text ''flow'' flow (jobj [(''segment'', JStr ''Desktop'')])))"

section \<open>Sessions\<close>

record js_settings =
  js_use_tor :: bool
  js_use_proxy :: bool
  js_enable_testnet :: bool
  js_use_personal_node :: bool

text \<open>\<open>Array.join(',')\<close>.\<close>

fun join_comma :: "string list \<Rightarrow> string" where
  "join_comma [] = []"
| "join_comma [s] = s"
| "join_comma (s # t # ss) = s @ '','' @ join_comma (t # ss)"

definition app_settings_text :: "js_settings \<Rightarrow> string" where
  "app_settings_text s = join_comma
     ((if js_use_tor s then [''tor''] else []) @ (if js_use_proxy s then [''proxy''] else []) @
      (if js_enable_testnet s then [''testnet''] else []) @
      (if js_use_personal_node s then [''electrum_server''] else []))"

definition set_jade :: "js_device \<Rightarrow> jobject \<Rightarrow> jobject" where
  "set_jade d seg = qm_insert ''connection'' (JStr ''USB'') (qm_insert ''firmware'' (JStr (jd_version d))
     ((case jd_board d of None \<Rightarrow> (\<lambda>s. s) | Some b \<Rightarrow> qm_insert ''model'' b)
       (qm_insert ''brand'' (JStr ''Blockstream'') seg)))"

definition set_ledger :: "string \<Rightarrow> js_device \<Rightarrow> jobject \<Rightarrow> jobject" where
  "set_ledger model d seg = qm_insert ''connection'' (JStr ''USB'')
     (qm_insert ''firmware'' (JStr (jd_app_version d)) (qm_insert ''model'' (JStr model)
       (qm_insert ''brand'' (JStr ''Ledger'') seg)))"

definition set_device :: "js_device option \<Rightarrow> jobject \<Rightarrow> jobject" where
  "set_device dev seg = (case dev of
     None \<Rightarrow> seg
   | Some d \<Rightarrow>
       if jd_type d = 1 then set_jade d seg
       else if jd_type d = 2 then set_ledger ''Ledger Nano S'' d seg
       else if jd_type d = 3 then set_ledger ''Ledger Nano X'' d seg
       else seg)"

definition segmentation_session :: "js_settings \<Rightarrow> js_context option \<Rightarrow> jobject" where
  "segmentation_session st c =
     set_device (case c of None \<Rightarrow> None | Some ctx \<Rightarrow> jc_device ctx)
       (qm_insert ''app_settings'' (JStr (app_settings_text st)) (segmentation_network c))"

definition segmentation_promo :: "js_settings \<Rightarrow> js_context option \<Rightarrow> string \<Rightarrow> string \<Rightarrow> jobject" where
  "segmentation_promo st c promo_id screen =
     qm_insert ''screen'' (JStr screen) (qm_insert ''promo_id'' (JStr promo_id) (segmentation_session st c))"

definition segmentation_firmware_update ::
    "js_settings \<Rightarrow> js_device \<Rightarrow> string \<Rightarrow> bool \<Rightarrow> bool \<Rightarrow> string \<Rightarrow> jobject" where
  "segmentation_firmware_update st d config delta same_config version =
     (let seg = qm_insert ''app_settings'' (JStr (app_settings_text st))
                  (jobj [(''segment'', JStr ''Desktop''), (''selected_config'', JStr config),
                         (''selected_delta'', JBool delta), (''selected_same_config'', JBool same_config),
                         (''selected_version'', JStr version)])
      in if jd_type d = 1 then set_jade d seg else seg)"

definition segmentation_share_transaction ::
    "js_settings \<Rightarrow> js_context \<Rightarrow> string option \<Rightarrow> jobject" where
  "segmentation_share_transaction st c meth = qm_insert ''method''
     (JStr (case meth of None \<Rightarrow> ''copy'' | Some m \<Rightarrow> m)) (segmentation_session st (Some c))"

definition segmentation_wallet_login ::
    "js_settings \<Rightarrow> js_context option \<Rightarrow> string \<Rightarrow> jobject" where
  "segmentation_wallet_login st c meth = qm_insert ''method'' (JStr meth) (segmentation_session st c)"

definition segmentation_sub_account :: "js_settings \<Rightarrow> js_context \<Rightarrow> jobject" where
  "segmentation_sub_account st c = segmentation_session st (Some c)"

definition segmentation_receive_address :: "js_settings \<Rightarrow> js_context \<Rightarrow> string \<Rightarrow> jobject" where
  "segmentation_receive_address st c ty =
     qm_insert ''method'' (JStr ''copy'') (qm_insert ''media'' (JStr ''text'')
       (qm_insert ''type'' (JStr ty) (segmentation_sub_account st c)))"

definition segmentation_transaction ::
    "js_settings \<Rightarrow> js_context \<Rightarrow> string \<Rightarrow> string \<Rightarrow> bool \<Rightarrow> jobject" where
  "segmentation_transaction st c address_input transaction_type with_memo =
     qm_insert ''with_memo'' (JBool with_memo) (qm_insert ''transaction_type'' (JStr transaction_type)
       (qm_insert ''address_input'' (JStr address_input) (segmentation_sub_account st c)))"

text \<open>\<open>Set\<close> keeps the order of first insertion.\<close>

definition first_occurrences :: "string list \<Rightarrow> string list" where
  "first_occurrences xs = foldl (\<lambda>ys x. if x \<in> set ys then ys else ys @ [x]) [] xs"

definition funded :: "js_account \<Rightarrow> bool" where
  "funded a \<longleftrightarrow> filter (\<lambda>p. snd p > 0) (ja_satoshi a) \<noteq> []"

definition segmentation_wallet_active :: "js_settings \<Rightarrow> js_context option \<Rightarrow> jobject" where
  "segmentation_wallet_active st c =
     (let visible = accounts c; n = length (filter funded visible)
      in qm_insert ''accounts_types'' (JStr (join_comma (first_occurrences (map ja_type visible))))
          (qm_insert ''accounts'' (JInt (int (length visible)))
            (qm_insert ''accounts_funded'' (JInt (int n))
              (qm_insert ''wallet_funded'' (JBool (n > 0)) (segmentation_session st c)))))"

definition segmentation_swap ::
    "js_settings \<Rightarrow> js_context option \<Rightarrow> string \<Rightarrow> string \<Rightarrow> jobject" where
  "segmentation_swap st c dest source =
     set_text ''from'' source (set_text ''to'' dest (segmentation_session st c))"

end
