(* ===== verification/Qml_Props.thy ===== *)
theory Qml_Props
  imports Qml_Analytics
begin

text \<open>
  Properties of the user interface's helpers: what incognito mode hides, the shuffle of recovery
  words, the provider hash, labels of times, and the network
  segmentation of analytics events.
\<close>

section \<open>Incognito\<close>

lemma mask_no_digit: "c \<in> set (mask_digits n s) \<Longrightarrow> \<not> is_digit c"
proof (induction n s rule: mask_digits.induct)
  case (2 n c cs)
  then show ?case by (auto simp: is_digit_def split: if_splits)
qed simp

text \<open>
  Incognito mode shows no digit: whatever the amount, its format and the length of the mask,
  the text it leaves has none.
\<close>

lemma incognito_hides_digits:
  assumes "c \<in> set (incognito True v stars)"
  shows "\<not> is_digit c"
  using assms mask_no_digit by (simp add: incognito_def)

section \<open>Shuffle\<close>

lemma shuffle_loop_mset:
  assumes "\<And>i n. 0 < n \<Longrightarrow> pick i n < n"
  shows "mset (shuffle_loop pick i b c) = mset b + mset c"
proof (induction b arbitrary: i c rule: measure_induct_rule [of length])
  case (less b)
  show ?case
  proof (cases "b = []")
    case True
    then show ?thesis by (simp add: shuffle_loop.simps)
  next
    case False
    let ?k = "pick i (length b)"
    have k: "?k < length b" using False assms by simp
    have "mset b = mset (take ?k b @ b ! ?k # drop (?k + 1) b)"
      using id_take_nth_drop [OF k] by simp
    moreover have "mset (shuffle_loop pick (i + 1) (take ?k b @ drop (?k + 1) b) (c @ [b ! ?k]))
        = mset (take ?k b @ drop (?k + 1) b) + mset (c @ [b ! ?k])"
      by (rule less.IH) (use k in auto)
    moreover have "shuffle_loop pick i b c =
        shuffle_loop pick (i + 1) (take ?k b @ drop (?k + 1) b) (c @ [b ! ?k])"
      using False k by (subst shuffle_loop.simps) (simp add: Let_def)
    ultimately show ?thesis by simp
  qed
qed

text \<open>
  The shuffle of the recovery words loses and repeats none: for every source of random
  indices below the number of words left, the result is a permutation of the words.
\<close>

lemma shuffle_permutes:
  assumes "\<And>i n. 0 < n \<Longrightarrow> pick i n < n"
  shows "mset (shuffle pick words) = mset words"
  using shuffle_loop_mset [of pick 0 words "[]"] assms by (simp add: shuffle_def)

section \<open>Analytics\<close>

text \<open>
  A testnet wallet whose visible accounts are all on testnet Liquid is sent without its
  networks, and no wallet is ever sent as \<open>testnet-liquid\<close> unless it mixes mainnet accounts
  into a testnet context: the branch for that value tests the flag of mainnet Liquid.
\<close>

lemma testnet_liquid_unreported:
  assumes "\<forall>a \<in> set (jc_accounts c). jn_mainnet (ja_network a) = jc_mainnet c"
  shows "wallet_networks c \<noteq> Some ''testnet-liquid'' \<and>
    (\<not> jc_mainnet c \<and> (\<forall>a \<in> set (accounts (Some c)). jn_liquid (ja_network a)) \<longrightarrow>
      \<not> jcontains (segmentation_network (Some c)) ''wallet_networks'')"
proof -
  have no_liquid: "\<not> any_account (\<lambda>n. jn_mainnet n \<and> jn_liquid n) c" if "\<not> jc_mainnet c"
    using assms that by (auto simp: any_account_def list_ex_iff accounts_def)
  have "wallet_networks c \<noteq> Some ''testnet-liquid''"
    using no_liquid by (cases "jc_mainnet c") (simp_all add: wallet_networks_def Let_def)
  moreover have "wallet_networks c = None"
    if "\<not> jc_mainnet c" "\<forall>a \<in> set (accounts (Some c)). jn_liquid (ja_network a)"
    using no_liquid [OF that(1)] that
    by (auto simp: wallet_networks_def any_account_def list_ex_iff Let_def)
  ultimately show ?thesis
    by (auto simp: segmentation_network_def set_opt_def Let_def jcontains_jobj qmap_simps split: option.split)
qed

section \<open>Provider colours\<close>

lemma hash_loop:
  "foldl (\<lambda>h c. (push_bit 5 h - h) + of_nat (of_char c)) h0 cs =
    (31 ^ length cs * h0 + word_of_int (\<Sum>i < length cs. 31 ^ (length cs - 1 - i) * int (of_char (cs ! i))) :: 32 word)"
proof (induction cs rule: rev_induct)
  case (snoc c cs)
  have "(\<Sum>i < length (cs @ [c]). 31 ^ (length (cs @ [c]) - 1 - i) * int (of_char ((cs @ [c]) ! i)))
      = (\<Sum>i < length cs. 31 ^ (length cs - i) * int (of_char (cs ! i))) + int (of_char c)"
    by (simp add: nth_append)
  also have "(\<Sum>i < length cs. 31 ^ (length cs - i) * int (of_char (cs ! i)))
      = 31 * (\<Sum>i < length cs. 31 ^ (length cs - 1 - i) * int (of_char (cs ! i)))"
    by (simp add: sum_distrib_left mult.assoc [symmetric] power_Suc [symmetric] Suc_diff_Suc del: power_Suc)
  finally show ?case
    using snoc by (simp add: push_bit_eq_mult algebra_simps)
qed simp

text \<open>
  The colour of a provider is a function of its name that stays in range: the 32-bit loop
  computes the polynomial with base 31 of the character codes modulo \<open>2 ^ 32\<close>, and the hue
  of every name, long ones included, is below 360.
\<close>

lemma provider_hash_polynomial:
  "provider_hash name = word_of_int (\<Sum>i < length name. 31 ^ (length name - 1 - i) * int (of_char (name ! i))) \<and>
   (name \<noteq> [] \<longrightarrow> (\<exists>h. provider_hue name = Some h \<and> 0 \<le> h \<and> h < 360))"
  using hash_loop [of 0 name] by (simp add: provider_hash_def provider_hue_def)

section \<open>Items\<close>

text \<open>An item is visible when it and all its parents are; its position depends on theirs.\<close>

fun ancestry :: "js_item option \<Rightarrow> js_item list" where
  "ancestry None = []"
| "ancestry (Some (JsItem i x y w v parent)) = JsItem i x y w v parent # ancestry parent"

lemma effective_visible_ancestry: "effective_visible item \<longleftrightarrow> list_all ji_visible (ancestry item)"
  by (induction item rule: effective_visible.induct) simp_all

lemma position_reads_ancestry:
  "position_reads item = concat (map (\<lambda>i. [(ji_id i, ''x''), (ji_id i, ''y'')]) (ancestry item))"
  by (induction item rule: position_reads.induct) simp_all

lemma find_child_index_none:
  "\<not> list_ex (\<lambda>c. is_item c \<and> pred c) children \<Longrightarrow> find_child_index is_item pred (Some children) = 0"
proof -
  assume "\<not> list_ex (\<lambda>c. is_item c \<and> pred c) children"
  then have "foldl (\<lambda>index (i, child). if \<not> is_item child then index else if pred child then i else index) k (enumerate n children) = k"
    for k n
    by (induction children arbitrary: n) auto
  then show ?thesis by (simp add: find_child_index_def)
qed

lemma find_child_index_last:
  assumes "is_item c" and "pred c" and "\<not> list_ex (\<lambda>c. is_item c \<and> pred c) ys"
  shows "find_child_index is_item pred (Some (xs @ c # ys)) = length xs"
proof -
  have "foldl (\<lambda>index (i, child). if \<not> is_item child then index else if pred child then i else index) k (enumerate n ys) = k"
    for k n
    using assms(3) by (induction ys arbitrary: n) auto
  then show ?thesis using assms(1,2) by (simp add: find_child_index_def enumerate_append_eq)
qed

end
