(* ===== verification/Spec2Isabelle.thy ===== *)
theory Spec2Isabelle
  imports Dlc_Client_Props Session_Props Task_Props Resolver_Props Ledger_Props Jade_Props
    Jade_Control_Props Wallet_Props Http_Props Context_View_Props Sending_Props Swap_Props Qml_Props
begin

text \<open>
  Verification of the wallet's own logic.

  The program is a Qt desktop wallet.  Its user interface is QML; its logic is C++ under
  \<open>src/\<close>; keys, transactions and servers are handled by the wallet library (GDK), which is
  not part of the repository.  The parts that carry logic of their own, and how they interact:

  \<^item> The DLC negotiation.  \<open>DLCStateMachine\<close> keeps one operation per tracked order.  It asks
    \<open>DLCCoordinatorClient\<close> for contexts, asks the wallet to sign them (a signal), submits the
    signatures, and follows the contract to its settlement by polling.  The client turns each
    operation into an HTTP request and the outcome of the request into one signal, which is what
    the machine listens to.
  \<^item> The task engine.  Everything the wallet asks of GDK is a \<open>Task\<close>: a \<open>TaskDispatcher\<close>
    updates groups of tasks, a group starts a task when its inputs have finished, a task runs one
    asynchronous call of GDK and, for the classes with an authentication handler, the dialogue of
    codes and devices that call needs.  Failure of a task fails all that depend on it.
  \<^item> Sessions and networks.  A \<open>Session\<close> is a connection to one network's servers; it reacts
    to the library's notifications, and tasks read and change it.
  \<^item> Ledger devices.  A device answers one command at a time over reports of 64 bytes; the wallet
    queues commands, puts answers together, finds out which app runs and hence which networks the
    device can serve, and holds conversations with it: keys, messages, and the signing of a
    transaction input by input.  When the library needs a device, a task hands the request to a
    resolver, which asks the device for one thing after the other and returns all of it.
  \<^item> Jade devices.  \<open>JadeAPI\<close> sends numbered requests and keeps a handler for each answer;
    requests wait in a queue, may run out of time, and may ask for something from the web on the
    way.  Signing and firmware updates are conversations of many requests, driven by handlers that
    send the next request when the answer to the last one is good.  Around the protocol, controllers
    choose the firmware to offer, lock a device while it is updated, look for devices and ask the user
    before a device may reach a host.
  \<^item> Wallets and their files.  A wallet is an object with the data it logs in with; the manager lists the
    wallets, writes each to a file of its own and reads the files at the start.  Controllers sign up,
    restore, log in and change or give up PINs, and count the attempts that are left.
  \<^item> The context of a wallet that is logged in: the sessions, accounts, transactions, coins, addresses,
    payments and notifications that the library's answers and the events of the sessions fill and keep up
    to date, and the lists and tables that views make of them.
  \<^item> Sending.  A controller keeps what the user enters, a converter turns the amount into satoshi, and the
    wallet library is asked for the coins and then for a transaction whenever something has changed.
  \<^item> Swaps between Lightning, Liquid and Bitcoin.  Controllers ask the Boltz library for a swap, the wallet
    sends or receives the coins, and a swap object follows the swap until it is over.
  \<^item> The HTTP manager performs the web requests of the other parts one at a time, in a session of its own
    that it drops when it is not used.
  \<^item> The helpers of the user interface (\<open>qml/util.js\<close>, \<open>qml/analytics.js\<close>).

  Theories and the code they model:

  \<^item> \<open>Prelude\<close> -- runs of a step function with its outputs and the interfaces used for
    invariants (\<open>keeps\<close>), promises about outputs (\<open>promises\<close>) and bounded meters
    (\<open>metered\<close>); \<open>QMap\<close> as a sorted association list behind the interface
    \<open>ordered_map\<close>; decimal numbers.
  \<^item> \<open>Json\<close> -- \<open>QJsonValue\<close>, \<open>QJsonObject\<close> and their accessors with their defaults.
  \<^item> \<open>Dlc_Types\<close> (\<open>src/dlc/dlc_coordinator_client.h\<close>), \<open>Dlc_Client\<close>
    (\<open>dlc_coordinator_client.cpp\<close>: one definition per request and one per reply handler),
    \<open>Dlc_Machine\<close> (\<open>dlc_state_machine.cpp\<close>: one definition per method, composed by
    \<open>dlc_step\<close>).
  \<^item> \<open>Dlc_Facts\<close>, \<open>Dlc_Protocol\<close>, \<open>Dlc_Traces\<close> -- the library about the machine: its
    invariant, how each method moves one operation, the abstract protocol of one operation
    (\<open>op_step\<close>) with the simulation, and what runs preserve.  \<open>Dlc_Props\<close> and
    \<open>Dlc_Client_Props\<close> hold its properties.
  \<^item> \<open>Session\<close> (\<open>src/session.cpp\<close>, \<open>src/network.cpp\<close>, and \<open>get_params\<close> of
    \<open>src/task.cpp\<close>); \<open>Session_Props\<close>.
  \<^item> \<open>Task_Engine\<close> (\<open>Task\<close> of \<open>src/task.cpp\<close>), \<open>Task_Calls\<close> (\<open>call\<close> of every
    class and its arguments), \<open>Task_Kinds\<close> (\<open>update\<close>, \<open>handleDone\<close>, the authentication
    handler and its prompts, connection, payments), \<open>Task_Groups\<close> (\<open>TaskGroup\<close>,
    \<open>TaskDispatcher\<close>, \<open>TaskGroupMonitor\<close>, and \<open>engine_step\<close>); \<open>Task_Facts\<close> is the
    library about them and \<open>Task_Props\<close> their properties.
  \<^item> \<open>Ledger_Wire\<close> (streams of bytes, command units, integers of variable length of
    \<open>src/ledger/ledgerdevice.cpp\<close>, packets of \<open>src/devicediscoveryagent_linux.cpp\<close>),
    \<open>Ledger_Device\<close> (\<open>src/device.cpp\<close>, \<open>src/command.h\<close>, the queue, apps and networks),
    \<open>Ledger_Sign\<close> (\<open>ledgersigntransactionactivity.cpp\<close> and the small conversations).
    \<open>Ledger_Facts\<close> (answers and the queue), \<open>Ledger_Codes\<close> (codes that can be read off the
    front of a stream, the interface \<open>prefix_code\<close>, and a reader of transactions made of them) and
    \<open>Ledger_Talk\<close> (conversations written down) are the library about them, \<open>Ledger_Props\<close>
    their properties.
  \<^item> \<open>Resolvers\<close> (\<open>src/resolver.cpp\<close>, \<open>src/signmessageresolver.cpp\<close>, the queue for
    public keys of \<open>src/deviceactivities.cpp\<close>); \<open>Resolver_Props\<close>, where the callback-driven
    resolvers are shown equal to a plain loop.
  \<^item> \<open>Jade_Api\<close> (\<open>src/jade/jadeapi.cpp\<close>: each closure that the code registers as a
    handler is a constructor of \<open>handler\<close>, each call a definition, composed by \<open>jade_step\<close>).
    \<open>Jade_Facts\<close> (numbers, registration, and who owes a call to whom) and \<open>Jade_Talk\<close> (a device
    that answers, and the interface \<open>conversation\<close>) are the library about it; \<open>Jade_Props\<close>
    interprets the interface on signing and on firmware updates and holds the properties.
  \<^item> \<open>Jade_Control\<close> (\<open>src/jade/jadeupdatecontroller.cpp\<close>, \<open>jadelogincontroller.cpp\<close>,
    \<open>jadedevice.cpp\<close>, \<open>jadedeviceserialportdiscoveryagent.cpp\<close>: a definition per controller method
    and reply handler); \<open>Jade_Control_Props\<close>.
  \<^item> \<open>Wallets\<close> (\<open>src/wallet.{h,cpp}\<close>, \<open>src/walletmanager.{h,cpp}\<close>, \<open>src/networkmanager.cpp\<close>: login
    data, records, the manager, names), \<open>Wallet_Flows\<close> (what \<open>controller.cpp\<close>,
    \<open>loginwithpincontroller.cpp\<close>, \<open>signupcontroller.cpp\<close>, \<open>restorecontroller.cpp\<close>,
    \<open>watchonlylogincontroller.cpp\<close> and \<open>PinLoginPage.qml\<close> do to wallets).  \<open>Wallet_Facts\<close> is the
    library about them: the interface \<open>login_format\<close> of what is written and read back, interpreted on
    each kind of login, and wallets that agree with their files; \<open>Wallet_Props\<close>.
  \<^item> \<open>Http_Manager\<close> (\<open>src/httpmanager.cpp\<close>); \<open>Http_Props\<close>.
  \<^item> \<open>Context_Data\<close> (\<open>src/context.{h,cpp}\<close>, \<open>sessionmanager.cpp\<close>, \<open>account.cpp\<close>,
    \<open>output.cpp\<close>, \<open>notification.cpp\<close>: sessions, accounts, coins, notifications), \<open>Context_Flow\<close>
    (\<open>context.cpp\<close>, \<open>transaction.cpp\<close>, \<open>address.cpp\<close>, \<open>payment.cpp\<close>: transactions page by page, events
    of sessions, log-ins to more networks, and \<open>store_step\<close>), \<open>Context_Models\<close>
    (\<open>contextmodel.cpp\<close>), \<open>Context_Select\<close> (\<open>outputlistmodel.cpp\<close>, \<open>outputlistmodelfilter.cpp\<close>: the list
    that coins to spend are selected from).  \<open>Context_Facts\<close> and \<open>Context_Runs\<close> are the library about transactions: the
    interfaces \<open>session_blind\<close> and \<open>tx_invariant\<close> of what does not look at the rest, the registries, and
    steps that are quiet about an account.  \<open>Context_Coins\<close> holds the interfaces of what the
    operations on coins, transactions and the store keep and hence every step (\<open>coin_steps\<close>,
    \<open>tx_steps\<close> and \<open>store_steps\<close>, with \<open>coin_invariant\<close> for what all coins keep), interpreted on indices and on the
    notification about expired coins.  \<open>Context_Marks\<close> interprets them on what a coin is marked with:
    that the inputs of each transaction that an account has been told of are marked spent
    (\<open>inputs_spent\<close>), and that the mark of an expired coin agrees with the block height of its session
    (\<open>marks_ok\<close>).  \<open>Context_Props\<close>, \<open>Context_View_Props\<close>.
  \<^item> \<open>Assets\<close> (\<open>src/asset.{h,cpp}\<close>, with the order of the list), \<open>Convert\<close> (\<open>src/convert.{h,cpp}\<close>),
    \<open>Sending\<close> (\<open>src/createtransactioncontroller.{h,cpp}\<close>: one definition per setter and per task that
    ends, composed by \<open>sender_step\<close>, over a \<open>world\<close> that holds the context's store and the assets and may
    change at any moment).  \<open>Sending_Props\<close>: what a step can do to a request that stands, and the
    properties.
  \<^item> \<open>Swaps\<close> (\<open>src/swap.{h,cpp}\<close>, the list of the context, \<open>lwkcreatesessiontask.cpp\<close>),
    \<open>Swap_Controllers\<close> (\<open>submarinecontroller.cpp\<close>, \<open>chainswapcontroller.cpp\<close>,
    \<open>invoicecontroller.cpp\<close>, \<open>swapquotecontroller.cpp\<close>), composed by \<open>swap_step\<close>.  \<open>Swap_Props\<close>: the
    moves of a pool of swaps as a relation, and what they keep, by rule induction.
  \<^item> \<open>Qml_Util\<close>, \<open>Qml_Analytics\<close>, \<open>Qml_Props\<close>.

  How state and operations correspond to the code.  A class is a record with a field per member
  that its methods read; an object is a record value, or an index into a store where several
  objects refer to each other (tasks, groups and sessions live in the lists of \<open>engine\<close>).  A
  method is a function from state to state and the list of what it does to the outside, in order:
  signals emitted, requests sent, calls handed to a worker thread.  Answers arrive as events, in
  any order, with any content; so a run of \<open>dlc_step\<close> or \<open>engine_step\<close> is any interleaving
  the event loop can produce.  Texts are \<open>string\<close>; an early return leaves the state; a violated
  assertion or an unreachable branch is \<open>None\<close> or an explicit \<open>Unreachable\<close> output.
  Integers of the C++ code keep their width where they can leave it (\<open>QJsonValue::toInt\<close>, the
  timer interval, counts of 32 bits, and the 32-bit hash of the JavaScript code).

  What the properties show.  For the machine: every history of an operation is a path of the
  protocol; what is submitted is what the coordinator asked to sign and the user signed; keys never
  leave the machine; retries are bounded; removed orders are silent; a taker order reaches funding
  when nothing fails.  For the client: what a submission carries, keys that tell operations apart, amounts
  through \<open>double\<close>, the check of the network, and the shape of reply it does not understand.  For the task engine: failure reaches exactly the
  dependants, a task starts only after its inputs, a dispatch makes progress, and calls are made
  only on connected sessions.  For sessions: the invariant and what being connected means.  For
  resolvers: each does what a plain loop over its requests would, and public keys are asked for one at a
  time.  For Ledger devices: answers survive their packets, the queue keeps the order, a device reads the
  transactions it is sent, every command is well formed, and signatures are the device's own answers.
  For Jade devices: a callback is called once and only lost when a number is drawn twice, a signing sends
  no entropy before all commitments are there, and an update sends the firmware.
  Around them: what an update offers.  For wallets: what is read back after a restart, how wrong PINs are
  counted across restarts, names, restoring, and what giving up PINs leaves in the file.  For the HTTP manager: requests are started in order and one at a time, and none is lost.
  For the context: an undisturbed fetch shows exactly what the server has, overlapping fetches do not; the
  user is told of exactly the coins whose expiry the block height has reached; the page of transactions
  never lists a coin again that a transaction spends, also when the transaction is dropped, while the list
  to select coins from shows what the library has answered last; an exported table can be read back.
  For sending: at rest, the transaction that is shown is the library's answer to what is entered; but coins
  of another account, and an amount that has been replaced, can be what is entered as far as the controller
  knows.  For swaps: each is followed until it is over, and not after; a swap that has been paid can be erased.
  For the helpers (\<open>Qml_Props\<close>): what incognito mode hides, the shuffle, hashes and labels.

  Bounds and fuel.  No definition uses fuel.  Forwarding from handler to handler ends because a
  handler is taken out of the map before it is called (\<open>run_handler\<close>).  The search for a name nobody has
  ends because only finitely many names are taken (\<open>search_name\<close>).  The recursion of \<open>Task::setStatus\<close> is modelled by
  \<open>fail_tasks\<close>, a worklist that ends because each step fails a task that had not failed.
  \<open>LoadPaymentsTask\<close>, which fetches pages while the service says that more remain, is driven by
  events, one per page.

  Not modelled: GDK's own behaviour (its answers are events), painting and layout, the connection of a
  Jade device (its CBOR bytes, serial port and Bluetooth), the signing of Liquid transactions with a
  Ledger, the sorting of lists other than that of assets, the making of the session with the swap library,
  promotions, the buying of bitcoin, settings, the editor of recovery words, and the files whose
  implementation is not in the repository (the other headers of \<open>src/dlc/\<close>, the generated bindings of the
  swap library, whose answers are events).  Doubles and locales are parameters.  libwally, which parses transactions and computes keys, is a parameter, and so are hashes
  and signatures.
\<close>

end
